(* ===== verification/Prelude.thy ===== *)
theory Prelude
  imports Main "HOL-Library.AList"
begin

text \<open>
  What every component of the development shares: the collections of rewrite rules the
  component proofs draw on, the result type of fallible code, and lemmas on the association
  lists that stand for the \<^verbatim>\<open>HashMap\<close>s of the source.

  A \<^verbatim>\<open>Result<T, E>\<close> is the sum \<open>'e + 'a\<close> with \<open>Inl\<close> for \<^verbatim>\<open>Err\<close> and \<open>Inr\<close> for \<^verbatim>\<open>Ok\<close>.
  A \<^verbatim>\<open>HashMap<K, V>\<close> is an association list with distinct keys: its order is one iteration
  order of the table, so a theorem about every such list covers every iteration order.
\<close>

named_theorems store_simps \<open>lookups after an update of a component's table\<close>
named_theorems inv_intros \<open>operations keep the invariant of their component\<close>
named_theorems step_defs \<open>definitions of the steps of a component\<close>

type_synonym ('e, 'a) result = "'e + 'a"

text \<open>Instants and durations are natural numbers of nanoseconds.\<close>

type_synonym instant = nat
type_synonym duration = nat

text \<open>Lookups stay lookups: a proof about a table argues by key.\<close>

declare map_of_eq_Some_iff [simp del] Some_eq_map_of_iff [simp del]

subsection \<open>Results\<close>

fun result_bind :: "('e, 'a) result \<Rightarrow> ('a \<Rightarrow> ('e, 'b) result) \<Rightarrow> ('e, 'b) result" where
  "result_bind (Inl e) f = Inl e"
| "result_bind (Inr x) f = f x"

lemma result_bind_Inr_iff:
  "result_bind r f = Inr y \<longleftrightarrow> (\<exists>x. r = Inr x \<and> f x = Inr y)"
  by (cases r) auto

lemma result_bind_Inl_iff:
  "result_bind r f = Inl e \<longleftrightarrow> r = Inl e \<or> (\<exists>x. r = Inr x \<and> f x = Inl e)"
  by (cases r) auto

definition ok_or :: "'a option \<Rightarrow> 'e \<Rightarrow> ('e, 'a) result" where
  "ok_or x e = (case x of None \<Rightarrow> Inl e | Some y \<Rightarrow> Inr y)"

lemma ok_or_simps [simp]:
  "ok_or None e = Inl e"
  "ok_or (Some y) e = Inr y"
  by (simp_all add: ok_or_def)

subsection \<open>Tables\<close>

type_synonym ('k, 'v) table = "('k \<times> 'v) list"

abbreviation keys :: "('k, 'v) table \<Rightarrow> 'k list" where
  "keys xs \<equiv> map fst xs"

abbreviation distinct_keys :: "('k, 'v) table \<Rightarrow> bool" where
  "distinct_keys xs \<equiv> distinct (keys xs)"

text \<open>\<^verbatim>\<open>HashMap::retain\<close>: keep the entries the predicate accepts.\<close>

definition retain :: "('k \<Rightarrow> 'v \<Rightarrow> bool) \<Rightarrow> ('k, 'v) table \<Rightarrow> ('k, 'v) table" where
  "retain P xs = filter (\<lambda>(k, v). P k v) xs"

lemma distinct_keys_retain [inv_intros]:
  "distinct_keys xs \<Longrightarrow> distinct_keys (retain P xs)"
  by (induction xs) (auto simp: retain_def)

lemma keys_retain_subset: "set (keys (retain P xs)) \<subseteq> set (keys xs)"
  by (auto simp: retain_def)

lemma set_retain: "set (retain P xs) = {(k, v). (k, v) \<in> set xs \<and> P k v}"
  by (auto simp: retain_def)

lemma length_retain_le: "length (retain P xs) \<le> length xs"
  by (simp add: retain_def)

lemma map_of_retain [store_simps]:
  assumes "distinct_keys xs"
  shows "map_of (retain P xs) k =
    (case map_of xs k of None \<Rightarrow> None | Some v \<Rightarrow> if P k v then Some v else None)"
  using assms
proof (induction xs)
  case Nil
  then show ?case by (simp add: retain_def)
next
  case (Cons x xs)
  have notin: "map_of (retain P xs) (fst x) = None"
    using Cons.prems keys_retain_subset [of P xs] by (auto simp: map_of_eq_None_iff)
  obtain k' v where x: "x = (k', v)" by (cases x)
  from Cons notin show ?case
    by (cases "k = k'") (auto simp: retain_def x split: option.splits)
qed

lemma map_of_update [store_simps]:
  "map_of (AList.update k v xs) k' = (if k' = k then Some v else map_of xs k')"
  by (simp add: update_conv')

lemma map_of_delete [store_simps]:
  "map_of (AList.delete k xs) k' = (if k' = k then None else map_of xs k')"
  by (simp add: delete_conv')

lemma distinct_keys_update [inv_intros]:
  "distinct_keys xs \<Longrightarrow> distinct_keys (AList.update k v xs)"
  by (rule distinct_update)

lemma distinct_keys_delete [inv_intros]:
  "distinct_keys xs \<Longrightarrow> distinct_keys (AList.delete k xs)"
  by (rule distinct_delete)

lemma length_update_le: "length (AList.update k v xs) \<le> Suc (length xs)"
  by (induction xs) auto

lemma length_update_new:
  "map_of xs k = None \<Longrightarrow> length (AList.update k v xs) = Suc (length xs)"
  by (induction xs) (auto split: if_splits)

lemma set_update_new:
  "map_of xs k = None \<Longrightarrow> set (AList.update k v xs) = insert (k, v) (set xs)"
  by (induction xs) (auto split: if_splits)

lemma update_new: "map_of xs k = None \<Longrightarrow> AList.update k v xs = xs @ [(k, v)]"
  by (induction xs) (auto split: if_splits)

lemma set_delete_subset: "set (AList.delete k xs) \<subseteq> set xs"
  by (auto simp: AList.delete_eq)

lemma set_delete: "set (AList.delete k xs) = {(k', v). (k', v) \<in> set xs \<and> k' \<noteq> k}"
  by (auto simp: AList.delete_eq)

lemma length_delete_present:
  assumes "distinct_keys xs" and "map_of xs k \<noteq> None"
  shows "Suc (length (AList.delete k xs)) = length xs"
  using assms
proof (induction xs)
  case Nil
  then show ?case by simp
next
  case (Cons x xs)
  show ?case
  proof (cases "fst x = k")
    case True
    with Cons.prems have "k \<notin> fst ` set xs" by auto
    then have "filter (\<lambda>(k', _). k \<noteq> k') xs = xs"
      by (intro filter_True) force
    with True show ?thesis by (simp add: AList.delete_eq case_prod_unfold)
  next
    case False
    with Cons show ?thesis by (auto simp: AList.delete_eq case_prod_unfold)
  qed
qed

lemma map_of_SomeI: "distinct_keys xs \<Longrightarrow> (k, v) \<in> set xs \<Longrightarrow> map_of xs k = Some v"
  by (rule map_of_is_SomeI)

subsection \<open>Lists\<close>

text \<open>\<^verbatim>\<open>Iterator::find\<close> and \<^verbatim>\<open>Iterator::any\<close> are \<open>List.find\<close> and \<open>list_ex\<close>.\<close>

lemma find_Some_mem: "List.find P xs = Some x \<Longrightarrow> x \<in> set xs \<and> P x"
  by (induction xs) (auto split: if_splits)

lemma find_None_iff_all: "List.find P xs = None \<longleftrightarrow> (\<forall>x \<in> set xs. \<not> P x)"
  by (induction xs) auto

subsection \<open>Counting the entries of a table\<close>

lemma length_filter_update_le:
  "length (filter P (AList.update k v xs)) \<le> length (filter P xs) + (if P (k, v) then 1 else 0)"
  by (induction xs) auto

lemma length_filter_delete:
  assumes "distinct_keys xs" and "map_of xs k = Some v"
  shows "length (filter P xs) = length (filter P (AList.delete k xs)) + (if P (k, v) then 1 else 0)"
  using assms
proof (induction xs)
  case Nil
  then show ?case by simp
next
  case (Cons x xs)
  show ?case
  proof (cases "fst x = k")
    case True
    with Cons.prems have "k \<notin> fst ` set xs" and v: "snd x = v" by (auto split: if_splits)
    then have "AList.delete k xs = xs" by (intro delete_id) 
    with True v show ?thesis by (cases x) auto
  next
    case False
    with Cons show ?thesis by (cases x) auto
  qed
qed

lemma length_filter_delete_le: "length (filter P (AList.delete k xs)) \<le> length (filter P xs)"
  by (induction xs) auto

lemma length_filter_retain_le: "length (filter P (retain Q xs)) \<le> length (filter P xs)"
  by (induction xs) (auto simp: retain_def)

lemma length_delete_le_list: "length (AList.delete k xs) \<le> length xs"
  by (induction xs) auto

end
