(* ===== verification/Rust_Str.thy ===== *)
theory Rust_Str
  imports Prelude
begin

text \<open>
  Rust's \<^verbatim>\<open>str\<close>: a list of UTF-8 bytes, here HOL's \<open>string\<close> (a \<open>char\<close> is one byte), and the
  operations of the standard library the source uses on it. Operations on Rust's
  \<^verbatim>\<open>char\<close>s (\<^verbatim>\<open>trim\<close>, \<^verbatim>\<open>chars\<close>) go through the UTF-8 decoding below, so \<^verbatim>\<open>is_whitespace\<close>
  and \<^verbatim>\<open>is_control\<close> see code points, as they do in Rust.
\<close>

abbreviation byte :: "char \<Rightarrow> int" where
  "byte c \<equiv> of_char c"

subsection \<open>UTF-8\<close>

definition is_cont :: "int \<Rightarrow> bool" where
  "is_cont b \<longleftrightarrow> 128 \<le> b \<and> b \<le> 191"

text \<open>The first scalar value of a byte list and the bytes it takes; \<open>None\<close> when the bytes
  do not start with a well-formed sequence (overlong forms, surrogates and values past
  \<open>0x10FFFF\<close> are ill-formed).\<close>

definition utf8_step :: "string \<Rightarrow> (int \<times> string) option" where
  "utf8_step s =
    (let b = map byte s in
     case b of
       [] \<Rightarrow> None
     | b0 # r \<Rightarrow>
       if b0 \<le> 127 then Some (b0, take 1 s)
       else if 194 \<le> b0 \<and> b0 \<le> 223 then
         (case r of b1 # _ \<Rightarrow>
            if is_cont b1 then Some ((b0 - 192) * 64 + (b1 - 128), take 2 s) else None
          | _ \<Rightarrow> None)
       else if 224 \<le> b0 \<and> b0 \<le> 239 then
         (case r of b1 # b2 # _ \<Rightarrow>
            if is_cont b1 \<and> is_cont b2 \<and> (b0 = 224 \<longrightarrow> 160 \<le> b1) \<and> (b0 = 237 \<longrightarrow> b1 \<le> 159)
            then Some (((b0 - 224) * 64 + (b1 - 128)) * 64 + (b2 - 128), take 3 s) else None
          | _ \<Rightarrow> None)
       else if 240 \<le> b0 \<and> b0 \<le> 244 then
         (case r of b1 # b2 # b3 # _ \<Rightarrow>
            if is_cont b1 \<and> is_cont b2 \<and> is_cont b3
               \<and> (b0 = 240 \<longrightarrow> 144 \<le> b1) \<and> (b0 = 244 \<longrightarrow> b1 \<le> 143)
            then Some ((((b0 - 240) * 64 + (b1 - 128)) * 64 + (b2 - 128)) * 64 + (b3 - 128), take 4 s)
            else None
          | _ \<Rightarrow> None)
       else None)"

lemma utf8_step_bytes:
  "utf8_step s = Some (cp, bs) \<Longrightarrow> bs = take (length bs) s \<and> 1 \<le> length bs \<and> length bs \<le> length s"
  by (auto simp: utf8_step_def Let_def map_eq_Cons_conv split: list.splits if_splits)

lemma utf8_step_cases:
  assumes "utf8_step s = Some (cp, bs)"
  obtains
    (one) x r where "s = x # r" "byte x \<le> 127" "cp = byte x" "bs = [x]"
  | (two) x y r where "s = x # y # r" "bs = [x, y]" "194 \<le> byte x" "byte x \<le> 223"
      "is_cont (byte y)" "cp = (byte x - 192) * 64 + (byte y - 128)"
  | (three) x y z r where "s = x # y # z # r" "bs = [x, y, z]" "224 \<le> byte x" "byte x \<le> 239"
      "is_cont (byte y)" "is_cont (byte z)" "byte x = 224 \<longrightarrow> 160 \<le> byte y"
      "byte x = 237 \<longrightarrow> byte y \<le> 159"
      "cp = ((byte x - 224) * 64 + (byte y - 128)) * 64 + (byte z - 128)"
  | (four) x y z w r where "s = x # y # z # w # r" "bs = [x, y, z, w]" "240 \<le> byte x"
      "byte x \<le> 244" "is_cont (byte y)" "is_cont (byte z)" "is_cont (byte w)"
      "byte x = 240 \<longrightarrow> 144 \<le> byte y" "byte x = 244 \<longrightarrow> byte y \<le> 143"
      "cp = (((byte x - 240) * 64 + (byte y - 128)) * 64 + (byte z - 128)) * 64 + (byte w - 128)"
  using assms
  unfolding utf8_step_def Let_def
  by (auto simp: map_eq_Cons_conv numeral_eq_Suc split: list.splits if_splits)

text \<open>The characters of a string with the bytes of each. A byte that starts no well-formed
  sequence (impossible in a \<^verbatim>\<open>str\<close>) counts as U+FFFD.\<close>

function utf8_chunks :: "string \<Rightarrow> (int \<times> string) list" where
  "utf8_chunks [] = []"
| "utf8_chunks (c # cs) =
     (case utf8_step (c # cs) of
        Some (cp, bs) \<Rightarrow> (cp, bs) # utf8_chunks (drop (length bs) (c # cs))
      | None \<Rightarrow> (65533, [c]) # utf8_chunks cs)"
  by pat_completeness auto
termination
  by (relation "measure length") (auto dest!: utf8_step_bytes)

lemma concat_utf8_chunks: "concat (map snd (utf8_chunks s)) = s"
proof (induction s rule: utf8_chunks.induct)
  case 1
  then show ?case by simp
next
  case (2 c cs)
  show ?case
  proof (cases "utf8_step (c # cs)")
    case None
    with "2.IH" show ?thesis by simp
  next
    case (Some p)
    obtain cp bs where p: "p = (cp, bs)" by (cases p)
    with Some have bs: "bs = take (length bs) (c # cs)"
      by (auto dest: utf8_step_bytes)
    have "concat (map snd (utf8_chunks (drop (length bs) (c # cs)))) = drop (length bs) (c # cs)"
      using "2.IH" Some p by blast
    then have "concat (map snd (utf8_chunks (c # cs))) = bs @ drop (length bs) (c # cs)"
      using Some p by simp
    also have "\<dots> = c # cs"
      using bs append_take_drop_id [of "length bs" "c # cs"] by simp
    finally show ?thesis .
  qed
qed

text \<open>\<^verbatim>\<open>str::chars\<close>, and \<^verbatim>\<open>str::from_utf8\<close>'s test.\<close>

definition chars :: "string \<Rightarrow> int list" where
  "chars s = map fst (utf8_chunks s)"

function utf8_valid :: "string \<Rightarrow> bool" where
  "utf8_valid [] = True"
| "utf8_valid (c # cs) =
     (case utf8_step (c # cs) of
        Some (cp, bs) \<Rightarrow> utf8_valid (drop (length bs) (c # cs))
      | None \<Rightarrow> False)"
  by pat_completeness auto
termination
  by (relation "measure length") (auto dest!: utf8_step_bytes)

text \<open>An ASCII byte is always a character of its own: a multi-byte sequence holds none.\<close>

lemma utf8_step_ascii:
  "utf8_step s = Some (cp, bs) \<Longrightarrow> c \<in> set bs \<Longrightarrow> byte c < 128 \<Longrightarrow> cp = byte c"
  by (auto simp: utf8_step_def Let_def map_eq_Cons_conv is_cont_def numeral_2_eq_2 numeral_3_eq_3
      numeral_eq_Suc split: list.splits if_splits)

lemma chars_ascii: "c \<in> set s \<Longrightarrow> byte c < 128 \<Longrightarrow> byte c \<in> set (chars s)"
proof (induction s rule: utf8_chunks.induct)
  case 1
  then show ?case by simp
next
  case (2 c' cs)
  show ?case
  proof (cases "utf8_step (c' # cs)")
    case None
    have "c \<noteq> c'"
    proof
      assume "c = c'"
      with "2.prems" None show False by (simp add: utf8_step_def)
    qed
    with 2 None show ?thesis by (simp add: chars_def)
  next
    case (Some p)
    obtain cp bs where p: "p = (cp, bs)" by (cases p)
    with Some have step: "utf8_step (c' # cs) = Some (cp, bs)" by simp
    then have bs: "bs = take (length bs) (c' # cs)" by (simp add: utf8_step_bytes)
    show ?thesis
    proof (cases "c \<in> set bs")
      case True
      with step "2.prems" have "cp = byte c" by (blast intro: utf8_step_ascii)
      with step show ?thesis by (simp add: chars_def)
    next
      case False
      have "set (c' # cs) = set bs \<union> set (drop (length bs) (c' # cs))"
        using bs by (metis append_take_drop_id set_append)
      with "2.prems" False have "c \<in> set (drop (length bs) (c' # cs))" by blast
      then have "byte c \<in> set (chars (drop (length bs) (c' # cs)))"
        using "2.IH" Some p "2.prems"(2) by blast
      with step show ?thesis by (simp add: chars_def)
    qed
  qed
qed

text \<open>Conversely an ASCII character of a well-formed text is one of its bytes.\<close>

lemma utf8_step_ascii_value:
  assumes "utf8_step s = Some (cp, bs)" and "cp < 128"
  shows "\<exists>c. bs = [c] \<and> byte c = cp"
  using assms by (cases rule: utf8_step_cases) (auto simp: is_cont_def)

lemma chars_ascii_iff:
  assumes "utf8_valid s" and "byte c < 128"
  shows "byte c \<in> set (chars s) \<longleftrightarrow> c \<in> set s"
proof
  show "c \<in> set s \<Longrightarrow> byte c \<in> set (chars s)" using assms(2) by (rule chars_ascii [rotated])
next
  show "byte c \<in> set (chars s) \<Longrightarrow> c \<in> set s"
    using assms(1)
  proof (induction s rule: utf8_valid.induct)
    case 1
    then show ?case by (simp add: chars_def)
  next
    case (2 x xs)
    obtain cp bs where step: "utf8_step (x # xs) = Some (cp, bs)"
      and rest: "utf8_valid (drop (length bs) (x # xs))"
      using "2.prems"(2) by (auto split: option.splits)
    with "2.prems"(1) have "byte c = cp \<or> byte c \<in> set (chars (drop (length bs) (x # xs)))"
      by (simp add: chars_def)
    then show ?case
    proof
      assume "byte c = cp"
      with utf8_step_ascii_value [OF step] assms(2) have "bs = [c]" by auto
      with utf8_step_bytes [OF step] show ?thesis by auto
    next
      assume "byte c \<in> set (chars (drop (length bs) (x # xs)))"
      with "2.IH" step rest have "c \<in> set (drop (length bs) (x # xs))" by blast
      then show ?thesis by (rule in_set_dropD)
    qed
  qed
qed

text \<open>Cutting a \<^verbatim>\<open>str\<close> at an ASCII byte leaves two \<^verbatim>\<open>str\<close>s.\<close>

lemma utf8_step_own_bytes:
  assumes "utf8_step s = Some (cp, bs)"
  shows "utf8_step (bs @ t) = Some (cp, bs)"
  using assms by (cases rule: utf8_step_cases) (simp_all add: utf8_step_def)

lemma utf8_step_multi:
  assumes "utf8_step s = Some (cp, bs)" and "c \<in> set bs" and "byte c < 128"
  shows "length bs = 1"
  using assms by (cases rule: utf8_step_cases) (auto simp: is_cont_def)

lemma utf8_step_cut:
  assumes step: "utf8_step (a @ c # b) = Some (cp, bs)" and "a \<noteq> []" and "byte c < 128"
  shows "utf8_step a = Some (cp, bs)"
proof -
  from step have bs: "bs = take (length bs) (a @ c # b)" by (rule utf8_step_bytes [THEN conjunct1])
  have "length bs \<le> length a"
  proof (rule ccontr)
    assume long: "\<not> length bs \<le> length a"
    then obtain k where "length bs - length a = Suc k"
      by (metis Suc_diff_Suc not_le)
    with bs have "bs = take (length bs) a @ c # take k b" by simp
    then have "c \<in> set bs" by (metis in_set_conv_decomp)
    then have "length bs = 1" using utf8_step_multi [OF step _ assms(3)] by blast
    with long assms(2) show False by (cases a) auto
  qed
  then have "take (length bs) (a @ c # b) = take (length bs) a" by simp
  with bs have "a = bs @ drop (length bs) a" by (metis append_take_drop_id)
  with utf8_step_own_bytes [OF step] show ?thesis by metis
qed

lemma utf8_valid_cut:
  "utf8_valid (a @ c # b) \<Longrightarrow> byte c < 128 \<Longrightarrow> utf8_valid a \<and> utf8_valid b"
proof (induction a rule: utf8_valid.induct)
  case 1
  then show ?case
    by (simp add: utf8_step_def)
next
  case (2 x xs)
  obtain cp bs where step: "utf8_step ((x # xs) @ c # b) = Some (cp, bs)"
    and rest: "utf8_valid (drop (length bs) ((x # xs) @ c # b))"
    using "2.prems"(1) by (auto split: option.splits)
  have own: "utf8_step (x # xs) = Some (cp, bs)"
    by (rule utf8_step_cut [OF step _ "2.prems"(2)]) simp
  then have len: "length bs \<le> length (x # xs)"
    using utf8_step_bytes by blast
  from rest len have "utf8_valid (drop (length bs) (x # xs) @ c # b)"
    by (simp only: drop_append) simp
  with "2.IH" own "2.prems"(2) have "utf8_valid (drop (length bs) (x # xs)) \<and> utf8_valid b"
    by blast
  with own show ?case by simp
qed

text \<open>\<^verbatim>\<open>char::is_whitespace\<close> (the Unicode property White\_Space) and \<^verbatim>\<open>char::is_control\<close>
  (the general category Cc).\<close>

definition is_whitespace :: "int \<Rightarrow> bool" where
  "is_whitespace c \<longleftrightarrow>
     (9 \<le> c \<and> c \<le> 13) \<or> c = 32 \<or> c = 133 \<or> c = 160 \<or> c = 5760
     \<or> (8192 \<le> c \<and> c \<le> 8202) \<or> c = 8232 \<or> c = 8233 \<or> c = 8239 \<or> c = 8287 \<or> c = 12288"

definition is_control :: "int \<Rightarrow> bool" where
  "is_control c \<longleftrightarrow> c \<le> 31 \<or> (127 \<le> c \<and> c \<le> 159)"

definition trim :: "string \<Rightarrow> string" where
  "trim s = concat (map snd (rev (dropWhile (is_whitespace \<circ> fst)
              (rev (dropWhile (is_whitespace \<circ> fst) (utf8_chunks s))))))"

definition trim_start :: "string \<Rightarrow> string" where
  "trim_start s = concat (map snd (dropWhile (is_whitespace \<circ> fst) (utf8_chunks s)))"

subsection \<open>Prefixes, suffixes, splitting\<close>

definition strip_prefix :: "string \<Rightarrow> string \<Rightarrow> string option" where
  "strip_prefix p s = (if take (length p) s = p then Some (drop (length p) s) else None)"

definition strip_suffix :: "string \<Rightarrow> string \<Rightarrow> string option" where
  "strip_suffix p s =
     (if length p \<le> length s \<and> drop (length s - length p) s = p
      then Some (take (length s - length p) s) else None)"

definition unwrap_or :: "'a option \<Rightarrow> 'a \<Rightarrow> 'a" where
  "unwrap_or x d = (case x of Some y \<Rightarrow> y | None \<Rightarrow> d)"

lemma unwrap_or_simps [simp]: "unwrap_or None d = d" "unwrap_or (Some y) d = y"
  by (simp_all add: unwrap_or_def)

fun split_on :: "char \<Rightarrow> string \<Rightarrow> string list" where
  "split_on c [] = [[]]"
| "split_on c (x # xs) =
     (if x = c then [] # split_on c xs
      else (case split_on c xs of [] \<Rightarrow> [[x]] | h # t \<Rightarrow> (x # h) # t))"

definition split_once :: "char \<Rightarrow> string \<Rightarrow> (string \<times> string) option" where
  "split_once c s =
     (if c \<in> set s then Some (takeWhile (\<lambda>x. x \<noteq> c) s, tl (dropWhile (\<lambda>x. x \<noteq> c) s)) else None)"

lemma strip_prefix_Some: "strip_prefix p s = Some r \<longleftrightarrow> s = p @ r"
  by (auto simp: strip_prefix_def) (metis append_take_drop_id)

lemma strip_suffix_Some: "strip_suffix p s = Some r \<longleftrightarrow> s = r @ p"
  by (auto simp: strip_suffix_def) (metis append_take_drop_id)

lemma split_on_nonempty [simp]: "split_on c s \<noteq> []"
  by (induction s) (auto split: list.splits)

lemma split_on_no_sep: "x \<in> set (split_on c s) \<Longrightarrow> c \<notin> set x"
proof (induction s arbitrary: x)
  case Nil
  then show ?case by simp
next
  case (Cons a s)
  obtain h t where ht: "split_on c s = h # t"
    using split_on_nonempty [of c s] by (cases "split_on c s") auto
  have "y \<in> set (h # t) \<Longrightarrow> c \<notin> set y" for y
    using Cons.IH ht by simp
  then have mem: "y = h \<or> y \<in> set t \<Longrightarrow> c \<notin> set y" for y
    by auto
  show ?case
  proof (cases "a = c")
    case True
    with Cons.prems Cons.IH show ?thesis by auto
  next
    case False
    with Cons.prems ht have "x = a # h \<or> x \<in> set t" by auto
    with False mem show ?thesis by auto
  qed
qed

lemma split_once_Some:
  "split_once c s = Some (a, b) \<longleftrightarrow> s = a @ c # b \<and> c \<notin> set a"
proof
  assume "split_once c s = Some (a, b)"
  then have c: "c \<in> set s" and a: "a = takeWhile (\<lambda>x. x \<noteq> c) s"
    and b: "b = tl (dropWhile (\<lambda>x. x \<noteq> c) s)"
    by (auto simp: split_once_def split: if_splits)
  from c have ne: "dropWhile (\<lambda>x. x \<noteq> c) s \<noteq> []"
    by auto
  then have "hd (dropWhile (\<lambda>x. x \<noteq> c) s) = c"
    using hd_dropWhile [OF ne] by simp
  with ne b have "dropWhile (\<lambda>x. x \<noteq> c) s = c # b"
    by (metis list.collapse)
  then have "s = a @ c # b"
    using a takeWhile_dropWhile_id [of "\<lambda>x. x \<noteq> c" s] by simp
  moreover have "c \<notin> set a" using a set_takeWhileD by fastforce
  ultimately show "s = a @ c # b \<and> c \<notin> set a" by simp
next
  assume "s = a @ c # b \<and> c \<notin> set a"
  then show "split_once c s = Some (a, b)"
    by (auto simp: split_once_def takeWhile_append dropWhile_append)
qed

lemma split_on_append_sep: "split_on c (a @ c # b) = split_on c a @ split_on c b"
  by (induction a) (auto split: list.splits)

lemma split_on_none: "c \<notin> set s \<Longrightarrow> split_on c s = [s]"
  by (induction s) auto

lemma utf8_valid_split_on:
  assumes "utf8_valid s" and "byte c < 128" and "x \<in> set (split_on c s)"
  shows "utf8_valid x"
  using assms
proof (induction s arbitrary: x rule: measure_induct_rule [where f = length])
  case (less s)
  show ?case
  proof (cases "c \<in> set s")
    case False
    with less.prems show ?thesis by (simp add: split_on_none)
  next
    case True
    then obtain a b where s: "s = a @ c # b" and "c \<notin> set a"
      by (meson split_list_first)
    then have "split_on c s = a # split_on c b"
      by (simp add: split_on_append_sep split_on_none)
    with less.prems(3) have "x = a \<or> x \<in> set (split_on c b)" by simp
    with less.prems(1,2) less.IH [of b x] show ?thesis
      by (auto simp: s dest: utf8_valid_cut)
  qed
qed

subsection \<open>ASCII classes and case\<close>

definition is_ascii_digit :: "char \<Rightarrow> bool" where
  "is_ascii_digit c \<longleftrightarrow> 48 \<le> byte c \<and> byte c \<le> 57"

definition is_ascii_alphanumeric :: "char \<Rightarrow> bool" where
  "is_ascii_alphanumeric c \<longleftrightarrow> is_ascii_digit c
     \<or> (65 \<le> byte c \<and> byte c \<le> 90) \<or> (97 \<le> byte c \<and> byte c \<le> 122)"

definition to_ascii_lower :: "char \<Rightarrow> char" where
  "to_ascii_lower c = (if 65 \<le> byte c \<and> byte c \<le> 90 then char_of (byte c + 32) else c)"

definition to_ascii_lowercase :: "string \<Rightarrow> string" where
  "to_ascii_lowercase s = map to_ascii_lower s"

definition eq_ignore_ascii_case :: "string \<Rightarrow> string \<Rightarrow> bool" where
  "eq_ignore_ascii_case a b \<longleftrightarrow> to_ascii_lowercase a = to_ascii_lowercase b"

lemma to_ascii_lower_idem [simp]: "to_ascii_lower (to_ascii_lower c) = to_ascii_lower c"
  by (auto simp: to_ascii_lower_def of_char_of)

lemma to_ascii_lowercase_idem [simp]:
  "to_ascii_lowercase (to_ascii_lowercase s) = to_ascii_lowercase s"
  by (simp add: to_ascii_lowercase_def)

lemma eq_ignore_ascii_case_lower [simp]:
  "eq_ignore_ascii_case (to_ascii_lowercase a) b = eq_ignore_ascii_case a b"
  by (simp add: eq_ignore_ascii_case_def)

lemma eq_ignore_ascii_case_refl [simp]: "eq_ignore_ascii_case a a"
  by (simp add: eq_ignore_ascii_case_def)

end
