(* ===== verification/Ip_Addr.thy ===== *)
theory Ip_Addr
  imports Rust_Str "HOL-Library.Word"
begin

unbundle bit_operations_syntax

text \<open>
  The addresses of \<^verbatim>\<open>std::net\<close>: an \<^verbatim>\<open>Ipv4Addr\<close> as its 32 bits, an \<^verbatim>\<open>Ipv6Addr\<close> as its
  128 bits (what \<^verbatim>\<open>u32::from\<close> and \<^verbatim>\<open>u128::from\<close> read), their constructors and tests, and
  the parser behind \<^verbatim>\<open>str::parse::<IpAddr>()\<close>. The parser follows the standard library's
  recursive descent: each reader returns the value and the rest of the input.
\<close>

type_synonym ipv4 = "32 word"
type_synonym ipv6 = "128 word"

datatype ip_addr = V4 ipv4 | V6 ipv6

definition ipv4_new :: "int \<Rightarrow> int \<Rightarrow> int \<Rightarrow> int \<Rightarrow> ipv4" where
  "ipv4_new a b c d = word_of_int (((a * 256 + b) * 256 + c) * 256 + d)"

definition ipv6_of_segments :: "int list \<Rightarrow> ipv6" where
  "ipv6_of_segments gs = word_of_int (foldl (\<lambda>acc g. acc * 65536 + g) 0 gs)"

definition v4_is_loopback :: "ipv4 \<Rightarrow> bool" where
  "v4_is_loopback ip \<longleftrightarrow> drop_bit 24 ip = 127"

definition v6_is_loopback :: "ipv6 \<Rightarrow> bool" where
  "v6_is_loopback ip \<longleftrightarrow> ip = 1"

text \<open>\<^verbatim>\<open>Ipv6Addr::to_ipv4_mapped\<close>: the address inside \<open>::ffff:a.b.c.d\<close>.\<close>

definition to_ipv4_mapped :: "ipv6 \<Rightarrow> ipv4 option" where
  "to_ipv4_mapped ip = (if drop_bit 32 ip = 0xffff then Some (ucast ip) else None)"

definition ipv6_mapped :: "ipv4 \<Rightarrow> ipv6" where
  "ipv6_mapped v4 = push_bit 32 0xffff OR ucast v4"

subsection \<open>The parser\<close>

definition hex_digit :: "char \<Rightarrow> int option" where
  "hex_digit c = (let b = byte c in
     if 48 \<le> b \<and> b \<le> 57 then Some (b - 48)
     else if 97 \<le> b \<and> b \<le> 102 then Some (b - 87)
     else if 65 \<le> b \<and> b \<le> 70 then Some (b - 55)
     else None)"

definition to_digit :: "int \<Rightarrow> char \<Rightarrow> int option" where
  "to_digit radix c = (case hex_digit c of Some d \<Rightarrow> if d < radix then Some d else None | None \<Rightarrow> None)"

text \<open>At most \<open>max_digits\<close> digits, no leading zero unless allowed, a value at most \<open>limit\<close>.\<close>

definition read_number :: "int \<Rightarrow> nat \<Rightarrow> bool \<Rightarrow> int \<Rightarrow> string \<Rightarrow> (int \<times> string) option" where
  "read_number radix max_digits zero_prefix limit s =
     (let ds = takeWhile (\<lambda>c. to_digit radix c \<noteq> None) s;
          v = foldl (\<lambda>acc c. acc * radix + unwrap_or (to_digit radix c) 0) 0 ds
      in if ds = [] \<or> max_digits < length ds
            \<or> (\<not> zero_prefix \<and> take 1 ds = ''0'' \<and> 1 < length ds) \<or> limit < v
         then None else Some (v, drop (length ds) s))"

definition read_given :: "string \<Rightarrow> string \<Rightarrow> string option" where
  "read_given p s = strip_prefix p s"

definition read_separator ::
  "string \<Rightarrow> bool \<Rightarrow> (string \<Rightarrow> ('a \<times> string) option) \<Rightarrow> string \<Rightarrow> ('a \<times> string) option" where
  "read_separator sep first inner s =
     (if first then inner s else Option.bind (read_given sep s) inner)"

fun read_octets :: "nat \<Rightarrow> bool \<Rightarrow> string \<Rightarrow> (int list \<times> string) option" where
  "read_octets 0 first s = Some ([], s)"
| "read_octets (Suc n) first s =
     (case read_separator ''.'' first (read_number 10 3 False 255) s of
        None \<Rightarrow> None
      | Some (v, r) \<Rightarrow>
        (case read_octets n False r of None \<Rightarrow> None | Some (vs, r') \<Rightarrow> Some (v # vs, r')))"

definition read_ipv4 :: "string \<Rightarrow> (int list \<times> string) option" where
  "read_ipv4 s = read_octets 4 True s"

definition v4_groups :: "int list \<Rightarrow> int list" where
  "v4_groups os = [(os ! 0) * 256 + os ! 1, (os ! 2) * 256 + os ! 3]"

text \<open>Up to \<open>n\<close> groups, ending early at an embedded IPv4 address (two groups).\<close>

fun read_groups :: "nat \<Rightarrow> bool \<Rightarrow> string \<Rightarrow> int list \<times> bool \<times> string" where
  "read_groups 0 first s = ([], False, s)"
| "read_groups (Suc n) first s =
     (case (if 1 \<le> n then read_separator '':'' first read_ipv4 s else None) of
        Some (os, r) \<Rightarrow> (v4_groups os, True, r)
      | None \<Rightarrow>
        (case read_separator '':'' first (read_number 16 4 True 65535) s of
           Some (g, r) \<Rightarrow> (case read_groups n False r of (gs, v4, r') \<Rightarrow> (g # gs, v4, r'))
         | None \<Rightarrow> ([], False, s)))"

definition read_ipv6 :: "string \<Rightarrow> (int list \<times> string) option" where
  "read_ipv6 s =
     (case read_groups 8 True s of (head, head_v4, r) \<Rightarrow>
        if length head = 8 then Some (head, r)
        else if head_v4 then None
        else (case read_given ''::'' r of
                None \<Rightarrow> None
              | Some r' \<Rightarrow>
                (case read_groups (8 - (length head + 1)) True r' of (tail, _, r'') \<Rightarrow>
                   Some (head @ replicate (8 - length head - length tail) 0 @ tail, r''))))"

definition parse_ip :: "string \<Rightarrow> ip_addr option" where
  "parse_ip s =
     (case read_ipv4 s of
        Some (os, r) \<Rightarrow>
          if r = [] then Some (V4 (ipv4_new (os ! 0) (os ! 1) (os ! 2) (os ! 3))) else None
      | None \<Rightarrow>
        (case read_ipv6 s of
           Some (gs, r) \<Rightarrow> if r = [] then Some (V6 (ipv6_of_segments gs)) else None
         | None \<Rightarrow> None))"

lemma parse_ip_examples:
  "parse_ip ''127.0.0.1'' = Some (V4 0x7f000001)"
  "parse_ip ''::1'' = Some (V6 1)"
  "parse_ip ''::ffff:10.0.0.1'' = Some (V6 0xffff0a000001)"
  "parse_ip ''1.2.3.04'' = None"
  "parse_ip ''fd00:ec2::254'' = Some (V6 0xfd000ec2000000000000000000000254)"
  by code_simp+

end
