(* ===== verification/Deny_List.thy ===== *)
theory Deny_List
  imports Ip_Addr
begin

text \<open>
  The address deny list of the guarded fetch (\<^verbatim>\<open>src/http_client/guard/deny.rs\<close>): the two
  tables of denied prefixes, the masks that test them, and \<open>is_denied_ip\<close>. The lemmas read
  a prefix test as a comparison of the high bits, hence as an interval of addresses, and list
  the denied IPv4 space as the eleven intervals the table spells.
\<close>

text \<open>\<^verbatim>\<open>u32::MAX.checked_shl(32 - prefix).unwrap_or(0)\<close>, for either width: \<^verbatim>\<open>checked_shl\<close>
  answers \<^verbatim>\<open>None\<close> for a shift by the whole width or more.\<close>

definition checked_shl :: "'a::len word \<Rightarrow> nat \<Rightarrow> 'a word option" where
  "checked_shl w n = (if n < LENGTH('a) then Some (push_bit n w) else None)"

definition prefix_mask :: "nat \<Rightarrow> 'a::len word" where
  "prefix_mask p = unwrap_or (checked_shl (- 1) (LENGTH('a) - p)) 0"

definition DENIED_V4 :: "(ipv4 \<times> nat) list" where
  "DENIED_V4 =
     [(ipv4_new 0 0 0 0, 8),
      (ipv4_new 10 0 0 0, 8),
      (ipv4_new 172 16 0 0, 12),
      (ipv4_new 192 168 0 0, 16),
      (ipv4_new 100 64 0 0, 10),
      (ipv4_new 127 0 0 0, 8),
      (ipv4_new 169 254 0 0, 16),
      (ipv4_new 192 0 0 0, 24),
      (ipv4_new 198 18 0 0, 15),
      (ipv4_new 224 0 0 0, 4),
      (ipv4_new 240 0 0 0, 4)]"

definition DENIED_V6 :: "(ipv6 \<times> nat) list" where
  "DENIED_V6 =
     [(ipv6_of_segments [0, 0, 0, 0, 0, 0, 0, 0], 96),
      (ipv6_of_segments [0x64, 0xff9b, 0, 0, 0, 0, 0, 0], 96),
      (ipv6_of_segments [0x64, 0xff9b, 1, 0, 0, 0, 0, 0], 48),
      (ipv6_of_segments [0x2001, 0, 0, 0, 0, 0, 0, 0], 32),
      (ipv6_of_segments [0x2002, 0, 0, 0, 0, 0, 0, 0], 16),
      (ipv6_of_segments [0xfc00, 0, 0, 0, 0, 0, 0, 0], 7),
      (ipv6_of_segments [0xfe80, 0, 0, 0, 0, 0, 0, 0], 10),
      (ipv6_of_segments [0xfec0, 0, 0, 0, 0, 0, 0, 0], 10),
      (ipv6_of_segments [0xff00, 0, 0, 0, 0, 0, 0, 0], 8)]"

definition is_denied_v4 :: "ipv4 \<Rightarrow> bool" where
  "is_denied_v4 ip =
     list_ex (\<lambda>(network, p). let m = prefix_mask p in ip AND m = network AND m) DENIED_V4"

definition is_denied_v6 :: "ipv6 \<Rightarrow> bool" where
  "is_denied_v6 ip =
     list_ex (\<lambda>(network, p). let m = prefix_mask p in ip AND m = network AND m) DENIED_V6"

definition is_denied_ip :: "ip_addr \<Rightarrow> bool" where
  "is_denied_ip ip =
     (case ip of
        V4 v4 \<Rightarrow> is_denied_v4 v4
      | V6 v6 \<Rightarrow> (case to_ipv4_mapped v6 of None \<Rightarrow> is_denied_v6 v6 | Some v4 \<Rightarrow> is_denied_v4 v4))"

subsection \<open>A mask test compares the high bits\<close>

lemma prefix_mask_eq:
  "p \<le> LENGTH('a) \<Longrightarrow> prefix_mask p = (NOT (mask (LENGTH('a) - p)) :: 'a::len word)"
  by (cases p) (auto simp: prefix_mask_def checked_shl_def)

lemma and_not_mask_eq_iff:
  fixes a b :: "'a::len word"
  shows "a AND NOT (mask n) = b AND NOT (mask n) \<longleftrightarrow> drop_bit n a = drop_bit n b"
proof
  assume eq: "a AND NOT (mask n) = b AND NOT (mask n)"
  have dr: "drop_bit n (c AND NOT (mask n)) = drop_bit n c" for c :: "'a word"
    by (rule bit_word_eqI) (auto simp: bit_simps dest: bit_imp_le_length)
  show "drop_bit n a = drop_bit n b"
    using arg_cong [OF eq, of "drop_bit n"] by (simp only: dr)
next
  assume eq: "drop_bit n a = drop_bit n b"
  have pu: "push_bit n (drop_bit n c) = c AND NOT (mask n)" for c :: "'a word"
    by (rule bit_word_eqI) (auto simp: bit_simps)
  show "a AND NOT (mask n) = b AND NOT (mask n)"
    using arg_cong [OF eq, of "push_bit n"] by (simp only: pu)
qed

lemma drop_bit_eq_iff_range:
  fixes a b :: "'a::len word"
  assumes "2 ^ n dvd unat b"
  shows "drop_bit n a = drop_bit n b \<longleftrightarrow> unat b \<le> unat a \<and> unat a < unat b + 2 ^ n"
proof -
  have "drop_bit n a = drop_bit n b \<longleftrightarrow> unat a div 2 ^ n = unat b div 2 ^ n"
    by (metis drop_bit_eq_div unat_drop_bit_eq unsigned_word_eqI)
  also have "\<dots> \<longleftrightarrow> unat b \<le> unat a \<and> unat a < unat b + 2 ^ n"
  proof -
    from assms obtain k where k: "unat b = 2 ^ n * k" by (elim dvdE)
    have pos: "(0::nat) < 2 ^ n" by simp
    have "unat a div 2 ^ n = k \<longleftrightarrow> 2 ^ n * k \<le> unat a \<and> unat a < 2 ^ n * Suc k"
      by (auto intro!: div_nat_eqI simp: dividend_less_times_div)
    then show ?thesis using k pos by (simp add: algebra_simps)
  qed
  finally show ?thesis .
qed

text \<open>One row of a table: the prefix test as an interval.\<close>

lemma prefix_test_range:
  fixes ip net hi :: "'a::len word"
  assumes "p \<le> LENGTH('a)" and "2 ^ (LENGTH('a) - p) dvd unat net"
    and "unat hi + 1 = unat net + 2 ^ (LENGTH('a) - p)"
  shows "(ip AND prefix_mask p = net AND prefix_mask p) \<longleftrightarrow> net \<le> ip \<and> ip \<le> hi"
  using assms
  by (simp add: prefix_mask_eq and_not_mask_eq_iff drop_bit_eq_iff_range word_le_nat_alt) linarith

text \<open>A table and a list of intervals that spells its rows, in order.\<close>

definition row_range :: "'a::len word \<times> nat \<Rightarrow> 'a word \<times> 'a word \<Rightarrow> bool" where
  "row_range row rng =
     (snd row \<le> LENGTH('a) \<and> fst rng = fst row \<and> 2 ^ (LENGTH('a) - snd row) dvd unat (fst row)
      \<and> unat (snd rng) + 1 = unat (fst row) + 2 ^ (LENGTH('a) - snd row))"

lemma table_ranges:
  fixes ip :: "'a::len word"
  assumes "list_all2 row_range rows ranges"
  shows "list_ex (\<lambda>(net, p). let m = prefix_mask p in ip AND m = net AND m) rows
    \<longleftrightarrow> list_ex (\<lambda>(lo, hi). lo \<le> ip \<and> ip \<le> hi) ranges"
  using assms
  by (induction rule: list_all2_induct)
    (auto simp: row_range_def Let_def prefix_test_range)

subsection \<open>The denied space as intervals\<close>

definition denied_v4_ranges :: "(ipv4 \<times> ipv4) list" where
  "denied_v4_ranges =
     [(ipv4_new 0 0 0 0, ipv4_new 0 255 255 255),
      (ipv4_new 10 0 0 0, ipv4_new 10 255 255 255),
      (ipv4_new 172 16 0 0, ipv4_new 172 31 255 255),
      (ipv4_new 192 168 0 0, ipv4_new 192 168 255 255),
      (ipv4_new 100 64 0 0, ipv4_new 100 127 255 255),
      (ipv4_new 127 0 0 0, ipv4_new 127 255 255 255),
      (ipv4_new 169 254 0 0, ipv4_new 169 254 255 255),
      (ipv4_new 192 0 0 0, ipv4_new 192 0 0 255),
      (ipv4_new 198 18 0 0, ipv4_new 198 19 255 255),
      (ipv4_new 224 0 0 0, ipv4_new 239 255 255 255),
      (ipv4_new 240 0 0 0, ipv4_new 255 255 255 255)]"

definition denied_v6_ranges :: "(ipv6 \<times> ipv6) list" where
  "denied_v6_ranges =
     [(ipv6_of_segments [0, 0, 0, 0, 0, 0, 0, 0],
       ipv6_of_segments [0, 0, 0, 0, 0, 0, 0xffff, 0xffff]),
      (ipv6_of_segments [0x64, 0xff9b, 0, 0, 0, 0, 0, 0],
       ipv6_of_segments [0x64, 0xff9b, 0, 0, 0, 0, 0xffff, 0xffff]),
      (ipv6_of_segments [0x64, 0xff9b, 1, 0, 0, 0, 0, 0],
       ipv6_of_segments [0x64, 0xff9b, 1, 0xffff, 0xffff, 0xffff, 0xffff, 0xffff]),
      (ipv6_of_segments [0x2001, 0, 0, 0, 0, 0, 0, 0],
       ipv6_of_segments [0x2001, 0, 0xffff, 0xffff, 0xffff, 0xffff, 0xffff, 0xffff]),
      (ipv6_of_segments [0x2002, 0, 0, 0, 0, 0, 0, 0],
       ipv6_of_segments [0x2002, 0xffff, 0xffff, 0xffff, 0xffff, 0xffff, 0xffff, 0xffff]),
      (ipv6_of_segments [0xfc00, 0, 0, 0, 0, 0, 0, 0],
       ipv6_of_segments [0xfdff, 0xffff, 0xffff, 0xffff, 0xffff, 0xffff, 0xffff, 0xffff]),
      (ipv6_of_segments [0xfe80, 0, 0, 0, 0, 0, 0, 0],
       ipv6_of_segments [0xfebf, 0xffff, 0xffff, 0xffff, 0xffff, 0xffff, 0xffff, 0xffff]),
      (ipv6_of_segments [0xfec0, 0, 0, 0, 0, 0, 0, 0],
       ipv6_of_segments [0xfeff, 0xffff, 0xffff, 0xffff, 0xffff, 0xffff, 0xffff, 0xffff]),
      (ipv6_of_segments [0xff00, 0, 0, 0, 0, 0, 0, 0],
       ipv6_of_segments [0xffff, 0xffff, 0xffff, 0xffff, 0xffff, 0xffff, 0xffff, 0xffff])]"

lemma denied_v4_rows: "list_all2 row_range DENIED_V4 denied_v4_ranges"
  by (simp add: DENIED_V4_def denied_v4_ranges_def row_range_def ipv4_new_def)

lemma denied_v6_rows: "list_all2 row_range DENIED_V6 denied_v6_ranges"
  by (simp add: DENIED_V6_def denied_v6_ranges_def row_range_def ipv6_of_segments_def)

lemma is_denied_v6_ranges:
  "is_denied_v6 ip \<longleftrightarrow> list_ex (\<lambda>(lo, hi). lo \<le> ip \<and> ip \<le> hi) denied_v6_ranges"
  unfolding is_denied_v6_def by (rule table_ranges) (rule denied_v6_rows)

subsection \<open>Embedded IPv4 addresses\<close>

lemma to_ipv4_mapped_mapped: "to_ipv4_mapped (ipv6_mapped v4) = Some v4"
proof -
  have hi: "drop_bit 32 (ipv6_mapped v4) = 0xffff"
    unfolding ipv6_mapped_def
    by (rule bit_word_eqI) (auto simp: bit_simps dest: bit_imp_le_length)
  have "(ucast (push_bit 32 h OR ucast v4) :: ipv4) = v4" for h :: ipv6
    by (rule bit_word_eqI) (auto simp: bit_simps)
  then have lo: "(ucast (ipv6_mapped v4) :: ipv4) = v4"
    unfolding ipv6_mapped_def .
  from hi lo show ?thesis by (simp add: to_ipv4_mapped_def)
qed

text \<open>
  An IPv4 address is denied exactly when it lies in one of the eleven documented
  intervals (this network, the three private ranges, carrier-grade NAT, loopback,
  link-local, protocol assignments, benchmarking, multicast, reserved), ends included.
\<close>

theorem is_denied_v4_ranges:
  "is_denied_v4 ip \<longleftrightarrow> list_ex (\<lambda>(lo, hi). lo \<le> ip \<and> ip \<le> hi) denied_v4_ranges"
  unfolding is_denied_v4_def by (rule table_ranges) (rule denied_v4_rows)

text \<open>
  An IPv4 address written in its IPv4-mapped IPv6 form is judged exactly as the address
  itself, so the deny list cannot be stepped around by the spelling.
\<close>

theorem is_denied_mapped: "is_denied_ip (V6 (ipv6_mapped v4)) = is_denied_ip (V4 v4)"
  by (simp add: is_denied_ip_def to_ipv4_mapped_mapped)

end
