(* ===== verification/Fetch_Policy.thy ===== *)
theory Fetch_Policy
  imports Deny_List "HOL-Library.Sublist"
begin

text \<open>
  The three fetch policies and the rules each applies to a URL
  (\<^verbatim>\<open>src/http_client/guard/policy.rs\<close>), with the errors they answer
  (\<^verbatim>\<open>src/http_client/guard/error.rs\<close>).

  The \<^verbatim>\<open>url\<close> crate is not under \<^verbatim>\<open>src/\<close>: a parsed URL is the record of what the code reads
  of it, and the parser is an argument (\<open>parse_url\<close>). So is \<^verbatim>\<open>percent_decode_str\<close>
  (\<open>decode\<close>), the bytes a percent-encoded segment stands for.
\<close>

datatype guard_error =
    InvalidUrl
  | SchemeNotAllowed
  | CredentialsInUrl
  | PortNotAllowed
  | MissingHost
  | HostNotAllowed
  | PathNotAllowed
  | LocalName
  | DeniedAddress
  | Unresolvable
  | TooManyRedirects
  | BodyTooLarge nat
  | IdleTimeout
  | TotalTimeout
  | Transport string

datatype url_host = Domain string | Ipv4 ipv4 | Ipv6 ipv6

record url =
  url_scheme :: string
  url_username :: string
  url_password :: "string option"
  url_port :: "nat option"
  url_host :: "url_host option"
  url_path :: string

definition MAX_REDIRECTS :: nat where
  "MAX_REDIRECTS = 5"

subsection \<open>Path prefixes\<close>

record path_prefix =
  pp_segments :: "string list"
  pp_directory :: bool

text \<open>The characters a configured segment may not hold.\<close>

definition bad_prefix_char :: "int \<Rightarrow> bool" where
  "bad_prefix_char c \<longleftrightarrow> c = byte CHR ''%'' \<or> c = 92 \<or> c = byte CHR ''?'' \<or> c = byte CHR ''#''
     \<or> is_control c \<or> is_whitespace c"

definition invalid_segment :: "string \<Rightarrow> bool" where
  "invalid_segment segment \<longleftrightarrow>
     segment = '''' \<or> segment = ''.'' \<or> segment = ''..'' \<or> list_ex bad_prefix_char (chars segment)"

definition pp_parse :: "string \<Rightarrow> (unit, path_prefix option) result" where
  "pp_parse text =
     (if text = '''' then Inr None
      else
        (case (case strip_suffix ''/'' text of Some rest \<Rightarrow> (rest, True) | None \<Rightarrow> (text, False)) of
           (text', directory) \<Rightarrow>
             let segments = split_on CHR ''/'' text' in
             if list_ex invalid_segment segments then Inl ()
             else Inr (Some \<lparr>pp_segments = segments, pp_directory = directory\<rparr>)))"

text \<open>The characters a decoded URL segment may not hold.\<close>

definition ambiguous_char :: "int \<Rightarrow> bool" where
  "ambiguous_char c \<longleftrightarrow> c = byte CHR ''/'' \<or> c = 92 \<or> c = byte CHR ''%'' \<or> is_control c"

definition ambiguous_segment :: "string \<Rightarrow> bool" where
  "ambiguous_segment text \<longleftrightarrow> text = ''.'' \<or> text = ''..'' \<or> list_ex ambiguous_char (chars text)"

text \<open>The loop over the raw segments: \<open>None\<close> is the early \<^verbatim>\<open>return false\<close>.\<close>

fun decode_segments :: "(string \<Rightarrow> string) \<Rightarrow> string list \<Rightarrow> string list option" where
  "decode_segments decode [] = Some []"
| "decode_segments decode (segment # rest) =
     (if segment = '''' \<and> rest \<noteq> [] then None
      else if \<not> utf8_valid (decode segment) then None
      else if ambiguous_segment (decode segment) then None
      else map_option ((#) (decode segment)) (decode_segments decode rest))"

definition pop_empty :: "string list \<Rightarrow> string list" where
  "pop_empty decoded = (if decoded \<noteq> [] \<and> last decoded = '''' then butlast decoded else decoded)"

definition pp_admits :: "(string \<Rightarrow> string) \<Rightarrow> path_prefix \<Rightarrow> string \<Rightarrow> bool" where
  "pp_admits decode pp path =
     (case strip_prefix ''/'' path of
        None \<Rightarrow> False
      | Some path' \<Rightarrow>
        (case decode_segments decode (split_on CHR ''/'' path') of
           None \<Rightarrow> False
         | Some segments \<Rightarrow>
           let decoded = pop_empty segments;
               enough = (if pp_directory pp then length (pp_segments pp) < length decoded
                         else length (pp_segments pp) \<le> length decoded)
           in enough \<and> list_all (\<lambda>(expected, actual). expected = actual) (zip (pp_segments pp) decoded)))"

subsection \<open>Allowlist entries\<close>

datatype allowed_host = AllowedDomain string | AllowedIp ip_addr

record allowed_entry =
  ae_host :: allowed_host
  ae_path :: "path_prefix option"

definition host_matches :: "allowed_host \<Rightarrow> url_host \<Rightarrow> bool" where
  "host_matches allowed host =
     (case (allowed, host) of
        (AllowedDomain name, Domain domain) \<Rightarrow>
          eq_ignore_ascii_case name (unwrap_or (strip_suffix ''.'' domain) domain)
      | (AllowedIp ip, Ipv4 v4) \<Rightarrow> ip = V4 v4
      | (AllowedIp ip, Ipv6 v6) \<Rightarrow> ip = V6 v6
      | _ \<Rightarrow> False)"

datatype invalid_reason = ReasonHost | ReasonMissingHost | ReasonPrefix | ReasonShadowed

record invalid_entry =
  ie_entry :: string
  ie_reason :: invalid_reason

definition is_unmatchable_domain :: "string \<Rightarrow> bool" where
  "is_unmatchable_domain host =
     list_ex (\<lambda>c. c \<in> byte ` set '':@[]%?#'' \<or> c = 92 \<or> is_whitespace c \<or> is_control c) (chars host)"

text \<open>The host an entry spells: brackets of an IPv6 literal and one trailing dot removed.\<close>

definition entry_host :: "string \<Rightarrow> string" where
  "entry_host host =
     (let host = unwrap_or (Option.bind (strip_prefix ''['' host) (strip_suffix '']'')) host
      in unwrap_or (strip_suffix ''.'' host) host)"

definition parse_host :: "string \<Rightarrow> (invalid_reason, allowed_host) result" where
  "parse_host host =
     (case parse_ip host of
        Some ip \<Rightarrow> Inr (AllowedIp ip)
      | None \<Rightarrow> if is_unmatchable_domain host then Inl ReasonHost
                else Inr (AllowedDomain (to_ascii_lowercase host)))"

definition parse_entry :: "string \<Rightarrow> (invalid_entry, allowed_entry option) result" where
  "parse_entry text =
     (let entry = trim text;
          invalid = (\<lambda>reason. Inl \<lparr>ie_entry = entry, ie_reason = reason\<rparr>)
      in case (case split_once CHR ''/'' entry of
                 None \<Rightarrow> (entry, None) | Some (host, path) \<Rightarrow> (host, Some path)) of
           (host0, path) \<Rightarrow>
             let host = entry_host host0 in
             if host = '''' then (case path of None \<Rightarrow> Inr None | Some _ \<Rightarrow> invalid ReasonMissingHost)
             else (case parse_host host of
                     Inl reason \<Rightarrow> invalid reason
                   | Inr allowed \<Rightarrow>
                     (case path of
                        None \<Rightarrow> Inr (Some \<lparr>ae_host = allowed, ae_path = None\<rparr>)
                      | Some p \<Rightarrow>
                        (case pp_parse p of
                           Inl _ \<Rightarrow> invalid ReasonPrefix
                         | Inr pp \<Rightarrow> Inr (Some \<lparr>ae_host = allowed, ae_path = pp\<rparr>)))))"

subsection \<open>Allowlists\<close>

type_synonym allowlist = "allowed_entry list"

fun allowlist_new :: "string list \<Rightarrow> allowlist" where
  "allowlist_new [] = []"
| "allowlist_new (text # texts) =
     (case parse_entry text of
        Inr (Some entry) \<Rightarrow> entry # allowlist_new texts
      | _ \<Rightarrow> allowlist_new texts)"

fun parse_entries :: "string list \<Rightarrow> (invalid_entry, (string \<times> allowed_entry) list) result" where
  "parse_entries [] = Inr []"
| "parse_entries (text # texts) =
     (case parse_entry text of
        Inl e \<Rightarrow> Inl e
      | Inr None \<Rightarrow> parse_entries texts
      | Inr (Some entry) \<Rightarrow>
        (case parse_entries texts of Inl e \<Rightarrow> Inl e | Inr rest \<Rightarrow> Inr ((trim text, entry) # rest)))"

definition shadowed :: "(string \<times> allowed_entry) list \<Rightarrow> string \<times> allowed_entry \<Rightarrow> bool" where
  "shadowed parsed prefixed \<longleftrightarrow>
     ae_path (snd prefixed) \<noteq> None
     \<and> list_ex (\<lambda>(_, bare). ae_path bare = None \<and> ae_host bare = ae_host (snd prefixed)) parsed"

definition allowlist_try_new :: "string list \<Rightarrow> (invalid_entry, allowlist) result" where
  "allowlist_try_new texts =
     (case parse_entries texts of
        Inl e \<Rightarrow> Inl e
      | Inr parsed \<Rightarrow>
        (case List.find (shadowed parsed) parsed of
           Some (text, _) \<Rightarrow> Inl \<lparr>ie_entry = text, ie_reason = ReasonShadowed\<rparr>
         | None \<Rightarrow> Inr (map snd parsed)))"

definition from_comma_separated :: "string \<Rightarrow> allowlist" where
  "from_comma_separated text = allowlist_new (split_on CHR '','' text)"

definition try_from_comma_separated :: "string \<Rightarrow> (invalid_entry, allowlist) result" where
  "try_from_comma_separated text = allowlist_try_new (split_on CHR '','' text)"

text \<open>The scan of \<^verbatim>\<open>HostAllowlist::admits\<close> over the entries matching the host, with its flag.\<close>

fun admits_scan ::
  "(string \<Rightarrow> string) \<Rightarrow> string \<Rightarrow> bool \<Rightarrow> allowed_entry list \<Rightarrow> (guard_error, unit) result" where
  "admits_scan decode path listed [] = Inl (if listed then PathNotAllowed else HostNotAllowed)"
| "admits_scan decode path listed (entry # entries) =
     (case ae_path entry of
        None \<Rightarrow> Inr ()
      | Some pp \<Rightarrow>
        if pp_admits decode pp path then Inr () else admits_scan decode path True entries)"

definition allowlist_admits ::
  "(string \<Rightarrow> string) \<Rightarrow> allowlist \<Rightarrow> url_host \<Rightarrow> url \<Rightarrow> (guard_error, unit) result" where
  "allowlist_admits decode entries host u =
     admits_scan decode (url_path u) False (filter (\<lambda>entry. host_matches (ae_host entry) host) entries)"

subsection \<open>Policies\<close>

datatype policy = Webhook | Allowlist allowlist | ArchiveFetch allowlist

definition applies_deny_list :: "policy \<Rightarrow> bool" where
  "applies_deny_list p = (case p of Allowlist _ \<Rightarrow> False | _ \<Rightarrow> True)"

definition max_redirects :: "policy \<Rightarrow> nat" where
  "max_redirects p = (case p of Webhook \<Rightarrow> 0 | _ \<Rightarrow> MAX_REDIRECTS)"

definition https_only :: "policy \<Rightarrow> bool" where
  "https_only p = (case p of ArchiveFetch _ \<Rightarrow> True | _ \<Rightarrow> False)"

definition is_local_name :: "string \<Rightarrow> bool" where
  "is_local_name domain =
     (let domain = unwrap_or (strip_suffix ''.'' domain) domain;
          last_label = last (split_on CHR ''.'' domain)
      in list_ex (eq_ignore_ascii_case last_label) [''localhost'', ''local'', ''internal''])"

definition scheme_ok :: "policy \<Rightarrow> string \<Rightarrow> bool" where
  "scheme_ok p scheme =
     (case p of ArchiveFetch _ \<Rightarrow> scheme = ''https'' | _ \<Rightarrow> scheme = ''http'' \<or> scheme = ''https'')"

definition check_host :: "(ip_addr \<Rightarrow> bool) \<Rightarrow> url_host \<Rightarrow> (guard_error, unit) result" where
  "check_host refuses host =
     (case host of
        Domain domain \<Rightarrow> if is_local_name domain then Inl LocalName else Inr ()
      | Ipv4 v4 \<Rightarrow> if refuses (V4 v4) then Inl DeniedAddress else Inr ()
      | Ipv6 v6 \<Rightarrow> if refuses (V6 v6) then Inl DeniedAddress else Inr ())"

definition check ::
  "(string \<Rightarrow> string) \<Rightarrow> policy \<Rightarrow> (ip_addr \<Rightarrow> bool) \<Rightarrow> url \<Rightarrow> (guard_error, unit) result" where
  "check decode p refuses u =
     (if \<not> scheme_ok p (url_scheme u) then Inl SchemeNotAllowed
      else if url_username u \<noteq> '''' \<or> url_password u \<noteq> None then Inl CredentialsInUrl
      else if https_only p \<and> url_port u \<noteq> None then Inl PortNotAllowed
      else result_bind (ok_or (url_host u) MissingHost) (\<lambda>host.
           result_bind (case p of Webhook \<Rightarrow> Inr ()
                        | Allowlist hosts \<Rightarrow> allowlist_admits decode hosts host u
                        | ArchiveFetch hosts \<Rightarrow> allowlist_admits decode hosts host u) (\<lambda>_.
           if \<not> applies_deny_list p then Inr () else check_host refuses host)))"

definition check_url ::
  "(string \<Rightarrow> string) \<Rightarrow> (string \<Rightarrow> url option) \<Rightarrow> policy \<Rightarrow> string \<Rightarrow> (guard_error, url) result" where
  "check_url decode parse_url p text =
     result_bind (ok_or (parse_url text) InvalidUrl) (\<lambda>u.
     result_bind (check decode p is_denied_ip u) (\<lambda>_. Inr u))"

record fetch_limits =
  max_body_bytes :: nat
  connect_timeout :: duration
  idle_timeout :: duration
  total_timeout :: duration

definition secs :: "nat \<Rightarrow> duration" where
  "secs n = n * 1000000000"

definition default_limits :: "policy \<Rightarrow> fetch_limits" where
  "default_limits p =
     (case p of
        Webhook \<Rightarrow>
          \<lparr>max_body_bytes = 1024 * 1024, connect_timeout = secs 5,
           idle_timeout = secs 10, total_timeout = secs 10\<rparr>
      | Allowlist _ \<Rightarrow>
          \<lparr>max_body_bytes = 16 * 1024 * 1024, connect_timeout = secs 5,
           idle_timeout = secs 30, total_timeout = secs 120\<rparr>
      | ArchiveFetch _ \<Rightarrow>
          \<lparr>max_body_bytes = 1024 * 1024 * 1024, connect_timeout = secs 10,
           idle_timeout = secs 60, total_timeout = secs (30 * 60)\<rparr>)"

subsection \<open>What a prefix admits\<close>

text \<open>The unambiguous reading of a URL path: its decoded segments, without the empty one a
  trailing slash leaves.\<close>

definition path_names :: "(string \<Rightarrow> string) \<Rightarrow> string \<Rightarrow> string list option" where
  "path_names decode path =
     (case strip_prefix ''/'' path of
        None \<Rightarrow> None
      | Some path' \<Rightarrow> map_option pop_empty (decode_segments decode (split_on CHR ''/'' path')))"

lemma zip_equal_prefix:
  "length xs \<le> length ys \<Longrightarrow> list_all (\<lambda>(x, y). x = y) (zip xs ys) \<longleftrightarrow> prefix xs ys"
  by (induction xs ys rule: list_induct2') auto

lemma prefix_zip_equal: "prefix xs ys \<Longrightarrow> list_all (\<lambda>(x, y). x = y) (zip xs ys)"
  by (induction xs ys rule: list_induct2') auto

lemma strict_prefix_length_iff: "strict_prefix xs ys \<longleftrightarrow> prefix xs ys \<and> length xs < length ys"
  by (metis append_eq_conv_conj nat_neq_iff not_equal_is_parallel parallelD1 prefix_def
      prefix_length_less prefix_order.less_le strict_prefix_def take_all_iff order.refl)

lemma decode_segments_unambiguous:
  "decode_segments decode raw = Some names \<Longrightarrow> n \<in> set names \<Longrightarrow>
   \<not> ambiguous_segment n \<and> utf8_valid n"
  by (induction raw arbitrary: names) (auto split: if_splits)

lemma set_pop_empty: "set (pop_empty names) \<subseteq> set names"
  by (auto simp: pop_empty_def dest: in_set_butlastD)

lemma path_names_unambiguous:
  "path_names decode path = Some names \<Longrightarrow> n \<in> set names \<Longrightarrow>
   \<not> ambiguous_segment n \<and> utf8_valid n"
  using decode_segments_unambiguous set_pop_empty
  by (fastforce simp: path_names_def split: option.splits)

lemma unambiguous_plain:
  assumes "\<not> ambiguous_segment n"
  shows "n \<noteq> ''.''" and "n \<noteq> ''..''" and "CHR ''/'' \<notin> set n" and "CHR ''%'' \<notin> set n"
    and "char_of (92 :: int) \<notin> set n"
proof -
  show "n \<noteq> ''.''" and "n \<noteq> ''..''"
    using assms by (auto simp: ambiguous_segment_def)
  have no: "\<not> ambiguous_char (byte c)" if "c \<in> set n" and "byte c < 128" for c
    using assms chars_ascii [OF that] by (auto simp: ambiguous_segment_def list_ex_iff)
  from no show "CHR ''/'' \<notin> set n" and "CHR ''%'' \<notin> set n" and "char_of (92 :: int) \<notin> set n"
    by (force simp: ambiguous_char_def)+
qed

lemma pp_admits_eq:
  "pp_admits decode pp path =
     (case path_names decode path of
        None \<Rightarrow> False
      | Some names \<Rightarrow>
        (if pp_directory pp then strict_prefix (pp_segments pp) names
         else prefix (pp_segments pp) names))"
  by (auto simp: pp_admits_def path_names_def Let_def strict_prefix_length_iff zip_equal_prefix
      less_imp_le_nat prefix_zip_equal dest: prefix_length_le split: option.splits)

text \<open>
  C25: what a path prefix admits is confined to it. An admitted path has one unambiguous
  reading into decoded segments, none of them a dot segment and none holding a separator, a
  backslash or a further percent sign, and the configured segments are a prefix of that
  reading, a proper one when the prefix names a directory.
\<close>

theorem pp_admits_confined:
  assumes "pp_admits decode pp path"
  shows "\<exists>names. path_names decode path = Some names
    \<and> (if pp_directory pp then strict_prefix (pp_segments pp) names else prefix (pp_segments pp) names)
    \<and> list_all (\<lambda>n. n \<noteq> ''.'' \<and> n \<noteq> ''..'' \<and> CHR ''/'' \<notin> set n \<and> char_of (92 :: int) \<notin> set n
        \<and> CHR ''%'' \<notin> set n) names"
proof -
  from assms obtain names where names: "path_names decode path = Some names"
    and "if pp_directory pp then strict_prefix (pp_segments pp) names
      else prefix (pp_segments pp) names"
    by (auto simp: pp_admits_eq split: option.splits)
  moreover have "list_all (\<lambda>n. n \<noteq> ''.'' \<and> n \<noteq> ''..'' \<and> CHR ''/'' \<notin> set n
      \<and> char_of (92 :: int) \<notin> set n \<and> CHR ''%'' \<notin> set n) names"
    using path_names_unambiguous [OF names] unambiguous_plain by (simp add: list_all_iff)
  ultimately show ?thesis by blast
qed

theorem pp_admits_confined_witness:
  "\<exists>names. path_names (\<lambda>s. s) ''/bucket/a.zip'' = Some names
    \<and> strict_prefix [''bucket''] names
    \<and> list_all (\<lambda>n. n \<noteq> ''.'' \<and> n \<noteq> ''..'' \<and> CHR ''/'' \<notin> set n \<and> char_of (92 :: int) \<notin> set n
        \<and> CHR ''%'' \<notin> set n) names"
proof -
  have "pp_admits (\<lambda>s. s) \<lparr>pp_segments = [''bucket''], pp_directory = True\<rparr> ''/bucket/a.zip''"
    by code_simp
  from pp_admits_confined [OF this] show ?thesis by simp
qed

lemma decode_segments_plain:
  assumes "list_all (\<lambda>s. s \<noteq> '''' \<and> decode s = s \<and> utf8_valid s \<and> \<not> ambiguous_segment s) segs"
  shows "decode_segments decode segs = Some segs"
  using assms by (induction segs) auto

lemma decode_segments_plain_slash:
  assumes "list_all (\<lambda>s. s \<noteq> '''' \<and> decode s = s \<and> utf8_valid s \<and> \<not> ambiguous_segment s) segs"
    and "decode '''' = ''''"
  shows "decode_segments decode (segs @ ['''']) = Some (segs @ [''''])"
  using assms by (induction segs) (auto simp: ambiguous_segment_def chars_def)

lemma valid_segment_plain:
  assumes "\<not> invalid_segment s" and "utf8_valid s" and "CHR ''%'' \<notin> set s \<Longrightarrow> decode s = s"
    and "CHR ''/'' \<notin> set s"
  shows "s \<noteq> '''' \<and> decode s = s \<and> utf8_valid s \<and> \<not> ambiguous_segment s"
proof -
  from assms(1) have plain: "\<not> list_ex bad_prefix_char (chars s)"
    by (simp add: invalid_segment_def)
  then have "byte (CHR ''%'') \<notin> set (chars s)"
    by (auto simp: list_ex_iff bad_prefix_char_def)
  then have "CHR ''%'' \<notin> set s" using chars_ascii [of "CHR ''%''" s] by auto
  moreover have "byte (CHR ''/'') \<notin> set (chars s)"
    using assms(2,4) chars_ascii_iff [of s "CHR ''/''"] by simp
  ultimately show ?thesis
    using assms plain
    by (auto simp: invalid_segment_def ambiguous_segment_def list_ex_iff ambiguous_char_def
        bad_prefix_char_def)
qed

text \<open>
  Reading an entry's prefix and matching a URL against it agree: the prefix a text spells
  admits that very path, unless it ends in a slash (it then names a directory, and only what
  is inside it is admitted). The decoder is only assumed to leave a text without a percent
  sign as it is.
\<close>

theorem pp_parse_admits:
  assumes parsed: "pp_parse text = Inr (Some pp)" and valid: "utf8_valid text"
    and decode: "\<And>s. CHR ''%'' \<notin> set s \<Longrightarrow> decode s = s"
  shows "pp_admits decode pp (CHR ''/'' # text) = (\<not> pp_directory pp)"
proof -
  obtain text' directory
    where td: "(case strip_suffix ''/'' text of Some rest \<Rightarrow> (rest, True) | None \<Rightarrow> (text, False))
        = (text', directory)" by force
  with parsed have segs: "pp_segments pp = split_on CHR ''/'' text'"
    and dir: "pp_directory pp = directory"
    and ok: "\<not> list_ex invalid_segment (split_on CHR ''/'' text')"
    by (auto simp: pp_parse_def Let_def split: if_splits)
  from td have text_eq: "text = text' @ (if directory then ''/'' else '''')"
    by (auto simp: strip_suffix_Some split: option.splits)
  have "utf8_valid text'"
    using valid utf8_valid_cut [of text' "CHR ''/''" "''''"] by (cases directory) (auto simp: text_eq)
  then have "utf8_valid s" if "s \<in> set (split_on CHR ''/'' text')" for s
    using utf8_valid_split_on [of text' "CHR ''/''" s] that by simp
  then have plain: "list_all (\<lambda>s. s \<noteq> '''' \<and> decode s = s \<and> utf8_valid s \<and> \<not> ambiguous_segment s)
      (pp_segments pp)"
    unfolding segs list_all_iff
    by (intro ballI valid_segment_plain)
      (use ok decode in \<open>auto simp: list_ex_iff dest: split_on_no_sep\<close>)
  have ne: "pp_segments pp \<noteq> []" by (simp add: segs)
  have last: "last (pp_segments pp) \<noteq> ''''"
    using plain ne by (simp add: list_all_iff)
  have "path_names decode (CHR ''/'' # text) = Some (pp_segments pp)"
  proof (cases directory)
    case True
    then have "split_on CHR ''/'' text = pp_segments pp @ ['''']"
      using split_on_append_sep [of "CHR ''/''" text' "''''"] by (simp add: text_eq segs)
    with decode_segments_plain_slash [OF plain decode] show ?thesis
      by (simp add: path_names_def strip_prefix_def pop_empty_def)
  next
    case False
    with decode_segments_plain [OF plain] last show ?thesis
      by (simp add: path_names_def strip_prefix_def pop_empty_def text_eq segs)
  qed
  then show ?thesis by (simp add: pp_admits_eq dir)
qed

theorem pp_parse_admits_witness:
  "pp_admits (\<lambda>s. s) \<lparr>pp_segments = [''a'', ''b''], pp_directory = False\<rparr> (CHR ''/'' # ''a/b'')"
proof -
  have "pp_parse ''a/b'' = Inr (Some \<lparr>pp_segments = [''a'', ''b''], pp_directory = False\<rparr>)"
    and "utf8_valid ''a/b''" by code_simp+
  from pp_parse_admits [OF this, of "\<lambda>s. s"] show ?thesis by simp
qed

subsection \<open>What an allowlist admits\<close>

definition entry_admits :: "(string \<Rightarrow> string) \<Rightarrow> string \<Rightarrow> allowed_entry \<Rightarrow> bool" where
  "entry_admits decode path entry =
     (case ae_path entry of None \<Rightarrow> True | Some pp \<Rightarrow> pp_admits decode pp path)"

lemma admits_scan_eq:
  "admits_scan decode path listed entries =
     (if list_ex (entry_admits decode path) entries then Inr ()
      else Inl (if listed \<or> entries \<noteq> [] then PathNotAllowed else HostNotAllowed))"
  by (induction entries arbitrary: listed) (auto simp: entry_admits_def split: option.splits)

text \<open>
  The allowlist decision, for every allowlist, host and URL: admitted when some entry for
  the host is bare or admits the path, refused for its path when the host is listed only under
  prefixes the path lies outside, refused for its host when no entry matches it. So the answer
  does not depend on the order of the entries, and an empty list admits nothing.
\<close>

theorem allowlist_admits_decision:
  "allowlist_admits decode entries host u =
     (let listed = filter (\<lambda>e. host_matches (ae_host e) host) entries
      in if \<exists>e \<in> set listed. entry_admits decode (url_path u) e then Inr ()
         else if listed \<noteq> [] then Inl PathNotAllowed
         else Inl HostNotAllowed)"
  by (auto simp: allowlist_admits_def admits_scan_eq Let_def list_ex_iff)

lemma allowlist_admits_Inr:
  "allowlist_admits decode entries host u = Inr () \<longleftrightarrow>
     (\<exists>e. e \<in> set entries \<and> host_matches (ae_host e) host \<and> entry_admits decode (url_path u) e)"
  by (auto simp: allowlist_admits_decision Let_def)

lemma parse_host_domain:
  "parse_host text = Inr (AllowedDomain name) \<Longrightarrow> name = to_ascii_lowercase text"
  by (auto simp: parse_host_def split: option.splits if_splits)

text \<open>
  A listed host name matches that name alone: the domain of the URL, less one trailing
  dot, spelled in any ASCII case. There is no suffix match, so a subdomain of a listed name,
  or a name that has it as a suffix or a prefix, is another host.
\<close>

theorem host_matches_exactly:
  assumes "parse_host text = Inr (AllowedDomain name)"
  shows "host_matches (AllowedDomain name) (Domain domain) =
    (to_ascii_lowercase (unwrap_or (strip_suffix ''.'' domain) domain) = to_ascii_lowercase text)"
  using parse_host_domain [OF assms]
  by (auto simp: host_matches_def eq_ignore_ascii_case_def)

theorem host_matches_exactly_witness:
  "host_matches (AllowedDomain ''s3.example.com'') (Domain ''S3.Example.COM.'')
   \<and> \<not> host_matches (AllowedDomain ''s3.example.com'') (Domain ''evil.s3.example.com'')"
proof -
  have parsed: "parse_host ''S3.example.com'' = Inr (AllowedDomain ''s3.example.com'')"
    by code_simp
  have "to_ascii_lowercase (unwrap_or (strip_suffix ''.'' ''S3.Example.COM.'') ''S3.Example.COM.'')
      = to_ascii_lowercase ''S3.example.com''"
    and "to_ascii_lowercase
        (unwrap_or (strip_suffix ''.'' ''evil.s3.example.com'') ''evil.s3.example.com'')
      \<noteq> to_ascii_lowercase ''S3.example.com''"
    by code_simp+
  then show ?thesis by (simp add: host_matches_exactly [OF parsed])
qed

subsection \<open>Reading an allowlist\<close>

lemma parse_entries_new:
  "parse_entries texts = Inr parsed \<Longrightarrow> allowlist_new texts = map snd parsed"
  by (induction texts arbitrary: parsed) (auto split: sum.splits option.splits)

lemma first_split_Cons:
  "(\<exists>before x later. t # ts = before @ x # later \<and> Q x \<and> list_all R before) \<longleftrightarrow>
     Q t \<or> (R t \<and> (\<exists>before x later. ts = before @ x # later \<and> Q x \<and> list_all R before))"
  (is "?L \<longleftrightarrow> ?R")
proof
  show "?L \<Longrightarrow> ?R" unfolding Cons_eq_append_conv by auto blast
next
  show "?R \<Longrightarrow> ?L" by (metis append_Cons append_Nil list.pred_inject)
qed

lemma parse_entries_Inl:
  "parse_entries texts = Inl e \<longleftrightarrow>
     (\<exists>before text later. texts = before @ text # later \<and> parse_entry text = Inl e
        \<and> list_all (\<lambda>t. \<exists>r. parse_entry t = Inr r) before)"
proof (induction texts)
  case Nil
  then show ?case by simp
next
  case (Cons t texts)
  have "parse_entries (t # texts) = Inl e \<longleftrightarrow>
      parse_entry t = Inl e \<or> (\<exists>r. parse_entry t = Inr r) \<and> parse_entries texts = Inl e"
    by (auto split: option.splits sum.splits)
  then show ?case
    unfolding first_split_Cons Cons.IH .
qed

text \<open>
  The refusing reader agrees with the lenient one and adds its two guarantees: a list it
  accepts has only readable entries, is read to the same allowlist, and holds no entry
  confined to a prefix whose host is also listed bare.
\<close>

theorem allowlist_try_new_sound:
  assumes "allowlist_try_new texts = Inr entries"
  shows "allowlist_new texts = entries
    \<and> list_all (\<lambda>t. \<exists>r. parse_entry t = Inr r) texts
    \<and> \<not> (\<exists>confined bare. confined \<in> set entries \<and> bare \<in> set entries
         \<and> ae_path confined \<noteq> None \<and> ae_path bare = None \<and> ae_host bare = ae_host confined)"
proof -
  from assms obtain parsed where parsed: "parse_entries texts = Inr parsed"
    and none: "List.find (shadowed parsed) parsed = None" and entries: "entries = map snd parsed"
    by (auto simp: allowlist_try_new_def split: sum.splits option.splits)
  have "list_all (\<lambda>t. \<exists>r. parse_entry t = Inr r) texts"
    using parsed
    by (induction texts arbitrary: parsed) (auto split: sum.splits option.splits)
  moreover have "\<not> shadowed parsed p" if "p \<in> set parsed" for p
    using none that by (simp add: find_None_iff_all)
  then have "\<not> (\<exists>confined bare. confined \<in> set entries \<and> bare \<in> set entries
      \<and> ae_path confined \<noteq> None \<and> ae_path bare = None \<and> ae_host bare = ae_host confined)"
    by (force simp: entries shadowed_def list_ex_iff)
  ultimately show ?thesis
    using parse_entries_new [OF parsed] entries by simp
qed

theorem allowlist_try_new_sound_witness:
  "allowlist_new [''a.test'', '' b.test/x/ '']
     = [\<lparr>ae_host = AllowedDomain ''a.test'', ae_path = None\<rparr>,
        \<lparr>ae_host = AllowedDomain ''b.test'',
         ae_path = Some \<lparr>pp_segments = [''x''], pp_directory = True\<rparr>\<rparr>]"
proof -
  have "allowlist_try_new [''a.test'', '' b.test/x/ '']
     = Inr [\<lparr>ae_host = AllowedDomain ''a.test'', ae_path = None\<rparr>,
        \<lparr>ae_host = AllowedDomain ''b.test'',
         ae_path = Some \<lparr>pp_segments = [''x''], pp_directory = True\<rparr>\<rparr>]"
    by code_simp
  from allowlist_try_new_sound [OF this] show ?thesis by simp
qed

subsection \<open>What a policy accepts\<close>

lemma check_Inr:
  "check decode p refuses u = Inr () \<longleftrightarrow>
     scheme_ok p (url_scheme u) \<and> url_username u = '''' \<and> url_password u = None
     \<and> (https_only p \<longrightarrow> url_port u = None)
     \<and> (\<exists>host. url_host u = Some host
          \<and> (case p of Webhook \<Rightarrow> True
             | Allowlist hosts \<Rightarrow> allowlist_admits decode hosts host u = Inr ()
             | ArchiveFetch hosts \<Rightarrow> allowlist_admits decode hosts host u = Inr ())
          \<and> (applies_deny_list p \<longrightarrow> check_host refuses host = Inr ()))"
  by (cases "url_host u"; cases p)
    (auto simp: check_def result_bind_Inr_iff applies_deny_list_def https_only_def)

text \<open>
  What an archive fetch accepts, exactly: \<open>https\<close>, no credentials, the default port, a
  host some entry lists for the URL's path, and, for that host, neither a refused literal
  address nor a local-only name.
\<close>

theorem check_archive_fetch:
  "check decode (ArchiveFetch hosts) refuses u = Inr () \<longleftrightarrow>
     url_scheme u = ''https'' \<and> url_username u = '''' \<and> url_password u = None \<and> url_port u = None
     \<and> (\<exists>host. url_host u = Some host
          \<and> (\<exists>e. e \<in> set hosts \<and> host_matches (ae_host e) host \<and> entry_admits decode (url_path u) e)
          \<and> (case host of Domain d \<Rightarrow> \<not> is_local_name d
             | Ipv4 v4 \<Rightarrow> \<not> refuses (V4 v4)
             | Ipv6 v6 \<Rightarrow> \<not> refuses (V6 v6)))"
  unfolding check_Inr
  by (auto simp: scheme_ok_def https_only_def applies_deny_list_def check_host_def
      allowlist_admits_Inr split: url_host.splits)

text \<open>
  Under a policy that applies the deny list, no accepted URL names an internal IPv4
  address as its host, in dotted form or in the IPv4-mapped IPv6 form: the address lies in
  none of the denied intervals.
\<close>

theorem check_refuses_internal_literals:
  assumes "applies_deny_list p" and "check decode p is_denied_ip u = Inr ()"
    and "url_host u = Some (Ipv4 ip) \<or> url_host u = Some (Ipv6 (ipv6_mapped ip))"
  shows "\<not> list_ex (\<lambda>(lo, hi). lo \<le> ip \<and> ip \<le> hi) denied_v4_ranges"
proof -
  from assms have "\<not> is_denied_ip (V4 ip) \<or> \<not> is_denied_ip (V6 (ipv6_mapped ip))"
    unfolding check_Inr by (auto simp: check_host_def split: if_splits)
  then have "\<not> is_denied_v4 ip"
    by (simp add: is_denied_ip_def to_ipv4_mapped_mapped)
  then show ?thesis
    by (simp only: is_denied_v4_def table_ranges [OF denied_v4_rows] not_False_eq_True)
qed

theorem check_refuses_internal_literals_witness:
  "\<not> list_ex (\<lambda>(lo, hi). lo \<le> ipv4_new 8 8 8 8 \<and> ipv4_new 8 8 8 8 \<le> hi) denied_v4_ranges"
proof -
  let ?u = "\<lparr>url_scheme = ''http'', url_username = '''', url_password = None, url_port = Some 8080,
    url_host = Some (Ipv4 (ipv4_new 8 8 8 8)), url_path = ''/''\<rparr>"
  have "applies_deny_list Webhook" by (simp add: applies_deny_list_def)
  moreover have "check (\<lambda>s. s) Webhook is_denied_ip ?u = Inr ()" by code_simp
  moreover have "url_host ?u = Some (Ipv4 (ipv4_new 8 8 8 8))
      \<or> url_host ?u = Some (Ipv6 (ipv6_mapped (ipv4_new 8 8 8 8)))" by simp
  ultimately show ?thesis by (rule check_refuses_internal_literals)
qed

end
