(* ===== verification/Guarded_Client.thy ===== *)
theory Guarded_Client
  imports Fetch_Policy
begin

text \<open>
  The guarded client (\<^verbatim>\<open>src/http_client/guard/mod.rs\<close>): the address rule, the resolver that
  vets every answer, the redirect decision, the request checks, and the capped body reader.
  \<^verbatim>\<open>reqwest\<close>, \<^verbatim>\<open>url\<close> and the operating system's resolver are arguments: a lookup is a function
  from a host to the addresses it answers (\<open>None\<close> for an I/O error), a \<^verbatim>\<open>reqwest::Error\<close> is the
  record of what \<^verbatim>\<open>GuardError::from_reqwest\<close> reads of it, and a poll of the response body is the
  outcome the timer or the transport gave.
\<close>

subsection \<open>Addresses\<close>

record address_rule =
  ar_deny :: bool
  ar_permit_loopback :: bool

definition is_loopback :: "ip_addr \<Rightarrow> bool" where
  "is_loopback ip =
     (case ip of
        V4 v4 \<Rightarrow> v4_is_loopback v4
      | V6 v6 \<Rightarrow> v6_is_loopback v6
          \<or> (case to_ipv4_mapped v6 of None \<Rightarrow> False | Some v4 \<Rightarrow> v4_is_loopback v4))"

definition refuses :: "address_rule \<Rightarrow> ip_addr \<Rightarrow> bool" where
  "refuses rule ip =
     (if \<not> ar_deny rule then False
      else if ar_permit_loopback rule \<and> is_loopback ip then False
      else is_denied_ip ip)"

type_synonym resolver = "string \<Rightarrow> ip_addr list option"

definition vetted :: "resolver \<Rightarrow> address_rule \<Rightarrow> string \<Rightarrow> (guard_error, ip_addr list) result" where
  "vetted lookup rule host =
     (case lookup host of
        None \<Rightarrow> Inl Unresolvable
      | Some addresses \<Rightarrow>
          if addresses = [] then Inl Unresolvable
          else if list_ex (refuses rule) addresses then Inl DeniedAddress
          else Inr addresses)"

text \<open>What the connector is given: the vetted addresses, with port 0.\<close>

definition resolve ::
  "resolver \<Rightarrow> address_rule \<Rightarrow> string \<Rightarrow> (guard_error, (ip_addr \<times> nat) list) result" where
  "resolve lookup rule name =
     result_bind (vetted lookup rule name) (\<lambda>addresses. Inr (map (\<lambda>ip. (ip, 0)) addresses))"

subsection \<open>The client\<close>

record client =
  cl_policy :: policy
  cl_limits :: fetch_limits
  cl_resolver :: resolver
  cl_rule :: address_rule

record builder =
  b_policy :: policy
  b_limits :: fetch_limits
  b_resolver :: resolver
  b_permit_loopback :: bool

definition client_builder :: "resolver \<Rightarrow> policy \<Rightarrow> builder" where
  "client_builder system p =
     \<lparr>b_policy = p, b_limits = default_limits p, b_resolver = system, b_permit_loopback = False\<rparr>"

definition with_limits :: "fetch_limits \<Rightarrow> builder \<Rightarrow> builder" where
  "with_limits l b = b\<lparr>b_limits := l\<rparr>"

definition with_resolver :: "resolver \<Rightarrow> builder \<Rightarrow> builder" where
  "with_resolver r b = b\<lparr>b_resolver := r\<rparr>"

definition permit_loopback_for_tests :: "builder \<Rightarrow> builder" where
  "permit_loopback_for_tests b = b\<lparr>b_permit_loopback := True\<rparr>"

definition build :: "builder \<Rightarrow> client" where
  "build b =
     \<lparr>cl_policy = b_policy b, cl_limits = b_limits b, cl_resolver = b_resolver b,
      cl_rule = \<lparr>ar_deny = applies_deny_list (b_policy b), ar_permit_loopback = b_permit_loopback b\<rparr>\<rparr>"

text \<open>What the client's redirect policy answers to a hop: \<open>Stop\<close> returns the 3xx as the
  response (\<^verbatim>\<open>Policy::none\<close>).\<close>

datatype redirect_action = Stop | Follow | Refuse guard_error

definition on_redirect ::
  "(string \<Rightarrow> string) \<Rightarrow> client \<Rightarrow> url list \<Rightarrow> url \<Rightarrow> redirect_action" where
  "on_redirect decode c previous next_url =
     (let limit = max_redirects (cl_policy c) in
      if limit = 0 then Stop
      else if limit < length previous then Refuse TooManyRedirects
      else (case check decode (cl_policy c) (refuses (cl_rule c)) next_url of
              Inr _ \<Rightarrow> Follow
            | Inl refusal \<Rightarrow> Refuse refusal))"

definition client_check_url ::
  "(string \<Rightarrow> string) \<Rightarrow> (string \<Rightarrow> url option) \<Rightarrow> client \<Rightarrow> string \<Rightarrow> (guard_error, url) result" where
  "client_check_url decode parse_url c text =
     result_bind (ok_or (parse_url text) InvalidUrl) (\<lambda>u.
     result_bind (check decode (cl_policy c) (refuses (cl_rule c)) u) (\<lambda>_. Inr u))"

definition validate ::
  "(string \<Rightarrow> string) \<Rightarrow> (string \<Rightarrow> url option) \<Rightarrow> client \<Rightarrow> string \<Rightarrow> (guard_error, unit) result" where
  "validate decode parse_url c text =
     result_bind (client_check_url decode parse_url c text) (\<lambda>u.
       case url_host u of
         Some (Domain domain) \<Rightarrow>
           result_bind (vetted (cl_resolver c) (cl_rule c) domain) (\<lambda>_. Inr ())
       | _ \<Rightarrow> Inr ())"

subsection \<open>Errors out of \<^verbatim>\<open>reqwest\<close>\<close>

text \<open>The cause chain holds, for each cause, the guard refusal it downcasts to, if any; the
  text is the failure described without its URL.\<close>

record reqwest_error =
  re_causes :: "guard_error option list"
  re_is_timeout :: bool
  re_is_connect :: bool
  re_text :: string

fun first_refusal :: "guard_error option list \<Rightarrow> guard_error option" where
  "first_refusal [] = None"
| "first_refusal (Some refusal # _) = Some refusal"
| "first_refusal (None # causes) = first_refusal causes"

definition from_reqwest :: "reqwest_error \<Rightarrow> guard_error" where
  "from_reqwest e =
     (case first_refusal (re_causes e) of
        Some refusal \<Rightarrow> refusal
      | None \<Rightarrow>
          if re_is_timeout e \<and> \<not> re_is_connect e then TotalTimeout else Transport (re_text e))"

subsection \<open>Caps\<close>

text \<open>\<^verbatim>\<open>Duration::from_hours(30 * 365 * 24)\<close>. \<open>latest\<close> is the last instant the clock can
  represent: \<^verbatim>\<open>Instant::checked_add\<close> past it is \<^verbatim>\<open>None\<close>.\<close>

definition FURTHEST_CAP :: duration where
  "FURTHEST_CAP = secs (30 * 365 * 24 * 3600)"

definition checked_add :: "instant \<Rightarrow> instant \<Rightarrow> duration \<Rightarrow> instant option" where
  "checked_add latest start d = (if start + d \<le> latest then Some (start + d) else None)"

definition cap_after :: "instant \<Rightarrow> instant \<Rightarrow> duration \<Rightarrow> instant" where
  "cap_after latest start cap = unwrap_or (checked_add latest start (min cap FURTHEST_CAP)) start"

text \<open>The cap a wait runs under and the refusal when it runs out.\<close>

definition within_cap :: "instant \<Rightarrow> instant \<Rightarrow> instant \<Rightarrow> duration \<Rightarrow> instant \<times> guard_error" where
  "within_cap latest now deadline idle =
     (let idle_deadline = cap_after latest now idle in
      if idle_deadline < deadline then (idle_deadline, IdleTimeout) else (deadline, TotalTimeout))"

text \<open>The outcome of \<^verbatim>\<open>timeout_at(cap, future)\<close>: the future's value, or \<open>None\<close> when the cap came
  first.\<close>

definition within ::
  "instant \<Rightarrow> instant \<Rightarrow> instant \<Rightarrow> duration \<Rightarrow> 'a option \<Rightarrow> (guard_error, 'a) result" where
  "within latest now deadline idle outcome =
     ok_or outcome (snd (within_cap latest now deadline idle))"

subsection \<open>The response body\<close>

record response =
  r_deadline :: instant
  r_idle_timeout :: duration
  r_max_body_bytes :: nat
  r_received :: nat

definition U64_MAX :: nat where
  "U64_MAX = 2 ^ 64 - 1"

definition saturating_add :: "nat \<Rightarrow> nat \<Rightarrow> nat" where
  "saturating_add a b = min (a + b) U64_MAX"

definition send ::
  "instant \<Rightarrow> instant \<Rightarrow> fetch_limits \<Rightarrow> (reqwest_error, unit) result option
     \<Rightarrow> (guard_error, response) result" where
  "send latest now limits outcome =
     (let deadline = cap_after latest now (total_timeout limits) in
      result_bind (within latest now deadline (idle_timeout limits) outcome) (\<lambda>r.
        case r of
          Inl e \<Rightarrow> Inl (from_reqwest e)
        | Inr _ \<Rightarrow>
            Inr \<lparr>r_deadline = deadline, r_idle_timeout = idle_timeout limits,
                 r_max_body_bytes = max_body_bytes limits, r_received = 0\<rparr>))"

text \<open>One poll of the body: what the transport gave by the cap, \<open>None\<close> when the cap came first;
  \<open>Inr None\<close> is the end of the body.\<close>

type_synonym body_poll = "instant \<times> (reqwest_error, string option) result option"

definition chunk ::
  "instant \<Rightarrow> response \<Rightarrow> body_poll \<Rightarrow> response \<times> (guard_error, string option) result" where
  "chunk latest r poll =
     (case within latest (fst poll) (r_deadline r) (r_idle_timeout r) (snd poll) of
        Inl refusal \<Rightarrow> (r, Inl refusal)
      | Inr (Inl e) \<Rightarrow> (r, Inl (from_reqwest e))
      | Inr (Inr None) \<Rightarrow> (r, Inr None)
      | Inr (Inr (Some bytes)) \<Rightarrow>
          let r' = r\<lparr>r_received := saturating_add (r_received r) (length bytes)\<rparr> in
          if r_max_body_bytes r' < r_received r'
          then (r', Inl (BodyTooLarge (r_max_body_bytes r')))
          else (r', Inr (Some bytes)))"

text \<open>\<^verbatim>\<open>bytes\<close>: the loop over the polls. \<open>None\<close> is a body that has not ended within the given
  polls.\<close>

fun read_bytes ::
  "instant \<Rightarrow> response \<Rightarrow> string \<Rightarrow> body_poll list \<Rightarrow> (guard_error, string) result option" where
  "read_bytes latest r body [] = None"
| "read_bytes latest r body (poll # polls) =
     (case chunk latest r poll of
        (r', Inl e) \<Rightarrow> Some (Inl e)
      | (r', Inr None) \<Rightarrow> Some (Inr body)
      | (r', Inr (Some bytes)) \<Rightarrow> read_bytes latest r' (body @ bytes) polls)"

subsection \<open>Vetting\<close>

text \<open>Where a connection to a host goes: a literal address directly, a name to what the
  resolver answers for it.\<close>

definition host_targets ::
  "(string \<Rightarrow> (guard_error, ip_addr list) result) \<Rightarrow> url_host \<Rightarrow> ip_addr list" where
  "host_targets answer host =
     (case host of
        Ipv4 v4 \<Rightarrow> [V4 v4]
      | Ipv6 v6 \<Rightarrow> [V6 v6]
      | Domain domain \<Rightarrow> (case answer domain of Inl _ \<Rightarrow> [] | Inr addresses \<Rightarrow> addresses))"

text \<open>The contract between the resolver and the client that connects through it: no refused
  address is ever answered.\<close>

locale address_vetting =
  fixes answer :: "string \<Rightarrow> (guard_error, ip_addr list) result"
    and refused :: "ip_addr \<Rightarrow> bool"
  assumes answer_vetted: "answer h = Inr addresses \<Longrightarrow> ip \<in> set addresses \<Longrightarrow> \<not> refused ip"
begin

lemma targets_vetted:
  assumes "check_host refused host = Inr ()" and "ip \<in> set (host_targets answer host)"
  shows "\<not> refused ip"
  using assms
  by (auto simp: check_host_def host_targets_def answer_vetted answer_vetted [OF sym]
      split: url_host.splits if_splits sum.splits)

lemma no_target_refused:
  "check_host refused host = Inr () \<Longrightarrow> \<not> list_ex refused (host_targets answer host)"
  by (auto simp: list_ex_iff dest: targets_vetted)

end

lemma vetted_Inr:
  "vetted lookup rule host = Inr addresses \<longleftrightarrow>
     lookup host = Some addresses \<and> addresses \<noteq> [] \<and> \<not> list_ex (refuses rule) addresses"
  by (auto simp: vetted_def split: option.splits if_splits)

interpretation client_vetting: address_vetting "vetted lookup rule" "refuses rule"
  for lookup rule
  by unfold_locales (auto simp: vetted_Inr list_ex_iff)

text \<open>
  The resolver is all or nothing. It answers exactly what the one lookup returned, when
  that is not empty and holds no refused address; otherwise the connector gets no address at
  all, so a name resolving to a public and an internal address is refused whole.
\<close>

theorem vetted_all_or_nothing:
  "vetted lookup rule host =
     (case lookup host of
        None \<Rightarrow> Inl Unresolvable
      | Some [] \<Rightarrow> Inl Unresolvable
      | Some (a # as) \<Rightarrow>
          if filter (refuses rule) (a # as) = [] then Inr (a # as) else Inl DeniedAddress)"
proof (cases "lookup host")
  case None
  then show ?thesis by (simp add: vetted_def)
next
  case (Some addresses)
  then show ?thesis
    by (cases addresses) (simp_all add: vetted_def list_ex_iff filter_empty_conv)
qed

subsection \<open>Redirects\<close>

text \<open>A fetch under the client's redirect policy: \<open>previous\<close> holds the URLs requested so far,
  and each response redirects to the next of \<open>hops\<close>, until the policy stops it.\<close>

fun follow_hops ::
  "(string \<Rightarrow> string) \<Rightarrow> client \<Rightarrow> url list \<Rightarrow> url list \<Rightarrow> url list \<times> guard_error option" where
  "follow_hops decode c previous [] = (previous, None)"
| "follow_hops decode c previous (hop # hops) =
     (case on_redirect decode c previous hop of
        Stop \<Rightarrow> (previous, None)
      | Refuse refusal \<Rightarrow> (previous, Some refusal)
      | Follow \<Rightarrow> follow_hops decode c (previous @ [hop]) hops)"

lemma on_redirect_Follow:
  "on_redirect decode c previous hop = Follow \<Longrightarrow>
     length previous \<le> max_redirects (cl_policy c)
     \<and> check decode (cl_policy c) (refuses (cl_rule c)) hop = Inr ()"
  by (auto simp: on_redirect_def Let_def split: if_splits sum.splits)

lemma follow_hops_checked:
  assumes "list_all (\<lambda>u. check decode (cl_policy c) (refuses (cl_rule c)) u = Inr ()) previous"
  shows "list_all (\<lambda>u. check decode (cl_policy c) (refuses (cl_rule c)) u = Inr ())
    (fst (follow_hops decode c previous hops))"
  using assms
  by (induction hops arbitrary: previous)
    (auto split: redirect_action.splits dest: on_redirect_Follow)

lemma follow_hops_length:
  assumes "length previous \<le> Suc (max_redirects (cl_policy c))"
  shows "length (fst (follow_hops decode c previous hops)) \<le> Suc (max_redirects (cl_policy c))"
  using assms
  by (induction hops arbitrary: previous)
    (auto split: redirect_action.splits dest!: on_redirect_Follow)

lemma client_check_url_Inr:
  "client_check_url decode parse_url c txt = Inr u \<longleftrightarrow>
     parse_url txt = Some u \<and> check decode (cl_policy c) (refuses (cl_rule c)) u = Inr ()"
  by (cases "parse_url txt") (auto simp: client_check_url_def result_bind_Inr_iff)

text \<open>
  A fetch requests at most the URL it was given and as many redirect hops as its policy
  follows, every one of which passed the whole URL check of the policy; a webhook fetch
  requests the URL it was given and nothing else.
\<close>

theorem follow_hops_bounded:
  assumes "client_check_url decode parse_url c txt = Inr u"
  shows "length (fst (follow_hops decode c [u] hops)) \<le> Suc (max_redirects (cl_policy c))
    \<and> list_all (\<lambda>v. check decode (cl_policy c) (refuses (cl_rule c)) v = Inr ())
        (fst (follow_hops decode c [u] hops))
    \<and> (max_redirects (cl_policy c) = 0 \<longrightarrow> fst (follow_hops decode c [u] hops) = [u])"
proof -
  have "fst (follow_hops decode c [u] hops) = [u]" if "max_redirects (cl_policy c) = 0"
    using that by (cases hops) (simp_all add: on_redirect_def)
  with assms show ?thesis
    using follow_hops_length [of "[u]" c decode hops] follow_hops_checked [of decode c "[u]" hops]
    by (simp add: client_check_url_Inr)
qed

definition sample_url :: "string \<Rightarrow> url" where
  "sample_url domain =
     \<lparr>url_scheme = ''https'', url_username = '''', url_password = None, url_port = None,
      url_host = Some (Domain domain), url_path = ''/''\<rparr>"

definition sample_policy :: policy where
  "sample_policy = ArchiveFetch (allowlist_new [''a.test'', ''b.test''])"

definition sample_client :: client where
  "sample_client = build (client_builder (\<lambda>h. Some [V4 (ipv4_new 8 8 8 8)]) sample_policy)"

text \<open>The fields a check of the sample client reads, without its caps.\<close>

lemma sample_builder_fields:
  "cl_policy (build (with_limits l (with_resolver r (client_builder s p)))) = p"
  "cl_rule (build (with_limits l (with_resolver r (client_builder s p))))
     = \<lparr>ar_deny = applies_deny_list p, ar_permit_loopback = False\<rparr>"
  "cl_resolver (build (with_limits l (with_resolver r (client_builder s p)))) = r"
  "cl_policy (build (client_builder s p)) = p"
  "cl_rule (build (client_builder s p))
     = \<lparr>ar_deny = applies_deny_list p, ar_permit_loopback = False\<rparr>"
  by (simp_all add: build_def with_limits_def with_resolver_def client_builder_def)

lemma sample_checks:
  "check (\<lambda>s. s) sample_policy
     (refuses \<lparr>ar_deny = applies_deny_list sample_policy, ar_permit_loopback = False\<rparr>)
     (sample_url ''a.test'') = Inr ()"
  "check (\<lambda>s. s) sample_policy
     (refuses \<lparr>ar_deny = applies_deny_list sample_policy, ar_permit_loopback = False\<rparr>)
     (sample_url ''b.test'') = Inr ()"
  "max_redirects sample_policy = 5"
  by code_simp+

theorem follow_hops_bounded_witness:
  "length (fst (follow_hops (\<lambda>s. s) sample_client [sample_url ''a.test'']
     [sample_url ''b.test'', sample_url ''evil.test''])) \<le> 6"
proof -
  have checked: "client_check_url (\<lambda>s. s) (\<lambda>t. Some (sample_url t)) sample_client ''a.test''
      = Inr (sample_url ''a.test'')"
    by (simp add: client_check_url_def sample_client_def sample_builder_fields sample_checks)
  have "max_redirects (cl_policy sample_client) = 5"
    by (simp add: sample_client_def sample_builder_fields sample_checks)
  with follow_hops_bounded [OF checked, of "[sample_url ''b.test'', sample_url ''evil.test'']"]
  show ?thesis by simp
qed

text \<open>
  C15: the guarantee of the guard. A client built for a policy that applies the deny list
  (with any resolver and caps, without the test-only loopback permission) never connects to a
  denied address: not for the URL it was given, not on any redirect hop, and whatever the
  name resolves to at connect time.
\<close>

theorem no_connection_to_denied_address:
  assumes deny: "applies_deny_list p"
    and built: "c = build (with_limits l (with_resolver lookup (client_builder system p)))"
    and checked: "client_check_url decode parse_url c txt = Inr u"
    and requested: "v \<in> set (fst (follow_hops decode c [u] hops))"
    and host: "url_host v = Some h"
    and target: "ip \<in> set (host_targets (vetted (cl_resolver c) (cl_rule c)) h)"
  shows "\<not> is_denied_ip ip"
proof -
  have pol: "cl_policy c = p" and rule: "refuses (cl_rule c) = is_denied_ip"
    using deny
    by (auto simp: built build_def with_limits_def with_resolver_def client_builder_def refuses_def)
  from checked requested have "check decode p (refuses (cl_rule c)) v = Inr ()"
    using follow_hops_checked [of decode c "[u]" hops]
    by (simp add: client_check_url_Inr list_all_iff pol)
  with deny host have "check_host (refuses (cl_rule c)) h = Inr ()"
    by (auto simp: check_Inr)
  from client_vetting.targets_vetted [OF this target] show ?thesis by (simp add: rule)
qed

theorem no_connection_to_denied_address_witness:
  "\<not> is_denied_ip (V4 (ipv4_new 8 8 8 8))"
proof -
  let ?r = "\<lambda>h :: string. Some [V4 (ipv4_new 8 8 8 8)]"
  let ?c = "build (with_limits (default_limits Webhook)
      (with_resolver ?r (client_builder (\<lambda>h. None) sample_policy)))"
  show ?thesis
  proof (rule no_connection_to_denied_address [OF _ refl])
    show "applies_deny_list sample_policy"
      by (simp add: applies_deny_list_def sample_policy_def)
    show "client_check_url (\<lambda>s. s) (\<lambda>t. Some (sample_url t)) ?c ''a.test'' = Inr (sample_url ''a.test'')"
      by (simp add: client_check_url_def sample_builder_fields sample_checks)
    show "sample_url ''b.test''
        \<in> set (fst (follow_hops (\<lambda>s. s) ?c [sample_url ''a.test''] [sample_url ''b.test'']))"
      by (simp add: on_redirect_def sample_builder_fields sample_checks)
    show "url_host (sample_url ''b.test'') = Some (Domain ''b.test'')"
      by (simp add: sample_url_def)
    have "vetted ?r \<lparr>ar_deny = True, ar_permit_loopback = False\<rparr> ''b.test''
        = Inr [V4 (ipv4_new 8 8 8 8)]"
      by code_simp
    then show "V4 (ipv4_new 8 8 8 8)
        \<in> set (host_targets (vetted (cl_resolver ?c) (cl_rule ?c)) (Domain ''b.test''))"
      by (simp add: host_targets_def sample_builder_fields sample_policy_def applies_deny_list_def)
  qed
qed

subsection \<open>The body stays under its cap\<close>

text \<open>The bytes the polls delivered, in order.\<close>

fun delivered :: "body_poll list \<Rightarrow> string" where
  "delivered [] = ''''"
| "delivered ((_, Some (Inr (Some bytes))) # polls) = bytes @ delivered polls"
| "delivered (_ # polls) = delivered polls"

lemma chunk_bytes:
  assumes "chunk latest r (at, p) = (r', Inr (Some bytes))"
    and "r_max_body_bytes r < U64_MAX"
  shows "p = Some (Inr (Some bytes)) \<and> r_max_body_bytes r' = r_max_body_bytes r
    \<and> r_received r' = r_received r + length bytes \<and> r_received r' \<le> r_max_body_bytes r"
  using assms
  by (auto simp: chunk_def within_def Let_def saturating_add_def min_def ok_or_def
      split: sum.splits option.splits if_splits)

lemma chunk_end: "chunk latest r (at, p) = (r', Inr None) \<Longrightarrow> p = Some (Inr None)"
  by (auto simp: chunk_def within_def Let_def ok_or_def split: sum.splits option.splits if_splits)

lemma read_bytes_capped:
  assumes "read_bytes latest r body polls = Some (Inr out)"
    and "r_max_body_bytes r < U64_MAX" and "r_received r = length body"
    and "length body \<le> r_max_body_bytes r"
  shows "length out \<le> r_max_body_bytes r
    \<and> (\<exists>used rest at. polls = used @ (at, Some (Inr None)) # rest \<and> out = body @ delivered used)"
  using assms
proof (induction polls arbitrary: r body)
  case Nil
  then show ?case by simp
next
  case (Cons poll polls)
  obtain at p where poll: "poll = (at, p)" by (cases poll)
  obtain r' step where step: "chunk latest r poll = (r', step)" by (cases "chunk latest r poll")
  show ?case
  proof (cases step)
    case (Inl e)
    with Cons.prems step show ?thesis by simp
  next
    case (Inr res)
    show ?thesis
    proof (cases res)
      case None
      with Cons.prems step Inr have "out = body" by simp
      moreover from step Inr None poll have "p = Some (Inr None)" by (auto dest: chunk_end)
      ultimately show ?thesis
        using Cons.prems(4) poll
        by (intro conjI exI [of _ "[]"] exI [of _ polls] exI [of _ at]) auto
    next
      case (Some bytes)
      with step Inr poll have "chunk latest r (at, p) = (r', Inr (Some bytes))" by simp
      note chunk = chunk_bytes [OF this Cons.prems(2)]
      from Cons.prems(1) step Inr Some have "read_bytes latest r' (body @ bytes) polls = Some (Inr out)"
        by simp
      from Cons.IH [OF this] chunk Cons.prems obtain used rest at'
        where len: "length out \<le> r_max_body_bytes r"
          and split: "polls = used @ (at', Some (Inr None)) # rest" "out = (body @ bytes) @ delivered used"
        by auto
      moreover have "poll # polls = (poll # used) @ (at', Some (Inr None)) # rest"
        using split by simp
      moreover have "out = body @ delivered (poll # used)"
        using split chunk poll by simp
      ultimately show ?thesis by blast
    qed
  qed
qed

text \<open>
  A fetched body never exceeds the client's cap, and it is exactly the bytes the
  transport delivered before the end of the body, in order: the cap counts what was received,
  whatever length the response declared. (The counter saturates at the largest u64, so the
  cap has to be below it.)
\<close>

theorem read_bytes_within_cap:
  assumes sent: "send latest now limits outcome = Inr r"
    and cap: "max_body_bytes limits < U64_MAX"
    and read: "read_bytes latest r '''' polls = Some (Inr body)"
  shows "length body \<le> max_body_bytes limits
    \<and> (\<exists>used rest at. polls = used @ (at, Some (Inr None)) # rest \<and> body = delivered used)"
proof -
  from sent have "r_max_body_bytes r = max_body_bytes limits \<and> r_received r = 0"
    by (cases outcome) (auto simp: send_def within_def Let_def split: sum.splits)
  with read_bytes_capped [OF read] cap show ?thesis by simp
qed

theorem read_bytes_within_cap_witness:
  "length ''abcd'' \<le> max_body_bytes \<lparr>max_body_bytes = 4, connect_timeout = 5, idle_timeout = 5, total_timeout = 9\<rparr>"
proof -
  let ?l = "\<lparr>max_body_bytes = 4, connect_timeout = 5, idle_timeout = 5, total_timeout = 9\<rparr>"
  let ?r = "\<lparr>r_deadline = 9, r_idle_timeout = 5, r_max_body_bytes = 4, r_received = 0\<rparr>"
  have sent: "send 100 0 ?l (Some (Inr ())) = Inr ?r"
    by (simp add: send_def within_def cap_after_def checked_add_def FURTHEST_CAP_def secs_def Let_def)
  have cap: "max_body_bytes ?l < U64_MAX" by (simp add: U64_MAX_def)
  have read: "read_bytes 100 ?r ''''
      [(1, Some (Inr (Some ''ab''))), (2, Some (Inr (Some ''cd''))), (3, Some (Inr None))]
      = Some (Inr ''abcd'')"
    by (simp add: chunk_def within_def saturating_add_def U64_MAX_def Let_def)
  from read_bytes_within_cap [OF sent cap read] show ?thesis by simp
qed

text \<open>
  A cap never overflows the clock and never reaches past the furthest cap, and where the
  clock can represent that reach it is the cap itself: no duration an operator configures, the
  largest included, makes the deadline computation fail.
\<close>

theorem cap_after_bounds:
  "start \<le> cap_after latest start cap
   \<and> cap_after latest start cap \<le> start + FURTHEST_CAP
   \<and> cap_after latest start cap \<le> max start latest
   \<and> (if start + FURTHEST_CAP \<le> latest
      then cap_after latest start cap = start + min cap FURTHEST_CAP else True)"
  by (auto simp: cap_after_def checked_add_def min_def)

text \<open>The refusal a wait ends in names the cap that is the earlier of the two.\<close>

lemma within_cap_earlier:
  "fst (within_cap latest now deadline idle) = min deadline (cap_after latest now idle)
   \<and> (snd (within_cap latest now deadline idle) = IdleTimeout
       \<longleftrightarrow> cap_after latest now idle < deadline)"
  by (auto simp: within_cap_def Let_def min_def)

text \<open>A refusal the guard raised inside the transport comes out as itself.\<close>

lemma from_reqwest_refusal:
  "re_causes e = replicate n None @ Some refusal # tail \<Longrightarrow> from_reqwest e = refusal"
proof -
  have "first_refusal (replicate n None @ Some refusal # tail) = Some refusal"
    by (induction n) auto
  then show "re_causes e = replicate n None @ Some refusal # tail \<Longrightarrow> from_reqwest e = refusal"
    by (simp add: from_reqwest_def)
qed

end
