(* ===== verification/Json.thy ===== *)
theory Json
  imports Rust_Str
begin

text \<open>
  JSON values as \<^verbatim>\<open>serde_json::Value\<close> represents them, and the accessors the source reads
  them with. An object is a table with distinct keys; a number keeps the three shapes of
  \<^verbatim>\<open>serde_json::Number\<close>, a float by its text.
\<close>

datatype json_number = PosInt nat | NegInt int | Float string

datatype json =
    JNull
  | JBool bool
  | JNumber json_number
  | JString string
  | JArray "json list"
  | JObject "(string \<times> json) list"

type_synonym json_map = "(string, json) table"

definition json_get :: "string \<Rightarrow> json \<Rightarrow> json option" where
  "json_get key v = (case v of JObject m \<Rightarrow> map_of m key | _ \<Rightarrow> None)"

definition as_str :: "json \<Rightarrow> string option" where
  "as_str v = (case v of JString s \<Rightarrow> Some s | _ \<Rightarrow> None)"

definition as_object :: "json \<Rightarrow> json_map option" where
  "as_object v = (case v of JObject m \<Rightarrow> Some m | _ \<Rightarrow> None)"

definition is_object :: "json \<Rightarrow> bool" where
  "is_object v = (case v of JObject _ \<Rightarrow> True | _ \<Rightarrow> False)"

definition is_string :: "json \<Rightarrow> bool" where
  "is_string v = (case v of JString _ \<Rightarrow> True | _ \<Rightarrow> False)"

definition is_number :: "json \<Rightarrow> bool" where
  "is_number v = (case v of JNumber _ \<Rightarrow> True | _ \<Rightarrow> False)"

definition contains_key :: "string \<Rightarrow> json_map \<Rightarrow> bool" where
  "contains_key key m \<longleftrightarrow> map_of m key \<noteq> None"

text \<open>\<^verbatim>\<open>params.and_then(|p| p.get(key))\<close>.\<close>

definition param :: "json option \<Rightarrow> string \<Rightarrow> json option" where
  "param params key = Option.bind params (json_get key)"

text \<open>\<^verbatim>\<open>Map::entry(key).or_insert(v)\<close>.\<close>

definition or_insert :: "string \<Rightarrow> json \<Rightarrow> json_map \<Rightarrow> json_map" where
  "or_insert key v m = (if contains_key key m then m else AList.update key v m)"

text \<open>What a derived \<^verbatim>\<open>Deserialize\<close> of a struct reads its fields from: an object by name, or an
  array by position, of which only fields with a default may be missing at the end.\<close>

definition struct_fields :: "string list \<Rightarrow> string list \<Rightarrow> json \<Rightarrow> json_map option" where
  "struct_fields names defaulted v =
     (case v of
        JObject m \<Rightarrow> Some m
      | JArray vs \<Rightarrow>
          if length vs \<le> length names \<and> list_all (\<lambda>name. name \<in> set defaulted) (drop (length vs) names)
          then Some (zip names vs) else None
      | _ \<Rightarrow> None)"

lemma struct_fields_object [simp]: "struct_fields names defaulted (JObject m) = Some m"
  by (simp add: struct_fields_def)

lemma map_of_or_insert [store_simps]:
  "map_of (or_insert key v m) k =
     (if k = key then (case map_of m key of None \<Rightarrow> Some v | Some w \<Rightarrow> Some w) else map_of m k)"
  by (auto simp: or_insert_def contains_key_def map_of_update split: option.splits)

end
