(* ===== verification/Log_Level.thy ===== *)
theory Log_Level
  imports Json
begin

text \<open>
  The eight severities of the logging utility (\<^verbatim>\<open>src/mcp/logging.rs\<close>) with their wire names
  and the order of severity Rust derives from the order of declaration.
\<close>

datatype log_level = Debug | Info | Notice | Warning | Error | Critical | Alert | Emergency

definition all_levels :: "log_level list" where
  "all_levels = [Debug, Info, Notice, Warning, Error, Critical, Alert, Emergency]"

fun level_as_str :: "log_level \<Rightarrow> string" where
  "level_as_str Debug = ''debug''"
| "level_as_str Info = ''info''"
| "level_as_str Notice = ''notice''"
| "level_as_str Warning = ''warning''"
| "level_as_str Error = ''error''"
| "level_as_str Critical = ''critical''"
| "level_as_str Alert = ''alert''"
| "level_as_str Emergency = ''emergency''"

definition level_from_wire :: "string \<Rightarrow> log_level option" where
  "level_from_wire name = List.find (\<lambda>level. level_as_str level = name) all_levels"

fun severity :: "log_level \<Rightarrow> nat" where
  "severity Debug = 0"
| "severity Info = 1"
| "severity Notice = 2"
| "severity Warning = 3"
| "severity Error = 4"
| "severity Critical = 5"
| "severity Alert = 6"
| "severity Emergency = 7"

lemma severity_inject [simp]: "severity a = severity b \<longleftrightarrow> a = b"
  by (cases a; cases b) simp_all

instantiation log_level :: linorder
begin

definition less_eq_log_level :: "log_level \<Rightarrow> log_level \<Rightarrow> bool" where
  "less_eq_log_level a b \<longleftrightarrow> severity a \<le> severity b"

definition less_log_level :: "log_level \<Rightarrow> log_level \<Rightarrow> bool" where
  "less_log_level a b \<longleftrightarrow> severity a < severity b"

instance
  by standard (auto simp: less_eq_log_level_def less_log_level_def)

end

record logging_message =
  lm_level :: log_level
  lm_logger :: "string option"
  lm_data :: json

lemma all_levels_complete: "set all_levels = UNIV"
proof -
  have "level \<in> set all_levels" for level
    by (cases level) (simp_all add: all_levels_def)
  then show ?thesis by blast
qed

lemma level_as_str_inject: "level_as_str a = level_as_str b \<Longrightarrow> a = b"
  by (cases a; cases b) simp_all

text \<open>
  The wire names of the log levels round-trip: a name names a level exactly when it is
  that level's wire name, so names are exact and no two levels share one.
\<close>

theorem level_from_wire_iff: "level_from_wire name = Some level \<longleftrightarrow> name = level_as_str level"
proof
  assume "level_from_wire name = Some level"
  then show "name = level_as_str level"
    by (auto simp: level_from_wire_def dest: find_Some_mem)
next
  assume name: "name = level_as_str level"
  have "level_from_wire name \<noteq> None"
    using name all_levels_complete by (auto simp: level_from_wire_def find_None_iff_all)
  then obtain found where found: "level_from_wire name = Some found" by blast
  then have "level_as_str found = name"
    by (auto simp: level_from_wire_def dest: find_Some_mem)
  with name found show "level_from_wire name = Some level"
    by (auto dest: level_as_str_inject)
qed

end
