(* ===== verification/Machine.thy ===== *)
theory Machine
  imports Prelude
begin

text \<open>
  The interface of a component with state: a step function over its events, run over a list
  of them, and an invariant every step keeps. Each component states its own; what holds of
  every run is proved here once.
\<close>

fun run :: "('s \<Rightarrow> 'e \<Rightarrow> 's) \<Rightarrow> 's \<Rightarrow> 'e list \<Rightarrow> 's" where
  "run step s [] = s"
| "run step s (e # es) = run step (step s e) es"

lemma run_append: "run step s (es @ fs) = run step (run step s es) fs"
  by (induction es arbitrary: s) simp_all

locale machine =
  fixes step :: "'s \<Rightarrow> 'e \<Rightarrow> 's" and inv :: "'s \<Rightarrow> bool"
  assumes step_inv: "inv s \<Longrightarrow> inv (step s e)"
begin

lemma run_inv: "inv s \<Longrightarrow> inv (run step s es)"
  by (induction es arbitrary: s) (auto intro: step_inv)

lemma run_prefix_inv: "inv s \<Longrightarrow> es = fs @ gs \<Longrightarrow> inv (run step s fs)"
  by (auto intro: run_inv)

end

text \<open>A component with facts that never go back: once \<open>done s x\<close> holds, it holds after every
  further step (a settled task, a fired token, a finished request).\<close>

locale settling_machine = machine step inv
  for step :: "'s \<Rightarrow> 'e \<Rightarrow> 's" and inv :: "'s \<Rightarrow> bool" +
  fixes settled :: "'s \<Rightarrow> 'x \<Rightarrow> bool"
  assumes step_settled: "inv s \<Longrightarrow> settled s x \<Longrightarrow> settled (step s e) x"
begin

lemma run_settled: "inv s \<Longrightarrow> settled s x \<Longrightarrow> settled (run step s es) x"
  by (induction es arbitrary: s) (auto intro: step_inv step_settled)

lemma run_settled_later:
  "inv s \<Longrightarrow> settled (run step s es) x \<Longrightarrow> settled (run step s (es @ fs)) x"
  by (simp add: run_append run_settled run_inv)

end

end
