(* ===== verification/Session.thy ===== *)
theory Session
  imports Log_Level Machine
begin

text \<open>
  Sessions of the \<^verbatim>\<open>initialize\<close> era and the bounded store that holds them
  (\<^verbatim>\<open>src/mcp/session.rs\<close>).

  A session is shared (\<^verbatim>\<open>Arc<Session>\<close>): the store, the request that entered it and the
  connection that minted it all hold the same object. So sessions live in a heap, the store
  maps an id to a heap address, and an operation on a session writes the heap. The tokens of
  the sessions are opaque; \<open>sw_fired\<close> records, latest first, every token the code cancelled.
  Every operation takes the instant \<^verbatim>\<open>Instant::now()\<close> answered.
\<close>

type_synonym token = nat
type_synonym sref = nat

record declared_capabilities =
  dc_sampling :: bool
  dc_form_elicitation :: bool

definition no_capabilities :: declared_capabilities where
  "no_capabilities = \<lparr>dc_sampling = False, dc_form_elicitation = False\<rparr>"

definition capabilities_from_initialize :: "json option \<Rightarrow> declared_capabilities" where
  "capabilities_from_initialize capabilities =
     (case capabilities of
        None \<Rightarrow> no_capabilities
      | Some c \<Rightarrow>
          \<lparr>dc_sampling = (case json_get ''sampling'' c of None \<Rightarrow> False | Some v \<Rightarrow> is_object v),
           dc_form_elicitation =
             (case Option.bind (json_get ''elicitation'' c) as_object of
                None \<Rightarrow> False
              | Some elicitation \<Rightarrow> elicitation = [] \<or> contains_key ''form'' elicitation)\<rparr>)"

text \<open>What a session reads of the \<^verbatim>\<open>ToolContext\<close>: the caller identity the auth hook resolved.\<close>

record identity =
  user_id :: "string option"
  tenant_id :: "string option"

record session =
  s_id :: "string option"
  s_user :: "string option"
  s_tenant :: "string option"
  s_capabilities :: declared_capabilities
  s_log_level :: "log_level option"
  s_last_seen :: instant
  s_active :: nat
  s_cancellation :: token

text \<open>\<open>token\<close> is the child token \<^verbatim>\<open>ctx.cancellation.child_token()\<close> derived for the session.\<close>

definition session_new :: "instant \<Rightarrow> token \<Rightarrow> string option \<Rightarrow> identity \<Rightarrow> session" where
  "session_new now token sid ctx =
     \<lparr>s_id = sid, s_user = user_id ctx, s_tenant = tenant_id ctx,
      s_capabilities = no_capabilities, s_log_level = None,
      s_last_seen = now, s_active = 0, s_cancellation = token\<rparr>"

text \<open>\<open>random\<close> is what \<^verbatim>\<open>random_hex_id()\<close> answered: an id, or the randomness failure.\<close>

definition mint :: "instant \<Rightarrow> token \<Rightarrow> ('e, string) result \<Rightarrow> identity \<Rightarrow> ('e, session) result" where
  "mint now token random ctx =
     result_bind random (\<lambda>sid. Inr (session_new now token (Some sid) ctx))"

definition connection_session :: "instant \<Rightarrow> token \<Rightarrow> session" where
  "connection_session now token =
     session_new now token None \<lparr>user_id = None, tenant_id = None\<rparr>"

definition is_owned_by :: "session \<Rightarrow> identity \<Rightarrow> bool" where
  "is_owned_by s ctx \<longleftrightarrow> s_user s = user_id ctx \<and> s_tenant s = tenant_id ctx"

definition shares_caller_with :: "session \<Rightarrow> session \<Rightarrow> bool" where
  "shares_caller_with s other \<longleftrightarrow> s_user s = s_user other \<and> s_tenant s = s_tenant other"

definition record_capabilities :: "json option \<Rightarrow> session \<Rightarrow> session" where
  "record_capabilities capabilities s = s\<lparr>s_capabilities := capabilities_from_initialize capabilities\<rparr>"

definition set_log_level :: "log_level \<Rightarrow> session \<Rightarrow> session" where
  "set_log_level level s = s\<lparr>s_log_level := Some level\<rparr>"

definition session_enter :: "session \<Rightarrow> session" where
  "session_enter s = s\<lparr>s_active := Suc (s_active s)\<rparr>"

text \<open>Dropping the \<^verbatim>\<open>SessionUse\<close> guard \<open>enter\<close> returned.\<close>

definition session_leave :: "instant \<Rightarrow> session \<Rightarrow> session" where
  "session_leave now s = s\<lparr>s_last_seen := now, s_active := s_active s - 1\<rparr>"

definition is_idle :: "session \<Rightarrow> bool" where
  "is_idle s \<longleftrightarrow> s_active s = 0"

definition is_expired :: "duration \<Rightarrow> instant \<Rightarrow> session \<Rightarrow> bool" where
  "is_expired ttl now s \<longleftrightarrow> is_idle s \<and> ttl \<le> now - s_last_seen s"

subsection \<open>The store\<close>

record limits =
  l_total :: nat
  l_per_caller :: nat

datatype refusal = ServerFull | CallerFull

record session_world =
  sw_ttl :: duration
  sw_limits :: limits
  sw_sessions :: "(string, sref) table"
  sw_last_sweep :: instant
  sw_heap :: "sref \<Rightarrow> session"
  sw_fired :: "token list"

definition store_new ::
  "instant \<Rightarrow> duration \<Rightarrow> limits \<Rightarrow> (sref \<Rightarrow> session) \<Rightarrow> session_world" where
  "store_new now ttl limits heap =
     \<lparr>sw_ttl = ttl, sw_limits = limits, sw_sessions = [], sw_last_sweep = now,
      sw_heap = heap, sw_fired = []\<rparr>"

text \<open>\<^verbatim>\<open>Session::end\<close>: cancel the token every request of the session derives from.\<close>

definition end_ref :: "sref \<Rightarrow> session_world \<Rightarrow> session_world" where
  "end_ref r w = w\<lparr>sw_fired := s_cancellation (sw_heap w r) # sw_fired w\<rparr>"

definition expired_in :: "session_world \<Rightarrow> instant \<Rightarrow> sref \<Rightarrow> bool" where
  "expired_in w now r \<longleftrightarrow> is_expired (sw_ttl w) now (sw_heap w r)"

definition drop_expired :: "instant \<Rightarrow> session_world \<Rightarrow> session_world" where
  "drop_expired now w =
     w\<lparr>sw_sessions := retain (\<lambda>_ r. \<not> expired_in w now r) (sw_sessions w),
       sw_fired := map (\<lambda>(_, r). s_cancellation (sw_heap w r))
           (filter (\<lambda>(_, r). expired_in w now r) (sw_sessions w)) @ sw_fired w\<rparr>"

definition sweep_if_due :: "instant \<Rightarrow> session_world \<Rightarrow> session_world" where
  "sweep_if_due now w =
     (if now - sw_last_sweep w < sw_ttl w div 2 then w
      else drop_expired now (w\<lparr>sw_last_sweep := now\<rparr>))"

text \<open>The scan of \<open>insert\<close>: how many live sessions the caller holds, and the idle one of them
  seen least recently (the first such in the table's order).\<close>

fun scan_caller ::
  "(sref \<Rightarrow> session) \<Rightarrow> session \<Rightarrow> (string \<times> sref) list \<Rightarrow> nat \<times> (instant \<times> string) option
     \<Rightarrow> nat \<times> (instant \<times> string) option" where
  "scan_caller heap s [] acc = acc"
| "scan_caller heap s ((key, r) # rest) (theirs, least_recent) =
     (let live = heap r in
      if \<not> shares_caller_with live s then scan_caller heap s rest (theirs, least_recent)
      else scan_caller heap s rest
        (Suc theirs,
         if is_idle live
            \<and> (case least_recent of None \<Rightarrow> True | Some (oldest, _) \<Rightarrow> s_last_seen live < oldest)
         then Some (s_last_seen live, key) else least_recent))"

definition remove_ending :: "string \<Rightarrow> session_world \<Rightarrow> session_world" where
  "remove_ending key w =
     (case map_of (sw_sessions w) key of
        None \<Rightarrow> w
      | Some r \<Rightarrow> end_ref r (w\<lparr>sw_sessions := AList.delete key (sw_sessions w)\<rparr>))"

definition store_len :: "session_world \<Rightarrow> nat" where
  "store_len w = length (sw_sessions w)"

text \<open>The second half of \<open>insert\<close>: room within the total, then the insertion.\<close>

definition insert_with_room ::
  "instant \<Rightarrow> string \<Rightarrow> sref \<Rightarrow> session_world \<Rightarrow> session_world \<times> (refusal, unit) result" where
  "insert_with_room now sid r w =
     (if store_len w < l_total (sw_limits w)
      then (w\<lparr>sw_sessions := AList.update sid r (sw_sessions w)\<rparr>, Inr ())
      else
        (let w' = drop_expired now w in
         if store_len w' < l_total (sw_limits w')
         then (w'\<lparr>sw_sessions := AList.update sid r (sw_sessions w')\<rparr>, Inr ())
         else (w', Inl ServerFull)))"

definition store_insert ::
  "instant \<Rightarrow> sref \<Rightarrow> session_world \<Rightarrow> session_world \<times> (refusal, unit) result" where
  "store_insert now r w0 =
     (let w = sweep_if_due now w0; s = sw_heap w r in
      case s_id s of
        None \<Rightarrow> (w, Inr ())
      | Some sid \<Rightarrow>
        (case scan_caller (sw_heap w) s (sw_sessions w) (0, None) of
           (theirs, least_recent) \<Rightarrow>
             if l_per_caller (sw_limits w) \<le> theirs
             then (case least_recent of
                     None \<Rightarrow> (w, Inl CallerFull)
                   | Some (_, key) \<Rightarrow> insert_with_room now sid r (remove_ending key w))
             else insert_with_room now sid r w))"

definition store_find :: "instant \<Rightarrow> string \<Rightarrow> session_world \<Rightarrow> session_world \<times> sref option" where
  "store_find now sid w0 =
     (let w = sweep_if_due now w0 in
      case map_of (sw_sessions w) sid of
        None \<Rightarrow> (w, None)
      | Some r \<Rightarrow> if expired_in w now r then (remove_ending sid w, None) else (w, Some r))"

definition store_enter ::
  "instant \<Rightarrow> string \<Rightarrow> identity \<Rightarrow> session_world \<Rightarrow> session_world \<times> sref option" where
  "store_enter now sid ctx w0 =
     (let w = sweep_if_due now w0 in
      case map_of (sw_sessions w) sid of
        None \<Rightarrow> (w, None)
      | Some r \<Rightarrow>
          if expired_in w now r then (remove_ending sid w, None)
          else if is_owned_by (sw_heap w r) ctx
          then (w\<lparr>sw_heap := (sw_heap w)(r := session_enter (sw_heap w r))\<rparr>, Some r)
          else (w, None))"

definition store_end :: "string \<Rightarrow> session_world \<Rightarrow> session_world \<times> bool" where
  "store_end sid w = (remove_ending sid w, map_of (sw_sessions w) sid \<noteq> None)"

definition use_drop :: "instant \<Rightarrow> sref \<Rightarrow> session_world \<Rightarrow> session_world" where
  "use_drop now r w = w\<lparr>sw_heap := (sw_heap w)(r := session_leave now (sw_heap w r))\<rparr>"

subsection \<open>The scan of an insert\<close>

definition caller_entries ::
  "(sref \<Rightarrow> session) \<Rightarrow> session \<Rightarrow> (string \<times> sref) list \<Rightarrow> (string \<times> sref) list" where
  "caller_entries heap s xs = filter (\<lambda>(_, r). shares_caller_with (heap r) s) xs"

lemma caller_entries_simps [simp]:
  "caller_entries heap s [] = []"
  "caller_entries heap s ((k, r) # xs) =
     (if shares_caller_with (heap r) s then (k, r) # caller_entries heap s xs
      else caller_entries heap s xs)"
  by (simp_all add: caller_entries_def)

lemma shares_caller_with_refl [simp]: "shares_caller_with s s"
  by (simp add: shares_caller_with_def)

lemma scan_caller_count:
  "fst (scan_caller heap s xs (n, lr)) = n + length (caller_entries heap s xs)"
  by (induction heap s xs "(n, lr)" arbitrary: n lr rule: scan_caller.induct)
    (auto simp: Let_def)

lemma scan_caller_idle:
  assumes "snd (scan_caller heap s xs (n, lr)) = res"
  shows "(case res of
      None \<Rightarrow> lr = None \<and> (\<forall>(k, r) \<in> set (caller_entries heap s xs). \<not> is_idle (heap r))
    | Some (t, k) \<Rightarrow>
        (lr = Some (t, k) \<or> (\<exists>r. (k, r) \<in> set (caller_entries heap s xs) \<and> is_idle (heap r)
            \<and> s_last_seen (heap r) = t))
        \<and> (\<forall>(k', r') \<in> set (caller_entries heap s xs). is_idle (heap r') \<longrightarrow> t \<le> s_last_seen (heap r'))
        \<and> (case lr of None \<Rightarrow> True | Some (t', _) \<Rightarrow> t \<le> t'))"
  using assms
proof (induction heap s xs "(n, lr)" arbitrary: n lr rule: scan_caller.induct)
  case (1 heap s n lr)
  then show ?case by (auto split: option.splits)
next
  case (2 heap s key r rest n lr)
  show ?case
  proof (cases "shares_caller_with (heap r) s")
    case False
    with 2 show ?thesis by (cases res) (simp_all add: Let_def split: prod.splits)
  next
    case True
    let ?lr = "if is_idle (heap r)
        \<and> (case lr of None \<Rightarrow> True | Some (oldest, _) \<Rightarrow> s_last_seen (heap r) < oldest)
      then Some (s_last_seen (heap r), key) else lr"
    from True "2.prems" have "snd (scan_caller heap s rest (Suc n, ?lr)) = res"
      by (simp add: Let_def)
    from "2.hyps"(2) [OF refl _ this] True show ?thesis
      by (auto split: option.splits if_splits prod.splits)
  qed
qed

lemma scan_caller_None:
  "snd (scan_caller heap s xs (0, None)) = None \<Longrightarrow>
   (k, r) \<in> set xs \<Longrightarrow> shares_caller_with (heap r) s \<Longrightarrow> \<not> is_idle (heap r)"
  using scan_caller_idle [of heap s xs 0 None None] by (auto simp: caller_entries_def)

lemma scan_caller_Some:
  assumes "snd (scan_caller heap s xs (0, None)) = Some (t, k)"
  shows "\<exists>r. (k, r) \<in> set xs \<and> shares_caller_with (heap r) s \<and> is_idle (heap r)
    \<and> (\<forall>(k', r') \<in> set xs. shares_caller_with (heap r') s \<and> is_idle (heap r')
         \<longrightarrow> s_last_seen (heap r) \<le> s_last_seen (heap r'))"
  using scan_caller_idle [OF assms] by (fastforce simp: caller_entries_def)

subsection \<open>What each operation keeps of the table\<close>

text \<open>How many sessions one caller identity holds.\<close>

definition caller_count :: "session_world \<Rightarrow> identity \<Rightarrow> nat" where
  "caller_count w ctx = length (filter (\<lambda>(_, r). is_owned_by (sw_heap w r) ctx) (sw_sessions w))"

definition world_ok :: "session_world \<Rightarrow> bool" where
  "world_ok w \<longleftrightarrow>
     distinct_keys (sw_sessions w)
     \<and> store_len w \<le> l_total (sw_limits w)
     \<and> (\<forall>ctx. caller_count w ctx \<le> l_per_caller (sw_limits w))
     \<and> (\<forall>k r. map_of (sw_sessions w) k = Some r \<longrightarrow> s_id (sw_heap w r) = Some k)"

text \<open>An operation that only drops entries, keeping the heap and the limits.\<close>

definition shrinks :: "session_world \<Rightarrow> session_world \<Rightarrow> bool" where
  "shrinks w w' \<longleftrightarrow>
     sw_heap w' = sw_heap w \<and> sw_limits w' = sw_limits w \<and> sw_ttl w' = sw_ttl w
     \<and> distinct_keys (sw_sessions w') \<and> store_len w' \<le> store_len w
     \<and> (\<forall>ctx. caller_count w' ctx \<le> caller_count w ctx)
     \<and> (\<forall>k r. map_of (sw_sessions w') k = Some r \<longrightarrow> map_of (sw_sessions w) k = Some r)"

lemma shrinks_refl: "distinct_keys (sw_sessions w) \<Longrightarrow> shrinks w w"
  by (simp add: shrinks_def)

lemma shrinks_trans: "shrinks w w' \<Longrightarrow> shrinks w' w'' \<Longrightarrow> shrinks w w''"
  by (simp add: shrinks_def) (meson order_trans)

lemma shrinks_ok [inv_intros]: "world_ok w \<Longrightarrow> shrinks w w' \<Longrightarrow> world_ok w'"
  by (auto simp: world_ok_def shrinks_def intro: order_trans)

lemma drop_expired_shrinks: "distinct_keys (sw_sessions w) \<Longrightarrow> shrinks w (drop_expired now w)"
  by (auto simp: shrinks_def drop_expired_def store_len_def caller_count_def length_retain_le
      length_filter_retain_le distinct_keys_retain map_of_retain split: option.splits if_splits)

lemma drop_expired_lookup [store_simps]:
  "distinct_keys (sw_sessions w) \<Longrightarrow>
   map_of (sw_sessions (drop_expired now w)) k =
     (case map_of (sw_sessions w) k of
        None \<Rightarrow> None | Some r \<Rightarrow> if expired_in w now r then None else Some r)"
  by (auto simp: drop_expired_def map_of_retain split: option.splits)

lemma sweep_shrinks: "distinct_keys (sw_sessions w) \<Longrightarrow> shrinks w (sweep_if_due now w)"
proof -
  assume d: "distinct_keys (sw_sessions w)"
  let ?w = "w\<lparr>sw_last_sweep := now\<rparr>"
  from d have "shrinks ?w (drop_expired now ?w)" by (intro drop_expired_shrinks) simp
  moreover have "shrinks w ?w" using d by (simp add: shrinks_def store_len_def caller_count_def)
  ultimately show ?thesis
    using d by (auto simp: sweep_if_due_def shrinks_refl intro: shrinks_trans)
qed

lemma sweep_heap: "sw_heap (sweep_if_due now w) = sw_heap w"
  by (simp add: sweep_if_due_def drop_expired_def)

lemma sweep_lookup [store_simps]:
  assumes "distinct_keys (sw_sessions w)" and "\<not> expired_in w now r"
  shows "map_of (sw_sessions (sweep_if_due now w)) k = Some r \<longleftrightarrow> map_of (sw_sessions w) k = Some r"
  using assms drop_expired_lookup [of "w\<lparr>sw_last_sweep := now\<rparr>" now k]
  by (auto simp: sweep_if_due_def expired_in_def split: option.splits)

lemma remove_ending_lookup [store_simps]:
  "map_of (sw_sessions (remove_ending key w)) k =
     (if k = key then None else map_of (sw_sessions w) k)"
  by (auto simp: remove_ending_def end_ref_def map_of_delete split: option.splits)

lemma remove_ending_shrinks: "distinct_keys (sw_sessions w) \<Longrightarrow> shrinks w (remove_ending key w)"
  by (auto simp: shrinks_def remove_ending_def end_ref_def store_len_def caller_count_def
      length_delete_le_list length_filter_delete_le distinct_keys_delete map_of_delete
      split: option.splits if_splits)

text \<open>The insertion itself, once there is room for the caller and within the total.\<close>

lemma insert_world_ok:
  assumes "world_ok w" and "s_id (sw_heap w r) = Some sid"
    and room: "store_len w < l_total (sw_limits w)"
    and caller: "length (caller_entries (sw_heap w) (sw_heap w r) (sw_sessions w))
      < l_per_caller (sw_limits w)"
  shows "world_ok (w\<lparr>sw_sessions := AList.update sid r (sw_sessions w)\<rparr>)"
proof -
  let ?w = "w\<lparr>sw_sessions := AList.update sid r (sw_sessions w)\<rparr>"
  have count: "caller_count ?w ctx \<le> l_per_caller (sw_limits w)" for ctx
  proof (cases "is_owned_by (sw_heap w r) ctx")
    case True
    then have "(\<lambda>(_, r'). is_owned_by (sw_heap w r') ctx)
        = (\<lambda>(_ :: string, r'). shares_caller_with (sw_heap w r') (sw_heap w r))"
      by (auto simp: is_owned_by_def shares_caller_with_def)
    with caller show ?thesis
      using length_filter_update_le
        [of "\<lambda>(_, r'). is_owned_by (sw_heap w r') ctx" sid r "sw_sessions w"]
      by (simp add: caller_count_def caller_entries_def)
  next
    case False
    with assms(1) show ?thesis
      using length_filter_update_le
        [of "\<lambda>(_, r'). is_owned_by (sw_heap w r') ctx" sid r "sw_sessions w"]
      by (auto simp: caller_count_def world_ok_def intro: order_trans)
  qed
  have "store_len ?w \<le> l_total (sw_limits w)"
    using room length_update_le [of sid r "sw_sessions w"] by (simp add: store_len_def)
  with count assms(1,2) show ?thesis
    by (auto simp: world_ok_def map_of_update distinct_keys_update split: if_splits)
qed

lemma caller_entries_shrink:
  assumes "shrinks w w'"
  shows "length (caller_entries (sw_heap w') s (sw_sessions w'))
    \<le> length (caller_entries (sw_heap w) s (sw_sessions w))"
proof -
  have "caller_count v \<lparr>user_id = s_user s, tenant_id = s_tenant s\<rparr>
      = length (caller_entries (sw_heap v) s (sw_sessions v))" for v
    by (simp add: caller_count_def caller_entries_def is_owned_by_def shares_caller_with_def)
  with assms show ?thesis by (metis shrinks_def)
qed

lemma insert_with_room_ok:
  assumes "world_ok w" and "s_id (sw_heap w r) = Some sid"
    and "length (caller_entries (sw_heap w) (sw_heap w r) (sw_sessions w)) < l_per_caller (sw_limits w)"
  shows "world_ok (fst (insert_with_room now sid r w))"
proof -
  from assms(1) have d: "distinct_keys (sw_sessions w)" by (simp add: world_ok_def)
  let ?w = "drop_expired now w"
  have shr: "shrinks w ?w" using d by (rule drop_expired_shrinks)
  then have "world_ok ?w" and same: "sw_heap ?w = sw_heap w" "sw_limits ?w = sw_limits w"
    using assms(1) shrinks_ok by (auto simp: shrinks_def)
  moreover have "length (caller_entries (sw_heap ?w) (sw_heap ?w r) (sw_sessions ?w))
      < l_per_caller (sw_limits ?w)"
    using assms(3) caller_entries_shrink [OF shr, of "sw_heap w r"] same by simp
  ultimately show ?thesis
    using assms insert_world_ok [of w r sid] insert_world_ok [of ?w r sid] same
    by (simp add: insert_with_room_def Let_def)
qed

lemma remove_ending_count:
  assumes "distinct_keys (sw_sessions w)" and "map_of (sw_sessions w) key = Some r"
    and "shares_caller_with (sw_heap w r) s"
  shows "Suc (length (caller_entries (sw_heap (remove_ending key w)) s (sw_sessions (remove_ending key w))))
    = length (caller_entries (sw_heap w) s (sw_sessions w))"
  using assms
    length_filter_delete [of "sw_sessions w" key r "\<lambda>(_, r). shares_caller_with (sw_heap w r) s"]
  by (simp add: remove_ending_def end_ref_def caller_entries_def)

lemma caller_entries_bound:
  assumes "world_ok w"
  shows "length (caller_entries (sw_heap w) s (sw_sessions w)) \<le> l_per_caller (sw_limits w)"
proof -
  have "length (caller_entries (sw_heap w) s (sw_sessions w))
      = caller_count w \<lparr>user_id = s_user s, tenant_id = s_tenant s\<rparr>"
    by (simp add: caller_count_def caller_entries_def is_owned_by_def shares_caller_with_def)
  with assms show ?thesis by (simp add: world_ok_def)
qed

text \<open>The insert, with its evicted session spelled out.\<close>

lemma store_insert_cases:
  assumes ok: "world_ok w0" and w: "w = sweep_if_due now w0" and sid: "s_id (sw_heap w r) = Some sid"
  obtains
    (full) "store_insert now r w0 = (w, Inl CallerFull)"
      "\<And>k r'. map_of (sw_sessions w) k = Some r' \<Longrightarrow> shares_caller_with (sw_heap w r') (sw_heap w r)
         \<Longrightarrow> \<not> is_idle (sw_heap w r')"
      "l_per_caller (sw_limits w) \<le> length (caller_entries (sw_heap w) (sw_heap w r) (sw_sessions w))"
  | (evict) key r' where
      "store_insert now r w0 = insert_with_room now sid r (remove_ending key w)"
      "map_of (sw_sessions w) key = Some r'" "shares_caller_with (sw_heap w r') (sw_heap w r)"
      "is_idle (sw_heap w r')"
      "\<And>k r''. map_of (sw_sessions w) k = Some r'' \<Longrightarrow> shares_caller_with (sw_heap w r'') (sw_heap w r)
         \<Longrightarrow> is_idle (sw_heap w r'') \<Longrightarrow> s_last_seen (sw_heap w r') \<le> s_last_seen (sw_heap w r'')"
      "l_per_caller (sw_limits w) \<le> length (caller_entries (sw_heap w) (sw_heap w r) (sw_sessions w))"
  | (room) "store_insert now r w0 = insert_with_room now sid r w"
      "length (caller_entries (sw_heap w) (sw_heap w r) (sw_sessions w)) < l_per_caller (sw_limits w)"
proof -
  have d: "distinct_keys (sw_sessions w)"
    using sweep_shrinks [of w0 now] ok w by (simp add: shrinks_def world_ok_def)
  obtain theirs lr where scan:
    "scan_caller (sw_heap w) (sw_heap w r) (sw_sessions w) (0, None) = (theirs, lr)"
    by (cases "scan_caller (sw_heap w) (sw_heap w r) (sw_sessions w) (0, None)")
  have theirs: "theirs = length (caller_entries (sw_heap w) (sw_heap w r) (sw_sessions w))"
    using scan_caller_count [of "sw_heap w" "sw_heap w r" "sw_sessions w" 0 None] scan by simp
  have unfold: "store_insert now r w0 =
      (if l_per_caller (sw_limits w) \<le> theirs
       then (case lr of None \<Rightarrow> (w, Inl CallerFull)
             | Some (_, key) \<Rightarrow> insert_with_room now sid r (remove_ending key w))
       else insert_with_room now sid r w)"
  proof -
    have "store_insert now r w0 =
        (case scan_caller (sw_heap w) (sw_heap w r) (sw_sessions w) (0, None) of
           (theirs, least_recent) \<Rightarrow>
             if l_per_caller (sw_limits w) \<le> theirs
             then (case least_recent of
                     None \<Rightarrow> (w, Inl CallerFull)
                   | Some (_, key) \<Rightarrow> insert_with_room now sid r (remove_ending key w))
             else insert_with_room now sid r w)"
      using sid by (simp add: store_insert_def Let_def flip: w)
    with scan show ?thesis by simp
  qed
  show ?thesis
  proof (cases "l_per_caller (sw_limits w) \<le> theirs")
    case False
    with unfold theirs show ?thesis by (intro room) auto
  next
    case True
    show ?thesis
    proof (cases lr)
      case None
      have "\<not> is_idle (sw_heap w r')"
        if "map_of (sw_sessions w) k = Some r'" "shares_caller_with (sw_heap w r') (sw_heap w r)" for k r'
        using scan_caller_None [of "sw_heap w" "sw_heap w r" "sw_sessions w" k r'] scan None that
        by (auto dest: map_of_SomeD)
      with unfold True None theirs show ?thesis by (intro full) auto
    next
      case (Some tk)
      obtain t key where tk: "tk = (t, key)" by (cases tk)
      from scan Some tk obtain r' where r': "(key, r') \<in> set (sw_sessions w)"
        "shares_caller_with (sw_heap w r') (sw_heap w r)" "is_idle (sw_heap w r')"
        and least: "\<forall>(k', r'') \<in> set (sw_sessions w).
          shares_caller_with (sw_heap w r'') (sw_heap w r) \<and> is_idle (sw_heap w r'')
            \<longrightarrow> s_last_seen (sw_heap w r') \<le> s_last_seen (sw_heap w r'')"
        using scan_caller_Some [of "sw_heap w" "sw_heap w r" "sw_sessions w" t key] by auto
      show ?thesis
      proof (rule evict [of key r'])
        show "store_insert now r w0 = insert_with_room now sid r (remove_ending key w)"
          using unfold True Some tk by simp
        show "map_of (sw_sessions w) key = Some r'"
          using r' d by (intro map_of_SomeI)
        show "s_last_seen (sw_heap w r') \<le> s_last_seen (sw_heap w r'')"
          if "map_of (sw_sessions w) k = Some r''" "shares_caller_with (sw_heap w r'') (sw_heap w r)"
            "is_idle (sw_heap w r'')" for k r''
          using least that by (auto dest!: map_of_SomeD)
      qed (use r' True theirs in auto)
    qed
  qed
qed

lemma store_insert_ok [inv_intros]:
  assumes ok: "world_ok w0"
  shows "world_ok (fst (store_insert now r w0))"
proof -
  let ?w = "sweep_if_due now w0"
  have d: "distinct_keys (sw_sessions w0)" using ok by (simp add: world_ok_def)
  have okw: "world_ok ?w" using ok sweep_shrinks [OF d] by (rule shrinks_ok)
  have heap: "sw_heap ?w = sw_heap w0" using sweep_shrinks [OF d, of now] by (simp add: shrinks_def)
  show ?thesis
  proof (cases "s_id (sw_heap ?w r)")
    case None
    with okw heap show ?thesis by (simp add: store_insert_def Let_def)
  next
    case (Some sid)
    from ok refl Some show ?thesis
    proof (cases rule: store_insert_cases)
      case full
      with okw show ?thesis by simp
    next
      case (evict key r')
      let ?v = "remove_ending key ?w"
      have dw: "distinct_keys (sw_sessions ?w)" using okw by (simp add: world_ok_def)
      have okv: "world_ok ?v" using okw remove_ending_shrinks [OF dw] by (rule shrinks_ok)
      have same: "sw_heap ?v = sw_heap ?w" "sw_limits ?v = sw_limits ?w"
        using remove_ending_shrinks [OF dw, of key] by (simp_all add: shrinks_def)
      have "length (caller_entries (sw_heap ?v) (sw_heap ?v r) (sw_sessions ?v)) < l_per_caller (sw_limits ?v)"
        using remove_ending_count [OF dw evict(2,3)] caller_entries_bound [OF okw, of "sw_heap ?w r"]
        by (simp add: same)
      with evict(1) okv Some same show ?thesis by (simp add: insert_with_room_ok)
    next
      case room
      with okw Some show ?thesis by (simp add: insert_with_room_ok)
    qed
  qed
qed

lemma sweep_ok [inv_intros]: "world_ok w \<Longrightarrow> world_ok (sweep_if_due now w)"
  by (rule shrinks_ok, assumption, rule sweep_shrinks) (simp add: world_ok_def)

lemma remove_ending_ok [inv_intros]: "world_ok w \<Longrightarrow> world_ok (remove_ending key w)"
  by (rule shrinks_ok, assumption, rule remove_ending_shrinks) (simp add: world_ok_def)

lemma store_find_ok [inv_intros]: "world_ok w \<Longrightarrow> world_ok (fst (store_find now sid w))"
  by (simp add: store_find_def Let_def sweep_ok remove_ending_ok split: option.split)

text \<open>Writing sessions without touching the id or the caller of a stored one keeps the table
  sound.\<close>

lemma heap_agree_ok:
  assumes "world_ok w"
    and "\<And>k r. (k, r) \<in> set (sw_sessions w) \<Longrightarrow> s_id (h r) = s_id (sw_heap w r)
      \<and> s_user (h r) = s_user (sw_heap w r) \<and> s_tenant (h r) = s_tenant (sw_heap w r)"
  shows "world_ok (w\<lparr>sw_heap := h\<rparr>)"
proof -
  have "filter (\<lambda>(_, r). is_owned_by (h r) ctx) (sw_sessions w)
      = filter (\<lambda>(_, r). is_owned_by (sw_heap w r) ctx) (sw_sessions w)" for ctx
    using assms(2) by (intro filter_cong) (auto simp: is_owned_by_def)
  then have "caller_count (w\<lparr>sw_heap := h\<rparr>) ctx = caller_count w ctx" for ctx
    by (simp add: caller_count_def)
  moreover have "s_id (h r) = Some k" if "map_of (sw_sessions w) k = Some r" for k r
    using assms(1) assms(2) [OF map_of_SomeD [OF that]] that by (simp add: world_ok_def)
  ultimately show ?thesis using assms(1) by (simp add: world_ok_def store_len_def)
qed

lemma heap_write_ok:
  assumes "world_ok w" and "s_id s = s_id (sw_heap w r)" and "s_user s = s_user (sw_heap w r)"
    and "s_tenant s = s_tenant (sw_heap w r)"
  shows "world_ok (w\<lparr>sw_heap := (sw_heap w)(r := s)\<rparr>)"
  using assms by (intro heap_agree_ok) auto

lemma store_enter_ok [inv_intros]: "world_ok w \<Longrightarrow> world_ok (fst (store_enter now sid ctx w))"
  by (simp add: store_enter_def Let_def session_enter_def sweep_ok remove_ending_ok heap_write_ok
      split: option.split)

lemma store_end_ok [inv_intros]: "world_ok w \<Longrightarrow> world_ok (fst (store_end sid w))"
  by (simp add: store_end_def remove_ending_ok)

lemma use_drop_ok [inv_intros]: "world_ok w \<Longrightarrow> world_ok (use_drop now r w)"
  by (simp add: use_drop_def session_leave_def heap_write_ok)

subsection \<open>The sessions of a server, over every sequence of operations\<close>

text \<open>
  The world with what the rest of the server holds of it: the sessions minted and not yet
  inserted, and the guards (\<^verbatim>\<open>SessionUse\<close>) of the requests being served. A minted session and
  its token are new objects; the id is what the random source answered. \<open>Insert\<close>, \<open>Leave\<close> name
  a session held by the request that minted or entered it, and do nothing otherwise.
\<close>

record session_system =
  sy_world :: session_world
  sy_next :: nat
  sy_pending :: "sref list"
  sy_uses :: "sref list"

datatype session_event =
    Mint instant string identity
  | Insert instant sref
  | Find instant string
  | Enter instant string identity
  | Leave instant sref
  | End string
  | Declare sref "json option"
  | SetLevel sref log_level

definition set_world :: "session_world \<Rightarrow> session_system \<Rightarrow> session_system" where
  "set_world w y = y\<lparr>sy_world := w\<rparr>"

definition write_session :: "sref \<Rightarrow> session \<Rightarrow> session_world \<Rightarrow> session_world" where
  "write_session r s w = w\<lparr>sw_heap := (sw_heap w)(r := s)\<rparr>"

fun session_step :: "session_system \<Rightarrow> session_event \<Rightarrow> session_system" where
  "session_step y (Mint now sid ctx) =
     (case mint now (sy_next y) (Inr sid :: (unit, string) result) ctx of
        Inl _ \<Rightarrow> y
      | Inr s \<Rightarrow> y\<lparr>sy_world := write_session (sy_next y) s (sy_world y),
                  sy_next := Suc (sy_next y), sy_pending := sy_next y # sy_pending y\<rparr>)"
| "session_step y (Insert now r) =
     (if r \<in> set (sy_pending y)
      then set_world (fst (store_insert now r (sy_world y)))
             (y\<lparr>sy_pending := filter (\<lambda>p. p \<noteq> r) (sy_pending y)\<rparr>)
      else y)"
| "session_step y (Find now sid) = set_world (fst (store_find now sid (sy_world y))) y"
| "session_step y (Enter now sid ctx) =
     (case store_enter now sid ctx (sy_world y) of
        (w, None) \<Rightarrow> set_world w y
      | (w, Some r) \<Rightarrow> set_world w (y\<lparr>sy_uses := r # sy_uses y\<rparr>))"
| "session_step y (Leave now r) =
     (if r \<in> set (sy_uses y)
      then set_world (use_drop now r (sy_world y)) (y\<lparr>sy_uses := remove1 r (sy_uses y)\<rparr>)
      else y)"
| "session_step y (End sid) = set_world (fst (store_end sid (sy_world y))) y"
| "session_step y (Declare r capabilities) =
     set_world (write_session r (record_capabilities capabilities (sw_heap (sy_world y) r)) (sy_world y)) y"
| "session_step y (SetLevel r level) =
     set_world (write_session r (set_log_level level (sw_heap (sy_world y) r)) (sy_world y)) y"

definition session_start :: "instant \<Rightarrow> duration \<Rightarrow> limits \<Rightarrow> (sref \<Rightarrow> session) \<Rightarrow> session_system" where
  "session_start now ttl limits heap =
     \<lparr>sy_world = store_new now ttl limits heap, sy_next = 0, sy_pending = [], sy_uses = []\<rparr>"

text \<open>
  The invariant: the table is sound and within its limits; every session it holds was minted,
  is no longer pending, and has its own token, which has not fired; a session is busy exactly
  while guards of it are outstanding.
\<close>

definition system_ok :: "session_system \<Rightarrow> bool" where
  "system_ok y \<longleftrightarrow>
     world_ok (sy_world y)
     \<and> (\<forall>k r. map_of (sw_sessions (sy_world y)) k = Some r \<longrightarrow> r < sy_next y \<and> r \<notin> set (sy_pending y))
     \<and> (\<forall>r \<in> set (sy_pending y). r < sy_next y)
     \<and> (\<forall>r \<in> set (sy_uses y). r < sy_next y)
     \<and> (\<forall>r < sy_next y. s_cancellation (sw_heap (sy_world y) r) = r
          \<and> s_active (sw_heap (sy_world y) r) = count_list (sy_uses y) r)
     \<and> (\<forall>t \<in> set (sw_fired (sy_world y)). t < sy_next y \<and> t \<notin> set (sy_pending y)
          \<and> (\<forall>k. map_of (sw_sessions (sy_world y)) k \<noteq> Some t))"

text \<open>
  An operation that ends what it drops: the heap stays, an entry is kept or has left with its
  token fired, and a token fired on the way is that of an entry that left.
\<close>

definition ends_leavers :: "session_world \<Rightarrow> session_world \<Rightarrow> bool" where
  "ends_leavers w w' \<longleftrightarrow>
     sw_heap w' = sw_heap w \<and> set (sw_fired w) \<subseteq> set (sw_fired w')
     \<and> (\<forall>k r. map_of (sw_sessions w) k = Some r \<longrightarrow>
          map_of (sw_sessions w') k = Some r
          \<or> map_of (sw_sessions w') k = None \<and> s_cancellation (sw_heap w r) \<in> set (sw_fired w'))
     \<and> (\<forall>k. map_of (sw_sessions w) k = None \<longrightarrow> map_of (sw_sessions w') k = None)
     \<and> (\<forall>t \<in> set (sw_fired w'). t \<in> set (sw_fired w)
          \<or> (\<exists>k r. map_of (sw_sessions w) k = Some r \<and> map_of (sw_sessions w') k = None
               \<and> t = s_cancellation (sw_heap w r)))"

lemma ends_leavers_refl [simp]: "ends_leavers w w"
  by (auto simp: ends_leavers_def)

lemma ends_leavers_trans:
  assumes a: "ends_leavers w w'" and b: "ends_leavers w' w''"
  shows "ends_leavers w w''"
proof -
  have heap: "sw_heap w' = sw_heap w" "sw_heap w'' = sw_heap w"
    using a b by (simp_all add: ends_leavers_def)
  have kept: "map_of (sw_sessions w'') k = Some r
      \<or> map_of (sw_sessions w'') k = None \<and> s_cancellation (sw_heap w r) \<in> set (sw_fired w'')"
    if "map_of (sw_sessions w) k = Some r" for k r
    using a b that heap unfolding ends_leavers_def by (metis subsetD)
  have fired: "t \<in> set (sw_fired w) \<or> (\<exists>k r. map_of (sw_sessions w) k = Some r
      \<and> map_of (sw_sessions w'') k = None \<and> t = s_cancellation (sw_heap w r))"
    if t: "t \<in> set (sw_fired w'')" for t
  proof (cases "t \<in> set (sw_fired w')")
    case True
    with a consider "t \<in> set (sw_fired w)" | k r where "map_of (sw_sessions w) k = Some r"
      "map_of (sw_sessions w') k = None" "t = s_cancellation (sw_heap w r)"
      by (auto simp: ends_leavers_def)
    then show ?thesis
    proof cases
      case 2
      with b have "map_of (sw_sessions w'') k = None" by (simp add: ends_leavers_def)
      with 2 show ?thesis by blast
    qed simp
  next
    case False
    with b t obtain k r where kr: "map_of (sw_sessions w') k = Some r"
      "map_of (sw_sessions w'') k = None" "t = s_cancellation (sw_heap w' r)"
      by (auto simp: ends_leavers_def)
    with a have "map_of (sw_sessions w) k = Some r"
      unfolding ends_leavers_def by (metis option.distinct(1) option.exhaust option.inject)
    with kr heap show ?thesis by auto
  qed
  from a b have "set (sw_fired w) \<subseteq> set (sw_fired w'')"
    by (auto simp: ends_leavers_def)
  with heap kept fired a b show ?thesis by (simp add: ends_leavers_def)
qed

lemma drop_expired_ends:
  assumes d: "distinct_keys (sw_sessions w)"
  shows "ends_leavers w (drop_expired now w)"
proof -
  have fired: "t \<in> set (sw_fired (drop_expired now w)) \<longleftrightarrow> t \<in> set (sw_fired w)
      \<or> (\<exists>k r. map_of (sw_sessions w) k = Some r \<and> expired_in w now r
            \<and> t = s_cancellation (sw_heap w r))" for t
    using d by (auto simp: drop_expired_def image_iff split_beta dest: map_of_SomeD)
      (metis map_of_SomeI)
  have heap: "sw_heap (drop_expired now w) = sw_heap w" by (simp add: drop_expired_def)
  have left: "map_of (sw_sessions (drop_expired now w)) k = None"
    if "map_of (sw_sessions w) k = Some r" "expired_in w now r" for k r
    using d that by (simp add: drop_expired_lookup)
  have kept: "map_of (sw_sessions (drop_expired now w)) k = Some r
      \<or> map_of (sw_sessions (drop_expired now w)) k = None
        \<and> s_cancellation (sw_heap w r) \<in> set (sw_fired (drop_expired now w))"
    if "map_of (sw_sessions w) k = Some r" for k r
    using d that fired by (auto simp: drop_expired_lookup)
  have "map_of (sw_sessions (drop_expired now w)) k = None"
    if "map_of (sw_sessions w) k = None" for k
    using d that by (simp add: drop_expired_lookup)
  with heap kept show ?thesis
    unfolding ends_leavers_def using fired left by blast
qed

lemma sweep_ends: "distinct_keys (sw_sessions w) \<Longrightarrow> ends_leavers w (sweep_if_due now w)"
  using drop_expired_ends [of "w\<lparr>sw_last_sweep := now\<rparr>" now]
  by (auto simp: sweep_if_due_def ends_leavers_def)

lemma remove_ending_ends: "ends_leavers w (remove_ending key w)"
  by (auto simp: ends_leavers_def remove_ending_def end_ref_def map_of_delete split: option.splits)

lemma insert_with_room_shape:
  assumes d: "distinct_keys (sw_sessions w)"
  obtains v where "ends_leavers w v" "shrinks w v"
    "insert_with_room now sid r w = (v\<lparr>sw_sessions := AList.update sid r (sw_sessions v)\<rparr>, Inr ())
     \<or> insert_with_room now sid r w = (v, Inl ServerFull) \<and> l_total (sw_limits w) \<le> store_len v
        \<and> v = drop_expired now w \<and> l_total (sw_limits w) \<le> store_len w"
proof (cases "store_len w < l_total (sw_limits w)")
  case True
  then show ?thesis
    using that [of w] d by (simp add: insert_with_room_def shrinks_refl)
next
  case False
  have "sw_limits (drop_expired now w) = sw_limits w" by (simp add: drop_expired_def)
  with False show ?thesis
    using that [of "drop_expired now w"] drop_expired_ends [OF d, of now] drop_expired_shrinks [OF d, of now]
    by (auto simp: insert_with_room_def Let_def)
qed

text \<open>An insert first ends some sessions, then refuses, or adds the one entry it was asked for.\<close>

lemma store_insert_shape:
  assumes ok: "world_ok w0"
  obtains v where "ends_leavers w0 v" "shrinks w0 v"
    "(\<exists>sid. s_id (sw_heap w0 r) = Some sid
        \<and> store_insert now r w0 = (v\<lparr>sw_sessions := AList.update sid r (sw_sessions v)\<rparr>, Inr ()))
     \<or> (s_id (sw_heap w0 r) = None \<and> store_insert now r w0 = (v, Inr ()))
     \<or> (\<exists>e. store_insert now r w0 = (v, Inl e))"
proof -
  let ?w = "sweep_if_due now w0"
  have d0: "distinct_keys (sw_sessions w0)" using ok by (simp add: world_ok_def)
  have e: "ends_leavers w0 ?w" and s: "shrinks w0 ?w"
    using sweep_ends [OF d0] sweep_shrinks [OF d0] by blast+
  have heap: "sw_heap ?w = sw_heap w0" and dw: "distinct_keys (sw_sessions ?w)"
    using s by (simp_all add: shrinks_def)
  show ?thesis
  proof (cases "s_id (sw_heap ?w r)")
    case None
    with e s heap show ?thesis using that [of ?w] by (simp add: store_insert_def Let_def)
  next
    case (Some sid)
    from ok refl Some show ?thesis
    proof (cases rule: store_insert_cases)
      case full
      with e s show ?thesis using that [of ?w] by simp
    next
      case (evict key r')
      let ?u = "remove_ending key ?w"
      have eu: "ends_leavers w0 ?u" and su: "shrinks w0 ?u"
        using ends_leavers_trans [OF e remove_ending_ends] shrinks_trans [OF s remove_ending_shrinks [OF dw]]
        by blast+
      then have "distinct_keys (sw_sessions ?u)" by (simp add: shrinks_def)
      then show ?thesis
        by (rule insert_with_room_shape [of ?u now sid r])
          (use that ends_leavers_trans [OF eu] shrinks_trans [OF su] evict(1) Some heap in metis)
    next
      case room
      from dw show ?thesis
        by (rule insert_with_room_shape [of ?w now sid r])
          (use that ends_leavers_trans [OF e] shrinks_trans [OF s] room(1) Some heap in metis)
    qed
  qed
qed

lemma store_insert_ends:
  assumes ok: "world_ok w"
  obtains v where "ends_leavers w v" "sw_fired (fst (store_insert now r w)) = sw_fired v"
    "\<And>k. map_of (sw_sessions (fst (store_insert now r w))) k = None \<Longrightarrow> map_of (sw_sessions v) k = None"
    "\<And>k. s_id (sw_heap w r) \<noteq> Some k \<Longrightarrow>
       map_of (sw_sessions (fst (store_insert now r w))) k = map_of (sw_sessions v) k"
proof (rule store_insert_shape [OF ok, of r now])
  fix v
  assume "ends_leavers w v" and
    "(\<exists>sid. s_id (sw_heap w r) = Some sid
        \<and> store_insert now r w = (v\<lparr>sw_sessions := AList.update sid r (sw_sessions v)\<rparr>, Inr ()))
     \<or> (s_id (sw_heap w r) = None \<and> store_insert now r w = (v, Inr ()))
     \<or> (\<exists>e. store_insert now r w = (v, Inl e))"
  then show thesis by (intro that [of v]) (auto simp: map_of_update split: if_splits)
qed

lemma ends_step_ok:
  assumes y: "system_ok y" and e: "ends_leavers (sy_world y) w'" and w': "world_ok w'"
  shows "system_ok (set_world w' y)"
proof -
  let ?w = "sy_world y"
  have heap: "sw_heap w' = sw_heap ?w" using e by (simp add: ends_leavers_def)
  have sub: "map_of (sw_sessions ?w) k = Some r" if "map_of (sw_sessions w') k = Some r" for k r
    using e that unfolding ends_leavers_def by (metis option.distinct(1) option.exhaust option.inject)
  have ids: "map_of (sw_sessions ?w) k = Some r \<Longrightarrow> s_id (sw_heap ?w r) = Some k"
    and token: "map_of (sw_sessions ?w) k = Some r \<Longrightarrow> s_cancellation (sw_heap ?w r) = r"
    and alive: "map_of (sw_sessions ?w) k = Some r \<Longrightarrow> r < sy_next y \<and> r \<notin> set (sy_pending y)" for k r
    using y by (auto simp: system_ok_def world_ok_def)
  have fired: "t < sy_next y \<and> t \<notin> set (sy_pending y) \<and> (\<forall>k. map_of (sw_sessions w') k \<noteq> Some t)"
    if t: "t \<in> set (sw_fired w')" for t
  proof (cases "t \<in> set (sw_fired ?w)")
    case True
    with y show ?thesis by (auto simp: system_ok_def dest: sub)
  next
    case False
    with e t obtain k r where kr: "map_of (sw_sessions ?w) k = Some r"
      "map_of (sw_sessions w') k = None" "t = s_cancellation (sw_heap ?w r)"
      by (auto simp: ends_leavers_def)
    then have "t = r" using token by simp
    moreover have "k' = k" if "map_of (sw_sessions w') k' = Some r" for k'
      using ids [OF kr(1)] ids [OF sub [OF that]] by simp
    ultimately show ?thesis using alive [OF kr(1)] kr(2) by (metis option.distinct(1))
  qed
  have "r < sy_next y \<and> r \<notin> set (sy_pending y)" if "map_of (sw_sessions w') k = Some r" for k r
    using alive [OF sub [OF that]] .
  then show ?thesis
    using y w' heap fired unfolding system_ok_def set_world_def by simp
qed

lemma store_find_ends:
  assumes "world_ok w"
  shows "ends_leavers w (fst (store_find now sid w))"
  using sweep_ends [of w now] ends_leavers_trans [OF sweep_ends remove_ending_ends, of w sid now] assms
  by (auto simp: store_find_def Let_def world_ok_def split: option.split)

lemma store_end_ends: "ends_leavers w (fst (store_end sid w))"
  by (simp add: store_end_def remove_ending_ends)

text \<open>What \<open>enter\<close> answers, on each of its branches.\<close>

lemma store_enter_None:
  assumes "world_ok w" and "store_enter now sid ctx w = (w', None)"
  shows "ends_leavers w w'"
  using sweep_ends [of w now] ends_leavers_trans [OF sweep_ends remove_ending_ends, of w sid now] assms
  by (auto simp: store_enter_def Let_def world_ok_def split: option.splits if_splits)

lemma store_enter_Some:
  assumes "store_enter now sid ctx w = (w', Some r)"
  shows "w' = write_session r (session_enter (sw_heap w r)) (sweep_if_due now w)"
    and "map_of (sw_sessions (sweep_if_due now w)) sid = Some r"
    and "\<not> expired_in (sweep_if_due now w) now r" and "is_owned_by (sw_heap w r) ctx"
proof -
  have "sw_heap (sweep_if_due now w) = sw_heap w"
    by (simp add: sweep_if_due_def drop_expired_def)
  with assms show "w' = write_session r (session_enter (sw_heap w r)) (sweep_if_due now w)"
    "map_of (sw_sessions (sweep_if_due now w)) sid = Some r"
    "\<not> expired_in (sweep_if_due now w) now r" "is_owned_by (sw_heap w r) ctx"
    by (auto simp: store_enter_def Let_def write_session_def split: option.splits if_splits)
qed

text \<open>Writing a session that keeps its id, caller and token, with its guards counted.\<close>

lemma write_step_ok:
  assumes y: "system_ok y"
    and s: "s_id s = s_id (sw_heap (sy_world y) r)" "s_user s = s_user (sw_heap (sy_world y) r)"
      "s_tenant s = s_tenant (sw_heap (sy_world y) r)"
      "s_cancellation s = s_cancellation (sw_heap (sy_world y) r)"
    and uses: "r < sy_next y \<Longrightarrow> s_active s = count_list us r"
      "\<And>r'. r' \<noteq> r \<Longrightarrow> count_list us r' = count_list (sy_uses y) r'"
      "\<And>r'. r' \<in> set us \<Longrightarrow> r' < sy_next y"
  shows "system_ok (set_world (write_session r s (sy_world y)) (y\<lparr>sy_uses := us\<rparr>))"
proof -
  have "world_ok (write_session r s (sy_world y))"
    using y s by (simp add: system_ok_def write_session_def heap_write_ok)
  with y s(4) uses show ?thesis
    unfolding system_ok_def set_world_def write_session_def by simp
qed

lemma mint_step_ok:
  assumes y: "system_ok y"
  shows "system_ok (session_step y (Mint now sid ctx))"
proof -
  let ?w = "sy_world y" and ?n = "sy_next y" and ?s = "session_new now (sy_next y) (Some sid) ctx"
  have fresh: "map_of (sw_sessions ?w) k \<noteq> Some ?n" for k
    using y unfolding system_ok_def by blast
  have d: "distinct_keys (sw_sessions ?w)" using y by (simp add: system_ok_def world_ok_def)
  have "r \<noteq> ?n" if "(k, r) \<in> set (sw_sessions ?w)" for k r
    using fresh map_of_SomeI [OF d that] by auto
  then have "world_ok (write_session ?n ?s ?w)"
    using y unfolding write_session_def by (intro heap_agree_ok) (auto simp: system_ok_def)
  moreover have "count_list (sy_uses y) ?n = 0"
    using y unfolding system_ok_def by (metis count_list_0_iff less_irrefl)
  moreover have "?n \<notin> set (sw_fired ?w)" using y unfolding system_ok_def by blast
  moreover have "session_step y (Mint now sid ctx) =
      y\<lparr>sy_world := write_session ?n ?s ?w, sy_next := Suc ?n, sy_pending := ?n # sy_pending y\<rparr>"
    by (simp add: mint_def)
  ultimately show ?thesis
    using y fresh unfolding system_ok_def write_session_def
    by (auto simp: less_Suc_eq session_new_def)
qed

lemma entry_step_ok:
  assumes y: "system_ok (set_world v y)" and r: "r < sy_next y" "r \<notin> set (sw_fired v)" "r \<notin> set (sy_pending y)"
    and ok: "world_ok (v\<lparr>sw_sessions := AList.update sid r (sw_sessions v)\<rparr>)"
  shows "system_ok (set_world (v\<lparr>sw_sessions := AList.update sid r (sw_sessions v)\<rparr>) y)"
proof -
  have "r' < sy_next y \<and> r' \<notin> set (sy_pending y)"
    if "map_of (AList.update sid r (sw_sessions v)) k = Some r'" for k r'
    using y r that by (auto simp: system_ok_def set_world_def map_of_update split: if_splits)
  moreover have "map_of (AList.update sid r (sw_sessions v)) k \<noteq> Some t"
    if "t \<in> set (sw_fired v)" for t k
    using y r that by (auto simp: system_ok_def set_world_def map_of_update)
  ultimately show ?thesis using y ok by (simp add: system_ok_def set_world_def)
qed

lemma insert_step_ok:
  assumes y: "system_ok y"
  shows "system_ok (session_step y (Insert now r))"
proof (cases "r \<in> set (sy_pending y)")
  case False
  with y show ?thesis by simp
next
  case True
  let ?w = "sy_world y" and ?y = "y\<lparr>sy_pending := filter (\<lambda>p. p \<noteq> r) (sy_pending y)\<rparr>"
  have ok: "world_ok ?w" using y by (simp add: system_ok_def)
  have y': "system_ok ?y" using y by (auto simp: system_ok_def)
  obtain v where e: "ends_leavers ?w v" and s: "shrinks ?w v"
    and v: "(\<exists>sid. s_id (sw_heap ?w r) = Some sid
        \<and> store_insert now r ?w = (v\<lparr>sw_sessions := AList.update sid r (sw_sessions v)\<rparr>, Inr ()))
     \<or> (s_id (sw_heap ?w r) = None \<and> store_insert now r ?w = (v, Inr ()))
     \<or> (\<exists>e. store_insert now r ?w = (v, Inl e))"
    by (rule store_insert_shape [OF ok])
  have okv: "world_ok v" by (rule shrinks_ok [OF ok s])
  have "system_ok (set_world v y)" and yv: "system_ok (set_world v ?y)"
    using ends_step_ok [OF y e okv] ends_step_ok [OF y' _ okv] e by simp_all
  then have r: "r < sy_next ?y" "r \<notin> set (sw_fired v)" "r \<notin> set (sy_pending ?y)"
    using True unfolding system_ok_def set_world_def by auto
  have okw: "world_ok (fst (store_insert now r ?w))" using ok by (rule store_insert_ok)
  show ?thesis
  proof (cases "\<exists>sid. store_insert now r ?w
      = (v\<lparr>sw_sessions := AList.update sid r (sw_sessions v)\<rparr>, Inr ())")
    case False
    with v have "fst (store_insert now r ?w) = v" by auto
    with True yv show ?thesis by simp
  next
    case t: True
    then obtain sid where "store_insert now r ?w
        = (v\<lparr>sw_sessions := AList.update sid r (sw_sessions v)\<rparr>, Inr ())" by blast
    with True yv okw r show ?thesis by (simp add: entry_step_ok)
  qed
qed

lemma session_step_ok: "system_ok y \<Longrightarrow> system_ok (session_step y e)"
proof (cases e)
  case (Mint now sid ctx)
  then show "system_ok y \<Longrightarrow> ?thesis" using mint_step_ok by blast
next
  case (Insert now r)
  then show "system_ok y \<Longrightarrow> ?thesis" using insert_step_ok by blast
next
  case (Find now sid)
  assume y: "system_ok y"
  then have "world_ok (sy_world y)" by (simp add: system_ok_def)
  with Find ends_step_ok [OF y] show ?thesis by (simp add: store_find_ends store_find_ok)
next
  case (Enter now sid ctx)
  assume y: "system_ok y"
  then have ok: "world_ok (sy_world y)" by (simp add: system_ok_def)
  obtain w res where en: "store_enter now sid ctx (sy_world y) = (w, res)"
    by (cases "store_enter now sid ctx (sy_world y)")
  show ?thesis
  proof (cases res)
    case None
    with Enter y en ok store_enter_None [OF ok] store_enter_ok [OF ok, of now sid ctx]
    show ?thesis by (simp add: ends_step_ok)
  next
    case (Some r)
    let ?w = "sweep_if_due now (sy_world y)"
    let ?y = "set_world ?w y"
    have y': "system_ok ?y"
      using ok y by (intro ends_step_ok sweep_ends sweep_ok) (simp_all add: world_ok_def)
    have live: "map_of (sw_sessions ?w) sid = Some r"
      and heap: "sw_heap ?w = sw_heap (sy_world y)"
      and w: "w = write_session r (session_enter (sw_heap ?w r)) ?w"
      using store_enter_Some [of now sid ctx "sy_world y" w r] en Some by (simp_all add: sweep_heap)
    from y' live have r: "r < sy_next y" "s_active (sw_heap ?w r) = count_list (sy_uses y) r"
      unfolding system_ok_def set_world_def by auto
    have "system_ok (set_world (write_session r (session_enter (sw_heap ?w r)) (sy_world ?y))
        (?y\<lparr>sy_uses := r # sy_uses y\<rparr>))"
      using y' r by (intro write_step_ok) (auto simp: session_enter_def set_world_def system_ok_def)
    with Enter en Some w show ?thesis by (simp add: set_world_def)
  qed
next
  case (Leave now r)
  assume y: "system_ok y"
  show ?thesis
  proof (cases "r \<in> set (sy_uses y)")
    case False
    with Leave y show ?thesis by simp
  next
    case True
    have "count_list (remove1 r us) r = count_list us r - 1"
      "r' \<noteq> r \<Longrightarrow> count_list (remove1 r us) r' = count_list us r'" for us r' and r :: nat
      by (induction us) auto
    with y True have "system_ok (set_world
        (write_session r (session_leave now (sw_heap (sy_world y) r)) (sy_world y))
        (y\<lparr>sy_uses := remove1 r (sy_uses y)\<rparr>))"
      by (intro write_step_ok) (auto simp: session_leave_def system_ok_def dest: notin_set_remove1 set_remove1_subset [THEN subsetD])
    with Leave True show ?thesis by (simp add: use_drop_def write_session_def)
  qed
next
  case (End sid)
  assume y: "system_ok y"
  then have "world_ok (sy_world y)" by (simp add: system_ok_def)
  with End ends_step_ok [OF y] show ?thesis by (simp add: store_end_ends store_end_ok)
next
  case (Declare r capabilities)
  assume y: "system_ok y"
  then have "system_ok (set_world (write_session r
      (record_capabilities capabilities (sw_heap (sy_world y) r)) (sy_world y)) (y\<lparr>sy_uses := sy_uses y\<rparr>))"
    by (intro write_step_ok) (auto simp: record_capabilities_def system_ok_def)
  with Declare show ?thesis by simp
next
  case (SetLevel r level)
  assume y: "system_ok y"
  then have "system_ok (set_world (write_session r
      (set_log_level level (sw_heap (sy_world y) r)) (sy_world y)) (y\<lparr>sy_uses := sy_uses y\<rparr>))"
    by (intro write_step_ok) (auto simp: set_log_level_def system_ok_def)
  with SetLevel show ?thesis by simp
qed

lemma session_step_fired:
  assumes y: "system_ok y" and t: "t \<in> set (sw_fired (sy_world y))"
  shows "t \<in> set (sw_fired (sy_world (session_step y e)))"
proof -
  have ok: "world_ok (sy_world y)" using y by (simp add: system_ok_def)
  have ends: "t \<in> set (sw_fired v)" if "ends_leavers (sy_world y) v" for v
    using t that by (auto simp: ends_leavers_def)
  show ?thesis
  proof (cases e)
    case (Insert now r)
    obtain v where "ends_leavers (sy_world y) v" and v: "sw_fired (fst (store_insert now r (sy_world y))) = sw_fired v"
      by (rule store_insert_ends [OF ok])
    then show ?thesis using Insert t ends by (auto simp: set_world_def)
  next
    case (Enter now sid ctx)
    obtain w res where en: "store_enter now sid ctx (sy_world y) = (w, res)"
      by (cases "store_enter now sid ctx (sy_world y)")
    show ?thesis
    proof (cases res)
      case None
      with en store_enter_None [OF ok] ends Enter show ?thesis by (simp add: set_world_def)
    next
      case (Some r)
      have "t \<in> set (sw_fired (sweep_if_due now (sy_world y)))"
        using ok by (intro ends sweep_ends) (simp add: world_ok_def)
      with en Some Enter store_enter_Some(1) [of now sid ctx "sy_world y" w r] show ?thesis
        by (simp add: set_world_def write_session_def)
    qed
  qed (use t ends [OF store_find_ends [OF ok]] ends [OF store_end_ends] in
      \<open>auto simp: set_world_def write_session_def mint_def use_drop_def\<close>)
qed

lemma session_start_ok: "system_ok (session_start now ttl limits heap)"
  by (simp add: session_start_def system_ok_def store_new_def world_ok_def store_len_def caller_count_def)

lemma session_step_limits: "sw_limits (sy_world (session_step y e)) = sw_limits (sy_world y)"
proof -
  have drop: "sw_limits (drop_expired now w) = sw_limits w"
    "sw_limits (sweep_if_due now w) = sw_limits w" "sw_limits (remove_ending k w) = sw_limits w"
    for now w k
    by (simp_all add: sweep_if_due_def drop_expired_def remove_ending_def end_ref_def split: option.split)
  have room: "sw_limits (fst (insert_with_room now sid r w)) = sw_limits w" for now sid r w
    by (simp add: insert_with_room_def Let_def drop)
  have "sw_limits (fst (store_insert now r w)) = sw_limits w"
    "sw_limits (fst (store_enter now sid ctx w)) = sw_limits w"
    "sw_limits (fst (store_find now sid w)) = sw_limits w" for now r sid ctx w
    by (simp_all add: store_insert_def store_enter_def store_find_def Let_def drop room
        split: option.split prod.split)
  then show ?thesis
    by (cases e) (auto simp: set_world_def write_session_def mint_def use_drop_def store_end_def drop
        split: option.split prod.split, (metis fst_conv)+)
qed

interpretation session_invariant: machine session_step system_ok
  by unfold_locales (rule session_step_ok)

interpretation session_limits: machine session_step "\<lambda>y. sw_limits (sy_world y) = l" for l
  by unfold_locales (simp add: session_step_limits)

interpretation session_tokens:
  settling_machine session_step system_ok "\<lambda>y t. t \<in> set (sw_fired (sy_world y))"
  by unfold_locales (rule session_step_fired)

definition session_run ::
  "instant \<Rightarrow> duration \<Rightarrow> limits \<Rightarrow> (sref \<Rightarrow> session) \<Rightarrow> session_event list \<Rightarrow> session_system" where
  "session_run now ttl limits heap es = run session_step (session_start now ttl limits heap) es"

lemma session_run_ok: "system_ok (session_run now ttl limits heap es)"
  unfolding session_run_def by (rule session_invariant.run_inv [OF session_start_ok])

lemma session_run_limits: "sw_limits (sy_world (session_run now ttl limits heap es)) = limits"
  unfolding session_run_def
  by (rule session_limits.run_inv) (simp add: session_start_def store_new_def)

subsection \<open>Properties\<close>

text \<open>
  C19: after every sequence of requests, with any ids, callers and instants, the store holds at
  most its total of sessions, at most its limit of them for any one caller, and each id once.
\<close>

theorem session_store_bounded:
  "let w = sy_world (session_run now ttl limits heap es) in
     store_len w \<le> l_total limits \<and> caller_count w ctx \<le> l_per_caller limits
     \<and> distinct_keys (sw_sessions w)"
  using session_run_ok [of now ttl limits heap es] session_run_limits [of now ttl limits heap es]
  by (simp add: system_ok_def world_ok_def Let_def)

text \<open>
  A live session has not been ended, and one a request is being served in is neither
  swept nor expired, however long it is held: at every later instant its id still resolves to
  it. It is busy exactly while a guard of it is outstanding.
\<close>

theorem served_session_stays_live:
  assumes "y = session_run now ttl limits heap es"
    and live: "map_of (sw_sessions (sy_world y)) sid = Some r"
  shows "s_cancellation (sw_heap (sy_world y) r) \<notin> set (sw_fired (sy_world y))
    \<and> (is_idle (sw_heap (sy_world y) r) \<longleftrightarrow> r \<notin> set (sy_uses y))
    \<and> (r \<in> set (sy_uses y) \<longrightarrow> snd (store_find later sid (sy_world y)) = Some r)"
proof (intro conjI impI)
  have y: "system_ok y" using assms(1) session_run_ok by simp
  then have r: "s_cancellation (sw_heap (sy_world y) r) = r"
    "s_active (sw_heap (sy_world y) r) = count_list (sy_uses y) r"
    and d: "distinct_keys (sw_sessions (sy_world y))"
    using live by (auto simp: system_ok_def world_ok_def)
  show "s_cancellation (sw_heap (sy_world y) r) \<notin> set (sw_fired (sy_world y))"
    using y live r by (auto simp: system_ok_def)
  show idle: "is_idle (sw_heap (sy_world y) r) \<longleftrightarrow> r \<notin> set (sy_uses y)"
    using r by (simp add: is_idle_def count_list_0_iff)
  assume "r \<in> set (sy_uses y)"
  with idle have busy: "\<not> expired_in (sy_world y) later r" by (simp add: expired_in_def is_expired_def)
  then have "\<not> expired_in (sweep_if_due later (sy_world y)) later r"
    by (simp add: expired_in_def is_expired_def sweep_heap sweep_if_due_def drop_expired_def)
  with sweep_lookup [OF d busy, of sid] live
  show "snd (store_find later sid (sy_world y)) = Some r"
    by (simp add: store_find_def Let_def)
qed

definition sample_caller :: identity where
  "sample_caller = \<lparr>user_id = Some ''u1'', tenant_id = None\<rparr>"

definition sample_limits :: limits where
  "sample_limits = \<lparr>l_total = 3, l_per_caller = 2\<rparr>"

definition sample_run :: "session_event list \<Rightarrow> session_system" where
  "sample_run = session_run 0 4 sample_limits (\<lambda>_. connection_session 0 0)"

definition sample_events :: "session_event list" where
  "sample_events = [Mint 0 ''a'' sample_caller, Insert 0 0, Enter 1 ''a'' sample_caller]"

lemma served_session_stays_live_witness:
  "snd (store_find 9 ''a'' (sy_world (sample_run sample_events))) = Some 0"
proof -
  have "map_of (sw_sessions (sy_world (sample_run sample_events))) ''a'' = Some 0"
    and uses: "0 \<in> set (sy_uses (sample_run sample_events))"
    by code_simp+
  from served_session_stays_live [OF _ this(1), of 0 4 sample_limits "\<lambda>_. connection_session 0 0" sample_events 9]
    uses show ?thesis by (simp add: sample_run_def)
qed

text \<open>
  A session leaves the store only ended: one that was live before a step and whose id no
  longer resolves after it has its token fired, and it stays fired through every later step.
\<close>

theorem leaving_session_is_ended:
  assumes "y = session_run now ttl limits heap es"
    and "map_of (sw_sessions (sy_world y)) sid = Some r"
    and "map_of (sw_sessions (sy_world (session_step y e))) sid = None"
  shows "s_cancellation (sw_heap (sy_world y) r)
    \<in> set (sw_fired (sy_world (run session_step (session_step y e) later)))"
proof -
  have y: "system_ok y" using assms(1) session_run_ok by simp
  then have ok: "world_ok (sy_world y)" by (simp add: system_ok_def)
  have ends: "s_cancellation (sw_heap (sy_world y) r) \<in> set (sw_fired v)"
    if "ends_leavers (sy_world y) v" "map_of (sw_sessions v) sid = None" for v
    using that assms(2) unfolding ends_leavers_def by (metis option.distinct(1))
  have "s_cancellation (sw_heap (sy_world y) r) \<in> set (sw_fired (sy_world (session_step y e)))"
  proof (cases e)
    case (Insert at s)
    obtain v where v: "ends_leavers (sy_world y) v"
      "sw_fired (fst (store_insert at s (sy_world y))) = sw_fired v"
      "map_of (sw_sessions (fst (store_insert at s (sy_world y)))) sid = None
         \<Longrightarrow> map_of (sw_sessions v) sid = None"
      using store_insert_ends [OF ok, of at s] by metis
    with Insert assms ends [OF v(1)] show ?thesis
      by (auto simp: set_world_def split: if_splits)
  next
    case (Enter at sid' ctx)
    obtain w res where en: "store_enter at sid' ctx (sy_world y) = (w, res)"
      by (cases "store_enter at sid' ctx (sy_world y)")
    show ?thesis
    proof (cases res)
      case None
      with en Enter assms(3) store_enter_None [OF ok, of at sid' ctx w] ends show ?thesis
        by (simp add: set_world_def)
    next
      case (Some s)
      have "ends_leavers (sy_world y) (sweep_if_due at (sy_world y))"
        using ok by (intro sweep_ends) (simp add: world_ok_def)
      with ends en Some Enter assms(3) store_enter_Some(1) [of at sid' ctx "sy_world y" w s] show ?thesis
        by (simp add: set_world_def write_session_def)
    qed
  qed (use assms ends [OF store_find_ends [OF ok]] ends [OF store_end_ends] in
      \<open>auto simp: set_world_def write_session_def mint_def use_drop_def split: if_splits\<close>)
  with session_tokens.run_settled [OF session_step_ok [OF y]] show ?thesis by blast
qed

lemma leaving_session_is_ended_witness:
  "0 \<in> set (sw_fired (sy_world (run session_step
     (session_step (sample_run sample_events) (End ''a'')) [Find 2 ''b''])))"
proof -
  have pre: "map_of (sw_sessions (sy_world (sample_run sample_events))) ''a'' = Some 0"
    "map_of (sw_sessions (sy_world (session_step (sample_run sample_events) (End ''a'')))) ''a'' = None"
    and "s_cancellation (sw_heap (sy_world (sample_run sample_events)) 0) = 0"
    by code_simp+
  with leaving_session_is_ended [OF _ pre, of 0 4 sample_limits "\<lambda>_. connection_session 0 0"
      sample_events "[Find 2 ''b'']"]
  show ?thesis by (simp add: sample_run_def del: run.simps)
qed

lemma shrinks_expired: "shrinks w v \<Longrightarrow> expired_in v now r \<longleftrightarrow> expired_in w now r"
  by (simp add: shrinks_def expired_in_def)

lemma insert_with_room_keeps:
  assumes "distinct_keys (sw_sessions w)" and "map_of (sw_sessions w) k = Some r'"
    and "\<not> expired_in w now r'" and "sid \<noteq> k"
  shows "map_of (sw_sessions (fst (insert_with_room now sid r w))) k = Some r'"
  using assms by (simp add: insert_with_room_def Let_def map_of_update drop_expired_lookup)

text \<open>
  An insert never ends another caller's live session to make room: whatever the limits
  and however full the store, an unexpired session of another caller stays under its id.
\<close>

theorem insert_spares_other_callers:
  assumes ok: "world_ok w" and live: "map_of (sw_sessions w) k = Some r'"
    and other: "\<not> shares_caller_with (sw_heap w r') (sw_heap w r)"
    and fresh: "\<not> expired_in w now r'" and "s_id (sw_heap w r) \<noteq> Some k"
  shows "map_of (sw_sessions (fst (store_insert now r w))) k = Some r'"
proof (cases "s_id (sw_heap w r)")
  case None
  then show ?thesis
    using ok live sweep_lookup [OF _ fresh, of k]
    by (simp add: store_insert_def Let_def sweep_heap world_ok_def)
next
  case (Some sid)
  let ?v = "sweep_if_due now w"
  have d: "distinct_keys (sw_sessions w)" using ok by (simp add: world_ok_def)
  have s: "shrinks w ?v" by (rule sweep_shrinks [OF d])
  then have dv: "distinct_keys (sw_sessions ?v)" by (simp add: shrinks_def)
  have keep: "map_of (sw_sessions ?v) k = Some r'"
    using sweep_lookup [OF d fresh] live by simp
  have sid: "s_id (sw_heap ?v r) = Some sid" using Some by (simp add: sweep_heap)
  from ok refl sid show ?thesis
  proof (cases rule: store_insert_cases)
    case full
    with keep show ?thesis by simp
  next
    case (evict key re)
    let ?u = "remove_ending key ?v"
    have su: "shrinks ?v ?u" by (rule remove_ending_shrinks [OF dv])
    have "k \<noteq> key" using evict(2,3) keep other by (auto simp: sweep_heap)
    then have "map_of (sw_sessions ?u) k = Some r'" using keep by (simp add: remove_ending_lookup)
    moreover have "\<not> expired_in ?u now r'"
      using fresh shrinks_expired [OF s] shrinks_expired [OF su] by simp
    ultimately show ?thesis
      using evict(1) su assms(5) Some by (simp add: insert_with_room_keeps shrinks_def)
  next
    case room
    have "\<not> expired_in ?v now r'" using fresh shrinks_expired [OF s] by simp
    with keep room(1) dv assms(5) Some show ?thesis by (simp add: insert_with_room_keeps)
  qed
qed

definition sample_full :: session_system where
  "sample_full = sample_run [Mint 0 ''a'' sample_caller, Insert 0 0, Mint 1 ''b'' sample_caller,
     Insert 1 1, Mint 1 ''c'' \<lparr>user_id = Some ''u2'', tenant_id = None\<rparr>, Insert 1 2,
     Mint 2 ''d'' sample_caller]"

lemma sample_full_ok: "world_ok (sy_world sample_full)"
  using session_run_ok unfolding sample_full_def sample_run_def system_ok_def by blast

lemma insert_spares_other_callers_witness:
  "map_of (sw_sessions (fst (store_insert 3 3 (sy_world sample_full)))) ''c'' = Some 2"
proof -
  have "map_of (sw_sessions (sy_world sample_full)) ''c'' = Some 2"
    "\<not> shares_caller_with (sw_heap (sy_world sample_full) 2) (sw_heap (sy_world sample_full) 3)"
    "\<not> expired_in (sy_world sample_full) 3 2" "s_id (sw_heap (sy_world sample_full) 3) \<noteq> Some ''c''"
    by code_simp+
  with sample_full_ok show ?thesis by (rule insert_spares_other_callers)
qed

text \<open>
  A caller at its limit gives up its least recently used idle session, and only that one:
  when the sweep leaves it holding its limit with some of them idle, the insert succeeds, ends
  exactly one session, idle, the caller's, and seen no later than any other idle one of the
  caller, and the table is otherwise the same but for the new entry.
\<close>

theorem insert_evicts_least_recent:
  assumes ok: "world_ok w" and v: "v = sweep_if_due now w" and sid: "s_id (sw_heap v r) = Some sid"
    and full: "length (caller_entries (sw_heap v) (sw_heap v r) (sw_sessions v)) = l_per_caller (sw_limits v)"
    and idle: "map_of (sw_sessions v) k = Some rk" "shares_caller_with (sw_heap v rk) (sw_heap v r)"
      "is_idle (sw_heap v rk)"
  shows "\<exists>key re. map_of (sw_sessions v) key = Some re \<and> is_idle (sw_heap v re)
    \<and> shares_caller_with (sw_heap v re) (sw_heap v r)
    \<and> s_last_seen (sw_heap v re) \<le> s_last_seen (sw_heap v rk)
    \<and> store_insert now r w =
        (v\<lparr>sw_sessions := AList.update sid r (AList.delete key (sw_sessions v)),
           sw_fired := s_cancellation (sw_heap v re) # sw_fired v\<rparr>, Inr ())"
  using ok v sid
proof (cases rule: store_insert_cases)
  case full
  with idle show ?thesis by blast
next
  case room
  with full show ?thesis by simp
next
  case (evict key re)
  have okv: "world_ok v" using ok v by (simp add: sweep_ok)
  have u: "remove_ending key v = v\<lparr>sw_sessions := AList.delete key (sw_sessions v),
      sw_fired := s_cancellation (sw_heap v re) # sw_fired v\<rparr>"
    using evict(2) by (simp add: remove_ending_def end_ref_def)
  have "Suc (length (AList.delete key (sw_sessions v))) = length (sw_sessions v)"
    using okv evict(2) by (intro length_delete_present) (simp_all add: world_ok_def)
  then have "store_len (remove_ending key v) < l_total (sw_limits (remove_ending key v))"
    using okv by (simp add: u store_len_def world_ok_def)
  then have "store_insert now r w =
      (v\<lparr>sw_sessions := AList.update sid r (AList.delete key (sw_sessions v)),
         sw_fired := s_cancellation (sw_heap v re) # sw_fired v\<rparr>, Inr ())"
    unfolding evict(1) insert_with_room_def by (simp add: u)
  with evict(2-5) idle show ?thesis by blast
qed

lemma insert_evicts_least_recent_witness:
  "\<exists>key re. store_insert 1 3 (sy_world sample_full) =
     (sy_world sample_full \<lparr>sw_sessions := AList.update ''d'' 3 (AList.delete key (sw_sessions (sy_world sample_full))),
        sw_fired := s_cancellation (sw_heap (sy_world sample_full) re) # sw_fired (sy_world sample_full)\<rparr>, Inr ())"
proof -
  have due: "sw_last_sweep (sy_world sample_full) = 0 \<and> sw_ttl (sy_world sample_full) = 4" by code_simp
  have v: "sy_world sample_full = sweep_if_due 1 (sy_world sample_full)"
    unfolding sweep_if_due_def using due by simp
  have "s_id (sw_heap (sy_world sample_full) 3) = Some ''d''"
    "length (caller_entries (sw_heap (sy_world sample_full)) (sw_heap (sy_world sample_full) 3)
       (sw_sessions (sy_world sample_full))) = l_per_caller (sw_limits (sy_world sample_full))"
    "map_of (sw_sessions (sy_world sample_full)) ''a'' = Some 0"
    "shares_caller_with (sw_heap (sy_world sample_full) 0) (sw_heap (sy_world sample_full) 3)"
    "is_idle (sw_heap (sy_world sample_full) 0)"
    by code_simp+
  from insert_evicts_least_recent [OF sample_full_ok v this] show ?thesis by blast
qed

text \<open>
  A refused insert costs no one a live session. The caller is refused only when it holds
  its limit with every one busy, the server only when it holds its total of unexpired sessions,
  and either way every unexpired session is still live afterwards.
\<close>

theorem refused_insert_ends_nothing_live:
  assumes ok: "world_ok w" and refused: "store_insert now r w = (w', Inl refusal)"
  shows "(case refusal of
      CallerFull \<Rightarrow> l_per_caller (sw_limits w) \<le> length (caller_entries (sw_heap w) (sw_heap w r) (sw_sessions w'))
        \<and> (\<forall>(k, r') \<in> set (caller_entries (sw_heap w) (sw_heap w r) (sw_sessions w')). \<not> is_idle (sw_heap w r'))
    | ServerFull \<Rightarrow> store_len w' = l_total (sw_limits w)
        \<and> (\<forall>(k, r') \<in> set (sw_sessions w'). \<not> expired_in w now r'))
    \<and> (\<forall>k r'. map_of (sw_sessions w) k = Some r' \<and> \<not> expired_in w now r'
         \<longrightarrow> map_of (sw_sessions w') k = Some r')"
proof -
  let ?v = "sweep_if_due now w"
  have d: "distinct_keys (sw_sessions w)" using ok by (simp add: world_ok_def)
  have s: "shrinks w ?v" by (rule sweep_shrinks [OF d])
  then have dv: "distinct_keys (sw_sessions ?v)" and lim: "sw_limits ?v = sw_limits w"
    by (simp_all add: shrinks_def)
  have okv: "world_ok ?v" using ok by (rule sweep_ok)
  have keep: "map_of (sw_sessions ?v) k = Some r'"
    if "map_of (sw_sessions w) k = Some r'" "\<not> expired_in w now r'" for k r'
    using sweep_lookup [OF d that(2)] that(1) by simp
  have "s_id (sw_heap ?v r) \<noteq> None"
    using refused by (auto simp: store_insert_def Let_def split: option.splits)
  then obtain sid where sid: "s_id (sw_heap ?v r) = Some sid" by blast
  from ok refl sid show ?thesis
  proof (cases rule: store_insert_cases)
    case full
    have w': "w' = ?v" "refusal = CallerFull" using refused full(1) by simp_all
    have "l_per_caller (sw_limits w) \<le> length (caller_entries (sw_heap w) (sw_heap w r) (sw_sessions ?v))"
      using full(3) lim by (simp add: sweep_heap)
    moreover have "\<not> is_idle (sw_heap w r')"
      if "(k, r') \<in> set (caller_entries (sw_heap w) (sw_heap w r) (sw_sessions ?v))" for k r'
      using full(2) [of k r'] that dv map_of_SomeI [OF dv, of k r']
      by (simp add: caller_entries_def sweep_heap)
    ultimately show ?thesis using w' keep by auto
  next
    case (evict key re)
    from insert_evicts_least_recent [OF ok refl sid _ evict(2-4)] evict(6) caller_entries_bound [OF okv]
    have "\<exists>x. store_insert now r w = (x, Inr ())" by (meson le_antisym)
    with refused show ?thesis by simp
  next
    case room
    have w': "w' = drop_expired now ?v" "refusal = ServerFull" and
      at: "l_total (sw_limits w) \<le> store_len w'"
      using refused room(1) lim unfolding insert_with_room_def
      by (auto simp: Let_def drop_expired_def split: if_splits)
    have "world_ok w'" using okv shrinks_ok drop_expired_shrinks [OF dv] w' by blast
    then have "store_len w' \<le> l_total (sw_limits w')" by (simp add: world_ok_def)
    then have total: "store_len w' = l_total (sw_limits w)"
      using at w' lim by (simp add: drop_expired_def)
    have exp: "expired_in ?v now r' \<longleftrightarrow> expired_in w now r'" for r'
      by (rule shrinks_expired [OF s])
    then have "\<forall>(k, r') \<in> set (sw_sessions w'). \<not> expired_in w now r'"
      using w' by (auto simp: drop_expired_def retain_def)
    moreover have "map_of (sw_sessions w') k = Some r'"
      if "map_of (sw_sessions w) k = Some r'" "\<not> expired_in w now r'" for k r'
      using keep [OF that] that(2) exp w' dv by (simp add: drop_expired_lookup)
    ultimately show ?thesis using w' total by simp
  qed
qed

lemma refused_insert_ends_nothing_live_witness:
  "(case store_insert 1 3 (sy_world (run session_step sample_full [Enter 1 ''a'' sample_caller, Enter 1 ''b'' sample_caller]))
    of (w', res) \<Rightarrow> res = Inl CallerFull \<and> map_of (sw_sessions w') ''b'' = Some 1)"
proof -
  let ?w = "sy_world (run session_step sample_full [Enter 1 ''a'' sample_caller, Enter 1 ''b'' sample_caller])"
  have ok: "world_ok ?w"
    using session_invariant.run_inv [of sample_full] session_run_ok
    unfolding sample_full_def sample_run_def system_ok_def by blast
  have facts: "snd (store_insert 1 3 ?w) = Inl CallerFull" "map_of (sw_sessions ?w) ''b'' = Some 1"
    "\<not> expired_in ?w 1 1"
    by code_simp+
  obtain w' where ins: "store_insert 1 3 ?w = (w', Inl CallerFull)"
    using facts(1) by (metis prod.collapse)
  from refused_insert_ends_nothing_live [OF ok ins] facts(2,3) have "map_of (sw_sessions w') ''b'' = Some 1"
    by blast
  with ins show ?thesis by simp
qed

text \<open>
  A request is served in a session exactly when the id names a live session that has not
  expired and belongs to the caller; entering it counts it busy in the same step, so from then
  on no clock reading finds it expired.
\<close>

theorem enter_exactly_own_live_session:
  assumes ok: "world_ok w"
  shows "(snd (store_enter now sid ctx w) = Some r \<longleftrightarrow>
       map_of (sw_sessions w) sid = Some r \<and> \<not> expired_in w now r \<and> is_owned_by (sw_heap w r) ctx)
    \<and> (snd (store_enter now sid ctx w) = Some r \<longrightarrow>
       map_of (sw_sessions (fst (store_enter now sid ctx w))) sid = Some r
       \<and> \<not> expired_in (fst (store_enter now sid ctx w)) later r)"
proof -
  let ?v = "sweep_if_due now w"
  have d: "distinct_keys (sw_sessions w)" using ok by (simp add: world_ok_def)
  have s: "shrinks w ?v" by (rule sweep_shrinks [OF d])
  have exp: "expired_in ?v now r \<longleftrightarrow> expired_in w now r" by (rule shrinks_expired [OF s])
  obtain w' res where en: "store_enter now sid ctx w = (w', res)" by (cases "store_enter now sid ctx w")
  have a: "map_of (sw_sessions w) sid = Some r \<and> \<not> expired_in w now r \<and> is_owned_by (sw_heap w r) ctx"
    and b: "map_of (sw_sessions w') sid = Some r \<and> \<not> expired_in w' later r" if "res = Some r"
    using store_enter_Some [of now sid ctx w w' r] en that exp sweep_lookup [OF d, of now r sid]
    by (auto simp: write_session_def expired_in_def is_expired_def is_idle_def session_enter_def)
  have c: "res = Some r"
    if "map_of (sw_sessions w) sid = Some r" "\<not> expired_in w now r" "is_owned_by (sw_heap w r) ctx"
    using that en exp sweep_lookup [OF d that(2), of sid]
    by (simp add: store_enter_def Let_def sweep_heap)
  from a b c en show ?thesis by auto
qed

lemma enter_exactly_own_live_session_witness:
  "snd (store_enter 3 ''a'' sample_caller (sy_world sample_full)) = Some 0
   \<and> snd (store_enter 3 ''c'' sample_caller (sy_world sample_full)) \<noteq> Some 2"
proof -
  have "map_of (sw_sessions (sy_world sample_full)) ''a'' = Some 0"
    "\<not> expired_in (sy_world sample_full) 3 0" "is_owned_by (sw_heap (sy_world sample_full) 0) sample_caller"
    "\<not> is_owned_by (sw_heap (sy_world sample_full) 2) sample_caller"
    by code_simp+
  then show ?thesis
    using enter_exactly_own_live_session [OF sample_full_ok, of 3 _ sample_caller] by blast
qed

end
