(* ===== verification/Task_Data.thy ===== *)
theory Task_Data
  imports Json
begin

text \<open>
  The data of the tasks extension (\<^verbatim>\<open>src/mcp/tasks.rs\<close>): a task, the payload its status
  discriminates, the flat wire form of the two with its serializer and deserializer, the
  owner a task is bound to and the ways an operation on it fails.
\<close>

type_synonym task_id = string

datatype task_status = Working | InputRequired | Completed | Failed | Cancelled

fun is_terminal :: "task_status \<Rightarrow> bool" where
  "is_terminal Working = False"
| "is_terminal InputRequired = False"
| "is_terminal Completed = True"
| "is_terminal Failed = True"
| "is_terminal Cancelled = True"

record task =
  t_id :: task_id
  t_status :: task_status
  t_message :: "string option"
  t_created_at :: string
  t_updated_at :: string
  t_ttl_ms :: "nat option"
  t_poll_ms :: "nat option"

text \<open>\<open>stamp\<close> is what \<^verbatim>\<open>current_timestamp()\<close> answered.\<close>

definition task_new :: "string \<Rightarrow> task_id \<Rightarrow> nat option \<Rightarrow> nat option \<Rightarrow> task" where
  "task_new stamp tid ttl_ms poll_ms =
     \<lparr>t_id = tid, t_status = Working, t_message = None, t_created_at = stamp,
      t_updated_at = stamp, t_ttl_ms = ttl_ms, t_poll_ms = poll_ms\<rparr>"

datatype task_payload =
    PWorking
  | PInputRequired json_map
  | PCompleted json_map
  | PFailed json_map
  | PCancelled

fun payload_status :: "task_payload \<Rightarrow> task_status" where
  "payload_status PWorking = Working"
| "payload_status (PInputRequired _) = InputRequired"
| "payload_status (PCompleted _) = Completed"
| "payload_status (PFailed _) = Failed"
| "payload_status PCancelled = Cancelled"

record detailed_task =
  d_task :: task
  d_payload :: task_payload

definition detailed_new :: "task \<Rightarrow> task_payload \<Rightarrow> detailed_task" where
  "detailed_new t payload =
     \<lparr>d_task = t\<lparr>t_status := payload_status payload\<rparr>, d_payload = payload\<rparr>"

definition d_status :: "detailed_task \<Rightarrow> task_status" where
  "d_status d = t_status (d_task d)"

text \<open>What \<^verbatim>\<open>DetailedTask::new\<close> guarantees: the status agrees with the payload.\<close>

definition consistent :: "detailed_task \<Rightarrow> bool" where
  "consistent d \<longleftrightarrow> d_status d = payload_status (d_payload d)"

lemma detailed_new_simps [simp]:
  "d_status (detailed_new t p) = payload_status p"
  "d_payload (detailed_new t p) = p"
  "t_id (d_task (detailed_new t p)) = t_id t"
  "consistent (detailed_new t p)"
  by (simp_all add: detailed_new_def d_status_def consistent_def)

subsection \<open>The wire form\<close>

record detailed_wire =
  dw_task :: task
  dw_input_requests :: "json_map option"
  dw_result :: "json_map option"
  dw_error :: "json_map option"

definition to_wire :: "detailed_task \<Rightarrow> detailed_wire" where
  "to_wire d =
     (case (case d_payload d of
              PWorking \<Rightarrow> (None, None, None)
            | PCancelled \<Rightarrow> (None, None, None)
            | PInputRequired requests \<Rightarrow> (Some requests, None, None)
            | PCompleted res \<Rightarrow> (None, Some res, None)
            | PFailed err \<Rightarrow> (None, None, Some err)) of
        (requests, res, err) \<Rightarrow>
          \<lparr>dw_task = d_task d, dw_input_requests = requests, dw_result = res, dw_error = err\<rparr>)"

text \<open>Why a value is no task: what the derived deserializer rejects, or the code's own message.\<close>

datatype de_error = InvalidField string | Custom string

definition from_wire :: "detailed_wire \<Rightarrow> (de_error, detailed_task) result" where
  "from_wire w =
     result_bind
       (case t_status (dw_task w) of
          Working \<Rightarrow> Inr PWorking
        | Cancelled \<Rightarrow> Inr PCancelled
        | InputRequired \<Rightarrow>
            result_bind (ok_or (dw_input_requests w) (Custom ''input_required task is missing `inputRequests`''))
              (\<lambda>requests. Inr (PInputRequired requests))
        | Completed \<Rightarrow>
            result_bind (ok_or (dw_result w) (Custom ''completed task is missing `result`''))
              (\<lambda>res. Inr (PCompleted res))
        | Failed \<Rightarrow>
            result_bind (ok_or (dw_error w) (Custom ''failed task is missing `error`''))
              (\<lambda>err. Inr (PFailed err)))
       (\<lambda>payload. Inr \<lparr>d_task = dw_task w, d_payload = payload\<rparr>)"

text \<open>The derived serializers: \<^verbatim>\<open>snake_case\<close> statuses, \<^verbatim>\<open>camelCase\<close> fields, the optional ones
  left out when \<open>None\<close>, except \<open>ttlMs\<close>, which is then \<^verbatim>\<open>null\<close>.\<close>

fun status_name :: "task_status \<Rightarrow> string" where
  "status_name Working = ''working''"
| "status_name InputRequired = ''input_required''"
| "status_name Completed = ''completed''"
| "status_name Failed = ''failed''"
| "status_name Cancelled = ''cancelled''"

definition status_from_name :: "string \<Rightarrow> task_status option" where
  "status_from_name name =
     List.find (\<lambda>s. status_name s = name) [Working, InputRequired, Completed, Failed, Cancelled]"

definition opt_field :: "string \<Rightarrow> ('a \<Rightarrow> json) \<Rightarrow> 'a option \<Rightarrow> json_map" where
  "opt_field key f x = (case x of None \<Rightarrow> [] | Some y \<Rightarrow> [(key, f y)])"

definition u64_json :: "nat \<Rightarrow> json" where
  "u64_json n = JNumber (PosInt n)"

definition task_fields :: "task \<Rightarrow> json_map" where
  "task_fields t =
     [(''taskId'', JString (t_id t)), (''status'', JString (status_name (t_status t)))]
     @ opt_field ''statusMessage'' JString (t_message t)
     @ [(''createdAt'', JString (t_created_at t)), (''lastUpdatedAt'', JString (t_updated_at t)),
        (''ttlMs'', case t_ttl_ms t of None \<Rightarrow> JNull | Some ms \<Rightarrow> u64_json ms)]
     @ opt_field ''pollIntervalMs'' u64_json (t_poll_ms t)"

definition wire_to_json :: "detailed_wire \<Rightarrow> json" where
  "wire_to_json w = JObject
     (task_fields (dw_task w)
      @ opt_field ''inputRequests'' JObject (dw_input_requests w)
      @ opt_field ''result'' JObject (dw_result w)
      @ opt_field ''error'' JObject (dw_error w))"

definition detailed_to_json :: "detailed_task \<Rightarrow> json" where
  "detailed_to_json d = wire_to_json (to_wire d)"

text \<open>A required field is read by its reader; an optional one may be absent or \<^verbatim>\<open>null\<close>.\<close>

definition req_field :: "string \<Rightarrow> (json \<Rightarrow> 'a option) \<Rightarrow> json_map \<Rightarrow> (de_error, 'a) result" where
  "req_field key f m = ok_or (Option.bind (map_of m key) f) (InvalidField key)"

definition opt_field_of :: "string \<Rightarrow> (json \<Rightarrow> 'a option) \<Rightarrow> json_map \<Rightarrow> (de_error, 'a option) result" where
  "opt_field_of key f m =
     (case map_of m key of
        None \<Rightarrow> Inr None
      | Some JNull \<Rightarrow> Inr None
      | Some v \<Rightarrow> result_bind (ok_or (f v) (InvalidField key)) (\<lambda>x. Inr (Some x)))"

definition as_u64 :: "json \<Rightarrow> nat option" where
  "as_u64 v = (case v of JNumber (PosInt n) \<Rightarrow> Some n | _ \<Rightarrow> None)"

definition task_of_fields :: "json_map \<Rightarrow> (de_error, task) result" where
  "task_of_fields m =
     result_bind (req_field ''taskId'' as_str m) (\<lambda>tid.
     result_bind (req_field ''status'' (\<lambda>v. Option.bind (as_str v) status_from_name) m) (\<lambda>status.
     result_bind (opt_field_of ''statusMessage'' as_str m) (\<lambda>message.
     result_bind (req_field ''createdAt'' as_str m) (\<lambda>created.
     result_bind (req_field ''lastUpdatedAt'' as_str m) (\<lambda>updated.
     result_bind (opt_field_of ''ttlMs'' as_u64 m) (\<lambda>ttl.
     result_bind (opt_field_of ''pollIntervalMs'' as_u64 m) (\<lambda>poll.
       Inr \<lparr>t_id = tid, t_status = status, t_message = message, t_created_at = created,
            t_updated_at = updated, t_ttl_ms = ttl, t_poll_ms = poll\<rparr>)))))))"

definition wire_of_json :: "json \<Rightarrow> (de_error, detailed_wire) result" where
  "wire_of_json v =
     result_bind (ok_or (as_object v) (InvalidField ''struct'')) (\<lambda>m.
     result_bind (task_of_fields m) (\<lambda>t.
     result_bind (opt_field_of ''inputRequests'' as_object m) (\<lambda>requests.
     result_bind (opt_field_of ''result'' as_object m) (\<lambda>res.
     result_bind (opt_field_of ''error'' as_object m) (\<lambda>err.
       Inr \<lparr>dw_task = t, dw_input_requests = requests, dw_result = res, dw_error = err\<rparr>)))))"

definition detailed_of_json :: "json \<Rightarrow> (de_error, detailed_task) result" where
  "detailed_of_json v = result_bind (wire_of_json v) from_wire"

text \<open>The result a created task answers with, \<^verbatim>\<open>resultType\<close> beside the task's fields, and the
  ones \<^verbatim>\<open>tasks/get\<close> and the acknowledgements carry.\<close>

definition create_task_result :: "task \<Rightarrow> json" where
  "create_task_result t = JObject ((''resultType'', JString ''task'') # task_fields t)"

definition get_task_result :: "detailed_task \<Rightarrow> json" where
  "get_task_result d =
     (case detailed_to_json d of
        JObject m \<Rightarrow> JObject ((''resultType'', JString ''complete'') # m) | v \<Rightarrow> v)"

definition task_ack :: json where
  "task_ack = JObject [(''resultType'', JString ''complete'')]"

subsection \<open>Owners and errors\<close>

record task_owner =
  o_user :: "string option"
  o_tenant :: "string option"

datatype task_error =
    NotFound task_id
  | InvalidState task_id task_status
  | InvalidInput task_id string
  | Detached task_id
  | StoreFailure string

subsection \<open>Lemmas\<close>

lemma status_from_name_name [simp]: "status_from_name (status_name s) = Some s"
  by (cases s) (simp_all add: status_from_name_def)

lemma from_to_wire: "consistent d \<Longrightarrow> from_wire (to_wire d) = Inr d"
  by (cases "d_payload d") (simp_all add: from_wire_def to_wire_def consistent_def d_status_def)

lemma from_wire_consistent: "from_wire w = Inr d \<Longrightarrow> consistent d"
  by (auto simp: from_wire_def consistent_def d_status_def result_bind_Inr_iff ok_or_def
      split: task_status.splits option.splits)

lemma opt_field_lookup:
  "map_of (opt_field key f x @ m) k =
     (if k = key \<and> x \<noteq> None then map_option f x else map_of m k)"
  by (cases x) (simp_all add: opt_field_def)

lemma wire_json_roundtrip: "wire_of_json (wire_to_json w) = Inr w"
proof -
  have map_of_last: "map_of (opt_field key f x) k =
      (if k = key \<and> x \<noteq> None then map_option f x else None)" for key f x k
    using opt_field_lookup [of key f x "[]" k] by simp
  let ?m = "task_fields (dw_task w)
      @ opt_field ''inputRequests'' JObject (dw_input_requests w)
      @ opt_field ''result'' JObject (dw_result w)
      @ opt_field ''error'' JObject (dw_error w)"
  note lookup = task_fields_def opt_field_lookup map_of_last
  have fields:
    "req_field ''taskId'' as_str ?m = Inr (t_id (dw_task w))"
    "req_field ''status'' (\<lambda>v. Option.bind (as_str v) status_from_name) ?m = Inr (t_status (dw_task w))"
    "req_field ''createdAt'' as_str ?m = Inr (t_created_at (dw_task w))"
    "req_field ''lastUpdatedAt'' as_str ?m = Inr (t_updated_at (dw_task w))"
    by (simp_all add: req_field_def as_str_def lookup del: map_of_append)
  have raw: "map_of ?m ''statusMessage'' = map_option JString (t_message (dw_task w))"
    "map_of ?m ''ttlMs'' = Some (case t_ttl_ms (dw_task w) of None \<Rightarrow> JNull | Some ms \<Rightarrow> u64_json ms)"
    "map_of ?m ''pollIntervalMs'' = map_option u64_json (t_poll_ms (dw_task w))"
    "map_of ?m ''inputRequests'' = map_option JObject (dw_input_requests w)"
    "map_of ?m ''result'' = map_option JObject (dw_result w)"
    "map_of ?m ''error'' = map_option JObject (dw_error w)"
    by (simp_all add: lookup del: map_of_append)
  have options:
    "opt_field_of ''statusMessage'' as_str ?m = Inr (t_message (dw_task w))"
    "opt_field_of ''ttlMs'' as_u64 ?m = Inr (t_ttl_ms (dw_task w))"
    "opt_field_of ''pollIntervalMs'' as_u64 ?m = Inr (t_poll_ms (dw_task w))"
    "opt_field_of ''inputRequests'' as_object ?m = Inr (dw_input_requests w)"
    "opt_field_of ''result'' as_object ?m = Inr (dw_result w)"
    "opt_field_of ''error'' as_object ?m = Inr (dw_error w)"
    unfolding opt_field_of_def raw
    by (simp_all add: as_str_def as_u64_def u64_json_def as_object_def split: option.split)
  have "as_object (wire_to_json w) = Some ?m" by (simp add: wire_to_json_def as_object_def)
  then show ?thesis
    by (simp add: wire_of_json_def task_of_fields_def fields options)
qed

text \<open>
  A task survives the wire: what one instance or a client writes reads back as the same
  task, and whatever reads back at all has a status that agrees with its payload, so a status
  can never arrive without the payload it announces.
\<close>

theorem task_wire_roundtrip:
  "(consistent d \<longrightarrow> detailed_of_json (detailed_to_json d) = Inr d)
   \<and> (detailed_of_json v = Inr d' \<longrightarrow> consistent d')"
  by (auto simp: detailed_of_json_def detailed_to_json_def wire_json_roundtrip from_to_wire
      result_bind_Inr_iff dest: from_wire_consistent)

lemma task_wire_roundtrip_witness:
  "detailed_of_json (detailed_to_json (detailed_new (task_new ''t0'' ''id'' (Some 5) None) (PCompleted [(''ok'', JBool True)])))
     = Inr (detailed_new (task_new ''t0'' ''id'' (Some 5) None) (PCompleted [(''ok'', JBool True)]))"
  using task_wire_roundtrip by simp

end
