(* ===== verification/Task_Store.thy ===== *)
theory Task_Store
  imports Task_Data
begin

text \<open>
  The persistence seam of tasks (\<^verbatim>\<open>trait TaskStore\<close> in \<^verbatim>\<open>src/mcp/tasks.rs\<close>) as a record of
  operations on a state, the laws its documentation demands as a locale, and the shipped
  \<^verbatim>\<open>InMemoryTaskStore\<close>, which is shown to obey them.

  The clock is an integer of nanoseconds since the epoch. Writing and reading RFC 3339
  timestamps is the \<^verbatim>\<open>chrono\<close> package's work: the two functions are arguments.
\<close>

record rfc3339 =
  ts_format :: "int \<Rightarrow> string"
  ts_parse :: "string \<Rightarrow> int option"

text \<open>\<^verbatim>\<open>TimeDelta::num_milliseconds\<close>: whole milliseconds, towards zero.\<close>

definition num_milliseconds :: "int \<Rightarrow> int" where
  "num_milliseconds ns = (if 0 \<le> ns then ns div 1000000 else - ((- ns) div 1000000))"

lemma num_milliseconds_mono: "a \<le> b \<Longrightarrow> num_milliseconds a \<le> num_milliseconds b"
proof -
  assume ab: "a \<le> b"
  have neg: "0 \<le> (- a) div 1000000" if "a < 0" using that by (simp add: pos_imp_zdiv_nonneg_iff)
  have pos: "0 \<le> b div 1000000" if "0 \<le> b" using that by (simp add: pos_imp_zdiv_nonneg_iff)
  have "a div 1000000 \<le> b div 1000000" "(- b) div 1000000 \<le> (- a) div 1000000"
    using ab by (auto intro: zdiv_mono1)
  with ab neg pos show ?thesis by (auto simp: num_milliseconds_def)
qed

definition i64_max :: int where
  "i64_max = 9223372036854775807"

text \<open>\<^verbatim>\<open>i64::try_from(ttl_ms).unwrap_or(i64::MAX)\<close>.\<close>

definition ttl_as_i64 :: "nat \<Rightarrow> int" where
  "ttl_as_i64 ttl_ms = (if int ttl_ms \<le> i64_max then int ttl_ms else i64_max)"

definition is_expired :: "rfc3339 \<Rightarrow> int \<Rightarrow> task \<Rightarrow> bool" where
  "is_expired ts now t =
     (case t_ttl_ms t of
        None \<Rightarrow> False
      | Some ttl_ms \<Rightarrow>
          (case ts_parse ts (t_created_at t) of
             None \<Rightarrow> False
           | Some created \<Rightarrow> ttl_as_i64 ttl_ms < num_milliseconds (now - created)))"

type_synonym task_update = "detailed_task \<Rightarrow> (task_error, detailed_task) result"

record 's task_store =
  st_create :: "int \<Rightarrow> task_owner \<Rightarrow> detailed_task \<Rightarrow> 's \<Rightarrow> 's \<times> (task_error, unit) result"
  st_get :: "int \<Rightarrow> task_owner \<Rightarrow> task_id \<Rightarrow> 's \<Rightarrow> (task_error, detailed_task option) result"
  st_update :: "int \<Rightarrow> task_owner \<Rightarrow> task_id \<Rightarrow> task_update \<Rightarrow> 's \<Rightarrow> 's \<times> (task_error, detailed_task) result"
  st_sweep :: "int \<Rightarrow> 's \<Rightarrow> 's \<times> (task_error, task_id list) result"

subsection \<open>The in-memory store\<close>

type_synonym memory = "(task_id, task_owner \<times> detailed_task) table"

definition mem_create ::
  "task_owner \<Rightarrow> detailed_task \<Rightarrow> memory \<Rightarrow> memory \<times> (task_error, unit) result" where
  "mem_create owner d s = (AList.update (t_id (d_task d)) (owner, d) s, Inr ())"

definition mem_get ::
  "rfc3339 \<Rightarrow> int \<Rightarrow> task_owner \<Rightarrow> task_id \<Rightarrow> memory \<Rightarrow> (task_error, detailed_task option) result" where
  "mem_get ts now owner tid s =
     Inr (case map_of s tid of
            None \<Rightarrow> None
          | Some (task_owner, d) \<Rightarrow>
              if task_owner = owner \<and> \<not> is_expired ts now (d_task d) then Some d else None)"

definition mem_update ::
  "rfc3339 \<Rightarrow> int \<Rightarrow> task_owner \<Rightarrow> task_id \<Rightarrow> task_update \<Rightarrow> memory
     \<Rightarrow> memory \<times> (task_error, detailed_task) result" where
  "mem_update ts now owner tid apply_to s =
     (case map_of s tid of
        None \<Rightarrow> (s, Inl (NotFound tid))
      | Some (task_owner, stored) \<Rightarrow>
          if task_owner = owner \<and> \<not> is_expired ts now (d_task stored)
          then (case apply_to stored of
                  Inl e \<Rightarrow> (s, Inl e)
                | Inr updated \<Rightarrow> (AList.update tid (task_owner, updated) s, Inr updated))
          else (s, Inl (NotFound tid)))"

definition mem_sweep :: "rfc3339 \<Rightarrow> int \<Rightarrow> memory \<Rightarrow> memory \<times> (task_error, task_id list) result" where
  "mem_sweep ts now s =
     (retain (\<lambda>_ (_, d). \<not> is_expired ts now (d_task d)) s,
      Inr (map fst (filter (\<lambda>(_, _, d). is_expired ts now (d_task d)) s)))"

definition in_memory :: "rfc3339 \<Rightarrow> memory task_store" where
  "in_memory ts =
     \<lparr>st_create = \<lambda>_. mem_create, st_get = mem_get ts, st_update = mem_update ts,
      st_sweep = mem_sweep ts\<rparr>"

subsection \<open>The laws of a store\<close>

text \<open>
  What \<^verbatim>\<open>TaskStore\<close> promises its manager, over the entries a state holds: an operation works
  on the entry of the owner it names or leaves every entry alone, an update stores what the
  change returned and nothing else, and a sweep only drops entries. A store may fail.
\<close>

locale task_store_laws =
  fixes ops :: "'s task_store"
    and entry :: "'s \<Rightarrow> task_id \<Rightarrow> (task_owner \<times> detailed_task) option"
    and valid :: "'s \<Rightarrow> bool"
  assumes valid_create: "valid s \<Longrightarrow> st_create ops now o' d s = (s', c) \<Longrightarrow> valid s'"
    and valid_update: "valid s \<Longrightarrow> st_update ops now o' i f s = (s', u) \<Longrightarrow> valid s'"
    and valid_sweep: "valid s \<Longrightarrow> st_sweep ops now s = (s', ids) \<Longrightarrow> valid s'"
    and create_Inr: "valid s \<Longrightarrow> st_create ops now o' d s = (s', Inr x) \<Longrightarrow>
      entry s' = (entry s)(t_id (d_task d) \<mapsto> (o', d))"
    and create_Inl: "valid s \<Longrightarrow> st_create ops now o' d s = (s', Inl e) \<Longrightarrow> entry s' = entry s"
    and get_Some: "valid s \<Longrightarrow> st_get ops now o' i s = Inr (Some d) \<Longrightarrow> entry s i = Some (o', d)"
    and update_Inr: "valid s \<Longrightarrow> st_update ops now o' i f s = (s', Inr d) \<Longrightarrow>
      \<exists>current. entry s i = Some (o', current) \<and> f current = Inr d \<and> entry s' = (entry s)(i \<mapsto> (o', d))"
    and update_Inl: "valid s \<Longrightarrow> st_update ops now o' i f s = (s', Inl e) \<Longrightarrow> entry s' = entry s"
    and sweep_entries: "valid s \<Longrightarrow> st_sweep ops now s = (s', ids) \<Longrightarrow>
      entry s' i = entry s i \<or> entry s' i = None"
begin

text \<open>An update by one owner never touches another owner's task.\<close>

lemma update_other_owner:
  assumes "valid s" and "st_update ops now o' i f s = (s', u)" and "entry s j = Some (p, d)" and "p \<noteq> o'"
  shows "entry s' j = Some (p, d)"
proof (cases u)
  case (Inl e)
  with assms update_Inl show ?thesis by simp
next
  case (Inr d')
  with assms update_Inr [of s now o' i f s' d'] show ?thesis by auto
qed

text \<open>A change that refuses a state leaves tasks in that state as they are.\<close>

lemma update_refused:
  assumes "valid s" and "st_update ops now o' i f s = (s', u)" and "entry s j = Some (p, d)"
    and "\<And>d'. f d \<noteq> Inr d'"
  shows "entry s' j = Some (p, d)"
proof (cases u)
  case (Inl e)
  with assms update_Inl show ?thesis by simp
next
  case (Inr d')
  with assms update_Inr [of s now o' i f s' d'] show ?thesis by auto
qed

end

lemma mem_update_Inr_iff:
  "mem_update ts now owner tid f s = (s', Inr d) \<longleftrightarrow>
     (\<exists>stored. map_of s tid = Some (owner, stored) \<and> \<not> is_expired ts now (d_task stored)
        \<and> f stored = Inr d \<and> s' = AList.update tid (owner, d) s)"
  by (auto simp: mem_update_def split: option.splits if_splits sum.splits)

lemma mem_update_Inl: "mem_update ts now owner tid f s = (s', Inl e) \<Longrightarrow> s' = s"
  by (auto simp: mem_update_def split: option.splits if_splits sum.splits)

interpretation memory_store: task_store_laws "in_memory ts" map_of distinct_keys for ts
proof unfold_locales
  fix s s' :: memory and now o' i f and u :: "(task_error, detailed_task) result"
  assume s: "distinct_keys s" and up: "st_update (in_memory ts) now o' i f s = (s', u)"
  show "distinct_keys s'"
    using s up by (cases u) (auto simp: in_memory_def mem_update_Inr_iff distinct_keys_update
        dest: mem_update_Inl)
next
  fix s s' :: memory and now o' i f d
  assume "st_update (in_memory ts) now o' i f s = (s', Inr d)"
  then show "\<exists>current. map_of s i = Some (o', current) \<and> f current = Inr d
      \<and> map_of s' = (map_of s)(i \<mapsto> (o', d))"
    by (auto simp: in_memory_def mem_update_Inr_iff update_conv')
next
  fix s s' :: memory and now ids i
  assume "distinct_keys s" and "st_sweep (in_memory ts) now s = (s', ids)"
  then show "map_of s' i = map_of s i \<or> map_of s' i = None"
    by (cases "map_of s i") (auto simp: in_memory_def mem_sweep_def map_of_retain split: if_splits)
qed (auto simp: in_memory_def mem_create_def mem_get_def mem_sweep_def update_conv'
    distinct_keys_update distinct_keys_retain dest: mem_update_Inl split: option.splits if_splits)

subsection \<open>Properties of the in-memory store\<close>

lemma map_of_mem_sweep:
  "distinct_keys s \<Longrightarrow> map_of (fst (mem_sweep ts now s)) i =
     (case map_of s i of None \<Rightarrow> None
      | Some (o', d) \<Rightarrow> if is_expired ts now (d_task d) then None else Some (o', d))"
  by (auto simp: mem_sweep_def map_of_retain split: option.splits)

lemma mem_sweep_ids:
  assumes "distinct_keys s"
  shows "\<exists>ids. snd (mem_sweep ts now s) = Inr ids \<and> distinct ids
    \<and> (\<forall>i. i \<in> set ids \<longleftrightarrow> (\<exists>o' d. map_of s i = Some (o', d) \<and> is_expired ts now (d_task d)))"
proof -
  let ?ids = "map fst (filter (\<lambda>(_, _, d). is_expired ts now (d_task d)) s)"
  have "distinct ?ids" using assms by (induction s) auto
  moreover have "i \<in> set ?ids \<longleftrightarrow> (\<exists>o' d. map_of s i = Some (o', d) \<and> is_expired ts now (d_task d))" for i
    using assms by (auto simp: image_iff intro: map_of_SomeI dest!: map_of_SomeD)
  ultimately show ?thesis by (simp add: mem_sweep_def)
qed

text \<open>
  What a sweep removes is exactly what has outlived its TTL: a task stays exactly when it
  is not expired, unchanged, the ids returned are those of the removed tasks, once each, and a
  second sweep at the same instant removes nothing.
\<close>

theorem sweep_removes_exactly_expired:
  assumes "distinct_keys s"
  shows "\<exists>s' ids. mem_sweep ts now s = (s', Inr ids) \<and> distinct ids
    \<and> (\<forall>i. map_of s' i = (case map_of s i of None \<Rightarrow> None
          | Some (o', d) \<Rightarrow> if is_expired ts now (d_task d) then None else Some (o', d)))
    \<and> (\<forall>i. i \<in> set ids \<longleftrightarrow> map_of s i \<noteq> None \<and> map_of s' i = None)
    \<and> mem_sweep ts now s' = (s', Inr [])"
proof -
  obtain s' ids where sw: "mem_sweep ts now s = (s', Inr ids)" and "distinct ids"
    and ids: "\<forall>i. i \<in> set ids \<longleftrightarrow> (\<exists>o' d. map_of s i = Some (o', d) \<and> is_expired ts now (d_task d))"
    using mem_sweep_ids [OF assms, of ts now] by (metis prod.collapse)
  have look: "map_of s' i = (case map_of s i of None \<Rightarrow> None
      | Some (o', d) \<Rightarrow> if is_expired ts now (d_task d) then None else Some (o', d))" for i
    using map_of_mem_sweep [OF assms, of ts now i] sw by simp
  have "i \<in> set ids \<longleftrightarrow> map_of s i \<noteq> None \<and> map_of s' i = None" for i
    using ids look [of i] by (auto split: option.splits if_splits)
  moreover have "mem_sweep ts now s' = (s', Inr [])"
    using sw by (auto simp: mem_sweep_def retain_def filter_empty_conv)
  ultimately show ?thesis using sw \<open>distinct ids\<close> look by blast
qed

text \<open>Timestamps for the witnesses: a millisecond a character.\<close>

definition tally :: rfc3339 where
  "tally = \<lparr>ts_format = \<lambda>ns. replicate (nat (ns div 1000000)) CHR ''x'',
            ts_parse = \<lambda>s. Some (1000000 * int (length s))\<rparr>"

definition sample_owner :: task_owner where
  "sample_owner = \<lparr>o_user = Some ''u1'', o_tenant = None\<rparr>"

definition sample_memory :: memory where
  "sample_memory =
     [(''a'', sample_owner, detailed_new (task_new ''x'' ''a'' (Some 1) None) PWorking),
      (''b'', sample_owner, detailed_new (task_new ''x'' ''b'' None None) PCancelled)]"

lemma sweep_removes_exactly_expired_witness:
  "\<exists>s' ids. mem_sweep tally 4000000 sample_memory = (s', Inr ids) \<and> map_of s' ''a'' = None
     \<and> map_of s' ''b'' \<noteq> None"
proof -
  have d: "distinct_keys sample_memory" by (simp add: sample_memory_def)
  have "is_expired tally 4000000 (d_task (detailed_new (task_new ''x'' ''a'' (Some 1) None) PWorking))"
    "\<not> is_expired tally 4000000 (d_task (detailed_new (task_new ''x'' ''b'' None None) PCancelled))"
    by (simp_all add: is_expired_def tally_def task_new_def detailed_new_def ttl_as_i64_def i64_max_def
        num_milliseconds_def)
  with sweep_removes_exactly_expired [OF d, of tally 4000000] show ?thesis
    by (auto simp: sample_memory_def)
qed

text \<open>
  When a task expires, with the arithmetic the code has: never without a TTL or with a
  creation time that does not parse; otherwise once more whole milliseconds than its TTL have
  passed, and a TTL beyond the signed range, which the clamp replaces, can never elapse within
  the span of a signed 64-bit count of milliseconds. Expiry, once reached, is final.
\<close>

theorem task_expiry:
  "(t_ttl_ms t = None \<longrightarrow> \<not> is_expired ts now t)
   \<and> (ts_parse ts (t_created_at t) = None \<longrightarrow> \<not> is_expired ts now t)
   \<and> (t_ttl_ms t = Some ttl \<and> ts_parse ts (t_created_at t) = Some created
        \<and> num_milliseconds (now - created) \<le> i64_max \<longrightarrow>
        (is_expired ts now t \<longleftrightarrow> (int ttl + 1) * 1000000 \<le> now - created))
   \<and> (is_expired ts now t \<and> now \<le> later \<longrightarrow> is_expired ts later t)"
proof (intro conjI impI)
  assume "t_ttl_ms t = Some ttl \<and> ts_parse ts (t_created_at t) = Some created
    \<and> num_milliseconds (now - created) \<le> i64_max"
  then show "is_expired ts now t \<longleftrightarrow> (int ttl + 1) * 1000000 \<le> now - created"
    by (auto simp: is_expired_def ttl_as_i64_def num_milliseconds_def i64_max_def)
next
  assume "is_expired ts now t \<and> now \<le> later"
  then show "is_expired ts later t"
    using num_milliseconds_mono [of "now - created" "later - created" for created]
    by (auto simp: is_expired_def split: option.splits intro: order.strict_trans2)
qed (simp_all add: is_expired_def split: option.split)

lemma task_expiry_witness:
  "is_expired tally 4000000 (task_new ''x'' ''a'' (Some 2) None) \<and>
   \<not> is_expired tally 3999999 (task_new ''x'' ''a'' (Some 2) None)"
  using task_expiry [of "task_new ''x'' ''a'' (Some 2) None" tally 4000000 2 1000000]
    task_expiry [of "task_new ''x'' ''a'' (Some 2) None" tally 3999999 2 1000000]
  by (simp add: tally_def task_new_def num_milliseconds_def i64_max_def)

end
