(* ===== verification/Task_Manager.thy ===== *)
theory Task_Manager
  imports Task_Store
begin

text \<open>
  The task manager and the run handle a host holds (\<^verbatim>\<open>TaskManager\<close>, \<^verbatim>\<open>TaskRun\<close> in
  \<^verbatim>\<open>src/mcp/tasks.rs\<close>).

  A run is a reference: it names the run's cancellation token and the two ends of its input
  channel. \<open>w_runs\<close> is the table of live runs, \<open>w_fired\<close> the tokens fired, \<open>w_queue\<close> what each
  channel holds, \<open>w_open\<close> whether its receiver is alive, \<open>w_published\<close> what the bus has taken,
  latest first, and \<open>w_minted\<close> the ids \<^verbatim>\<open>TaskId::generate\<close> has answered.
  The signal bus is the host's: an argument that answers from what it took before.
  Each operation is cut at the points where it awaits, so that others may run in between.
\<close>

type_synonym run_ref = nat

record task_options =
  op_ttl_ms :: "nat option"
  op_poll_ms :: nat
  op_sweep_interval :: "duration option"

definition default_options :: task_options where
  "default_options =
     \<lparr>op_ttl_ms = Some 300000, op_poll_ms = 1000, op_sweep_interval = Some 30000000000\<rparr>"

definition host_swept :: task_options where
  "host_swept = default_options\<lparr>op_sweep_interval := None\<rparr>"

definition with_ttl_ms :: "nat option \<Rightarrow> task_options \<Rightarrow> task_options" where
  "with_ttl_ms ttl_ms opts = opts\<lparr>op_ttl_ms := ttl_ms\<rparr>"

definition with_poll_interval_ms :: "nat \<Rightarrow> task_options \<Rightarrow> task_options" where
  "with_poll_interval_ms ms opts = opts\<lparr>op_poll_ms := ms\<rparr>"

definition with_sweep_interval :: "duration option \<Rightarrow> task_options \<Rightarrow> task_options" where
  "with_sweep_interval every opts = opts\<lparr>op_sweep_interval := every\<rparr>"

type_synonym input_responses = json_map

datatype task_signal =
    SigCancelled task_id
  | SigInput task_id input_responses

fun signal_task_id :: "task_signal \<Rightarrow> task_id" where
  "signal_task_id (SigCancelled tid) = tid"
| "signal_task_id (SigInput tid _) = tid"

record 's task_manager =
  m_store :: "'s task_store"
  m_clock :: rfc3339
  m_options :: task_options
  m_bus :: "(task_signal list \<Rightarrow> task_signal \<Rightarrow> (task_error, unit) result) option"

record 's task_world =
  w_store :: 's
  w_runs :: "(task_id, run_ref) table"
  w_next :: run_ref
  w_fired :: "run_ref list"
  w_queue :: "run_ref \<Rightarrow> input_responses list"
  w_open :: "run_ref \<Rightarrow> bool"
  w_published :: "task_signal list"
  w_minted :: "task_id list"

record task_run =
  r_owner :: task_owner
  r_task :: task
  r_ref :: run_ref

definition quoted :: "string \<Rightarrow> string" where
  "quoted s = [CHR 0x27] @ s @ [CHR 0x27]"

definition validate_input_keys ::
  "task_id \<Rightarrow> json_map \<Rightarrow> input_responses \<Rightarrow> (task_error, unit) result" where
  "validate_input_keys tid requests responses =
     (case List.find (\<lambda>key. \<not> contains_key key responses) (keys requests) of
        Some missing \<Rightarrow> Inl (InvalidInput tid (''no response for input request '' @ quoted missing))
      | None \<Rightarrow>
          (case List.find (\<lambda>key. \<not> contains_key key requests) (keys responses) of
             Some unknown \<Rightarrow> Inl (InvalidInput tid (quoted unknown @ '' names no outstanding input request''))
           | None \<Rightarrow> Inr ()))"

text \<open>The sweeper \<^verbatim>\<open>ensure_sweeper\<close> starts runs at this period, if at all.\<close>

definition sweep_period :: "task_options \<Rightarrow> duration option" where
  "sweep_period opts =
     (case op_sweep_interval opts of None \<Rightarrow> None | Some d \<Rightarrow> if d = 0 then None else Some d)"

definition stamp_at :: "'s task_manager \<Rightarrow> int \<Rightarrow> string" where
  "stamp_at m now = ts_format (m_clock m) now"

definition world_new :: "'s \<Rightarrow> 's task_world" where
  "world_new s =
     \<lparr>w_store = s, w_runs = [], w_next = 0, w_fired = [], w_queue = (\<lambda>_. []), w_open = (\<lambda>_. False),
      w_published = [], w_minted = []\<rparr>"

text \<open>Sending on a run's input channel: it fails once the receiver is gone.\<close>

definition send_input :: "run_ref \<Rightarrow> input_responses \<Rightarrow> 's task_world \<Rightarrow> 's task_world \<times> bool" where
  "send_input r responses w =
     (if w_open w r
      then (w\<lparr>w_queue := (w_queue w)(r := w_queue w r @ [responses])\<rparr>, True)
      else (w, False))"

definition deliver :: "task_signal \<Rightarrow> 's task_world \<Rightarrow> 's task_world \<times> bool" where
  "deliver signal w =
     (case map_of (w_runs w) (signal_task_id signal) of
        None \<Rightarrow> (w, False)
      | Some r \<Rightarrow>
          (case signal of
             SigCancelled _ \<Rightarrow> (w\<lparr>w_fired := r # w_fired w\<rparr>, True)
           | SigInput _ responses \<Rightarrow> send_input r responses w))"

definition publish ::
  "'s task_manager \<Rightarrow> task_signal \<Rightarrow> 's task_world \<Rightarrow> 's task_world \<times> (task_error, bool) result" where
  "publish m signal w =
     (case m_bus m of
        None \<Rightarrow> (w, Inr False)
      | Some bus \<Rightarrow>
          (case bus (w_published w) signal of
             Inl e \<Rightarrow> (w, Inl e)
           | Inr _ \<Rightarrow> (w\<lparr>w_published := signal # w_published w\<rparr>, Inr True)))"

subsection \<open>Creating and reading\<close>

definition create_store ::
  "'s task_manager \<Rightarrow> int \<Rightarrow> task_owner \<Rightarrow> task_id \<Rightarrow> 's task_world \<Rightarrow> 's task_world \<times> (task_error, task) result" where
  "create_store m now owner tid w =
     (let t = task_new (stamp_at m now) tid (op_ttl_ms (m_options m)) (Some (op_poll_ms (m_options m)))
      in case st_create (m_store m) now owner (detailed_new t PWorking) (w_store w) of
           (s, Inl e) \<Rightarrow> (w\<lparr>w_store := s, w_minted := tid # w_minted w\<rparr>, Inl e)
         | (s, Inr _) \<Rightarrow> (w\<lparr>w_store := s, w_minted := tid # w_minted w\<rparr>, Inr t))"

definition create_register :: "task_owner \<Rightarrow> task \<Rightarrow> 's task_world \<Rightarrow> 's task_world \<times> task_run" where
  "create_register owner t w =
     (w\<lparr>w_runs := AList.update (t_id t) (w_next w) (w_runs w), w_next := Suc (w_next w),
        w_queue := (w_queue w)(w_next w := []), w_open := (w_open w)(w_next w := True)\<rparr>,
      \<lparr>r_owner = owner, r_task = t, r_ref = w_next w\<rparr>)"

text \<open>\<open>generated\<close> is what \<^verbatim>\<open>TaskId::generate()\<close> answered.\<close>

definition task_create ::
  "'s task_manager \<Rightarrow> int \<Rightarrow> task_owner \<Rightarrow> (task_error, task_id) result \<Rightarrow> 's task_world
     \<Rightarrow> 's task_world \<times> (task_error, task_run) result" where
  "task_create m now owner generated w =
     (case generated of
        Inl e \<Rightarrow> (w, Inl e)
      | Inr tid \<Rightarrow>
          (case create_store m now owner tid w of
             (w1, Inl e) \<Rightarrow> (w1, Inl e)
           | (w1, Inr t) \<Rightarrow> (case create_register owner t w1 of (w2, run) \<Rightarrow> (w2, Inr run))))"

definition task_get ::
  "'s task_manager \<Rightarrow> int \<Rightarrow> task_owner \<Rightarrow> task_id \<Rightarrow> 's task_world \<Rightarrow> (task_error, detailed_task) result" where
  "task_get m now owner tid w =
     result_bind (st_get (m_store m) now owner tid (w_store w)) (\<lambda>found. ok_or found (NotFound tid))"

subsection \<open>Transitions\<close>

definition transition_change :: "string \<Rightarrow> task_id \<Rightarrow> task_payload \<Rightarrow> task_update" where
  "transition_change stamp tid payload current =
     (if is_terminal (d_status current) then Inl (InvalidState tid (d_status current))
      else Inr (detailed_new ((d_task current)\<lparr>t_updated_at := stamp\<rparr>) payload))"

definition store_step ::
  "'s task_manager \<Rightarrow> int \<Rightarrow> task_owner \<Rightarrow> task_id \<Rightarrow> task_update \<Rightarrow> 's task_world
     \<Rightarrow> 's task_world \<times> (task_error, detailed_task) result" where
  "store_step m now owner tid change w =
     (case st_update (m_store m) now owner tid change (w_store w) of
        (s, res) \<Rightarrow> (w\<lparr>w_store := s\<rparr>, res))"

definition transition ::
  "'s task_manager \<Rightarrow> int \<Rightarrow> task_owner \<Rightarrow> task_id \<Rightarrow> task_payload \<Rightarrow> 's task_world
     \<Rightarrow> 's task_world \<times> (task_error, detailed_task) result" where
  "transition m now owner tid payload w =
     store_step m now owner tid (transition_change (stamp_at m now) tid payload) w"

definition task_complete ::
  "'s task_manager \<Rightarrow> int \<Rightarrow> task_owner \<Rightarrow> task_id \<Rightarrow> json_map \<Rightarrow> 's task_world
     \<Rightarrow> 's task_world \<times> (task_error, detailed_task) result" where
  "task_complete m now owner tid res w = transition m now owner tid (PCompleted res) w"

definition task_fail ::
  "'s task_manager \<Rightarrow> int \<Rightarrow> task_owner \<Rightarrow> task_id \<Rightarrow> json_map \<Rightarrow> 's task_world
     \<Rightarrow> 's task_world \<times> (task_error, detailed_task) result" where
  "task_fail m now owner tid err w = transition m now owner tid (PFailed err) w"

definition task_request_input ::
  "'s task_manager \<Rightarrow> int \<Rightarrow> task_owner \<Rightarrow> task_id \<Rightarrow> json_map \<Rightarrow> 's task_world
     \<Rightarrow> 's task_world \<times> (task_error, detailed_task) result" where
  "task_request_input m now owner tid requests w =
     transition m now owner tid (PInputRequired requests) w"

subsection \<open>Applying input\<close>

text \<open>First the ownership check and the lookup of a local run.\<close>

definition apply_look ::
  "'s task_manager \<Rightarrow> int \<Rightarrow> task_owner \<Rightarrow> task_id \<Rightarrow> 's task_world
     \<Rightarrow> (task_error, run_ref option) result" where
  "apply_look m now owner tid w =
     result_bind (task_get m now owner tid w) (\<lambda>_.
       let inputs = map_of (w_runs w) tid in
       if inputs = None \<and> m_bus m = None then Inl (Detached tid) else Inr inputs)"

definition input_change :: "string \<Rightarrow> task_id \<Rightarrow> input_responses \<Rightarrow> task_update" where
  "input_change stamp tid responses current =
     (case d_payload current of
        PInputRequired requests \<Rightarrow>
          result_bind (validate_input_keys tid requests responses) (\<lambda>_.
            Inr (detailed_new ((d_task current)\<lparr>t_updated_at := stamp\<rparr>) PWorking))
      | _ \<Rightarrow> Inl (InvalidState tid (d_status current)))"

text \<open>Then the recorded change.\<close>

definition apply_record ::
  "'s task_manager \<Rightarrow> int \<Rightarrow> task_owner \<Rightarrow> task_id \<Rightarrow> input_responses \<Rightarrow> 's task_world
     \<Rightarrow> 's task_world \<times> (task_error, detailed_task) result" where
  "apply_record m now owner tid responses w =
     store_step m now owner tid (input_change (stamp_at m now) tid responses) w"

definition hand_over ::
  "'s task_manager \<Rightarrow> task_id \<Rightarrow> input_responses \<Rightarrow> run_ref option \<Rightarrow> 's task_world
     \<Rightarrow> 's task_world \<times> bool" where
  "hand_over m tid responses inputs w =
     (case inputs of
        Some r \<Rightarrow> send_input r responses w
      | None \<Rightarrow>
          (case publish m (SigInput tid responses) w of
             (w', Inl _) \<Rightarrow> (w', False)
           | (w', Inr published) \<Rightarrow> (w', published)))"

definition unhanded_error :: "bool \<Rightarrow> json_map" where
  "unhanded_error local =
     [(''code'', JNumber (NegInt (- 32603))),
      (''message'', JString
         (if local then ''task operation ended before receiving its input''
          else ''task input could not be carried to the instance running the operation''))]"

text \<open>Then the hand-over, and the failure of a task no one received the input of.\<close>

definition apply_hand ::
  "'s task_manager \<Rightarrow> int \<Rightarrow> task_owner \<Rightarrow> task_id \<Rightarrow> input_responses \<Rightarrow> run_ref option
     \<Rightarrow> detailed_task \<Rightarrow> 's task_world \<Rightarrow> 's task_world \<times> (task_error, detailed_task) result" where
  "apply_hand m now owner tid responses inputs working w =
     (case hand_over m tid responses inputs w of
        (w1, handed) \<Rightarrow>
          if \<not> handed
          then (case task_fail m now owner tid (unhanded_error (inputs \<noteq> None)) w1 of
                  (w2, Inl e) \<Rightarrow> (w2, Inl e)
                | (w2, Inr _) \<Rightarrow> (w2, Inl (Detached tid)))
          else (w1, Inr working))"

definition apply_input ::
  "'s task_manager \<Rightarrow> int \<Rightarrow> int \<Rightarrow> int \<Rightarrow> task_owner \<Rightarrow> task_id \<Rightarrow> input_responses
     \<Rightarrow> 's task_world \<Rightarrow> 's task_world \<times> (task_error, detailed_task) result" where
  "apply_input m looked_at recorded_at failed_at owner tid responses w =
     (case apply_look m looked_at owner tid w of
        Inl e \<Rightarrow> (w, Inl e)
      | Inr inputs \<Rightarrow>
          (case apply_record m recorded_at owner tid responses w of
             (w1, Inl e) \<Rightarrow> (w1, Inl e)
           | (w1, Inr working) \<Rightarrow> apply_hand m failed_at owner tid responses inputs working w1))"

subsection \<open>Cancelling, sweeping, dropping\<close>

definition signal_cancelled :: "'s task_manager \<Rightarrow> task_id \<Rightarrow> 's task_world \<Rightarrow> 's task_world" where
  "signal_cancelled m tid w =
     (case deliver (SigCancelled tid) w of
        (w1, local) \<Rightarrow> if local then w1 else fst (publish m (SigCancelled tid) w1))"

definition task_cancel ::
  "'s task_manager \<Rightarrow> int \<Rightarrow> task_owner \<Rightarrow> task_id \<Rightarrow> 's task_world
     \<Rightarrow> 's task_world \<times> (task_error, detailed_task) result" where
  "task_cancel m now owner tid w =
     (case transition m now owner tid PCancelled w of
        (w1, Inl e) \<Rightarrow> (w1, Inl e)
      | (w1, Inr cancelled) \<Rightarrow> (signal_cancelled m tid w1, Inr cancelled))"

definition sweep_expired ::
  "'s task_manager \<Rightarrow> int \<Rightarrow> 's task_world \<Rightarrow> 's task_world \<times> (task_error, nat) result" where
  "sweep_expired m now w =
     (case st_sweep (m_store m) now (w_store w) of
        (s, Inl e) \<Rightarrow> (w\<lparr>w_store := s\<rparr>, Inl e)
      | (s, Inr removed) \<Rightarrow>
          (fold (signal_cancelled m) removed (w\<lparr>w_store := s\<rparr>), Inr (length removed)))"

definition release :: "task_id \<Rightarrow> 's task_world \<Rightarrow> 's task_world" where
  "release tid w = w\<lparr>w_runs := AList.delete tid (w_runs w)\<rparr>"

text \<open>Dropping a run unregisters it, then its fields go, the receiving end of its channel with
  them.\<close>

definition close_input :: "run_ref \<Rightarrow> 's task_world \<Rightarrow> 's task_world" where
  "close_input r w = w\<lparr>w_open := (w_open w)(r := False)\<rparr>"

definition run_drop :: "task_run \<Rightarrow> 's task_world \<Rightarrow> 's task_world" where
  "run_drop run w = close_input (r_ref run) (release (t_id (r_task run)) w)"

definition run_is_cancelled :: "task_run \<Rightarrow> 's task_world \<Rightarrow> bool" where
  "run_is_cancelled run w \<longleftrightarrow> r_ref run \<in> set (w_fired w)"

text \<open>\<^verbatim>\<open>TaskRun::request_input\<close>: the request, then one look of its biased wait, which answers
  \<open>None\<close> while neither the token nor the channel is ready. The channel ends with its sender.\<close>

definition run_ask ::
  "'s task_manager \<Rightarrow> int \<Rightarrow> task_run \<Rightarrow> json_map \<Rightarrow> 's task_world
     \<Rightarrow> 's task_world \<times> (task_error, detailed_task) result" where
  "run_ask m now run requests w = task_request_input m now (r_owner run) (t_id (r_task run)) requests w"

definition run_wait ::
  "task_run \<Rightarrow> 's task_world \<Rightarrow> ('s task_world \<times> (task_error, input_responses) result) option" where
  "run_wait run w =
     (if r_ref run \<in> set (w_fired w)
      then Some (w, Inl (InvalidState (t_id (r_task run)) Cancelled))
      else (case w_queue w (r_ref run) of
              responses # rest \<Rightarrow> Some (w\<lparr>w_queue := (w_queue w)(r_ref run := rest)\<rparr>, Inr responses)
            | [] \<Rightarrow> if list_ex (\<lambda>(_, r). r = r_ref run) (w_runs w) then None
                    else Some (w, Inl (Detached (t_id (r_task run))))))"

definition run_complete ::
  "'s task_manager \<Rightarrow> int \<Rightarrow> task_run \<Rightarrow> json_map \<Rightarrow> 's task_world
     \<Rightarrow> 's task_world \<times> (task_error, detailed_task) result" where
  "run_complete m now run res w =
     (case task_complete m now (r_owner run) (t_id (r_task run)) res w of
        (w1, r) \<Rightarrow> (run_drop run w1, r))"

definition run_fail ::
  "'s task_manager \<Rightarrow> int \<Rightarrow> task_run \<Rightarrow> json_map \<Rightarrow> 's task_world
     \<Rightarrow> 's task_world \<times> (task_error, detailed_task) result" where
  "run_fail m now run err w =
     (case task_fail m now (r_owner run) (t_id (r_task run)) err w of
        (w1, r) \<Rightarrow> (run_drop run w1, r))"

subsection \<open>The manager over any lawful store\<close>

text \<open>A task that has settled: a terminal status, with the payload that goes with it.\<close>

definition settled :: "detailed_task \<Rightarrow> bool" where
  "settled d \<longleftrightarrow> is_terminal (d_status d) \<and> consistent d"

lemma transition_change_settled: "settled d \<Longrightarrow> transition_change stamp tid payload d \<noteq> Inr d'"
  by (simp add: settled_def transition_change_def)

lemma input_change_settled: "settled d \<Longrightarrow> input_change stamp tid responses d \<noteq> Inr d'"
  by (cases "d_payload d") (auto simp: settled_def input_change_def consistent_def)

text \<open>What a change keeps of a task: its id, its creation and its TTL; its result is consistent.\<close>

definition same_task :: "detailed_task \<Rightarrow> detailed_task \<Rightarrow> bool" where
  "same_task d d' \<longleftrightarrow> t_id (d_task d') = t_id (d_task d)
     \<and> t_created_at (d_task d') = t_created_at (d_task d)
     \<and> t_ttl_ms (d_task d') = t_ttl_ms (d_task d) \<and> t_poll_ms (d_task d') = t_poll_ms (d_task d)"

lemma same_task_refl [simp]: "same_task d d"
  by (simp add: same_task_def)

lemma same_task_trans: "same_task d d' \<Longrightarrow> same_task d' d'' \<Longrightarrow> same_task d d''"
  by (simp add: same_task_def)

lemma transition_change_same:
  "transition_change stamp tid payload d = Inr d' \<Longrightarrow> same_task d d' \<and> consistent d'"
  by (auto simp: transition_change_def same_task_def detailed_new_def consistent_def d_status_def
      split: if_splits)

lemma input_change_same:
  "input_change stamp tid responses d = Inr d' \<Longrightarrow> same_task d d' \<and> consistent d'"
  by (auto simp: input_change_def same_task_def detailed_new_def consistent_def d_status_def
      result_bind_Inr_iff split: task_payload.splits)

context task_store_laws
begin

text \<open>A manager step that refuses settled tasks leaves them, and other owners' tasks, alone.\<close>

lemma store_step_keeps_settled:
  assumes "m_store m = ops" and "valid (w_store w)" and "entry (w_store w) i = Some (p, d)"
    and "settled d" and "\<And>d d'. settled d \<Longrightarrow> change d \<noteq> Inr d'"
  shows "entry (w_store (fst (store_step m now owner tid change w))) i = Some (p, d)"
proof -
  obtain s u where up: "st_update ops now owner tid change (w_store w) = (s, u)"
    by (cases "st_update ops now owner tid change (w_store w)")
  have "entry s i = Some (p, d)"
    using update_refused [OF assms(2) up assms(3)] assms(4,5) by blast
  with up assms(1) show ?thesis by (simp add: store_step_def)
qed

lemma store_step_other_owner:
  assumes "m_store m = ops" and "valid (w_store w)" and "entry (w_store w) i = Some (p, d)" and "p \<noteq> owner"
  shows "entry (w_store (fst (store_step m now owner tid change w))) i = Some (p, d)"
proof -
  obtain s u where up: "st_update ops now owner tid change (w_store w) = (s, u)"
    by (cases "st_update ops now owner tid change (w_store w)")
  have "entry s i = Some (p, d)"
    using update_other_owner [OF assms(2) up assms(3,4)] .
  with up assms(1) show ?thesis by (simp add: store_step_def)
qed

lemma store_step_cases:
  assumes "m_store m = ops" and "valid (w_store w)"
  obtains (same) "entry (w_store (fst (store_step m now owner tid change w))) = entry (w_store w)"
    | (changed) current d where "entry (w_store w) tid = Some (owner, current)" "change current = Inr d"
      "entry (w_store (fst (store_step m now owner tid change w))) = (entry (w_store w))(tid \<mapsto> (owner, d))"
proof -
  obtain s u where up: "st_update ops now owner tid change (w_store w) = (s, u)"
    by (cases "st_update ops now owner tid change (w_store w)")
  show thesis
  proof (cases u)
    case (Inl e)
    with up assms update_Inl [of "w_store w" now owner tid change s e] show ?thesis
      by (intro same) (simp add: store_step_def)
  next
    case (Inr d)
    with up assms update_Inr [of "w_store w" now owner tid change s d] show ?thesis
      by (auto simp: store_step_def intro: changed)
  qed
qed

lemma store_step_valid:
  assumes "m_store m = ops" and "valid (w_store w)"
  shows "valid (w_store (fst (store_step m now owner tid change w)))"
proof -
  obtain s u where up: "st_update ops now owner tid change (w_store w) = (s, u)"
    by (cases "st_update ops now owner tid change (w_store w)")
  with assms valid_update [OF assms(2) up] show ?thesis by (simp add: store_step_def)
qed

end

subsection \<open>Interleavings of the operations\<close>

text \<open>
  The manager of the shipped store, and its operations cut into the steps between which
  another may run. A created id is new: \<^verbatim>\<open>TaskId::generate\<close> draws it from the system's random
  source.
\<close>

definition memory_manager ::
  "rfc3339 \<Rightarrow> task_options \<Rightarrow> (task_signal list \<Rightarrow> task_signal \<Rightarrow> (task_error, unit) result) option
     \<Rightarrow> memory task_manager" where
  "memory_manager ts opts bus =
     \<lparr>m_store = in_memory ts, m_clock = ts, m_options = opts, m_bus = bus\<rparr>"

lemma memory_manager_simps [simp]:
  "m_store (memory_manager ts opts bus) = in_memory ts"
  "m_clock (memory_manager ts opts bus) = ts"
  "m_options (memory_manager ts opts bus) = opts"
  "m_bus (memory_manager ts opts bus) = bus"
  by (simp_all add: memory_manager_def)

inductive task_step :: "'s task_manager \<Rightarrow> 's task_world \<Rightarrow> 's task_world \<Rightarrow> bool" for m where
  Create: "tid \<notin> set (w_minted w) \<Longrightarrow> task_step m w (fst (create_store m now owner tid w))"
| Register: "task_step m w (fst (create_register owner t w))"
| Transition: "task_step m w (fst (transition m now owner tid payload w))"
| Record: "task_step m w (fst (apply_record m now owner tid responses w))"
| Send: "task_step m w (fst (send_input r responses w))"
| Deliver: "task_step m w (fst (deliver signal w))"
| Publish: "task_step m w (fst (publish m signal w))"
| Sweep: "task_step m w (w\<lparr>w_store := fst (st_sweep (m_store m) now (w_store w))\<rparr>)"
| Release: "task_step m w (release tid w)"
| Close: "task_step m w (close_input r w)"
| Wait: "run_wait run w = Some (w', res) \<Longrightarrow> task_step m w w'"

abbreviation task_steps :: "'s task_manager \<Rightarrow> 's task_world \<Rightarrow> 's task_world \<Rightarrow> bool" where
  "task_steps m \<equiv> (task_step m)\<^sup>*\<^sup>*"

definition tasks_ok :: "memory task_world \<Rightarrow> bool" where
  "tasks_ok w \<longleftrightarrow>
     distinct_keys (w_store w)
     \<and> (\<forall>i p d. map_of (w_store w) i = Some (p, d) \<longrightarrow>
          t_id (d_task d) = i \<and> consistent d \<and> i \<in> set (w_minted w))"

text \<open>The steps that leave the store alone.\<close>

lemma quiet_steps:
  "w_store (fst (create_register owner t w)) = w_store w \<and> w_minted (fst (create_register owner t w)) = w_minted w"
  "w_store (fst (send_input r responses w)) = w_store w \<and> w_minted (fst (send_input r responses w)) = w_minted w"
  "w_store (fst (deliver signal w)) = w_store w \<and> w_minted (fst (deliver signal w)) = w_minted w"
  "w_store (fst (publish m signal w)) = w_store w \<and> w_minted (fst (publish m signal w)) = w_minted w"
  "w_store (release tid w) = w_store w \<and> w_minted (release tid w) = w_minted w"
  "w_store (close_input r w) = w_store w \<and> w_minted (close_input r w) = w_minted w"
  "run_wait run w = Some (w', res) \<Longrightarrow> w_store w' = w_store w \<and> w_minted w' = w_minted w"
  by (auto simp: create_register_def send_input_def deliver_def publish_def release_def
      close_input_def run_wait_def split: option.splits task_signal.splits sum.splits list.splits if_splits)

text \<open>What one step does to the stored tasks: it adds a new id, changes one task, or drops some.\<close>

lemma task_step_store:
  assumes step: "task_step (memory_manager ts opts bus) w w'" and ok: "tasks_ok w"
  obtains (quiet) "w_store w' = w_store w" "w_minted w' = w_minted w"
    | (created) tid owner d where "tid \<notin> set (w_minted w)" "w_minted w' = tid # w_minted w"
        "w_store w' = AList.update tid (owner, d) (w_store w)" "t_id (d_task d) = tid" "consistent d"
    | (changed) tid owner d d' where "map_of (w_store w) tid = Some (owner, d)" "\<not> settled d"
        "same_task d d'" "consistent d'" "w_store w' = AList.update tid (owner, d') (w_store w)"
        "w_minted w' = w_minted w"
    | (swept) P where "w_store w' = retain (\<lambda>_. P) (w_store w)" "w_minted w' = w_minted w"
proof -
  let ?m = "memory_manager ts opts bus"
  have step_store: thesis if w': "w' = fst (store_step ?m now owner tid change w)"
    and change: "\<And>d d'. change d = Inr d' \<Longrightarrow> \<not> settled d \<and> same_task d d' \<and> consistent d'"
    for now owner tid change
  proof (cases "mem_update ts now owner tid change (w_store w)")
    case (Pair s u)
    then show ?thesis
    proof (cases u)
      case (Inl e)
      with Pair w' show ?thesis
        by (intro quiet) (auto simp: store_step_def in_memory_def dest: mem_update_Inl)
    next
      case (Inr d')
      with Pair obtain d where "map_of (w_store w) tid = Some (owner, d)" "change d = Inr d'"
        "s = AList.update tid (owner, d') (w_store w)"
        by (auto simp: mem_update_Inr_iff)
      with Pair Inr w' change [of d d'] show ?thesis
        by (intro changed [of tid owner d d']) (auto simp: store_step_def in_memory_def)
    qed
  qed
  from step show thesis
  proof (cases rule: task_step.cases)
    case (Create tid now owner)
    let ?t = "task_new (stamp_at ?m now) tid (op_ttl_ms opts) (Some (op_poll_ms opts))"
    from Create show ?thesis
      by (intro created [of tid owner "detailed_new ?t PWorking"])
        (simp_all add: create_store_def in_memory_def mem_create_def task_new_def Let_def)
  next
    case (Transition now owner tid payload)
    then show ?thesis
      by (intro step_store [of now owner tid "transition_change (stamp_at ?m now) tid payload"])
        (auto simp: transition_def dest: transition_change_same transition_change_settled)
  next
    case (Record now owner tid responses)
    then show ?thesis
      by (intro step_store [of now owner tid "input_change (stamp_at ?m now) tid responses"])
        (auto simp: apply_record_def dest: input_change_same input_change_settled)
  next
    case (Sweep now)
    then show ?thesis
      by (intro swept [of "\<lambda>(_, d). \<not> is_expired ts now (d_task d)"])
        (simp_all add: in_memory_def mem_sweep_def)
  qed (use quiet quiet_steps in metis)+
qed

lemma task_step_ok: "task_step (memory_manager ts opts bus) w w' \<Longrightarrow> tasks_ok w \<Longrightarrow> tasks_ok w'"
proof (erule task_step_store)
  fix tid owner d
  assume "tid \<notin> set (w_minted w)" "w_minted w' = tid # w_minted w"
    "w_store w' = AList.update tid (owner, d) (w_store w)" "t_id (d_task d) = tid" "consistent d"
  then show "tasks_ok w \<Longrightarrow> tasks_ok w'"
    by (auto simp: tasks_ok_def distinct_keys_update map_of_update split: if_splits)
next
  fix tid owner d d'
  assume "map_of (w_store w) tid = Some (owner, d)" "same_task d d'" "consistent d'"
    "w_store w' = AList.update tid (owner, d') (w_store w)" "w_minted w' = w_minted w"
  then show "tasks_ok w \<Longrightarrow> tasks_ok w'"
    by (auto simp: tasks_ok_def distinct_keys_update map_of_update same_task_def split: if_splits)
next
  fix P
  assume "w_store w' = retain (\<lambda>_. P) (w_store w)" "w_minted w' = w_minted w"
  then show "tasks_ok w \<Longrightarrow> tasks_ok w'"
    by (auto simp: tasks_ok_def distinct_keys_retain map_of_retain split: option.splits if_splits)
qed (auto simp: tasks_ok_def)

lemma tasks_ok_new: "tasks_ok (world_new [])"
  by (simp add: tasks_ok_def world_new_def)

lemma task_steps_ok:
  "task_steps (memory_manager ts opts bus) w w' \<Longrightarrow> tasks_ok w \<Longrightarrow> tasks_ok w'"
  by (induction rule: rtranclp_induct) (auto intro: task_step_ok)

text \<open>What every step keeps of one task.\<close>

lemma task_step_entry:
  assumes step: "task_step (memory_manager ts opts bus) w w'" and ok: "tasks_ok w"
    and e: "map_of (w_store w) i = Some (p, d)"
  shows "map_of (w_store w') i = None
    \<or> (\<exists>d'. map_of (w_store w') i = Some (p, d') \<and> same_task d d' \<and> (settled d \<longrightarrow> d' = d))"
proof -
  have i: "i \<in> set (w_minted w)" and dist: "distinct_keys (w_store w)"
    using ok e by (auto simp: tasks_ok_def)
  from step ok show ?thesis
  proof (cases rule: task_step_store)
    case quiet
    with e show ?thesis by simp
  next
    case (created tid owner d')
    with e i show ?thesis by (auto simp: map_of_update)
  next
    case (changed tid owner d1 d2)
    with e show ?thesis by (auto simp: map_of_update)
  next
    case (swept P)
    with e dist show ?thesis by (simp add: map_of_retain)
  qed
qed

lemma task_step_gone:
  assumes step: "task_step (memory_manager ts opts bus) w w'" and ok: "tasks_ok w"
    and e: "map_of (w_store w) i = None" and i: "i \<in> set (w_minted w)"
  shows "map_of (w_store w') i = None \<and> i \<in> set (w_minted w')"
proof -
  have dist: "distinct_keys (w_store w)" using ok by (simp add: tasks_ok_def)
  from step ok show ?thesis
    by (cases rule: task_step_store) (use e i dist in \<open>auto simp: map_of_update map_of_retain\<close>)
qed

lemma task_steps_entry:
  assumes steps: "task_steps (memory_manager ts opts bus) w w'" and ok: "tasks_ok w"
    and e: "map_of (w_store w) i = Some (p, d)"
  shows "map_of (w_store w') i = None \<and> i \<in> set (w_minted w')
    \<or> (\<exists>d'. map_of (w_store w') i = Some (p, d') \<and> same_task d d' \<and> (settled d \<longrightarrow> d' = d))"
  using steps
proof (induction rule: rtranclp_induct)
  case base
  with e show ?case by simp
next
  case (step v v')
  have okv: "tasks_ok v" using step.hyps(1) ok by (rule task_steps_ok)
  have minted: "set (w_minted v) \<subseteq> set (w_minted v')"
    using step.hyps(2) okv by (cases rule: task_step_store) auto
  from step.IH show ?case
  proof (elim disjE exE conjE)
    assume "map_of (w_store v) i = None" "i \<in> set (w_minted v)"
    with task_step_gone [OF step.hyps(2) okv] show ?thesis by blast
  next
    fix d1 assume d1: "map_of (w_store v) i = Some (p, d1)" "same_task d d1" "settled d \<longrightarrow> d1 = d"
    then have "i \<in> set (w_minted v')" using okv minted by (auto simp: tasks_ok_def)
    moreover have "\<exists>d'. map_of (w_store v') i = Some (p, d') \<and> same_task d d' \<and> (settled d \<longrightarrow> d' = d)"
      if "map_of (w_store v') i = Some (p, d2)" "same_task d1 d2" "settled d1 \<longrightarrow> d2 = d1" for d2
      using that d1 same_task_trans by metis
    ultimately show ?thesis using task_step_entry [OF step.hyps(2) okv d1(1)] by blast
  qed
qed

subsection \<open>The operations are sequences of steps\<close>

lemma step_one: "task_step m w w' \<Longrightarrow> task_steps m w w'"
  by (rule r_into_rtranclp)

lemma step_then: "task_step m w v \<Longrightarrow> task_steps m v w' \<Longrightarrow> task_steps m w w'"
  by (rule converse_rtranclp_into_rtranclp)

lemma create_steps:
  assumes "\<And>tid. generated = Inr tid \<Longrightarrow> tid \<notin> set (w_minted w)"
  shows "task_steps m w (fst (task_create m now owner generated w))"
proof (cases generated)
  case (Inl e)
  then show ?thesis by (simp add: task_create_def)
next
  case (Inr tid)
  with assms have "task_step m w (fst (create_store m now owner tid w))"
    by (intro task_step.Create) simp
  moreover obtain v res where v: "create_store m now owner tid w = (v, res)"
    by (cases "create_store m now owner tid w")
  ultimately have "task_step m w v" by simp
  with v Inr show ?thesis
    using step_then [OF \<open>task_step m w v\<close> step_one [OF task_step.Register]]
    by (cases res) (simp_all add: task_create_def split_beta step_one)
qed

lemma transition_steps: "task_steps m w (fst (transition m now owner tid payload w))"
  by (rule step_one [OF task_step.Transition])

lemma hand_over_steps: "task_steps m w (fst (hand_over m tid responses inputs w))"
  using step_one [OF task_step.Publish, of m w "SigInput tid responses"]
  by (auto simp: hand_over_def intro: step_one [OF task_step.Send] split: option.split prod.splits sum.splits)

lemma apply_hand_steps: "task_steps m w (fst (apply_hand m now owner tid responses inputs working w))"
proof -
  obtain v handed where v: "hand_over m tid responses inputs w = (v, handed)"
    by (cases "hand_over m tid responses inputs w")
  have wv: "task_steps m w v"
    using hand_over_steps [of m w tid responses inputs] v by simp
  obtain u res where u: "task_fail m now owner tid (unhanded_error (inputs \<noteq> None)) v = (u, res)"
    by (cases "task_fail m now owner tid (unhanded_error (inputs \<noteq> None)) v")
  have "task_steps m v u"
    using transition_steps [of m v now owner tid "PFailed (unhanded_error (inputs \<noteq> None))"] u
    by (simp add: task_fail_def)
  with wv have "task_steps m w u" by (rule rtranclp_trans)
  with wv u v show ?thesis by (cases res) (auto simp: apply_hand_def)
qed

lemma apply_input_steps:
  "task_steps m w (fst (apply_input m at1 at2 at3 owner tid responses w))"
proof (cases "apply_look m at1 owner tid w")
  case (Inl e)
  then show ?thesis by (simp add: apply_input_def)
next
  case (Inr inputs)
  obtain v res where v: "apply_record m at2 owner tid responses w = (v, res)"
    by (cases "apply_record m at2 owner tid responses w")
  have wv: "task_steps m w v"
    using step_one [OF task_step.Record, of m w at2 owner tid responses] v by simp
  show ?thesis
  proof (cases res)
    case (Inl e)
    with Inr v wv show ?thesis by (simp add: apply_input_def)
  next
    case r: (Inr working)
    have "task_steps m w (fst (apply_hand m at3 owner tid responses inputs working v))"
      using wv apply_hand_steps by (rule rtranclp_trans)
    with Inr r v show ?thesis by (simp add: apply_input_def)
  qed
qed

lemma signal_cancelled_steps: "task_steps m w (signal_cancelled m tid w)"
proof -
  obtain v local where v: "deliver (SigCancelled tid) w = (v, local)"
    by (cases "deliver (SigCancelled tid) w")
  have wv: "task_step m w v"
    using task_step.Deliver [of m w "SigCancelled tid"] v by simp
  show ?thesis
    using step_one [OF wv] step_then [OF wv step_one [OF task_step.Publish]] v
    by (cases local) (simp_all add: signal_cancelled_def)
qed

lemma cancel_steps: "task_steps m w (fst (task_cancel m now owner tid w))"
proof -
  obtain v res where v: "transition m now owner tid PCancelled w = (v, res)"
    by (cases "transition m now owner tid PCancelled w")
  have wv: "task_steps m w v"
    using transition_steps [of m w now owner tid PCancelled] v by simp
  then show ?thesis
    using rtranclp_trans [OF wv signal_cancelled_steps] v
    by (cases res) (simp_all add: task_cancel_def)
qed

lemma sweep_steps: "task_steps m w (fst (sweep_expired m now w))"
proof -
  have signals: "task_steps m v (fold (signal_cancelled m) ids v)" for v ids
  proof (induction ids arbitrary: v)
    case (Cons i ids)
    show ?case using rtranclp_trans [OF signal_cancelled_steps Cons.IH] by simp
  qed simp
  obtain s res where s: "st_sweep (m_store m) now (w_store w) = (s, res)"
    by (cases "st_sweep (m_store m) now (w_store w)")
  have "task_step m w (w\<lparr>w_store := s\<rparr>)"
    using task_step.Sweep [of m w now] s by simp
  then show ?thesis
    using s step_then [OF _ signals] by (cases res) (auto simp: sweep_expired_def intro: step_one)
qed

lemma run_drop_steps: "task_steps m w (run_drop run w)"
  unfolding run_drop_def by (rule step_then [OF task_step.Release step_one [OF task_step.Close]])


definition sample_manager :: "memory task_manager" where
  "sample_manager = memory_manager tally (with_ttl_ms (Some 60000) default_options) None"

definition other_owner :: task_owner where
  "other_owner = \<lparr>o_user = Some ''u2'', o_tenant = None\<rparr>"

text \<open>A run created for the sample owner, then waiting for input on one key.\<close>

definition sample_started :: "memory task_world" where
  "sample_started = fst (task_create sample_manager 0 sample_owner (Inr ''a'') (world_new []))"

definition sample_waiting :: "memory task_world" where
  "sample_waiting =
     fst (task_request_input sample_manager 1 sample_owner ''a'' [(''name'', JNull)] sample_started)"


lemma sample_started_steps: "task_steps sample_manager (world_new []) sample_started"
  unfolding sample_started_def by (rule create_steps) (simp add: world_new_def)

text \<open>
  C18: a settled task is final under every interleaving of operations, by any callers and
  instants: while it is still stored it is exactly what it settled as, so no late completion
  overwrites a cancellation and no stray update revives it, and once gone it stays gone.
\<close>

theorem settled_task_is_final:
  assumes "m = memory_manager ts opts bus" and "task_steps m (world_new []) w"
    and "map_of (w_store w) tid = Some (owner, d)" and "is_terminal (d_status d)"
    and later: "task_steps m w w'" and latest: "task_steps m w' w''"
  shows "(map_of (w_store w') tid = None \<or> map_of (w_store w') tid = Some (owner, d))
    \<and> (map_of (w_store w') tid = None \<longrightarrow> map_of (w_store w'') tid = None)"
proof
  have ok: "tasks_ok w" using assms(1,2) task_steps_ok tasks_ok_new by blast
  then have "settled d" using assms(3,4) by (auto simp: tasks_ok_def settled_def)
  with task_steps_entry [OF later [unfolded assms(1)] ok assms(3)]
  show "map_of (w_store w') tid = None \<or> map_of (w_store w') tid = Some (owner, d)" by blast
  have ok': "tasks_ok w'" using assms(1) later ok task_steps_ok by blast
  show "map_of (w_store w') tid = None \<longrightarrow> map_of (w_store w'') tid = None"
  proof
    assume none: "map_of (w_store w') tid = None"
    from task_steps_entry [OF later [unfolded assms(1)] ok assms(3)] none
    have "tid \<in> set (w_minted w')" by auto
    from latest [unfolded assms(1)] none this
    have "map_of (w_store w'') tid = None \<and> tid \<in> set (w_minted w'')"
    proof (induction rule: rtranclp_induct)
      case (step v v')
      have "tasks_ok v" using step.hyps(1) ok' by (rule task_steps_ok)
      with step show ?case using task_step_gone by blast
    qed simp
    then show "map_of (w_store w'') tid = None" ..
  qed
qed

text \<open>
  A task keeps its identity under every interleaving: whoever it was created for, its id,
  creation time and TTL never change, and its status always agrees with its payload.
\<close>

theorem task_identity_is_fixed:
  assumes "m = memory_manager ts opts bus" and "task_steps m (world_new []) w"
    and "map_of (w_store w) tid = Some (owner, d)"
    and "task_steps m w w'" and "map_of (w_store w') tid = Some (owner', d')"
  shows "owner' = owner \<and> same_task d d' \<and> t_id (d_task d') = tid \<and> consistent d'"
proof -
  have ok: "tasks_ok w" using assms(1,2) task_steps_ok tasks_ok_new by blast
  moreover have "tasks_ok w'" using ok assms(1,4) task_steps_ok by blast
  ultimately show ?thesis
    using task_steps_entry [OF assms(4) [unfolded assms(1)] ok assms(3)] assms(5)
    by (auto simp: tasks_ok_def)
qed

subsection \<open>Sample runs\<close>

definition sample_task :: task where
  "sample_task = task_new '''' ''a'' (Some 60000) (Some 1000)"

lemma sample_live: "0 \<le> now \<Longrightarrow> now \<le> 1000000 \<Longrightarrow> \<not> is_expired tally now (sample_task\<lparr>t_updated_at := u, t_status := s\<rparr>)"
  using zdiv_mono1 [of now 1000000 1000000]
  by (simp add: is_expired_def tally_def task_new_def num_milliseconds_def ttl_as_i64_def i64_max_def sample_task_def)

lemma sample_fresh: "0 \<le> now \<Longrightarrow> now \<le> 1000000 \<Longrightarrow> \<not> is_expired tally now (sample_task\<lparr>t_status := s\<rparr>)"
  using sample_live [where now = now and u = "t_updated_at sample_task" and s = s] by simp

lemma sample_started_eq:
  "w_store sample_started = [(''a'', sample_owner, detailed_new sample_task PWorking)]"
  "w_runs sample_started = [(''a'', 0)]"
  "w_open sample_started 0" "w_queue sample_started 0 = []" "w_fired sample_started = []"
  by (simp_all add: sample_started_def task_create_def create_store_def create_register_def Let_def
      sample_manager_def stamp_at_def in_memory_def mem_create_def world_new_def task_new_def
      tally_def with_ttl_ms_def default_options_def sample_task_def)

lemma sample_waiting_eq:
  "w_store sample_waiting = [(''a'', sample_owner,
     detailed_new (sample_task\<lparr>t_updated_at := ''''\<rparr>) (PInputRequired [(''name'', JNull)]))]"
  "w_runs sample_waiting = [(''a'', 0)]"
  "w_open sample_waiting 0" "w_queue sample_waiting 0 = []" "w_fired sample_waiting = []"
  using sample_fresh [of 1 Working]
  by (simp_all add: sample_waiting_def task_request_input_def transition_def store_step_def
      sample_started_eq sample_manager_def in_memory_def mem_update_def transition_change_def
      detailed_new_def d_status_def stamp_at_def tally_def)

lemma sample_waiting_steps: "task_steps sample_manager (world_new []) sample_waiting"
  unfolding sample_waiting_def task_request_input_def
  by (rule rtranclp_trans [OF sample_started_steps transition_steps])

definition sample_cancelled :: "memory task_world" where
  "sample_cancelled = fst (task_cancel sample_manager 1 sample_owner ''a'' sample_waiting)"

lemma sample_cancelled_eq:
  "w_store sample_cancelled = [(''a'', sample_owner,
     detailed_new (sample_task\<lparr>t_updated_at := ''''\<rparr>) PCancelled)]"
  using sample_live [where now = 1 and u = "''''" and s = InputRequired]
  by (simp add: sample_cancelled_def task_cancel_def transition_def store_step_def
      sample_waiting_eq sample_manager_def in_memory_def mem_update_def transition_change_def
      detailed_new_def d_status_def stamp_at_def tally_def signal_cancelled_def deliver_def)

lemma sample_cancelled_steps: "task_steps sample_manager (world_new []) sample_cancelled"
  unfolding sample_cancelled_def by (rule rtranclp_trans [OF sample_waiting_steps cancel_steps])

lemma settled_task_is_final_witness:
  "let w = fst (run_complete sample_manager 2 \<lparr>r_owner = sample_owner, r_task = sample_task, r_ref = 0\<rparr>
       [(''ok'', JBool True)] sample_cancelled) in
   map_of (w_store w) ''a'' = None
   \<or> map_of (w_store w) ''a'' = Some (sample_owner, detailed_new (sample_task\<lparr>t_updated_at := ''''\<rparr>) PCancelled)"
proof -
  let ?w = "fst (run_complete sample_manager 2 \<lparr>r_owner = sample_owner, r_task = sample_task, r_ref = 0\<rparr>
       [(''ok'', JBool True)] sample_cancelled)"
  have "task_steps sample_manager sample_cancelled ?w"
    using rtranclp_trans [OF transition_steps run_drop_steps]
    by (simp add: run_complete_def task_complete_def split_beta)
  from settled_task_is_final [OF sample_manager_def sample_cancelled_steps _ _ this rtranclp.rtrancl_refl, of "''a''"]
  show ?thesis by (simp add: sample_cancelled_eq Let_def)
qed

lemma task_identity_is_fixed_witness:
  "same_task (detailed_new sample_task PWorking) (detailed_new (sample_task\<lparr>t_updated_at := ''''\<rparr>) PCancelled)"
proof -
  have "task_steps sample_manager sample_started sample_cancelled"
    unfolding sample_cancelled_def sample_waiting_def task_request_input_def
    by (rule rtranclp_trans [OF transition_steps cancel_steps])
  from task_identity_is_fixed [OF sample_manager_def sample_started_steps _ this, of "''a''"]
  show ?thesis by (simp add: sample_started_eq sample_cancelled_eq)
qed

subsection \<open>What each operation answers\<close>

lemma memory_store_step [store_simps]:
  "store_step (memory_manager ts opts bus) now owner tid change w =
     (case mem_update ts now owner tid change (w_store w) of (s, res) \<Rightarrow> (w\<lparr>w_store := s\<rparr>, res))"
  by (simp add: store_step_def in_memory_def)

lemma memory_get [store_simps]:
  "task_get (memory_manager ts opts bus) now owner tid w =
     (case map_of (w_store w) tid of
        None \<Rightarrow> Inl (NotFound tid)
      | Some (p, d) \<Rightarrow>
          if p = owner \<and> \<not> is_expired ts now (d_task d) then Inr d else Inl (NotFound tid))"
  by (simp add: task_get_def in_memory_def mem_get_def split: option.split prod.split)

lemma same_task_expired:
  "same_task d d' \<Longrightarrow> is_expired ts now (d_task d') \<longleftrightarrow> is_expired ts now (d_task d)"
  by (cases "t_ttl_ms (d_task d)") (simp_all add: same_task_def is_expired_def)

lemma absent_task_operations:
  assumes "m = memory_manager ts opts bus"
    and "\<And>d. map_of (w_store w) tid \<noteq> Some (owner, d)"
  shows "task_get m at1 owner tid w = Inl (NotFound tid)
    \<and> transition m at1 owner tid payload w = (w, Inl (NotFound tid))
    \<and> apply_input m at1 at2 at3 owner tid responses w = (w, Inl (NotFound tid))
    \<and> task_cancel m at1 owner tid w = (w, Inl (NotFound tid))"
proof -
  have up: "store_step m at1 owner tid change w = (w, Inl (NotFound tid))" for change
    using assms by (auto simp: store_simps mem_update_def split: option.split)
  then have tr: "transition m at1 owner tid p w = (w, Inl (NotFound tid))" for p
    by (simp add: transition_def)
  have "task_get m at1 owner tid w = Inl (NotFound tid)"
    using assms by (auto simp: store_simps split: option.split)
  with tr show ?thesis by (simp add: apply_input_def apply_look_def task_cancel_def)
qed

text \<open>
  A caller learns nothing of another's task: every operation on an id that is another
  owner's answers exactly as for an id that never existed, and changes nothing.
\<close>

theorem foreign_task_reads_as_absent:
  assumes "m = memory_manager ts opts bus"
    and "\<And>d. map_of (w_store w) tid \<noteq> Some (owner, d)"
  shows "task_get m at1 owner tid w = Inl (NotFound tid)
    \<and> transition m at1 owner tid payload w = (w, Inl (NotFound tid))
    \<and> apply_input m at1 at2 at3 owner tid responses w = (w, Inl (NotFound tid))
    \<and> task_cancel m at1 owner tid w = (w, Inl (NotFound tid))"
  by (rule absent_task_operations [OF assms])

lemma foreign_task_reads_as_absent_witness:
  "task_cancel sample_manager 1 other_owner ''a'' sample_waiting = (sample_waiting, Inl (NotFound ''a''))"
  using foreign_task_reads_as_absent [OF sample_manager_def, of sample_waiting "''a''" other_owner]
  by (simp add: sample_waiting_eq other_owner_def sample_owner_def)

lemma contains_key_iff: "contains_key k m \<longleftrightarrow> k \<in> set (keys m)"
  by (simp add: contains_key_def map_of_eq_None_iff)

lemma validate_input_keys_iff:
  "validate_input_keys tid requests responses = Inr () \<longleftrightarrow> set (keys requests) = set (keys responses)"
  by (auto simp: validate_input_keys_def contains_key_iff find_None_iff_all split: option.split
      dest: find_Some_mem simp del: set_map)

lemma validate_input_keys_Inl:
  "validate_input_keys tid requests responses \<noteq> Inr () \<Longrightarrow>
   \<exists>reason. validate_input_keys tid requests responses = Inl (InvalidInput tid reason)"
  by (simp add: validate_input_keys_def split: option.splits)

text \<open>
  Client input is accepted exactly when it answers every outstanding request and nothing
  else: the two key sets are equal. Otherwise the refusal names the task.
\<close>

theorem validate_input_keys_exact:
  "(validate_input_keys tid requests responses = Inr () \<longleftrightarrow> set (keys requests) = set (keys responses))
   \<and> (set (keys requests) = set (keys responses)
      \<or> (\<exists>reason. validate_input_keys tid requests responses = Inl (InvalidInput tid reason)))"
  using validate_input_keys_iff [of tid requests responses] validate_input_keys_Inl [of tid requests responses]
  by blast

text \<open>Whether the responses answer the task's outstanding requests.\<close>

definition answers :: "detailed_task \<Rightarrow> input_responses \<Rightarrow> bool" where
  "answers d responses \<longleftrightarrow>
     (\<exists>requests. d_payload d = PInputRequired requests \<and> set (keys requests) = set (keys responses))"

lemma input_change_accepts:
  "answers d responses \<Longrightarrow> input_change stamp tid responses d
     = Inr (detailed_new ((d_task d)\<lparr>t_updated_at := stamp\<rparr>) PWorking)"
  by (auto simp: answers_def input_change_def validate_input_keys_iff [THEN iffD2] simp del: set_map)

lemma input_change_refuses:
  assumes "\<not> answers d responses"
  shows "\<exists>e. input_change stamp tid responses d = Inl e
    \<and> (e = InvalidState tid (d_status d) \<or> (\<exists>reason. e = InvalidInput tid reason))"
proof (cases "d_payload d")
  case (PInputRequired requests)
  with assms have "set (keys requests) \<noteq> set (keys responses)"
    unfolding answers_def by metis
  then have "validate_input_keys tid requests responses \<noteq> Inr ()"
    unfolding validate_input_keys_iff .
  then obtain reason where "validate_input_keys tid requests responses = Inl (InvalidInput tid reason)"
    using validate_input_keys_Inl by blast
  with PInputRequired show ?thesis by (simp add: input_change_def)
qed (simp_all add: input_change_def)

text \<open>Whether the operation waiting for the input can be reached: its run's channel is open
  here, or a bus takes the signal.\<close>

definition reachable :: "'s task_manager \<Rightarrow> task_id \<Rightarrow> input_responses \<Rightarrow> 's task_world \<Rightarrow> bool" where
  "reachable m tid responses w \<longleftrightarrow>
     (case map_of (w_runs w) tid of
        Some r \<Rightarrow> w_open w r
      | None \<Rightarrow> (case m_bus m of None \<Rightarrow> False
                 | Some bus \<Rightarrow> bus (w_published w) (SigInput tid responses) = Inr ()))"

text \<open>
  Every outcome of a client's input to its own live task. With no run here and no bus it is
  refused as detached; responses that do not answer the outstanding requests are refused; both
  leave everything as it was. Otherwise the task is working again and the responses are queued
  for the run, or published, exactly once; and when no one could take them the task is failed,
  never left working with nobody working it.
\<close>

theorem apply_input_outcomes:
  assumes m: "m = memory_manager ts opts bus" and d: "map_of (w_store w) tid = Some (owner, d)"
    and live: "\<forall>at \<in> {at1, at2, at3}. \<not> is_expired ts at (d_task d)"
    and result: "apply_input m at1 at2 at3 owner tid responses w = (w', res)"
  shows
    "if map_of (w_runs w) tid = None \<and> bus = None then w' = w \<and> res = Inl (Detached tid)
     else if \<not> answers d responses then
       w' = w \<and> (res = Inl (InvalidState tid (d_status d)) \<or> (\<exists>reason. res = Inl (InvalidInput tid reason)))
     else if reachable m tid responses w then
       (\<exists>working. res = Inr working \<and> d_payload working = PWorking \<and> same_task d working
          \<and> map_of (w_store w') tid = Some (owner, working))
       \<and> (case map_of (w_runs w) tid of
            Some r \<Rightarrow> w_queue w' r = w_queue w r @ [responses] \<and> w_published w' = w_published w
          | None \<Rightarrow> w_published w' = SigInput tid responses # w_published w)
     else res = Inl (Detached tid) \<and> w_published w' = w_published w \<and> w_queue w' = w_queue w
       \<and> (\<exists>failed. map_of (w_store w') tid = Some (owner, failed) \<and> d_status failed = Failed)"
proof -
  let ?inputs = "map_of (w_runs w) tid"
  let ?working = "detailed_new ((d_task d)\<lparr>t_updated_at := stamp_at m at2\<rparr>) PWorking"
  let ?s = "AList.update tid (owner, ?working) (w_store w)"
  have same: "same_task d ?working" by (simp add: same_task_def detailed_new_def)
  have get: "task_get m at1 owner tid w = Inr d"
    using m d live by (simp add: store_simps)
  show ?thesis
  proof (cases "?inputs = None \<and> bus = None")
    case True
    with get m result show ?thesis by (simp add: apply_input_def apply_look_def Let_def)
  next
    case attached: False
    then have look: "apply_look m at1 owner tid w = Inr ?inputs"
      using get m by (auto simp: apply_look_def Let_def)
    show ?thesis
    proof (cases "answers d responses")
      case False
      then obtain e where e: "input_change (stamp_at m at2) tid responses d = Inl e"
        "e = InvalidState tid (d_status d) \<or> (\<exists>reason. e = InvalidInput tid reason)"
        using input_change_refuses by blast
      then have "apply_record m at2 owner tid responses w = (w, Inl e)"
        using m d live by (simp add: apply_record_def store_simps mem_update_def)
      with look result False attached e(2) show ?thesis by (auto simp: apply_input_def)
    next
      case accepted: True
      then have "apply_record m at2 owner tid responses w = (w\<lparr>w_store := ?s\<rparr>, Inr ?working)"
        using m d live by (simp add: apply_record_def store_simps mem_update_def input_change_accepts)
      with look result have hand: "apply_hand m at3 owner tid responses ?inputs ?working (w\<lparr>w_store := ?s\<rparr>)
          = (w', res)"
        by (simp add: apply_input_def)
      have failed: "\<exists>f. task_fail m at3 owner tid err (w\<lparr>w_store := ?s\<rparr>)
          = (w\<lparr>w_store := AList.update tid (owner, f) ?s\<rparr>, Inr f) \<and> d_status f = Failed" for err
        using m live same_task_expired [OF same, of ts at3]
        by (auto simp: task_fail_def transition_def store_simps mem_update_def transition_change_def
            map_of_update)
      show ?thesis
      proof (cases ?inputs)
        case (Some r)
        with hand failed [of "unhanded_error True"] attached accepted same show ?thesis
          by (auto simp: apply_hand_def hand_over_def send_input_def reachable_def map_of_update
              split: if_splits)
      next
        case None
        with attached obtain b where b: "bus = Some b" by auto
        with None hand failed [of "unhanded_error False"] accepted same m show ?thesis
          by (cases "b (w_published w) (SigInput tid responses)")
            (auto simp: apply_hand_def hand_over_def publish_def reachable_def map_of_update)
      qed
    qed
  qed
qed

lemma apply_input_outcomes_witness:
  "\<exists>w' working. apply_input sample_manager 1 1 1 sample_owner ''a'' [(''name'', JString ''x'')] sample_waiting
     = (w', Inr working) \<and> w_queue w' 0 = [[(''name'', JString ''x'')]]"
proof -
  obtain w' res where r: "apply_input sample_manager 1 1 1 sample_owner ''a'' [(''name'', JString ''x'')] sample_waiting
      = (w', res)"
    by (cases "apply_input sample_manager 1 1 1 sample_owner ''a'' [(''name'', JString ''x'')] sample_waiting")
  have "map_of (w_store sample_waiting) ''a'' = Some (sample_owner,
      detailed_new (sample_task\<lparr>t_updated_at := ''''\<rparr>) (PInputRequired [(''name'', JNull)]))"
    by (simp add: sample_waiting_eq)
  moreover have "\<forall>at \<in> {1, 1, 1}. \<not> is_expired tally at
      (d_task (detailed_new (sample_task\<lparr>t_updated_at := ''''\<rparr>) (PInputRequired [(''name'', JNull)])))"
    using sample_live [where now = 1 and u = "''''" and s = InputRequired] by (simp add: detailed_new_def)
  ultimately show ?thesis
    using apply_input_outcomes [OF sample_manager_def _ _ r] r
    by (auto simp: sample_waiting_eq answers_def reachable_def)
qed

lemma signal_cancelled_fires:
  "map_of (w_runs w) tid = Some r \<Longrightarrow> signal_cancelled m tid w = w\<lparr>w_fired := r # w_fired w\<rparr>"
  by (simp add: signal_cancelled_def deliver_def)

lemma signal_cancelled_publishes:
  "map_of (w_runs w) tid = None \<Longrightarrow> signal_cancelled m tid w = fst (publish m (SigCancelled tid) w)"
  by (simp add: signal_cancelled_def deliver_def)

lemma signal_cancelled_frame:
  "w_store (signal_cancelled m tid w) = w_store w \<and> w_runs (signal_cancelled m tid w) = w_runs w
   \<and> w_queue (signal_cancelled m tid w) = w_queue w \<and> w_open (signal_cancelled m tid w) = w_open w"
  by (cases "map_of (w_runs w) tid")
    (auto simp: signal_cancelled_fires signal_cancelled_publishes publish_def split: option.split sum.split)

lemma signal_cancelled_fired:
  "set (w_fired (signal_cancelled m tid w)) = set (w_fired w) \<union> set_option (map_of (w_runs w) tid)"
  by (cases "map_of (w_runs w) tid")
    (auto simp: signal_cancelled_fires signal_cancelled_publishes publish_def split: option.split sum.split)

text \<open>
  Cancelling one's own live task records it, then reaches the operation: its token is
  fired when it runs here, and otherwise the bus is offered the cancellation. From then on the
  operation's own completion is refused, whether or not the signal reached it. A settled task is
  not cancelled again, and nothing is fired.
\<close>

theorem cancel_records_and_signals:
  assumes m: "m = memory_manager ts opts bus" and d: "map_of (w_store w) tid = Some (owner, d)"
    and live: "\<not> is_expired ts now (d_task d)" "\<not> is_expired ts later (d_task d)"
    and result: "task_cancel m now owner tid w = (w', res)"
  shows
    "if is_terminal (d_status d) then w' = w \<and> res = Inl (InvalidState tid (d_status d))
     else (\<exists>c. res = Inr c \<and> d_payload c = PCancelled \<and> same_task d c
            \<and> map_of (w_store w') tid = Some (owner, c))
       \<and> (case map_of (w_runs w) tid of
            Some r \<Rightarrow> w_fired w' = r # w_fired w \<and> w_published w' = w_published w
          | None \<Rightarrow> w_fired w' = w_fired w \<and>
              (case bus of None \<Rightarrow> True
               | Some b \<Rightarrow> b (w_published w) (SigCancelled tid) = Inr ()
                   \<longrightarrow> w_published w' = SigCancelled tid # w_published w))
       \<and> snd (task_complete m later owner tid answer w') = Inl (InvalidState tid Cancelled)"
proof (cases "is_terminal (d_status d)")
  case True
  then have "transition m now owner tid PCancelled w = (w, Inl (InvalidState tid (d_status d)))"
    using m d live by (simp add: transition_def store_simps mem_update_def transition_change_def)
  with True result show ?thesis by (simp add: task_cancel_def)
next
  case False
  let ?c = "detailed_new ((d_task d)\<lparr>t_updated_at := stamp_at m now\<rparr>) PCancelled"
  let ?w = "w\<lparr>w_store := AList.update tid (owner, ?c) (w_store w)\<rparr>"
  have "transition m now owner tid PCancelled w = (?w, Inr ?c)"
    using m d live False by (simp add: transition_def store_simps mem_update_def transition_change_def)
  with result have w': "w' = signal_cancelled m tid ?w" and res: "res = Inr ?c"
    by (simp_all add: task_cancel_def)
  have same: "same_task d ?c" by (simp add: same_task_def detailed_new_def)
  have look: "map_of (w_store w') tid = Some (owner, ?c)"
    using signal_cancelled_frame [of m tid ?w] w' by (simp add: map_of_update)
  have "snd (task_complete m later owner tid answer w') = Inl (InvalidState tid Cancelled)"
    using m look live(2) same_task_expired [OF same, of ts later]
    by (simp add: task_complete_def transition_def store_simps mem_update_def transition_change_def)
  moreover have "case map_of (w_runs w) tid of
            Some r \<Rightarrow> w_fired w' = r # w_fired w \<and> w_published w' = w_published w
          | None \<Rightarrow> w_fired w' = w_fired w \<and>
              (case bus of None \<Rightarrow> True
               | Some b \<Rightarrow> b (w_published w) (SigCancelled tid) = Inr ()
                   \<longrightarrow> w_published w' = SigCancelled tid # w_published w)"
    using w' m by (cases "map_of (w_runs w) tid")
      (simp_all add: signal_cancelled_fires signal_cancelled_publishes publish_def split: option.split sum.split)
  ultimately show ?thesis using False res same look by auto
qed

lemma cancel_records_and_signals_witness:
  "\<exists>w' c. task_cancel sample_manager 1 sample_owner ''a'' sample_waiting = (w', Inr c) \<and> w_fired w' = [0]"
proof -
  let ?d = "detailed_new (sample_task\<lparr>t_updated_at := ''''\<rparr>) (PInputRequired [(''name'', JNull)])"
  obtain w' res where r: "task_cancel sample_manager 1 sample_owner ''a'' sample_waiting = (w', res)"
    by (cases "task_cancel sample_manager 1 sample_owner ''a'' sample_waiting")
  have d: "map_of (w_store sample_waiting) ''a'' = Some (sample_owner, ?d)"
    by (simp add: sample_waiting_eq)
  have live: "\<not> is_expired tally 1 (d_task ?d)"
    using sample_live [where now = 1 and u = "''''" and s = InputRequired] by (simp add: detailed_new_def)
  from cancel_records_and_signals [OF sample_manager_def d live live r] r
  show ?thesis by (auto simp: sample_waiting_eq)
qed

lemma fold_signal_cancelled:
  "w_store (fold (signal_cancelled m) ids w) = w_store w \<and> w_runs (fold (signal_cancelled m) ids w) = w_runs w
   \<and> set (w_fired (fold (signal_cancelled m) ids w))
      = set (w_fired w) \<union> (\<Union>i \<in> set ids. set_option (map_of (w_runs w) i))"
proof (induction ids arbitrary: w)
  case (Cons i ids)
  show ?case
    using Cons.IH [of "signal_cancelled m i w"] signal_cancelled_frame [of m i w]
      signal_cancelled_fired [of m i w]
    by auto
qed simp

text \<open>
  A sweep of the manager drops exactly the expired tasks and stops their operations: the
  tokens it fires are those of the runs here whose task it dropped, no more and no fewer, and
  what it answers is how many it dropped.
\<close>

theorem sweep_cancels_dropped_runs:
  assumes m: "m = memory_manager ts opts bus" and ok: "distinct_keys (w_store w)"
    and result: "sweep_expired m now w = (w', res)"
  shows "(\<forall>i. map_of (w_store w') i = (case map_of (w_store w) i of None \<Rightarrow> None
       | Some (p, d) \<Rightarrow> if is_expired ts now (d_task d) then None else Some (p, d)))
    \<and> set (w_fired w') = set (w_fired w)
       \<union> {r. \<exists>i. map_of (w_store w) i \<noteq> None \<and> map_of (w_store w') i = None
              \<and> map_of (w_runs w) i = Some r}
    \<and> res = Inr (card {i. map_of (w_store w) i \<noteq> None \<and> map_of (w_store w') i = None})"
proof -
  let ?exp = "\<lambda>i. \<exists>p d. map_of (w_store w) i = Some (p, d) \<and> is_expired ts now (d_task d)"
  obtain s ids where sw: "mem_sweep ts now (w_store w) = (s, Inr ids)" and dist: "distinct ids"
    and ids: "\<forall>i. i \<in> set ids \<longleftrightarrow> ?exp i"
    using mem_sweep_ids [OF ok, of ts now] by (metis prod.collapse)
  let ?v = "w\<lparr>w_store := s\<rparr>"
  have w': "w' = fold (signal_cancelled m) ids ?v" "res = Inr (length ids)"
    using result sw m by (simp_all add: sweep_expired_def in_memory_def)
  have store: "w_store w' = s"
    using w' fold_signal_cancelled [of m ids ?v] by simp
  have look: "map_of (w_store w') i = (case map_of (w_store w) i of None \<Rightarrow> None
       | Some (p, d) \<Rightarrow> if is_expired ts now (d_task d) then None else Some (p, d))" for i
    using map_of_mem_sweep [OF ok, of ts now i] sw store by simp
  have gone: "map_of (w_store w) i \<noteq> None \<and> map_of (w_store w') i = None \<longleftrightarrow> i \<in> set ids" for i
    using look [of i] ids by (auto split: option.splits if_splits)
  have "set (w_fired w') = set (w_fired w) \<union> (\<Union>i \<in> set ids. set_option (map_of (w_runs w) i))"
    using fold_signal_cancelled [of m ids ?v] w' by simp
  also have "(\<Union>i \<in> set ids. set_option (map_of (w_runs w) i))
      = {r. \<exists>i. map_of (w_store w) i \<noteq> None \<and> map_of (w_store w') i = None \<and> map_of (w_runs w) i = Some r}"
    using gone by (auto simp: elem_set) blast+
  finally show ?thesis
    using look w'(2) gone distinct_card [OF dist] by (simp add: set_eq_iff [symmetric])
qed

lemma sweep_cancels_dropped_runs_witness:
  "\<exists>w'. sweep_expired sample_manager 60001000000 sample_started = (w', Inr 1) \<and> set (w_fired w') = {0}"
proof -
  obtain w' res where r: "sweep_expired sample_manager 60001000000 sample_started = (w', res)"
    by (cases "sweep_expired sample_manager 60001000000 sample_started")
  have d: "distinct_keys (w_store sample_started)" by (simp add: sample_started_eq)
  have exp: "is_expired tally 60001000000 (d_task (detailed_new sample_task PWorking))"
    by (simp add: is_expired_def tally_def task_new_def num_milliseconds_def ttl_as_i64_def
        i64_max_def sample_task_def detailed_new_def)
  note facts = sweep_cancels_dropped_runs [OF sample_manager_def d r]
  then have gone: "{i. map_of (w_store sample_started) i \<noteq> None \<and> map_of (w_store w') i = None} = {''a''}"
    using exp by (auto simp: sample_started_eq split: if_splits)
  with facts have res: "res = Inr 1" by simp
  have "{r. \<exists>i. map_of (w_store sample_started) i \<noteq> None \<and> map_of (w_store w') i = None
      \<and> map_of (w_runs sample_started) i = Some r} = {0}"
    using gone by (auto simp: sample_started_eq set_eq_iff)
  with facts have "set (w_fired w') = {0}" by (simp add: sample_started_eq)
  with r res show ?thesis by blast
qed



end
