(* ===== verification/Caller_Key.thy ===== *)
theory Caller_Key
  imports Session "HOL-Library.Word"
begin

text \<open>
  Who a message came from or went to (\<^verbatim>\<open>CallerKey\<close> in \<^verbatim>\<open>src/mcp/client_channel.rs\<close>): the caller
  identity the auth hook resolved, and the channel that tells apart two callers of the same
  identity. The fingerprint of a bearer credential is a keyed hash whose key is drawn once per
  process: an argument.
\<close>

datatype channel =
    Unconnected
  | Connection "64 word"
  | SessionChannel string
  | Sessionless "64 word option"

record caller_key =
  ck_user :: "string option"
  ck_tenant :: "string option"
  ck_channel :: channel

definition with_channel :: "identity \<Rightarrow> channel \<Rightarrow> caller_key" where
  "with_channel ctx channel =
     \<lparr>ck_user = user_id ctx, ck_tenant = tenant_id ctx, ck_channel = channel\<rparr>"

definition key_unconnected :: "identity \<Rightarrow> caller_key" where
  "key_unconnected ctx = with_channel ctx Unconnected"

text \<open>A connection takes the next serial of the process-wide counter, which wraps as \<^verbatim>\<open>fetch_add\<close>
  does.\<close>

definition key_connection :: "64 word \<Rightarrow> identity \<Rightarrow> 64 word \<times> caller_key" where
  "key_connection next_connection ctx =
     (next_connection + 1, with_channel ctx (Connection next_connection))"

definition key_http ::
  "(string \<Rightarrow> 64 word) \<Rightarrow> identity \<Rightarrow> string option \<Rightarrow> string option \<Rightarrow> caller_key" where
  "key_http fingerprint ctx session_id credential =
     with_channel ctx
       (case session_id of
          None \<Rightarrow> Sessionless (map_option fingerprint credential)
        | Some sid \<Rightarrow> SessionChannel sid)"

definition tells_callers_apart :: "caller_key \<Rightarrow> bool" where
  "tells_callers_apart key \<longleftrightarrow>
     (case ck_channel key of Sessionless _ \<Rightarrow> False | _ \<Rightarrow> True)
     \<or> ck_user key \<noteq> None \<or> ck_tenant key \<noteq> None"

lemma key_http_eq_iff:
  "key_http f ctx sid cred = key_http f ctx' sid' cred' \<longleftrightarrow>
     user_id ctx = user_id ctx' \<and> tenant_id ctx = tenant_id ctx' \<and> sid = sid'
     \<and> (sid = None \<longrightarrow> map_option f cred = map_option f cred')"
  by (auto simp: key_http_def with_channel_def split: option.splits)

text \<open>Two connections opened within \<open>2 ^ 64\<close> of each other have different keys.\<close>

lemma key_connection_distinct:
  assumes "0 < d" "d < 2 ^ 64"
  shows "snd (key_connection (n + of_nat d) ctx) \<noteq> snd (key_connection n ctx')"
proof -
  have "of_nat d \<noteq> (0 :: 64 word)"
    using assms by (simp add: word_of_nat_eq_0_iff nat_dvd_not_less)
  then show ?thesis by (simp add: key_connection_def with_channel_def)
qed

end
