(* ===== verification/Json_Rpc.thy ===== *)
theory Json_Rpc
  imports Json
begin

text \<open>
  JSON-RPC 2.0 messages (\<^verbatim>\<open>src/mcp/protocol.rs\<close>) and the error codes (\<^verbatim>\<open>src/error.rs\<close>): the
  envelopes, their constructors, their wire form, and the reader that tells requests,
  notifications, responses and malformed messages apart.

  Parsing text to a JSON value is the \<^verbatim>\<open>serde_json\<close> package's work: the parser is an argument,
  which answers a value or the text of its error.
\<close>

definition PARSE_ERROR :: int where "PARSE_ERROR = - 32700"
definition INVALID_REQUEST :: int where "INVALID_REQUEST = - 32600"
definition METHOD_NOT_FOUND :: int where "METHOD_NOT_FOUND = - 32601"
definition INVALID_PARAMS :: int where "INVALID_PARAMS = - 32602"
definition INTERNAL_ERROR :: int where "INTERNAL_ERROR = - 32603"
definition UNAUTHORIZED :: int where "UNAUTHORIZED = - 32001"
definition RATE_LIMITED :: int where "RATE_LIMITED = - 32002"
definition HEADER_MISMATCH :: int where "HEADER_MISMATCH = - 32020"
definition MISSING_REQUIRED_CLIENT_CAPABILITY :: int where
  "MISSING_REQUIRED_CLIENT_CAPABILITY = - 32021"
definition UNSUPPORTED_PROTOCOL_VERSION :: int where "UNSUPPORTED_PROTOCOL_VERSION = - 32022"

lemmas error_codes = PARSE_ERROR_def INVALID_REQUEST_def METHOD_NOT_FOUND_def INVALID_PARAMS_def
  INTERNAL_ERROR_def UNAUTHORIZED_def RATE_LIMITED_def HEADER_MISMATCH_def
  MISSING_REQUIRED_CLIENT_CAPABILITY_def UNSUPPORTED_PROTOCOL_VERSION_def

definition JSONRPC_VERSION :: string where "JSONRPC_VERSION = ''2.0''"

record rpc_request =
  rq_jsonrpc :: string
  rq_method :: string
  rq_params :: "json option"
  rq_id :: "json option"
  rq_auth :: "string option"
  rq_headers :: "json_map option"
  rq_metadata :: "(string, string) table"

record rpc_error =
  e_code :: int
  e_message :: string
  e_data :: "json option"

record rpc_response =
  rs_jsonrpc :: string
  rs_result :: "json option"
  rs_error :: "rpc_error option"
  rs_id :: "json option"

datatype rpc_message = Request rpc_request | Response rpc_response

subsection \<open>Constructors\<close>

definition request_with_id :: "string \<Rightarrow> json option \<Rightarrow> json \<Rightarrow> rpc_request" where
  "request_with_id method params rid =
     \<lparr>rq_jsonrpc = JSONRPC_VERSION, rq_method = method, rq_params = params, rq_id = Some rid,
      rq_auth = None, rq_headers = None, rq_metadata = []\<rparr>"

definition request_new :: "string \<Rightarrow> json option \<Rightarrow> rpc_request" where
  "request_new method params = request_with_id method params (JNumber (PosInt 1))"

definition notification :: "string \<Rightarrow> json option \<Rightarrow> rpc_request" where
  "notification method params =
     \<lparr>rq_jsonrpc = JSONRPC_VERSION, rq_method = method, rq_params = params, rq_id = None,
      rq_auth = None, rq_headers = None, rq_metadata = []\<rparr>"

definition with_metadata :: "string \<Rightarrow> string \<Rightarrow> rpc_request \<Rightarrow> rpc_request" where
  "with_metadata key v r = r\<lparr>rq_metadata := AList.update key v (rq_metadata r)\<rparr>"

definition get_metadata :: "rpc_request \<Rightarrow> string \<Rightarrow> string option" where
  "get_metadata r key = map_of (rq_metadata r) key"

definition error_new :: "int \<Rightarrow> string \<Rightarrow> rpc_error" where
  "error_new code message = \<lparr>e_code = code, e_message = message, e_data = None\<rparr>"

definition error_with_data :: "int \<Rightarrow> string \<Rightarrow> json \<Rightarrow> rpc_error" where
  "error_with_data code message payload =
     \<lparr>e_code = code, e_message = message, e_data = Some payload\<rparr>"

definition response_success :: "json option \<Rightarrow> json \<Rightarrow> rpc_response" where
  "response_success rid res =
     \<lparr>rs_jsonrpc = JSONRPC_VERSION, rs_result = Some res, rs_error = None, rs_id = rid\<rparr>"

definition response_error :: "json option \<Rightarrow> int \<Rightarrow> string \<Rightarrow> rpc_response" where
  "response_error rid code message =
     \<lparr>rs_jsonrpc = JSONRPC_VERSION, rs_result = None, rs_error = Some (error_new code message),
      rs_id = rid\<rparr>"

definition response_error_with_data :: "json option \<Rightarrow> int \<Rightarrow> string \<Rightarrow> json \<Rightarrow> rpc_response" where
  "response_error_with_data rid code message payload =
     \<lparr>rs_jsonrpc = JSONRPC_VERSION, rs_result = None,
      rs_error = Some (error_with_data code message payload), rs_id = rid\<rparr>"

definition is_success :: "rpc_response \<Rightarrow> bool" where
  "is_success r \<longleftrightarrow> rs_error r = None \<and> rs_result r \<noteq> None"

definition is_error :: "rpc_response \<Rightarrow> bool" where
  "is_error r \<longleftrightarrow> rs_error r \<noteq> None"

text \<open>The headers naming the authority the client dialed, most telling first
  (\<^verbatim>\<open>src/mcp/resource_metadata/mod.rs\<close>).\<close>

definition DIALED_HOST_HEADERS :: "string list" where
  "DIALED_HOST_HEADERS = [''x-forwarded-host'', ''host'']"

fun find_map :: "('a \<Rightarrow> 'b option) \<Rightarrow> 'a list \<Rightarrow> 'b option" where
  "find_map f [] = None"
| "find_map f (x # xs) = (case f x of Some y \<Rightarrow> Some y | None \<Rightarrow> find_map f xs)"

definition dialed_host :: "rpc_request \<Rightarrow> string option" where
  "dialed_host r =
     (case rq_headers r of
        None \<Rightarrow> None
      | Some headers \<Rightarrow>
          find_map (\<lambda>name. Option.bind (map_of headers name) as_str) DIALED_HOST_HEADERS)"

subsection \<open>Reading\<close>

fun is_request_id :: "json \<Rightarrow> bool" where
  "is_request_id (JString _) = True"
| "is_request_id (JNumber (PosInt _)) = True"
| "is_request_id (JNumber (NegInt _)) = True"
| "is_request_id _ = False"

definition is_null :: "json \<Rightarrow> bool" where
  "is_null v \<longleftrightarrow> v = JNull"

definition is_array :: "json \<Rightarrow> bool" where
  "is_array v = (case v of JArray _ \<Rightarrow> True | _ \<Rightarrow> False)"

definition invalid_request :: "string \<Rightarrow> rpc_response" where
  "invalid_request reason = response_error None INVALID_REQUEST reason"

text \<open>The derived deserializers, which read an optional member's \<^verbatim>\<open>null\<close> as absent. What is
  wrong is reported by the member's name, where \<^verbatim>\<open>serde\<close> writes a sentence.\<close>

definition de_string :: "string \<Rightarrow> json_map \<Rightarrow> (string, string) result" where
  "de_string key m = ok_or (Option.bind (map_of m key) as_str) key"

definition de_option :: "string \<Rightarrow> json_map \<Rightarrow> json option" where
  "de_option key m = (case map_of m key of Some JNull \<Rightarrow> None | v \<Rightarrow> v)"

definition as_i32 :: "json \<Rightarrow> int option" where
  "as_i32 v =
     (case v of
        JNumber (PosInt n) \<Rightarrow> if int n \<le> 2147483647 then Some (int n) else None
      | JNumber (NegInt n) \<Rightarrow> if - 2147483648 \<le> n then Some n else None
      | _ \<Rightarrow> None)"

definition request_of_fields :: "json_map \<Rightarrow> (string, rpc_request) result" where
  "request_of_fields m =
     result_bind (de_string ''jsonrpc'' m) (\<lambda>version.
     result_bind (de_string ''method'' m) (\<lambda>method.
       Inr \<lparr>rq_jsonrpc = version, rq_method = method, rq_params = de_option ''params'' m,
            rq_id = de_option ''id'' m, rq_auth = None, rq_headers = None, rq_metadata = []\<rparr>))"

definition error_of_json :: "json \<Rightarrow> (string, rpc_error) result" where
  "error_of_json v =
     result_bind (ok_or (struct_fields [''code'', ''message'', ''data''] [] v) ''error'') (\<lambda>m.
     result_bind (ok_or (Option.bind (map_of m ''code'') as_i32) ''code'') (\<lambda>code.
     result_bind (de_string ''message'' m) (\<lambda>message.
       Inr \<lparr>e_code = code, e_message = message, e_data = de_option ''data'' m\<rparr>)))"

definition response_of_fields :: "json_map \<Rightarrow> (string, rpc_response) result" where
  "response_of_fields m =
     result_bind (de_string ''jsonrpc'' m) (\<lambda>version.
     result_bind
       (case de_option ''error'' m of
          None \<Rightarrow> Inr None
        | Some e \<Rightarrow> result_bind (error_of_json e) (\<lambda>err. Inr (Some err))) (\<lambda>err.
       Inr \<lparr>rs_jsonrpc = version, rs_result = de_option ''result'' m, rs_error = err,
            rs_id = de_option ''id'' m\<rparr>))"

definition map_invalid :: "(string, 'a) result \<Rightarrow> (rpc_response, 'a) result" where
  "map_invalid r =
     (case r of Inl e \<Rightarrow> Inl (invalid_request (''Invalid Request: '' @ e)) | Inr x \<Rightarrow> Inr x)"

definition parse_response :: "json_map \<Rightarrow> (rpc_response, rpc_message) result" where
  "parse_response m =
     (let id_ok = (case map_of m ''id'' of None \<Rightarrow> False | Some rid \<Rightarrow> is_null rid \<or> is_request_id rid) in
      if \<not> id_ok \<or> contains_key ''result'' m = contains_key ''error'' m \<or> \<not> contains_key ''jsonrpc'' m
      then Inl (invalid_request
        (''Invalid Request: a message without a method must be a response, with an id ''
         @ ''and exactly one of result and error''))
      else map_invalid (result_bind (response_of_fields m) (\<lambda>r. Inr (Response r))))"

definition parse_message ::
  "(string \<Rightarrow> (string, json) result) \<Rightarrow> string \<Rightarrow> (rpc_response, rpc_message) result" where
  "parse_message read_json raw =
     (case read_json raw of
        Inl e \<Rightarrow> Inl (response_error None PARSE_ERROR (''Parse error: '' @ e))
      | Inr v \<Rightarrow>
          (case v of
             JObject m \<Rightarrow>
               if \<not> contains_key ''method'' m then parse_response m
               else if (case map_of m ''id'' of None \<Rightarrow> False | Some rid \<Rightarrow> \<not> is_request_id rid)
               then Inl (invalid_request ''Invalid Request: id must be a string or an integer'')
               else map_invalid (result_bind (request_of_fields m) (\<lambda>r. Inr (Request r)))
           | _ \<Rightarrow>
               Inl (invalid_request
                 (if is_array v then ''Invalid Request: batch requests are not supported''
                  else ''Invalid Request: a request must be a JSON object''))))"

definition parse_request ::
  "(string \<Rightarrow> (string, json) result) \<Rightarrow> string \<Rightarrow> (rpc_response, rpc_request) result" where
  "parse_request read_json raw =
     result_bind (parse_message read_json raw) (\<lambda>message.
       case message of
         Request r \<Rightarrow> Inr r
       | Response _ \<Rightarrow>
           Inl (invalid_request ''Invalid Request: a response answers no request this reader sent''))"

subsection \<open>Writing\<close>

definition optional :: "string \<Rightarrow> json option \<Rightarrow> json_map" where
  "optional key x = (case x of None \<Rightarrow> [] | Some v \<Rightarrow> [(key, v)])"

definition request_to_json :: "rpc_request \<Rightarrow> json" where
  "request_to_json r = JObject
     ([(''jsonrpc'', JString (rq_jsonrpc r)), (''method'', JString (rq_method r))]
      @ optional ''params'' (rq_params r) @ optional ''id'' (rq_id r)
      @ optional ''auth'' (map_option JString (rq_auth r))
      @ optional ''headers'' (map_option JObject (rq_headers r))
      @ (if rq_metadata r = [] then []
         else [(''metadata'', JObject (map (\<lambda>(k, v). (k, JString v)) (rq_metadata r)))]))"

definition i32_json :: "int \<Rightarrow> json" where
  "i32_json n = JNumber (if 0 \<le> n then PosInt (nat n) else NegInt n)"

definition error_to_json :: "rpc_error \<Rightarrow> json" where
  "error_to_json e = JObject
     ([(''code'', i32_json (e_code e)), (''message'', JString (e_message e))]
      @ optional ''data'' (e_data e))"

definition response_to_json :: "rpc_response \<Rightarrow> json" where
  "response_to_json r = JObject
     ([(''jsonrpc'', JString (rs_jsonrpc r))]
      @ optional ''result'' (rs_result r)
      @ optional ''error'' (map_option error_to_json (rs_error r))
      @ [(''id'', case rs_id r of None \<Rightarrow> JNull | Some rid \<Rightarrow> rid)])"

subsection \<open>Properties\<close>

lemma map_invalid_Inr [simp]: "map_invalid r = Inr x \<longleftrightarrow> r = Inr x"
  by (simp add: map_invalid_def split: sum.split)

lemma map_invalid_Inl: "map_invalid r = Inl e \<longleftrightarrow> (\<exists>why. r = Inl why \<and> e = invalid_request (''Invalid Request: '' @ why))"
  by (auto simp: map_invalid_def split: sum.split)

lemma parse_message_Request:
  "parse_message read_json raw = Inr (Request r) \<longleftrightarrow>
     (\<exists>m. read_json raw = Inr (JObject m) \<and> contains_key ''method'' m
        \<and> (case map_of m ''id'' of None \<Rightarrow> True | Some rid \<Rightarrow> is_request_id rid)
        \<and> request_of_fields m = Inr r)"
  by (auto simp: parse_message_def parse_response_def Let_def result_bind_Inr_iff
      split: sum.splits json.splits option.splits if_splits)

lemma parse_message_Response:
  "parse_message read_json raw = Inr (Response r) \<longleftrightarrow>
     (\<exists>m rid. read_json raw = Inr (JObject m) \<and> \<not> contains_key ''method'' m \<and> contains_key ''jsonrpc'' m
        \<and> map_of m ''id'' = Some rid \<and> (is_null rid \<or> is_request_id rid)
        \<and> contains_key ''result'' m \<noteq> contains_key ''error'' m \<and> response_of_fields m = Inr r)"
  by (auto simp: parse_message_def parse_response_def Let_def result_bind_Inr_iff
      split: sum.splits json.splits option.splits if_splits)

text \<open>
  Nothing a peer writes in a message body reaches the fields the transport sets: a parsed
  request carries no credential, no headers and no metadata of the body's, and is a notification
  exactly when the body has no id at all; an id it has is a string or an integer.
\<close>

theorem parsed_request_is_clean:
  assumes "read_json raw = Inr (JObject m)" and "parse_message read_json raw = Inr (Request r)"
  shows "rq_auth r = None \<and> rq_headers r = None \<and> rq_metadata r = []
    \<and> rq_id r = map_of m ''id'' \<and> (rq_id r = None \<longleftrightarrow> \<not> contains_key ''id'' m)
    \<and> (case rq_id r of None \<Rightarrow> True | Some rid \<Rightarrow> is_request_id rid)
    \<and> map_of m ''method'' = Some (JString (rq_method r))"
proof -
  have r: "request_of_fields m = Inr r"
    and rid: "case map_of m ''id'' of None \<Rightarrow> True | Some rid \<Rightarrow> is_request_id rid"
    using assms by (auto simp: parse_message_Request)
  have "de_option ''id'' m = map_of m ''id''"
    using rid by (auto simp: de_option_def split: option.splits json.splits)
  moreover have "map_of m ''method'' = Some (JString (rq_method r))"
    using r by (auto simp: request_of_fields_def de_string_def result_bind_Inr_iff ok_or_def as_str_def
        split: option.splits json.splits Option.bind_splits)
  ultimately show ?thesis
    using r rid by (auto simp: request_of_fields_def result_bind_Inr_iff contains_key_def)
qed

lemma parsed_request_is_clean_witness:
  "parse_message (\<lambda>_. Inr (JObject [(''jsonrpc'', JString ''2.0''), (''method'', JString ''ping''),
       (''auth'', JString ''forged'')])) ''raw''
     = Inr (Request (notification ''ping'' None))
   \<and> rq_auth (notification ''ping'' None) = None"
proof -
  let ?m = "[(''jsonrpc'', JString ''2.0''), (''method'', JString ''ping''), (''auth'', JString ''forged'')]"
  have p: "parse_message (\<lambda>_. Inr (JObject ?m)) ''raw'' = Inr (Request (notification ''ping'' None))"
    by (simp add: parse_message_Request contains_key_def request_of_fields_def de_string_def de_option_def
        as_str_def notification_def JSONRPC_VERSION_def)
  from parsed_request_is_clean [OF refl p] p show ?thesis by simp
qed

text \<open>
  C40: a refusal never pretends to answer a request: whatever is wrong with a message, the
  response carries no id and no result, and its code is Parse error exactly when the text is not
  JSON, Invalid Request otherwise. A message that is an object without a method is never read as
  a request.
\<close>

theorem refused_message_error:
  assumes "parse_message read_json raw = Inl e"
  shows "rs_id e = None \<and> rs_result e = None
    \<and> (\<exists>why. rs_error e = Some (error_new
         (case read_json raw of Inl _ \<Rightarrow> PARSE_ERROR | Inr _ \<Rightarrow> INVALID_REQUEST) why))"
  using assms
  by (auto simp: parse_message_def parse_response_def Let_def map_invalid_Inl invalid_request_def
      response_error_def split: sum.splits json.splits if_splits option.splits)

lemma refused_message_error_witness:
  "\<exists>e. parse_message (\<lambda>_. Inr (JArray [])) ''[]'' = Inl e \<and> rs_id e = None"
  using refused_message_error [of "\<lambda>_. Inr (JArray [])" "''[]''"]
  by (simp add: parse_message_def)

text \<open>What a side may write: ids and codes in range, and no optional member that is \<^verbatim>\<open>null\<close>.\<close>

definition writable :: "rpc_message \<Rightarrow> bool" where
  "writable message =
     (case message of
        Request r \<Rightarrow> rq_auth r = None \<and> rq_headers r = None \<and> rq_metadata r = []
          \<and> rq_params r \<noteq> Some JNull \<and> (case rq_id r of None \<Rightarrow> True | Some rid \<Rightarrow> is_request_id rid)
      | Response r \<Rightarrow> (rs_result r = None) \<noteq> (rs_error r = None) \<and> rs_result r \<noteq> Some JNull
          \<and> (case rs_id r of None \<Rightarrow> True | Some rid \<Rightarrow> is_request_id rid)
          \<and> (case rs_error r of None \<Rightarrow> True
             | Some e \<Rightarrow> - 2147483648 \<le> e_code e \<and> e_code e \<le> 2147483647 \<and> e_data e \<noteq> Some JNull))"

definition message_to_json :: "rpc_message \<Rightarrow> json" where
  "message_to_json message =
     (case message of Request r \<Rightarrow> request_to_json r | Response r \<Rightarrow> response_to_json r)"

lemma optional_lookup:
  "map_of (optional key x @ m) k = (if k = key \<and> x \<noteq> None then x else map_of m k)"
  by (cases x) (simp_all add: optional_def)

lemma optional_lookup_last: "map_of (optional key x) k = (if k = key then x else None)"
  by (cases x) (simp_all add: optional_def)

lemma as_i32_json: "- 2147483648 \<le> n \<Longrightarrow> n \<le> 2147483647 \<Longrightarrow> as_i32 (i32_json n) = Some n"
  by (simp add: as_i32_def i32_json_def)

lemma de_option_Some: "x \<noteq> Some JNull \<Longrightarrow> map_of m key = x \<Longrightarrow> de_option key m = x"
  by (auto simp: de_option_def split: option.splits json.splits)

lemma error_roundtrip:
  assumes "- 2147483648 \<le> e_code e" "e_code e \<le> 2147483647" "e_data e \<noteq> Some JNull"
  shows "error_of_json (error_to_json e) = Inr e"
proof -
  let ?m = "[(''code'', i32_json (e_code e)), (''message'', JString (e_message e))] @ optional ''data'' (e_data e)"
  have "de_option ''data'' ?m = e_data e"
    using assms(3) by (intro de_option_Some) (simp_all add: optional_lookup_last)
  with assms show ?thesis
    by (simp add: error_of_json_def error_to_json_def as_object_def as_i32_json de_string_def as_str_def)
qed

text \<open>
  C38: what one side writes, the other reads: a request, notification or response that has the
  shape JSON-RPC asks for is read back as exactly itself from its JSON text.
\<close>

theorem message_roundtrip:
  assumes "read_json raw = Inr (message_to_json message)" and "writable message"
  shows "parse_message read_json raw = Inr message"
proof (cases message)
  case (Request r)
  let ?m = "[(''jsonrpc'', JString (rq_jsonrpc r)), (''method'', JString (rq_method r))]
      @ optional ''params'' (rq_params r) @ optional ''id'' (rq_id r)"
  have w: "rq_params r \<noteq> Some JNull" "rq_id r \<noteq> Some JNull"
    and rid: "case rq_id r of None \<Rightarrow> True | Some rid \<Rightarrow> is_request_id rid"
    and clean: "rq_auth r = None" "rq_headers r = None" "rq_metadata r = []"
    using assms(2) Request by (auto simp: writable_def)
  have look: "map_of ?m ''params'' = rq_params r" "map_of ?m ''id'' = rq_id r"
    by (simp_all add: optional_lookup optional_lookup_last del: map_of_append)
  have "request_of_fields ?m = Inr r"
    using de_option_Some [OF w(1) look(1)] de_option_Some [OF w(2) look(2)] clean
    by (simp add: request_of_fields_def de_string_def as_str_def)
  moreover have "read_json raw = Inr (JObject ?m)"
    using assms(1) Request clean by (simp add: message_to_json_def request_to_json_def optional_def)
  ultimately show ?thesis
    using rid look(2) Request unfolding Request parse_message_Request
    by (intro exI [of _ ?m]) (simp add: contains_key_def)
next
  case (Response r)
  let ?id = "case rs_id r of None \<Rightarrow> JNull | Some rid \<Rightarrow> rid"
  let ?m = "[(''jsonrpc'', JString (rs_jsonrpc r))]
      @ optional ''result'' (rs_result r)
      @ optional ''error'' (map_option error_to_json (rs_error r)) @ [(''id'', ?id)]"
  have w: "rs_result r \<noteq> Some JNull" "(rs_result r = None) \<noteq> (rs_error r = None)"
    and rid: "case rs_id r of None \<Rightarrow> True | Some rid \<Rightarrow> is_request_id rid"
    using assms(2) Response by (auto simp: writable_def)
  have look: "map_of ?m ''result'' = rs_result r" "map_of ?m ''id'' = Some ?id"
    "map_of ?m ''error'' = map_option error_to_json (rs_error r)" "map_of ?m ''jsonrpc'' = Some (JString (rs_jsonrpc r))"
    "map_of ?m ''method'' = None"
    by (simp_all add: optional_lookup del: map_of_append)
  have "map_option error_to_json (rs_error r) \<noteq> Some JNull"
    by (cases "rs_error r") (simp_all add: error_to_json_def)
  note err = de_option_Some [OF this look(3)]
  have e: "(case map_option error_to_json (rs_error r) of None \<Rightarrow> Inr None
       | Some e \<Rightarrow> result_bind (error_of_json e) (\<lambda>err. Inr (Some err))) = Inr (rs_error r)"
    using assms(2) Response by (cases "rs_error r") (auto simp: writable_def error_roundtrip)
  have "de_option ''id'' ?m = rs_id r"
    unfolding de_option_def look(2) using rid by (cases "rs_id r") (auto split: json.splits)
  with err e look have "response_of_fields ?m = Inr r"
    using de_option_Some [OF w(1) look(1)]
    by (simp add: response_of_fields_def de_string_def as_str_def del: map_of_append append.simps)
  moreover have "read_json raw = Inr (JObject ?m)"
    using assms(1) Response by (simp add: message_to_json_def response_to_json_def)
  moreover have "is_null ?id \<or> is_request_id ?id"
    using rid by (cases "rs_id r") (simp_all add: is_null_def)
  ultimately show ?thesis
    using look w unfolding Response parse_message_Response
    by (intro exI [of _ ?m] exI [of _ ?id]) (simp add: contains_key_def del: map_of_append append.simps)
qed

lemma message_roundtrip_witness:
  "parse_message (\<lambda>_. Inr (message_to_json (Response (response_error (Some (JString ''a'')) METHOD_NOT_FOUND ''no''))))
     ''raw'' = Inr (Response (response_error (Some (JString ''a'')) METHOD_NOT_FOUND ''no''))"
  by (rule message_roundtrip [OF refl])
    (simp add: writable_def response_error_def error_new_def error_codes)

end
