(* ===== verification/Client_Channel.thy ===== *)
theory Client_Channel
  imports Caller_Key Json_Rpc Log_Level
begin

text \<open>
  The channel a running call has to its client (\<^verbatim>\<open>src/mcp/client_channel.rs\<close>): progress and log
  notifications, and server requests that wait for an answer.

  Shared objects are numbers into the world: a table of pending requests, the outbound queue of
  a transport, the one-shot channel an answer comes back on, a session, a cancellation token.
  What an answer channel received is kept with the caller it came from. A request is cut where
  it awaits: \<open>request_begin\<close>, then looks of its wait (\<open>request_poll\<close>), then \<open>waiting_drop\<close>.
  The values a tool sends are given as the JSON \<^verbatim>\<open>serde\<close> writes for them, or its error.
\<close>

record pending_key =
  pk_caller :: caller_key
  pk_id :: string

datatype client_request_error =
    NoConnection
  | StatelessRevision
  | CapabilityNotDeclared string
  | NoEventStream
  | CallCancelled
  | TimedOut duration
  | Disconnected
  | Rpc rpc_error
  | Decode string
  | Internal string

record client_connection =
  cn_outbound :: "nat option"
  cn_pending :: nat
  cn_session :: "sref option"
  cn_caller :: caller_key
  cn_timeout :: duration

datatype era = Unbound | Legacy | Modern "log_level option"

datatype progress_token = TokenString string | TokenInteger int

record call_scope =
  sc_era :: era
  sc_progress_token :: "progress_token option"
  sc_logging :: bool
  sc_cancellation :: token

record client_channel =
  ch_connection :: "client_connection option"
  ch_scope :: call_scope

record client_world =
  cw_pending :: "nat \<Rightarrow> (pending_key, nat) table option"
  cw_out :: "nat \<Rightarrow> rpc_message list"
  cw_out_open :: "nat \<Rightarrow> bool"
  cw_answer :: "nat \<Rightarrow> (caller_key \<times> rpc_response) option"
  cw_listening :: "nat \<Rightarrow> bool"
  cw_next :: nat
  cw_sessions :: "sref \<Rightarrow> session"
  cw_fired :: "token list"

subsection \<open>Pending requests\<close>

definition register :: "nat \<Rightarrow> pending_key \<Rightarrow> client_world \<Rightarrow> client_world \<times> nat option" where
  "register table key w =
     (case cw_pending w table of
        None \<Rightarrow> (w, None)
      | Some entries \<Rightarrow>
          (w\<lparr>cw_pending := (cw_pending w)(table := Some (AList.update key (cw_next w) entries)),
             cw_next := Suc (cw_next w),
             cw_answer := (cw_answer w)(cw_next w := None),
             cw_listening := (cw_listening w)(cw_next w := True)\<rparr>,
           Some (cw_next w)))"

definition forget :: "nat \<Rightarrow> pending_key \<Rightarrow> client_world \<Rightarrow> client_world" where
  "forget table key w =
     (case cw_pending w table of
        None \<Rightarrow> w
      | Some entries \<Rightarrow> w\<lparr>cw_pending := (cw_pending w)(table := Some (AList.delete key entries))\<rparr>)"

definition deliver :: "nat \<Rightarrow> caller_key \<Rightarrow> rpc_response \<Rightarrow> client_world \<Rightarrow> client_world \<times> bool" where
  "deliver table caller response w =
     (case rs_id response of
        Some (JString rid) \<Rightarrow>
          (let key = \<lparr>pk_caller = caller, pk_id = rid\<rparr> in
           case Option.bind (cw_pending w table) (\<lambda>entries. map_of entries key) of
             None \<Rightarrow> (w, False)
           | Some a \<Rightarrow>
               (let w' = forget table key w in
                if cw_listening w' a
                then (w'\<lparr>cw_answer := (cw_answer w')(a := Some (caller, response))\<rparr>, True)
                else (w', False)))
      | _ \<Rightarrow> (w, False))"

definition close_pending :: "nat \<Rightarrow> client_world \<Rightarrow> client_world" where
  "close_pending table w = w\<lparr>cw_pending := (cw_pending w)(table := None)\<rparr>"

subsection \<open>Sending\<close>

definition send_on :: "client_connection \<Rightarrow> rpc_request \<Rightarrow> client_world \<Rightarrow> client_world \<times> bool" where
  "send_on connection message w =
     (case cn_outbound connection of
        None \<Rightarrow> (w, False)
      | Some q \<Rightarrow>
          if cw_out_open w q
          then (w\<lparr>cw_out := (cw_out w)(q := cw_out w q @ [Request message])\<rparr>, True)
          else (w, False))"

definition reaches_client :: "client_connection \<Rightarrow> bool" where
  "reaches_client connection \<longleftrightarrow> cn_outbound connection \<noteq> None"

definition default_scope :: "token \<Rightarrow> call_scope" where
  "default_scope token =
     \<lparr>sc_era = Unbound, sc_progress_token = None, sc_logging = False, sc_cancellation = token\<rparr>"

definition connected :: "token \<Rightarrow> client_connection \<Rightarrow> client_channel" where
  "connected token connection = \<lparr>ch_connection = Some connection, ch_scope = default_scope token\<rparr>"

definition bound ::
  "era \<Rightarrow> progress_token option \<Rightarrow> bool \<Rightarrow> token \<Rightarrow> client_channel \<Rightarrow> client_channel" where
  "bound era progress_token logging cancellation ch =
     \<lparr>ch_connection = ch_connection ch,
      ch_scope = \<lparr>sc_era = era, sc_progress_token = progress_token, sc_logging = logging,
                  sc_cancellation = cancellation\<rparr>\<rparr>"

definition for_legacy_call ::
  "progress_token option \<Rightarrow> bool \<Rightarrow> token \<Rightarrow> client_channel \<Rightarrow> client_channel" where
  "for_legacy_call progress_token logging cancellation ch =
     bound Legacy progress_token logging cancellation ch"

definition for_modern_call ::
  "progress_token option \<Rightarrow> log_level option \<Rightarrow> bool \<Rightarrow> token \<Rightarrow> client_channel \<Rightarrow> client_channel" where
  "for_modern_call progress_token level logging cancellation ch =
     bound (Modern level) progress_token logging cancellation ch"

definition channel_caller :: "client_channel \<Rightarrow> caller_key option" where
  "channel_caller ch = map_option cn_caller (ch_connection ch)"

definition channel_session :: "client_channel \<Rightarrow> sref option" where
  "channel_session ch = Option.bind (ch_connection ch) cn_session"

subsection \<open>Notifications\<close>

definition token_json :: "progress_token \<Rightarrow> json" where
  "token_json token = (case token of TokenString s \<Rightarrow> JString s | TokenInteger n \<Rightarrow> i32_json n)"

text \<open>\<open>amount\<close> and \<open>whole\<close> are the numbers as \<^verbatim>\<open>serde\<close> writes them.\<close>

definition progress_params ::
  "progress_token \<Rightarrow> json \<Rightarrow> json option \<Rightarrow> string option \<Rightarrow> json" where
  "progress_params token amount whole message = JObject
     ([(''progressToken'', token_json token), (''progress'', amount)]
      @ optional ''total'' whole @ optional ''message'' (map_option JString message))"

definition progress ::
  "client_channel \<Rightarrow> json \<Rightarrow> json option \<Rightarrow> string option \<Rightarrow> client_world \<Rightarrow> client_world" where
  "progress ch amount whole message w =
     (case (ch_connection ch, sc_progress_token (ch_scope ch)) of
        (Some connection, Some token) \<Rightarrow>
          fst (send_on connection
            (notification ''notifications/progress'' (Some (progress_params token amount whole message))) w)
      | _ \<Rightarrow> w)"

definition wanted_level :: "client_channel \<Rightarrow> client_world \<Rightarrow> log_level option" where
  "wanted_level ch w =
     (if \<not> sc_logging (ch_scope ch) then None
      else (case sc_era (ch_scope ch) of
              Unbound \<Rightarrow> None
            | Legacy \<Rightarrow> Option.bind (channel_session ch) (\<lambda>s. s_log_level (cw_sessions w s))
            | Modern level \<Rightarrow> level))"

definition wants_log :: "client_channel \<Rightarrow> log_level \<Rightarrow> client_world \<Rightarrow> bool" where
  "wants_log ch level w \<longleftrightarrow>
     (case ch_connection ch of None \<Rightarrow> False | Some connection \<Rightarrow> reaches_client connection)
     \<and> (case wanted_level ch w of None \<Rightarrow> False | Some minimum \<Rightarrow> minimum \<le> level)"

definition log_params :: "log_level \<Rightarrow> string option \<Rightarrow> json \<Rightarrow> json" where
  "log_params level logger payload = JObject
     ([(''level'', JString (level_as_str level))] @ optional ''logger'' (map_option JString logger)
      @ [(''data'', payload)])"

definition log_message ::
  "client_channel \<Rightarrow> log_level \<Rightarrow> string option \<Rightarrow> json \<Rightarrow> client_world \<Rightarrow> client_world" where
  "log_message ch level logger payload w =
     (if \<not> wants_log ch level w then w
      else (case ch_connection ch of
              None \<Rightarrow> w
            | Some connection \<Rightarrow>
                fst (send_on connection
                  (notification ''notifications/message'' (Some (log_params level logger payload))) w)))"

subsection \<open>Server requests\<close>

datatype needs = Sampling | FormElicitation

fun capability :: "needs \<Rightarrow> string" where
  "capability Sampling = ''sampling''"
| "capability FormElicitation = ''elicitation''"

fun declared_in :: "needs \<Rightarrow> declared_capabilities \<Rightarrow> bool" where
  "declared_in Sampling declared = dc_sampling declared"
| "declared_in FormElicitation declared = dc_form_elicitation declared"

datatype abandoned = Answered | DroppedCall | CancelledCall | TimedOutCall

record waiting =
  wt_connection :: client_connection
  wt_key :: pending_key
  wt_answer :: nat
  wt_cancellation :: token

text \<open>The drop of \<^verbatim>\<open>Waiting\<close>: forget the request and, unless it was settled, tell the client.\<close>

definition abandon_reason :: "abandoned \<Rightarrow> string option" where
  "abandon_reason outcome =
     (case outcome of
        Answered \<Rightarrow> None
      | DroppedCall \<Rightarrow> Some ''The call that sent this request ended''
      | CancelledCall \<Rightarrow> Some ''The call that sent this request was cancelled''
      | TimedOutCall \<Rightarrow> Some ''The server stopped waiting for an answer'')"

definition cancel_notice :: "string \<Rightarrow> string \<Rightarrow> rpc_request" where
  "cancel_notice rid reason =
     notification ''notifications/cancelled''
       (Some (JObject [(''requestId'', JString rid), (''reason'', JString reason)]))"

definition waiting_drop :: "waiting \<Rightarrow> abandoned \<Rightarrow> client_world \<Rightarrow> client_world" where
  "waiting_drop wt outcome w0 =
     (let w1 = w0\<lparr>cw_listening := (cw_listening w0)(wt_answer wt := False)\<rparr>;
          w = forget (cn_pending (wt_connection wt)) (wt_key wt) w1 in
      case abandon_reason outcome of
        None \<Rightarrow> w
      | Some reason \<Rightarrow>
          fst (send_on (wt_connection wt) (cancel_notice (pk_id (wt_key wt)) reason) w))"

text \<open>May the request be sent on this call? The checks, in the code's order.\<close>

definition request_allowed ::
  "client_channel \<Rightarrow> needs \<Rightarrow> client_world \<Rightarrow> (client_request_error, client_connection) result" where
  "request_allowed ch needed w =
     (case ch_connection ch of
        None \<Rightarrow> Inl NoConnection
      | Some connection \<Rightarrow>
          (case sc_era (ch_scope ch) of
             Unbound \<Rightarrow> Inl NoConnection
           | Modern _ \<Rightarrow> Inl StatelessRevision
           | Legacy \<Rightarrow>
               if \<not> (case cn_session connection of
                       None \<Rightarrow> False
                     | Some s \<Rightarrow> declared_in needed (s_capabilities (cw_sessions w s)))
               then Inl (CapabilityNotDeclared (capability needed))
               else if \<not> reaches_client connection then Inl NoEventStream
               else Inr connection))"

text \<open>\<open>params\<close> is what serializing answered, \<open>random\<close> what \<^verbatim>\<open>random_hex_id()\<close> did.\<close>

definition request_begin ::
  "client_channel \<Rightarrow> string \<Rightarrow> (string, json) result \<Rightarrow> needs \<Rightarrow> (string, string) result
     \<Rightarrow> client_world \<Rightarrow> client_world \<times> (client_request_error, waiting) result" where
  "request_begin ch method params needed random w =
     (case request_allowed ch needed w of
        Inl e \<Rightarrow> (w, Inl e)
      | Inr connection \<Rightarrow>
          (case params of
             Inl e \<Rightarrow> (w, Inl (Internal e))
           | Inr payload \<Rightarrow>
               (case random of
                  Inl e \<Rightarrow> (w, Inl (Internal (''no OS randomness for an id: '' @ e)))
                | Inr rid \<Rightarrow>
                    (let key = \<lparr>pk_caller = cn_caller connection, pk_id = rid\<rparr> in
                     case register (cn_pending connection) key w of
                       (w1, None) \<Rightarrow> (w1, Inl Disconnected)
                     | (w1, Some a) \<Rightarrow>
                         (let wt = \<lparr>wt_connection = connection, wt_key = key, wt_answer = a,
                                    wt_cancellation = sc_cancellation (ch_scope ch)\<rparr> in
                          case send_on connection (request_with_id method (Some payload) (JString rid)) w1 of
                            (w2, True) \<Rightarrow> (w2, Inr wt)
                          | (w2, False) \<Rightarrow> (waiting_drop wt Answered w2, Inl Disconnected))))))"

text \<open>Whether the sending half of an answer channel is still in a table.\<close>

definition sender_alive :: "client_connection \<Rightarrow> nat \<Rightarrow> client_world \<Rightarrow> bool" where
  "sender_alive connection a w =
     (case cw_pending w (cn_pending connection) of
        None \<Rightarrow> False
      | Some entries \<Rightarrow> list_ex (\<lambda>(_, b). b = a) entries)"

definition response_result ::
  "(json \<Rightarrow> (string, 'r) result) \<Rightarrow> rpc_response \<Rightarrow> (client_request_error, 'r) result" where
  "response_result decode response =
     (case (rs_result response, rs_error response) of
        (_, Some e) \<Rightarrow> Inl (Rpc e)
      | (Some res, None) \<Rightarrow> (case decode res of Inl e \<Rightarrow> Inl (Decode e) | Inr r \<Rightarrow> Inr r)
      | (None, None) \<Rightarrow>
          Inl (Rpc (error_new INVALID_REQUEST
            ''the client's response carries neither a result nor an error'')))"

text \<open>One look of the biased wait, \<open>elapsed\<close> after it began: \<open>None\<close> while nothing is ready. The
  timer looks at the answer before the clock.\<close>

definition request_poll ::
  "(json \<Rightarrow> (string, 'r) result) \<Rightarrow> waiting \<Rightarrow> duration \<Rightarrow> client_world
     \<Rightarrow> (client_world \<times> (client_request_error, 'r) result) option" where
  "request_poll decode wt elapsed w =
     (let connection = wt_connection wt in
      if wt_cancellation wt \<in> set (cw_fired w)
      then Some (waiting_drop wt CancelledCall w, Inl CallCancelled)
      else (case cw_answer w (wt_answer wt) of
              Some (_, response) \<Rightarrow>
                Some (waiting_drop wt Answered w, response_result decode response)
            | None \<Rightarrow>
                if \<not> sender_alive connection (wt_answer wt) w
                then Some (waiting_drop wt Answered w, Inl Disconnected)
                else if cn_timeout connection \<le> elapsed
                then Some (waiting_drop wt TimedOutCall w, Inl (TimedOut (cn_timeout connection)))
                else None))"

text \<open>The waiting future dropped: the call ended under it.\<close>

definition request_drop :: "waiting \<Rightarrow> client_world \<Rightarrow> client_world" where
  "request_drop wt w = waiting_drop wt DroppedCall w"

definition create_message_begin ::
  "client_channel \<Rightarrow> (string, json) result \<Rightarrow> (string, string) result
     \<Rightarrow> client_world \<Rightarrow> client_world \<times> (client_request_error, waiting) result" where
  "create_message_begin ch params random w =
     request_begin ch ''sampling/createMessage'' params Sampling random w"

definition elicit_begin ::
  "client_channel \<Rightarrow> (string, json) result \<Rightarrow> (string, string) result
     \<Rightarrow> client_world \<Rightarrow> client_world \<times> (client_request_error, waiting) result" where
  "elicit_begin ch params random w =
     request_begin ch ''elicitation/create'' params FormElicitation random w"

subsection \<open>Lemmas\<close>

lemma send_on_frame:
  "cw_pending (fst (send_on c m w)) = cw_pending w \<and> cw_answer (fst (send_on c m w)) = cw_answer w
   \<and> cw_listening (fst (send_on c m w)) = cw_listening w \<and> cw_next (fst (send_on c m w)) = cw_next w
   \<and> cw_sessions (fst (send_on c m w)) = cw_sessions w \<and> cw_fired (fst (send_on c m w)) = cw_fired w
   \<and> cw_out_open (fst (send_on c m w)) = cw_out_open w"
  by (simp add: send_on_def split: option.split)

lemma forget_frame:
  "cw_out (forget t k w) = cw_out w \<and> cw_answer (forget t k w) = cw_answer w
   \<and> cw_listening (forget t k w) = cw_listening w \<and> cw_next (forget t k w) = cw_next w
   \<and> cw_sessions (forget t k w) = cw_sessions w \<and> cw_fired (forget t k w) = cw_fired w
   \<and> cw_out_open (forget t k w) = cw_out_open w"
  by (simp add: forget_def split: option.split)

lemma forget_pending:
  "cw_pending (forget t k w) t' = (if t' = t then map_option (AList.delete k) (cw_pending w t) else cw_pending w t')"
  by (simp add: forget_def split: option.split)

lemma waiting_drop_frame:
  "cw_answer (waiting_drop wt outcome w) = cw_answer w \<and> cw_next (waiting_drop wt outcome w) = cw_next w
   \<and> cw_pending (waiting_drop wt outcome w)
     = (cw_pending w)(cn_pending (wt_connection wt) :=
          map_option (AList.delete (wt_key wt)) (cw_pending w (cn_pending (wt_connection wt))))
   \<and> cw_listening (waiting_drop wt outcome w) = (cw_listening w)(wt_answer wt := False)"
  by (auto simp: waiting_drop_def Let_def send_on_frame forget_frame forget_pending fun_eq_iff
      split: option.split)

text \<open>What a message sent on a connection adds, if its transport still takes any.\<close>

definition sent_on :: "client_connection \<Rightarrow> rpc_request \<Rightarrow> client_world \<Rightarrow> nat \<Rightarrow> rpc_message list" where
  "sent_on connection message w =
     (case cn_outbound connection of
        Some q \<Rightarrow> if cw_out_open w q then (cw_out w)(q := cw_out w q @ [Request message]) else cw_out w
      | None \<Rightarrow> cw_out w)"

lemma send_on_out: "cw_out (fst (send_on c m w)) = sent_on c m w"
  by (simp add: send_on_def sent_on_def split: option.split)

lemma waiting_drop_out:
  "cw_out (waiting_drop wt outcome w) =
     (case abandon_reason outcome of
        None \<Rightarrow> cw_out w
      | Some reason \<Rightarrow> sent_on (wt_connection wt) (cancel_notice (pk_id (wt_key wt)) reason) w)"
  by (simp add: waiting_drop_def Let_def send_on_out sent_on_def forget_frame split: option.split)

subsection \<open>A server's channels over every order of events\<close>

text \<open>The world with the requests being waited for, and the key each answer channel was opened
  for.\<close>

record client_system =
  cy_world :: client_world
  cy_waiting :: "waiting list"
  cy_keys :: "nat \<Rightarrow> pending_key"

datatype client_event =
    Ask client_channel string "(string, json) result" needs "(string, string) result"
  | Deliver nat caller_key rpc_response
  | Poll waiting duration
  | DropWaiting waiting
  | ClosePending nat
  | CloseQueue nat
  | Fire token
  | SessionWrite sref session

fun client_step :: "client_system \<Rightarrow> client_event \<Rightarrow> client_system" where
  "client_step y (Ask ch method params needed random) =
     (case request_begin ch method params needed random (cy_world y) of
        (w, Inl _) \<Rightarrow> y\<lparr>cy_world := w\<rparr>
      | (w, Inr wt) \<Rightarrow>
          y\<lparr>cy_world := w, cy_waiting := wt # cy_waiting y,
            cy_keys := (cy_keys y)(wt_answer wt := wt_key wt)\<rparr>)"
| "client_step y (Deliver table caller response) =
     y\<lparr>cy_world := fst (deliver table caller response (cy_world y))\<rparr>"
| "client_step y (Poll wt elapsed) =
     (if wt \<in> set (cy_waiting y)
      then (case request_poll (\<lambda>v. Inr v) wt elapsed (cy_world y) of
              None \<Rightarrow> y
            | Some (w, _) \<Rightarrow> y\<lparr>cy_world := w, cy_waiting := filter (\<lambda>x. x \<noteq> wt) (cy_waiting y)\<rparr>)
      else y)"
| "client_step y (DropWaiting wt) =
     (if wt \<in> set (cy_waiting y)
      then y\<lparr>cy_world := request_drop wt (cy_world y), cy_waiting := filter (\<lambda>x. x \<noteq> wt) (cy_waiting y)\<rparr>
      else y)"
| "client_step y (ClosePending table) = y\<lparr>cy_world := close_pending table (cy_world y)\<rparr>"
| "client_step y (CloseQueue q) =
     y\<lparr>cy_world := (cy_world y)\<lparr>cw_out_open := (cw_out_open (cy_world y))(q := False)\<rparr>\<rparr>"
| "client_step y (Fire token) = y\<lparr>cy_world := (cy_world y)\<lparr>cw_fired := token # cw_fired (cy_world y)\<rparr>\<rparr>"
| "client_step y (SessionWrite r s) =
     y\<lparr>cy_world := (cy_world y)\<lparr>cw_sessions := (cw_sessions (cy_world y))(r := s)\<rparr>\<rparr>"

definition client_ok :: "client_system \<Rightarrow> bool" where
  "client_ok y \<longleftrightarrow>
     (\<forall>t entries k a. cw_pending (cy_world y) t = Some entries \<and> (k, a) \<in> set entries \<longrightarrow>
        a < cw_next (cy_world y) \<and> cy_keys y a = k)
     \<and> (\<forall>a c r. cw_answer (cy_world y) a = Some (c, r) \<longrightarrow>
        a < cw_next (cy_world y) \<and> pk_caller (cy_keys y a) = c
        \<and> rs_id r = Some (JString (pk_id (cy_keys y a))))
     \<and> (\<forall>wt \<in> set (cy_waiting y). wt_answer wt < cw_next (cy_world y)
        \<and> cy_keys y (wt_answer wt) = wt_key wt \<and> pk_caller (wt_key wt) = cn_caller (wt_connection wt))"

lemma client_okI:
  assumes "\<And>t es k a. cw_pending (cy_world y) t = Some es \<Longrightarrow> (k, a) \<in> set es \<Longrightarrow>
      a < cw_next (cy_world y) \<and> cy_keys y a = k"
    and "\<And>a c r. cw_answer (cy_world y) a = Some (c, r) \<Longrightarrow>
      a < cw_next (cy_world y) \<and> pk_caller (cy_keys y a) = c \<and> rs_id r = Some (JString (pk_id (cy_keys y a)))"
    and "\<And>wt. wt \<in> set (cy_waiting y) \<Longrightarrow> wt_answer wt < cw_next (cy_world y)
      \<and> cy_keys y (wt_answer wt) = wt_key wt \<and> pk_caller (wt_key wt) = cn_caller (wt_connection wt)"
  shows "client_ok y"
  using assms by (auto simp: client_ok_def)

lemma client_okD:
  assumes "client_ok y"
  shows "cw_pending (cy_world y) t = Some es \<Longrightarrow> (k, a) \<in> set es \<Longrightarrow>
      a < cw_next (cy_world y) \<and> cy_keys y a = k"
    and "cw_answer (cy_world y) a = Some (c, r) \<Longrightarrow>
      a < cw_next (cy_world y) \<and> pk_caller (cy_keys y a) = c \<and> rs_id r = Some (JString (pk_id (cy_keys y a)))"
    and "wt \<in> set (cy_waiting y) \<Longrightarrow> wt_answer wt < cw_next (cy_world y)
      \<and> cy_keys y (wt_answer wt) = wt_key wt \<and> pk_caller (wt_key wt) = cn_caller (wt_connection wt)"
  using assms by (auto simp: client_ok_def)

text \<open>An event that opens no channel and answers none: it may only drop entries and waiters.\<close>

lemma client_ok_shrinks:
  assumes y: "client_ok y" and "cy_keys y' = cy_keys y" and "set (cy_waiting y') \<subseteq> set (cy_waiting y)"
    and "cw_next (cy_world y) \<le> cw_next (cy_world y')"
    and answer: "\<And>a x. cw_answer (cy_world y') a = Some x \<Longrightarrow> cw_answer (cy_world y) a = Some x"
    and pending: "\<And>t es. cw_pending (cy_world y') t = Some es \<Longrightarrow>
      \<exists>es'. cw_pending (cy_world y) t = Some es' \<and> set es \<subseteq> set es'"
  shows "client_ok y'"
proof (rule client_okI)
  fix t es k a
  assume "cw_pending (cy_world y') t = Some es" "(k, a) \<in> set es"
  with pending obtain es' where "cw_pending (cy_world y) t = Some es'" "(k, a) \<in> set es'" by blast
  with client_okD(1) [OF y, of t es' k a] assms(2,4) show "a < cw_next (cy_world y') \<and> cy_keys y' a = k" by simp
next
  fix a c r
  assume "cw_answer (cy_world y') a = Some (c, r)"
  with client_okD(2) [OF y, of a c r] answer assms(2,4)
  show "a < cw_next (cy_world y') \<and> pk_caller (cy_keys y' a) = c \<and> rs_id r = Some (JString (pk_id (cy_keys y' a)))"
    by simp
next
  fix wt
  assume "wt \<in> set (cy_waiting y')"
  with client_okD(3) [OF y, of wt] assms(2-4)
  show "wt_answer wt < cw_next (cy_world y') \<and> cy_keys y' (wt_answer wt) = wt_key wt
      \<and> pk_caller (wt_key wt) = cn_caller (wt_connection wt)"
    by auto
qed

lemma waiting_drop_ok:
  assumes "client_ok y"
  shows "client_ok (y\<lparr>cy_world := waiting_drop wt outcome (cy_world y),
    cy_waiting := filter P (cy_waiting y)\<rparr>)"
  using assms
  by (rule client_ok_shrinks) (auto simp: waiting_drop_frame split: if_splits dest: set_delete_subset [THEN subsetD])

lemma register_ok:
  assumes y: "client_ok y" and reg: "register t key (cy_world y) = (w, Some a)"
  shows "client_ok (y\<lparr>cy_world := w, cy_keys := (cy_keys y)(a := key)\<rparr>)"
    and "a = cw_next (cy_world y)" and "cw_next w = Suc a"
proof -
  let ?v = "cy_world y"
  from reg obtain entries where e: "cw_pending ?v t = Some entries"
    and w: "a = cw_next ?v" "cw_pending w = (cw_pending ?v)(t := Some (AList.update key a entries))"
      "cw_next w = Suc a" "cw_answer w = (cw_answer ?v)(a := None)"
    by (auto simp: register_def split: option.splits)
  show "a = cw_next ?v" "cw_next w = Suc a" using w by simp_all
  have upd: "(k, b) \<in> set (AList.update key a entries) \<Longrightarrow> (k, b) \<in> set entries \<or> (k = key \<and> b = a)" for k b
    by (induction entries) (auto split: if_splits)
  show "client_ok (y\<lparr>cy_world := w, cy_keys := (cy_keys y)(a := key)\<rparr>)"
  proof (rule client_okI)
    let ?y = "y\<lparr>cy_world := w, cy_keys := (cy_keys y)(a := key)\<rparr>"
    fix t' es k b
    assume "cw_pending (cy_world ?y) t' = Some es" "(k, b) \<in> set es"
    then have "cw_pending w t' = Some es" "(k, b) \<in> set es" by simp_all
    then consider "k = key" "b = a" | es' where "cw_pending ?v t' = Some es'" "(k, b) \<in> set es'"
      using upd [of k b] e w(2) by (cases "t' = t") auto
    then show "b < cw_next (cy_world ?y) \<and> cy_keys ?y b = k"
    proof cases
      case 2
      with client_okD(1) [OF y this] w(1,3) show ?thesis by simp
    qed (use w in simp)
  next
    let ?y = "y\<lparr>cy_world := w, cy_keys := (cy_keys y)(a := key)\<rparr>"
    fix b c r
    assume "cw_answer (cy_world ?y) b = Some (c, r)"
    then have "cw_answer ?v b = Some (c, r)" "b \<noteq> a" using w(4) by (auto split: if_splits)
    with client_okD(2) [OF y this(1)] w(1,3)
    show "b < cw_next (cy_world ?y) \<and> pk_caller (cy_keys ?y b) = c
        \<and> rs_id r = Some (JString (pk_id (cy_keys ?y b)))" by simp
  next
    let ?y = "y\<lparr>cy_world := w, cy_keys := (cy_keys y)(a := key)\<rparr>"
    fix wt
    assume "wt \<in> set (cy_waiting ?y)"
    then have "wt \<in> set (cy_waiting y)" by simp
    with client_okD(3) [OF y this] w(1,3)
    show "wt_answer wt < cw_next (cy_world ?y) \<and> cy_keys ?y (wt_answer wt) = wt_key wt
        \<and> pk_caller (wt_key wt) = cn_caller (wt_connection wt)" by simp
  qed
qed

lemma deliver_ok:
  assumes y: "client_ok y"
  shows "client_ok (y\<lparr>cy_world := fst (deliver t caller response (cy_world y))\<rparr>)"
proof -
  let ?v = "cy_world y"
  have forgot: "client_ok (y\<lparr>cy_world := forget t key ?v\<rparr>)" for key
    using y by (rule client_ok_shrinks)
      (auto simp: forget_frame forget_pending split: if_splits dest: set_delete_subset [THEN subsetD])
  show ?thesis
  proof (cases "\<exists>rid a. rs_id response = Some (JString rid)
      \<and> Option.bind (cw_pending ?v t) (\<lambda>es. map_of es \<lparr>pk_caller = caller, pk_id = rid\<rparr>) = Some a")
    case False
    then have "fst (deliver t caller response ?v) = ?v"
      by (auto simp: deliver_def Let_def split: option.splits json.splits)
    with y show ?thesis by simp
  next
    case True
    then obtain rid a es where rid: "rs_id response = Some (JString rid)" and es: "cw_pending ?v t = Some es"
      "map_of es \<lparr>pk_caller = caller, pk_id = rid\<rparr> = Some a"
      by (cases "cw_pending ?v t") auto
    let ?key = "\<lparr>pk_caller = caller, pk_id = rid\<rparr>"
    let ?w = "forget t ?key ?v"
    have a: "a < cw_next ?v" "cy_keys y a = ?key"
      using client_okD(1) [OF y es(1) map_of_SomeD [OF es(2)]] by simp_all
    let ?y = "y\<lparr>cy_world := ?w\<lparr>cw_answer := (cw_answer ?w)(a := Some (caller, response))\<rparr>\<rparr>"
    have "client_ok ?y"
    proof (rule client_okI)
      fix b c r
      assume "cw_answer (cy_world ?y) b = Some (c, r)"
      then show "b < cw_next (cy_world ?y) \<and> pk_caller (cy_keys ?y b) = c
          \<and> rs_id r = Some (JString (pk_id (cy_keys ?y b)))"
        using client_okD(2) [OF forgot [of ?key], of b c r] a rid by (auto simp: forget_frame split: if_splits)
    qed (use client_okD(1,3) [OF forgot [of ?key]] in simp_all)
    with rid es forgot [of ?key] show ?thesis by (simp add: deliver_def Let_def)
  qed
qed

lemma send_on_False: "send_on c m w = (w', False) \<Longrightarrow> w' = w"
  by (auto simp: send_on_def split: option.splits if_splits)

text \<open>What beginning a request does: nothing, a registration undone, or a registration and the one
  message.\<close>

lemma request_begin_cases:
  obtains (refused) e where "request_begin ch method params needed random w = (w, Inl e)"
    | (unsent) connection key a w1 where "request_allowed ch needed w = Inr connection"
        "register (cn_pending connection) key w = (w1, Some a)"
        "request_begin ch method params needed random w
           = (waiting_drop \<lparr>wt_connection = connection, wt_key = key, wt_answer = a,
                wt_cancellation = sc_cancellation (ch_scope ch)\<rparr> Answered w1, Inl Disconnected)"
    | (sent) connection payload rid a w1 where "request_allowed ch needed w = Inr connection"
        "params = Inr payload" "random = Inr rid"
        "register (cn_pending connection) \<lparr>pk_caller = cn_caller connection, pk_id = rid\<rparr> w = (w1, Some a)"
        "request_begin ch method params needed random w
           = (fst (send_on connection (request_with_id method (Some payload) (JString rid)) w1),
              Inr \<lparr>wt_connection = connection, wt_key = \<lparr>pk_caller = cn_caller connection, pk_id = rid\<rparr>,
                   wt_answer = a, wt_cancellation = sc_cancellation (ch_scope ch)\<rparr>)"
        "snd (send_on connection (request_with_id method (Some payload) (JString rid)) w1)"
proof (cases "request_allowed ch needed w")
  case (Inl e)
  then show ?thesis by (intro refused) (simp add: request_begin_def)
next
  case allowed: (Inr connection)
  show ?thesis
  proof (cases "\<exists>payload rid. params = Inr payload \<and> random = Inr rid")
    case False
    then show ?thesis
      using allowed refused by (cases params; cases random) (auto simp: request_begin_def)
  next
    case True
    then obtain payload rid where given: "params = Inr payload" "random = Inr rid" by blast
    let ?key = "\<lparr>pk_caller = cn_caller connection, pk_id = rid\<rparr>"
    let ?m = "request_with_id method (Some payload) (JString rid)"
    obtain w1 reg where r: "register (cn_pending connection) ?key w = (w1, reg)"
      by (cases "register (cn_pending connection) ?key w")
    show ?thesis
    proof (cases reg)
      case None
      then have "w1 = w" using r by (auto simp: register_def split: option.splits)
      with None r allowed given show ?thesis by (intro refused) (simp add: request_begin_def Let_def)
    next
      case (Some a)
      obtain w2 ok where s: "send_on connection ?m w1 = (w2, ok)" by (cases "send_on connection ?m w1")
      show ?thesis
      proof (cases ok)
        case True
        with Some r s allowed given show ?thesis
          by (intro sent [of connection payload rid w1 a]) (simp_all add: request_begin_def Let_def)
      next
        case False
        with s have "w2 = w1" by (simp add: send_on_False)
        with False Some r s allowed given show ?thesis
          by (intro unsent [of connection ?key w1 a]) (simp_all add: request_begin_def Let_def)
      qed
    qed
  qed
qed

lemma ask_ok:
  assumes y: "client_ok y"
  shows "client_ok (client_step y (Ask ch method params needed random))"
proof (cases rule: request_begin_cases [of ch "method" "params" needed random "cy_world y"])
  case (refused e)
  with y show ?thesis by simp
next
  case (unsent connection key a w1)
  let ?wt = "\<lparr>wt_connection = connection, wt_key = key, wt_answer = a,
      wt_cancellation = sc_cancellation (ch_scope ch)\<rparr>"
  from unsent(2) obtain entries where e: "cw_pending (cy_world y) (cn_pending connection) = Some entries"
    and w1: "a = cw_next (cy_world y)" "cw_next w1 = Suc a"
      "cw_pending w1 = (cw_pending (cy_world y))(cn_pending connection := Some (AList.update key a entries))"
      "cw_answer w1 = (cw_answer (cy_world y))(a := None)"
    by (auto simp: register_def split: option.splits)
  have del: "(k, b) \<in> set es" if "(k, b) \<in> set (AList.delete key (AList.update key v es))" for k b v and es :: "(pending_key \<times> nat) list"
    using that by (induction es) (auto split: if_splits dest: set_delete_subset [THEN subsetD])
  have "client_ok (y\<lparr>cy_world := waiting_drop ?wt Answered w1\<rparr>)"
    using y by (rule client_ok_shrinks) (use w1 e in \<open>auto simp: waiting_drop_frame split: if_splits dest: del set_delete_subset [THEN subsetD]\<close>)
  with unsent(3) show ?thesis by simp
next
  case (sent connection payload rid a w1)
  let ?key = "\<lparr>pk_caller = cn_caller connection, pk_id = rid\<rparr>"
  let ?m = "request_with_id method (Some payload) (JString rid)"
  let ?wt = "\<lparr>wt_connection = connection, wt_key = ?key, wt_answer = a,
      wt_cancellation = sc_cancellation (ch_scope ch)\<rparr>"
  let ?y1 = "y\<lparr>cy_world := w1, cy_keys := (cy_keys y)(a := ?key)\<rparr>"
  let ?y2 = "y\<lparr>cy_world := fst (send_on connection ?m w1), cy_waiting := ?wt # cy_waiting y,
      cy_keys := (cy_keys y)(a := ?key)\<rparr>"
  have ok1: "client_ok ?y1" and a: "a < cw_next w1"
    using register_ok [OF y sent(4)] by simp_all
  have "client_ok ?y2"
  proof (rule client_okI)
    fix wt
    assume "wt \<in> set (cy_waiting ?y2)"
    then show "wt_answer wt < cw_next (cy_world ?y2) \<and> cy_keys ?y2 (wt_answer wt) = wt_key wt
        \<and> pk_caller (wt_key wt) = cn_caller (wt_connection wt)"
      using client_okD(3) [OF ok1, of wt] a by (auto simp: send_on_frame)
  qed (use client_okD(1,2) [OF ok1] in \<open>simp_all add: send_on_frame\<close>)
  with sent(5) show ?thesis by simp
qed

lemma client_step_ok: "client_ok y \<Longrightarrow> client_ok (client_step y e)"
proof (cases e)
  case (Poll wt elapsed)
  assume y: "client_ok y"
  show ?thesis
  proof (cases "request_poll (\<lambda>v. Inr v) wt elapsed (cy_world y)")
    case None
    with Poll y show ?thesis by simp
  next
    case (Some p)
    then obtain outcome where "fst p = waiting_drop wt outcome (cy_world y)"
      by (auto simp: request_poll_def Let_def split: if_splits option.splits)
    with Poll y Some waiting_drop_ok [OF y] show ?thesis by (simp add: split_beta)
  qed
next
  case (ClosePending t)
  assume "client_ok y"
  with ClosePending show ?thesis
    by (elim client_ok_shrinks) (auto simp: close_pending_def split: if_splits)
next
  case (Ask ch meth ps needed random)
  then show "client_ok y \<Longrightarrow> ?thesis" using ask_ok by blast
next
  case (Deliver t caller response)
  then show "client_ok y \<Longrightarrow> ?thesis" using deliver_ok by simp
next
  case (DropWaiting wt)
  then show "client_ok y \<Longrightarrow> ?thesis" using waiting_drop_ok by (simp add: request_drop_def)
next
  case (CloseQueue q)
  assume "client_ok y"
  then show ?thesis by (rule client_ok_shrinks) (simp_all add: CloseQueue)
next
  case (Fire token)
  assume "client_ok y"
  then show ?thesis by (rule client_ok_shrinks) (simp_all add: Fire)
next
  case (SessionWrite r s)
  assume "client_ok y"
  then show ?thesis by (rule client_ok_shrinks) (simp_all add: SessionWrite)
qed

interpretation clients: machine client_step client_ok
  by unfold_locales (rule client_step_ok)

interpretation client_tokens:
  settling_machine client_step client_ok "\<lambda>y t. t \<in> set (cw_fired (cy_world y))"
proof unfold_locales
  fix y e t
  assume "client_ok y" and t: "t \<in> set (cw_fired (cy_world y))"
  have drop: "cw_fired (waiting_drop wt outcome w) = cw_fired w" for wt outcome w
    by (simp add: waiting_drop_def Let_def send_on_frame forget_frame split: option.split)
  have reg: "register k key w = (w1, r) \<Longrightarrow> cw_fired w1 = cw_fired w" for k key w w1 r
    by (auto simp: register_def split: option.splits)
  show "t \<in> set (cw_fired (cy_world (client_step y e)))"
  proof (cases e)
    case (Ask ch meth ps needed random)
    show ?thesis
      by (cases rule: request_begin_cases [of ch meth ps needed random "cy_world y"])
        (use Ask t in \<open>auto simp: drop send_on_frame dest: reg\<close>)
  qed (use t in \<open>auto simp: drop deliver_def Let_def forget_frame request_poll_def request_drop_def
      close_pending_def split: option.split json.split\<close>)
qed

subsection \<open>Properties\<close>

definition client_start :: "client_world \<Rightarrow> client_system" where
  "client_start w = \<lparr>cy_world = w, cy_waiting = [], cy_keys = \<lambda>_. \<lparr>pk_caller = key_unconnected \<lparr>user_id = None, tenant_id = None\<rparr>, pk_id = []\<rparr>\<rparr>"

text \<open>A world in which no request was made yet: every open table is empty.\<close>

definition quiet :: "client_world \<Rightarrow> bool" where
  "quiet w \<longleftrightarrow> (\<forall>t. cw_pending w t = None \<or> cw_pending w t = Some []) \<and> (\<forall>a. cw_answer w a = None)"

lemma client_start_ok: "quiet w \<Longrightarrow> client_ok (client_start w)"
proof (rule client_okI)
  fix t es k a
  assume "quiet w" "cw_pending (cy_world (client_start w)) t = Some es" "(k, a) \<in> set es"
  then have "es = []" unfolding quiet_def client_start_def by (metis client_system.select_convs(1) option.distinct(1) option.inject)
  with \<open>(k, a) \<in> set es\<close> show "a < cw_next (cy_world (client_start w)) \<and> cy_keys (client_start w) a = k" by simp
qed (simp_all add: quiet_def client_start_def)

text \<open>
  Only the caller a request was sent to can answer it: under every order of requests,
  deliveries, cancellations and disconnections, the answer a waiting request is given came in a
  response from exactly the caller (identity, and session or connection) the request went to,
  carrying exactly the id minted for it.
\<close>

theorem answered_by_the_caller_asked:
  assumes "quiet w" and "y = run client_step (client_start w) es" and "wt \<in> set (cy_waiting y)"
    and "cw_answer (cy_world y) (wt_answer wt) = Some (caller, response)"
  shows "caller = cn_caller (wt_connection wt) \<and> rs_id response = Some (JString (pk_id (wt_key wt)))"
proof -
  have "client_ok y"
    using assms(1,2) clients.run_inv [OF client_start_ok] by simp
  with client_okD(2) [OF this assms(4)] client_okD(3) [OF this assms(3)] show ?thesis by simp
qed

text \<open>
  Nothing reaches a client that may not. A server request goes out only in an
  \<open>initialize\<close>-era call over a session whose client declared the capability it needs, as one
  message with a waiter registered for its id; a progress notification only on a call that
  carried a token; a log message only at or above the level the client asked for, on a server
  that declares logging.
\<close>

theorem channel_sends_only_what_it_may:
  "(cw_out (fst (request_begin ch method params needed random w)) \<noteq> cw_out w \<longrightarrow>
      (\<exists>connection s payload rid wt. ch_connection ch = Some connection \<and> sc_era (ch_scope ch) = Legacy
        \<and> cn_session connection = Some s \<and> declared_in needed (s_capabilities (cw_sessions w s))
        \<and> params = Inr payload \<and> random = Inr rid
        \<and> snd (request_begin ch method params needed random w) = Inr wt
        \<and> wt_key wt = \<lparr>pk_caller = cn_caller connection, pk_id = rid\<rparr>
        \<and> cw_out (fst (request_begin ch method params needed random w))
            = sent_on connection (request_with_id method (Some payload) (JString rid)) w))
   \<and> (cw_out (progress ch amount whole message w) \<noteq> cw_out w \<longrightarrow> sc_progress_token (ch_scope ch) \<noteq> None)
   \<and> (cw_out (log_message ch level logger payload w) \<noteq> cw_out w \<longrightarrow> sc_logging (ch_scope ch)
        \<and> (\<exists>minimum \<le> level. sc_era (ch_scope ch) = Modern (Some minimum)
             \<or> sc_era (ch_scope ch) = Legacy
               \<and> (\<exists>s. channel_session ch = Some s \<and> s_log_level (cw_sessions w s) = Some minimum)))"
proof (intro conjI impI)
  have reg: "cw_out w1 = cw_out w \<and> cw_out_open w1 = cw_out_open w" if "register k key w = (w1, r)" for k key w1 r
    using that by (auto simp: register_def split: option.splits)
  assume out: "cw_out (fst (request_begin ch method params needed random w)) \<noteq> cw_out w"
  show "\<exists>connection s payload rid wt. ch_connection ch = Some connection \<and> sc_era (ch_scope ch) = Legacy
        \<and> cn_session connection = Some s \<and> declared_in needed (s_capabilities (cw_sessions w s))
        \<and> params = Inr payload \<and> random = Inr rid
        \<and> snd (request_begin ch method params needed random w) = Inr wt
        \<and> wt_key wt = \<lparr>pk_caller = cn_caller connection, pk_id = rid\<rparr>
        \<and> cw_out (fst (request_begin ch method params needed random w))
            = sent_on connection (request_with_id method (Some payload) (JString rid)) w"
  proof (cases rule: request_begin_cases [of ch "method" "params" needed random w])
    case (refused e)
    with out show ?thesis by simp
  next
    case (unsent connection key a w1)
    with out reg [OF unsent(2)] show ?thesis by (simp add: waiting_drop_out abandon_reason_def)
  next
    case (sent connection payload rid a w1)
    from sent(1) obtain s where "ch_connection ch = Some connection" "sc_era (ch_scope ch) = Legacy"
      "cn_session connection = Some s" "declared_in needed (s_capabilities (cw_sessions w s))"
      by (auto simp: request_allowed_def split: option.splits era.splits if_splits)
    moreover have "sent_on connection m w1 = sent_on connection m w" for m
      using reg [OF sent(4)] by (simp add: sent_on_def split: option.split)
    ultimately show ?thesis using sent(2,3,5) by (auto simp: send_on_out)
  qed
next
  assume "cw_out (progress ch amount whole message w) \<noteq> cw_out w"
  then show "sc_progress_token (ch_scope ch) \<noteq> None"
    by (auto simp: progress_def split: option.splits)
next
  assume "cw_out (log_message ch level logger payload w) \<noteq> cw_out w"
  then have wants: "wants_log ch level w" by (auto simp: log_message_def split: if_splits)
  then show "sc_logging (ch_scope ch)"
    by (auto simp: wants_log_def wanted_level_def split: option.splits if_splits)
  from wants show "\<exists>minimum \<le> level. sc_era (ch_scope ch) = Modern (Some minimum)
             \<or> sc_era (ch_scope ch) = Legacy
               \<and> (\<exists>s. channel_session ch = Some s \<and> s_log_level (cw_sessions w s) = Some minimum)"
    by (auto simp: wants_log_def wanted_level_def split: option.splits if_splits era.splits Option.bind_splits)
qed

lemma response_result_kinds:
  "response_result decode response \<noteq> Inl CallCancelled \<and> response_result decode response \<noteq> Inl (TimedOut d)
   \<and> response_result decode response \<noteq> Inl Disconnected"
  by (simp add: response_result_def split: option.split sum.split)

text \<open>
  How a wait ends, and what it leaves. A cancelled call wins over an answer, an answer over
  the clock; the call learns which. However it ends the request is forgotten, so a late answer
  finds no one, and the client is told the server no longer wants the answer exactly when it was
  cancelled or timed out.
\<close>

theorem wait_ends_cleanly:
  assumes poll: "request_poll decode wt elapsed w = Some (w', res)"
    and late: "rs_id response = Some (JString (pk_id (wt_key wt)))"
  shows "(res = Inl CallCancelled \<longleftrightarrow> wt_cancellation wt \<in> set (cw_fired w))
    \<and> (case cw_answer w (wt_answer wt) of
         Some (_, answer) \<Rightarrow> wt_cancellation wt \<in> set (cw_fired w) \<or> res = response_result decode answer
       | None \<Rightarrow> wt_cancellation wt \<in> set (cw_fired w)
           \<or> res = (if sender_alive (wt_connection wt) (wt_answer wt) w
                    then Inl (TimedOut (cn_timeout (wt_connection wt))) else Inl Disconnected))
    \<and> snd (deliver (cn_pending (wt_connection wt)) (pk_caller (wt_key wt)) response w') = False
    \<and> cw_out w' =
        (case res of
           Inl CallCancelled \<Rightarrow> sent_on (wt_connection wt)
             (cancel_notice (pk_id (wt_key wt)) ''The call that sent this request was cancelled'') w
         | Inl (TimedOut _) \<Rightarrow> sent_on (wt_connection wt)
             (cancel_notice (pk_id (wt_key wt)) ''The server stopped waiting for an answer'') w
         | _ \<Rightarrow> cw_out w)"
proof -
  obtain outcome where w': "w' = waiting_drop wt outcome w"
    using poll by (auto simp: request_poll_def Let_def split: if_splits option.splits)
  have key: "\<lparr>pk_caller = pk_caller (wt_key wt), pk_id = pk_id (wt_key wt)\<rparr> = wt_key wt" by simp
  have "snd (deliver (cn_pending (wt_connection wt)) (pk_caller (wt_key wt)) response w') = False"
    using late key by (cases "cw_pending w (cn_pending (wt_connection wt))")
      (simp_all add: deliver_def Let_def w' waiting_drop_frame map_of_delete)
  moreover have "(res = Inl CallCancelled \<longleftrightarrow> wt_cancellation wt \<in> set (cw_fired w))
    \<and> (case cw_answer w (wt_answer wt) of
         Some (_, answer) \<Rightarrow> wt_cancellation wt \<in> set (cw_fired w) \<or> res = response_result decode answer
       | None \<Rightarrow> wt_cancellation wt \<in> set (cw_fired w)
           \<or> res = (if sender_alive (wt_connection wt) (wt_answer wt) w
                    then Inl (TimedOut (cn_timeout (wt_connection wt))) else Inl Disconnected))"
    using poll response_result_kinds
    by (auto simp: request_poll_def Let_def split: if_splits option.splits)
  moreover have "cw_out w' =
        (case res of
           Inl CallCancelled \<Rightarrow> sent_on (wt_connection wt)
             (cancel_notice (pk_id (wt_key wt)) ''The call that sent this request was cancelled'') w
         | Inl (TimedOut _) \<Rightarrow> sent_on (wt_connection wt)
             (cancel_notice (pk_id (wt_key wt)) ''The server stopped waiting for an answer'') w
         | _ \<Rightarrow> cw_out w)"
  proof (cases "wt_cancellation wt \<in> set (cw_fired w)")
    case True
    with poll show ?thesis
      by (auto simp: request_poll_def Let_def waiting_drop_out abandon_reason_def)
  next
    case False
    show ?thesis
    proof (cases "cw_answer w (wt_answer wt)")
      case (Some p)
      with False poll have "res = response_result decode (snd p)" "cw_out w' = cw_out w"
        by (auto simp: request_poll_def Let_def waiting_drop_out abandon_reason_def split: prod.splits)
      then show ?thesis
        using response_result_kinds [of decode "snd p"] by (auto split: sum.split client_request_error.split)
    next
      case None
      with False poll show ?thesis
        by (auto simp: request_poll_def Let_def waiting_drop_out abandon_reason_def split: if_splits)
    qed
  qed
  ultimately show ?thesis by blast
qed

subsection \<open>A sample call\<close>

definition sample_key :: caller_key where
  "sample_key = \<lparr>ck_user = Some ''u1'', ck_tenant = None, ck_channel = SessionChannel ''s''\<rparr>"

definition sample_connection :: client_connection where
  "sample_connection =
     \<lparr>cn_outbound = Some 0, cn_pending = 0, cn_session = Some 0, cn_caller = sample_key, cn_timeout = 9\<rparr>"

definition sample_channel :: client_channel where
  "sample_channel = for_legacy_call None True 1 (connected 0 sample_connection)"

definition sample_client :: client_world where
  "sample_client =
     \<lparr>cw_pending = \<lambda>_. Some [], cw_out = \<lambda>_. [], cw_out_open = \<lambda>_. True, cw_answer = \<lambda>_. None,
      cw_listening = \<lambda>_. False, cw_next = 0,
      cw_sessions = \<lambda>_. (connection_session 0 0)\<lparr>s_capabilities := \<lparr>dc_sampling = True, dc_form_elicitation = False\<rparr>\<rparr>,
      cw_fired = []\<rparr>"

definition sample_response :: rpc_response where
  "sample_response = response_success (Some (JString ''r1'')) (JObject [])"

definition sample_asked :: client_system where
  "sample_asked = run client_step (client_start sample_client)
     [Ask sample_channel ''sampling/createMessage'' (Inr (JObject [])) Sampling (Inr ''r1''),
      Deliver 0 sample_key sample_response]"

definition sample_waiting :: waiting where
  "sample_waiting = \<lparr>wt_connection = sample_connection, wt_key = \<lparr>pk_caller = sample_key, pk_id = ''r1''\<rparr>,
     wt_answer = 0, wt_cancellation = 1\<rparr>"

lemma sample_asked_waits:
  "sample_waiting \<in> set (cy_waiting sample_asked)
   \<and> cw_answer (cy_world sample_asked) (wt_answer sample_waiting) = Some (sample_key, sample_response)"
  by code_simp

lemma answered_by_the_caller_asked_witness:
  "\<exists>caller. cw_answer (cy_world sample_asked) 0 = Some (caller, sample_response) \<and> caller = sample_key"
proof -
  have "quiet sample_client" by (simp add: quiet_def sample_client_def)
  from answered_by_the_caller_asked [OF this refl, of sample_waiting, folded sample_asked_def]
    sample_asked_waits
  show ?thesis
    using answered_by_the_caller_asked [OF \<open>quiet sample_client\<close> sample_asked_def]
    by (auto simp: sample_waiting_def sample_connection_def)
qed

lemma channel_sends_only_what_it_may_witness:
  "cw_out (fst (request_begin sample_channel ''sampling/createMessage'' (Inr (JObject [])) Sampling (Inr ''r1'') sample_client))
     \<noteq> cw_out sample_client
   \<and> (\<exists>wt. snd (request_begin sample_channel ''sampling/createMessage'' (Inr (JObject [])) Sampling (Inr ''r1'') sample_client)
        = Inr wt)"
proof -
  have "cw_out (fst (request_begin sample_channel ''sampling/createMessage'' (Inr (JObject [])) Sampling (Inr ''r1'') sample_client)) 0
      \<noteq> cw_out sample_client 0"
    by code_simp
  then have "cw_out (fst (request_begin sample_channel ''sampling/createMessage'' (Inr (JObject [])) Sampling (Inr ''r1'') sample_client))
      \<noteq> cw_out sample_client" by metis
  with channel_sends_only_what_it_may [of sample_channel "''sampling/createMessage''" "Inr (JObject [])"
      Sampling "Inr ''r1''" sample_client]
  show ?thesis by blast
qed

lemma wait_ends_cleanly_witness:
  "\<exists>w' res. request_poll (\<lambda>v. Inr v) sample_waiting 3 (cy_world sample_asked) = Some (w', res)
     \<and> res = Inr (JObject [])"
proof -
  obtain w' res where p: "request_poll (\<lambda>v. Inr v) sample_waiting 3 (cy_world sample_asked) = Some (w', res)"
    and "wt_cancellation sample_waiting \<notin> set (cw_fired (cy_world sample_asked))"
  proof -
    have "map_option snd (request_poll (\<lambda>v. Inr v) sample_waiting 3 (cy_world sample_asked)) = Some (Inr (JObject []))"
      "wt_cancellation sample_waiting \<notin> set (cw_fired (cy_world sample_asked))"
      by code_simp+
    with that show thesis by auto
  qed
  moreover have late: "rs_id sample_response = Some (JString (pk_id (wt_key sample_waiting)))" by code_simp
  ultimately show ?thesis
    using wait_ends_cleanly [OF p late] sample_asked_waits
    by (auto simp: response_result_def sample_response_def response_success_def)
qed

end
