(* ===== verification/Cancellation.thy ===== *)
theory Cancellation
  imports Caller_Key
begin

text \<open>
  The registry of requests in flight, through which \<^verbatim>\<open>notifications/cancelled\<close> reaches a running
  request (\<^verbatim>\<open>src/mcp/cancellation.rs\<close>).

  The key of a request is its caller and the JSON text of its id, which \<^verbatim>\<open>serde_json\<close> writes:
  \<open>text\<close> is an argument (\<open>id_text\<close>). A token is a number; \<open>fl_fired\<close> holds those the registry
  cancelled.
\<close>

record request_key =
  rk_caller :: caller_key
  rk_request :: string

record request_context =
  rc_identity :: identity
  rc_caller :: "caller_key option"

definition request_key_new :: "(json \<Rightarrow> string) \<Rightarrow> request_context \<Rightarrow> json \<Rightarrow> request_key option" where
  "request_key_new id_text ctx request_id =
     (let caller = unwrap_or (rc_caller ctx) (key_unconnected (rc_identity ctx)) in
      if tells_callers_apart caller
      then Some \<lparr>rk_caller = caller, rk_request = id_text request_id\<rparr> else None)"

type_synonym in_flight_entry = "64 word \<times> token"

record in_flight =
  fl_next_serial :: "64 word"
  fl_entries :: "(request_key, in_flight_entry list) table"
  fl_fired :: "token list"

definition in_flight_new :: in_flight where
  "in_flight_new = \<lparr>fl_next_serial = 0, fl_entries = [], fl_fired = []\<rparr>"

record in_flight_guard =
  g_key :: "request_key option"
  g_serial :: "64 word"
  g_token :: token

text \<open>\<open>token\<close> is the child of the context's token the request gets.\<close>

definition register ::
  "(json \<Rightarrow> string) \<Rightarrow> request_context \<Rightarrow> token \<Rightarrow> json \<Rightarrow> in_flight \<Rightarrow> in_flight \<times> in_flight_guard" where
  "register id_text ctx token request_id w =
     (let key = request_key_new id_text ctx request_id;
          serial = fl_next_serial w;
          w1 = w\<lparr>fl_next_serial := serial + 1\<rparr>;
          w2 = (case key of
                  None \<Rightarrow> w1
                | Some k \<Rightarrow>
                    w1\<lparr>fl_entries := AList.update k
                         (unwrap_or (map_of (fl_entries w1) k) [] @ [(serial, token)]) (fl_entries w1)\<rparr>)
      in (w2, \<lparr>g_key = key, g_serial = serial, g_token = token\<rparr>))"

definition cancel_request ::
  "(json \<Rightarrow> string) \<Rightarrow> request_context \<Rightarrow> json \<Rightarrow> in_flight \<Rightarrow> in_flight \<times> bool" where
  "cancel_request id_text ctx request_id w =
     (case request_key_new id_text ctx request_id of
        None \<Rightarrow> (w, False)
      | Some key \<Rightarrow>
          (case map_of (fl_entries w) key of
             None \<Rightarrow> (w, False)
           | Some entries \<Rightarrow>
               (w\<lparr>fl_fired := map snd entries @ fl_fired w\<rparr>, entries \<noteq> [])))"

definition release_request :: "request_key \<Rightarrow> 64 word \<Rightarrow> in_flight \<Rightarrow> in_flight" where
  "release_request key serial w =
     (case map_of (fl_entries w) key of
        None \<Rightarrow> w
      | Some live \<Rightarrow>
          (let live' = filter (\<lambda>(entry_serial, _). entry_serial \<noteq> serial) live in
           if live' = [] then w\<lparr>fl_entries := AList.delete key (fl_entries w)\<rparr>
           else w\<lparr>fl_entries := AList.update key live' (fl_entries w)\<rparr>))"

definition guard_drop :: "in_flight_guard \<Rightarrow> in_flight \<Rightarrow> in_flight" where
  "guard_drop guard w =
     (case g_key guard of None \<Rightarrow> w | Some key \<Rightarrow> release_request key (g_serial guard) w)"

definition cancelled_request_id :: "json option \<Rightarrow> json option" where
  "cancelled_request_id params =
     (case param params ''requestId'' of
        None \<Rightarrow> None
      | Some rid \<Rightarrow> if is_string rid \<or> is_number rid then Some rid else None)"

subsection \<open>The registry and its outstanding guards\<close>

text \<open>A server's registry with the guards alive, over every order of registering, cancelling
  and dropping. The counter of serials is kept below its width by the number of requests ever
  registered.\<close>

record flights =
  fs_registry :: in_flight
  fs_guards :: "in_flight_guard list"
  fs_count :: nat

datatype flight_event =
    Registered request_context token json
  | CancelNotified request_context json
  | Dropped in_flight_guard

definition flights_new :: flights where
  "flights_new = \<lparr>fs_registry = in_flight_new, fs_guards = [], fs_count = 0\<rparr>"

fun flight_step :: "(json \<Rightarrow> string) \<Rightarrow> flights \<Rightarrow> flight_event \<Rightarrow> flights" where
  "flight_step id_text y (Registered ctx token rid) =
     (case register id_text ctx token rid (fs_registry y) of
        (w, guard) \<Rightarrow> y\<lparr>fs_registry := w, fs_guards := fs_guards y @ [guard], fs_count := Suc (fs_count y)\<rparr>)"
| "flight_step id_text y (CancelNotified ctx rid) =
     y\<lparr>fs_registry := fst (cancel_request id_text ctx rid (fs_registry y))\<rparr>"
| "flight_step id_text y (Dropped guard) =
     (if guard \<in> set (fs_guards y)
      then y\<lparr>fs_registry := guard_drop guard (fs_registry y),
             fs_guards := filter (\<lambda>g. g \<noteq> guard) (fs_guards y)\<rparr>
      else y)"

text \<open>The entry of a key is exactly its outstanding guards, in order of registration.\<close>

definition guards_of :: "request_key \<Rightarrow> in_flight_guard list \<Rightarrow> in_flight_entry list" where
  "guards_of key guards = map (\<lambda>g. (g_serial g, g_token g)) (filter (\<lambda>g. g_key g = Some key) guards)"

definition flights_ok :: "flights \<Rightarrow> bool" where
  "flights_ok y \<longleftrightarrow>
     distinct_keys (fl_entries (fs_registry y))
     \<and> fl_next_serial (fs_registry y) = of_nat (fs_count y)
     \<and> (fs_count y < 2 ^ 64 \<longrightarrow>
          distinct (map g_serial (fs_guards y))
          \<and> (\<forall>g \<in> set (fs_guards y). unat (g_serial g) < fs_count y)
          \<and> (\<forall>key. map_of (fl_entries (fs_registry y)) key =
               (if guards_of key (fs_guards y) = [] then None else Some (guards_of key (fs_guards y)))))"

lemma guards_of_append [simp]: "guards_of key (xs @ ys) = guards_of key xs @ guards_of key ys"
  by (simp add: guards_of_def)

lemma guards_of_single: "guards_of key [g] = (if g_key g = Some key then [(g_serial g, g_token g)] else [])"
  by (simp add: guards_of_def)

lemma flights_new_ok: "flights_ok flights_new"
  by (simp add: flights_ok_def flights_new_def in_flight_new_def guards_of_def)

lemma guards_of_remove:
  assumes "distinct (map g_serial gs)" and "g \<in> set gs"
  shows "guards_of key (filter (\<lambda>g'. g' \<noteq> g) gs) =
    (if g_key g = Some key then filter (\<lambda>(s, _). s \<noteq> g_serial g) (guards_of key gs)
     else guards_of key gs)"
proof -
  have same: "g' = g \<longleftrightarrow> g_serial g' = g_serial g" if "g' \<in> set gs" for g'
    using assms that by (auto simp: distinct_map inj_on_def)
  have "filter (\<lambda>(s, _). s \<noteq> g_serial g) (guards_of key gs)
      = map (\<lambda>g. (g_serial g, g_token g)) (filter (\<lambda>g'. g_key g' = Some key \<and> g_serial g' \<noteq> g_serial g) gs)"
    by (simp add: guards_of_def filter_map comp_def conj_commute)
  also have "filter (\<lambda>g'. g_key g' = Some key \<and> g_serial g' \<noteq> g_serial g) gs
      = filter (\<lambda>g'. g_key g' = Some key) (filter (\<lambda>g'. g' \<noteq> g) gs)"
    using same by (auto intro: filter_cong)
  finally have 1: "filter (\<lambda>(s, _). s \<noteq> g_serial g) (guards_of key gs)
      = guards_of key (filter (\<lambda>g'. g' \<noteq> g) gs)"
    by (simp add: guards_of_def)
  have 2: "guards_of key (filter (\<lambda>g'. g' \<noteq> g) gs) = guards_of key gs" if "g_key g \<noteq> Some key"
    unfolding guards_of_def using that
    by (intro arg_cong [of _ _ "map _"]) (auto intro: filter_cong)
  show ?thesis using 1 2 by simp
qed

lemma register_step_ok: "flights_ok y \<Longrightarrow> flights_ok (flight_step id_text y (Registered ctx token rid))"
proof -
  assume y: "flights_ok y"
  let ?w = "fs_registry y" and ?gs = "fs_guards y" and ?key = "request_key_new id_text ctx rid"
  let ?g = "\<lparr>g_key = ?key, g_serial = fl_next_serial ?w, g_token = token\<rparr>"
  let ?y = "flight_step id_text y (Registered ctx token rid)"
  have guards: "fs_guards ?y = ?gs @ [?g]" and count: "fs_count ?y = Suc (fs_count y)"
    and serial: "fl_next_serial (fs_registry ?y) = of_nat (fs_count ?y)"
    and dist: "distinct_keys (fl_entries (fs_registry ?y))"
    using y by (auto simp: register_def Let_def flights_ok_def distinct_keys_update split: option.split)
  show ?thesis
  proof (cases "Suc (fs_count y) < 2 ^ 64")
    case False
    with dist serial count show ?thesis unfolding flights_ok_def by simp
  next
    case True
    then have small: "fs_count y < 2 ^ 64" by simp
    with y have ok: "distinct (map g_serial ?gs)" "\<forall>g \<in> set ?gs. unat (g_serial g) < fs_count y"
      "\<And>key. map_of (fl_entries ?w) key = (if guards_of key ?gs = [] then None else Some (guards_of key ?gs))"
      by (simp_all add: flights_ok_def)
    have next_serial: "unat (fl_next_serial ?w) = fs_count y"
      using y small by (simp add: flights_ok_def unat_of_nat)
    have "distinct (map g_serial (?gs @ [?g]))"
      using ok(1,2) next_serial by auto
    moreover have "\<forall>g \<in> set (?gs @ [?g]). unat (g_serial g) < Suc (fs_count y)"
      using ok(2) next_serial by auto
    moreover have "map_of (fl_entries (fs_registry ?y)) key =
        (if guards_of key (?gs @ [?g]) = [] then None else Some (guards_of key (?gs @ [?g])))" for key
      using ok(3) [of key]
      by (cases ?key) (auto simp: register_def Let_def map_of_update guards_of_single unwrap_or_def split: if_splits)
    ultimately show ?thesis
      using dist serial count guards unfolding flights_ok_def by simp
  qed
qed

lemma drop_step_ok: "flights_ok y \<Longrightarrow> flights_ok (flight_step id_text y (Dropped g))"
proof (cases "g \<in> set (fs_guards y)")
  case False
  then show "flights_ok y \<Longrightarrow> ?thesis" by simp
next
  case True
  assume y: "flights_ok y"
  let ?w = "fs_registry y" and ?gs = "fs_guards y" and ?gs' = "filter (\<lambda>g'. g' \<noteq> g) (fs_guards y)"
  let ?y = "flight_step id_text y (Dropped g)"
  have dist: "distinct_keys (fl_entries (fs_registry ?y))" and serial: "fl_next_serial (fs_registry ?y) = of_nat (fs_count ?y)"
    and count: "fs_count ?y = fs_count y" and guards: "fs_guards ?y = ?gs'"
    using y True by (auto simp: flights_ok_def guard_drop_def release_request_def Let_def
        distinct_keys_delete distinct_keys_update split: option.split)
  have "map_of (fl_entries (fs_registry ?y)) key = (if guards_of key ?gs' = [] then None else Some (guards_of key ?gs'))"
    if small: "fs_count y < 2 ^ 64" for key
  proof -
    have ok: "distinct (map g_serial ?gs)"
      "\<And>key. map_of (fl_entries ?w) key = (if guards_of key ?gs = [] then None else Some (guards_of key ?gs))"
      using y small by (simp_all add: flights_ok_def)
    note rem = guards_of_remove [OF ok(1) True, of key]
    show ?thesis
    proof (cases "g_key g")
      case None
      with True ok(2) [of key] rem show ?thesis by (simp add: guard_drop_def)
    next
      case (Some k)
      show ?thesis
      proof (cases "k = key")
        case False
        with Some True ok(2) [of key] rem show ?thesis
          by (simp add: guard_drop_def release_request_def Let_def map_of_delete map_of_update split: option.split)
      next
        case True: True
        have "guards_of key ?gs \<noteq> []"
          using Some True \<open>g \<in> set (fs_guards y)\<close> by (auto simp: guards_of_def filter_empty_conv)
        with Some True ok(2) [of key] rem \<open>g \<in> set (fs_guards y)\<close> show ?thesis
          by (simp add: guard_drop_def release_request_def Let_def map_of_delete map_of_update)
      qed
    qed
  qed
  moreover have "distinct (map g_serial ?gs')" "\<forall>g \<in> set ?gs'. unat (g_serial g) < fs_count y"
    if "fs_count y < 2 ^ 64"
    using y that by (auto simp: flights_ok_def distinct_map_filter)
  ultimately show ?thesis
    using dist serial count guards unfolding flights_ok_def by simp
qed

lemma flight_step_ok: "flights_ok y \<Longrightarrow> flights_ok (flight_step id_text y e)"
proof (cases e)
  case (CancelNotified ctx rid)
  have "fl_entries (fst (cancel_request id_text ctx rid w)) = fl_entries w"
    "fl_next_serial (fst (cancel_request id_text ctx rid w)) = fl_next_serial w" for w
    by (simp_all add: cancel_request_def split: option.split)
  with CancelNotified show "flights_ok y \<Longrightarrow> ?thesis" by (simp add: flights_ok_def)
qed (use register_step_ok drop_step_ok in blast)+

interpretation in_flight: machine "flight_step id_text" flights_ok for id_text
  by unfold_locales (rule flight_step_ok)

interpretation in_flight_tokens:
  settling_machine "flight_step id_text" flights_ok "\<lambda>y t. t \<in> set (fl_fired (fs_registry y))" for id_text
proof unfold_locales
  fix y e t
  assume "flights_ok y" and "t \<in> set (fl_fired (fs_registry y))"
  then show "t \<in> set (fl_fired (fs_registry (flight_step id_text y e)))"
    by (cases e) (auto simp: register_def cancel_request_def guard_drop_def release_request_def Let_def
        split: option.split)
qed

lemma flight_count: "fs_count (run (flight_step id_text) y es) \<le> fs_count y + length es"
proof (induction es arbitrary: y)
  case (Cons e es)
  have "fs_count (flight_step id_text y e) \<le> Suc (fs_count y)"
    by (cases e) (auto split: prod.split)
  with Cons.IH [of "flight_step id_text y e"] show ?case by simp
qed simp

text \<open>Every guard alive is of a request registered in the sequence.\<close>

lemma guards_were_registered:
  assumes "g \<in> set (fs_guards (run (flight_step id_text) y es))"
  shows "g \<in> set (fs_guards y)
    \<or> (\<exists>ctx rid. Registered ctx (g_token g) rid \<in> set es \<and> g_key g = request_key_new id_text ctx rid)"
  using assms
proof (induction es arbitrary: y)
  case (Cons e es)
  then have "g \<in> set (fs_guards (flight_step id_text y e))
      \<or> (\<exists>ctx rid. Registered ctx (g_token g) rid \<in> set es \<and> g_key g = request_key_new id_text ctx rid)"
    by simp
  moreover have "g \<in> set (fs_guards y)
      \<or> (\<exists>ctx rid. e = Registered ctx (g_token g) rid \<and> g_key g = request_key_new id_text ctx rid)"
    if "g \<in> set (fs_guards (flight_step id_text y e))"
    using that by (cases e) (auto simp: register_def Let_def split: if_splits)
  ultimately show ?case by auto
qed simp

text \<open>The caller a context names.\<close>

definition context_caller :: "request_context \<Rightarrow> caller_key" where
  "context_caller ctx = unwrap_or (rc_caller ctx) (key_unconnected (rc_identity ctx))"

lemma request_key_new_eq:
  "request_key_new id_text ctx rid = (if tells_callers_apart (context_caller ctx)
     then Some \<lparr>rk_caller = context_caller ctx, rk_request = id_text rid\<rparr> else None)"
  by (simp add: request_key_new_def context_caller_def Let_def)

text \<open>
  A cancellation reaches exactly the requests it may. After any sequence of fewer than
  \<open>2 ^ 64\<close> events, a notification from a caller that can be told apart fires the tokens of the
  requests still running under that caller and id text, all of them and no others, and answers
  whether there were any; from a caller that cannot be told apart it fires nothing. Each token
  newly fired was registered by that very caller, under an id of the same text.
\<close>

theorem cancel_reaches_own_requests:
  assumes "y = run (flight_step id_text) flights_new es" and "length es < 2 ^ 64"
    and "cancel_request id_text ctx rid (fs_registry y) = (w', found)"
  shows "set (fl_fired w') = set (fl_fired (fs_registry y))
      \<union> {g_token g | g. g \<in> set (fs_guards y) \<and> tells_callers_apart (context_caller ctx)
           \<and> g_key g = Some \<lparr>rk_caller = context_caller ctx, rk_request = id_text rid\<rparr>}
    \<and> (found \<longleftrightarrow> (\<exists>g \<in> set (fs_guards y). tells_callers_apart (context_caller ctx)
           \<and> g_key g = Some \<lparr>rk_caller = context_caller ctx, rk_request = id_text rid\<rparr>))
    \<and> (\<forall>t \<in> set (fl_fired w') - set (fl_fired (fs_registry y)). \<exists>ctx' rid'.
         Registered ctx' t rid' \<in> set es \<and> context_caller ctx' = context_caller ctx
         \<and> id_text rid' = id_text rid)
    \<and> fl_entries w' = fl_entries (fs_registry y)"
proof -
  let ?key = "\<lparr>rk_caller = context_caller ctx, rk_request = id_text rid\<rparr>"
  have y: "flights_ok y"
    using assms(1) in_flight.run_inv [OF flights_new_ok] by simp
  have "fs_count y < 2 ^ 64"
    using assms(1,2) flight_count [of id_text flights_new es] by (simp add: flights_new_def)
  with y have look: "map_of (fl_entries (fs_registry y)) key =
      (if guards_of key (fs_guards y) = [] then None else Some (guards_of key (fs_guards y)))" for key
    by (simp add: flights_ok_def)
  have tokens: "snd ` set (guards_of key gs) = {g_token g | g. g \<in> set gs \<and> g_key g = Some key}"
    and none: "guards_of key gs = [] \<longleftrightarrow> \<not> (\<exists>g \<in> set gs. g_key g = Some key)" for key gs
    by (auto simp: guards_of_def filter_empty_conv image_iff)
  have fired: "set (fl_fired w') = set (fl_fired (fs_registry y))
      \<union> {g_token g | g. g \<in> set (fs_guards y) \<and> tells_callers_apart (context_caller ctx) \<and> g_key g = Some ?key}
    \<and> (found \<longleftrightarrow> (\<exists>g \<in> set (fs_guards y). tells_callers_apart (context_caller ctx) \<and> g_key g = Some ?key))
    \<and> fl_entries w' = fl_entries (fs_registry y)"
  proof (cases "tells_callers_apart (context_caller ctx) \<and> guards_of ?key (fs_guards y) \<noteq> []")
    case True
    with look [of ?key] assms(3)
    have "w' = (fs_registry y)\<lparr>fl_fired := map snd (guards_of ?key (fs_guards y)) @ fl_fired (fs_registry y)\<rparr> \<and> found"
      by (simp add: cancel_request_def request_key_new_eq)
    with True none [of ?key "fs_guards y"] tokens [of ?key "fs_guards y"] show ?thesis by auto
  next
    case False
    with look [of ?key] assms(3) have "w' = fs_registry y \<and> \<not> found"
      by (auto simp: cancel_request_def request_key_new_eq split: if_splits)
    with False none [of ?key "fs_guards y"] show ?thesis by auto
  qed
  have "\<exists>ctx' rid'. Registered ctx' (g_token g) rid' \<in> set es \<and> context_caller ctx' = context_caller ctx
      \<and> id_text rid' = id_text rid"
    if "g \<in> set (fs_guards y)" and "g_key g = Some ?key" for g
    using guards_were_registered [of g id_text flights_new es] assms(1) that
    by (auto simp: flights_new_def request_key_new_eq split: if_splits)
  with fired show ?thesis by blast
qed

definition sample_context :: "nat \<Rightarrow> request_context" where
  "sample_context n =
     \<lparr>rc_identity = \<lparr>user_id = None, tenant_id = None\<rparr>,
      rc_caller = Some (snd (key_connection (of_nat n) \<lparr>user_id = None, tenant_id = None\<rparr>))\<rparr>"

lemma context_caller_sample:
  "context_caller (sample_context n) = snd (key_connection (of_nat n) \<lparr>user_id = None, tenant_id = None\<rparr>)"
  by (simp add: context_caller_def sample_context_def unwrap_or_def)

lemma tells_apart_sample: "tells_callers_apart (context_caller (sample_context n))"
  by (simp add: context_caller_sample key_connection_def with_channel_def tells_callers_apart_def)

lemma cancel_reaches_own_requests_witness:
  "(let y = run (flight_step (\<lambda>_. ''1'')) flights_new
        [Registered (sample_context 0) 7 JNull, Registered (sample_context 1) 8 JNull] in
    set (fl_fired (fst (cancel_request (\<lambda>_. ''1'') (sample_context 0) JNull (fs_registry y)))) = {7})"
proof -
  let ?y = "run (flight_step (\<lambda>_. ''1'')) flights_new
        [Registered (sample_context 0) 7 JNull, Registered (sample_context 1) 8 JNull]"
  let ?key = "\<lambda>n. \<lparr>rk_caller = context_caller (sample_context n), rk_request = ''1''\<rparr>"
  obtain w' found where c: "cancel_request (\<lambda>_. ''1'') (sample_context 0) JNull (fs_registry ?y) = (w', found)"
    by (cases "cancel_request (\<lambda>_. ''1'') (sample_context 0) JNull (fs_registry ?y)")
  have guards: "map (\<lambda>g. (g_key g, g_token g)) (fs_guards ?y) = [(Some (?key 0), 7), (Some (?key 1), 8)]"
    and fired: "fl_fired (fs_registry ?y) = []"
    by (simp_all add: register_def Let_def flights_new_def in_flight_new_def request_key_new_eq tells_apart_sample)
  have differ: "?key 1 \<noteq> ?key 0"
    by (simp add: context_caller_sample key_connection_def with_channel_def)
  have "{g_token g | g. g \<in> set (fs_guards ?y) \<and> tells_callers_apart (context_caller (sample_context 0))
      \<and> g_key g = Some (?key 0)}
    = snd ` (set (map (\<lambda>g. (g_key g, g_token g)) (fs_guards ?y)) \<inter> {(k, _). k = Some (?key 0)})"
    using tells_apart_sample [of 0] by force
  also have "\<dots> = {7}"
    unfolding guards using differ by auto
  finally have "set (fl_fired w') = {7}"
    using cancel_reaches_own_requests [OF refl _ c] unfolding fired by simp
  with c show ?thesis by (simp add: Let_def)
qed

text \<open>
  The registry holds nothing of a request that finished: after any sequence of fewer than
  \<open>2 ^ 64\<close> events its entries are those of the guards alive, so once every request is answered or
  dropped it is empty.
\<close>

theorem registry_holds_only_running_requests:
  assumes "y = run (flight_step id_text) flights_new es" and "length es < 2 ^ 64"
  shows "map_of (fl_entries (fs_registry y)) key =
      (if guards_of key (fs_guards y) = [] then None else Some (guards_of key (fs_guards y)))
    \<and> (fs_guards y = [] \<longrightarrow> fl_entries (fs_registry y) = [])"
proof -
  have y: "flights_ok y"
    using assms(1) in_flight.run_inv [OF flights_new_ok] by simp
  have "fs_count y < 2 ^ 64"
    using assms flight_count [of id_text flights_new es] by (simp add: flights_new_def)
  with y have look: "map_of (fl_entries (fs_registry y)) key =
      (if guards_of key (fs_guards y) = [] then None else Some (guards_of key (fs_guards y)))" for key
    by (simp add: flights_ok_def)
  have "fl_entries (fs_registry y) = []" if "fs_guards y = []"
  proof (rule ccontr)
    assume "fl_entries (fs_registry y) \<noteq> []"
    then obtain k v where "map_of (fl_entries (fs_registry y)) k = Some v"
      by (metis list.set_intros(1) map_of_eq_None_iff neq_Nil_conv not_None_eq image_eqI)
    with look [of k] that show False by (simp add: guards_of_def)
  qed
  with look show ?thesis by blast
qed

lemma registry_holds_only_running_requests_witness:
  "(let key = request_key_new (\<lambda>_. ''1'') (sample_context 0) JNull;
        y = run (flight_step (\<lambda>_. ''1'')) flights_new
          [Registered (sample_context 0) 7 JNull, Dropped \<lparr>g_key = key, g_serial = 0, g_token = 7\<rparr>] in
    fl_entries (fs_registry y) = [])"
proof -
  let ?y = "run (flight_step (\<lambda>_. ''1'')) flights_new
      [Registered (sample_context 0) 7 JNull,
       Dropped \<lparr>g_key = request_key_new (\<lambda>_. ''1'') (sample_context 0) JNull, g_serial = 0, g_token = 7\<rparr>]"
  have "fs_guards ?y = []"
    by (simp add: register_def Let_def flights_new_def in_flight_new_def split: option.split)
  with registry_holds_only_running_requests [OF refl, where es =
      "[Registered (sample_context 0) 7 JNull,
        Dropped \<lparr>g_key = request_key_new (\<lambda>_. ''1'') (sample_context 0) JNull, g_serial = 0, g_token = 7\<rparr>]"
      and id_text = "\<lambda>_. ''1''"]
  show ?thesis by (simp add: Let_def)
qed

end
