(* ===== verification/Pagination.thy ===== *)
theory Pagination
  imports Json "HOL-Library.List_Lexorder" "HOL-Library.Char_ord"
begin

text \<open>
  Cursor pagination of the list methods (\<^verbatim>\<open>src/mcp/pagination.rs\<close>). Keys are compared byte by
  byte, as \<^verbatim>\<open>str\<close> is: the lexicographic order of character lists. The base64 codec is the
  \<^verbatim>\<open>base64\<close> package's: two arguments, on byte strings.
\<close>

record base64 =
  b64_encode :: "string \<Rightarrow> string"
  b64_decode :: "string \<Rightarrow> string option"

datatype invalid_cursor = InvalidCursor

record 'a page =
  p_items :: "'a list"
  p_next_cursor :: "string option"

definition cursor_param :: "json option \<Rightarrow> (invalid_cursor, string option) result" where
  "cursor_param params =
     (case param params ''cursor'' of
        None \<Rightarrow> Inr None
      | Some JNull \<Rightarrow> Inr None
      | Some (JString cursor) \<Rightarrow> Inr (Some cursor)
      | Some _ \<Rightarrow> Inl InvalidCursor)"

definition encode_cursor :: "base64 \<Rightarrow> string \<Rightarrow> string" where
  "encode_cursor codec key = b64_encode codec key"

definition decode_cursor :: "base64 \<Rightarrow> string \<Rightarrow> (invalid_cursor, string) result" where
  "decode_cursor codec cursor =
     result_bind (ok_or (b64_decode codec cursor) InvalidCursor)
       (\<lambda>bytes. if utf8_valid bytes then Inr bytes else Inl InvalidCursor)"

text \<open>\<^verbatim>\<open>slice::partition_point\<close> on a slice whose elements satisfying the predicate come first.\<close>

definition partition_point :: "('a \<Rightarrow> bool) \<Rightarrow> 'a list \<Rightarrow> nat" where
  "partition_point P xs = length (takeWhile P xs)"

text \<open>The page cut from what is left of the list.\<close>

definition cut_page :: "base64 \<Rightarrow> ('a \<Rightarrow> string) \<Rightarrow> nat option \<Rightarrow> 'a list \<Rightarrow> 'a page" where
  "cut_page codec key page_size rest =
     (case page_size of
        None \<Rightarrow> \<lparr>p_items = rest, p_next_cursor = None\<rparr>
      | Some n \<Rightarrow>
          if n < length rest
          then (let shown = take n rest in
                \<lparr>p_items = shown,
                 p_next_cursor =
                   (if shown = [] then None else Some (encode_cursor codec (key (last shown))))\<rparr>)
          else \<lparr>p_items = rest, p_next_cursor = None\<rparr>)"

definition paginate ::
  "base64 \<Rightarrow> ('a \<Rightarrow> string) \<Rightarrow> 'a list \<Rightarrow> string option \<Rightarrow> nat option \<Rightarrow> (invalid_cursor, 'a page) result" where
  "paginate codec key items cursor page_size =
     (let sorted_items = sort_key key items in
      result_bind
        (case cursor of
           None \<Rightarrow> Inr 0
         | Some c \<Rightarrow>
             result_bind (decode_cursor codec c)
               (\<lambda>after. Inr (partition_point (\<lambda>item. key item \<le> after) sorted_items)))
        (\<lambda>start. Inr (cut_page codec key page_size (drop start sorted_items))))"

text \<open>A client that follows \<open>nextCursor\<close> to the end, for at most \<open>fuel\<close> requests.\<close>

fun follow_pages ::
  "base64 \<Rightarrow> ('a \<Rightarrow> string) \<Rightarrow> 'a list \<Rightarrow> nat option \<Rightarrow> nat \<Rightarrow> string option
     \<Rightarrow> (invalid_cursor, 'a list list) result option" where
  "follow_pages codec key items page_size 0 cursor = None"
| "follow_pages codec key items page_size (Suc fuel) cursor =
     (case paginate codec key items cursor page_size of
        Inl e \<Rightarrow> Some (Inl e)
      | Inr page \<Rightarrow>
          (case p_next_cursor page of
             None \<Rightarrow> Some (Inr [p_items page])
           | Some c \<Rightarrow>
               map_option (\<lambda>more. result_bind more (\<lambda>pages. Inr (p_items page # pages)))
                 (follow_pages codec key items page_size fuel (Some c))))"

subsection \<open>Lemmas\<close>

lemma dropWhile_sorted:
  fixes key :: "'a \<Rightarrow> 'b::linorder"
  assumes "sorted (map key xs)"
  shows "dropWhile (\<lambda>x. key x \<le> k) xs = filter (\<lambda>x. k < key x) xs"
  using assms
proof (induction xs)
  case (Cons x xs)
  then show ?case
    by (cases "key x \<le> k") (auto simp: not_less intro!: filter_True [symmetric])
qed simp

lemma drop_partition_point:
  fixes key :: "'a \<Rightarrow> 'b::linorder"
  assumes "sorted (map key xs)"
  shows "drop (partition_point (\<lambda>x. key x \<le> k) xs) xs = filter (\<lambda>x. k < key x) xs"
  using dropWhile_sorted [OF assms] by (simp add: partition_point_def dropWhile_eq_drop)

text \<open>The items a page is cut from: those after the cursor's key, in key order.\<close>

definition remaining :: "('a \<Rightarrow> string) \<Rightarrow> 'a list \<Rightarrow> string option \<Rightarrow> 'a list" where
  "remaining key items after =
     (case after of None \<Rightarrow> sort_key key items | Some k \<Rightarrow> filter (\<lambda>x. k < key x) (sort_key key items))"

lemma paginate_Some:
  "decode_cursor codec c = Inr k \<Longrightarrow>
   paginate codec key items (Some c) page_size = Inr (cut_page codec key page_size (remaining key items (Some k)))"
  using drop_partition_point [of key "sort_key key items" k]
  by (simp add: paginate_def remaining_def Let_def)

lemma paginate_None:
  "paginate codec key items None page_size = Inr (cut_page codec key page_size (remaining key items None))"
  by (simp add: paginate_def remaining_def Let_def)

lemma remaining_sorted: "sorted (map key (remaining key items after))"
  by (simp add: remaining_def sorted_filter split: option.split)

lemma remaining_distinct:
  "distinct (map key items) \<Longrightarrow> distinct (map key (remaining key items after))"
proof -
  assume "distinct (map key items)"
  then have "distinct (map key (sort_key key items))"
    by (simp add: distinct_map)
  then show ?thesis by (simp add: remaining_def distinct_map_filter split: option.split)
qed

text \<open>With distinct keys, what remains after the last item of a page is what the page left.\<close>

lemma filter_after_take:
  fixes key :: "'a \<Rightarrow> 'b::linorder"
  assumes "sorted (map key xs)" and "distinct (map key xs)" and "0 < n" and "n < length xs"
  shows "filter (\<lambda>x. key (last (take n xs)) < key x) xs = drop n xs"
proof -
  let ?k = "key (last (take n xs))"
  have last: "last (take n xs) = xs ! (n - 1)"
    using assms(3,4) by (subst last_conv_nth) auto
  have strict: "sorted_wrt (<) (map key xs)"
    using assms(1,2) by (simp add: strict_sorted_iff)
  have "\<not> ?k < key x" if x: "x \<in> set (take n xs)" for x
  proof -
    obtain i where i: "i < n" "x = xs ! i" using x assms(4) by (auto simp: in_set_conv_nth)
    then have "key (xs ! i) \<le> key (xs ! (n - 1))"
      using sorted_nth_mono [OF assms(1), of i "n - 1"] assms(4) by simp
    with i last show ?thesis by (simp add: not_less)
  qed
  moreover have "?k < key x" if x: "x \<in> set (drop n xs)" for x
  proof -
    obtain i where "i < length (drop n xs)" "x = drop n xs ! i" using x unfolding in_set_conv_nth by blast
    then have i: "n + i < length xs" "x = xs ! (n + i)" by auto
    then have "key (xs ! (n - 1)) < key (xs ! (n + i))"
      using sorted_wrt_nth_less [OF strict, of "n - 1" "n + i"] assms(3) by simp
    with i last show ?thesis by simp
  qed
  ultimately have "filter (\<lambda>x. ?k < key x) (take n xs @ drop n xs) = drop n xs"
    by (simp only: filter_append) (simp add: filter_empty_conv)
  then show ?thesis by simp
qed

lemma remaining_after_page:
  assumes "distinct (map key items)" and "0 < n" and "n < length (remaining key items after)"
  shows "remaining key items (Some (key (last (take n (remaining key items after)))))
    = drop n (remaining key items after)"
proof -
  let ?r = "remaining key items after" and ?k = "key (last (take n (remaining key items after)))"
  have "?r \<noteq> []" "take n ?r \<noteq> []" using assms(2,3) by auto
  then have mem: "last (take n ?r) \<in> set ?r" using last_in_set in_set_takeD by metis
  have "filter (\<lambda>x. ?k < key x) ?r = remaining key items (Some ?k)"
  proof (cases after)
    case None
    then show ?thesis by (simp add: remaining_def)
  next
    case (Some k)
    then have "k < ?k" using mem by (auto simp: remaining_def)
    with Some show ?thesis by (auto simp: remaining_def intro: filter_cong)
  qed
  then show ?thesis
    using filter_after_take [OF remaining_sorted remaining_distinct [OF assms(1)], of n after] assms(2,3) by simp
qed

text \<open>What the base64 package documents: decoding undoes encoding.\<close>

definition codec_lawful :: "base64 \<Rightarrow> bool" where
  "codec_lawful codec \<longleftrightarrow> (\<forall>bytes. b64_decode codec (b64_encode codec bytes) = Some bytes)"

lemma decode_encode_cursor:
  "codec_lawful codec \<Longrightarrow> utf8_valid key \<Longrightarrow> decode_cursor codec (encode_cursor codec key) = Inr key"
  by (simp add: codec_lawful_def decode_cursor_def encode_cursor_def)

lemma remaining_set: "set (remaining key items after) \<subseteq> set items"
  by (auto simp: remaining_def split: option.splits)

lemma follow_pages_fuel:
  "follow_pages codec key items page_size fuel cursor = Some r \<Longrightarrow>
   follow_pages codec key items page_size (fuel + extra) cursor = Some r"
proof (induction fuel arbitrary: cursor r)
  case (Suc fuel)
  then show ?case by (auto split: sum.splits option.splits)
qed simp

lemma follow_pages_cover:
  assumes codec: "codec_lawful codec" and valid: "\<forall>x \<in> set items. utf8_valid (key x)"
    and dist: "distinct (map key items)" and n: "0 < n"
  shows "\<exists>pages. follow_pages codec key items (Some n) (Suc (length items)) None = Some (Inr pages)
    \<and> concat pages = sort_key key items \<and> (\<forall>page \<in> set pages. length page \<le> n)"
proof -
  have main: "\<exists>pages. follow_pages codec key items (Some n) (Suc fuel) cursor = Some (Inr pages)
      \<and> concat pages = remaining key items after \<and> (\<forall>page \<in> set pages. length page \<le> n)"
    if "length (remaining key items after) \<le> fuel"
      and cur: "paginate codec key items cursor (Some n) = Inr (cut_page codec key (Some n) (remaining key items after))"
    for fuel cursor after
    using that
  proof (induction fuel arbitrary: cursor after)
    case 0
    then show ?case by (simp add: cut_page_def)
  next
    case (Suc fuel)
    let ?r = "remaining key items after"
    show ?case
    proof (cases "n < length ?r")
      case False
      with Suc.prems show ?thesis by (simp add: cut_page_def)
    next
      case True
      let ?k = "key (last (take n ?r))"
      have ne: "take n ?r \<noteq> []" using True n by auto
      then have "last (take n ?r) \<in> set items"
        using remaining_set in_set_takeD last_in_set by (metis subsetD)
      with valid codec have dec: "decode_cursor codec (encode_cursor codec ?k) = Inr ?k"
        by (simp add: decode_encode_cursor)
      have rest: "remaining key items (Some ?k) = drop n ?r"
        by (rule remaining_after_page [OF dist n True])
      have "length (remaining key items (Some ?k)) \<le> fuel"
        using Suc.prems(1) n True by (simp add: rest)
      from Suc.IH [OF this paginate_Some [OF dec]] obtain pages where
        pages: "follow_pages codec key items (Some n) (Suc fuel) (Some (encode_cursor codec ?k)) = Some (Inr pages)"
        "concat pages = drop n ?r" "\<forall>page \<in> set pages. length page \<le> n"
        by (auto simp: rest)
      have "cut_page codec key (Some n) ?r
          = \<lparr>p_items = take n ?r, p_next_cursor = Some (encode_cursor codec ?k)\<rparr>"
        using True ne by (simp add: cut_page_def Let_def)
      then have "follow_pages codec key items (Some n) (Suc (Suc fuel)) cursor
          = Some (Inr (take n ?r # pages))"
        using Suc.prems(2) pages(1) by simp
      with pages(2,3) show ?thesis by simp
    qed
  qed
  have "length (remaining key items None) \<le> length items" by (simp add: remaining_def)
  from main [OF this paginate_None] show ?thesis by (simp add: remaining_def)
qed

text \<open>
  Following the cursors lists everything exactly once. With distinct keys and a page size of
  at least one, a client that asks for the next page until there is none gets, in at most one
  request more than there are items, pages of at most that size which together are the list in
  key order: nothing is missing, repeated or out of place.
\<close>

theorem pages_cover_the_list:
  assumes codec: "codec_lawful codec" and valid: "\<forall>x \<in> set items. utf8_valid (key x)"
    and dist: "distinct (map key items)" and n: "0 < n"
  shows "\<exists>pages. follow_pages codec key items (Some n) (Suc (length items)) None = Some (Inr pages)
    \<and> concat pages = sort_key key items \<and> (\<forall>page \<in> set pages. length page \<le> n)"
  using assms by (rule follow_pages_cover)

definition sample_items :: "(string \<times> nat) list" where
  "sample_items = [(''b'', 1), (''a'', 2), (''c'', 3)]"

definition plain_codec :: base64 where
  "plain_codec = \<lparr>b64_encode = \<lambda>s. s, b64_decode = Some\<rparr>"

lemma plain_codec_lawful: "codec_lawful plain_codec"
  by (simp add: codec_lawful_def plain_codec_def)

lemma pages_cover_the_list_witness:
  "\<exists>pages. follow_pages plain_codec fst sample_items (Some 2) (Suc (length sample_items)) None = Some (Inr pages)
    \<and> concat pages = [(''a'', 2), (''b'', 1), (''c'', 3)]"
proof -
  have "\<forall>x \<in> set sample_items. utf8_valid (fst x)" "distinct (map fst sample_items)"
    "sort_key fst sample_items = [(''a'', 2), (''b'', 1), (''c'', 3)]"
    by code_simp+
  with pages_cover_the_list [OF plain_codec_lawful, of sample_items fst 2] show ?thesis
    by (simp del: follow_pages.simps) blast
qed

text \<open>
  A page boundary survives changes of the list: whatever was added or removed since a
  cursor was issued, the page after it starts at the first item whose key is beyond the one the
  cursor names, and no item before it is shown again.
\<close>

theorem page_after_cursor:
  assumes "codec_lawful codec" and "utf8_valid k"
    and "paginate codec key items (Some (encode_cursor codec k)) page_size = Inr page"
  shows "p_items page = (case page_size of
      None \<Rightarrow> filter (\<lambda>x. k < key x) (sort_key key items)
    | Some n \<Rightarrow> take n (filter (\<lambda>x. k < key x) (sort_key key items)))"
proof -
  have "page = cut_page codec key page_size (remaining key items (Some k))"
    using assms paginate_Some [OF decode_encode_cursor [OF assms(1,2)], of key items page_size] by simp
  then show ?thesis by (simp add: cut_page_def Let_def remaining_def split: option.split)
qed

lemma page_after_cursor_witness:
  "\<exists>page. paginate plain_codec (\<lambda>x. x) [''c'', ''a''] (Some ''b'') (Some 5) = Inr page
     \<and> p_items page = [''c'']"
proof -
  have v: "utf8_valid ''b''" by code_simp
  note law = plain_codec_lawful
  obtain page where p: "paginate plain_codec (\<lambda>x. x) [''c'', ''a''] (Some (encode_cursor plain_codec ''b'')) (Some 5) = Inr page"
    using paginate_Some [OF decode_encode_cursor [OF law v]] by blast
  have "filter (\<lambda>x. ''b'' < x) (sort_key (\<lambda>x. x) [''c'', ''a'']) = [''c'']" by code_simp
  with page_after_cursor [OF law v p] p show ?thesis by (simp add: encode_cursor_def plain_codec_def)
qed

end
