(* ===== verification/Mcp_Schema.thy ===== *)
theory Mcp_Schema
  imports Json_Rpc Task_Data
begin

text \<open>
  The message types of the protocol (\<^verbatim>\<open>src/mcp/schema.rs\<close>): tools and their results, content
  blocks, the capabilities and identity a server advertises, and the \<^verbatim>\<open>initialize\<close> handshake,
  each with the JSON its derived serializer writes. Readers are given for what a client sends
  (\<^verbatim>\<open>tools/call\<close> and \<^verbatim>\<open>initialize\<close> parameters) and for the contents of a resource, whose
  deserializer the source writes by hand. A floating-point field is the JSON \<^verbatim>\<open>serde\<close> writes
  for it.
\<close>

definition strings_json :: "string list \<Rightarrow> json" where
  "strings_json xs = JArray (map JString xs)"

subsection \<open>Servers\<close>

record server_info =
  si_name :: string
  si_version :: string
  si_title :: "string option"
  si_description :: "string option"
  si_website_url :: "string option"

definition server_info_new :: "string \<Rightarrow> string \<Rightarrow> server_info" where
  "server_info_new name version =
     \<lparr>si_name = name, si_version = version, si_title = None, si_description = None,
      si_website_url = None\<rparr>"

definition server_info_json :: "server_info \<Rightarrow> json" where
  "server_info_json i = JObject
     ([(''name'', JString (si_name i)), (''version'', JString (si_version i))]
      @ opt_field ''title'' JString (si_title i)
      @ opt_field ''description'' JString (si_description i)
      @ opt_field ''websiteUrl'' JString (si_website_url i))"

text \<open>The markers \<^verbatim>\<open>LoggingCapability\<close> and \<^verbatim>\<open>CompletionCapability\<close> have no fields.\<close>

record resources_capability =
  rc_subscribe :: "bool option"
  rc_list_changed :: "bool option"

record server_capabilities =
  sv_experimental :: "json_map option"
  sv_logging :: "unit option"
  sv_completions :: "unit option"
  sv_prompts :: "bool option option"
  sv_resources :: "resources_capability option"
  sv_tools :: "bool option option"
  sv_extensions :: "json_map option"

definition no_server_capabilities :: server_capabilities where
  "no_server_capabilities =
     \<lparr>sv_experimental = None, sv_logging = None, sv_completions = None, sv_prompts = None,
      sv_resources = None, sv_tools = None, sv_extensions = None\<rparr>"

definition tools_only :: server_capabilities where
  "tools_only = no_server_capabilities\<lparr>sv_tools := Some (Some False)\<rparr>"

record oauth2_capability =
  oa_discovery_url :: string
  oa_authorization_endpoint :: string
  oa_token_endpoint :: string
  oa_registration_endpoint :: string

definition oauth2_value :: "oauth2_capability \<Rightarrow> json" where
  "oauth2_value c = JObject
     [(''discoveryUrl'', JString (oa_discovery_url c)),
      (''authorizationEndpoint'', JString (oa_authorization_endpoint c)),
      (''tokenEndpoint'', JString (oa_token_endpoint c)),
      (''registrationEndpoint'', JString (oa_registration_endpoint c))]"

definition with_oauth2 :: "oauth2_capability \<Rightarrow> server_capabilities \<Rightarrow> server_capabilities" where
  "with_oauth2 oauth2 c =
     c\<lparr>sv_experimental :=
         Some (AList.update ''oauth2'' (oauth2_value oauth2) (unwrap_or (sv_experimental c) []))\<rparr>"

definition list_changed_json :: "bool option \<Rightarrow> json" where
  "list_changed_json changed = JObject (opt_field ''listChanged'' JBool changed)"

definition server_capabilities_json :: "server_capabilities \<Rightarrow> json" where
  "server_capabilities_json c = JObject
     (opt_field ''experimental'' JObject (sv_experimental c)
      @ opt_field ''logging'' (\<lambda>_. JObject []) (sv_logging c)
      @ opt_field ''completions'' (\<lambda>_. JObject []) (sv_completions c)
      @ opt_field ''prompts'' list_changed_json (sv_prompts c)
      @ opt_field ''resources''
          (\<lambda>r. JObject (opt_field ''subscribe'' JBool (rc_subscribe r)
                        @ opt_field ''listChanged'' JBool (rc_list_changed r))) (sv_resources c)
      @ opt_field ''tools'' list_changed_json (sv_tools c)
      @ opt_field ''extensions'' JObject (sv_extensions c))"

subsection \<open>Tools\<close>

record tool_annotations =
  ta_title :: "string option"
  ta_read_only_hint :: "bool option"
  ta_destructive_hint :: "bool option"
  ta_idempotent_hint :: "bool option"
  ta_open_world_hint :: "bool option"

definition tool_annotations_json :: "tool_annotations \<Rightarrow> json" where
  "tool_annotations_json a = JObject
     (opt_field ''title'' JString (ta_title a)
      @ opt_field ''readOnlyHint'' JBool (ta_read_only_hint a)
      @ opt_field ''destructiveHint'' JBool (ta_destructive_hint a)
      @ opt_field ''idempotentHint'' JBool (ta_idempotent_hint a)
      @ opt_field ''openWorldHint'' JBool (ta_open_world_hint a))"

datatype task_support = SupportForbidden | SupportOptional | SupportRequired

fun task_support_name :: "task_support \<Rightarrow> string" where
  "task_support_name SupportForbidden = ''forbidden''"
| "task_support_name SupportOptional = ''optional''"
| "task_support_name SupportRequired = ''required''"

record tool_execution =
  te_task_support :: task_support

definition tool_execution_json :: "tool_execution \<Rightarrow> json" where
  "tool_execution_json e = JObject [(''taskSupport'', JString (task_support_name (te_task_support e)))]"

record tool =
  tl_name :: string
  tl_description :: string
  tl_input_schema :: json
  tl_output_schema :: "json option"
  tl_annotations :: "tool_annotations option"
  tl_execution :: "tool_execution option"

definition tool_json :: "tool \<Rightarrow> json" where
  "tool_json t = JObject
     ([(''name'', JString (tl_name t)), (''description'', JString (tl_description t)),
       (''inputSchema'', tl_input_schema t)]
      @ opt_field ''outputSchema'' id (tl_output_schema t)
      @ opt_field ''annotations'' tool_annotations_json (tl_annotations t)
      @ opt_field ''execution'' tool_execution_json (tl_execution t))"

record tool_call =
  tc_name :: string
  tc_arguments :: "json option"
  tc_input_responses :: "json_map option"
  tc_request_state :: "string option"

definition tool_call_new :: "string \<Rightarrow> json \<Rightarrow> tool_call" where
  "tool_call_new name arguments =
     \<lparr>tc_name = name, tc_arguments = Some arguments, tc_input_responses = None,
      tc_request_state = None\<rparr>"

definition call_with_input_responses :: "json_map \<Rightarrow> tool_call \<Rightarrow> tool_call" where
  "call_with_input_responses responses c = c\<lparr>tc_input_responses := Some responses\<rparr>"

definition call_with_request_state :: "string \<Rightarrow> tool_call \<Rightarrow> tool_call" where
  "call_with_request_state state c = c\<lparr>tc_request_state := Some state\<rparr>"

text \<open>\<^verbatim>\<open>Option<Value>\<close> reads \<^verbatim>\<open>null\<close> as absent.\<close>

definition tool_call_of_json :: "json \<Rightarrow> (de_error, tool_call) result" where
  "tool_call_of_json v =
     result_bind
       (ok_or (struct_fields [''name'', ''arguments'', ''inputResponses'', ''requestState'']
                 [''arguments'', ''inputResponses'', ''requestState''] v) (InvalidField ''struct'')) (\<lambda>m.
     result_bind (req_field ''name'' as_str m) (\<lambda>name.
     result_bind (opt_field_of ''inputResponses'' as_object m) (\<lambda>responses.
     result_bind (opt_field_of ''requestState'' as_str m) (\<lambda>state.
       Inr \<lparr>tc_name = name, tc_arguments = de_option ''arguments'' m,
            tc_input_responses = responses, tc_request_state = state\<rparr>))))"

definition tool_call_json :: "tool_call \<Rightarrow> json" where
  "tool_call_json c = JObject
     ([(''name'', JString (tc_name c)),
       (''arguments'', case tc_arguments c of None \<Rightarrow> JNull | Some v \<Rightarrow> v)]
      @ opt_field ''inputResponses'' JObject (tc_input_responses c)
      @ opt_field ''requestState'' JString (tc_request_state c))"

text \<open>The server needs more from the client; one of the two fields is always there.\<close>

record input_required =
  ir_input_requests :: "json_map option"
  ir_request_state :: "string option"

definition input_required_new :: "json_map \<Rightarrow> input_required" where
  "input_required_new requests = \<lparr>ir_input_requests = Some requests, ir_request_state = None\<rparr>"

definition retry_with_state :: "string \<Rightarrow> input_required" where
  "retry_with_state state = \<lparr>ir_input_requests = None, ir_request_state = Some state\<rparr>"

definition input_with_request_state :: "string \<Rightarrow> input_required \<Rightarrow> input_required" where
  "input_with_request_state state i = i\<lparr>ir_request_state := Some state\<rparr>"

definition input_required_json :: "input_required \<Rightarrow> json" where
  "input_required_json i = JObject
     ([(''resultType'', JString ''input_required'')]
      @ opt_field ''inputRequests'' JObject (ir_input_requests i)
      @ opt_field ''requestState'' JString (ir_request_state i))"

subsection \<open>Content blocks\<close>

datatype role = User | Assistant

fun role_name :: "role \<Rightarrow> string" where
  "role_name User = ''user''"
| "role_name Assistant = ''assistant''"

record annotations =
  an_audience :: "role list option"
  an_priority :: "json option"
  an_last_modified :: "string option"

definition annotations_json :: "annotations \<Rightarrow> json" where
  "annotations_json a = JObject
     (opt_field ''audience'' (\<lambda>roles. strings_json (map role_name roles)) (an_audience a)
      @ optional ''priority'' (an_priority a)
      @ opt_field ''lastModified'' JString (an_last_modified a))"

datatype icon_theme = Light | Dark

fun theme_name :: "icon_theme \<Rightarrow> string" where
  "theme_name Light = ''light''"
| "theme_name Dark = ''dark''"

record icon =
  ic_src :: string
  ic_mime_type :: "string option"
  ic_sizes :: "string list option"
  ic_theme :: "icon_theme option"

definition icon_json :: "icon \<Rightarrow> json" where
  "icon_json i = JObject
     ([(''src'', JString (ic_src i))]
      @ opt_field ''mimeType'' JString (ic_mime_type i)
      @ opt_field ''sizes'' strings_json (ic_sizes i)
      @ opt_field ''theme'' (\<lambda>t. JString (theme_name t)) (ic_theme i))"

record text_resource =
  tr_uri :: string
  tr_mime_type :: "string option"
  tr_text :: string
  tr_meta :: "json_map option"

record blob_resource =
  br_uri :: string
  br_mime_type :: "string option"
  br_blob :: string
  br_meta :: "json_map option"

datatype resource_contents = RText text_resource | RBlob blob_resource

definition resource_text :: "string \<Rightarrow> string \<Rightarrow> resource_contents" where
  "resource_text uri text =
     RText \<lparr>tr_uri = uri, tr_mime_type = None, tr_text = text, tr_meta = None\<rparr>"

definition resource_blob :: "string \<Rightarrow> string \<Rightarrow> resource_contents" where
  "resource_blob uri blob =
     RBlob \<lparr>br_uri = uri, br_mime_type = None, br_blob = blob, br_meta = None\<rparr>"

fun with_mime_type :: "string \<Rightarrow> resource_contents \<Rightarrow> resource_contents" where
  "with_mime_type mime (RText c) = RText (c\<lparr>tr_mime_type := Some mime\<rparr>)"
| "with_mime_type mime (RBlob c) = RBlob (c\<lparr>br_mime_type := Some mime\<rparr>)"

fun resource_uri :: "resource_contents \<Rightarrow> string" where
  "resource_uri (RText c) = tr_uri c"
| "resource_uri (RBlob c) = br_uri c"

fun resource_mime_type :: "resource_contents \<Rightarrow> string option" where
  "resource_mime_type (RText c) = tr_mime_type c"
| "resource_mime_type (RBlob c) = br_mime_type c"

fun resource_contents_json :: "resource_contents \<Rightarrow> json" where
  "resource_contents_json (RText c) = JObject
     ([(''uri'', JString (tr_uri c))] @ opt_field ''mimeType'' JString (tr_mime_type c)
      @ [(''text'', JString (tr_text c))] @ opt_field ''_meta'' JObject (tr_meta c))"
| "resource_contents_json (RBlob c) = JObject
     ([(''uri'', JString (br_uri c))] @ opt_field ''mimeType'' JString (br_mime_type c)
      @ [(''blob'', JString (br_blob c))] @ opt_field ''_meta'' JObject (br_meta c))"

record resource_contents_wire =
  rw_uri :: string
  rw_mime_type :: "string option"
  rw_text :: "string option"
  rw_blob :: "string option"
  rw_meta :: "json_map option"

definition resource_wire_of_json :: "json \<Rightarrow> (de_error, resource_contents_wire) result" where
  "resource_wire_of_json v =
     result_bind
       (ok_or (struct_fields [''uri'', ''mimeType'', ''text'', ''blob'', ''_meta''] [] v)
          (InvalidField ''struct'')) (\<lambda>m.
     result_bind (req_field ''uri'' as_str m) (\<lambda>uri.
     result_bind (opt_field_of ''mimeType'' as_str m) (\<lambda>mime.
     result_bind (opt_field_of ''text'' as_str m) (\<lambda>text.
     result_bind (opt_field_of ''blob'' as_str m) (\<lambda>blob.
     result_bind (opt_field_of ''_meta'' as_object m) (\<lambda>meta.
       Inr \<lparr>rw_uri = uri, rw_mime_type = mime, rw_text = text, rw_blob = blob, rw_meta = meta\<rparr>))))))"

definition resource_contents_of_json :: "json \<Rightarrow> (de_error, resource_contents) result" where
  "resource_contents_of_json v =
     result_bind (resource_wire_of_json v) (\<lambda>wire.
       case (rw_text wire, rw_blob wire) of
         (Some text, None) \<Rightarrow>
           Inr (RText \<lparr>tr_uri = rw_uri wire, tr_mime_type = rw_mime_type wire, tr_text = text,
                       tr_meta = rw_meta wire\<rparr>)
       | (None, Some blob) \<Rightarrow>
           Inr (RBlob \<lparr>br_uri = rw_uri wire, br_mime_type = rw_mime_type wire, br_blob = blob,
                       br_meta = rw_meta wire\<rparr>)
       | (Some _, Some _) \<Rightarrow> Inl (Custom ''resource contents hold both `text` and `blob`'')
       | (None, None) \<Rightarrow> Inl (Custom ''resource contents hold neither `text` nor `blob`''))"

record text_content =
  tx_text :: string
  tx_annotations :: "annotations option"
  tx_meta :: "json_map option"

text \<open>\<^verbatim>\<open>ImageContent\<close> and \<^verbatim>\<open>AudioContent\<close> have the same fields.\<close>

record media_content =
  md_data :: string
  md_mime_type :: string
  md_annotations :: "annotations option"
  md_meta :: "json_map option"

record resource_link =
  rl_uri :: string
  rl_name :: string
  rl_title :: "string option"
  rl_description :: "string option"
  rl_mime_type :: "string option"
  rl_size :: "nat option"
  rl_icons :: "icon list option"
  rl_annotations :: "annotations option"
  rl_meta :: "json_map option"

definition resource_link_new :: "string \<Rightarrow> string \<Rightarrow> resource_link" where
  "resource_link_new uri name =
     \<lparr>rl_uri = uri, rl_name = name, rl_title = None, rl_description = None, rl_mime_type = None,
      rl_size = None, rl_icons = None, rl_annotations = None, rl_meta = None\<rparr>"

record embedded_resource =
  er_resource :: resource_contents
  er_annotations :: "annotations option"
  er_meta :: "json_map option"

datatype content =
    Text text_content
  | Image media_content
  | Audio media_content
  | Link resource_link
  | Embedded embedded_resource

definition content_text :: "string \<Rightarrow> content" where
  "content_text text = Text \<lparr>tx_text = text, tx_annotations = None, tx_meta = None\<rparr>"

definition content_image :: "string \<Rightarrow> string \<Rightarrow> content" where
  "content_image data mime =
     Image \<lparr>md_data = data, md_mime_type = mime, md_annotations = None, md_meta = None\<rparr>"

definition content_audio :: "string \<Rightarrow> string \<Rightarrow> content" where
  "content_audio data mime =
     Audio \<lparr>md_data = data, md_mime_type = mime, md_annotations = None, md_meta = None\<rparr>"

definition content_resource :: "resource_contents \<Rightarrow> content" where
  "content_resource contents =
     Embedded \<lparr>er_resource = contents, er_annotations = None, er_meta = None\<rparr>"

fun with_annotations :: "annotations \<Rightarrow> content \<Rightarrow> content" where
  "with_annotations a (Text b) = Text (b\<lparr>tx_annotations := Some a\<rparr>)"
| "with_annotations a (Image b) = Image (b\<lparr>md_annotations := Some a\<rparr>)"
| "with_annotations a (Audio b) = Audio (b\<lparr>md_annotations := Some a\<rparr>)"
| "with_annotations a (Link b) = Link (b\<lparr>rl_annotations := Some a\<rparr>)"
| "with_annotations a (Embedded b) = Embedded (b\<lparr>er_annotations := Some a\<rparr>)"

fun content_annotations :: "content \<Rightarrow> annotations option" where
  "content_annotations (Text b) = tx_annotations b"
| "content_annotations (Image b) = md_annotations b"
| "content_annotations (Audio b) = md_annotations b"
| "content_annotations (Link b) = rl_annotations b"
| "content_annotations (Embedded b) = er_annotations b"

fun content_as_text :: "content \<Rightarrow> string option" where
  "content_as_text (Text b) = Some (tx_text b)"
| "content_as_text (Image _) = None"
| "content_as_text (Audio _) = None"
| "content_as_text (Link _) = None"
| "content_as_text (Embedded _) = None"

definition block_tail :: "annotations option \<Rightarrow> json_map option \<Rightarrow> json_map" where
  "block_tail a meta = opt_field ''annotations'' annotations_json a @ opt_field ''_meta'' JObject meta"

definition media_fields :: "media_content \<Rightarrow> json_map" where
  "media_fields b =
     [(''data'', JString (md_data b)), (''mimeType'', JString (md_mime_type b))]
     @ block_tail (md_annotations b) (md_meta b)"

fun content_json :: "content \<Rightarrow> json" where
  "content_json (Text b) = JObject
     ([(''type'', JString ''text''), (''text'', JString (tx_text b))]
      @ block_tail (tx_annotations b) (tx_meta b))"
| "content_json (Image b) = JObject ((''type'', JString ''image'') # media_fields b)"
| "content_json (Audio b) = JObject ((''type'', JString ''audio'') # media_fields b)"
| "content_json (Link b) = JObject
     ([(''type'', JString ''resource_link''), (''uri'', JString (rl_uri b)),
       (''name'', JString (rl_name b))]
      @ opt_field ''title'' JString (rl_title b)
      @ opt_field ''description'' JString (rl_description b)
      @ opt_field ''mimeType'' JString (rl_mime_type b)
      @ opt_field ''size'' u64_json (rl_size b)
      @ opt_field ''icons'' (\<lambda>icons. JArray (map icon_json icons)) (rl_icons b)
      @ block_tail (rl_annotations b) (rl_meta b))"
| "content_json (Embedded b) = JObject
     ([(''type'', JString ''resource''), (''resource'', resource_contents_json (er_resource b))]
      @ block_tail (er_annotations b) (er_meta b))"

subsection \<open>Results of a call\<close>

record tool_response =
  tp_content :: "content list"
  tp_is_error :: bool
  tp_structured :: "json option"

definition response_blocks :: "content list \<Rightarrow> tool_response" where
  "response_blocks content = \<lparr>tp_content = content, tp_is_error = False, tp_structured = None\<rparr>"

definition response_text :: "string \<Rightarrow> tool_response" where
  "response_text text = response_blocks [content_text text]"

definition response_failed :: "string \<Rightarrow> tool_response" where
  "response_failed message =
     \<lparr>tp_content = [content_text message], tp_is_error = True, tp_structured = None\<rparr>"

fun json_kind :: "json \<Rightarrow> string" where
  "json_kind JNull = ''null''"
| "json_kind (JBool _) = ''a boolean''"
| "json_kind (JNumber _) = ''a number''"
| "json_kind (JString _) = ''a string''"
| "json_kind (JArray _) = ''an array''"
| "json_kind (JObject _) = ''an object''"

datatype structured_error = Render string | NotAnObject string

text \<open>\<open>rendered\<close> is what \<^verbatim>\<open>serde_json::to_string\<close> answered for the value, \<open>read_json\<close> the
  parser that reads it back.\<close>

definition response_structured ::
  "(string \<Rightarrow> (string, json) result) \<Rightarrow> (string, string) result \<Rightarrow> (structured_error, tool_response) result" where
  "response_structured read_json rendered =
     (case rendered of
        Inl e \<Rightarrow> Inl (Render e)
      | Inr text \<Rightarrow>
          (case read_json text of
             Inl e \<Rightarrow> Inl (Render e)
           | Inr structured \<Rightarrow>
               if \<not> is_object structured then Inl (NotAnObject (json_kind structured))
               else Inr \<lparr>tp_content = [content_text text], tp_is_error = False,
                         tp_structured = Some structured\<rparr>))"

definition tool_response_json :: "tool_response \<Rightarrow> json" where
  "tool_response_json r = JObject
     ([(''content'', JArray (map content_json (tp_content r))), (''isError'', JBool (tp_is_error r))]
      @ opt_field ''structuredContent'' id (tp_structured r))"

subsection \<open>The handshake\<close>

record client_info =
  ci_name :: string
  ci_version :: string
  ci_title :: "string option"
  ci_description :: "string option"
  ci_website_url :: "string option"

definition client_info_of_json :: "json \<Rightarrow> client_info option" where
  "client_info_of_json v =
     (case struct_fields [''name'', ''version'', ''title'', ''description'', ''websiteUrl'']
             [''title'', ''description'', ''websiteUrl''] v of
        None \<Rightarrow> None
      | Some m \<Rightarrow>
          (case (req_field ''name'' as_str m, req_field ''version'' as_str m,
                 opt_field_of ''title'' as_str m, opt_field_of ''description'' as_str m,
                 opt_field_of ''websiteUrl'' as_str m) of
             (Inr name, Inr version, Inr title, Inr description, Inr url) \<Rightarrow>
               Some \<lparr>ci_name = name, ci_version = version, ci_title = title,
                     ci_description = description, ci_website_url = url\<rparr>
           | _ \<Rightarrow> None))"

text \<open>\<^verbatim>\<open>SamplingCapability\<close> has no fields and reads any object, or an empty array.\<close>

record client_capabilities =
  cc_experimental :: "json_map option"
  cc_sampling :: "json_map option"
  cc_roots :: "bool option option"

definition as_bool :: "json \<Rightarrow> bool option" where
  "as_bool v = (case v of JBool b \<Rightarrow> Some b | _ \<Rightarrow> None)"

definition roots_of_json :: "json \<Rightarrow> bool option option" where
  "roots_of_json v =
     (case struct_fields [''listChanged''] [] v of
        None \<Rightarrow> None
      | Some m \<Rightarrow> (case opt_field_of ''listChanged'' as_bool m of Inl _ \<Rightarrow> None | Inr b \<Rightarrow> Some b))"

definition client_capabilities_of_json :: "json \<Rightarrow> client_capabilities option" where
  "client_capabilities_of_json v =
     (case struct_fields [''experimental'', ''sampling'', ''roots''] [] v of
        None \<Rightarrow> None
      | Some m \<Rightarrow>
          (case (opt_field_of ''experimental'' as_object m,
                 opt_field_of ''sampling'' (struct_fields [] []) m,
                 opt_field_of ''roots'' roots_of_json m) of
             (Inr experimental, Inr sampling, Inr roots) \<Rightarrow>
               Some \<lparr>cc_experimental = experimental, cc_sampling = sampling, cc_roots = roots\<rparr>
           | _ \<Rightarrow> None))"

record initialize_request =
  in_protocol_version :: string
  in_client_info :: client_info
  in_capabilities :: client_capabilities
  in_oauth_credentials :: "json_map option"

definition initialize_of_json :: "json \<Rightarrow> (de_error, initialize_request) result" where
  "initialize_of_json v =
     result_bind
       (ok_or (struct_fields [''protocolVersion'', ''clientInfo'', ''capabilities'', ''oauthCredentials'']
                 [''oauthCredentials''] v) (InvalidField ''struct'')) (\<lambda>m.
     result_bind (req_field ''protocolVersion'' as_str m) (\<lambda>version.
     result_bind (req_field ''clientInfo'' client_info_of_json m) (\<lambda>info.
     result_bind (req_field ''capabilities'' client_capabilities_of_json m) (\<lambda>capabilities.
     result_bind (opt_field_of ''oauthCredentials'' as_object m) (\<lambda>credentials.
       Inr \<lparr>in_protocol_version = version, in_client_info = info, in_capabilities = capabilities,
            in_oauth_credentials = credentials\<rparr>)))))"

record initialize_response =
  iz_protocol_version :: string
  iz_server_info :: server_info
  iz_capabilities :: server_capabilities
  iz_instructions :: "string option"

definition initialize_response_new ::
  "string \<Rightarrow> server_info \<Rightarrow> server_capabilities \<Rightarrow> string option \<Rightarrow> initialize_response" where
  "initialize_response_new version info capabilities instructions =
     \<lparr>iz_protocol_version = version, iz_server_info = info, iz_capabilities = capabilities,
      iz_instructions = instructions\<rparr>"

definition initialize_response_json :: "initialize_response \<Rightarrow> json" where
  "initialize_response_json r = JObject
     ([(''protocolVersion'', JString (iz_protocol_version r)),
       (''serverInfo'', server_info_json (iz_server_info r)),
       (''capabilities'', server_capabilities_json (iz_capabilities r))]
      @ opt_field ''instructions'' JString (iz_instructions r))"

subsection \<open>Lemmas\<close>

lemma opt_field_lookup_last:
  "map_of (opt_field key f x) k = (if k = key \<and> x \<noteq> None then map_option f x else None)"
  using opt_field_lookup [of key f x "[]" k] by simp

lemmas field_lookups = opt_field_lookup opt_field_lookup_last

lemma opt_field_of_Some:
  "map_of m key = map_option g x \<Longrightarrow> (\<And>y. g y \<noteq> JNull \<and> f (g y) = Some y) \<Longrightarrow> opt_field_of key f m = Inr x"
  apply (cases x)
   apply (simp add: opt_field_of_def)
  apply (auto simp: opt_field_of_def split: json.split; metis ok_or_simps(2) result_bind.simps(2))
  done

lemma tool_call_roundtrip:
  assumes "tc_arguments c \<noteq> Some JNull"
  shows "tool_call_of_json (tool_call_json c) = Inr c"
proof -
  let ?m = "[(''name'', JString (tc_name c)),
       (''arguments'', case tc_arguments c of None \<Rightarrow> JNull | Some v \<Rightarrow> v)]
      @ opt_field ''inputResponses'' JObject (tc_input_responses c)
      @ opt_field ''requestState'' JString (tc_request_state c)"
  have look: "map_of ?m ''inputResponses'' = map_option JObject (tc_input_responses c)"
    "map_of ?m ''requestState'' = map_option JString (tc_request_state c)"
    by (simp_all add: field_lookups del: map_of_append)
  have "opt_field_of ''inputResponses'' as_object ?m = Inr (tc_input_responses c)"
    "opt_field_of ''requestState'' as_str ?m = Inr (tc_request_state c)"
    using look by (auto intro!: opt_field_of_Some simp: as_object_def as_str_def simp del: append.simps map_of_append)
  moreover have "de_option ''arguments'' ?m = tc_arguments c"
    using assms by (auto simp: de_option_def split: option.split json.split)
  moreover have "req_field ''name'' as_str ?m = Inr (tc_name c)"
    by (simp add: req_field_def as_str_def)
  ultimately show ?thesis
    by (simp add: tool_call_of_json_def tool_call_json_def del: append.simps)
qed

lemma resource_wire_of_contents:
  "resource_wire_of_json (resource_contents_json (RText c)) =
     Inr \<lparr>rw_uri = tr_uri c, rw_mime_type = tr_mime_type c, rw_text = Some (tr_text c), rw_blob = None,
          rw_meta = tr_meta c\<rparr>"
  "resource_wire_of_json (resource_contents_json (RBlob b)) =
     Inr \<lparr>rw_uri = br_uri b, rw_mime_type = br_mime_type b, rw_text = None, rw_blob = Some (br_blob b),
          rw_meta = br_meta b\<rparr>"
  by (simp_all add: resource_wire_of_json_def req_field_def opt_field_of_def field_lookups as_str_def
      as_object_def del: map_of_append split: option.splits)

text \<open>
  What a resource's contents are read as. What is written reads back as itself; a value that
  reads at all holds exactly one of the two kinds, and one that holds both a text and a blob is
  refused rather than read as one of them with the other dropped.
\<close>

theorem resource_contents_reading:
  "resource_contents_of_json (resource_contents_json c) = Inr c
   \<and> (map_of m ''text'' = Some (JString text) \<and> map_of m ''blob'' = Some (JString blob)
        \<longrightarrow> (\<exists>e. resource_contents_of_json (JObject m) = Inl e))
   \<and> (resource_contents_of_json (JObject m) = Inr (RText t) \<longrightarrow>
        map_of m ''text'' = Some (JString (tr_text t)) \<and> map_of m ''blob'' \<in> {None, Some JNull})
   \<and> (resource_contents_of_json (JObject m) = Inr (RBlob b) \<longrightarrow>
        map_of m ''blob'' = Some (JString (br_blob b)) \<and> map_of m ''text'' \<in> {None, Some JNull})"
proof -
  have round: "resource_contents_of_json (resource_contents_json c) = Inr c"
    by (cases c) (simp_all add: resource_contents_of_json_def resource_wire_of_contents del: resource_contents_json.simps)
  have opt_Some: "opt_field_of k as_str m = Inr (Some s) \<longleftrightarrow> map_of m k = Some (JString s)"
    and opt_None: "opt_field_of k as_str m = Inr None \<longleftrightarrow> map_of m k \<in> {None, Some JNull}" for k s
    by (auto simp: opt_field_of_def as_str_def split: option.splits json.splits)
  have wire: "resource_wire_of_json (JObject m) = Inr w \<Longrightarrow>
      opt_field_of ''text'' as_str m = Inr (rw_text w) \<and> opt_field_of ''blob'' as_str m = Inr (rw_blob w)" for w
    by (auto simp: resource_wire_of_json_def result_bind_Inr_iff)
  have kinds: "(resource_contents_of_json (JObject m) = Inr (RText t) \<longrightarrow>
        opt_field_of ''text'' as_str m = Inr (Some (tr_text t)) \<and> opt_field_of ''blob'' as_str m = Inr None)
    \<and> (resource_contents_of_json (JObject m) = Inr (RBlob b) \<longrightarrow>
        opt_field_of ''blob'' as_str m = Inr (Some (br_blob b)) \<and> opt_field_of ''text'' as_str m = Inr None)"
    by (auto simp: resource_contents_of_json_def result_bind_Inr_iff dest!: wire split: option.splits)
  have both: "\<exists>e. resource_contents_of_json (JObject m) = Inl e"
    if "map_of m ''text'' = Some (JString text)" "map_of m ''blob'' = Some (JString blob)"
  proof (cases "resource_wire_of_json (JObject m)")
    case (Inr w)
    with that wire [of w] have "rw_text w = Some text" "rw_blob w = Some blob"
      by (auto simp: opt_field_of_def as_str_def)
    with Inr show ?thesis by (simp add: resource_contents_of_json_def)
  qed (simp add: resource_contents_of_json_def)
  from round kinds both show ?thesis unfolding opt_Some opt_None by blast
qed

lemma resource_contents_reading_witness:
  "\<exists>e. resource_contents_of_json
     (JObject [(''uri'', JString ''u''), (''text'', JString ''t''), (''blob'', JString ''b'')]) = Inl e"
  using resource_contents_reading
    [of undefined "[(''uri'', JString ''u''), (''text'', JString ''t''), (''blob'', JString ''b'')]" "''t''" "''b''"]
  by simp

text \<open>A structured result is a JSON object, and its text block is the text it was read from.\<close>

lemma response_structured_is_object:
  assumes "response_structured read_json rendered = Inr r"
  shows "\<exists>text m. rendered = Inr text \<and> read_json text = Inr (JObject m) \<and> tp_structured r = Some (JObject m)
    \<and> tp_content r = [content_text text] \<and> \<not> tp_is_error r"
  using assms by (auto simp: response_structured_def is_object_def split: sum.splits if_splits json.splits)

end
