(* ===== verification/Modern.thy ===== *)
theory Modern
  imports Mcp_Schema Client_Channel "HOL-Library.List_Lexorder" "HOL-Library.Char_ord"
begin

text \<open>
  The stateless revision of the protocol (\<^verbatim>\<open>src/mcp/modern.rs\<close>): the metadata every modern
  request carries in \<^verbatim>\<open>params._meta\<close>, the detection of a request's era from its body and the
  transport's version header, the fields a cacheable result must carry, and the discovery
  result. Also the typed view of \<^verbatim>\<open>_meta\<close> the call context offers (\<^verbatim>\<open>RequestMeta\<close> in
  \<^verbatim>\<open>src/mcp/tool.rs\<close>).
\<close>

definition PROTOCOL_VERSION :: string where "PROTOCOL_VERSION = ''2025-11-25''"
definition PROTOCOL_VERSION_2026_07_28 :: string where "PROTOCOL_VERSION_2026_07_28 = ''2026-07-28''"
definition PROTOCOL_VERSION_HEADER :: string where "PROTOCOL_VERSION_HEADER = ''mcp-protocol-version''"

definition REMOVED_METHODS :: "string list" where
  "REMOVED_METHODS =
     [''initialize'', ''ping'', ''logging/setLevel'', ''resources/subscribe'', ''resources/unsubscribe'']"

definition META_PROTOCOL_VERSION :: string where
  "META_PROTOCOL_VERSION = ''io.modelcontextprotocol/protocolVersion''"
definition META_CLIENT_INFO :: string where
  "META_CLIENT_INFO = ''io.modelcontextprotocol/clientInfo''"
definition META_CLIENT_CAPABILITIES :: string where
  "META_CLIENT_CAPABILITIES = ''io.modelcontextprotocol/clientCapabilities''"
definition META_LOG_LEVEL :: string where
  "META_LOG_LEVEL = ''io.modelcontextprotocol/logLevel''"

definition is_modern_revision :: "string \<Rightarrow> bool" where
  "is_modern_revision version \<longleftrightarrow>
     length version = length PROTOCOL_VERSION_2026_07_28
     \<and> list_all (\<lambda>(i, b). if i = 4 \<or> i = 7 then b = CHR ''-'' else is_ascii_digit b) (enumerate 0 version)
     \<and> PROTOCOL_VERSION_2026_07_28 \<le> version"

subsection \<open>Cacheable results\<close>

definition CACHEABLE_RESULT_METHODS :: "string list" where
  "CACHEABLE_RESULT_METHODS =
     [''tools/list'', ''resources/list'', ''resources/templates/list'', ''prompts/list'', ''resources/read'']"

definition frame_cacheable_result :: "string \<Rightarrow> json_map \<Rightarrow> json_map" where
  "frame_cacheable_result method m =
     (if method \<notin> set CACHEABLE_RESULT_METHODS then m
      else or_insert ''cacheScope'' (JString ''private'') (or_insert ''ttlMs'' (u64_json 0) m))"

subsection \<open>Per-request metadata\<close>

record modern_client_info =
  mi_name :: string
  mi_version :: string

definition modern_client_info_of_json :: "json \<Rightarrow> modern_client_info option" where
  "modern_client_info_of_json v =
     (case struct_fields [''name'', ''version''] [] v of
        None \<Rightarrow> None
      | Some m \<Rightarrow>
          (case (req_field ''name'' as_str m, req_field ''version'' as_str m) of
             (Inr name, Inr version) \<Rightarrow> Some \<lparr>mi_name = name, mi_version = version\<rparr>
           | _ \<Rightarrow> None))"

record modern_request_meta =
  mm_protocol_version :: string
  mm_client_info :: "modern_client_info option"
  mm_client_capabilities :: json
  mm_log_level :: "string option"

datatype modern_meta =
    MetaLegacy
  | MetaModern modern_request_meta
  | Malformed string
  | HeaderMismatch string

definition missing_meta_field :: "string \<Rightarrow> string" where
  "missing_meta_field key = ''missing required _meta field '' @ [CHR 0x27] @ key @ [CHR 0x27]"

definition meta_from_params :: "json option \<Rightarrow> modern_meta" where
  "meta_from_params params =
     (case param params ''_meta'' of
        None \<Rightarrow> MetaLegacy
      | Some meta \<Rightarrow>
          (case Option.bind (json_get META_PROTOCOL_VERSION meta) as_str of
             None \<Rightarrow> MetaLegacy
           | Some version \<Rightarrow>
               (case json_get META_CLIENT_CAPABILITIES meta of
                  None \<Rightarrow> Malformed (missing_meta_field META_CLIENT_CAPABILITIES)
                | Some capabilities \<Rightarrow>
                    MetaModern \<lparr>mm_protocol_version = version,
                      mm_client_info = Option.bind (json_get META_CLIENT_INFO meta) modern_client_info_of_json,
                      mm_client_capabilities = capabilities,
                      mm_log_level = Option.bind (json_get META_LOG_LEVEL meta) as_str\<rparr>)))"

definition header_mismatch_reason :: "string \<Rightarrow> string \<Rightarrow> string" where
  "header_mismatch_reason header version =
     ''Header mismatch: MCP-Protocol-Version header value '' @ [CHR 0x27] @ header @ [CHR 0x27]
     @ '' does not match body _meta '' @ [CHR 0x27] @ META_PROTOCOL_VERSION @ [CHR 0x27]
     @ '' value '' @ [CHR 0x27] @ version @ [CHR 0x27]"

definition detect_era :: "string option \<Rightarrow> json option \<Rightarrow> modern_meta" where
  "detect_era header params =
     (let body = meta_from_params params in
      case map_option trim header of
        None \<Rightarrow> body
      | Some header \<Rightarrow>
          (case body of
             MetaModern meta \<Rightarrow>
               if mm_protocol_version meta \<noteq> header
               then HeaderMismatch (header_mismatch_reason header (mm_protocol_version meta))
               else body
           | MetaLegacy \<Rightarrow>
               if is_modern_revision header
               then Malformed (missing_meta_field META_PROTOCOL_VERSION) else body
           | _ \<Rightarrow> body))"

subsection \<open>The metadata as the call context offers it\<close>

definition request_meta_from_params :: "json option \<Rightarrow> json_map" where
  "request_meta_from_params params = unwrap_or (Option.bind (param params ''_meta'') as_object) []"

definition as_i64 :: "json \<Rightarrow> int option" where
  "as_i64 v =
     (case v of
        JNumber (PosInt n) \<Rightarrow> if int n \<le> 9223372036854775807 then Some (int n) else None
      | JNumber (NegInt n) \<Rightarrow> if - 9223372036854775808 \<le> n then Some n else None
      | _ \<Rightarrow> None)"

definition progress_token_of_json :: "json \<Rightarrow> progress_token option" where
  "progress_token_of_json v =
     (case as_str v of
        Some s \<Rightarrow> Some (TokenString s)
      | None \<Rightarrow> map_option TokenInteger (as_i64 v))"

definition meta_progress_token :: "json_map \<Rightarrow> progress_token option" where
  "meta_progress_token meta = Option.bind (map_of meta ''progressToken'') progress_token_of_json"

definition meta_protocol_version :: "json_map \<Rightarrow> string option" where
  "meta_protocol_version meta = Option.bind (map_of meta META_PROTOCOL_VERSION) as_str"

definition meta_client_info :: "json_map \<Rightarrow> modern_client_info option" where
  "meta_client_info meta = Option.bind (map_of meta META_CLIENT_INFO) modern_client_info_of_json"

definition meta_log_level :: "json_map \<Rightarrow> string option" where
  "meta_log_level meta = Option.bind (map_of meta META_LOG_LEVEL) as_str"

subsection \<open>Discovery\<close>

record discover_result =
  dr_result_type :: string
  dr_supported_versions :: "string list"
  dr_capabilities :: server_capabilities
  dr_server_info :: server_info
  dr_instructions :: "string option"
  dr_ttl_ms :: "nat option"
  dr_cache_scope :: "string option"

definition discover_result_new ::
  "string list \<Rightarrow> server_capabilities \<Rightarrow> server_info \<Rightarrow> string option \<Rightarrow> discover_result" where
  "discover_result_new versions capabilities info instructions =
     \<lparr>dr_result_type = ''complete'', dr_supported_versions = versions, dr_capabilities = capabilities,
      dr_server_info = info, dr_instructions = instructions, dr_ttl_ms = Some 3600000,
      dr_cache_scope = Some ''public''\<rparr>"

definition discover_result_json :: "discover_result \<Rightarrow> json" where
  "discover_result_json r = JObject
     ([(''resultType'', JString (dr_result_type r)),
       (''supportedVersions'', strings_json (dr_supported_versions r)),
       (''capabilities'', server_capabilities_json (dr_capabilities r)),
       (''serverInfo'', server_info_json (dr_server_info r))]
      @ opt_field ''instructions'' JString (dr_instructions r)
      @ opt_field ''ttlMs'' u64_json (dr_ttl_ms r)
      @ opt_field ''cacheScope'' JString (dr_cache_scope r))"

subsection \<open>Lemmas\<close>

text \<open>Revisions are dates, so they order as text: the digits of a revision as one number.\<close>

definition digit_value :: "char \<Rightarrow> int" where
  "digit_value c = byte c - 48"

definition date_number :: "string \<Rightarrow> int" where
  "date_number v = foldl (\<lambda>n c. 10 * n + digit_value c) 0 (filter is_ascii_digit v)"

lemma byte_le_byte: "byte c \<le> byte d \<longleftrightarrow> c \<le> d"
  by (metis less_eq_char_def of_nat_of_char of_nat_le_iff)

lemma char_less_byte: "c < d \<longleftrightarrow> byte c < byte d"
  using byte_le_byte [of d c] by auto

lemma char_eq_byte: "c = d \<longleftrightarrow> byte c = byte d"
  by (metis byte_le_byte order_antisym order_refl)

lemma leading_digit:
  fixes x y p q n :: int
  assumes "0 \<le> p" "p < n" "0 \<le> q" "q < n"
  shows "n * x + p \<le> n * y + q \<longleftrightarrow> x < y \<or> x = y \<and> p \<le> q"
proof (cases x y rule: linorder_cases)
  case less
  then have "n * x + n \<le> n * y"
    using assms mult_left_mono [of "x + 1" y n] by (simp add: distrib_left)
  with less assms show ?thesis by linarith
next
  case greater
  then have "n * y + n \<le> n * x"
    using assms mult_left_mono [of "y + 1" x n] by (simp add: distrib_left)
  with greater assms show ?thesis by linarith
qed simp

lemma date_as_digits:
  fixes y1 y2 y3 y4 m1 m2 d1 d2 :: int
  assumes "\<forall>d \<in> {y1, y2, y3, y4, m1, m2, d1, d2}. 0 \<le> d \<and> d \<le> 9"
  shows "20260728 \<le> 10000000 * y1 + (1000000 * y2 + (100000 * y3 + (10000 * y4 + (1000 * m1
      + (100 * m2 + (10 * d1 + d2)))))) \<longleftrightarrow>
    2 < y1 \<or> 2 = y1 \<and> (0 < y2 \<or> 0 = y2 \<and> (2 < y3 \<or> 2 = y3 \<and> (6 < y4 \<or> 6 = y4 \<and>
    (0 < m1 \<or> 0 = m1 \<and> (7 < m2 \<or> 7 = m2 \<and> (2 < d1 \<or> 2 = d1 \<and> 8 \<le> d2))))))"
proof -
  have b: "0 \<le> y1" "y1 \<le> 9" "0 \<le> y2" "y2 \<le> 9" "0 \<le> y3" "y3 \<le> 9" "0 \<le> y4" "y4 \<le> 9"
    "0 \<le> m1" "m1 \<le> 9" "0 \<le> m2" "m2 \<le> 9" "0 \<le> d1" "d1 \<le> 9" "0 \<le> d2" "d2 \<le> 9"
    using assms by simp_all
  note step = leading_digit [where n = 10000000 and x = 2 and p = 260728]
    leading_digit [where n = 1000000 and x = 0 and p = 260728]
    leading_digit [where n = 100000 and x = 2 and p = 60728]
    leading_digit [where n = 10000 and x = 6 and p = 728]
    leading_digit [where n = 1000 and x = 0 and p = 728]
    leading_digit [where n = 100 and x = 7 and p = 28]
    leading_digit [where n = 10 and x = 2 and p = 8]
  show ?thesis
    using b step(1) [of "1000000 * y2 + (100000 * y3 + (10000 * y4 + (1000 * m1 + (100 * m2 + (10 * d1 + d2)))))" y1]
      step(2) [of "100000 * y3 + (10000 * y4 + (1000 * m1 + (100 * m2 + (10 * d1 + d2))))" y2]
      step(3) [of "10000 * y4 + (1000 * m1 + (100 * m2 + (10 * d1 + d2)))" y3]
      step(4) [of "1000 * m1 + (100 * m2 + (10 * d1 + d2))" y4]
      step(5) [of "100 * m2 + (10 * d1 + d2)" m1] step(6) [of "10 * d1 + d2" m2] step(7) [of d2 d1]
    by simp
qed

text \<open>
  A protocol revision is modern exactly when it is written \<open>YYYY-MM-DD\<close> and its date is
  2026-07-28 or later: comparing revisions as text is comparing their dates.
\<close>

theorem is_modern_revision_by_date:
  "is_modern_revision v \<longleftrightarrow>
     (\<exists>y1 y2 y3 y4 m1 m2 d1 d2. v = [y1, y2, y3, y4, CHR ''-'', m1, m2, CHR ''-'', d1, d2]
        \<and> list_all is_ascii_digit [y1, y2, y3, y4, m1, m2, d1, d2])
     \<and> 20260728 \<le> date_number v"
proof (cases "length v = 10")
  case False
  then show ?thesis by (auto simp: is_modern_revision_def PROTOCOL_VERSION_2026_07_28_def)
next
  case True
  then obtain y1 y2 y3 y4 s1 m1 m2 s2 d1 d2 where v: "v = [y1, y2, y3, y4, s1, m1, m2, s2, d1, d2]"
    by (auto simp: length_Suc_conv eval_nat_numeral)
  let ?shape = "s1 = CHR ''-'' \<and> s2 = CHR ''-'' \<and> list_all is_ascii_digit [y1, y2, y3, y4, m1, m2, d1, d2]"
  have "PROTOCOL_VERSION_2026_07_28 \<le> v \<longleftrightarrow> 20260728 \<le> date_number v" if shape: ?shape
  proof -
    have "date_number v = 10000000 * digit_value y1 + (1000000 * digit_value y2 + (100000 * digit_value y3
        + (10000 * digit_value y4 + (1000 * digit_value m1 + (100 * digit_value m2
        + (10 * digit_value d1 + digit_value d2))))))"
      using shape by (simp add: v date_number_def is_ascii_digit_def)
    then have "20260728 \<le> date_number v \<longleftrightarrow>
      2 < digit_value y1 \<or> 2 = digit_value y1 \<and> (0 < digit_value y2 \<or> 0 = digit_value y2 \<and>
      (2 < digit_value y3 \<or> 2 = digit_value y3 \<and> (6 < digit_value y4 \<or> 6 = digit_value y4 \<and>
      (0 < digit_value m1 \<or> 0 = digit_value m1 \<and> (7 < digit_value m2 \<or> 7 = digit_value m2 \<and>
      (2 < digit_value d1 \<or> 2 = digit_value d1 \<and> 8 \<le> digit_value d2))))))"
      using shape date_as_digits [of "digit_value y1" "digit_value y2" "digit_value y3" "digit_value y4"
          "digit_value m1" "digit_value m2" "digit_value d1" "digit_value d2"]
      by (simp add: is_ascii_digit_def digit_value_def)
    moreover have "PROTOCOL_VERSION_2026_07_28 \<le> v \<longleftrightarrow>
      CHR ''2'' < y1 \<or> CHR ''2'' = y1 \<and> (CHR ''0'' < y2 \<or> CHR ''0'' = y2 \<and>
      (CHR ''2'' < y3 \<or> CHR ''2'' = y3 \<and> (CHR ''6'' < y4 \<or> CHR ''6'' = y4 \<and>
      (CHR ''0'' < m1 \<or> CHR ''0'' = m1 \<and> (CHR ''7'' < m2 \<or> CHR ''7'' = m2 \<and>
      (CHR ''2'' < d1 \<or> CHR ''2'' = d1 \<and> CHR ''8'' \<le> d2))))))"
      using shape by (simp add: v PROTOCOL_VERSION_2026_07_28_def) (simp only: order_le_less)
    ultimately show ?thesis
      unfolding char_less_byte char_eq_byte byte_le_byte [symmetric] digit_value_def by simp
  qed
  then show ?thesis
    by (auto simp: v is_modern_revision_def PROTOCOL_VERSION_2026_07_28_def eval_nat_numeral)
qed

text \<open>
  The era a request is served under, and what the header and the body must agree on. A
  request is modern exactly when its body names a revision and declares capabilities and no
  header contradicts it; legacy exactly when its body names none and the header, if any, names
  no modern one. A header that names another revision than the body, a modern header over a body
  naming none, and a body without capabilities are refused, so no request reaches the dispatch
  of an era its header denies.
\<close>

theorem detect_era_agrees:
  "let meta = param params ''_meta'';
       version = Option.bind (Option.bind meta (json_get META_PROTOCOL_VERSION)) as_str;
       capabilities = Option.bind meta (json_get META_CLIENT_CAPABILITIES)
   in ((\<exists>m. detect_era header params = MetaModern m \<and> mm_protocol_version m = v \<and> mm_client_capabilities m = c)
         \<longleftrightarrow> version = Some v \<and> capabilities = Some c \<and> map_option trim header \<in> {None, Some v})
    \<and> (detect_era header params = MetaLegacy
         \<longleftrightarrow> version = None \<and> \<not> (\<exists>h. header = Some h \<and> is_modern_revision (trim h)))
    \<and> ((\<exists>reason. detect_era header params = HeaderMismatch reason)
         \<longleftrightarrow> capabilities \<noteq> None \<and> (\<exists>v h. version = Some v \<and> header = Some h \<and> trim h \<noteq> v))"
  unfolding detect_era_def meta_from_params_def Let_def
  by (intro conjI; cases "param params ''_meta''"; cases header; auto split: option.splits)

text \<open>A framed result carries the two cache fields, the producer's values kept.\<close>

lemma frame_cacheable_fields:
  "map_of (frame_cacheable_result method m) key =
     (if method \<in> set CACHEABLE_RESULT_METHODS \<and> map_of m key = None \<and> key = ''ttlMs'' then Some (u64_json 0)
      else if method \<in> set CACHEABLE_RESULT_METHODS \<and> map_of m key = None \<and> key = ''cacheScope''
      then Some (JString ''private'') else map_of m key)"
  by (auto simp: frame_cacheable_result_def map_of_or_insert split: option.splits)

end
