(* ===== verification/Tool_Registry.thy ===== *)
theory Tool_Registry
  imports Modern Machine
begin

unbundle bit_operations_syntax

declare map_of_eq_Some_iff [simp del] Some_eq_map_of_iff [simp del]

text \<open>
  The call context, the registry of tools and its gate (\<^verbatim>\<open>src/mcp/tool.rs\<close>), with the schema
  validation a registry applies when its feature is on (\<^verbatim>\<open>src/mcp/validation.rs\<close>).

  A tool's body is the host's: a function of the call context, the arguments and the host's
  state. The JSON Schema compiler is the \<^verbatim>\<open>jsonschema\<close> package's: an argument, \<open>None\<close> when the
  feature is off. \<open>json_text\<close> is the text \<^verbatim>\<open>serde_json\<close> writes for a value.
\<close>

record tool_context =
  tx_user_id :: "string option"
  tx_tenant_id :: "string option"
  tx_auth_method :: "string option"
  tx_request_id :: "json option"
  tx_is_admin :: bool
  tx_client_capabilities :: "json option"
  tx_scopes :: "string list"
  tx_client_id :: "string option"
  tx_cancellation :: token
  tx_input_responses :: "json_map option"
  tx_request_state :: "string option"
  tx_request_meta :: json_map
  tx_client :: client_channel

definition tool_context_default :: "token \<Rightarrow> tool_context" where
  "tool_context_default token =
     \<lparr>tx_user_id = None, tx_tenant_id = None, tx_auth_method = None, tx_request_id = None,
      tx_is_admin = False, tx_client_capabilities = None, tx_scopes = [], tx_client_id = None,
      tx_cancellation = token, tx_input_responses = None, tx_request_state = None,
      tx_request_meta = [],
      tx_client = \<lparr>ch_connection = None, ch_scope = default_scope token\<rparr>\<rparr>"

definition with_cancellation :: "token \<Rightarrow> tool_context \<Rightarrow> tool_context" where
  "with_cancellation token ctx = ctx\<lparr>tx_cancellation := token\<rparr>"

definition with_client_capabilities :: "json \<Rightarrow> tool_context \<Rightarrow> tool_context" where
  "with_client_capabilities capabilities ctx = ctx\<lparr>tx_client_capabilities := Some capabilities\<rparr>"

definition with_meta :: "json_map \<Rightarrow> tool_context \<Rightarrow> tool_context" where
  "with_meta meta ctx = ctx\<lparr>tx_request_meta := meta\<rparr>"

definition declares_extension :: "tool_context \<Rightarrow> string \<Rightarrow> bool" where
  "declares_extension ctx extension_id \<longleftrightarrow>
     Option.bind (Option.bind (tx_client_capabilities ctx) (json_get ''extensions''))
       (json_get extension_id) \<noteq> None"

definition TASKS_EXTENSION_ID :: string where
  "TASKS_EXTENSION_ID = ''io.modelcontextprotocol/tasks''"

definition supports_tasks :: "tool_context \<Rightarrow> bool" where
  "supports_tasks ctx = declares_extension ctx TASKS_EXTENSION_ID"

subsection \<open>Capabilities of a tool\<close>

type_synonym tool_capabilities = "16 word"

definition REQUIRES_AUTH :: tool_capabilities where "REQUIRES_AUTH = 1"
definition REQUIRES_TENANT :: tool_capabilities where "REQUIRES_TENANT = 2"
definition REQUIRES_PROVIDER :: tool_capabilities where "REQUIRES_PROVIDER = 4"
definition READS_DATA :: tool_capabilities where "READS_DATA = 8"
definition WRITES_DATA :: tool_capabilities where "WRITES_DATA = 16"
definition ADMIN_ONLY :: tool_capabilities where "ADMIN_ONLY = 32"
definition PROFILE :: tool_capabilities where "PROFILE = 64"

text \<open>The \<^verbatim>\<open>bitflags\<close> operations.\<close>

definition caps_contains :: "tool_capabilities \<Rightarrow> tool_capabilities \<Rightarrow> bool" where
  "caps_contains caps flags \<longleftrightarrow> caps AND flags = flags"

definition caps_intersects :: "tool_capabilities \<Rightarrow> tool_capabilities \<Rightarrow> bool" where
  "caps_intersects caps flags \<longleftrightarrow> caps AND flags \<noteq> 0"

text \<open>\<^verbatim>\<open>as_deref().is_some_and(|id| !id.is_empty())\<close>.\<close>

definition non_empty :: "string option \<Rightarrow> bool" where
  "non_empty x \<longleftrightarrow> (case x of None \<Rightarrow> False | Some s \<Rightarrow> s \<noteq> [])"

definition refusal :: "string \<Rightarrow> tool_capabilities \<Rightarrow> string list \<Rightarrow> tool_context \<Rightarrow> string option" where
  "refusal name caps scopes ctx =
     (let tool = ''Tool '' @ [CHR 0x27] @ name @ [CHR 0x27] in
      if caps_contains caps ADMIN_ONLY \<and> \<not> tx_is_admin ctx
      then Some (tool @ '' requires admin privileges'')
      else if caps_intersects caps (REQUIRES_AUTH OR REQUIRES_TENANT) \<and> \<not> non_empty (tx_user_id ctx)
      then Some (tool @ '' requires a verified caller; this request carries no caller identity'')
      else if caps_contains caps REQUIRES_TENANT \<and> \<not> non_empty (tx_tenant_id ctx)
      then Some (tool @ '' requires a tenant; this caller'' @ [CHR 0x27] @ ''s credential names none'')
      else map_option
        (\<lambda>missing. tool @ '' requires the '' @ [CHR 0x27] @ missing @ [CHR 0x27] @ '' scope'')
        (List.find (\<lambda>scope. \<not> list_ex (\<lambda>granted. granted = scope) (tx_scopes ctx)) scopes))"

subsection \<open>Output schemas\<close>

definition output_schema_defect :: "(json \<Rightarrow> string) \<Rightarrow> json \<Rightarrow> string option" where
  "output_schema_defect json_text schema =
     (case json_get ''type'' schema of
        None \<Rightarrow> Some ''root has no type''
      | Some kind \<Rightarrow>
          if kind \<noteq> JString ''object''
          then Some (''root type is '' @ json_text kind @ '', not \"object\"'')
          else
            (case (case json_get ''properties'' schema of
                     None \<Rightarrow> None
                   | Some properties \<Rightarrow>
                       (case as_object properties of
                          None \<Rightarrow> Some (''properties is '' @ json_text properties @ '', not an object'')
                        | Some m \<Rightarrow>
                            map_option
                              (\<lambda>(name, property). ''property '' @ name @ '' has the schema ''
                                 @ json_text property @ '', not an object (document the field)'')
                              (List.find (\<lambda>(_, property). \<not> is_object property) m))) of
               Some defect \<Rightarrow> Some defect
             | None \<Rightarrow>
                 (case json_get ''required'' schema of
                    None \<Rightarrow> None
                  | Some required \<Rightarrow>
                      (case required of
                         JArray names \<Rightarrow>
                           if list_all is_string names then None
                           else Some (''required is '' @ json_text required @ '', not a list of names'')
                       | _ \<Rightarrow> Some (''required is '' @ json_text required @ '', not a list of names'')))))"

subsection \<open>Validation\<close>

text \<open>A validator answers the violations of a value: where, as a JSON pointer, and what.\<close>

type_synonym validator = "json \<Rightarrow> (string \<times> string) list"
type_synonym schema_compiler = "json \<Rightarrow> (string, validator) result"

datatype schema_role = InputSchema | OutputSchema

fun schema_role_name :: "schema_role \<Rightarrow> string" where
  "schema_role_name InputSchema = ''inputSchema''"
| "schema_role_name OutputSchema = ''outputSchema''"

record schema_compile_error =
  ce_schema :: schema_role
  ce_reason :: string

definition compile_error_text :: "schema_compile_error \<Rightarrow> string" where
  "compile_error_text e =
     ''its '' @ schema_role_name (ce_schema e) @ '' is not a usable JSON Schema: '' @ ce_reason e"

record tool_schema_validator =
  sv_input :: validator
  sv_output :: "validator option"

definition validator_compile ::
  "schema_compiler \<Rightarrow> tool \<Rightarrow> (schema_compile_error, tool_schema_validator) result" where
  "validator_compile compiler t =
     (case compiler (tl_input_schema t) of
        Inl reason \<Rightarrow> Inl \<lparr>ce_schema = InputSchema, ce_reason = reason\<rparr>
      | Inr input \<Rightarrow>
          (case tl_output_schema t of
             None \<Rightarrow> Inr \<lparr>sv_input = input, sv_output = None\<rparr>
           | Some schema \<Rightarrow>
               (case compiler schema of
                  Inl reason \<Rightarrow> Inl \<lparr>ce_schema = OutputSchema, ce_reason = reason\<rparr>
                | Inr output \<Rightarrow> Inr \<lparr>sv_input = input, sv_output = Some output\<rparr>)))"

fun join_with :: "string \<Rightarrow> string list \<Rightarrow> string" where
  "join_with sep [] = []"
| "join_with sep [x] = x"
| "join_with sep (x # y # xs) = x @ sep @ join_with sep (y # xs)"

definition violations_collect :: "validator \<Rightarrow> json \<Rightarrow> (string list, unit) result" where
  "violations_collect v instance_value =
     (let violations = map (\<lambda>(path, e). if path = [] then e else path @ '': '' @ e) (v instance_value) in
      if violations = [] then Inr () else Inl violations)"

definition violations_text :: "string list \<Rightarrow> string" where
  "violations_text violations = join_with ''; '' violations"

definition check_arguments :: "tool_schema_validator \<Rightarrow> json \<Rightarrow> (string list, unit) result" where
  "check_arguments v arguments = violations_collect (sv_input v) arguments"

definition check_result :: "tool_schema_validator \<Rightarrow> tool_response \<Rightarrow> (string list, unit) result" where
  "check_result v response =
     (case sv_output v of
        None \<Rightarrow> Inr ()
      | Some output \<Rightarrow>
          if tp_is_error response then Inr ()
          else
            (case tp_structured response of
               None \<Rightarrow>
                 Inl [''the tool declares an outputSchema but returned no structuredContent'']
             | Some structured \<Rightarrow> violations_collect output structured))"

subsection \<open>The registry\<close>

record 's mcp_tool =
  mt_definition :: tool
  mt_capabilities :: tool_capabilities
  mt_required_scopes :: "string list"
  mt_execute :: "tool_context \<Rightarrow> json \<Rightarrow> 's \<Rightarrow> 's \<times> tool_response"

record 's tool_registry =
  rg_tools :: "(string, 's mcp_tool) table"
  rg_categories :: "(string, string list) table"
  rg_validators :: "(string, (schema_compile_error, tool_schema_validator) result) table"

definition registry_new :: "'s tool_registry" where
  "registry_new = \<lparr>rg_tools = [], rg_categories = [], rg_validators = []\<rparr>"

definition registry_insert ::
  "(json \<Rightarrow> string) \<Rightarrow> schema_compiler option \<Rightarrow> 's mcp_tool \<Rightarrow> 's tool_registry
     \<Rightarrow> 's tool_registry \<times> string option" where
  "registry_insert json_text validation tool rg =
     (let d = mt_definition tool in
      if Option.bind (tl_output_schema d) (output_schema_defect json_text) \<noteq> None then (rg, None)
      else
        (let rg1 = (case validation of
                      None \<Rightarrow> rg
                    | Some compiler \<Rightarrow>
                        rg\<lparr>rg_validators :=
                             AList.update (tl_name d) (validator_compile compiler d) (rg_validators rg)\<rparr>)
         in (rg1\<lparr>rg_tools := AList.update (tl_name d) tool (rg_tools rg1)\<rparr>, Some (tl_name d))))"

definition registry_register ::
  "(json \<Rightarrow> string) \<Rightarrow> schema_compiler option \<Rightarrow> 's mcp_tool \<Rightarrow> 's tool_registry \<Rightarrow> 's tool_registry" where
  "registry_register json_text validation tool rg = fst (registry_insert json_text validation tool rg)"

definition register_with_category ::
  "(json \<Rightarrow> string) \<Rightarrow> schema_compiler option \<Rightarrow> 's mcp_tool \<Rightarrow> string \<Rightarrow> 's tool_registry
     \<Rightarrow> 's tool_registry" where
  "register_with_category json_text validation tool category rg =
     (case registry_insert json_text validation tool rg of
        (rg1, None) \<Rightarrow> rg1
      | (rg1, Some name) \<Rightarrow>
          rg1\<lparr>rg_categories :=
                AList.update category
                  (unwrap_or (map_of (rg_categories rg1) category) [] @ [name]) (rg_categories rg1)\<rparr>)"

definition list_definitions :: "'s tool_registry \<Rightarrow> tool list" where
  "list_definitions rg = map (\<lambda>(_, t). mt_definition t) (rg_tools rg)"

definition list_definitions_for :: "bool \<Rightarrow> 's tool_registry \<Rightarrow> tool list" where
  "list_definitions_for is_admin rg =
     map (\<lambda>(_, t). mt_definition t)
       (filter (\<lambda>(_, t). is_admin \<or> \<not> caps_contains (mt_capabilities t) ADMIN_ONLY) (rg_tools rg))"

definition definition_of :: "string \<Rightarrow> 's tool_registry \<Rightarrow> tool option" where
  "definition_of name rg = map_option mt_definition (map_of (rg_tools rg) name)"

definition capabilities_of :: "string \<Rightarrow> 's tool_registry \<Rightarrow> tool_capabilities option" where
  "capabilities_of name rg = map_option mt_capabilities (map_of (rg_tools rg) name)"

definition registry_categories :: "'s tool_registry \<Rightarrow> string list" where
  "registry_categories rg = keys (rg_categories rg)"

definition tools_in_category :: "string \<Rightarrow> 's tool_registry \<Rightarrow> string list" where
  "tools_in_category category rg = unwrap_or (map_of (rg_categories rg) category) []"

definition run_checked ::
  "string \<Rightarrow> 's mcp_tool \<Rightarrow> tool_schema_validator option \<Rightarrow> tool_context \<Rightarrow> json \<Rightarrow> 's
     \<Rightarrow> 's \<times> tool_response option" where
  "run_checked name tool validator ctx arguments s =
     (case mt_execute tool ctx arguments s of
        (s1, response) \<Rightarrow>
          (case (case validator of None \<Rightarrow> Inr () | Some v \<Rightarrow> check_result v response) of
             Inr _ \<Rightarrow> (s1, Some response)
           | Inl violations \<Rightarrow>
               (s1, Some (response_failed (name @ '': the result does not match the tool''
                  @ [CHR 0x27] @ ''s outputSchema: '' @ violations_text violations)))))"

text \<open>\<open>validation\<close> tells whether the feature is on: off, there is nothing to look up or check.\<close>

definition registry_execute ::
  "schema_compiler option \<Rightarrow> 's tool_registry \<Rightarrow> string \<Rightarrow> tool_context \<Rightarrow> json \<Rightarrow> 's
     \<Rightarrow> 's \<times> tool_response option" where
  "registry_execute validation rg name ctx arguments s =
     (case map_of (rg_tools rg) name of
        None \<Rightarrow> (s, None)
      | Some tool \<Rightarrow>
          (case refusal name (mt_capabilities tool) (mt_required_scopes tool) ctx of
             Some reason \<Rightarrow> (s, Some (response_failed reason))
           | None \<Rightarrow>
               (case validation of
                  None \<Rightarrow> run_checked name tool None ctx arguments s
                | Some _ \<Rightarrow>
                    (case map_of (rg_validators rg) name of
                       None \<Rightarrow> (s, None)
                     | Some (Inl e) \<Rightarrow> (s, Some (response_failed (name @ '': '' @ compile_error_text e)))
                     | Some (Inr v) \<Rightarrow>
                         (case check_arguments v arguments of
                            Inl violations \<Rightarrow>
                              (s, Some (response_failed
                                 (name @ '': invalid arguments: '' @ violations_text violations)))
                          | Inr _ \<Rightarrow> run_checked name tool (Some v) ctx arguments s)))))"

subsection \<open>The gate\<close>

lemma and_single_bit: "(w :: 16 word) AND 2 ^ n = (if n < 16 \<and> bit w n then 2 ^ n else 0)"
  by (intro bit_word_eqI) (auto simp: bit_simps)

lemma capability_bits [simp]:
  "caps_contains caps ADMIN_ONLY \<longleftrightarrow> bit caps 5"
  "caps_contains caps REQUIRES_TENANT \<longleftrightarrow> bit caps 1"
  "caps_intersects caps (REQUIRES_AUTH OR REQUIRES_TENANT) \<longleftrightarrow> bit caps 0 \<or> bit caps 1"
proof -
  have "caps AND 32 = (if bit caps 5 then 32 else 0)" "caps AND 2 = (if bit caps 1 then 2 else 0)"
    "caps AND 1 = (if bit caps 0 then 1 else 0)"
    using and_single_bit [of caps 5] and_single_bit [of caps 1] and_single_bit [of caps 0] by simp_all
  moreover have "caps AND (1 OR 2) = (caps AND 1) OR (caps AND 2)"
    by (simp only: bit.conj_disj_distrib)
  ultimately show "caps_contains caps ADMIN_ONLY \<longleftrightarrow> bit caps 5"
    "caps_contains caps REQUIRES_TENANT \<longleftrightarrow> bit caps 1"
    "caps_intersects caps (REQUIRES_AUTH OR REQUIRES_TENANT) \<longleftrightarrow> bit caps 0 \<or> bit caps 1"
    unfolding caps_contains_def caps_intersects_def ADMIN_ONLY_def REQUIRES_TENANT_def REQUIRES_AUTH_def
    by (simp_all only:) simp_all
qed

text \<open>Who may run a tool, as its documentation states it.\<close>

definition may_run :: "'s mcp_tool \<Rightarrow> tool_context \<Rightarrow> bool" where
  "may_run tool ctx \<longleftrightarrow>
     (bit (mt_capabilities tool) 5 \<longrightarrow> tx_is_admin ctx)
     \<and> (bit (mt_capabilities tool) 0 \<or> bit (mt_capabilities tool) 1 \<longrightarrow> non_empty (tx_user_id ctx))
     \<and> (bit (mt_capabilities tool) 1 \<longrightarrow> non_empty (tx_tenant_id ctx))
     \<and> set (mt_required_scopes tool) \<subseteq> set (tx_scopes ctx)"

lemma refusal_None_iff:
  "refusal name (mt_capabilities tool) (mt_required_scopes tool) ctx = None \<longleftrightarrow> may_run tool ctx"
  by (auto simp: refusal_def may_run_def Let_def find_None_iff list_ex_iff)

text \<open>An output schema the registry admits is the object schema the specification allows.\<close>

lemma output_schema_defect_None_iff:
  "output_schema_defect json_text schema = None \<longleftrightarrow>
     json_get ''type'' schema = Some (JString ''object'')
     \<and> (\<forall>p. json_get ''properties'' schema = Some p \<longrightarrow>
          (\<exists>m. p = JObject m \<and> (\<forall>(_, property) \<in> set m. is_object property)))
     \<and> (\<forall>r. json_get ''required'' schema = Some r \<longrightarrow>
          (\<exists>names. r = JArray names \<and> (\<forall>n \<in> set names. is_string n)))"
  by (auto simp: output_schema_defect_def as_object_def find_None_iff list_all_iff case_prod_unfold
      dest: find_Some_mem split: option.splits json.splits if_splits)

subsection \<open>The registry over every sequence of registrations\<close>

datatype 's registration = Registered "'s mcp_tool" | RegisteredIn "'s mcp_tool" string

fun registry_step ::
  "(json \<Rightarrow> string) \<Rightarrow> schema_compiler option \<Rightarrow> 's tool_registry \<Rightarrow> 's registration \<Rightarrow> 's tool_registry" where
  "registry_step json_text validation rg (Registered tool) = registry_register json_text validation tool rg"
| "registry_step json_text validation rg (RegisteredIn tool category) =
     register_with_category json_text validation tool category rg"

definition allowed_output :: "tool \<Rightarrow> bool" where
  "allowed_output d \<longleftrightarrow> (\<forall>schema. tl_output_schema d = Some schema \<longrightarrow> output_schema_defect (\<lambda>_. []) schema = None)"

lemma allowed_output_eq:
  "Option.bind (tl_output_schema d) (output_schema_defect json_text) = None \<longleftrightarrow> allowed_output d"
  unfolding allowed_output_def output_schema_defect_None_iff
  by (cases "tl_output_schema d") (simp_all add: output_schema_defect_None_iff)

definition registry_ok :: "schema_compiler option \<Rightarrow> 's tool_registry \<Rightarrow> bool" where
  "registry_ok validation rg \<longleftrightarrow>
     distinct_keys (rg_tools rg) \<and> distinct_keys (rg_categories rg)
     \<and> (\<forall>name tool. map_of (rg_tools rg) name = Some tool \<longrightarrow>
          tl_name (mt_definition tool) = name \<and> allowed_output (mt_definition tool)
          \<and> (\<forall>compiler. validation = Some compiler \<longrightarrow>
               map_of (rg_validators rg) name = Some (validator_compile compiler (mt_definition tool))))
     \<and> (\<forall>category names. map_of (rg_categories rg) category = Some names \<longrightarrow>
          (\<forall>name \<in> set names. map_of (rg_tools rg) name \<noteq> None))"

lemma registry_insert_cases:
  "registry_insert json_text validation tool rg =
     (if allowed_output (mt_definition tool)
      then (rg\<lparr>rg_validators :=
              (case validation of None \<Rightarrow> rg_validators rg
               | Some compiler \<Rightarrow>
                   AList.update (tl_name (mt_definition tool))
                     (validator_compile compiler (mt_definition tool)) (rg_validators rg)),
              rg_tools := AList.update (tl_name (mt_definition tool)) tool (rg_tools rg)\<rparr>,
            Some (tl_name (mt_definition tool)))
      else (rg, None))"
  unfolding registry_insert_def Let_def allowed_output_eq by (simp split: option.split)

lemma registry_insert_ok:
  assumes "registry_ok validation rg" "allowed_output (mt_definition tool)"
  shows "registry_ok validation (fst (registry_insert json_text validation tool rg))"
  using assms
  by (auto simp: registry_insert_cases registry_ok_def map_of_update distinct_keys_update split: option.split)

lemma registry_category_ok:
  assumes "registry_ok validation rg" "map_of (rg_tools rg) name \<noteq> None"
  shows "registry_ok validation
    (rg\<lparr>rg_categories := AList.update category
       (unwrap_or (map_of (rg_categories rg) category) [] @ [name]) (rg_categories rg)\<rparr>)"
proof -
  have old: "map_of (rg_tools rg) n \<noteq> None" if "n \<in> set (unwrap_or (map_of (rg_categories rg) category) [])" for n
    using assms(1) that unfolding registry_ok_def unwrap_or_def
    by (cases "map_of (rg_categories rg) category") auto
  have "map_of (rg_tools rg) n \<noteq> None"
    if "map_of (AList.update category
       (unwrap_or (map_of (rg_categories rg) category) [] @ [name]) (rg_categories rg)) c = Some names"
      and "n \<in> set names" for c names n
  proof (cases "c = category")
    case True
    with that have "n = name \<or> n \<in> set (unwrap_or (map_of (rg_categories rg) category) [])"
      by (auto simp: map_of_update)
    with old assms(2) show ?thesis by blast
  next
    case False
    with that assms(1) show ?thesis unfolding registry_ok_def by (simp add: map_of_update)
  qed
  with assms(1) show ?thesis unfolding registry_ok_def by (simp add: distinct_keys_update)
qed

lemma registry_step_ok: "registry_ok validation rg \<Longrightarrow> registry_ok validation (registry_step json_text validation rg e)"
proof (cases e)
  case (Registered tool)
  then show "registry_ok validation rg \<Longrightarrow> ?thesis"
    using registry_insert_ok [of validation rg tool json_text]
    by (cases "allowed_output (mt_definition tool)") (simp_all add: registry_register_def registry_insert_cases)
next
  case (RegisteredIn tool category)
  assume ok: "registry_ok validation rg"
  show ?thesis
  proof (cases "allowed_output (mt_definition tool)")
    case False
    with ok RegisteredIn show ?thesis by (simp add: register_with_category_def registry_insert_cases)
  next
    case True
    let ?rg = "fst (registry_insert json_text validation tool rg)"
    have "registry_ok validation ?rg" by (rule registry_insert_ok [OF ok True])
    moreover have "map_of (rg_tools ?rg) (tl_name (mt_definition tool)) = Some tool"
      using True by (simp add: registry_insert_cases map_of_update)
    moreover have "registry_step json_text validation rg e = ?rg\<lparr>rg_categories := AList.update category
        (unwrap_or (map_of (rg_categories ?rg) category) [] @ [tl_name (mt_definition tool)]) (rg_categories ?rg)\<rparr>"
      using True RegisteredIn by (simp add: register_with_category_def registry_insert_cases)
    ultimately show ?thesis by (simp add: registry_category_ok)
  qed
qed

interpretation registry: machine "registry_step json_text validation" "registry_ok validation"
  for json_text validation
  by unfold_locales (rule registry_step_ok)

lemma registry_new_ok: "registry_ok validation registry_new"
  by (simp add: registry_ok_def registry_new_def)

subsection \<open>What a call may reach\<close>

lemma run_checked_cases:
  assumes "run_checked name tool validator ctx arguments s = (s', res)"
  shows "s' = fst (mt_execute tool ctx arguments s)
    \<and> (\<exists>r. res = Some r \<and> (r = snd (mt_execute tool ctx arguments s)
         \<and> (\<forall>v. validator = Some v \<longrightarrow> check_result v r = Inr ()) \<or> tp_is_error r))"
  using assms
  by (auto simp: run_checked_def response_failed_def split: prod.splits sum.splits option.splits)

text \<open>
  A registered tool runs only for a caller its declaration admits: an admin for an admin
  tool, an identified caller for one that requires a caller or a tenant, a caller with a tenant
  for one that requires it, and a grant holding every scope it names. For anyone else nothing
  runs and the answer is an error result; for a name never registered there is no result at all.
  When the caller is admitted and no schema is validated the tool runs and its own answer is
  returned.
\<close>

theorem tool_runs_only_admitted:
  assumes "registry_execute validation rg name ctx arguments s = (s', res)"
  shows "case map_of (rg_tools rg) name of
      None \<Rightarrow> s' = s \<and> res = None
    | Some tool \<Rightarrow>
        (\<not> may_run tool ctx \<longrightarrow> s' = s \<and> (\<exists>r. res = Some r \<and> tp_is_error r))
        \<and> (may_run tool ctx \<and> validation = None \<longrightarrow>
             (s', res) = apsnd Some (mt_execute tool ctx arguments s))"
proof (cases "map_of (rg_tools rg) name")
  case None
  with assms show ?thesis by (simp add: registry_execute_def)
next
  case (Some tool)
  have refused: "refusal name (mt_capabilities tool) (mt_required_scopes tool) ctx = None \<longleftrightarrow> may_run tool ctx"
    by (rule refusal_None_iff)
  from assms Some refused show ?thesis
    by (auto simp: registry_execute_def run_checked_def response_failed_def apsnd_def map_prod_def
        split: option.splits prod.splits)
qed

definition sample_tool :: "nat mcp_tool" where
  "sample_tool =
     \<lparr>mt_definition = \<lparr>tl_name = ''rows'', tl_description = ''d'', tl_input_schema = JObject [],
        tl_output_schema = None, tl_annotations = None, tl_execution = None\<rparr>,
      mt_capabilities = ADMIN_ONLY, mt_required_scopes = [''read''],
      mt_execute = (\<lambda>_ _ n. (Suc n, response_text ''ran''))\<rparr>"

definition sample_registry :: "nat tool_registry" where
  "sample_registry = registry_step (\<lambda>_. []) None registry_new (Registered sample_tool)"

lemma sample_registry_tools: "rg_tools sample_registry = [(''rows'', sample_tool)]"
  by (simp add: sample_registry_def registry_register_def registry_insert_def registry_new_def sample_tool_def)

lemma tool_runs_only_admitted_witness:
  "fst (registry_execute None sample_registry ''rows'' (tool_context_default 0) JNull 0) = 0
   \<and> fst (registry_execute None sample_registry ''rows''
       ((tool_context_default 0)\<lparr>tx_is_admin := True, tx_scopes := [''read'']\<rparr>) JNull 0) = 1"
proof -
  let ?admin = "(tool_context_default 0)\<lparr>tx_is_admin := True, tx_scopes := [''read'']\<rparr>"
  have "\<not> may_run sample_tool (tool_context_default 0)" "may_run sample_tool ?admin"
    by (simp_all add: may_run_def sample_tool_def ADMIN_ONLY_def tool_context_default_def bit_numeral_rec)
  moreover have "mt_execute sample_tool ctx JNull n = (Suc n, response_text ''ran'')" for ctx n
    by (simp add: sample_tool_def)
  ultimately show ?thesis
    using tool_runs_only_admitted [of None sample_registry "''rows''" "tool_context_default 0" JNull 0, OF surjective_pairing]
      tool_runs_only_admitted [of None sample_registry "''rows''" ?admin JNull 0, OF surjective_pairing]
    by (simp add: sample_registry_tools prod_eq_iff)
qed

text \<open>
  With validation on, after every sequence of registrations: a tool runs only on arguments
  its input schema accepts, and what is returned is an error or the tool's own answer with the
  structured content its output schema, if it declares one, accepts. The schemas are those of
  the definition registered last under the name.
\<close>

theorem validated_call:
  assumes "rg = run (registry_step json_text (Some compiler)) registry_new es"
    and "registry_execute (Some compiler) rg name ctx arguments s = (s', res)"
    and "map_of (rg_tools rg) name = Some tool"
  shows "(s' = s \<or> (\<exists>input. compiler (tl_input_schema (mt_definition tool)) = Inr input \<and> input arguments = []))
    \<and> (\<exists>r. res = Some r
         \<and> (\<not> tp_is_error r \<longrightarrow>
              (s', r) = mt_execute tool ctx arguments s
              \<and> (\<forall>schema. tl_output_schema (mt_definition tool) = Some schema \<longrightarrow>
                   (\<exists>output structured. compiler schema = Inr output \<and> tp_structured r = Some structured
                      \<and> output structured = []))))"
proof -
  have "registry_ok (Some compiler) rg"
    using assms(1) registry.run_inv [OF registry_new_ok] by blast
  with assms(3) have v: "map_of (rg_validators rg) name = Some (validator_compile compiler (mt_definition tool))"
    unfolding registry_ok_def by blast
  have collect: "violations_collect v x = Inr () \<longleftrightarrow> v x = []" for v x
    by (simp add: violations_collect_def Let_def)
  show ?thesis
  proof (cases "may_run tool ctx")
    case False
    with assms(2,3) refusal_None_iff [of name tool ctx] show ?thesis
      by (auto simp: registry_execute_def response_failed_def split: option.splits)
  next
    case True
    then have refused: "refusal name (mt_capabilities tool) (mt_required_scopes tool) ctx = None"
      by (simp add: refusal_None_iff)
    show ?thesis
    proof (cases "validator_compile compiler (mt_definition tool)")
      case (Inl e)
      with assms(2,3) v refused show ?thesis by (auto simp: registry_execute_def response_failed_def)
    next
      case (Inr val)
      then have input: "compiler (tl_input_schema (mt_definition tool)) = Inr (sv_input val)"
        and out_schema: "case tl_output_schema (mt_definition tool) of None \<Rightarrow> sv_output val = None
          | Some schema \<Rightarrow> (\<exists>out. compiler schema = Inr out \<and> sv_output val = Some out)"
        by (auto simp: validator_compile_def split: sum.splits option.splits)
      show ?thesis
      proof (cases "check_arguments val arguments")
        case (Inl e)
        with assms(2,3) v refused Inr show ?thesis by (auto simp: registry_execute_def response_failed_def)
      next
        case (Inr u)
        with assms(2,3) v refused \<open>validator_compile _ _ = Inr val\<close>
        have "run_checked name tool (Some val) ctx arguments s = (s', res)"
          by (simp add: registry_execute_def)
        from run_checked_cases [OF this] obtain r where r: "s' = fst (mt_execute tool ctx arguments s)"
          "res = Some r" "r = snd (mt_execute tool ctx arguments s) \<and> check_result val r = Inr () \<or> tp_is_error r"
          by auto
        have "sv_input val arguments = []"
          using Inr collect by (simp add: check_arguments_def)
        moreover have "\<exists>out structured. compiler schema = Inr out \<and> tp_structured r = Some structured \<and> out structured = []"
          if "check_result val r = Inr ()" "\<not> tp_is_error r" "tl_output_schema (mt_definition tool) = Some schema" for schema
          using that out_schema collect by (auto simp: check_result_def split: option.splits)
        ultimately show ?thesis using r input by auto
      qed
    qed
  qed
qed

lemma validated_call_witness:
  "let rg = run (registry_step (\<lambda>_. []) (Some (\<lambda>_. Inr (\<lambda>_. [])))) registry_new [Registered sample_tool]
   in \<exists>r. snd (registry_execute (Some (\<lambda>_. Inr (\<lambda>_. []))) rg ''rows''
        ((tool_context_default 0)\<lparr>tx_is_admin := True, tx_scopes := [''read'']\<rparr>) JNull 0) = Some r"
proof -
  let ?rg = "run (registry_step (\<lambda>_. []) (Some (\<lambda>_. Inr (\<lambda>_. [])))) registry_new [Registered sample_tool]"
  have "map_of (rg_tools ?rg) ''rows'' = Some sample_tool"
    by (simp add: registry_register_def registry_insert_def registry_new_def sample_tool_def Let_def)
  from validated_call [OF refl surjective_pairing this] show ?thesis
    unfolding Let_def by blast
qed

lemma listing_facts:
  assumes "registry_ok validation rg"
  shows "set (list_definitions_for is_admin rg) =
      {mt_definition tool | name tool. map_of (rg_tools rg) name = Some tool
         \<and> (is_admin \<or> \<not> bit (mt_capabilities tool) 5)}"
    and "distinct (map tl_name (list_definitions_for is_admin rg))"
    and "d \<in> set (list_definitions_for is_admin rg) \<Longrightarrow> allowed_output d \<and> definition_of (tl_name d) rg = Some d"
proof -
  from assms have dist: "distinct_keys (rg_tools rg)"
    and named: "\<And>name tool. map_of (rg_tools rg) name = Some tool \<Longrightarrow>
      tl_name (mt_definition tool) = name \<and> allowed_output (mt_definition tool)"
    unfolding registry_ok_def by blast+
  have mem: "(name, tool) \<in> set (rg_tools rg) \<longleftrightarrow> map_of (rg_tools rg) name = Some tool" for name tool
    using dist by (metis map_of_SomeD map_of_is_SomeI)
  show listed: "set (list_definitions_for is_admin rg) =
      {mt_definition tool | name tool. map_of (rg_tools rg) name = Some tool
         \<and> (is_admin \<or> \<not> bit (mt_capabilities tool) 5)}"
    by (force simp: list_definitions_for_def mem)
  have "map tl_name (list_definitions_for is_admin rg) =
      map fst (filter (\<lambda>(_, t). is_admin \<or> \<not> caps_contains (mt_capabilities t) ADMIN_ONLY) (rg_tools rg))"
    unfolding list_definitions_for_def using named mem by (auto intro!: map_cong simp: case_prod_unfold)
  then show "distinct (map tl_name (list_definitions_for is_admin rg))"
    using dist by (simp add: distinct_map_filter)
  show "allowed_output d \<and> definition_of (tl_name d) rg = Some d" if "d \<in> set (list_definitions_for is_admin rg)"
    using that named unfolding listed by (auto simp: definition_of_def)
qed

text \<open>
  What a caller may discover and what it may run agree. After every sequence of
  registrations the listing of a caller holds the definitions of exactly the registered tools
  it is not withheld for lack of admin rights, each under its own name with the output schema
  the specification allows; and calling a tool the listing withholds runs nothing.
\<close>

theorem listing_agrees_with_dispatch:
  assumes "rg = run (registry_step json_text validation) registry_new es"
  shows "set (list_definitions_for is_admin rg) =
      {mt_definition tool | name tool. map_of (rg_tools rg) name = Some tool
         \<and> (is_admin \<or> \<not> bit (mt_capabilities tool) 5)}
    \<and> distinct (map tl_name (list_definitions_for is_admin rg))
    \<and> (\<forall>d \<in> set (list_definitions_for is_admin rg). allowed_output d \<and> definition_of (tl_name d) rg = Some d)
    \<and> (\<forall>name ctx tool. map_of (rg_tools rg) name = Some tool
         \<and> mt_definition tool \<notin> set (list_definitions_for (tx_is_admin ctx) rg) \<longrightarrow>
         fst (registry_execute validation rg name ctx arguments s) = s)"
proof -
  have ok: "registry_ok validation rg"
    using assms registry.run_inv [OF registry_new_ok] by blast
  note listed = listing_facts [OF ok]
  have "fst (registry_execute validation rg name ctx arguments s) = s"
    if "map_of (rg_tools rg) name = Some tool"
      "mt_definition tool \<notin> set (list_definitions_for (tx_is_admin ctx) rg)" for name ctx tool
  proof -
    have "\<not> may_run tool ctx"
      using that unfolding listed(1) may_run_def by auto
    with that(1) refusal_None_iff [of name tool ctx] show ?thesis
      by (auto simp: registry_execute_def split: option.splits)
  qed
  with listed show ?thesis by blast
qed

lemma listing_agrees_with_dispatch_witness:
  "let rg = run (registry_step (\<lambda>_. []) None) registry_new [Registered sample_tool]
   in list_definitions_for False rg = [] \<and> list_definitions_for True rg = [mt_definition sample_tool]
    \<and> fst (registry_execute None rg ''rows'' (tool_context_default 0) JNull 0) = 0"
proof -
  let ?rg = "run (registry_step (\<lambda>_. []) None) registry_new [Registered sample_tool]"
  have tools: "rg_tools ?rg = [(''rows'', sample_tool)]"
    by (simp add: registry_register_def registry_insert_def registry_new_def sample_tool_def Let_def)
  have admin: "caps_contains (mt_capabilities sample_tool) ADMIN_ONLY"
    by (simp add: sample_tool_def ADMIN_ONLY_def caps_contains_def)
  have listed: "list_definitions_for False ?rg = []" "list_definitions_for True ?rg = [mt_definition sample_tool]"
    using tools admin by (simp_all add: list_definitions_for_def)
  have "fst (registry_execute None ?rg ''rows'' (tool_context_default 0) JNull 0) = 0"
    using listing_agrees_with_dispatch [OF refl, where json_text = "\<lambda>_. []" and validation = None
        and es = "[Registered sample_tool]" and is_admin = False and arguments = JNull and s = 0] tools listed(1)
    by (auto simp: tool_context_default_def)
  with listed show ?thesis by (simp add: Let_def)
qed

end
