(* ===== verification/Mirror.thy ===== *)
theory Mirror
  imports Json_Rpc Pagination
begin

declare map_of_eq_Some_iff [simp del] Some_eq_map_of_iff [simp del]

text \<open>
  The request headers Streamable HTTP mirrors out of the body (\<^verbatim>\<open>src/mcp/transport/mirror.rs\<close>):
  their wire form, the check of the standard ones, and the check of the ones a tool's input
  schema asks for.

  A \<^verbatim>\<open>HeaderMap\<close> is the list of its (lower-case name, value) pairs, a name repeated when the header
  is. \<^verbatim>\<open>HeaderValue::to_str\<close> of the \<^verbatim>\<open>http\<close> package answers the text of a value of visible
  characters: the argument \<open>to_str\<close>. The standard base64 engine is an argument, and so are the
  operations on the machine's floating-point numbers the comparison of numbers uses.
\<close>

definition MCP_METHOD_HEADER :: string where "MCP_METHOD_HEADER = ''mcp-method''"
definition MCP_NAME_HEADER :: string where "MCP_NAME_HEADER = ''mcp-name''"
definition MCP_PARAM_PREFIX :: string where "MCP_PARAM_PREFIX = ''mcp-param-''"
definition X_MCP_HEADER :: string where "X_MCP_HEADER = ''x-mcp-header''"
definition BASE64_PREFIX :: string where "BASE64_PREFIX = ''=?base64?''"
definition BASE64_SUFFIX :: string where "BASE64_SUFFIX = ''?=''"

definition mirrored_name_field :: "string \<Rightarrow> string option" where
  "mirrored_name_field method =
     (if method = ''resources/read'' then Some ''uri''
      else if method = ''tools/call'' \<or> method = ''prompts/get'' then Some ''name''
      else None)"

text \<open>\<^verbatim>\<open>str::get(..n)\<close> also needs \<open>n\<close> to be a character boundary; a prefix equal to an ASCII
  text ends at one.\<close>

definition is_param_header :: "string \<Rightarrow> bool" where
  "is_param_header name \<longleftrightarrow>
     length MCP_PARAM_PREFIX \<le> length name
     \<and> eq_ignore_ascii_case (take (length MCP_PARAM_PREFIX) name) MCP_PARAM_PREFIX"

definition decode_header_value :: "base64 \<Rightarrow> string \<Rightarrow> (string, string) result" where
  "decode_header_value codec raw =
     (let trimmed = trim raw in
      case Option.bind (strip_prefix BASE64_PREFIX trimmed) (strip_suffix BASE64_SUFFIX) of
        None \<Rightarrow> Inr trimmed
      | Some payload \<Rightarrow>
          (case b64_decode codec payload of
             None \<Rightarrow> Inl ''invalid Base64 encoding''
           | Some bytes \<Rightarrow>
               if utf8_valid bytes then Inr bytes else Inl ''Base64 payload is not UTF-8''))"

definition permitted_byte :: "char \<Rightarrow> bool" where
  "permitted_byte b \<longleftrightarrow> byte b = 9 \<or> 32 \<le> byte b \<and> byte b \<le> 126"

definition is_permitted_field_value :: "string \<Rightarrow> bool" where
  "is_permitted_field_value v = list_all permitted_byte v"

definition encode_header_value :: "base64 \<Rightarrow> string \<Rightarrow> string" where
  "encode_header_value codec v =
     (if is_permitted_field_value v \<and> trim v = v then v
      else BASE64_PREFIX @ b64_encode codec v @ BASE64_SUFFIX)"

subsection \<open>Standard headers\<close>

type_synonym header_map = "(string \<times> string) list"

definition get_all :: "header_map \<Rightarrow> string \<Rightarrow> string list" where
  "get_all headers name = map snd (filter (\<lambda>(k, _). k = name) headers)"

definition header_keys :: "header_map \<Rightarrow> string list" where
  "header_keys headers = remdups (map fst headers)"

definition is_repeated :: "string \<Rightarrow> string" where
  "is_repeated name = ''Header mismatch: '' @ name @ '' is repeated''"

definition not_permitted :: "string \<Rightarrow> string" where
  "not_permitted name =
     ''Header mismatch: '' @ name @ '' contains characters not permitted in an HTTP field value''"

definition single_header ::
  "(string \<Rightarrow> string option) \<Rightarrow> header_map \<Rightarrow> string \<Rightarrow> (string, string option) result" where
  "single_header to_str headers name =
     (case get_all headers name of
        [] \<Rightarrow> Inr None
      | [v] \<Rightarrow> (case to_str v of Some s \<Rightarrow> Inr (Some s) | None \<Rightarrow> Inl (not_permitted name))
      | _ \<Rightarrow> Inl (is_repeated name))"

definition quote :: "string \<Rightarrow> string" where
  "quote s = [CHR 0x27] @ s @ [CHR 0x27]"

text \<open>The loop over the names, then the two mirrors.\<close>

fun check_param_values :: "header_map \<Rightarrow> string list \<Rightarrow> (string, unit) result" where
  "check_param_values headers [] = Inr ()"
| "check_param_values headers (name # names) =
     (if \<not> is_param_header name then check_param_values headers names
      else if 1 < length (get_all headers name) then Inl (is_repeated name)
      else if list_ex (\<lambda>v. \<not> is_permitted_field_value v) (get_all headers name)
      then Inl (not_permitted name)
      else check_param_values headers names)"

definition check_method_header ::
  "(string \<Rightarrow> string option) \<Rightarrow> header_map \<Rightarrow> rpc_request \<Rightarrow> bool \<Rightarrow> (string, unit) result" where
  "check_method_header to_str headers request required =
     result_bind (single_header to_str headers MCP_METHOD_HEADER) (\<lambda>h.
       case h of
         Some method \<Rightarrow>
           if trim method \<noteq> rq_method request
           then Inl (''Header mismatch: Mcp-Method header value '' @ quote (trim method)
                     @ '' does not match body method '' @ quote (rq_method request))
           else Inr ()
       | None \<Rightarrow>
           if required then Inl ''Header mismatch: Mcp-Method is required and must mirror body method''
           else Inr ())"

definition match_name ::
  "base64 \<Rightarrow> rpc_request \<Rightarrow> bool \<Rightarrow> string \<Rightarrow> string option \<Rightarrow> (string, unit) result" where
  "match_name codec request required field name_header =
     (let body_name = Option.bind (param (rq_params request) field) as_str in
      case name_header of
        Some raw \<Rightarrow>
          (let decoded = (case decode_header_value codec raw of Inl _ \<Rightarrow> None | Inr s \<Rightarrow> Some s) in
           if decoded \<noteq> body_name \<or> body_name = None
           then Inl (''Header mismatch: Mcp-Name header value '' @ quote (unwrap_or decoded (trim raw))
                     @ '' does not match body value '' @ quote (unwrap_or body_name []))
           else Inr ())
      | None \<Rightarrow>
          if required
          then Inl (''Header mismatch: Mcp-Name is required for method '' @ quote (rq_method request))
          else Inr ())"

definition check_name_header ::
  "base64 \<Rightarrow> (string \<Rightarrow> string option) \<Rightarrow> header_map \<Rightarrow> rpc_request \<Rightarrow> bool \<Rightarrow> (string, unit) result" where
  "check_name_header codec to_str headers request required =
     result_bind (single_header to_str headers MCP_NAME_HEADER) (\<lambda>name_header.
       case mirrored_name_field (rq_method request) of
         None \<Rightarrow> Inr ()
       | Some field \<Rightarrow> match_name codec request required field name_header)"

definition check_standard_headers ::
  "base64 \<Rightarrow> (string \<Rightarrow> string option) \<Rightarrow> header_map \<Rightarrow> rpc_request \<Rightarrow> bool \<Rightarrow> (string, unit) result" where
  "check_standard_headers codec to_str headers request modern =
     (let required = modern \<and> rq_id request \<noteq> None in
      result_bind (check_param_values headers (header_keys headers)) (\<lambda>_.
      result_bind (check_method_header to_str headers request required) (\<lambda>_.
        check_name_header codec to_str headers request required)))"

definition check_response_headers :: "header_map \<Rightarrow> (string, unit) result" where
  "check_response_headers headers =
     (case List.find (\<lambda>name. eq_ignore_ascii_case name MCP_METHOD_HEADER
              \<or> eq_ignore_ascii_case name MCP_NAME_HEADER \<or> is_param_header name) (header_keys headers) of
        None \<Rightarrow> Inr ()
      | Some name \<Rightarrow>
          Inl (''Header mismatch: '' @ name
               @ '' mirrors a request, and a response has nothing for it to mirror''))"

subsection \<open>Arguments a schema asks to mirror\<close>

record mirrored_argument =
  ma_header :: string
  ma_path :: "string list"

lemma size_json_map_lookup [termination_simp]:
  "(key, v) \<in> set m \<Longrightarrow> size v < size_list (size_prod (\<lambda>_. 0) size) m"
  by (induction m) auto

lemma size_json_get: "json_get key v = Some w \<Longrightarrow> size w < size v"
proof -
  assume "json_get key v = Some w"
  then obtain m where v: "v = JObject m" and "(key, w) \<in> set m"
    by (auto simp: json_get_def dest: map_of_SomeD split: json.splits)
  then have "size w < size_list (size_prod (\<lambda>_. 0) size) m"
    by (intro size_json_map_lookup)
  then show ?thesis by (simp add: v)
qed

function walk_properties :: "string list \<Rightarrow> json \<Rightarrow> mirrored_argument list" where
  "walk_properties path schema =
     (case json_get ''properties'' schema of
        Some (JObject properties) \<Rightarrow>
          concat (map (\<lambda>(key, property).
            (case Option.bind (json_get X_MCP_HEADER property) as_str of
               None \<Rightarrow> []
             | Some name \<Rightarrow>
                 [\<lparr>ma_header = MCP_PARAM_PREFIX @ to_ascii_lowercase name, ma_path = path @ [key]\<rparr>])
            @ walk_properties (path @ [key]) property) properties)
      | _ \<Rightarrow> [])"
  by pat_completeness auto
termination
proof (relation "measure (\<lambda>(_, schema). size schema)")
  fix path :: "string list" and schema w properties entry key property
  assume "json_get ''properties'' schema = Some w" "w = JObject properties" "entry \<in> set properties"
    "(key, property) = entry"
  then have "size property < size_list (size_prod (\<lambda>_. 0) size) properties"
    and "size (JObject properties) < size schema"
    by (auto intro: size_json_map_lookup dest: size_json_get)
  then show "((path @ [key], property), path, schema) \<in> measure (\<lambda>(_, schema). size schema)"
    by simp
qed simp

declare walk_properties.simps [simp del]

definition mirrored_arguments :: "json \<Rightarrow> mirrored_argument list" where
  "mirrored_arguments schema = walk_properties [] schema"

text \<open>The decimal text of a number.\<close>

function nat_text :: "nat \<Rightarrow> string" where
  "nat_text n = (if n < 10 then [char_of (48 + n)] else nat_text (n div 10) @ [char_of (48 + n mod 10)])"
  by pat_completeness auto
termination
  by (relation "measure id") auto

declare nat_text.simps [simp del]

definition int_text :: "int \<Rightarrow> string" where
  "int_text n = (if n < 0 then CHR ''-'' # nat_text (nat (- n)) else nat_text (nat n))"

fun number_text :: "json_number \<Rightarrow> string" where
  "number_text (PosInt n) = nat_text n"
| "number_text (NegInt n) = CHR ''-'' # nat_text (nat (- n))"
| "number_text (Float s) = s"

definition mirrorable :: "json option \<Rightarrow> string option" where
  "mirrorable v =
     (case v of
        Some (JString s) \<Rightarrow> Some s
      | Some (JBool b) \<Rightarrow> Some (if b then ''true'' else ''false'')
      | Some (JNumber n) \<Rightarrow> Some (number_text n)
      | _ \<Rightarrow> None)"

text \<open>What is used of \<^verbatim>\<open>f64\<close>: the value of a JSON number, the value of a text, whether two values
  are the same, and whether one is not finite or past \<open>2 ^ 53 - 1\<close> in magnitude.\<close>

record 'f floats =
  f_of_number :: "json_number \<Rightarrow> 'f"
  f_parse :: "string \<Rightarrow> 'f option"
  f_same :: "'f \<Rightarrow> 'f \<Rightarrow> bool"
  f_unsafe :: "'f \<Rightarrow> bool"

definition as_f64 :: "'f floats \<Rightarrow> json \<Rightarrow> 'f option" where
  "as_f64 fl v = (case v of JNumber n \<Rightarrow> Some (f_of_number fl n) | _ \<Rightarrow> None)"

definition mirrors :: "'f floats \<Rightarrow> json \<Rightarrow> string \<Rightarrow> string \<Rightarrow> bool" where
  "mirrors fl body body_text header \<longleftrightarrow>
     (case as_f64 fl body of
        None \<Rightarrow> header = body_text
      | Some number \<Rightarrow>
          (case f_parse fl header of None \<Rightarrow> False | Some parsed \<Rightarrow> f_same fl parsed number))"

definition carries_param_header :: "json_map \<Rightarrow> bool" where
  "carries_param_header headers = list_ex is_param_header (keys headers)"

text \<open>\<^verbatim>\<open>path.iter().try_fold(arguments, |value, key| value.get(key))\<close>.\<close>

fun json_at :: "string list \<Rightarrow> json \<Rightarrow> json option" where
  "json_at [] v = Some v"
| "json_at (key # path) v = Option.bind (json_get key v) (json_at path)"

fun join_dots :: "string list \<Rightarrow> string" where
  "join_dots [] = []"
| "join_dots [x] = x"
| "join_dots (x # y # xs) = x @ ''.'' @ join_dots (y # xs)"

definition check_argument ::
  "base64 \<Rightarrow> 'f floats \<Rightarrow> json option \<Rightarrow> json_map \<Rightarrow> bool \<Rightarrow> mirrored_argument \<Rightarrow> (string, unit) result" where
  "check_argument codec fl arguments headers modern argument =
     (let body = Option.bind arguments (json_at (ma_path argument));
          header = Option.bind (map_of headers (ma_header argument)) as_str;
          name = ma_header argument;
          property = join_dots (ma_path argument)
      in case (header, body, mirrorable body) of
           (None, _, Some _) \<Rightarrow>
             if modern
             then Inl (''Header mismatch: '' @ name @ '' is required because body arguments contains ''
                       @ quote property)
             else Inr ()
         | (Some _, _, None) \<Rightarrow>
             Inl (''Header mismatch: '' @ name @ '' is present but body has no matching value'')
         | (Some raw, Some body, Some body_text) \<Rightarrow>
             if (case as_f64 fl body of None \<Rightarrow> False | Some n \<Rightarrow> f_unsafe fl n)
             then Inl (''Header mismatch: '' @ name @ '' value '' @ quote body_text
                       @ '' is outside the safe integer range and cannot be mirrored'')
             else
               (case decode_header_value codec raw of
                  Inl reason \<Rightarrow> Inl (''Header mismatch: '' @ name @ '' has '' @ reason)
                | Inr decoded \<Rightarrow>
                    if \<not> mirrors fl body body_text decoded
                    then Inl (''Header mismatch: '' @ name @ '' header value '' @ quote decoded
                              @ '' does not match body value '' @ quote body_text)
                    else Inr ())
         | _ \<Rightarrow> Inr ())"

fun check_each :: "('a \<Rightarrow> ('e, unit) result) \<Rightarrow> 'a list \<Rightarrow> ('e, unit) result" where
  "check_each f [] = Inr ()"
| "check_each f (x # xs) = result_bind (f x) (\<lambda>_. check_each f xs)"

definition check_param_headers ::
  "base64 \<Rightarrow> 'f floats \<Rightarrow> json \<Rightarrow> json option \<Rightarrow> json_map \<Rightarrow> bool \<Rightarrow> (string, unit) result" where
  "check_param_headers codec fl input_schema arguments headers modern =
     check_each (check_argument codec fl arguments headers modern) (mirrored_arguments input_schema)"

subsection \<open>Lemmas\<close>

lemma check_each_Inr: "check_each f xs = Inr () \<longleftrightarrow> (\<forall>x \<in> set xs. f x = Inr ())"
  by (induction xs) (auto simp: result_bind_Inr_iff)

text \<open>Trimming a text of ASCII characters looks at its two ends only.\<close>

lemma utf8_chunks_ascii:
  "\<forall>c \<in> set s. byte c < 128 \<Longrightarrow> utf8_chunks s = map (\<lambda>c. (byte c, [c])) s"
  by (induction s) (simp_all add: utf8_step_def)

lemma utf8_valid_ascii: "\<forall>c \<in> set s. byte c < 128 \<Longrightarrow> utf8_valid s"
  by (induction s) (simp_all add: utf8_step_def)

lemma trim_ascii:
  assumes "\<forall>c \<in> set (x # s @ [y]). byte c < 128" "\<not> is_whitespace (byte x)" "\<not> is_whitespace (byte y)"
  shows "trim (x # s @ [y]) = x # s @ [y]"
proof -
  have "utf8_chunks (x # s @ [y]) = map (\<lambda>c. (byte c, [c])) (x # s @ [y])"
    using assms(1) by (rule utf8_chunks_ascii)
  then have "trim (x # s @ [y]) = concat (map snd (map (\<lambda>c. (byte c, [c])) (x # s @ [y])))"
    using assms(2,3) by (simp add: trim_def)
  then show ?thesis by (simp add: comp_def)
qed

lemma permitted_ascii: "is_permitted_field_value s \<Longrightarrow> \<forall>c \<in> set s. byte c < 128"
  by (auto simp: is_permitted_field_value_def permitted_byte_def list_all_iff)

lemma permitted_wrapping: "is_permitted_field_value (BASE64_PREFIX @ s @ BASE64_SUFFIX) \<longleftrightarrow> is_permitted_field_value s"
  by (simp add: is_permitted_field_value_def BASE64_PREFIX_def BASE64_SUFFIX_def permitted_byte_def)

lemma trim_wrapped:
  assumes "is_permitted_field_value s"
  shows "trim (BASE64_PREFIX @ s @ BASE64_SUFFIX) = BASE64_PREFIX @ s @ BASE64_SUFFIX"
proof -
  have e: "BASE64_PREFIX @ s @ BASE64_SUFFIX = CHR ''='' # (''?base64?'' @ s @ ''?'') @ [CHR ''='']"
    by (simp add: BASE64_PREFIX_def BASE64_SUFFIX_def)
  have "\<forall>c \<in> set (BASE64_PREFIX @ s @ BASE64_SUFFIX). byte c < 128"
    using assms permitted_ascii permitted_wrapping by blast
  then show ?thesis unfolding e by (rule trim_ascii) (simp_all add: is_whitespace_def)
qed

definition unwraps_to :: "string \<Rightarrow> string \<Rightarrow> bool" where
  "unwraps_to v payload \<longleftrightarrow> v = BASE64_PREFIX @ payload @ BASE64_SUFFIX"

lemma strip_sentinel:
  "Option.bind (strip_prefix BASE64_PREFIX v) (strip_suffix BASE64_SUFFIX) = Some payload \<longleftrightarrow> unwraps_to v payload"
  by (auto simp: unwraps_to_def bind_eq_Some_conv strip_prefix_Some strip_suffix_Some)

lemma decode_cases:
  "decode_header_value codec raw =
     (if \<exists>payload. unwraps_to (trim raw) payload
      then (case b64_decode codec (THE payload. unwraps_to (trim raw) payload) of
              None \<Rightarrow> Inl ''invalid Base64 encoding''
            | Some bytes \<Rightarrow> if utf8_valid bytes then Inr bytes else Inl ''Base64 payload is not UTF-8'')
      else Inr (trim raw))"
proof (cases "Option.bind (strip_prefix BASE64_PREFIX (trim raw)) (strip_suffix BASE64_SUFFIX)")
  case None
  then have "\<nexists>payload. unwraps_to (trim raw) payload"
    using strip_sentinel [of "trim raw"] by (metis option.distinct(1))
  with None show ?thesis by (simp add: decode_header_value_def Let_def)
next
  case (Some payload)
  then have u: "unwraps_to (trim raw) payload" by (simp add: strip_sentinel)
  then have "(THE payload. unwraps_to (trim raw) payload) = payload"
    by (auto simp: unwraps_to_def)
  with Some u show ?thesis by (auto simp: decode_header_value_def Let_def)
qed

lemma decode_wrapped:
  "is_permitted_field_value payload \<Longrightarrow>
   decode_header_value codec (BASE64_PREFIX @ payload @ BASE64_SUFFIX) =
     (case b64_decode codec payload of
        None \<Rightarrow> Inl ''invalid Base64 encoding''
      | Some bytes \<Rightarrow> if utf8_valid bytes then Inr bytes else Inl ''Base64 payload is not UTF-8'')"
proof -
  assume "is_permitted_field_value payload"
  then have t: "trim (BASE64_PREFIX @ payload @ BASE64_SUFFIX) = BASE64_PREFIX @ payload @ BASE64_SUFFIX"
    by (rule trim_wrapped)
  have "Option.bind (strip_prefix BASE64_PREFIX (BASE64_PREFIX @ payload @ BASE64_SUFFIX))
      (strip_suffix BASE64_SUFFIX) = Some payload"
    by (simp add: strip_sentinel unwraps_to_def)
  with t show ?thesis by (simp add: decode_header_value_def Let_def)
qed

text \<open>
  What a mirrored value decodes to. Whatever text is encoded reads back as itself, except a
  text that already looks like a wrapped value: such a text is sent as it is, and reads back as
  what its payload decodes to. The base64 engine is assumed to decode what it encodes, to visible
  characters.
\<close>

theorem mirrored_value_roundtrip:
  assumes "\<And>s. b64_decode codec (b64_encode codec s) = Some s"
    and "\<And>s. is_permitted_field_value (b64_encode codec s)"
    and "utf8_valid v" and "utf8_valid x"
  shows "((\<nexists>payload. unwraps_to v payload) \<longrightarrow> decode_header_value codec (encode_header_value codec v) = Inr v)
    \<and> decode_header_value codec (encode_header_value codec (BASE64_PREFIX @ b64_encode codec x @ BASE64_SUFFIX)) = Inr x"
proof (intro conjI impI)
  assume plain: "\<nexists>payload. unwraps_to v payload"
  show "decode_header_value codec (encode_header_value codec v) = Inr v"
  proof (cases "is_permitted_field_value v \<and> trim v = v")
    case True
    with plain show ?thesis by (auto simp: encode_header_value_def decode_cases)
  next
    case False
    then have "encode_header_value codec v = BASE64_PREFIX @ b64_encode codec v @ BASE64_SUFFIX"
      by (auto simp: encode_header_value_def)
    with assms show ?thesis by (simp add: decode_wrapped)
  qed
next
  let ?v = "BASE64_PREFIX @ b64_encode codec x @ BASE64_SUFFIX"
  have "is_permitted_field_value ?v" "trim ?v = ?v"
    using assms(2) by (simp_all add: permitted_wrapping trim_wrapped)
  then have "encode_header_value codec ?v = ?v" by (simp add: encode_header_value_def)
  with assms show "decode_header_value codec (encode_header_value codec ?v) = Inr x"
    by (simp add: decode_wrapped)
qed

text \<open>A codec that writes each byte as two letters.\<close>

definition letter_codec :: base64 where
  "letter_codec =
     \<lparr>b64_encode = \<lambda>s. concat (map (\<lambda>c. [char_of (65 + (of_char c :: nat) div 16), char_of (65 + (of_char c :: nat) mod 16)]) s),
      b64_decode = \<lambda>s. Some (map (\<lambda>i. char_of (16 * ((of_char (s ! (2 * i)) :: nat) - 65)
                                          + ((of_char (s ! (2 * i + 1)) :: nat) - 65))) [0..<length s div 2])\<rparr>"

lemma letter_pair:
  fixes c :: char
  defines "n \<equiv> (of_char c :: nat)"
  shows "char_of (16 * ((of_char (char_of (65 + n div 16) :: char) :: nat) - 65)
      + ((of_char (char_of (65 + n mod 16) :: char) :: nat) - 65)) = c"
proof -
  have "n < 256" unfolding n_def by simp 
  then have "65 + n div 16 < 256" "65 + n mod 16 < 256" by (simp_all add: less_mult_imp_div_less)
  then have "(of_char (char_of (65 + n div 16) :: char) :: nat) = 65 + n div 16"
    "(of_char (char_of (65 + n mod 16) :: char) :: nat) = 65 + n mod 16"
    by simp_all
  then show ?thesis by (simp add: n_def)
qed

lemma letter_codec_decodes: "b64_decode letter_codec (b64_encode letter_codec s) = Some s"
proof (induction s)
  case Nil
  then show ?case by (simp add: letter_codec_def)
next
  case (Cons c s)
  let ?enc = "b64_encode letter_codec s"
  obtain a b where enc: "b64_encode letter_codec (c # s) = a # b # ?enc"
    and ab: "char_of (16 * ((of_char a :: nat) - 65) + ((of_char b :: nat) - 65)) = c"
    using letter_pair [of c] by (simp add: letter_codec_def)
  have "[0..<length (a # b # ?enc) div 2] = 0 # map Suc [0..<length ?enc div 2]"
    by (simp add: upt_conv_Cons map_Suc_upt del: upt_Suc)
  with Cons.IH ab show ?case
    unfolding enc by (simp add: letter_codec_def comp_def)
qed

lemma byte_char_of: "n < 256 \<Longrightarrow> byte (char_of (n :: nat)) = int n"
  by (metis of_char_of mod_less of_nat_of_char)

lemma letter_codec_permitted: "is_permitted_field_value (b64_encode letter_codec s)"
proof (induction s)
  case (Cons c s)
  have "(of_char c :: nat) < 256" by simp
  then have "(of_char c :: nat) div 16 < 16" by (simp add: less_mult_imp_div_less)
  then have "65 + (of_char c :: nat) div 16 \<le> 80" "65 + (of_char c :: nat) mod 16 \<le> 80" by auto
  then have "permitted_byte (char_of (65 + (of_char c :: nat) div 16))"
    "permitted_byte (char_of (65 + (of_char c :: nat) mod 16))"
    by (simp_all add: permitted_byte_def byte_char_of)
  with Cons show ?case by (simp add: letter_codec_def is_permitted_field_value_def)
qed (simp add: letter_codec_def is_permitted_field_value_def)

lemma mirrored_value_roundtrip_witness:
  "decode_header_value letter_codec (encode_header_value letter_codec ''us-west1'') = Inr ''us-west1''
   \<and> decode_header_value letter_codec
       (encode_header_value letter_codec (BASE64_PREFIX @ b64_encode letter_codec ''Hi'' @ BASE64_SUFFIX)) = Inr ''Hi''"
proof -
  have v: "utf8_valid ''us-west1''" "utf8_valid ''Hi''" by code_simp+
  have "\<nexists>payload. unwraps_to ''us-west1'' payload" by (simp add: unwraps_to_def BASE64_PREFIX_def)
  with mirrored_value_roundtrip [OF letter_codec_decodes letter_codec_permitted v] show ?thesis by blast
qed

subsection \<open>Which arguments a schema annotates\<close>

text \<open>The objects of a JSON value have distinct keys.\<close>

fun json_distinct :: "json \<Rightarrow> bool" where
  "json_distinct (JArray vs) = list_all json_distinct vs"
| "json_distinct (JObject m) = (distinct (map fst m) \<and> list_all (\<lambda>(_, v). json_distinct v) m)"
| "json_distinct _ = True"

text \<open>The subschema a chain of \<^verbatim>\<open>properties\<close> keys leads to.\<close>

fun schema_at :: "string list \<Rightarrow> json \<Rightarrow> json option" where
  "schema_at [] schema = Some schema"
| "schema_at (key # path) schema =
     Option.bind (Option.bind (json_get ''properties'' schema) (json_get key)) (schema_at path)"

definition annotated :: "json \<Rightarrow> string list \<Rightarrow> string \<Rightarrow> bool" where
  "annotated schema path name \<longleftrightarrow>
     path \<noteq> [] \<and> Option.bind (Option.bind (schema_at path schema) (json_get X_MCP_HEADER)) as_str = Some name"

lemma json_distinct_get: "json_distinct v \<Longrightarrow> json_get key v = Some w \<Longrightarrow> json_distinct w"
  by (auto simp: json_get_def list_all_iff dest!: map_of_SomeD split: json.splits)

lemma walk_annotated:
  "json_distinct schema \<Longrightarrow>
   set (walk_properties path schema) =
     {\<lparr>ma_header = MCP_PARAM_PREFIX @ to_ascii_lowercase name, ma_path = path @ rel\<rparr> | rel name. annotated schema rel name}"
proof (induction path schema rule: walk_properties.induct)
  case (1 path schema)
  show ?case
  proof (cases "\<exists>m. json_get ''properties'' schema = Some (JObject m)")
    case False
    then have "walk_properties path schema = []"
      by (subst walk_properties.simps) (auto split: option.split json.split)
    moreover have "\<not> annotated schema rel name" for rel name
      using False by (cases rel) (auto simp: annotated_def bind_eq_Some_conv json_get_def split: json.splits option.splits)
    ultimately show ?thesis by simp
  next
    case True
    then obtain m where m: "json_get ''properties'' schema = Some (JObject m)" by blast
    with "1.prems" have dm: "json_distinct (JObject m)" by (blast intro: json_distinct_get)
    then have look: "map_of m key = Some p \<longleftrightarrow> (key, p) \<in> set m" for key p
      by (auto intro: map_of_is_SomeI dest: map_of_SomeD)
    let ?arg = "\<lambda>rel name. \<lparr>ma_header = MCP_PARAM_PREFIX @ to_ascii_lowercase name, ma_path = path @ rel\<rparr>"
    have IH: "set (walk_properties (path @ [key]) p) = {?arg (key # rel) name | rel name. annotated p rel name}"
      if "(key, p) \<in> set m" for key p
      using "1.IH" [OF m refl that refl] that dm by (auto simp: list_all_iff)
    have ann: "annotated schema rel name \<longleftrightarrow> (\<exists>key p rest. rel = key # rest \<and> (key, p) \<in> set m
        \<and> (if rest = [] then Option.bind (json_get X_MCP_HEADER p) as_str = Some name else annotated p rest name))" for rel name
    proof (cases rel)
      case (Cons key rest)
      have "json_get key (JObject m) = map_of m key" by (simp add: json_get_def)
      with Cons m look show ?thesis by (cases rest) (auto simp: annotated_def bind_eq_Some_conv)
    qed (simp add: annotated_def)
    have "set (walk_properties path schema) = (\<Union>(key, p) \<in> set m.
        {?arg [key] name | name. Option.bind (json_get X_MCP_HEADER p) as_str = Some name}
        \<union> set (walk_properties (path @ [key]) p))"
      by (subst walk_properties.simps) (force simp: m split: option.splits)
    also have "\<dots> = (\<Union>(key, p) \<in> set m.
        {?arg [key] name | name. Option.bind (json_get X_MCP_HEADER p) as_str = Some name}
        \<union> {?arg (key # rel) name | rel name. annotated p rel name})"
      using IH by auto
    also have "\<dots> = {?arg rel name | rel name. annotated schema rel name}"
      unfolding ann by (fastforce simp: annotated_def split: if_splits)
    finally show ?thesis .
  qed
qed

text \<open>What one mirror must satisfy for its argument.\<close>

definition mirror_agrees ::
  "base64 \<Rightarrow> 'f floats \<Rightarrow> bool \<Rightarrow> string option \<Rightarrow> json option \<Rightarrow> bool" where
  "mirror_agrees codec fl modern header body \<longleftrightarrow>
     (case header of
        None \<Rightarrow> modern \<longrightarrow> mirrorable body = None
      | Some raw \<Rightarrow>
          (\<exists>v text decoded. body = Some v \<and> mirrorable body = Some text
             \<and> decode_header_value codec raw = Inr decoded \<and> mirrors fl v text decoded
             \<and> (\<forall>n. as_f64 fl v = Some n \<longrightarrow> \<not> f_unsafe fl n)))"

lemma mirrorable_None: "mirrorable None = None"
  by (simp add: mirrorable_def)

lemma check_argument_Inr:
  "check_argument codec fl arguments headers modern a = Inr () \<longleftrightarrow>
     mirror_agrees codec fl modern (Option.bind (map_of headers (ma_header a)) as_str)
       (Option.bind arguments (json_at (ma_path a)))"
  by (cases "Option.bind arguments (json_at (ma_path a))")
    (auto simp: check_argument_def mirror_agrees_def Let_def mirrorable_None split: option.splits sum.splits)

text \<open>
  A call whose mirrored arguments pass the check runs exactly what a gateway saw. For every
  argument the input schema annotates, reached through \<^verbatim>\<open>properties\<close> keys alone: a header that is
  there decodes to the argument's own value, which is within the safe range when it is a number;
  and when the header is missing on a modern call, the call passes no value it could carry. The
  check answers nothing else, and it terminates on every schema.
\<close>

theorem check_param_headers_exact:
  assumes "json_distinct input_schema"
  shows "check_param_headers codec fl input_schema arguments headers modern = Inr () \<longleftrightarrow>
    (\<forall>path name. annotated input_schema path name \<longrightarrow>
       mirror_agrees codec fl modern
         (Option.bind (map_of headers (MCP_PARAM_PREFIX @ to_ascii_lowercase name)) as_str)
         (Option.bind arguments (json_at path)))"
  unfolding check_param_headers_def check_each_Inr mirrored_arguments_def walk_annotated [OF assms]
  by (fastforce simp: check_argument_Inr)

definition sample_schema :: json where
  "sample_schema = JObject [(''properties'', JObject
     [(''r'', JObject [(''type'', JString ''string''), (''x-mcp-header'', JString ''R'')])])]"

definition no_floats :: "nat floats" where
  "no_floats = \<lparr>f_of_number = (\<lambda>_. 0), f_parse = (\<lambda>_. None), f_same = (=), f_unsafe = (\<lambda>_. False)\<rparr>"

lemma check_param_headers_exact_witness:
  "check_param_headers letter_codec no_floats sample_schema (Some (JObject [(''r'', JString ''x'')]))
     [(''mcp-param-r'', JString ''y'')] False \<noteq> Inr ()"
proof
  assume ok: "check_param_headers letter_codec no_floats sample_schema (Some (JObject [(''r'', JString ''x'')]))
     [(''mcp-param-r'', JString ''y'')] False = Inr ()"
  have "json_distinct sample_schema" by (simp add: sample_schema_def)
  moreover have "annotated sample_schema [''r''] ''R''"
    by (simp add: annotated_def sample_schema_def json_get_def X_MCP_HEADER_def as_str_def)
  moreover have low: "to_ascii_lowercase ''R'' = ''r''" by code_simp
  ultimately have "mirror_agrees letter_codec no_floats False (Some ''y'') (Some (JString ''x''))"
    using ok check_param_headers_exact [of sample_schema letter_codec no_floats
        "Some (JObject [(''r'', JString ''x'')])" "[(''mcp-param-r'', JString ''y'')]" False]
    by (force simp: MCP_PARAM_PREFIX_def as_str_def json_get_def)
  moreover have "decode_header_value letter_codec ''y'' = Inr ''y''" by code_simp
  ultimately show False
    by (simp add: mirror_agrees_def mirrorable_def mirrors_def as_f64_def)
qed

lemma check_param_values_Inr:
  "check_param_values headers names = Inr () \<longleftrightarrow>
     (\<forall>name \<in> set names. is_param_header name \<longrightarrow>
        length (get_all headers name) \<le> 1 \<and> (\<forall>v \<in> set (get_all headers name). is_permitted_field_value v))"
  by (induction names) (auto simp: list_ex_iff)

lemma single_header_Inr:
  "single_header to_str headers name = Inr h \<longleftrightarrow>
     (get_all headers name = [] \<and> h = None \<or> (\<exists>v s. get_all headers name = [v] \<and> to_str v = Some s \<and> h = Some s))"
  by (auto simp: single_header_def split: list.splits option.splits)

lemma check_method_header_Inr:
  "check_method_header to_str headers request required = Inr () \<longleftrightarrow>
     (get_all headers MCP_METHOD_HEADER = [] \<and> \<not> required
      \<or> (\<exists>v s. get_all headers MCP_METHOD_HEADER = [v] \<and> to_str v = Some s \<and> trim s = rq_method request))"
  by (auto simp: check_method_header_def result_bind_Inr_iff single_header_Inr split: option.splits if_splits)

lemma match_name_None: "match_name codec request required field None = Inr () \<longleftrightarrow> \<not> required"
  by (simp add: match_name_def)

lemma match_name_Some:
  "match_name codec request required field (Some s) = Inr () \<longleftrightarrow>
     (\<exists>n. decode_header_value codec s = Inr n \<and> param (rq_params request) field = Some (JString n))"
proof -
  have str: "Option.bind x as_str = Some n \<longleftrightarrow> x = Some (JString n)" for x n
    by (cases x) (auto simp: as_str_def split: json.splits)
  show ?thesis
    unfolding match_name_def Let_def
    by (cases "decode_header_value codec s") (auto simp flip: str)
qed

lemma check_name_header_Inr:
  "check_name_header codec to_str headers request required = Inr () \<longleftrightarrow>
     (get_all headers MCP_NAME_HEADER = [] \<and> (required \<longrightarrow> mirrored_name_field (rq_method request) = None)
      \<or> (\<exists>v s. get_all headers MCP_NAME_HEADER = [v] \<and> to_str v = Some s
           \<and> (\<forall>field. mirrored_name_field (rq_method request) = Some field \<longrightarrow>
                (\<exists>n. decode_header_value codec s = Inr n
                   \<and> param (rq_params request) field = Some (JString n)))))"
  unfolding check_name_header_def result_bind_Inr_iff single_header_Inr
  by (cases "mirrored_name_field (rq_method request)") (auto simp: match_name_None match_name_Some)

text \<open>
  The standard mirrors of a request that passes are those of its body. Each mirror present is
  there once, with visible characters; \<^verbatim>\<open>Mcp-Method\<close> is the body's method and \<^verbatim>\<open>Mcp-Name\<close> decodes to
  the body's name or uri when its method addresses one; and a modern request that expects an
  answer carries both. A request that satisfies this is never refused.
\<close>

theorem check_standard_headers_exact:
  "check_standard_headers codec to_str headers request modern = Inr () \<longleftrightarrow>
     (\<forall>name \<in> fst ` set headers. is_param_header name \<longrightarrow>
        length (get_all headers name) \<le> 1 \<and> (\<forall>v \<in> set (get_all headers name). is_permitted_field_value v))
     \<and> (get_all headers MCP_METHOD_HEADER = [] \<and> \<not> (modern \<and> rq_id request \<noteq> None)
        \<or> (\<exists>v s. get_all headers MCP_METHOD_HEADER = [v] \<and> to_str v = Some s \<and> trim s = rq_method request))
     \<and> (get_all headers MCP_NAME_HEADER = []
          \<and> (modern \<and> rq_id request \<noteq> None \<longrightarrow> mirrored_name_field (rq_method request) = None)
        \<or> (\<exists>v s. get_all headers MCP_NAME_HEADER = [v] \<and> to_str v = Some s
             \<and> (\<forall>field. mirrored_name_field (rq_method request) = Some field \<longrightarrow>
                  (\<exists>n. decode_header_value codec s = Inr n
                     \<and> param (rq_params request) field = Some (JString n)))))"
proof -
  have "check_standard_headers codec to_str headers request modern = Inr () \<longleftrightarrow>
      check_param_values headers (header_keys headers) = Inr ()
      \<and> check_method_header to_str headers request (modern \<and> rq_id request \<noteq> None) = Inr ()
      \<and> check_name_header codec to_str headers request (modern \<and> rq_id request \<noteq> None) = Inr ()"
    by (simp add: check_standard_headers_def result_bind_Inr_iff Let_def)
  then show ?thesis
    unfolding check_param_values_Inr check_method_header_Inr check_name_header_Inr
    by (simp add: header_keys_def)
qed

lemma check_standard_headers_exact_witness:
  "check_standard_headers letter_codec Some [(''mcp-method'', ''tools/call'')]
     (request_with_id ''tools/call'' None (JNumber (PosInt 1))) True \<noteq> Inr ()"
  unfolding check_standard_headers_exact
  by (simp add: get_all_def MCP_METHOD_HEADER_def MCP_NAME_HEADER_def request_with_id_def mirrored_name_field_def)

lemma check_response_headers_Inr:
  "check_response_headers headers = Inr () \<longleftrightarrow>
     (\<forall>name \<in> fst ` set headers. \<not> eq_ignore_ascii_case name MCP_METHOD_HEADER
        \<and> \<not> eq_ignore_ascii_case name MCP_NAME_HEADER \<and> \<not> is_param_header name)"
proof -
  have "check_response_headers headers = Inr () \<longleftrightarrow>
      List.find (\<lambda>name. eq_ignore_ascii_case name MCP_METHOD_HEADER
        \<or> eq_ignore_ascii_case name MCP_NAME_HEADER \<or> is_param_header name) (header_keys headers) = None"
    by (simp add: check_response_headers_def split: option.split)
  then show ?thesis by (simp add: find_None_iff header_keys_def)
qed

end
