(* ===== verification/Dispatch.thy ===== *)
theory Dispatch
  imports Tool_Registry Mirror Task_Manager Cancellation
begin

declare map_of_eq_Some_iff [simp del] Some_eq_map_of_iff [simp del]

text \<open>
  The server's dispatch of one message (\<^verbatim>\<open>src/mcp/server.rs\<close>, \<^verbatim>\<open>src/mcp/host.rs\<close>): era detection,
  the legacy and the modern method tables, the handlers, and the request's registration,
  cancellation and drop around them.

  What the host supplies (tools, a tool dispatcher, a method handler, an auth hook, a source of
  instructions) is a function of the world it may change: the clients it sends to, the tasks it
  creates and its own state. A handler runs to its end in one step; the steps of a request around
  it are its registration, the looks of its biased wait, and its drop. What packages supply (base64
  engines, floating-point numbers, the JSON text of a value) is the record \<open>libraries\<close>.
\<close>

record ('s, 'a) host_world =
  hw_clients :: client_world
  hw_tasks :: "'s task_world"
  hw_app :: 'a

datatype call_outcome =
    Immediate tool_response
  | UnknownTool
  | TaskOutcome task
  | InputNeeded input_required

record 'w tool_dispatcher =
  td_list_tools :: "tool_context \<Rightarrow> 'w \<Rightarrow> 'w \<times> tool list"
  td_call_tool :: "string \<Rightarrow> tool_context \<Rightarrow> json \<Rightarrow> 'w \<Rightarrow> 'w \<times> call_outcome"

type_synonym 'w method_handler =
  "string \<Rightarrow> json option \<Rightarrow> json option \<Rightarrow> tool_context \<Rightarrow> 'w \<Rightarrow> 'w \<times> rpc_response option"

datatype auth_error =
    Unauthorized string
  | Forbidden string
  | InsufficientScope string string
  | RateLimited nat string
  | AuthInternal string

record 'f libraries =
  lib_id_text :: "json \<Rightarrow> string"
  lib_read_json :: "string \<Rightarrow> (string, json) result"
  lib_cursor_codec :: base64
  lib_header_codec :: base64
  lib_floats :: "'f floats"

record ('s, 'a) mcp_server =
  sr_name :: string
  sr_version :: string
  sr_tools :: "('s, 'a) host_world tool_registry"
  sr_validation :: "schema_compiler option"
  sr_capabilities :: server_capabilities
  sr_instructions :: "(('s, 'a) host_world \<Rightarrow> string option) option"
  sr_supported_versions :: "string list"
  sr_auth_hook ::
    "(rpc_request \<Rightarrow> ('s, 'a) host_world \<Rightarrow> ('s, 'a) host_world \<times> (auth_error, tool_context) result) option"
  sr_list_page_size :: "nat option"
  sr_tool_dispatcher :: "('s, 'a) host_world tool_dispatcher option"
  sr_method_handler :: "('s, 'a) host_world method_handler option"
  sr_task_manager :: "'s task_manager option"

subsection \<open>Building a server\<close>

definition default_supported_versions :: "string list" where
  "default_supported_versions = [PROTOCOL_VERSION_2026_07_28, PROTOCOL_VERSION]"

definition EARLIER_LEGACY_REVISIONS :: "string list" where
  "EARLIER_LEGACY_REVISIONS = [''2025-06-18'', ''2025-03-26'']"

definition mcp_server_new ::
  "string \<Rightarrow> string \<Rightarrow> ('s, 'a) host_world tool_registry \<Rightarrow> schema_compiler option \<Rightarrow> ('s, 'a) mcp_server" where
  "mcp_server_new name version tools validation =
     \<lparr>sr_name = name, sr_version = version, sr_tools = tools, sr_validation = validation,
      sr_capabilities = tools_only, sr_instructions = None,
      sr_supported_versions = default_supported_versions, sr_auth_hook = None,
      sr_list_page_size = None, sr_tool_dispatcher = None, sr_method_handler = None,
      sr_task_manager = None\<rparr>"

definition with_capabilities :: "server_capabilities \<Rightarrow> ('s, 'a) mcp_server \<Rightarrow> ('s, 'a) mcp_server" where
  "with_capabilities capabilities srv = srv\<lparr>sr_capabilities := capabilities\<rparr>"

definition with_instructions :: "string \<Rightarrow> ('s, 'a) mcp_server \<Rightarrow> ('s, 'a) mcp_server" where
  "with_instructions text srv = srv\<lparr>sr_instructions := Some (\<lambda>_. Some text)\<rparr>"

definition with_supported_versions :: "string list \<Rightarrow> ('s, 'a) mcp_server \<Rightarrow> ('s, 'a) mcp_server" where
  "with_supported_versions versions srv = srv\<lparr>sr_supported_versions := versions\<rparr>"

definition with_list_page_size :: "nat \<Rightarrow> ('s, 'a) mcp_server \<Rightarrow> ('s, 'a) mcp_server" where
  "with_list_page_size n srv = srv\<lparr>sr_list_page_size := Some n\<rparr>"

definition with_tool_dispatcher ::
  "('s, 'a) host_world tool_dispatcher \<Rightarrow> ('s, 'a) mcp_server \<Rightarrow> ('s, 'a) mcp_server" where
  "with_tool_dispatcher dispatcher srv = srv\<lparr>sr_tool_dispatcher := Some dispatcher\<rparr>"

definition with_method_handler ::
  "('s, 'a) host_world method_handler \<Rightarrow> ('s, 'a) mcp_server \<Rightarrow> ('s, 'a) mcp_server" where
  "with_method_handler handler srv = srv\<lparr>sr_method_handler := Some handler\<rparr>"

definition with_task_manager :: "'s task_manager \<Rightarrow> ('s, 'a) mcp_server \<Rightarrow> ('s, 'a) mcp_server" where
  "with_task_manager manager srv = srv\<lparr>sr_task_manager := Some manager\<rparr>"

definition supports_version :: "('s, 'a) mcp_server \<Rightarrow> string \<Rightarrow> bool" where
  "supports_version srv version = list_ex (\<lambda>v. v = version) (sr_supported_versions srv)"

definition accepts_protocol_version :: "('s, 'a) mcp_server \<Rightarrow> string \<Rightarrow> bool" where
  "accepts_protocol_version srv version \<longleftrightarrow>
     supports_version srv version
     \<or> supports_version srv PROTOCOL_VERSION \<and> version \<in> set EARLIER_LEGACY_REVISIONS"

definition advertised_capabilities :: "('s, 'a) mcp_server \<Rightarrow> server_capabilities" where
  "advertised_capabilities srv =
     (let capabilities = sr_capabilities srv in
      if sr_task_manager srv \<noteq> None
      then capabilities\<lparr>sv_extensions :=
             Some (or_insert TASKS_EXTENSION_ID (JObject []) (unwrap_or (sv_extensions capabilities) []))\<rparr>
      else capabilities)"

definition advertised_instructions :: "('s, 'a) mcp_server \<Rightarrow> ('s, 'a) host_world \<Rightarrow> string option" where
  "advertised_instructions srv w = Option.bind (sr_instructions srv) (\<lambda>source. source w)"

text \<open>Without a hook every request runs as the anonymous context, on a token of its own.\<close>

definition authenticate ::
  "('s, 'a) mcp_server \<Rightarrow> token \<Rightarrow> rpc_request \<Rightarrow> ('s, 'a) host_world
     \<Rightarrow> ('s, 'a) host_world \<times> (auth_error, tool_context) result" where
  "authenticate srv token request w =
     (case sr_auth_hook srv of
        Some hook \<Rightarrow> hook request w
      | None \<Rightarrow> (w, Inr (tool_context_default token)))"

subsection \<open>Answers\<close>

definition missing_capability_error :: "json option \<Rightarrow> string \<Rightarrow> rpc_response" where
  "missing_capability_error rid cap =
     response_error_with_data rid MISSING_REQUIRED_CLIENT_CAPABILITY
       (''Request requires the undeclared client capability '' @ quote cap)
       (JObject [(''requiredCapabilities'', strings_json [cap])])"

fun status_debug :: "task_status \<Rightarrow> string" where
  "status_debug Working = ''Working''"
| "status_debug InputRequired = ''InputRequired''"
| "status_debug Completed = ''Completed''"
| "status_debug Failed = ''Failed''"
| "status_debug Cancelled = ''Cancelled''"

fun task_error_text :: "task_error \<Rightarrow> string" where
  "task_error_text (NotFound tid) = ''task '' @ quote tid @ '' not found''"
| "task_error_text (InvalidState tid status) =
     ''task '' @ quote tid @ '' is '' @ status_debug status @ '' and cannot accept this operation''"
| "task_error_text (InvalidInput tid reason) = ''input for task '' @ quote tid @ '' rejected: '' @ reason"
| "task_error_text (Detached tid) = ''task '' @ quote tid @ '' has no running operation to receive input''"
| "task_error_text (StoreFailure reason) = ''task store failure: '' @ reason"

fun task_error_response :: "json option \<Rightarrow> task_error \<Rightarrow> rpc_response" where
  "task_error_response rid (NotFound tid) = response_error rid INVALID_PARAMS (task_error_text (NotFound tid))"
| "task_error_response rid (InvalidState tid s) =
     response_error rid INVALID_PARAMS (task_error_text (InvalidState tid s))"
| "task_error_response rid (InvalidInput tid r) =
     response_error rid INVALID_PARAMS (task_error_text (InvalidInput tid r))"
| "task_error_response rid (Detached tid) = response_error rid INTERNAL_ERROR (task_error_text (Detached tid))"
| "task_error_response rid (StoreFailure r) =
     response_error rid INTERNAL_ERROR (task_error_text (StoreFailure r))"

text \<open>The result values the engine serializes are plain data, whose serializers do not fail.\<close>

definition success_or_error :: "json option \<Rightarrow> (string, json) result \<Rightarrow> rpc_response" where
  "success_or_error rid written =
     (case written of
        Inr v \<Rightarrow> response_success rid v
      | Inl e \<Rightarrow> response_error rid INTERNAL_ERROR (''Serialization error: '' @ e))"

definition unsupported_version_error :: "('s, 'a) mcp_server \<Rightarrow> json option \<Rightarrow> string \<Rightarrow> rpc_response" where
  "unsupported_version_error srv rid requested =
     response_error_with_data rid UNSUPPORTED_PROTOCOL_VERSION ''Unsupported protocol version''
       (JObject [(''supported'', strings_json (sr_supported_versions srv)), (''requested'', JString requested)])"

definition method_not_found :: "json option \<Rightarrow> string \<Rightarrow> rpc_response" where
  "method_not_found rid method = response_error rid METHOD_NOT_FOUND (''Method not found: '' @ method)"

definition frame_modern_result :: "string \<Rightarrow> rpc_response \<Rightarrow> rpc_response" where
  "frame_modern_result method response =
     (case rs_result response of
        Some (JObject m) \<Rightarrow>
          response\<lparr>rs_result := Some (JObject
            (frame_cacheable_result method (or_insert ''resultType'' (JString ''complete'') m)))\<rparr>
      | _ \<Rightarrow> response)"

fun de_error_text :: "de_error \<Rightarrow> string" where
  "de_error_text (InvalidField field) = field"
| "de_error_text (Custom message) = message"

subsection \<open>Handlers\<close>

definition task_id_param :: "json option \<Rightarrow> (string, task_id) result" where
  "task_id_param params =
     ok_or (Option.bind (param params ''taskId'') as_str) (''Missing required parameter '' @ quote ''taskId'')"

definition context_owner :: "tool_context \<Rightarrow> task_owner" where
  "context_owner ctx = \<lparr>o_user = tx_user_id ctx, o_tenant = tx_tenant_id ctx\<rparr>"

text \<open>\<open>clock\<close> are the readings of the clock an operation makes, in order.\<close>

definition handle_task_method ::
  "'s task_manager \<Rightarrow> int \<times> int \<times> int \<Rightarrow> string \<Rightarrow> json option \<Rightarrow> json option \<Rightarrow> tool_context
     \<Rightarrow> ('s, 'a) host_world \<Rightarrow> ('s, 'a) host_world \<times> rpc_response" where
  "handle_task_method manager clock method rid params ctx w =
     (case (clock, task_id_param params) of
        (_, Inl reason) \<Rightarrow> (w, response_error rid INVALID_PARAMS reason)
      | ((t1, t2, t3), Inr task_id) \<Rightarrow>
          (let owner = context_owner ctx in
           if method = ''tasks/get''
           then (w, case task_get manager t1 owner task_id (hw_tasks w) of
                      Inr t \<Rightarrow> success_or_error rid (Inr (get_task_result t))
                    | Inl e \<Rightarrow> task_error_response rid e)
           else if method = ''tasks/update''
           then (case Option.bind (param params ''inputResponses'') as_object of
                   None \<Rightarrow>
                     (w, response_error rid INVALID_PARAMS
                           (''Missing required object parameter '' @ quote ''inputResponses''))
                 | Some responses \<Rightarrow>
                     (case apply_input manager t1 t2 t3 owner task_id responses (hw_tasks w) of
                        (tw, Inr _) \<Rightarrow> (w\<lparr>hw_tasks := tw\<rparr>, success_or_error rid (Inr task_ack))
                      | (tw, Inl e) \<Rightarrow> (w\<lparr>hw_tasks := tw\<rparr>, task_error_response rid e)))
           else if method = ''tasks/cancel''
           then (case task_cancel manager t1 owner task_id (hw_tasks w) of
                   (tw, Inr _) \<Rightarrow> (w\<lparr>hw_tasks := tw\<rparr>, success_or_error rid (Inr task_ack))
                 | (tw, Inl e) \<Rightarrow> (w\<lparr>hw_tasks := tw\<rparr>, task_error_response rid e))
           else (w, method_not_found rid method)))"

definition on_session ::
  "tool_context \<Rightarrow> (session \<Rightarrow> session) \<Rightarrow> ('s, 'a) host_world \<Rightarrow> ('s, 'a) host_world" where
  "on_session ctx f w =
     (case channel_session (tx_client ctx) of
        None \<Rightarrow> w
      | Some s \<Rightarrow>
          w\<lparr>hw_clients := (hw_clients w)\<lparr>cw_sessions :=
              (cw_sessions (hw_clients w))(s := f (cw_sessions (hw_clients w) s))\<rparr>\<rparr>)"

definition negotiated_version :: "('s, 'a) mcp_server \<Rightarrow> json option \<Rightarrow> string" where
  "negotiated_version srv params =
     (case Option.bind params (\<lambda>p. case initialize_of_json p of Inl _ \<Rightarrow> None | Inr r \<Rightarrow> Some r) of
        Some req \<Rightarrow>
          if supports_version srv (in_protocol_version req) then in_protocol_version req else PROTOCOL_VERSION
      | None \<Rightarrow> PROTOCOL_VERSION)"

definition handle_initialize ::
  "('s, 'a) mcp_server \<Rightarrow> json option \<Rightarrow> json option \<Rightarrow> tool_context
     \<Rightarrow> ('s, 'a) host_world \<Rightarrow> ('s, 'a) host_world \<times> rpc_response" where
  "handle_initialize srv rid params ctx w =
     (let w1 = on_session ctx (record_capabilities (param params ''capabilities'')) w in
      (w1, success_or_error rid (Inr (initialize_response_json
             (initialize_response_new (negotiated_version srv params)
                (server_info_new (sr_name srv) (sr_version srv)) (sr_capabilities srv)
                (advertised_instructions srv w1))))))"

definition handle_set_level ::
  "json option \<Rightarrow> json option \<Rightarrow> tool_context \<Rightarrow> ('s, 'a) host_world \<Rightarrow> ('s, 'a) host_world \<times> rpc_response" where
  "handle_set_level rid params ctx w =
     (case Option.bind (Option.bind (param params ''level'') as_str) level_from_wire of
        None \<Rightarrow>
          (w, response_error rid INVALID_PARAMS
                (''logging/setLevel needs a '' @ quote ''level'' @ '' naming one of debug, info, notice, warning, ''
                 @ ''error, critical, alert, emergency''))
      | Some level \<Rightarrow>
          (case channel_session (tx_client ctx) of
             None \<Rightarrow>
               (w, response_error rid INVALID_REQUEST
                     (''logging/setLevel needs a session to keep the level in: initialize over stdio, ''
                      @ ''or over HTTP on a server that keeps sessions, and send its Mcp-Session-Id''))
           | Some _ \<Rightarrow> (on_session ctx (set_log_level level) w, response_success rid (JObject []))))"

definition handle_server_discover ::
  "('s, 'a) mcp_server \<Rightarrow> json option \<Rightarrow> ('s, 'a) host_world \<Rightarrow> rpc_response" where
  "handle_server_discover srv rid w =
     success_or_error rid (Inr (discover_result_json
       (discover_result_new (sr_supported_versions srv) (advertised_capabilities srv)
          (server_info_new (sr_name srv) (sr_version srv)) (advertised_instructions srv w))))"

definition handle_unknown_method ::
  "('s, 'a) mcp_server \<Rightarrow> string \<Rightarrow> json option \<Rightarrow> json option \<Rightarrow> tool_context
     \<Rightarrow> ('s, 'a) host_world \<Rightarrow> ('s, 'a) host_world \<times> rpc_response" where
  "handle_unknown_method srv method rid params ctx w =
     (case sr_method_handler srv of
        None \<Rightarrow> (w, method_not_found rid method)
      | Some handler \<Rightarrow>
          (case handler method rid params ctx w of
             (w1, Some response) \<Rightarrow> (w1, response)
           | (w1, None) \<Rightarrow> (w1, method_not_found rid method)))"

text \<open>The tools a caller is shown: the dispatcher's view, or the registry's.\<close>

definition visible_tools ::
  "('s, 'a) mcp_server \<Rightarrow> tool_context \<Rightarrow> ('s, 'a) host_world \<Rightarrow> ('s, 'a) host_world \<times> tool list" where
  "visible_tools srv ctx w =
     (case sr_tool_dispatcher srv of
        Some dispatcher \<Rightarrow> td_list_tools dispatcher ctx w
      | None \<Rightarrow> (w, list_definitions_for (tx_is_admin ctx) (sr_tools srv)))"

definition tools_page_json :: "tool page \<Rightarrow> json" where
  "tools_page_json page = JObject
     ((''tools'', JArray (map tool_json (p_items page)))
      # opt_field ''nextCursor'' JString (p_next_cursor page))"

definition handle_tools_list ::
  "'f libraries \<Rightarrow> ('s, 'a) mcp_server \<Rightarrow> json option \<Rightarrow> json option \<Rightarrow> tool_context
     \<Rightarrow> ('s, 'a) host_world \<Rightarrow> ('s, 'a) host_world \<times> rpc_response" where
  "handle_tools_list L srv rid params ctx w =
     (case visible_tools srv ctx w of
        (w1, definitions) \<Rightarrow>
          (w1, case result_bind (cursor_param params)
                      (\<lambda>cursor. paginate (lib_cursor_codec L) tl_name definitions cursor (sr_list_page_size srv)) of
                 Inl InvalidCursor \<Rightarrow> response_error rid INVALID_PARAMS ''Invalid cursor''
               | Inr page \<Rightarrow> response_success rid (tools_page_json page)))"

definition input_schema_of ::
  "('s, 'a) mcp_server \<Rightarrow> string \<Rightarrow> tool_context \<Rightarrow> ('s, 'a) host_world
     \<Rightarrow> ('s, 'a) host_world \<times> json option" where
  "input_schema_of srv name ctx w =
     (case sr_tool_dispatcher srv of
        Some dispatcher \<Rightarrow>
          (case td_list_tools dispatcher ctx w of
             (w1, tools) \<Rightarrow>
               (w1, map_option tl_input_schema (List.find (\<lambda>tool. tl_name tool = name) tools)))
      | None \<Rightarrow> (w, map_option tl_input_schema (definition_of name (sr_tools srv))))"

definition call_outcome_of ::
  "('s, 'a) mcp_server \<Rightarrow> string \<Rightarrow> tool_context \<Rightarrow> json \<Rightarrow> ('s, 'a) host_world
     \<Rightarrow> ('s, 'a) host_world \<times> call_outcome" where
  "call_outcome_of srv name ctx arguments w =
     (case sr_tool_dispatcher srv of
        Some dispatcher \<Rightarrow> td_call_tool dispatcher name ctx arguments w
      | None \<Rightarrow>
          (case registry_execute (sr_validation srv) (sr_tools srv) name ctx arguments w of
             (w1, None) \<Rightarrow> (w1, UnknownTool)
           | (w1, Some response) \<Rightarrow> (w1, Immediate response)))"

definition tool_response_result :: "json option \<Rightarrow> tool_response \<Rightarrow> rpc_response" where
  "tool_response_result rid response = response_success rid (tool_response_json response)"

definition answer_outcome ::
  "('s, 'a) mcp_server \<Rightarrow> json option \<Rightarrow> string \<Rightarrow> bool \<Rightarrow> bool \<Rightarrow> call_outcome \<Rightarrow> rpc_response" where
  "answer_outcome srv rid name modern allow_tasks outcome =
     (case outcome of
        Immediate response \<Rightarrow> tool_response_result rid response
      | UnknownTool \<Rightarrow> response_error rid INVALID_PARAMS (''Unknown tool: '' @ name)
      | TaskOutcome t \<Rightarrow>
          if allow_tasks \<and> sr_task_manager srv \<noteq> None
          then success_or_error rid (Inr (create_task_result t))
          else response_error rid INTERNAL_ERROR
            ''Tool returned a task handle, but this call may not be answered asynchronously''
      | InputNeeded input \<Rightarrow>
          if modern then success_or_error rid (Inr (input_required_json input))
          else response_error rid INTERNAL_ERROR
            ''Tool asked for input, but a legacy-era call cannot carry an input-required result'')"

text \<open>The mirrors of a call are held to its arguments before it runs.\<close>

definition check_call_headers ::
  "'f libraries \<Rightarrow> ('s, 'a) mcp_server \<Rightarrow> tool_call \<Rightarrow> tool_context \<Rightarrow> bool \<Rightarrow> json_map option
     \<Rightarrow> ('s, 'a) host_world \<Rightarrow> ('s, 'a) host_world \<times> (string, unit) result" where
  "check_call_headers L srv call ctx modern headers w =
     (case headers of
        None \<Rightarrow> (w, Inr ())
      | Some h \<Rightarrow>
          if \<not> (modern \<or> carries_param_header h) then (w, Inr ())
          else
            (case input_schema_of srv (tc_name call) ctx w of
               (w1, None) \<Rightarrow> (w1, Inr ())
             | (w1, Some schema) \<Rightarrow>
                 (w1, check_param_headers (lib_header_codec L) (lib_floats L) schema (tc_arguments call) h modern)))"

definition handle_tools_call ::
  "'f libraries \<Rightarrow> ('s, 'a) mcp_server \<Rightarrow> json option \<Rightarrow> json option \<Rightarrow> tool_context \<Rightarrow> bool \<Rightarrow> bool
     \<Rightarrow> json_map option \<Rightarrow> ('s, 'a) host_world \<Rightarrow> ('s, 'a) host_world \<times> rpc_response" where
  "handle_tools_call L srv rid params ctx modern allow_tasks headers w =
     (case params of
        None \<Rightarrow> (w, response_error rid INVALID_PARAMS ''Missing params for tools/call'')
      | Some p \<Rightarrow>
          (case tool_call_of_json p of
             Inl e \<Rightarrow> (w, response_error rid INVALID_PARAMS (''Invalid params: '' @ de_error_text e))
           | Inr call \<Rightarrow>
               (case check_call_headers L srv call ctx modern headers w of
                  (w1, Inl reason) \<Rightarrow> (w1, response_error rid HEADER_MISMATCH reason)
                | (w1, Inr _) \<Rightarrow>
                    (let arguments = unwrap_or (tc_arguments call) (JObject []);
                         ctx1 = ctx\<lparr>tx_input_responses := tc_input_responses call,
                                    tx_request_state := tc_request_state call\<rparr> in
                     case call_outcome_of srv (tc_name call) ctx1 arguments w1 of
                       (w2, outcome) \<Rightarrow>
                         (w2, answer_outcome srv rid (tc_name call) modern allow_tasks outcome)))))"

subsection \<open>The two eras\<close>

definition process_legacy ::
  "'f libraries \<Rightarrow> ('s, 'a) mcp_server \<Rightarrow> rpc_request \<Rightarrow> tool_context \<Rightarrow> ('s, 'a) host_world
     \<Rightarrow> ('s, 'a) host_world \<times> rpc_response" where
  "process_legacy L srv request ctx w =
     (let method = rq_method request; rid = rq_id request; params = rq_params request in
      if method = ''initialize'' then handle_initialize srv rid params ctx w
      else if method = ''logging/setLevel'' \<and> sv_logging (sr_capabilities srv) \<noteq> None
      then handle_set_level rid params ctx w
      else if method = ''tools/list'' then handle_tools_list L srv rid params ctx w
      else if method = ''tools/call''
      then handle_tools_call L srv rid params ctx False False (rq_headers request) w
      else if method = ''server/discover'' then (w, handle_server_discover srv rid w)
      else if method = ''ping'' then (w, response_success rid (JObject []))
      else handle_unknown_method srv method rid params ctx w)"

definition modern_method ::
  "'f libraries \<Rightarrow> ('s, 'a) mcp_server \<Rightarrow> int \<times> int \<times> int \<Rightarrow> rpc_request \<Rightarrow> tool_context \<Rightarrow> bool
     \<Rightarrow> ('s, 'a) host_world \<Rightarrow> ('s, 'a) host_world \<times> rpc_response" where
  "modern_method L srv clock request ctx declares_tasks w =
     (let method = rq_method request; rid = rq_id request; params = rq_params request in
      if method = ''server/discover'' then (w, handle_server_discover srv rid w)
      else if method = ''tools/list'' then handle_tools_list L srv rid params ctx w
      else if method = ''tools/call''
      then handle_tools_call L srv rid params ctx True declares_tasks (rq_headers request) w
      else if method \<in> set [''tasks/get'', ''tasks/update'', ''tasks/cancel'']
      then (case sr_task_manager srv of
              Some manager \<Rightarrow>
                if declares_tasks then handle_task_method manager clock method rid params ctx w
                else (w, missing_capability_error rid TASKS_EXTENSION_ID)
            | None \<Rightarrow> handle_unknown_method srv method rid params ctx w)
      else handle_unknown_method srv method rid params ctx w)"

definition process_modern ::
  "'f libraries \<Rightarrow> ('s, 'a) mcp_server \<Rightarrow> int \<times> int \<times> int \<Rightarrow> rpc_request \<Rightarrow> modern_request_meta \<Rightarrow> tool_context
     \<Rightarrow> ('s, 'a) host_world \<Rightarrow> ('s, 'a) host_world \<times> rpc_response" where
  "process_modern L srv clock request meta ctx w =
     (if \<not> supports_version srv (mm_protocol_version meta)
      then (w, unsupported_version_error srv (rq_id request) (mm_protocol_version meta))
      else
        (let ctx1 = with_client_capabilities (mm_client_capabilities meta) ctx;
             declares_tasks = supports_tasks ctx1 in
         if rq_method request \<in> set REMOVED_METHODS
         then (w, method_not_found (rq_id request) (rq_method request))
         else
           (case modern_method L srv clock request ctx1 declares_tasks w of
              (w1, response) \<Rightarrow> (w1, frame_modern_result (rq_method request) response))))"

definition route ::
  "'f libraries \<Rightarrow> ('s, 'a) mcp_server \<Rightarrow> int \<times> int \<times> int \<Rightarrow> rpc_request \<Rightarrow> tool_context
     \<Rightarrow> ('s, 'a) host_world \<Rightarrow> ('s, 'a) host_world \<times> rpc_response" where
  "route L srv clock request ctx0 w =
     (let ctx = with_meta (request_meta_from_params (rq_params request)) ctx0;
          header = get_metadata request PROTOCOL_VERSION_HEADER;
          progress_token = meta_progress_token (tx_request_meta ctx);
          logging = sv_logging (sr_capabilities srv) \<noteq> None in
      case detect_era header (rq_params request) of
        Malformed reason \<Rightarrow> (w, response_error (rq_id request) INVALID_PARAMS reason)
      | HeaderMismatch reason \<Rightarrow> (w, response_error (rq_id request) HEADER_MISMATCH reason)
      | MetaModern meta \<Rightarrow>
          (let log_level = Option.bind (mm_log_level meta) level_from_wire;
               client = for_modern_call progress_token log_level logging (tx_cancellation ctx) (tx_client ctx) in
           process_modern L srv clock request meta (ctx\<lparr>tx_client := client\<rparr>) w)
      | MetaLegacy \<Rightarrow>
          (let client = for_legacy_call progress_token logging (tx_cancellation ctx) (tx_client ctx) in
           process_legacy L srv request (ctx\<lparr>tx_client := client\<rparr>) w))"

subsection \<open>A request around its handler\<close>

record ('s, 'a) server_state =
  ss_in_flight :: in_flight
  ss_world :: "('s, 'a) host_world"

record serving =
  sg_request :: rpc_request
  sg_ctx :: tool_context
  sg_guard :: in_flight_guard
  sg_parent :: token

datatype dispatched = Finished "rpc_response option" | Serving serving

definition registry_context :: "tool_context \<Rightarrow> request_context" where
  "registry_context ctx =
     \<lparr>rc_identity = \<lparr>user_id = tx_user_id ctx, tenant_id = tx_tenant_id ctx\<rparr>,
      rc_caller = channel_caller (tx_client ctx)\<rparr>"

definition handle_notification ::
  "'f libraries \<Rightarrow> rpc_request \<Rightarrow> tool_context \<Rightarrow> in_flight \<Rightarrow> in_flight" where
  "handle_notification L request ctx fl =
     (if rq_method request \<noteq> ''notifications/cancelled'' then fl
      else (case cancelled_request_id (rq_params request) of
              Some request_id \<Rightarrow> fst (cancel_request (lib_id_text L) (registry_context ctx) request_id fl)
            | None \<Rightarrow> fl))"

text \<open>Up to the wait: refused, a notification handled, \<^verbatim>\<open>initialize\<close> answered, or registered under
  a fresh child \<open>token\<close> of the context's.\<close>

definition dispatch_begin ::
  "'f libraries \<Rightarrow> ('s, 'a) mcp_server \<Rightarrow> int \<times> int \<times> int \<Rightarrow> token \<Rightarrow> rpc_request \<Rightarrow> tool_context
     \<Rightarrow> ('s, 'a) server_state \<Rightarrow> ('s, 'a) server_state \<times> dispatched" where
  "dispatch_begin L srv clock token request ctx st =
     (if rq_jsonrpc request \<noteq> JSONRPC_VERSION
      then (st, Finished (Some (response_error (rq_id request) INVALID_REQUEST
             (''Unsupported JSON-RPC version: '' @ rq_jsonrpc request))))
      else
        (case rq_id request of
           None \<Rightarrow>
             (st\<lparr>ss_in_flight := handle_notification L request ctx (ss_in_flight st)\<rparr>, Finished None)
         | Some request_id \<Rightarrow>
             if rq_method request = ''initialize''
             then (case route L srv clock request ctx (ss_world st) of
                     (w, response) \<Rightarrow> (st\<lparr>ss_world := w\<rparr>, Finished (Some response)))
             else
               (case Cancellation.register (lib_id_text L) (registry_context ctx) token request_id (ss_in_flight st) of
                  (fl, guard) \<Rightarrow>
                    (st\<lparr>ss_in_flight := fl\<rparr>,
                     Serving \<lparr>sg_request = request, sg_ctx = with_cancellation (g_token guard) ctx,
                              sg_guard = guard, sg_parent = tx_cancellation ctx\<rparr>))))"

text \<open>A token is cancelled once it or its parent is.\<close>

definition is_cancelled :: "serving \<Rightarrow> ('s, 'a) server_state \<Rightarrow> bool" where
  "is_cancelled s st \<longleftrightarrow>
     g_token (sg_guard s) \<in> set (fl_fired (ss_in_flight st))
     \<or> sg_parent s \<in> set (fl_fired (ss_in_flight st)) \<union> set (cw_fired (hw_clients (ss_world st)))"

text \<open>One look of the biased wait, which the handler finishes when it gets to run.\<close>

definition dispatch_poll ::
  "'f libraries \<Rightarrow> ('s, 'a) mcp_server \<Rightarrow> int \<times> int \<times> int \<Rightarrow> serving
     \<Rightarrow> ('s, 'a) server_state \<Rightarrow> ('s, 'a) server_state \<times> rpc_response option" where
  "dispatch_poll L srv clock s st =
     (if is_cancelled s st
      then (st\<lparr>ss_in_flight := guard_drop (sg_guard s) (ss_in_flight st)\<rparr>, None)
      else
        (case route L srv clock (sg_request s) (sg_ctx s) (ss_world st) of
           (w, response) \<Rightarrow>
             (st\<lparr>ss_world := w, ss_in_flight := guard_drop (sg_guard s) (ss_in_flight st)\<rparr>, Some response)))"

text \<open>The dispatch dropped before it answered: its token fires, then its registration goes.\<close>

definition dispatch_drop :: "serving \<Rightarrow> ('s, 'a) server_state \<Rightarrow> ('s, 'a) server_state" where
  "dispatch_drop s st =
     (let fl = ss_in_flight st in
      st\<lparr>ss_in_flight := guard_drop (sg_guard s) (fl\<lparr>fl_fired := g_token (sg_guard s) # fl_fired fl\<rparr>)\<rparr>)"

text \<open>A raw message, when nothing cancels it before its handler runs.\<close>

definition handle_raw_begin ::
  "'f libraries \<Rightarrow> ('s, 'a) mcp_server \<Rightarrow> int \<times> int \<times> int \<Rightarrow> token \<Rightarrow> token \<Rightarrow> string
     \<Rightarrow> ('s, 'a) server_state \<Rightarrow> ('s, 'a) server_state \<times> dispatched" where
  "handle_raw_begin L srv clock parent token raw st =
     (case parse_request (lib_read_json L) raw of
        Inr request \<Rightarrow> dispatch_begin L srv clock token request (tool_context_default parent) st
      | Inl answer \<Rightarrow> (st, Finished (Some answer)))"

end
