(* ===== verification/Dispatch_Correct.thy ===== *)
theory Dispatch_Correct
  imports Dispatch
begin

declare map_of_eq_Some_iff [simp del] Some_eq_map_of_iff [simp del]

text \<open>
  What holds of the dispatch of one message: every answer is a response to the request, a tool
  runs for the caller that was authenticated, a refused request reaches nothing, handles and
  input requests are answered only where the client agreed to them, the task methods keep to the
  caller's own tasks, and the listing of tools pages through exactly what the caller may see.
\<close>

subsection \<open>The shape of an answer\<close>

definition answer_to :: "json option \<Rightarrow> rpc_response \<Rightarrow> bool" where
  "answer_to rid r \<longleftrightarrow>
     rs_jsonrpc r = JSONRPC_VERSION \<and> rs_id r = rid \<and> (rs_result r = None \<longleftrightarrow> rs_error r \<noteq> None)"

text \<open>The host's handler of further methods answers the request it is given.\<close>

definition handler_answers :: "('s, 'a) mcp_server \<Rightarrow> bool" where
  "handler_answers srv \<longleftrightarrow>
     (\<forall>handler m rid ps ctx w w1 r.
        sr_method_handler srv = Some handler \<and> handler m rid ps ctx w = (w1, Some r) \<longrightarrow> answer_to rid r)"

named_theorems answers

lemma answer_to_responses [answers, simp]:
  "answer_to rid (response_success rid v)"
  "answer_to rid (response_error rid code message)"
  "answer_to rid (response_error_with_data rid code message payload)"
  by (simp_all add: answer_to_def response_success_def response_error_def response_error_with_data_def)

lemma answer_to_made [answers, simp]:
  "answer_to rid (success_or_error rid written)"
  "answer_to rid (task_error_response rid e)"
  "answer_to rid (method_not_found rid m)"
  "answer_to rid (missing_capability_error rid cap)"
  "answer_to rid (unsupported_version_error srv rid version)"
  "answer_to rid (tool_response_result rid res)"
  "answer_to rid (handle_server_discover srv rid w)"
  by (cases e; simp_all add: success_or_error_def method_not_found_def missing_capability_error_def
      unsupported_version_error_def tool_response_result_def handle_server_discover_def split: sum.split)+

lemma answer_to_framed [simp]: "answer_to rid r \<Longrightarrow> answer_to rid (frame_modern_result m r)"
  by (auto simp: answer_to_def frame_modern_result_def split: option.split json.split)

lemma answer_to_task_method [simp]:
  "answer_to rid (snd (handle_task_method manager clock m rid ps ctx w))"
  by (auto simp: handle_task_method_def Let_def split: sum.split option.split prod.split)

lemma answer_to_handlers [simp]:
  "answer_to rid (snd (handle_initialize srv rid ps ctx w))"
  "answer_to rid (snd (handle_set_level rid ps ctx w))"
  "answer_to rid (snd (handle_tools_list L srv rid ps ctx w))"
  by (auto simp: handle_initialize_def handle_set_level_def handle_tools_list_def Let_def
      split: option.split prod.split sum.split invalid_cursor.split)

lemma answer_to_unknown [simp]:
  "handler_answers srv \<Longrightarrow> answer_to rid (snd (handle_unknown_method srv m rid ps ctx w))"
  unfolding handle_unknown_method_def
  by (auto simp: handler_answers_def split: option.split prod.split)

lemma answer_to_outcome [simp]:
  "answer_to rid (answer_outcome srv rid name modern allow outcome)"
  by (simp add: answer_outcome_def split: call_outcome.split)

lemma answer_to_call [simp]:
  "answer_to rid (snd (handle_tools_call L srv rid ps ctx modern allow headers w))"
  by (auto simp: handle_tools_call_def Let_def split: option.split sum.split prod.split)

lemma answer_to_legacy [simp]:
  "handler_answers srv \<Longrightarrow> answer_to (rq_id request) (snd (process_legacy L srv request ctx w))"
  by (simp add: process_legacy_def Let_def)

lemma answer_to_modern_method [simp]:
  "handler_answers srv \<Longrightarrow> answer_to (rq_id request) (snd (modern_method L srv clock request ctx tasks w))"
  by (simp add: modern_method_def Let_def split: option.split)

lemma answer_to_modern [simp]:
  "handler_answers srv \<Longrightarrow> answer_to (rq_id request) (snd (process_modern L srv clock request meta ctx w))"
  by (simp add: process_modern_def Let_def case_prod_unfold)

lemma answer_to_route [simp]:
  "handler_answers srv \<Longrightarrow> answer_to (rq_id request) (snd (route L srv clock request ctx w))"
  by (simp add: route_def Let_def split: modern_meta.split)


subsection \<open>Calls\<close>

text \<open>The same authenticated caller, on the same connection.\<close>

definition same_caller :: "tool_context \<Rightarrow> tool_context \<Rightarrow> bool" where
  "same_caller ctx ctx' \<longleftrightarrow>
     tx_user_id ctx = tx_user_id ctx' \<and> tx_tenant_id ctx = tx_tenant_id ctx'
     \<and> tx_auth_method ctx = tx_auth_method ctx' \<and> tx_is_admin ctx = tx_is_admin ctx'
     \<and> tx_scopes ctx = tx_scopes ctx' \<and> tx_client_id ctx = tx_client_id ctx'
     \<and> tx_cancellation ctx = tx_cancellation ctx'
     \<and> ch_connection (tx_client ctx) = ch_connection (tx_client ctx')"

lemma same_caller_may_run: "same_caller ctx ctx' \<Longrightarrow> may_run tool ctx \<longleftrightarrow> may_run tool ctx'"
  by (simp add: same_caller_def may_run_def)

lemma registry_execute_world:
  assumes "registry_execute validation rg name ctx arguments w = (w', res)" "w' \<noteq> w"
  shows "\<exists>tool. map_of (rg_tools rg) name = Some tool \<and> may_run tool ctx
    \<and> w' = fst (mt_execute tool ctx arguments w)"
proof -
  obtain tool where tool: "map_of (rg_tools rg) name = Some tool"
    using assms by (auto simp: registry_execute_def split: option.splits)
  moreover have "refusal name (mt_capabilities tool) (mt_required_scopes tool) ctx = None"
    using assms tool by (auto simp: registry_execute_def split: option.splits)
  moreover from this obtain v where "run_checked name tool v ctx arguments w = (w', res)"
    using assms tool by (auto simp: registry_execute_def split: option.splits sum.splits)
  ultimately show ?thesis using run_checked_cases refusal_None_iff by metis
qed

lemma handle_tools_call_world:
  assumes "sr_tool_dispatcher srv = None"
    and "fst (handle_tools_call L srv rid ps ctx modern allow headers w) \<noteq> w"
  shows "\<exists>p call tool. ps = Some p \<and> tool_call_of_json p = Inr call
    \<and> map_of (rg_tools (sr_tools srv)) (tc_name call) = Some tool \<and> may_run tool ctx
    \<and> (\<forall>h. headers = Some h \<and> (modern \<or> carries_param_header h) \<longrightarrow>
         check_param_headers (lib_header_codec L) (lib_floats L) (tl_input_schema (mt_definition tool))
           (tc_arguments call) h modern = Inr ())
    \<and> fst (handle_tools_call L srv rid ps ctx modern allow headers w)
        = fst (mt_execute tool (ctx\<lparr>tx_input_responses := tc_input_responses call,
                                   tx_request_state := tc_request_state call\<rparr>)
                 (unwrap_or (tc_arguments call) (JObject [])) w)"
proof -
  obtain p call where p: "ps = Some p" "tool_call_of_json p = Inr call"
    using assms(2) by (auto simp: handle_tools_call_def split: option.splits sum.splits)
  let ?ctx = "ctx\<lparr>tx_input_responses := tc_input_responses call, tx_request_state := tc_request_state call\<rparr>"
  have frame: "fst (check_call_headers L srv call ctx modern headers w) = w"
    using assms(1) by (auto simp: check_call_headers_def input_schema_of_def split: option.splits)
  then have checked: "snd (check_call_headers L srv call ctx modern headers w) = Inr ()"
    using assms(2) p by (auto simp: handle_tools_call_def split: prod.splits sum.splits)
  have world: "fst (handle_tools_call L srv rid ps ctx modern allow headers w)
      = fst (registry_execute (sr_validation srv) (sr_tools srv) (tc_name call) ?ctx
               (unwrap_or (tc_arguments call) (JObject [])) w)"
    using p frame checked assms(1)
    by (auto simp: handle_tools_call_def Let_def call_outcome_of_def split: prod.splits option.splits)
  with assms(2) obtain tool where tool: "map_of (rg_tools (sr_tools srv)) (tc_name call) = Some tool"
    "may_run tool ?ctx" "fst (handle_tools_call L srv rid ps ctx modern allow headers w)
        = fst (mt_execute tool ?ctx (unwrap_or (tc_arguments call) (JObject [])) w)"
    using registry_execute_world [OF surjective_pairing] by metis
  have "may_run tool ctx" using tool(2) by (simp add: may_run_def)
  moreover have "check_param_headers (lib_header_codec L) (lib_floats L) (tl_input_schema (mt_definition tool))
      (tc_arguments call) h modern = Inr ()" if "headers = Some h" "modern \<or> carries_param_header h" for h
    using checked that tool(1) assms(1) by (auto simp: check_call_headers_def input_schema_of_def definition_of_def)
  ultimately show ?thesis using p tool(1,3) by blast
qed

text \<open>The era of a request, the context its handler runs under there, and what a modern request
  declares.\<close>

definition request_era :: "rpc_request \<Rightarrow> modern_meta" where
  "request_era request = detect_era (get_metadata request PROTOCOL_VERSION_HEADER) (rq_params request)"

definition bound_context ::
  "('s, 'a) mcp_server \<Rightarrow> rpc_request \<Rightarrow> era \<Rightarrow> tool_context \<Rightarrow> tool_context" where
  "bound_context srv request era ctx =
     (let ctx1 = with_meta (request_meta_from_params (rq_params request)) ctx in
      ctx1\<lparr>tx_client := bound era (meta_progress_token (tx_request_meta ctx1))
             (sv_logging (sr_capabilities srv) \<noteq> None) (tx_cancellation ctx1) (tx_client ctx1)\<rparr>)"

definition modern_context ::
  "('s, 'a) mcp_server \<Rightarrow> rpc_request \<Rightarrow> modern_request_meta \<Rightarrow> tool_context \<Rightarrow> tool_context" where
  "modern_context srv request meta ctx =
     with_client_capabilities (mm_client_capabilities meta)
       (bound_context srv request (Modern (Option.bind (mm_log_level meta) level_from_wire)) ctx)"

definition declares_tasks :: "modern_request_meta \<Rightarrow> bool" where
  "declares_tasks meta \<longleftrightarrow>
     Option.bind (json_get ''extensions'' (mm_client_capabilities meta)) (json_get TASKS_EXTENSION_ID) \<noteq> None"

lemma same_caller_refl [simp]: "same_caller ctx ctx"
  by (simp add: same_caller_def)

lemma same_caller_bound [simp]: "same_caller (bound_context srv request era ctx) ctx"
  by (simp add: same_caller_def bound_context_def with_meta_def bound_def Let_def)

lemma same_caller_modern [simp]: "same_caller (modern_context srv request meta ctx) ctx"
  using same_caller_bound [of srv request _ ctx]
  by (simp add: same_caller_def modern_context_def with_client_capabilities_def)

lemma supports_tasks_modern [simp]: "supports_tasks (modern_context srv request meta ctx) = declares_tasks meta"
  by (simp add: supports_tasks_def declares_extension_def modern_context_def with_client_capabilities_def
      declares_tasks_def)

lemma same_caller_fields:
  assumes "same_caller ctx ctx'"
  shows "tx_user_id ctx = tx_user_id ctx'" "tx_tenant_id ctx = tx_tenant_id ctx'"
    "tx_is_admin ctx = tx_is_admin ctx'" "context_owner ctx = context_owner ctx'"
    "channel_session (tx_client ctx) = channel_session (tx_client ctx')"
  using assms by (simp_all add: same_caller_def context_owner_def channel_session_def)

lemma route_legacy:
  "request_era request = MetaLegacy \<Longrightarrow>
   route L srv clock request ctx w = process_legacy L srv request (bound_context srv request Legacy ctx) w"
  by (simp add: route_def request_era_def bound_context_def for_legacy_call_def Let_def)

lemma route_unsupported:
  "request_era request = MetaModern meta \<Longrightarrow> \<not> supports_version srv (mm_protocol_version meta) \<Longrightarrow>
   route L srv clock request ctx w = (w, unsupported_version_error srv (rq_id request) (mm_protocol_version meta))"
  by (simp add: route_def request_era_def process_modern_def Let_def)

lemma route_removed:
  "request_era request = MetaModern meta \<Longrightarrow> supports_version srv (mm_protocol_version meta) \<Longrightarrow>
   rq_method request \<in> set REMOVED_METHODS \<Longrightarrow>
   route L srv clock request ctx w = (w, method_not_found (rq_id request) (rq_method request))"
  by (simp add: route_def request_era_def process_modern_def Let_def)

lemma route_modern:
  "request_era request = MetaModern meta \<Longrightarrow> supports_version srv (mm_protocol_version meta) \<Longrightarrow>
   rq_method request \<notin> set REMOVED_METHODS \<Longrightarrow>
   route L srv clock request ctx w = apsnd (frame_modern_result (rq_method request))
     (modern_method L srv clock request (modern_context srv request meta ctx) (declares_tasks meta) w)"
  by (subst supports_tasks_modern [of srv request meta ctx, symmetric])
    (simp add: route_def request_era_def process_modern_def modern_context_def bound_context_def
      for_modern_call_def Let_def apsnd_def map_prod_def)

lemma route_refused:
  "request_era request = Malformed reason \<Longrightarrow>
     route L srv clock request ctx w = (w, response_error (rq_id request) INVALID_PARAMS reason)"
  "request_era request = HeaderMismatch reason \<Longrightarrow>
     route L srv clock request ctx w = (w, response_error (rq_id request) HEADER_MISMATCH reason)"
  by (simp_all add: route_def request_era_def Let_def)

lemma tools_call_not_removed [simp]: "''tools/call'' \<notin> set REMOVED_METHODS"
  by (simp add: REMOVED_METHODS_def)

text \<open>A call is refused before its handler, or is its handler's under the caller's context.\<close>

lemma route_call_cases [consumes 1, case_names legacy modern refused]:
  assumes "rq_method request = ''tools/call''"
  obtains
    "request_era request = MetaLegacy"
    "route L srv clock request ctx w = handle_tools_call L srv (rq_id request) (rq_params request)
       (bound_context srv request Legacy ctx) False False (rq_headers request) w"
  | meta where "request_era request = MetaModern meta" "supports_version srv (mm_protocol_version meta)"
    "route L srv clock request ctx w = apsnd (frame_modern_result ''tools/call'')
       (handle_tools_call L srv (rq_id request) (rq_params request)
         (modern_context srv request meta ctx) True (declares_tasks meta) (rq_headers request) w)"
  | r where "route L srv clock request ctx w = (w, r)" "rs_result r = None"
proof (cases "request_era request")
  case MetaLegacy
  with assms show thesis
    by (intro that(1)) (simp_all add: route_legacy process_legacy_def Let_def)
next
  case (MetaModern meta)
  show thesis
  proof (cases "supports_version srv (mm_protocol_version meta)")
    case True
    with MetaModern assms show thesis
      by (intro that(2) [of meta]) (simp_all add: route_modern modern_method_def Let_def)
  next
    case False
    with MetaModern that(3) show thesis
      by (simp add: route_unsupported unsupported_version_error_def response_error_with_data_def)
  qed
qed (use that(3) in \<open>simp_all add: route_refused response_error_def\<close>)

text \<open>
  C5: a tool runs for the caller the server authenticated, on what the request says. On a server
  without a dispatcher of its host, whatever a \<^verbatim>\<open>tools/call\<close> says in its body, metadata or
  headers: if anything ran, it is the registered tool the call names, on the call's arguments,
  admitted by its declaration to the authenticated caller; the context it ran under has that
  caller's user, tenant, admin right, scopes, client and connection; and every parameter header
  the era checks agreed with the arguments.
\<close>

theorem call_runs_as_its_caller:
  assumes "sr_tool_dispatcher srv = None" and "rq_method request = ''tools/call''"
    and "fst (route L srv clock request ctx w) \<noteq> w"
  shows "\<exists>p call tool tctx. rq_params request = Some p \<and> tool_call_of_json p = Inr call
    \<and> map_of (rg_tools (sr_tools srv)) (tc_name call) = Some tool \<and> may_run tool ctx
    \<and> same_caller tctx ctx \<and> tx_input_responses tctx = tc_input_responses call
    \<and> tx_request_state tctx = tc_request_state call
    \<and> (let modern = (\<exists>meta. request_era request = MetaModern meta) in
       \<forall>h. rq_headers request = Some h \<and> (modern \<or> carries_param_header h) \<longrightarrow>
         check_param_headers (lib_header_codec L) (lib_floats L) (tl_input_schema (mt_definition tool))
           (tc_arguments call) h modern = Inr ())
    \<and> fst (route L srv clock request ctx w)
        = fst (mt_execute tool tctx (unwrap_or (tc_arguments call) (JObject [])) w)"
proof -
  have same: "same_caller (c\<lparr>tx_input_responses := i, tx_request_state := s\<rparr>) ctx" if "same_caller c ctx" for c i s
    using that by (simp add: same_caller_def)
  have main: ?thesis
    if c: "same_caller c ctx" and m: "modern = (\<exists>meta. request_era request = MetaModern meta)"
      and r: "fst (route L srv clock request ctx w)
        = fst (handle_tools_call L srv (rq_id request) (rq_params request) c modern allow (rq_headers request) w)"
    for c modern allow
  proof -
    have "fst (handle_tools_call L srv (rq_id request) (rq_params request) c modern allow (rq_headers request) w) \<noteq> w"
      using assms(3) r by simp
    from handle_tools_call_world [OF assms(1) this] obtain p call tool where
      "rq_params request = Some p" "tool_call_of_json p = Inr call"
      "map_of (rg_tools (sr_tools srv)) (tc_name call) = Some tool" "may_run tool c"
      "\<forall>h. rq_headers request = Some h \<and> (modern \<or> carries_param_header h) \<longrightarrow>
         check_param_headers (lib_header_codec L) (lib_floats L) (tl_input_schema (mt_definition tool))
           (tc_arguments call) h modern = Inr ()"
      "fst (route L srv clock request ctx w) = fst (mt_execute tool
         (c\<lparr>tx_input_responses := tc_input_responses call, tx_request_state := tc_request_state call\<rparr>)
         (unwrap_or (tc_arguments call) (JObject [])) w)"
      unfolding r by blast
    with same_caller_may_run [OF c] same [OF c] m show ?thesis
      unfolding Let_def by (intro exI [of _ p] exI [of _ call] exI [of _ tool] exI) auto
  qed
  from assms(2) show ?thesis
  proof (cases rule: route_call_cases [where L = L and srv = srv and clock = clock and ctx = ctx and w = w])
    case legacy
    then show ?thesis by (intro main [of "bound_context srv request Legacy ctx" False False]) simp_all
  next
    case (modern meta)
    then show ?thesis
      by (intro main [of "modern_context srv request meta ctx" True "declares_tasks meta"]) simp_all
  next
    case (refused r)
    with assms(3) show ?thesis by simp
  qed
qed

subsection \<open>Results of the modern era\<close>

lemma frame_modern_lookup:
  assumes "rs_result r = Some (JObject m0)"
  shows "\<exists>m. rs_result (frame_modern_result name r) = Some (JObject m)
    \<and> (\<forall>k. map_of m k = (case map_of m0 k of
          Some v \<Rightarrow> Some v
        | None \<Rightarrow>
            if k = ''resultType'' then Some (JString ''complete'')
            else if name \<in> set CACHEABLE_RESULT_METHODS \<and> k = ''ttlMs'' then Some (u64_json 0)
            else if name \<in> set CACHEABLE_RESULT_METHODS \<and> k = ''cacheScope'' then Some (JString ''private'')
            else None))"
proof -
  have "rs_result (frame_modern_result name r)
      = Some (JObject (frame_cacheable_result name (or_insert ''resultType'' (JString ''complete'') m0)))"
    using assms by (simp add: frame_modern_result_def)
  then show ?thesis
    by (auto simp: frame_cacheable_fields map_of_or_insert split: option.split)
qed

lemma frame_modern_other:
  "rs_error (frame_modern_result name r) = rs_error r"
  "\<forall>m. rs_result r \<noteq> Some (JObject m) \<Longrightarrow> frame_modern_result name r = r"
  by (auto simp: frame_modern_result_def split: option.split json.split)

text \<open>
  What a modern client is told is framed and otherwise untouched. A request of a supported
  modern revision for a method it did not remove is answered with what its handler produced,
  under the context of its own metadata; a result object gets \<^verbatim>\<open>resultType\<close> and, on a cacheable
  method, \<^verbatim>\<open>ttlMs\<close> and \<^verbatim>\<open>cacheScope\<close>, each only where the producer stated none; every entry of
  the producer is kept, nothing else is added, and an error is left as it is.
\<close>

theorem modern_results_are_framed:
  assumes "request_era request = MetaModern meta" and "supports_version srv (mm_protocol_version meta)"
    and "rq_method request \<notin> set REMOVED_METHODS"
    and "modern_method L srv clock request (modern_context srv request meta ctx) (declares_tasks meta) w = (w1, made)"
    and "route L srv clock request ctx w = (w2, r)"
  shows "w2 = w1 \<and> rs_error r = rs_error made \<and> rs_id r = rs_id made
    \<and> (case rs_result made of
         Some (JObject m0) \<Rightarrow>
           (\<exists>m. rs_result r = Some (JObject m)
             \<and> (\<forall>k. map_of m k = (case map_of m0 k of
                   Some v \<Rightarrow> Some v
                 | None \<Rightarrow>
                     if k = ''resultType'' then Some (JString ''complete'')
                     else if rq_method request \<in> set CACHEABLE_RESULT_METHODS \<and> k = ''ttlMs'' then Some (u64_json 0)
                     else if rq_method request \<in> set CACHEABLE_RESULT_METHODS \<and> k = ''cacheScope''
                     then Some (JString ''private'') else None)))
       | unframed \<Rightarrow> rs_result r = unframed)"
proof -
  have r: "w2 = w1" "r = frame_modern_result (rq_method request) made"
    using assms route_modern [OF assms(1-3), of L clock ctx w] by simp_all
  have rid: "rs_id (frame_modern_result name made) = rs_id made" for name
    by (simp add: frame_modern_result_def split: option.split json.split)
  show ?thesis
  proof (cases "\<exists>m0. rs_result made = Some (JObject m0)")
    case True
    then obtain m0 where "rs_result made = Some (JObject m0)" by blast
    from frame_modern_lookup [OF this, of "rq_method request"] this show ?thesis
      using r rid by (simp add: frame_modern_other(1))
  next
    case False
    then have "r = made" using r(2) frame_modern_other(2) by metis
    with r(1) False show ?thesis by (auto split: option.split json.split)
  qed
qed

text \<open>What a call's result says of its own kind, before any framing.\<close>

lemma answer_outcome_kind:
  assumes "rs_result (answer_outcome srv rid name modern allow outcome) = Some (JObject m)"
  shows "map_of m ''resultType'' = None
    \<or> modern \<and> map_of m ''resultType'' = Some (JString ''input_required'')
    \<or> allow \<and> sr_task_manager srv \<noteq> None \<and> map_of m ''resultType'' = Some (JString ''task'')"
  using assms
  by (auto simp: answer_outcome_def tool_response_result_def response_success_def response_error_def
      tool_response_json_def success_or_error_def create_task_result_def input_required_json_def opt_field_def
      split: call_outcome.splits if_splits option.splits)

lemma handle_tools_call_kind:
  assumes "rs_result (snd (handle_tools_call L srv rid ps ctx modern allow headers w)) = Some (JObject m)"
  shows "map_of m ''resultType'' = None
    \<or> modern \<and> map_of m ''resultType'' = Some (JString ''input_required'')
    \<or> allow \<and> sr_task_manager srv \<noteq> None \<and> map_of m ''resultType'' = Some (JString ''task'')"
proof -
  obtain name outcome where
    "snd (handle_tools_call L srv rid ps ctx modern allow headers w) = answer_outcome srv rid name modern allow outcome"
    using assms by (auto simp: handle_tools_call_def Let_def response_error_def
        split: option.splits sum.splits prod.splits)
  with assms answer_outcome_kind show ?thesis by metis
qed

text \<open>
  A client is handed a task, or asked for input, only where it agreed to it. Whatever the
  host's tools or dispatcher produce, a \<^verbatim>\<open>tools/call\<close> is answered with a task handle only on a
  modern request that declares the tasks extension itself, to a server with a task manager, and
  with a request for input only in the modern era; a legacy result never carries a
  \<^verbatim>\<open>resultType\<close> and a modern one always does.
\<close>

theorem asynchronous_answers_are_agreed:
  assumes "rq_method request = ''tools/call''"
    and "rs_result (snd (route L srv clock request ctx w)) = Some (JObject m)"
  shows "case request_era request of
      MetaLegacy \<Rightarrow> map_of m ''resultType'' = None
    | MetaModern meta \<Rightarrow> supports_version srv (mm_protocol_version meta)
        \<and> (map_of m ''resultType'' = Some (JString ''complete'')
           \<or> map_of m ''resultType'' = Some (JString ''input_required'')
           \<or> map_of m ''resultType'' = Some (JString ''task'') \<and> declares_tasks meta \<and> sr_task_manager srv \<noteq> None)
    | _ \<Rightarrow> False"
  using assms(1)
proof (cases rule: route_call_cases [where L = L and srv = srv and clock = clock and ctx = ctx and w = w])
  case legacy
  with assms(2) handle_tools_call_kind
    [of L srv "rq_id request" "rq_params request" "bound_context srv request Legacy ctx" False False "rq_headers request" w m]
  show ?thesis by simp
next
  case (modern meta)
  let ?made = "snd (handle_tools_call L srv (rq_id request) (rq_params request)
      (modern_context srv request meta ctx) True (declares_tasks meta) (rq_headers request) w)"
  have framed: "rs_result (frame_modern_result ''tools/call'' ?made) = Some (JObject m)"
    using assms(2) modern(3) by simp
  then obtain m0 where m0: "rs_result ?made = Some (JObject m0)"
    by (metis frame_modern_other(2))
  from frame_modern_lookup [OF this, of "''tools/call''"] framed
  have "map_of m ''resultType'' = (case map_of m0 ''resultType'' of
      Some v \<Rightarrow> Some v | None \<Rightarrow> Some (JString ''complete''))" by auto
  with handle_tools_call_kind [OF m0] modern(1,2) show ?thesis by auto
next
  case (refused r)
  with assms(2) show ?thesis by simp
qed

subsection \<open>The task methods\<close>

text \<open>An operation on one owner's task leaves every other owner's task in the store.\<close>

lemma store_step_spares:
  assumes "m = memory_manager ts opts bus" and "map_of (w_store w) tid' = Some (o', d)" and "o' \<noteq> owner"
  shows "map_of (w_store (fst (store_step m now owner tid change w))) tid' = Some (o', d)"
  using assms by (auto simp: store_step_def in_memory_def mem_update_def map_of_update
      split: option.split sum.split prod.split)

lemma hand_over_store: "w_store (fst (hand_over m tid responses inputs w)) = w_store w"
  by (auto simp: hand_over_def send_input_def publish_def split: option.split sum.split)

lemma apply_input_spares:
  assumes m: "m = memory_manager ts opts bus" and d: "map_of (w_store w) tid' = Some (o', d)" "o' \<noteq> owner"
  shows "map_of (w_store (fst (apply_input m t1 t2 t3 owner tid responses w))) tid' = Some (o', d)"
proof -
  have rec: "map_of (w_store (fst (apply_record m t2 owner tid responses w))) tid' = Some (o', d)"
    unfolding apply_record_def by (rule store_step_spares [OF m d])
  have hand: "map_of (w_store (fst (apply_hand m t3 owner tid responses inputs working v))) tid' = Some (o', d)"
    if "map_of (w_store v) tid' = Some (o', d)" for inputs working v
  proof -
    have "map_of (w_store (fst (hand_over m tid responses inputs v))) tid' = Some (o', d)"
      using that by (simp add: hand_over_store)
    with store_step_spares [OF m this d(2)] show ?thesis
      by (auto simp: apply_hand_def task_fail_def transition_def case_prod_unfold split: sum.split)
  qed
  show ?thesis
    using d(1) rec hand by (auto simp: apply_input_def split: sum.split prod.split)
qed

lemma task_cancel_spares:
  assumes m: "m = memory_manager ts opts bus" and d: "map_of (w_store w) tid' = Some (o', d)" "o' \<noteq> owner"
  shows "map_of (w_store (fst (task_cancel m t1 owner tid w))) tid' = Some (o', d)"
  using store_step_spares [OF m d]
  by (auto simp: task_cancel_def transition_def signal_cancelled_frame case_prod_unfold split: sum.split)

lemma task_method_frame:
  "hw_clients (fst (handle_task_method m clock name rid ps ctx w)) = hw_clients w"
  "hw_app (fst (handle_task_method m clock name rid ps ctx w)) = hw_app w"
  by (auto simp: handle_task_method_def Let_def split: sum.split option.split prod.split)

lemma task_method_spares:
  assumes "m = memory_manager ts opts bus" and "map_of (w_store (hw_tasks w)) tid = Some (o', d)"
    and "o' \<noteq> context_owner ctx"
  shows "map_of (w_store (hw_tasks (fst (handle_task_method m clock name rid ps ctx w)))) tid = Some (o', d)"
  using assms(2) apply_input_spares [OF assms] task_cancel_spares [OF assms]
  by (auto simp: handle_task_method_def Let_def case_prod_unfold split: sum.split option.split prod.split)

lemma task_method_absent:
  assumes "m = memory_manager ts opts bus" and "task_id_param ps = Inr tid"
    and "\<And>d. map_of (w_store (hw_tasks w)) tid \<noteq> Some (context_owner ctx, d)"
    and "name \<in> {''tasks/get'', ''tasks/cancel''} \<or>
      name = ''tasks/update'' \<and> Option.bind (param ps ''inputResponses'') as_object = Some responses"
  shows "handle_task_method m clock name rid ps ctx w = (w, task_error_response rid (NotFound tid))"
proof -
  obtain t1 t2 t3 where clock: "clock = (t1, t2, t3)" by (cases clock)
  note absent = absent_task_operations [OF assms(1), of "hw_tasks w" tid "context_owner ctx", OF assms(3)]
  from assms(4) show ?thesis
    using assms(2) absent by (auto simp: handle_task_method_def clock Let_def)
qed

text \<open>
  C7: over the wire a caller reaches its own tasks and no other's. A \<^verbatim>\<open>tasks/get\<close>,
  \<^verbatim>\<open>tasks/update\<close> or \<^verbatim>\<open>tasks/cancel\<close> of a modern client touches neither the clients nor the
  host's own state; without the tasks extension declared on the request it is refused with
  -32021 and nothing happens; a task of another user or tenant stays exactly as it is, and naming
  it, or a task that does not exist, is answered with the same error, which says the task was not
  found.
\<close>

theorem task_methods_keep_to_the_caller:
  assumes "request_era request = MetaModern meta" and "supports_version srv (mm_protocol_version meta)"
    and "rq_method request \<in> {''tasks/get'', ''tasks/update'', ''tasks/cancel''}"
    and "sr_task_manager srv = Some (memory_manager ts opts bus)"
    and "route L srv clock request ctx w = (w', r)"
  shows "hw_clients w' = hw_clients w \<and> hw_app w' = hw_app w
    \<and> (\<not> declares_tasks meta \<longrightarrow> w' = w \<and> r = missing_capability_error (rq_id request) TASKS_EXTENSION_ID)
    \<and> (\<forall>tid owner d. map_of (w_store (hw_tasks w)) tid = Some (owner, d) \<and> owner \<noteq> context_owner ctx \<longrightarrow>
         map_of (w_store (hw_tasks w')) tid = Some (owner, d))
    \<and> (\<forall>tid. declares_tasks meta \<and> task_id_param (rq_params request) = Inr tid
         \<and> (\<nexists>d. map_of (w_store (hw_tasks w)) tid = Some (context_owner ctx, d))
         \<and> (rq_method request = ''tasks/update'' \<longrightarrow>
              (\<exists>m. Option.bind (param (rq_params request) ''inputResponses'') as_object = Some m)) \<longrightarrow>
         w' = w \<and> r = response_error (rq_id request) INVALID_PARAMS
           (''task '' @ quote tid @ '' not found''))"
proof -
  let ?m = "memory_manager ts opts bus" and ?ctx = "modern_context srv request meta ctx"
  have kept: "rq_method request \<notin> set REMOVED_METHODS"
    using assms(3) by (auto simp: REMOVED_METHODS_def)
  have owner: "context_owner ?ctx = context_owner ctx"
    by (rule same_caller_fields(4)) simp
  have unframed: "frame_modern_result name (response_error i c e) = response_error i c e"
    "frame_modern_result name (response_error_with_data i c e v) = response_error_with_data i c e v" for name i c e v
    by (simp_all add: frame_modern_result_def response_error_def response_error_with_data_def)
  have served: "modern_method L srv clock request ?ctx (declares_tasks meta) w =
      (if declares_tasks meta
       then handle_task_method ?m clock (rq_method request) (rq_id request) (rq_params request) ?ctx w
       else (w, missing_capability_error (rq_id request) TASKS_EXTENSION_ID))"
    using assms(3,4) by (auto simp: modern_method_def Let_def)
  have r: "(w', r) = apsnd (frame_modern_result (rq_method request))
      (modern_method L srv clock request ?ctx (declares_tasks meta) w)"
    using assms(5) route_modern [OF assms(1,2) kept, of L clock ctx w] by simp
  show ?thesis
  proof (cases "declares_tasks meta")
    case False
    with r served show ?thesis by (simp add: missing_capability_error_def unframed)
  next
    case True
    let ?made = "handle_task_method ?m clock (rq_method request) (rq_id request) (rq_params request) ?ctx w"
    have w': "w' = fst ?made" and r': "r = frame_modern_result (rq_method request) (snd ?made)"
      using r served True by (simp_all add: apsnd_def map_prod_def case_prod_unfold)
    have "w' = w \<and> r = response_error (rq_id request) INVALID_PARAMS (''task '' @ quote tid @ '' not found'')"
      if "task_id_param (rq_params request) = Inr tid" "\<nexists>d. map_of (w_store (hw_tasks w)) tid = Some (context_owner ctx, d)"
        "rq_method request = ''tasks/update'' \<longrightarrow>
           (\<exists>m. Option.bind (param (rq_params request) ''inputResponses'') as_object = Some m)" for tid
    proof -
      from assms(3) that(3) obtain responses where
        "rq_method request \<in> {''tasks/get'', ''tasks/cancel''} \<or> rq_method request = ''tasks/update''
           \<and> Option.bind (param (rq_params request) ''inputResponses'') as_object = Some responses"
        by blast
      with that(1,2) have "?made = (w, task_error_response (rq_id request) (NotFound tid))"
        unfolding owner [symmetric] by (intro task_method_absent [OF refl]) blast+
      with w' r' show ?thesis by (simp add: unframed)
    qed
    moreover have "map_of (w_store (hw_tasks w')) tid = Some (o', d)"
      if "map_of (w_store (hw_tasks w)) tid = Some (o', d)" "o' \<noteq> context_owner ctx" for tid o' d
      unfolding w' using that owner by (intro task_method_spares [OF refl]) simp_all
    ultimately show ?thesis using True by (simp add: w' task_method_frame)
  qed
qed

subsection \<open>Listing the tools\<close>

text \<open>A client that asks for \<^verbatim>\<open>tools/list\<close>, then for the page after each cursor it is given, for at
  most \<open>fuel\<close> requests; \<open>None\<close> when it runs out or an answer is not a page.\<close>

fun follow_tools ::
  "'f libraries \<Rightarrow> ('s, 'a) mcp_server \<Rightarrow> tool_context \<Rightarrow> ('s, 'a) host_world \<Rightarrow> nat \<Rightarrow> string option
     \<Rightarrow> json list option" where
  "follow_tools L srv ctx w 0 cursor = None"
| "follow_tools L srv ctx w (Suc fuel) cursor =
     (case rs_result (snd (handle_tools_list L srv (Some (u64_json 1))
              (Some (JObject (opt_field ''cursor'' JString cursor))) ctx w)) of
        Some (JObject m) \<Rightarrow>
          (case map_of m ''tools'' of
             Some (JArray shown) \<Rightarrow>
               (case Option.bind (map_of m ''nextCursor'') as_str of
                  None \<Rightarrow> Some shown
                | Some c \<Rightarrow> map_option (\<lambda>rest. shown @ rest) (follow_tools L srv ctx w fuel (Some c)))
           | _ \<Rightarrow> None)
      | _ \<Rightarrow> None)"

lemma cursor_param_of [simp]:
  "cursor_param (Some (JObject (opt_field ''cursor'' JString cursor))) = Inr cursor"
  by (cases cursor) (simp_all add: cursor_param_def opt_field_def param_def json_get_def)

lemma follow_tools_pages:
  assumes "sr_tool_dispatcher srv = None"
    and "follow_pages (lib_cursor_codec L) tl_name (list_definitions_for (tx_is_admin ctx) (sr_tools srv))
           (sr_list_page_size srv) fuel cursor = Some (Inr pages)"
  shows "follow_tools L srv ctx w fuel cursor = Some (map tool_json (concat pages))"
  using assms(2)
proof (induction fuel arbitrary: cursor pages)
  case (Suc fuel)
  let ?defs = "list_definitions_for (tx_is_admin ctx) (sr_tools srv)"
  obtain page where page: "paginate (lib_cursor_codec L) tl_name ?defs cursor (sr_list_page_size srv) = Inr page"
    using Suc.prems by (auto split: sum.splits)
  have answer: "rs_result (snd (handle_tools_list L srv (Some (u64_json 1))
      (Some (JObject (opt_field ''cursor'' JString cursor))) ctx w)) = Some (tools_page_json page)"
    using assms(1) page by (simp add: handle_tools_list_def visible_tools_def response_success_def)
  show ?case
  proof (cases "p_next_cursor page")
    case None
    with Suc.prems page have "pages = [p_items page]" by simp
    with None answer show ?thesis by (simp add: tools_page_json_def opt_field_def)
  next
    case (Some c)
    with Suc.prems page obtain rest where
      "follow_pages (lib_cursor_codec L) tl_name ?defs (sr_list_page_size srv) fuel (Some c) = Some (Inr rest)"
      and pages: "pages = p_items page # rest"
      by (auto simp: result_bind_Inr_iff)
    from Suc.IH [OF this(1)] show ?thesis
      using Some answer pages by (simp add: tools_page_json_def opt_field_def as_str_def)
  qed
qed simp

text \<open>
  C12: the listing shows a caller exactly its tools. On a server without a dispatcher of its
  host, after every sequence of registrations and whatever the page size: a client that follows
  \<^verbatim>\<open>nextCursor\<close> from the first \<^verbatim>\<open>tools/list\<close> is done within one request more than there are
  tools, and has been shown, in name order and each once, the definitions of exactly the
  registered tools it is not withheld for lack of admin rights.
\<close>

theorem tools_list_shows_the_callers_tools:
  assumes "sr_tool_dispatcher srv = None"
    and "sr_tools srv = run (registry_step json_text validation) registry_new es"
    and "sr_list_page_size srv = Some n" and "0 < n"
    and "codec_lawful (lib_cursor_codec L)"
    and "\<forall>d \<in> set (list_definitions (sr_tools srv)). utf8_valid (tl_name d)"
  shows "\<exists>shown. follow_tools L srv ctx w (Suc (length (rg_tools (sr_tools srv)))) None = Some (map tool_json shown)
    \<and> sorted (map tl_name shown) \<and> distinct (map tl_name shown)
    \<and> set shown = {mt_definition tool | name tool. map_of (rg_tools (sr_tools srv)) name = Some tool
                      \<and> (tx_is_admin ctx \<or> \<not> bit (mt_capabilities tool) 5)}"
proof -
  let ?defs = "list_definitions_for (tx_is_admin ctx) (sr_tools srv)"
  have "registry_ok validation (sr_tools srv)"
    unfolding assms(2) by (rule registry.run_inv [OF registry_new_ok])
  note facts = listing_facts [OF this, where is_admin = "tx_is_admin ctx"]
  have "\<forall>d \<in> set ?defs. utf8_valid (tl_name d)"
    using assms(6) by (auto simp: list_definitions_for_def list_definitions_def)
  from follow_pages_cover [OF assms(5) this facts(2) assms(4)] obtain pages where
    pages: "follow_pages (lib_cursor_codec L) tl_name ?defs (Some n) (Suc (length ?defs)) None = Some (Inr pages)"
    "concat pages = sort_key tl_name ?defs" by blast
  have "length ?defs \<le> length (rg_tools (sr_tools srv))" by (simp add: list_definitions_for_def)
  then obtain extra where extra: "Suc (length (rg_tools (sr_tools srv))) = Suc (length ?defs) + extra"
    by (metis add_Suc le_Suc_ex)
  have "follow_pages (lib_cursor_codec L) tl_name ?defs (Some n) (Suc (length (rg_tools (sr_tools srv)))) None
      = Some (Inr pages)"
    unfolding extra by (rule follow_pages_fuel [OF pages(1)])
  then have "follow_tools L srv ctx w (Suc (length (rg_tools (sr_tools srv)))) None
      = Some (map tool_json (sort_key tl_name ?defs))"
    using follow_tools_pages [OF assms(1)] assms(3) pages(2) by metis
  moreover have "distinct (map tl_name (sort_key tl_name ?defs))"
    using facts(2) by (simp add: distinct_map)
  ultimately show ?thesis using facts(1) by (intro exI [of _ "sort_key tl_name ?defs"]) simp
qed

subsection \<open>The handshake\<close>

lemma route_initialize:
  "request_era request = MetaLegacy \<Longrightarrow> rq_method request = ''initialize'' \<Longrightarrow>
   route L srv clock request ctx w =
     handle_initialize srv (rq_id request) (rq_params request) (bound_context srv request Legacy ctx) w"
  by (simp add: route_legacy process_legacy_def Let_def)

text \<open>Only the legacy era shakes hands.\<close>

lemma initialize_success_era:
  assumes "rq_method request = ''initialize''" and "is_success (snd (route L srv clock request ctx w))"
  shows "request_era request = MetaLegacy"
proof (cases "request_era request")
  case (MetaModern meta)
  have removed: "''initialize'' \<in> set REMOVED_METHODS" by (simp add: REMOVED_METHODS_def)
  show ?thesis
  proof (cases "supports_version srv (mm_protocol_version meta)")
    case True
    then have "route L srv clock request ctx w = (w, method_not_found (rq_id request) (rq_method request))"
      using MetaModern removed assms(1) by (intro route_removed) simp_all
    then show ?thesis using assms(2) by (simp add: method_not_found_def is_success_def response_error_def)
  next
    case False
    then show ?thesis
      using assms(2) route_unsupported [OF MetaModern False, of L clock ctx w]
      by (simp add: unsupported_version_error_def is_success_def response_error_with_data_def)
  qed
qed (use assms(2) in \<open>simp_all add: route_def request_era_def is_success_def response_error_def Let_def\<close>)

text \<open>
  What the handshake leaves behind. An \<^verbatim>\<open>initialize\<close> answers with the revision the client
  asked for when the server supports it and with the server's own otherwise, and changes one
  thing: the session of the connection, if there is one, now holds exactly what this client
  declared, so that a later call over it may sample or elicit exactly when the client said it
  could. Every other session, the tasks and the host are left alone.
\<close>

theorem handshake_records_the_client:
  assumes "request_era request = MetaLegacy" and "rq_method request = ''initialize''"
    and "route L srv clock request ctx w = (w', r)"
  shows "(\<exists>m v. rs_result r = Some (JObject m) \<and> map_of m ''protocolVersion'' = Some (JString v)
        \<and> (\<forall>p req. rq_params request = Some p \<and> initialize_of_json p = Inr req \<longrightarrow>
             v = (if supports_version srv (in_protocol_version req) then in_protocol_version req
                  else PROTOCOL_VERSION)))
    \<and> hw_tasks w' = hw_tasks w \<and> hw_app w' = hw_app w
    \<and> (\<forall>s. cw_sessions (hw_clients w') s =
         (if channel_session (tx_client ctx) = Some s
          then record_capabilities (param (rq_params request) ''capabilities'') (cw_sessions (hw_clients w) s)
          else cw_sessions (hw_clients w) s))
    \<and> (\<forall>s needed. channel_session (tx_client ctx) = Some s \<longrightarrow>
         (declared_in needed (s_capabilities (cw_sessions (hw_clients w') s)) \<longleftrightarrow>
          declared_in needed (capabilities_from_initialize (param (rq_params request) ''capabilities''))))"
proof -
  let ?ctx = "bound_context srv request Legacy ctx"
  have session: "channel_session (tx_client ?ctx) = channel_session (tx_client ctx)"
    by (rule same_caller_fields(5)) simp
  have r: "(w', r) = handle_initialize srv (rq_id request) (rq_params request) ?ctx w"
    using assms by (simp add: route_initialize)
  then have w': "w' = on_session ?ctx (record_capabilities (param (rq_params request) ''capabilities'')) w"
    by (simp add: handle_initialize_def Let_def)
  have "\<exists>m. rs_result r = Some (JObject m)
      \<and> map_of m ''protocolVersion'' = Some (JString (negotiated_version srv (rq_params request)))"
    using r by (auto simp: handle_initialize_def Let_def success_or_error_def response_success_def
        initialize_response_json_def initialize_response_new_def)
  moreover have "\<forall>p req. rq_params request = Some p \<and> initialize_of_json p = Inr req \<longrightarrow>
      negotiated_version srv (rq_params request) =
        (if supports_version srv (in_protocol_version req) then in_protocol_version req else PROTOCOL_VERSION)"
    by (auto simp: negotiated_version_def)
  moreover have "hw_tasks w' = hw_tasks w" "hw_app w' = hw_app w"
    by (simp_all add: w' on_session_def split: option.split)
  moreover have sessions: "cw_sessions (hw_clients w') s =
      (if channel_session (tx_client ctx) = Some s
       then record_capabilities (param (rq_params request) ''capabilities'') (cw_sessions (hw_clients w) s)
       else cw_sessions (hw_clients w) s)" for s
    by (auto simp: w' on_session_def session split: option.split)
  ultimately show ?thesis by (auto simp: record_capabilities_def)
qed

subsection \<open>A server to try them on\<close>

text \<open>One admin tool that counts its runs, the task manager with one task waiting for input, pages
  of one tool.\<close>

definition demo_world :: "(memory, nat) host_world" where
  "demo_world = \<lparr>hw_clients = sample_client, hw_tasks = sample_waiting, hw_app = 0\<rparr>"

definition demo_tool :: "(memory, nat) host_world mcp_tool" where
  "demo_tool =
     \<lparr>mt_definition = \<lparr>tl_name = ''rows'', tl_description = ''d'', tl_input_schema = sample_schema,
        tl_output_schema = None, tl_annotations = None, tl_execution = None\<rparr>,
      mt_capabilities = ADMIN_ONLY, mt_required_scopes = [''read''],
      mt_execute = (\<lambda>_ _ w. (w\<lparr>hw_app := Suc (hw_app w)\<rparr>, response_text ''ran''))\<rparr>"

definition demo_server :: "(memory, nat) mcp_server" where
  "demo_server = with_task_manager sample_manager (with_list_page_size 1
     (mcp_server_new ''demo'' ''1''
       (run (registry_step (\<lambda>_. []) None) registry_new [Tool_Registry.Registered demo_tool]) None))"

definition demo_libraries :: "nat libraries" where
  "demo_libraries =
     \<lparr>lib_id_text = (\<lambda>_. ''1''), lib_read_json = (\<lambda>_. Inl ''no''), lib_cursor_codec = plain_codec,
      lib_header_codec = letter_codec, lib_floats = no_floats\<rparr>"

definition demo_caller :: tool_context where
  "demo_caller = (tool_context_default 0)\<lparr>tx_user_id := Some ''u2'', tx_is_admin := True, tx_scopes := [''read''],
     tx_client := connected 0 sample_connection\<rparr>"

definition demo_call :: rpc_request where
  "demo_call = request_with_id ''tools/call'' (Some (JObject [(''name'', JString ''rows'')])) (u64_json 1)"

definition demo_meta :: modern_request_meta where
  "demo_meta = \<lparr>mm_protocol_version = PROTOCOL_VERSION_2026_07_28, mm_client_info = None,
     mm_client_capabilities = JObject [(''extensions'', JObject [(TASKS_EXTENSION_ID, JObject [])])],
     mm_log_level = None\<rparr>"

definition demo_modern :: "string \<Rightarrow> json_map \<Rightarrow> rpc_request" where
  "demo_modern name ps = request_with_id name
     (Some (JObject ((''_meta'', JObject [(META_PROTOCOL_VERSION, JString PROTOCOL_VERSION_2026_07_28),
         (META_CLIENT_CAPABILITIES, mm_client_capabilities demo_meta)]) # ps))) (u64_json 1)"

lemma demo_call_fields [simp]:
  "rq_method demo_call = ''tools/call''" "rq_headers demo_call = None"
  "rq_params demo_call = Some (JObject [(''name'', JString ''rows'')])" "rq_id demo_call = Some (u64_json 1)"
  "rq_jsonrpc demo_call = JSONRPC_VERSION" "rq_metadata demo_call = []"
  by (simp_all add: demo_call_def request_with_id_def)

lemma demo_modern_fields [simp]:
  "rq_method (demo_modern name ps) = name" "rq_id (demo_modern name ps) = Some (u64_json 1)"
  "rq_metadata (demo_modern name ps) = []" "rq_headers (demo_modern name ps) = None"
  by (simp_all add: demo_modern_def request_with_id_def)

lemma demo_modern_param: "key \<noteq> ''_meta'' \<Longrightarrow> param (rq_params (demo_modern name ps)) key = map_of ps key"
  by (simp add: demo_modern_def request_with_id_def param_def json_get_def)

lemma demo_eras: "request_era demo_call = MetaLegacy" "request_era (demo_modern name ps) = MetaModern demo_meta"
  by (simp_all add: request_era_def get_metadata_def detect_era_def meta_from_params_def param_def json_get_def
      demo_modern_def request_with_id_def demo_meta_def as_str_def META_PROTOCOL_VERSION_def
      META_CLIENT_CAPABILITIES_def META_CLIENT_INFO_def META_LOG_LEVEL_def)

lemma demo_server_fields [simp]:
  "sr_tool_dispatcher demo_server = None" "sr_validation demo_server = None"
  "sr_method_handler demo_server = None" "sr_task_manager demo_server = Some sample_manager"
  "sr_list_page_size demo_server = Some 1" "sr_supported_versions demo_server = default_supported_versions"
  by (simp_all add: demo_server_def with_task_manager_def with_list_page_size_def mcp_server_new_def)

lemma demo_registry: "sr_tools demo_server
    = run (registry_step (\<lambda>_. []) None) registry_new [Tool_Registry.Registered demo_tool]"
  by (simp add: demo_server_def with_task_manager_def with_list_page_size_def mcp_server_new_def)

lemma demo_tools: "rg_tools (sr_tools demo_server) = [(''rows'', demo_tool)]"
  by (simp add: demo_registry registry_register_def registry_insert_def registry_new_def demo_tool_def)

lemma demo_name: "tl_name (mt_definition demo_tool) = ''rows''"
  by (simp add: demo_tool_def)

lemma demo_supported: "supports_version demo_server (mm_protocol_version demo_meta)"
  by (simp add: supports_version_def default_supported_versions_def demo_meta_def)

lemma demo_declares: "declares_tasks demo_meta"
  by (simp add: declares_tasks_def demo_meta_def json_get_def)

lemma demo_handler: "handler_answers demo_server"
  by (simp add: handler_answers_def)

lemma demo_call_reads: "tool_call_of_json (JObject [(''name'', JString ''rows'')]) =
   Inr \<lparr>tc_name = ''rows'', tc_arguments = None, tc_input_responses = None, tc_request_state = None\<rparr>"
  by code_simp

lemma demo_call_runs:
  "route demo_libraries demo_server clock demo_call demo_caller demo_world =
     (demo_world\<lparr>hw_app := 1\<rparr>,
      response_success (Some (u64_json 1)) (tool_response_json (response_text ''ran'')))"
proof -
  have "refusal ''rows'' (mt_capabilities demo_tool) (mt_required_scopes demo_tool) c = None"
    if "same_caller c demo_caller" for c
    unfolding refusal_None_iff same_caller_may_run [OF that]
    by (simp add: may_run_def demo_tool_def demo_caller_def ADMIN_ONLY_def bit_numeral_rec)
  moreover have "same_caller ((bound_context demo_server demo_call Legacy demo_caller)
      \<lparr>tx_input_responses := None, tx_request_state := None\<rparr>) demo_caller"
    using same_caller_bound by (simp add: same_caller_def)
  ultimately show ?thesis
    by (simp add: route_legacy [OF demo_eras(1)] process_legacy_def Let_def handle_tools_call_def
        demo_call_reads check_call_headers_def call_outcome_of_def registry_execute_def
        demo_tools run_checked_def)
      (simp add: demo_tool_def demo_world_def answer_outcome_def tool_response_result_def)
qed


lemma call_runs_as_its_caller_witness:
  "\<exists>tctx. same_caller tctx demo_caller
     \<and> fst (route demo_libraries demo_server (0, 0, 0) demo_call demo_caller demo_world)
         = fst (mt_execute demo_tool tctx (JObject []) demo_world)"
proof -
  have "fst (route demo_libraries demo_server (0, 0, 0) demo_call demo_caller demo_world) \<noteq> demo_world"
    using demo_call_runs [of "(0, 0, 0)"] by (auto simp: demo_world_def dest: arg_cong [of _ _ hw_app])
  from call_runs_as_its_caller [OF _ _ this] show ?thesis
    by (auto simp: demo_call_reads demo_tools split: if_splits)
qed

lemma asynchronous_answers_are_agreed_witness:
  "\<exists>m. rs_result (snd (route demo_libraries demo_server (0, 0, 0) demo_call demo_caller demo_world))
         = Some (JObject m) \<and> map_of m ''resultType'' = None"
proof -
  obtain m where m: "rs_result (snd (route demo_libraries demo_server (0, 0, 0) demo_call demo_caller demo_world))
      = Some (JObject m)"
    by (simp add: demo_call_runs response_success_def tool_response_json_def)
  with asynchronous_answers_are_agreed [OF demo_call_fields(1) m] show ?thesis
    by (simp add: demo_eras)
qed

lemma modern_results_are_framed_witness:
  "\<exists>m. rs_result (snd (route demo_libraries demo_server (0, 0, 0) (demo_modern ''tools/list'' []) demo_caller demo_world))
         = Some (JObject m) \<and> map_of m ''ttlMs'' = Some (u64_json 0)"
proof -
  let ?q = "demo_modern ''tools/list'' []"
  obtain page where page: "paginate (lib_cursor_codec demo_libraries) tl_name
      (list_definitions_for (tx_is_admin (modern_context demo_server ?q demo_meta demo_caller)) (sr_tools demo_server))
      None (sr_list_page_size demo_server) = Inr page"
    using paginate_None by blast
  have "modern_method demo_libraries demo_server (0, 0, 0) ?q (modern_context demo_server ?q demo_meta demo_caller)
      (declares_tasks demo_meta) demo_world = (demo_world, response_success (Some (u64_json 1)) (tools_page_json page))"
    using page by (simp add: modern_method_def Let_def handle_tools_list_def visible_tools_def
        demo_modern_param cursor_param_def del: demo_server_fields(5))
  note made = modern_results_are_framed [OF demo_eras(2) demo_supported _ this surjective_pairing]
  have "rq_method ?q \<notin> set REMOVED_METHODS" by (simp add: REMOVED_METHODS_def)
  from made [OF this] obtain m where m:
    "rs_result (snd (route demo_libraries demo_server (0, 0, 0) ?q demo_caller demo_world)) = Some (JObject m)"
    "map_of m ''ttlMs'' = (case map_of ((''tools'', JArray (map tool_json (p_items page)))
        # opt_field ''nextCursor'' JString (p_next_cursor page)) ''ttlMs'' of
       Some v \<Rightarrow> Some v | None \<Rightarrow> Some (u64_json 0))"
    by (auto simp: response_success_def tools_page_json_def CACHEABLE_RESULT_METHODS_def
        simp del: map_of.simps split: option.split)
  moreover have "map_of ((''tools'', JArray (map tool_json (p_items page)))
      # opt_field ''nextCursor'' JString (p_next_cursor page)) ''ttlMs'' = None"
    by (simp add: opt_field_def split: option.split)
  ultimately show ?thesis by simp
qed

lemma task_methods_keep_to_the_caller_witness:
  "fst (route demo_libraries demo_server (0, 0, 0) (demo_modern ''tasks/cancel'' [(''taskId'', JString ''a'')])
          demo_caller demo_world) = demo_world"
proof -
  let ?q = "demo_modern ''tasks/cancel'' [(''taskId'', JString ''a'')]"
  have "task_id_param (rq_params ?q) = Inr ''a''"
    by (simp add: task_id_param_def demo_modern_param as_str_def)
  moreover have "map_of (w_store (hw_tasks demo_world)) ''a'' \<noteq> Some (context_owner demo_caller, d)" for d
    by (simp add: demo_world_def sample_waiting_eq context_owner_def demo_caller_def sample_owner_def)
  ultimately show ?thesis
    using task_methods_keep_to_the_caller [where request = ?q and srv = demo_server and ts = tally
        and opts = "with_ttl_ms (Some 60000) default_options" and bus = None and w = demo_world and ctx = demo_caller
        and clock = "(0, 0, 0)" and L = demo_libraries, OF demo_eras(2) demo_supported _ _ surjective_pairing]
      demo_declares
    by (simp add: sample_manager_def)
qed

lemma tools_list_shows_the_callers_tools_witness:
  "\<exists>shown. follow_tools demo_libraries demo_server demo_caller demo_world 2 None = Some (map tool_json shown)
     \<and> set shown = {mt_definition demo_tool}"
proof -
  have "\<forall>d \<in> set (list_definitions (sr_tools demo_server)). utf8_valid (tl_name d)"
    by (simp add: list_definitions_def demo_tools demo_name) code_simp
  moreover have "codec_lawful (lib_cursor_codec demo_libraries)"
    by (simp add: demo_libraries_def plain_codec_lawful)
  ultimately obtain shown where
    "follow_tools demo_libraries demo_server demo_caller demo_world (Suc (length (rg_tools (sr_tools demo_server)))) None
       = Some (map tool_json shown)"
    "set shown = {mt_definition tool | name tool. map_of (rg_tools (sr_tools demo_server)) name = Some tool
        \<and> (tx_is_admin demo_caller \<or> \<not> bit (mt_capabilities tool) 5)}"
    using tools_list_shows_the_callers_tools [OF demo_server_fields(1) demo_registry demo_server_fields(5), of demo_libraries demo_caller demo_world]
    by auto
  then show ?thesis
    by (intro exI [of _ shown]) (auto simp: demo_tools demo_caller_def eval_nat_numeral split: if_splits)
qed

definition demo_hello :: rpc_request where
  "demo_hello = request_with_id ''initialize'' (Some (JObject
     [(''capabilities'', JObject [(''sampling'', JObject [])])])) (u64_json 1)"

lemma handshake_records_the_client_witness:
  "declared_in Sampling (s_capabilities (cw_sessions (hw_clients
     (fst (route demo_libraries demo_server (0, 0, 0) demo_hello demo_caller demo_world))) 0))"
proof -
  have "request_era demo_hello = MetaLegacy" "rq_method demo_hello = ''initialize''"
    "param (rq_params demo_hello) ''capabilities'' = Some (JObject [(''sampling'', JObject [])])"
    by (simp_all add: demo_hello_def request_with_id_def request_era_def get_metadata_def detect_era_def
        meta_from_params_def param_def json_get_def)
  moreover have "channel_session (tx_client demo_caller) = Some 0"
    by (simp add: demo_caller_def channel_session_def connected_def sample_connection_def)
  moreover have "declared_in Sampling (capabilities_from_initialize (Some (JObject [(''sampling'', JObject [])])))"
    by (simp add: capabilities_from_initialize_def json_get_def is_object_def)
  ultimately show ?thesis
    using handshake_records_the_client [OF _ _ surjective_pairing, of demo_hello demo_libraries demo_server
        "(0, 0, 0)" demo_caller demo_world] by (simp del: declared_in.simps) metis
qed

end
