(* ===== verification/Server_System.thy ===== *)
theory Server_System
  imports Dispatch_Correct
begin

declare map_of_eq_Some_iff [simp del] Some_eq_map_of_iff [simp del]

text \<open>
  A server over every interleaving of its requests: messages arrive, a waiting request gets its
  turn, a dispatch is dropped by its transport, and the host's world moves in between. It is the
  composition of the dispatch with the registry of requests in flight, and refines that
  registry's machine.
\<close>

record ('s, 'a) server_system =
  sy_state :: "('s, 'a) server_state"
  sy_running :: "serving list"
  sy_count :: nat
  sy_tokens :: "token list"

text \<open>A child token is new: a request is not served under one already known.\<close>

datatype ('s, 'a) server_event =
    Arrives "int \<times> int \<times> int" token rpc_request tool_context
  | Turn "int \<times> int \<times> int" serving
  | Abandoned serving
  | WorldMoves "('s, 'a) host_world"

definition system_start :: "('s, 'a) host_world \<Rightarrow> ('s, 'a) server_system" where
  "system_start w =
     \<lparr>sy_state = \<lparr>ss_in_flight = in_flight_new, ss_world = w\<rparr>, sy_running = [], sy_count = 0, sy_tokens = []\<rparr>"

fun server_step ::
  "'f libraries \<Rightarrow> ('s, 'a) mcp_server \<Rightarrow> ('s, 'a) server_system \<Rightarrow> ('s, 'a) server_event
     \<Rightarrow> ('s, 'a) server_system" where
  "server_step L srv y (Arrives clock token request ctx) =
     (case dispatch_begin L srv clock token request ctx (sy_state y) of
        (st, Finished _) \<Rightarrow> y\<lparr>sy_state := st\<rparr>
      | (st, Serving s) \<Rightarrow>
          if token \<in> set (sy_tokens y) then y
          else y\<lparr>sy_state := st, sy_running := sy_running y @ [s], sy_count := Suc (sy_count y),
                 sy_tokens := token # sy_tokens y\<rparr>)"
| "server_step L srv y (Turn clock s) =
     (if s \<in> set (sy_running y)
      then y\<lparr>sy_state := fst (dispatch_poll L srv clock s (sy_state y)),
             sy_running := filter (\<lambda>s'. s' \<noteq> s) (sy_running y)\<rparr>
      else y)"
| "server_step L srv y (Abandoned s) =
     (if s \<in> set (sy_running y)
      then y\<lparr>sy_state := dispatch_drop s (sy_state y), sy_running := filter (\<lambda>s'. s' \<noteq> s) (sy_running y)\<rparr>
      else y)"
| "server_step L srv y (WorldMoves w) = y\<lparr>sy_state := (sy_state y)\<lparr>ss_world := w\<rparr>\<rparr>"

subsection \<open>The registry's machine underneath\<close>

definition flights_of :: "('s, 'a) server_system \<Rightarrow> flights" where
  "flights_of y =
     \<lparr>fs_registry = ss_in_flight (sy_state y), fs_guards = map sg_guard (sy_running y), fs_count = sy_count y\<rparr>"

text \<open>Every running request is registered under its own caller and id, on a token of its own.\<close>

definition system_ok :: "'f libraries \<Rightarrow> ('s, 'a) server_system \<Rightarrow> bool" where
  "system_ok L y \<longleftrightarrow>
     flights_ok (flights_of y)
     \<and> distinct (map (\<lambda>s. g_token (sg_guard s)) (sy_running y))
     \<and> (\<forall>s \<in> set (sy_running y). g_token (sg_guard s) \<in> set (sy_tokens y)
          \<and> (\<exists>rid. rq_id (sg_request s) = Some rid
               \<and> g_key (sg_guard s) = request_key_new (lib_id_text L) (registry_context (sg_ctx s)) rid))"

lemma flights_ok_fired: "flights_ok (y\<lparr>fs_registry := (fs_registry y)\<lparr>fl_fired := ts\<rparr>\<rparr>) \<longleftrightarrow> flights_ok y"
  by (simp add: flights_ok_def)

lemma guard_drop_fired:
  "guard_drop g (w\<lparr>fl_fired := ts\<rparr>) = (guard_drop g w)\<lparr>fl_fired := ts\<rparr>"
  "fl_fired (guard_drop g w) = fl_fired w"
  by (simp_all add: guard_drop_def release_request_def Let_def split: option.split)

lemma running_guards:
  assumes "distinct (map (\<lambda>s. g_token (sg_guard s)) running)" and "s \<in> set running"
  shows "map sg_guard (filter (\<lambda>s'. s' \<noteq> s) running) = filter (\<lambda>g. g \<noteq> sg_guard s) (map sg_guard running)"
proof -
  have "s' \<noteq> s \<longleftrightarrow> sg_guard s' \<noteq> sg_guard s" if "s' \<in> set running" for s'
    using assms that by (auto simp: distinct_map inj_on_def)
  then show ?thesis
    by (simp add: filter_map comp_def cong: filter_cong)
qed

text \<open>A request that leaves takes its entry along.\<close>

lemma leave_ok:
  assumes ok: "system_ok L y" and s: "s \<in> set (sy_running y)"
    and y': "sy_running y' = filter (\<lambda>s'. s' \<noteq> s) (sy_running y)" "sy_count y' = sy_count y"
      "sy_tokens y' = sy_tokens y"
      "ss_in_flight (sy_state y') = (guard_drop (sg_guard s) (ss_in_flight (sy_state y)))\<lparr>fl_fired := ts\<rparr>"
  shows "system_ok L y'"
proof -
  have dist: "distinct (map (\<lambda>s. g_token (sg_guard s)) (sy_running y))"
    using ok by (simp add: system_ok_def)
  have eq: "flight_step (\<lambda>_. []) (flights_of y) (Dropped (sg_guard s))
      = \<lparr>fs_registry = guard_drop (sg_guard s) (ss_in_flight (sy_state y)),
         fs_guards = map sg_guard (sy_running y'), fs_count = sy_count y'\<rparr>"
    using s y' by (simp add: flights_of_def running_guards [OF dist s])
  have "flights_ok \<lparr>fs_registry = guard_drop (sg_guard s) (ss_in_flight (sy_state y)),
      fs_guards = map sg_guard (sy_running y'), fs_count = sy_count y'\<rparr>"
    unfolding eq [symmetric] using ok by (intro flight_step_ok) (simp add: system_ok_def)
  then have "flights_ok (flights_of y')"
    unfolding flights_of_def y'(4) flights_ok_def by simp
  with ok y' show ?thesis
    by (auto simp: system_ok_def distinct_map_filter)
qed

lemma dispatch_begin_Serving:
  assumes "dispatch_begin L srv clock token request ctx st = (st', Serving s)"
  shows "\<exists>rid fl g. rq_id request = Some rid
    \<and> register (lib_id_text L) (registry_context ctx) token rid (ss_in_flight st) = (fl, g)
    \<and> st' = st\<lparr>ss_in_flight := fl\<rparr> \<and> sg_guard s = g \<and> sg_request s = request
    \<and> registry_context (sg_ctx s) = registry_context ctx \<and> same_caller ((sg_ctx s)\<lparr>tx_cancellation := tx_cancellation ctx\<rparr>) ctx"
  using assms
  by (auto simp: dispatch_begin_def registry_context_def with_cancellation_def same_caller_def
      split: if_splits option.splits prod.splits)

lemma cancel_request_frame:
  "fl_entries (fst (cancel_request t ctx rid w)) = fl_entries w"
  "fl_next_serial (fst (cancel_request t ctx rid w)) = fl_next_serial w"
  by (simp_all add: cancel_request_def split: option.split)

lemma handle_notification_frame:
  "fl_entries (handle_notification L request ctx fl) = fl_entries fl"
  "fl_next_serial (handle_notification L request ctx fl) = fl_next_serial fl"
  by (simp_all add: handle_notification_def cancel_request_frame split: option.split)

lemma dispatch_begin_Finished:
  assumes "dispatch_begin L srv clock token request ctx st = (st', Finished r)"
  shows "fl_entries (ss_in_flight st') = fl_entries (ss_in_flight st)
    \<and> fl_next_serial (ss_in_flight st') = fl_next_serial (ss_in_flight st)"
  using assms
  by (auto simp: dispatch_begin_def handle_notification_frame split: if_splits option.splits prod.splits)

lemma arrive_ok:
  assumes ok: "system_ok L y"
  shows "system_ok L (server_step L srv y (Arrives clock token request ctx))"
proof -
  obtain st started where begin_eq: "dispatch_begin L srv clock token request ctx (sy_state y) = (st, started)"
    by (cases "dispatch_begin L srv clock token request ctx (sy_state y)")
  show ?thesis
  proof (cases started)
    case (Finished r)
    with dispatch_begin_Finished [of L srv clock token request ctx "sy_state y" st r] begin_eq ok
    show ?thesis by (simp add: system_ok_def flights_ok_def flights_of_def)
  next
    case (Serving s)
    from dispatch_begin_Serving [OF begin_eq [unfolded Serving]] obtain rid fl g where
      s: "rq_id request = Some rid"
      "register (lib_id_text L) (registry_context ctx) token rid (ss_in_flight (sy_state y)) = (fl, g)"
      "st = (sy_state y)\<lparr>ss_in_flight := fl\<rparr>" "sg_guard s = g" "sg_request s = request"
      "registry_context (sg_ctx s) = registry_context ctx" by blast
    show ?thesis
    proof (cases "token \<in> set (sy_tokens y)")
      case True
      with ok begin_eq Serving show ?thesis by simp
    next
      case False
      let ?y = "server_step L srv y (Arrives clock token request ctx)"
      have y': "?y = y\<lparr>sy_state := st, sy_running := sy_running y @ [s], sy_count := Suc (sy_count y),
          sy_tokens := token # sy_tokens y\<rparr>"
        using False begin_eq Serving by simp
      have g: "g_token g = token" "g_key g = request_key_new (lib_id_text L) (registry_context ctx) rid"
        using s(2) by (auto simp: register_def Let_def)
      have "flights_of ?y = flight_step (lib_id_text L) (flights_of y) (Registered (registry_context ctx) token rid)"
        unfolding y' using s by (simp add: flights_of_def)
      then have "flights_ok (flights_of ?y)"
        using ok by (simp add: system_ok_def flight_step_ok del: flight_step.simps)
      moreover have "token \<notin> (\<lambda>s. g_token (sg_guard s)) ` set (sy_running y)"
        using ok False by (auto simp: system_ok_def)
      ultimately show ?thesis
        using ok s g unfolding system_ok_def y' by auto
    qed
  qed
qed

lemma server_step_ok: "system_ok L y \<Longrightarrow> system_ok L (server_step L srv y e)"
proof (cases e)
  case (Arrives clock token request ctx)
  then show "system_ok L y \<Longrightarrow> ?thesis" using arrive_ok by blast
next
  case (Turn clock s)
  assume ok: "system_ok L y"
  show ?thesis
  proof (cases "s \<in> set (sy_running y)")
    case True
    with ok Turn show ?thesis
      by (intro leave_ok [OF ok True, where ts = "fl_fired (ss_in_flight (sy_state y))"])
        (auto simp: dispatch_poll_def guard_drop_fired split: prod.split)
  qed (use ok Turn in simp)
next
  case (Abandoned s)
  assume ok: "system_ok L y"
  show ?thesis
  proof (cases "s \<in> set (sy_running y)")
    case True
    with ok Abandoned show ?thesis
      by (intro leave_ok [OF ok True, where ts = "g_token (sg_guard s) # fl_fired (ss_in_flight (sy_state y))"])
        (auto simp: dispatch_drop_def guard_drop_fired Let_def)
  qed (use ok Abandoned in simp)
next
  case (WorldMoves w)
  assume "system_ok L y"
  with WorldMoves show ?thesis by (simp add: system_ok_def flights_of_def)
qed

interpretation server: machine "server_step L srv" "system_ok L" for L :: "'f libraries" and srv
  by unfold_locales (rule server_step_ok)

lemma system_start_ok: "system_ok L (system_start w)"
  using flights_new_ok by (simp add: system_ok_def system_start_def flights_of_def flights_new_def)

text \<open>Tokens fired stay fired.\<close>

lemma cancel_request_fired: "set (fl_fired w) \<subseteq> set (fl_fired (fst (cancel_request t ctx rid w)))"
  by (auto simp: cancel_request_def split: option.split)

lemma dispatch_begin_fired:
  assumes "dispatch_begin L srv clock token request ctx st = (st', started)"
  shows "set (fl_fired (ss_in_flight st)) \<subseteq> set (fl_fired (ss_in_flight st'))"
proof -
  have "t \<in> set (fl_fired (handle_notification L request ctx fl))" if "t \<in> set (fl_fired fl)" for t fl
    using cancel_request_fired that by (fastforce simp: handle_notification_def split: option.split)
  moreover have "fl_fired fl' = fl_fired fl" if "register t c k rid fl = (fl', g)" for t c k rid fl fl' g
    using that by (auto simp: register_def Let_def split: option.splits)
  ultimately show ?thesis
    using assms by (auto simp: dispatch_begin_def split: if_splits option.splits prod.splits)
qed

lemma server_step_fired:
  "t \<in> set (fl_fired (ss_in_flight (sy_state y))) \<Longrightarrow>
   t \<in> set (fl_fired (ss_in_flight (sy_state (server_step L srv y e))))"
proof (cases e)
  case (Arrives clock token request ctx)
  then show "t \<in> set (fl_fired (ss_in_flight (sy_state y))) \<Longrightarrow> ?thesis"
    using dispatch_begin_fired [of L srv clock token request ctx "sy_state y"]
    by (auto split: prod.split dispatched.split)
next
  case (Turn clock s)
  then show "t \<in> set (fl_fired (ss_in_flight (sy_state y))) \<Longrightarrow> ?thesis"
    by (simp add: dispatch_poll_def guard_drop_fired split: prod.split)
next
  case (Abandoned s)
  then show "t \<in> set (fl_fired (ss_in_flight (sy_state y))) \<Longrightarrow> ?thesis"
    by (simp add: dispatch_drop_def guard_drop_fired Let_def)
qed simp

interpretation server_tokens:
  settling_machine "server_step L srv" "system_ok L" "\<lambda>y t. t \<in> set (fl_fired (ss_in_flight (sy_state y)))"
  for L :: "'f libraries" and srv
  by unfold_locales (rule server_step_fired)

lemma server_count: "sy_count (run (server_step L srv) y es) \<le> sy_count y + length es"
proof (induction es arbitrary: y)
  case (Cons e es)
  have "sy_count (server_step L srv y e) \<le> Suc (sy_count y)"
    by (cases e) (auto split: prod.split dispatched.split)
  with Cons.IH [of "server_step L srv y e"] show ?case by simp
qed simp

lemma reachable_lookup:
  assumes "y = run (server_step L srv) (system_start w) es" and "length es < 2 ^ 64"
  shows "system_ok L y"
    and "map_of (fl_entries (ss_in_flight (sy_state y))) key =
      (if guards_of key (map sg_guard (sy_running y)) = [] then None
       else Some (guards_of key (map sg_guard (sy_running y))))"
proof -
  show ok: "system_ok L y"
    unfolding assms(1) by (rule server.run_inv [OF system_start_ok])
  have "sy_count y < 2 ^ 64"
    using assms server_count [of L srv "system_start w" es] by (simp add: system_start_def)
  with ok show "map_of (fl_entries (ss_in_flight (sy_state y))) key =
      (if guards_of key (map sg_guard (sy_running y)) = [] then None
       else Some (guards_of key (map sg_guard (sy_running y))))"
    by (simp add: system_ok_def flights_ok_def flights_of_def)
qed



text \<open>
  And no one else cancels it. When the registry fires the token of a running request, its
  dispatch was dropped, or a \<^verbatim>\<open>notifications/cancelled\<close> just arrived from the request's own
  caller, one the server can tell apart, naming an id of the request's text.
\<close>

theorem only_its_caller_cancels:
  assumes "y = run (server_step L srv) (system_start w) es" and "length es < 2 ^ 64"
    and "s \<in> set (sy_running y)" and "g_token (sg_guard s) \<notin> set (fl_fired (ss_in_flight (sy_state y)))"
    and "g_token (sg_guard s) \<in> set (fl_fired (ss_in_flight (sy_state (server_step L srv y e))))"
  shows "e = Abandoned s
    \<or> (\<exists>clock token notice ctx rid rid'. e = Arrives clock token notice ctx
        \<and> rq_id notice = None \<and> rq_method notice = ''notifications/cancelled''
        \<and> cancelled_request_id (rq_params notice) = Some rid'
        \<and> rq_id (sg_request s) = Some rid \<and> lib_id_text L rid' = lib_id_text L rid
        \<and> context_caller (registry_context ctx) = context_caller (registry_context (sg_ctx s))
        \<and> tells_callers_apart (context_caller (registry_context ctx)))"
proof (cases e)
  case (Arrives clock token notice ctx)
  have ok: "system_ok L y" by (rule reachable_lookup(1) [OF assms(1,2)])
  obtain rid where rid: "rq_id (sg_request s) = Some rid"
    "g_key (sg_guard s) = request_key_new (lib_id_text L) (registry_context (sg_ctx s)) rid"
    using ok assms(3) by (auto simp: system_ok_def)
  obtain st started where begin_eq: "dispatch_begin L srv clock token notice ctx (sy_state y) = (st, started)"
    by (cases "dispatch_begin L srv clock token notice ctx (sy_state y)")
  have fired: "g_token (sg_guard s) \<in> set (fl_fired (ss_in_flight st))"
    using assms(4,5) Arrives begin_eq by (auto split: dispatched.splits if_splits)
  have registered: "fl_fired fl' = fl_fired fl" if "register t c k i fl = (fl', g)" for t c k i fl fl' g
    using that by (auto simp: register_def Let_def split: option.splits)
  have silent: "rq_id notice = None" "ss_in_flight st = handle_notification L notice ctx (ss_in_flight (sy_state y))"
    using begin_eq fired assms(4) registered
    by (auto simp: dispatch_begin_def split: if_splits option.splits prod.splits)
  with fired assms(4) obtain rid' where rid': "rq_method notice = ''notifications/cancelled''"
    "cancelled_request_id (rq_params notice) = Some rid'"
    "g_token (sg_guard s) \<in>
       set (fl_fired (fst (cancel_request (lib_id_text L) (registry_context ctx) rid' (ss_in_flight (sy_state y)))))"
    by (auto simp: handle_notification_def split: if_splits option.splits)
  let ?key = "\<lparr>rk_caller = context_caller (registry_context ctx), rk_request = lib_id_text L rid'\<rparr>"
  have apart: "tells_callers_apart (context_caller (registry_context ctx))"
    using rid'(3) assms(4) by (auto simp: cancel_request_def request_key_new_eq split: if_splits)
  then have "g_token (sg_guard s) \<in> snd ` set (guards_of ?key (map sg_guard (sy_running y)))"
    using rid'(3) assms(4) reachable_lookup(2) [OF assms(1,2), of ?key]
    by (auto simp: cancel_request_def request_key_new_eq split: if_splits)
  then obtain s' where s': "s' \<in> set (sy_running y)" "g_key (sg_guard s') = Some ?key"
    "g_token (sg_guard s') = g_token (sg_guard s)"
    by (auto simp: guards_of_def)
  then have "s' = s"
    using ok assms(3) by (auto simp: system_ok_def distinct_map inj_on_def)
  with s'(2) rid have "context_caller (registry_context (sg_ctx s)) = context_caller (registry_context ctx)
      \<and> lib_id_text L rid = lib_id_text L rid'"
    by (auto simp: request_key_new_eq split: if_splits)
  with silent rid' rid apart Arrives show ?thesis by (cases clock) auto
next
  case (Turn clock s')
  with assms(4,5) show ?thesis
    by (auto simp: dispatch_poll_def guard_drop_fired split: if_splits prod.splits)
next
  case (Abandoned s')
  have "system_ok L y" by (rule reachable_lookup(1) [OF assms(1,2)])
  with Abandoned assms(3-5) show ?thesis
    by (auto simp: dispatch_drop_def guard_drop_fired Let_def system_ok_def distinct_map inj_on_def split: if_splits)
qed (use assms in simp)

subsection \<open>One run of it\<close>

definition demo_note :: rpc_request where
  "demo_note = notification ''notifications/cancelled'' (Some (JObject [(''requestId'', u64_json 1)]))"

definition demo_serving :: serving where
  "demo_serving =
     \<lparr>sg_request = demo_call, sg_ctx = with_cancellation 7 demo_caller,
      sg_guard = \<lparr>g_key = Some \<lparr>rk_caller = sample_key, rk_request = ''1''\<rparr>, g_serial = 0, g_token = 7\<rparr>,
      sg_parent = 0\<rparr>"

definition demo_events :: "(memory, nat) server_event list" where
  "demo_events = [Arrives (0, 0, 0) 7 demo_call demo_caller]"

lemma demo_context: "registry_context demo_caller =
    \<lparr>rc_identity = \<lparr>user_id = Some ''u2'', tenant_id = None\<rparr>, rc_caller = Some sample_key\<rparr>"
  by (simp add: registry_context_def demo_caller_def tool_context_default_def channel_caller_def connected_def
      sample_connection_def)

lemma demo_context_key: "context_caller (registry_context demo_caller) = sample_key"
  by (simp add: demo_context context_caller_def)

lemma demo_apart: "tells_callers_apart sample_key"
  by (simp add: sample_key_def tells_callers_apart_def)

lemma demo_system:
  "sy_running (run (server_step demo_libraries demo_server) (system_start demo_world) demo_events) = [demo_serving]"
  "fl_fired (ss_in_flight (sy_state (run (server_step demo_libraries demo_server) (system_start demo_world) demo_events))) = []"
proof -
  have key: "request_key_new (lib_id_text demo_libraries) (registry_context demo_caller) (u64_json 1)
      = Some \<lparr>rk_caller = sample_key, rk_request = ''1''\<rparr>"
    using demo_apart by (simp add: request_key_new_eq demo_context_key demo_libraries_def)
  have "dispatch_begin demo_libraries demo_server (0, 0, 0) 7 demo_call demo_caller (sy_state (system_start demo_world))
      = (\<lparr>ss_in_flight = \<lparr>fl_next_serial = 1, fl_entries = [(\<lparr>rk_caller = sample_key, rk_request = ''1''\<rparr>, [(0, 7)])],
            fl_fired = []\<rparr>, ss_world = demo_world\<rparr>, Serving demo_serving)"
    using key by (simp add: dispatch_begin_def register_def Let_def system_start_def in_flight_new_def
        demo_serving_def unwrap_or_def) (simp add: demo_caller_def tool_context_default_def)
  then show "sy_running (run (server_step demo_libraries demo_server) (system_start demo_world) demo_events) = [demo_serving]"
    "fl_fired (ss_in_flight (sy_state (run (server_step demo_libraries demo_server) (system_start demo_world) demo_events))) = []"
    by (simp_all add: demo_events_def) (simp_all add: system_start_def)
qed


lemma demo_note_fields:
  "rq_jsonrpc demo_note = JSONRPC_VERSION" "rq_id demo_note = None"
  "rq_method demo_note = ''notifications/cancelled''"
  "cancelled_request_id (rq_params demo_note) = Some (u64_json 1)"
  by (simp_all add: demo_note_def notification_def cancelled_request_id_def param_def json_get_def is_string_def
      is_number_def u64_json_def)

lemma demo_cancel_fires:
  "g_token (sg_guard demo_serving) \<in> set (fl_fired (ss_in_flight (sy_state (server_step demo_libraries demo_server
     (run (server_step demo_libraries demo_server) (system_start demo_world) demo_events)
     (Arrives (0, 0, 0) 8 demo_note demo_caller)))))"
proof -
  have "length demo_events < 2 ^ 64" by (simp add: demo_events_def)
  from reachable_lookup(2) [OF refl this, of demo_libraries demo_server demo_world
      "\<lparr>rk_caller = sample_key, rk_request = ''1''\<rparr>"]
  have "map_of (fl_entries (ss_in_flight (sy_state
      (run (server_step demo_libraries demo_server) (system_start demo_world) demo_events))))
     \<lparr>rk_caller = sample_key, rk_request = ''1''\<rparr> = Some [(0, 7)]"
    by (simp add: demo_system demo_serving_def guards_of_def)
  then show ?thesis
    using demo_apart
    by (simp add: dispatch_begin_def demo_note_fields handle_notification_def cancel_request_def request_key_new_eq
        demo_context_key) (simp add: demo_libraries_def demo_serving_def)
qed


lemma only_its_caller_cancels_witness:
  "\<exists>rid'. cancelled_request_id (rq_params demo_note) = Some rid'
     \<and> lib_id_text demo_libraries rid' = lib_id_text demo_libraries (u64_json 1)
     \<and> context_caller (registry_context demo_caller) = context_caller (registry_context (sg_ctx demo_serving))"
proof -
  have "length demo_events < 2 ^ 64" by (simp add: demo_events_def)
  moreover have "rq_id (sg_request demo_serving) = Some (u64_json 1)"
    by (simp add: demo_serving_def)
  ultimately show ?thesis
    using only_its_caller_cancels [OF refl _ _ _ demo_cancel_fires] demo_system by auto
qed

end
