(* ===== verification/Server_Auth.thy ===== *)
theory Server_Auth
  imports Dispatch Ip_Addr
begin

declare map_of_eq_Some_iff [simp del] Some_eq_map_of_iff [simp del]

text \<open>
  The shared bearer key and the startup posture (\<^verbatim>\<open>src/server/auth.rs\<close>), and the hook that
  holds the key over an MCP route (\<^verbatim>\<open>ApiKeyAuthHook\<close> in \<^verbatim>\<open>src/mcp/auth.rs\<close>). The environment of
  the process is an argument, \<open>env\<close>: what \<^verbatim>\<open>std::env::var\<close> answers for a name. A comparison in
  constant time is an equality.
\<close>

type_synonym environment = "string \<Rightarrow> string option"

definition bearer_credential :: "string \<Rightarrow> string option" where
  "bearer_credential header_value =
     (case split_once (CHR '' '') header_value of
        None \<Rightarrow> None
      | Some (scheme, rest) \<Rightarrow>
          if \<not> eq_ignore_ascii_case scheme ''Bearer'' then None
          else (let credential = dropWhile (\<lambda>c. c = CHR '' '') rest in
                if credential = [] then None else Some credential))"

definition configured_key :: "environment \<Rightarrow> string \<Rightarrow> string option" where
  "configured_key env env_var =
     Option.bind (env env_var) (\<lambda>key. if trim key = [] then None else Some (trim key))"

definition api_key_configured :: "environment \<Rightarrow> string \<Rightarrow> bool" where
  "api_key_configured env env_var \<longleftrightarrow> configured_key env env_var \<noteq> None"

text \<open>\<open>auth_header\<close> is the request's \<^verbatim>\<open>Authorization\<close> as text; a refusal is the message of the 401.\<close>

definition require_auth :: "environment \<Rightarrow> string \<Rightarrow> string option \<Rightarrow> (string, unit) result" where
  "require_auth env env_var auth_header =
     (case configured_key env env_var of
        None \<Rightarrow> Inr ()
      | Some expected \<Rightarrow>
          (case map_option bearer_credential auth_header of
             Some (Some token) \<Rightarrow> if token = expected then Inr () else Inl ''Invalid API key''
           | Some None \<Rightarrow> Inl ''Authorization header must use Bearer scheme''
           | None \<Rightarrow> Inl ''Missing Authorization header''))"

subsection \<open>The posture of a bind\<close>

datatype auth_mode = Enforced | LoopbackDev

record insecure_bind_error =
  ib_host :: string
  ib_gate :: "string option"

definition insecure_bind_new :: "string \<Rightarrow> insecure_bind_error" where
  "insecure_bind_new host = \<lparr>ib_host = host, ib_gate = None\<rparr>"

definition insecure_bind_text :: "insecure_bind_error \<Rightarrow> string" where
  "insecure_bind_text e =
     ''refusing to start: nothing authenticates requests while binding non-loopback host '' @ [CHR 0x27] @ ib_host e @ [CHR 0x27] @ ''. ''
     @ (case ib_gate e of
          Some var \<Rightarrow> ''Set '' @ var @ '' (every request must then carry it as a bearer token), or bind ''
             @ ''127.0.0.1 for local development.''
        | None \<Rightarrow> ''Arm this service'' @ [CHR 0x27] @ ''s gate, or bind 127.0.0.1 for local development.'')"

definition ip_is_loopback :: "ip_addr \<Rightarrow> bool" where
  "ip_is_loopback ip = (case ip of V4 a \<Rightarrow> v4_is_loopback a | V6 a \<Rightarrow> v6_is_loopback a)"

text \<open>\<^verbatim>\<open>str::strip_circumfix\<close>.\<close>

definition strip_circumfix :: "string \<Rightarrow> string \<Rightarrow> string \<Rightarrow> string option" where
  "strip_circumfix p q s = Option.bind (strip_prefix p s) (strip_suffix q)"

definition is_loopback_host :: "string \<Rightarrow> bool" where
  "is_loopback_host host \<longleftrightarrow>
     (let trimmed = trim host in
      eq_ignore_ascii_case trimmed ''localhost''
      \<or> (let stripped = unwrap_or (strip_circumfix ''['' '']'' trimmed) trimmed in
         case parse_ip stripped of None \<Rightarrow> False | Some ip \<Rightarrow> ip_is_loopback ip))"

definition resolve_startup_auth :: "string \<Rightarrow> bool \<Rightarrow> (insecure_bind_error, auth_mode) result" where
  "resolve_startup_auth host gated =
     (if gated then Inr Enforced
      else if is_loopback_host host then Inr LoopbackDev
      else Inl (insecure_bind_new host))"

definition startup_auth :: "environment \<Rightarrow> string \<Rightarrow> string \<Rightarrow> (insecure_bind_error, auth_mode) result" where
  "startup_auth env env_var host =
     (case resolve_startup_auth host (api_key_configured env env_var) of
        Inl refused \<Rightarrow> Inl (refused\<lparr>ib_gate := Some env_var\<rparr>)
      | Inr mode \<Rightarrow> Inr mode)"

subsection \<open>The key over an MCP route\<close>

definition API_KEY_AUTH_METHOD :: string where "API_KEY_AUTH_METHOD = ''api_key''"

record api_key_hook =
  ak_env_var :: string
  ak_challenge :: string

fun quote_escape :: "string \<Rightarrow> string" where
  "quote_escape [] = []"
| "quote_escape (c # cs) =
     (if c = CHR 0x5C \<or> c = CHR 0x22 then [CHR 0x5C, c] else [c]) @ quote_escape cs"

definition api_key_hook_new :: "string \<Rightarrow> string \<Rightarrow> api_key_hook" where
  "api_key_hook_new env_var realm =
     \<lparr>ak_env_var = env_var,
      ak_challenge = ''Bearer realm='' @ [CHR 0x22] @ quote_escape realm @ [CHR 0x22]\<rparr>"

text \<open>\<open>token\<close> is the fresh token of the context \<^verbatim>\<open>ToolContext::new()\<close> makes.\<close>

definition admit ::
  "environment \<Rightarrow> api_key_hook \<Rightarrow> token \<Rightarrow> string \<Rightarrow> rpc_request \<Rightarrow> tool_context option" where
  "admit env hook token presented request =
     (case configured_key env (ak_env_var hook) of
        None \<Rightarrow> None
      | Some expected \<Rightarrow>
          if expected = presented
          then Some ((tool_context_default token)\<lparr>tx_auth_method := Some API_KEY_AUTH_METHOD,
                       tx_request_id := rq_id request\<rparr>)
          else None)"

definition api_key_authenticate ::
  "environment \<Rightarrow> api_key_hook \<Rightarrow> token \<Rightarrow> rpc_request \<Rightarrow> 'w \<Rightarrow> 'w \<times> (auth_error, tool_context) result" where
  "api_key_authenticate env hook token request w =
     (w, case admit env hook token (unwrap_or (rq_auth request) []) request of
           None \<Rightarrow> Inl (Unauthorized (ak_challenge hook))
         | Some ctx \<Rightarrow> Inr ctx)"

subsection \<open>Properties\<close>

lemma configured_key_trimmed: "configured_key env v = Some key \<Longrightarrow> key \<noteq> []"
  by (cases "env v") (auto simp: configured_key_def split: if_splits)

text \<open>The header values that present a credential.\<close>

definition presents :: "string \<Rightarrow> string \<Rightarrow> bool" where
  "presents header_value credential \<longleftrightarrow>
     (\<exists>scheme spaces. header_value = scheme @ spaces @ credential \<and> eq_ignore_ascii_case scheme ''Bearer''
        \<and> CHR '' '' \<notin> set scheme \<and> spaces \<noteq> [] \<and> set spaces = {CHR '' ''}
        \<and> credential \<noteq> [] \<and> hd credential \<noteq> CHR '' '')"

lemma bearer_credential_iff: "bearer_credential v = Some credential \<longleftrightarrow> presents v credential"
proof
  assume "bearer_credential v = Some credential"
  then obtain scheme rest where v: "v = scheme @ CHR '' '' # rest" "CHR '' '' \<notin> set scheme"
    and s: "eq_ignore_ascii_case scheme ''Bearer''" and c: "credential = dropWhile (\<lambda>c. c = CHR '' '') rest" "credential \<noteq> []"
    by (auto simp: bearer_credential_def Let_def split_once_Some split: option.splits if_splits)
  define spaces where "spaces = CHR '' '' # takeWhile (\<lambda>c. c = CHR '' '') rest"
  have "rest = takeWhile (\<lambda>c. c = CHR '' '') rest @ credential" unfolding c(1) by (rule takeWhile_dropWhile_id [symmetric])
  then have "v = scheme @ spaces @ credential" unfolding spaces_def using v(1) by (metis append_Cons)
  moreover have "set spaces = {CHR '' ''}" "spaces \<noteq> []" unfolding spaces_def by (auto dest: set_takeWhileD)
  moreover have "hd credential \<noteq> CHR '' ''" using c hd_dropWhile [of "\<lambda>c. c = CHR '' ''" rest] by simp
  ultimately show "presents v credential"
    unfolding presents_def using s v(2) c(2) by (intro exI [of _ scheme] exI [of _ spaces] conjI)
next
  assume "presents v credential"
  then obtain scheme spaces where v: "v = scheme @ spaces @ credential" "eq_ignore_ascii_case scheme ''Bearer''"
    "CHR '' '' \<notin> set scheme" "spaces \<noteq> []" "set spaces = {CHR '' ''}" "credential \<noteq> []" "hd credential \<noteq> CHR '' ''"
    unfolding presents_def by blast
  then obtain more where spaces: "spaces = CHR '' '' # more" by (cases spaces) auto
  have "split_once (CHR '' '') v = Some (scheme, more @ credential)"
    using v(1,3) spaces by (simp add: split_once_Some)
  moreover have "dropWhile (\<lambda>c. c = CHR '' '') (more @ credential) = credential"
    using v(5-7) spaces by (cases credential) (auto simp: dropWhile_append)
  ultimately show "bearer_credential v = Some credential"
    using v(2,6) by (simp add: bearer_credential_def del: dropWhile_eq_Nil_conv)
qed

text \<open>
  A server that starts on a reachable interface is gated by its key. When the startup check
  lets a bind through, either the host is a loopback one or a key is configured, and while it is,
  the middleware passes exactly the requests whose \<^verbatim>\<open>Authorization\<close> presents that key under the
  bearer scheme; the check refuses exactly the reachable binds without a key, naming the host
  and the variable. The hook over an MCP route, by contrast, admits nobody without a key, and
  what it admits is never an admin, a user or a tenant.
\<close>

theorem reachable_bind_is_gated:
  "(startup_auth env var host = Inr mode \<longrightarrow>
      is_loopback_host host
      \<or> (\<exists>key. configured_key env var = Some key
           \<and> (\<forall>auth_header. require_auth env var auth_header = Inr () \<longleftrightarrow>
                (\<exists>v. auth_header = Some v \<and> presents v key))))
   \<and> (startup_auth env var host = Inl e \<longleftrightarrow>
        configured_key env var = None \<and> \<not> is_loopback_host host \<and> e = \<lparr>ib_host = host, ib_gate = Some var\<rparr>)
   \<and> (snd (api_key_authenticate env hook token request w) = Inr ctx \<longrightarrow>
        configured_key env (ak_env_var hook) \<noteq> None \<and> rq_auth request = configured_key env (ak_env_var hook)
        \<and> \<not> tx_is_admin ctx \<and> tx_user_id ctx = None \<and> tx_tenant_id ctx = None)"
proof -
  have "require_auth env var auth_header = Inr () \<longleftrightarrow> (\<exists>v. auth_header = Some v \<and> presents v key)"
    if "configured_key env var = Some key" for key auth_header
    using that by (auto simp: require_auth_def bearer_credential_iff [symmetric] split: option.split)
  then have "startup_auth env var host = Inr mode \<longrightarrow>
      is_loopback_host host
      \<or> (\<exists>key. configured_key env var = Some key
           \<and> (\<forall>auth_header. require_auth env var auth_header = Inr () \<longleftrightarrow>
                (\<exists>v. auth_header = Some v \<and> presents v key)))"
    by (auto simp: startup_auth_def resolve_startup_auth_def api_key_configured_def split: if_splits)
  moreover have "startup_auth env var host = Inl e \<longleftrightarrow>
        configured_key env var = None \<and> \<not> is_loopback_host host \<and> e = \<lparr>ib_host = host, ib_gate = Some var\<rparr>"
    by (auto simp: startup_auth_def resolve_startup_auth_def api_key_configured_def insecure_bind_new_def)
  moreover have "snd (api_key_authenticate env hook token request w) = Inr ctx \<longrightarrow>
        configured_key env (ak_env_var hook) \<noteq> None \<and> rq_auth request = configured_key env (ak_env_var hook)
        \<and> \<not> tx_is_admin ctx \<and> tx_user_id ctx = None \<and> tx_tenant_id ctx = None"
    using configured_key_trimmed [of env "ak_env_var hook"]
    by (auto simp: api_key_authenticate_def admit_def tool_context_default_def unwrap_or_def
        split: option.splits if_splits)
  ultimately show ?thesis by blast
qed

definition sample_environment :: environment where
  "sample_environment name = (if name = ''KEY'' then Some ''s3cret'' else None)"

lemma reachable_bind_is_gated_witness:
  "require_auth sample_environment ''KEY'' (Some ''Basic s3cret'') \<noteq> Inr ()"
proof -
  have start: "startup_auth sample_environment ''KEY'' ''0.0.0.0'' = Inr Enforced" by code_simp
  have host: "\<not> is_loopback_host ''0.0.0.0''" by code_simp
  have "bearer_credential ''Basic s3cret'' = None" by code_simp
  then have absent: "\<not> presents ''Basic s3cret'' key" for key by (simp add: bearer_credential_iff [symmetric])
  show ?thesis
    using conjunct1 [OF reachable_bind_is_gated, THEN mp, OF start] host absent by blast
qed

end
