(* ===== verification/Http_Gates.thy ===== *)
theory Http_Gates
  imports Mirror Server_Auth
begin

declare map_of_eq_Some_iff [simp del] Some_eq_map_of_iff [simp del]

text \<open>
  The gates of the Streamable HTTP endpoint (\<^verbatim>\<open>src/mcp/transport/http.rs\<close>): origin and host lists,
  media types, the readings of the request's headers, and what of them a handler may hold.

  A request's headers are the list of their (lower-case name, value) pairs, and \<open>to_str\<close> is
  \<^verbatim>\<open>HeaderValue::to_str\<close>, as in \<^theory_text>\<open>Mirror\<close>. The authority of the request's target is an argument, the
  text the \<^verbatim>\<open>http\<close> package splits out of the URI. The weights of an \<^verbatim>\<open>Accept\<close> header are machine
  floating-point numbers, known through the operations of \<open>weights\<close>.
\<close>

definition header_get :: "header_map \<Rightarrow> string \<Rightarrow> string option" where
  "header_get headers name = (case get_all headers name of [] \<Rightarrow> None | v # _ \<Rightarrow> Some v)"

definition header_text :: "(string \<Rightarrow> string option) \<Rightarrow> header_map \<Rightarrow> string \<Rightarrow> string option" where
  "header_text to_str headers name = Option.bind (header_get headers name) to_str"

subsection \<open>Media types\<close>

definition APPLICATION_JSON :: string where "APPLICATION_JSON = ''application/json''"
definition TEXT_EVENT_STREAM :: string where "TEXT_EVENT_STREAM = ''text/event-stream''"

definition is_json_content_type :: "(string \<Rightarrow> string option) \<Rightarrow> header_map \<Rightarrow> bool" where
  "is_json_content_type to_str headers =
     (case header_text to_str headers ''content-type'' of
        None \<Rightarrow> False
      | Some v \<Rightarrow> eq_ignore_ascii_case (trim (hd (split_on (CHR '';'') v))) APPLICATION_JSON)"

record 'q weights =
  wt_zero :: 'q
  wt_one :: 'q
  wt_read :: "string \<Rightarrow> 'q option"
  wt_max :: "'q \<Rightarrow> 'q \<Rightarrow> 'q"
  wt_greater :: "'q \<Rightarrow> 'q \<Rightarrow> bool"

record 'q media_range =
  mr_media :: string
  mr_quality :: 'q

definition covers :: "'q media_range \<Rightarrow> string \<Rightarrow> bool" where
  "covers rng media \<longleftrightarrow>
     mr_media rng = ''*/*'' \<or> eq_ignore_ascii_case (mr_media rng) media
     \<or> (case (split_once (CHR ''/'') (mr_media rng), split_once (CHR ''/'') media) of
          (Some (range_type, sub), Some (wanted_type, _)) \<Rightarrow>
            sub = ''*'' \<and> eq_ignore_ascii_case range_type wanted_type
        | _ \<Rightarrow> False)"

definition specificity :: "'q media_range \<Rightarrow> nat" where
  "specificity rng =
     (case split_once (CHR ''/'') (mr_media rng) of
        Some (t, sub) \<Rightarrow> if t = ''*'' \<and> sub = ''*'' then 0 else if sub = ''*'' then 1 else 2
      | None \<Rightarrow> 2)"

text \<open>One member of an \<^verbatim>\<open>Accept\<close> list: its media, and the first parameter named \<open>q\<close>.\<close>

definition range_of_text :: "'q weights \<Rightarrow> string \<Rightarrow> 'q media_range option" where
  "range_of_text W text =
     (case split_on (CHR '';'') text of
        [] \<Rightarrow> None
      | media # parts \<Rightarrow>
          if trim media = [] then None
          else Some
            \<lparr>mr_media = trim media,
             mr_quality =
               (case List.find (\<lambda>(name, _). eq_ignore_ascii_case (trim name) ''q'')
                       (List.map_filter (\<lambda>p. split_once (CHR ''='') (trim p)) parts) of
                  None \<Rightarrow> wt_one W
                | Some (_, q) \<Rightarrow> unwrap_or (wt_read W (trim q)) (wt_one W))\<rparr>)"

definition accept_ranges ::
  "'q weights \<Rightarrow> (string \<Rightarrow> string option) \<Rightarrow> header_map \<Rightarrow> 'q media_range list" where
  "accept_ranges W to_str headers =
     (if get_all headers ''accept'' = [] then [\<lparr>mr_media = ''*/*'', mr_quality = wt_one W\<rparr>]
      else List.map_filter (range_of_text W)
             (concat (map (split_on (CHR '','')) (List.map_filter to_str (get_all headers ''accept'')))))"

definition best_range ::
  "'q weights \<Rightarrow> (nat \<times> 'q) option \<Rightarrow> 'q media_range \<Rightarrow> (nat \<times> 'q) option" where
  "best_range W best rng =
     (let candidate = (specificity rng, mr_quality rng) in
      Some (case best of
              Some held \<Rightarrow>
                if fst held > fst candidate then held
                else if fst held = fst candidate then (fst held, wt_max W (snd held) (snd candidate))
                else candidate
            | None \<Rightarrow> candidate))"

definition accept_weight :: "'q weights \<Rightarrow> 'q media_range list \<Rightarrow> string \<Rightarrow> 'q" where
  "accept_weight W ranges media =
     (case foldl (best_range W) None (filter (\<lambda>rng. covers rng media) ranges) of
        None \<Rightarrow> wt_zero W
      | Some (_, quality) \<Rightarrow> quality)"

record rendering =
  single_as_event :: bool
  may_stream :: bool

definition negotiate :: "'q weights \<Rightarrow> (string \<Rightarrow> string option) \<Rightarrow> header_map \<Rightarrow> rendering option" where
  "negotiate W to_str headers =
     (let ranges = accept_ranges W to_str headers;
          json = accept_weight W ranges APPLICATION_JSON;
          event_stream = accept_weight W ranges TEXT_EVENT_STREAM in
      if wt_greater W json (wt_zero W) \<or> wt_greater W event_stream (wt_zero W)
      then Some \<lparr>single_as_event = wt_greater W event_stream json,
                 may_stream = wt_greater W event_stream (wt_zero W)\<rparr>
      else None)"

subsection \<open>Origin and host\<close>

definition is_port :: "string \<Rightarrow> bool" where
  "is_port port \<longleftrightarrow> list_all is_ascii_digit port \<and> port \<noteq> []
     \<and> foldl (\<lambda>n c. 10 * n + (byte c - 48)) 0 port \<le> 65535"

definition authority_breaker :: "int \<Rightarrow> bool" where
  "authority_breaker c \<longleftrightarrow> is_whitespace c \<or> c = 47 \<or> c = 64 \<or> c = 63 \<or> c = 35"

definition split_authority :: "string \<Rightarrow> (string \<times> string option) option" where
  "split_authority authority =
     (if authority = [] \<or> list_ex authority_breaker (chars authority) then None
      else
        Option.bind
          (case strip_prefix ''['' authority of
             Some bracketed \<Rightarrow>
               Option.bind (split_once (CHR '']'') bracketed) (\<lambda>(literal, rest).
                 if rest = [] then Some (literal, None)
                 else map_option (\<lambda>port. (literal, Some port)) (strip_prefix '':'' rest))
           | None \<Rightarrow>
               Some (case split_once (CHR '':'') authority of
                       None \<Rightarrow> (authority, None)
                     | Some (host, port) \<Rightarrow> (host, Some port)))
          (\<lambda>(host, port).
             if (case port of None \<Rightarrow> True | Some p \<Rightarrow> is_port p) then Some (host, port) else None))"

text \<open>\<^verbatim>\<open>split_once\<close> at the text \<open>"://"\<close>.\<close>

fun split_scheme :: "string \<Rightarrow> (string \<times> string) option" where
  "split_scheme [] = None"
| "split_scheme (c # cs) =
     (case strip_prefix ''://'' (c # cs) of
        Some rest \<Rightarrow> Some ([], rest)
      | None \<Rightarrow> map_option (\<lambda>(a, b). (c # a, b)) (split_scheme cs))"

definition is_loopback_origin :: "string \<Rightarrow> bool" where
  "is_loopback_origin origin =
     (case split_scheme origin of
        None \<Rightarrow> False
      | Some (scheme, authority) \<Rightarrow>
          (eq_ignore_ascii_case scheme ''http'' \<or> eq_ignore_ascii_case scheme ''https'')
          \<and> (case split_authority authority of
               None \<Rightarrow> False
             | Some (host, _) \<Rightarrow> is_loopback_host host))"

definition is_origin_allowed :: "string option \<Rightarrow> string list \<Rightarrow> bool" where
  "is_origin_allowed origin allowed =
     (case origin of
        None \<Rightarrow> True
      | Some o' \<Rightarrow>
          if allowed = [] then is_loopback_origin o'
          else list_ex (\<lambda>a. a = ''*'' \<or> a = o') allowed)"

definition origin_allowed :: "(string \<Rightarrow> string option) \<Rightarrow> header_map \<Rightarrow> string list \<Rightarrow> bool" where
  "origin_allowed to_str headers allowed =
     is_origin_allowed (map_option (\<lambda>v. unwrap_or (to_str v) []) (header_get headers ''origin'')) allowed"

definition is_host_allowed :: "string option \<Rightarrow> string list \<Rightarrow> bool" where
  "is_host_allowed authority allowed =
     (case Option.bind authority (\<lambda>a. split_authority (trim a)) of
        None \<Rightarrow> False
      | Some (host, port) \<Rightarrow>
          is_loopback_host (unwrap_or (strip_suffix ''.'' host) host)
          \<or> list_ex (\<lambda>entry.
              case split_authority (trim entry) of
                None \<Rightarrow> False
              | Some (allowed_host, allowed_port) \<Rightarrow>
                  eq_ignore_ascii_case allowed_host host \<and> (allowed_port = None \<or> allowed_port = port))
              allowed)"

text \<open>A refusal of the authority: its status and plain text.\<close>

definition HOST_NOT_ALLOWED :: "nat \<times> string" where "HOST_NOT_ALLOWED = (403, ''Host not allowed'')"

definition request_authority ::
  "(string \<Rightarrow> string option) \<Rightarrow> header_map \<Rightarrow> string option \<Rightarrow> (nat \<times> string, string option) result" where
  "request_authority to_str headers target =
     (case get_all headers ''host'' of
        [] \<Rightarrow> Inr target
      | [v] \<Rightarrow>
          (case to_str v of
             None \<Rightarrow> Inl HOST_NOT_ALLOWED
           | Some host \<Rightarrow>
               (case target of
                  Some t \<Rightarrow>
                    if eq_ignore_ascii_case (trim host) t then Inr (Some host)
                    else Inl (400, ''Host does not match the request target'')
                | None \<Rightarrow> Inr (Some host)))
      | _ \<Rightarrow> Inl HOST_NOT_ALLOWED)"

definition check_host ::
  "(string \<Rightarrow> string option) \<Rightarrow> header_map \<Rightarrow> string option \<Rightarrow> string list \<Rightarrow> (nat \<times> string, unit) result" where
  "check_host to_str headers target allowed =
     result_bind (request_authority to_str headers target) (\<lambda>authority.
       if is_host_allowed authority allowed then Inr () else Inl HOST_NOT_ALLOWED)"

subsection \<open>What the request carries\<close>

definition bearer_token :: "(string \<Rightarrow> string option) \<Rightarrow> header_map \<Rightarrow> string option" where
  "bearer_token to_str headers = Option.bind (header_text to_str headers ''authorization'') bearer_credential"

definition WITHHELD_HEADERS :: "string list" where
  "WITHHELD_HEADERS = [''authorization'', ''cookie'', ''proxy-authorization'', ''x-api-key'']"

definition CREDENTIAL_NAME_FRAGMENTS :: "string list" where
  "CREDENTIAL_NAME_FRAGMENTS = [''token'', ''secret'', ''api-key'']"

text \<open>\<^verbatim>\<open>str::contains\<close>.\<close>

fun contains_text :: "string \<Rightarrow> string \<Rightarrow> bool" where
  "contains_text [] part \<longleftrightarrow> part = []"
| "contains_text (c # cs) part \<longleftrightarrow> strip_prefix part (c # cs) \<noteq> None \<or> contains_text cs part"

definition is_withheld :: "string \<Rightarrow> bool" where
  "is_withheld name \<longleftrightarrow>
     name \<in> set WITHHELD_HEADERS
     \<or> \<not> is_param_header name \<and> list_ex (contains_text name) CREDENTIAL_NAME_FRAGMENTS"

text \<open>The pairs are collected in order, a later value replacing an earlier one.\<close>

definition forwarded_headers :: "(string \<Rightarrow> string option) \<Rightarrow> header_map \<Rightarrow> json_map option" where
  "forwarded_headers to_str headers =
     (let forwarded = foldl (\<lambda>m (name, v). AList.update name v m) []
            (List.map_filter
              (\<lambda>(name, v). if is_withheld name then None
                 else map_option (\<lambda>text. (name, JString text)) (to_str v)) headers) in
      if forwarded = [] then None else Some forwarded)"

definition protocol_version_header ::
  "(string \<Rightarrow> string option) \<Rightarrow> header_map \<Rightarrow> (string, string option) result" where
  "protocol_version_header to_str headers =
     (case get_all headers PROTOCOL_VERSION_HEADER of
        [] \<Rightarrow> Inr None
      | [v] \<Rightarrow>
          (case to_str v of
             Some version \<Rightarrow> Inr (Some (trim version))
           | None \<Rightarrow>
               Inl (''Header mismatch: MCP-Protocol-Version contains characters not permitted in an HTTP ''
                    @ ''field value''))
      | _ \<Rightarrow> Inl ''Header mismatch: MCP-Protocol-Version is repeated'')"

subsection \<open>The weight of a rendering\<close>

text \<open>The ranges that decide a media's weight: those covering it that no covering range is more
  specific than.\<close>

definition deciding_ranges :: "'q media_range list \<Rightarrow> string \<Rightarrow> 'q media_range list" where
  "deciding_ranges ranges media =
     filter (\<lambda>rng. covers rng media
       \<and> (\<forall>other \<in> set ranges. covers other media \<longrightarrow> specificity other \<le> specificity rng)) ranges"

definition joined_weight :: "'q weights \<Rightarrow> 'q media_range list \<Rightarrow> 'q option" where
  "joined_weight W ranges =
     (case map mr_quality ranges of [] \<Rightarrow> None | q # qs \<Rightarrow> Some (foldl (wt_max W) q qs))"

lemma joined_weight_Nil [simp]: "joined_weight W [] = None"
  by (simp add: joined_weight_def)

lemma joined_weight_None [simp]: "joined_weight W xs = None \<longleftrightarrow> xs = []"
  by (cases xs) (simp_all add: joined_weight_def)

lemma joined_weight_snoc:
  "joined_weight W (xs @ [x]) =
     Some (case joined_weight W xs of None \<Rightarrow> mr_quality x | Some q \<Rightarrow> wt_max W q (mr_quality x))"
  by (cases xs) (simp_all add: joined_weight_def)

lemma best_range_fold_None [simp]: "foldl (best_range W) None ranges = None \<longleftrightarrow> ranges = []"
  by (cases ranges rule: rev_cases) (simp_all add: best_range_def Let_def)

lemma best_range_fold:
  "foldl (best_range W) None ranges = Some (s, q)
   \<Longrightarrow> (\<forall>rng \<in> set ranges. specificity rng \<le> s)
       \<and> joined_weight W (filter (\<lambda>rng. specificity rng = s) ranges) = Some q"
proof (induction ranges arbitrary: s q rule: rev_induct)
  case Nil
  then show ?case by simp
next
  case (snoc x xs)
  show ?case
  proof (cases "foldl (best_range W) None xs")
    case None
    then show ?thesis using snoc.prems by (simp add: best_range_def Let_def joined_weight_def)
  next
    case (Some held)
    obtain s0 q0 where held: "held = (s0, q0)" by (cases held)
    have IH: "\<forall>rng \<in> set xs. specificity rng \<le> s0"
      "joined_weight W (filter (\<lambda>rng. specificity rng = s0) xs) = Some q0"
      using snoc.IH [of s0 q0] Some held by auto
    have step: "best_range W (Some (s0, q0)) x = Some (s, q)" using snoc.prems Some held by simp
    then have new: "(if s0 > specificity x then (s0, q0)
         else if s0 = specificity x then (s0, wt_max W q0 (mr_quality x))
         else (specificity x, mr_quality x)) = (s, q)"
      by (simp add: best_range_def Let_def split: if_splits)
    have "filter (\<lambda>rng. specificity rng = specificity x) xs = []" if "s0 < specificity x"
      using IH(1) that by (fastforce simp: filter_empty_conv)
    then show ?thesis
      using new IH by (auto simp: joined_weight_snoc split: if_splits)
  qed
qed

text \<open>
  \<^verbatim>\<open>Accept\<close> weighs a media type by the most specific ranges that cover it, and by the
  highest of their weights, whatever order the header lists them in: an exact type overrides
  \<open>type/*\<close>, which overrides \<open>*/*\<close>; a type nothing covers weighs nothing. The endpoint answers
  when one of its two media types weighs more than nothing, streams only to a client that
  accepts an event stream, and sends a single event only when it outweighs JSON.
\<close>

theorem most_specific_range_decides:
  "accept_weight W ranges media =
     unwrap_or (joined_weight W (deciding_ranges ranges media)) (wt_zero W)
   \<and> (let json = accept_weight W (accept_ranges W to_str headers) ''application/json'';
          stream = accept_weight W (accept_ranges W to_str headers) ''text/event-stream'' in
      negotiate W to_str headers =
        (if wt_greater W json (wt_zero W) \<or> wt_greater W stream (wt_zero W)
         then Some \<lparr>single_as_event = wt_greater W stream json, may_stream = wt_greater W stream (wt_zero W)\<rparr>
         else None))"
proof -
  have "accept_weight W ranges media =
     unwrap_or (joined_weight W (deciding_ranges ranges media)) (wt_zero W)"
  proof (cases "foldl (best_range W) None (filter (\<lambda>rng. covers rng media) ranges)")
    case None
    then have "deciding_ranges ranges media = []"
      unfolding best_range_fold_None by (auto simp: deciding_ranges_def filter_empty_conv)
    then show ?thesis using None by (simp add: accept_weight_def)
  next
    case (Some best)
    obtain s q where best: "best = (s, q)" by (cases best)
    let ?at = "filter (\<lambda>rng. specificity rng = s) (filter (\<lambda>rng. covers rng media) ranges)"
    have fold: "\<forall>rng \<in> set ranges. covers rng media \<longrightarrow> specificity rng \<le> s" "joined_weight W ?at = Some q"
      using best_range_fold [OF Some [unfolded best]] by simp_all
    then have "?at \<noteq> []" by auto
    then obtain top where "top \<in> set ranges" "covers top media" "specificity top = s"
      by (auto simp: filter_empty_conv)
    then have "deciding_ranges ranges media = ?at"
      using fold(1) unfolding deciding_ranges_def filter_filter by (intro filter_cong) (auto intro: le_antisym)
    then show ?thesis using Some best fold(2) by (simp add: accept_weight_def)
  qed
  then show ?thesis
    by (simp add: negotiate_def Let_def APPLICATION_JSON_def TEXT_EVENT_STREAM_def)
qed

subsection \<open>The authority a request may name\<close>

text \<open>The texts that are exactly \<open>host[:port]\<close>, an IPv6 literal bracketed.\<close>

definition port_text :: "string option \<Rightarrow> string" where
  "port_text port = (case port of None \<Rightarrow> [] | Some p \<Rightarrow> '':'' @ p)"

definition names_authority :: "string \<Rightarrow> string \<Rightarrow> string option \<Rightarrow> bool" where
  "names_authority authority host port \<longleftrightarrow>
     authority \<noteq> [] \<and> \<not> list_ex authority_breaker (chars authority)
     \<and> (\<forall>p. port = Some p \<longrightarrow> is_port p)
     \<and> (authority = ''['' @ host @ '']'' @ port_text port \<and> CHR '']'' \<notin> set host
        \<or> authority = host @ port_text port \<and> strip_prefix ''['' authority = None \<and> CHR '':'' \<notin> set host)"

lemma split_once_absent: "split_once c s = None \<longleftrightarrow> c \<notin> set s"
  by (simp add: split_once_def)

lemma first_cut_unique:
  fixes a a' b b' :: string
  shows "c \<notin> set a \<Longrightarrow> c \<notin> set a' \<Longrightarrow> a @ c # b = a' @ c # b' \<longleftrightarrow> a = a' \<and> b = b'"
  using split_once_Some [of c "a @ c # b" a b] split_once_Some [of c "a' @ c # b'" a' b']
  by (metis Pair_inject option.inject)

lemma split_authority_iff: "split_authority authority = Some (host, port) \<longleftrightarrow> names_authority authority host port"
proof (cases "strip_prefix ''['' authority")
  case None
  then have plain: "\<not> authority = ''['' @ x" for x using strip_prefix_Some [of "''[''" authority] by auto
  show ?thesis
  proof (cases "split_once (CHR '':'') authority")
    case absent: None
    then have "CHR '':'' \<notin> set authority" by (simp add: split_once_absent)
    then show ?thesis using None plain absent
      by (auto simp: split_authority_def names_authority_def port_text_def split: option.splits if_splits)
  next
    case (Some parts)
    then obtain a b where parts: "parts = (a, b)" "authority = a @ CHR '':'' # b" "CHR '':'' \<notin> set a"
      by (cases parts) (auto simp: split_once_Some)
    show ?thesis using None Some plain parts
      by (auto simp: split_authority_def names_authority_def port_text_def split: option.splits if_splits)
        (use first_cut_unique [of "CHR '':''" a] in blast)+
  qed
next
  case (Some bracketed)
  then have a: "authority = CHR ''['' # bracketed" by (simp add: strip_prefix_Some)
  have opened: "strip_prefix ''['' (CHR ''['' # bracketed) = Some bracketed" by (simp add: strip_prefix_def)
  show ?thesis
  proof (cases "split_once (CHR '']'') bracketed")
    case None
    then have "CHR '']'' \<notin> set bracketed" by (simp add: split_once_absent)
    then show ?thesis using None
      by (auto simp: a opened split_authority_def names_authority_def)
  next
    case cut: (Some parts)
    then obtain literal rest where parts: "parts = (literal, rest)" by (cases parts)
    have here: "bracketed = host @ CHR '']'' # more' \<and> CHR '']'' \<notin> set host \<longleftrightarrow> literal = host \<and> rest = more'" for more'
      using cut parts split_once_Some [of "CHR '']''" bracketed host more'] by auto
    have "names_authority authority host port \<longleftrightarrow>
        \<not> list_ex authority_breaker (chars authority) \<and> (\<forall>p. port = Some p \<longrightarrow> is_port p)
        \<and> literal = host \<and> rest = port_text port"
      using here [of "port_text port"] opened by (auto simp: a names_authority_def)
    then show ?thesis
      using cut opened by (cases rest; cases port)
        (auto simp: a parts split_authority_def port_text_def strip_prefix_def)
  qed
qed

lemma split_scheme_Some: "split_scheme s = Some (a, b) \<Longrightarrow> s = a @ ''://'' @ b"
proof (induction s arbitrary: a)
  case Nil
  then show ?case by simp
next
  case (Cons c cs)
  show ?case
  proof (cases "strip_prefix ''://'' (c # cs)")
    case None
    then show ?thesis using Cons by auto
  next
    case (Some rest)
    then have "a = []" "b = rest" using Cons.prems by simp_all
    moreover have "c # cs = ''://'' @ rest" using Some unfolding strip_prefix_Some .
    ultimately show ?thesis by simp
  qed
qed

text \<open>What a host list admits: a loopback authority, or one an entry names.\<close>

definition host_listed :: "string list \<Rightarrow> string \<Rightarrow> bool" where
  "host_listed allowed authority \<longleftrightarrow>
     (\<exists>host port. names_authority (trim authority) host port
        \<and> (is_loopback_host (unwrap_or (strip_suffix ''.'' host) host)
           \<or> (\<exists>entry \<in> set allowed. \<exists>h p. names_authority (trim entry) h p
                \<and> eq_ignore_ascii_case h host \<and> (p = None \<or> p = port))))"

lemma is_host_allowed_iff: "is_host_allowed (Some authority) allowed \<longleftrightarrow> host_listed allowed authority"
proof -
  have "list_ex (\<lambda>entry.
          case split_authority (trim entry) of
            None \<Rightarrow> False
          | Some (h, p) \<Rightarrow> eq_ignore_ascii_case h host \<and> (p = None \<or> p = port)) allowed
        \<longleftrightarrow> (\<exists>entry \<in> set allowed. \<exists>h p. names_authority (trim entry) h p
                \<and> eq_ignore_ascii_case h host \<and> (p = None \<or> p = port))" for host port
    by (fastforce simp: list_ex_iff split_authority_iff [symmetric] split: option.splits)
  then show ?thesis
    by (fastforce simp: is_host_allowed_def host_listed_def split_authority_iff [symmetric] split: option.splits)
qed

text \<open>
  What DNS rebinding can reach. Under an empty origin list a request that names an origin
  passes only with \<open>http(s)://\<close> and an authority that is a loopback host with an optional port
  and nothing else. The host gate passes exactly the requests naming one authority, a
  single readable \<^verbatim>\<open>Host\<close> agreeing with the request's target if it has one (else the target
  alone), that is loopback or that an entry of the list names.
\<close>

theorem rebound_names_are_refused:
  "(is_origin_allowed (Some origin) [] \<longrightarrow>
      (\<exists>scheme authority host port.
         origin = scheme @ ''://'' @ authority
         \<and> to_ascii_lowercase scheme \<in> {''http'', ''https''}
         \<and> names_authority authority host port \<and> is_loopback_host host))
   \<and> (check_host to_str headers target allowed = Inr () \<longleftrightarrow>
        (\<exists>authority.
           ((\<exists>v. get_all headers ''host'' = [v] \<and> to_str v = Some authority
                 \<and> (\<forall>t. target = Some t \<longrightarrow> eq_ignore_ascii_case (trim authority) t))
            \<or> get_all headers ''host'' = [] \<and> target = Some authority)
           \<and> host_listed allowed authority))"
proof (rule conjI)
  have lower: "eq_ignore_ascii_case scheme name \<longleftrightarrow> to_ascii_lowercase scheme = to_ascii_lowercase name" for scheme name
    by (simp add: eq_ignore_ascii_case_def)
  have names: "to_ascii_lowercase ''http'' = ''http''" "to_ascii_lowercase ''https'' = ''https''" by code_simp+
  show "is_origin_allowed (Some origin) [] \<longrightarrow>
      (\<exists>scheme authority host port.
         origin = scheme @ ''://'' @ authority
         \<and> to_ascii_lowercase scheme \<in> {''http'', ''https''}
         \<and> names_authority authority host port \<and> is_loopback_host host)"
  proof
    assume passes: "is_origin_allowed (Some origin) []"
    then obtain scheme authority where cut: "split_scheme origin = Some (scheme, authority)"
      by (auto simp: is_origin_allowed_def is_loopback_origin_def split: option.splits)
    then obtain host port where "split_authority authority = Some (host, port)" "is_loopback_host host"
      and "to_ascii_lowercase scheme \<in> {''http'', ''https''}"
      using passes by (auto simp: is_origin_allowed_def is_loopback_origin_def lower names split: option.splits)
    then show "\<exists>scheme authority host port.
         origin = scheme @ ''://'' @ authority
         \<and> to_ascii_lowercase scheme \<in> {''http'', ''https''}
         \<and> names_authority authority host port \<and> is_loopback_host host"
      using split_scheme_Some [OF cut] unfolding split_authority_iff by blast
  qed
next
  have none: "\<not> is_host_allowed None allowed" by (simp add: is_host_allowed_def)
  show "check_host to_str headers target allowed = Inr () \<longleftrightarrow>
        (\<exists>authority.
           ((\<exists>v. get_all headers ''host'' = [v] \<and> to_str v = Some authority
                 \<and> (\<forall>t. target = Some t \<longrightarrow> eq_ignore_ascii_case (trim authority) t))
            \<or> get_all headers ''host'' = [] \<and> target = Some authority)
           \<and> host_listed allowed authority)"
    unfolding check_host_def request_authority_def
    by (cases target)
      (auto simp: none is_host_allowed_iff HOST_NOT_ALLOWED_def split: list.splits option.splits)
qed

lemma rebound_names_are_refused_witness:
  "\<exists>host port. names_authority ''localhost:3000'' host port \<and> is_loopback_host host"
proof -
  have "is_origin_allowed (Some ''http://localhost:3000'') []" by code_simp
  then obtain scheme authority host port where o': "''http://localhost:3000'' = scheme @ ''://'' @ authority"
    and l: "to_ascii_lowercase scheme \<in> {''http'', ''https''}"
    and a: "names_authority authority host port" "is_loopback_host host"
    using conjunct1 [OF rebound_names_are_refused, THEN mp] by blast
  have "length scheme = length (to_ascii_lowercase scheme)" by (simp add: to_ascii_lowercase_def)
  then have "length scheme = 4 \<or> length scheme = 5" using l by auto
  then have "authority = ''localhost:3000''"
    using o' by (auto simp: length_Suc_conv eval_nat_numeral)
  then show ?thesis using a by blast
qed

subsection \<open>The headers a handler holds\<close>

lemma contains_text_iff: "contains_text s part \<longleftrightarrow> (\<exists>a b. s = a @ part @ b)"
proof (induction s)
  case Nil
  then show ?case by auto
next
  case (Cons c cs)
  have "strip_prefix part (c # cs) \<noteq> None \<longleftrightarrow> (\<exists>b. c # cs = part @ b)" by (auto simp: strip_prefix_Some)
  moreover have "(\<exists>a b. c # cs = a @ part @ b) \<longleftrightarrow> (\<exists>b. c # cs = part @ b) \<or> (\<exists>a b. cs = a @ part @ b)"
    by (metis append_Cons append_Nil list.exhaust list.inject)
  ultimately show ?case using Cons.IH by simp
qed

text \<open>The header's last readable value.\<close>

definition last_text :: "(string \<Rightarrow> string option) \<Rightarrow> header_map \<Rightarrow> string \<Rightarrow> string option" where
  "last_text to_str headers name =
     (case rev (List.map_filter to_str (get_all headers name)) of [] \<Rightarrow> None | t # _ \<Rightarrow> Some t)"

lemma last_text_snoc:
  "last_text to_str (headers @ [(name, v)]) k =
     (if k = name \<and> to_str v \<noteq> None then to_str v else last_text to_str headers k)"
  by (auto simp: last_text_def get_all_def map_filter_def)

text \<open>
  Credentials never reach a handler. What \<^verbatim>\<open>JsonRpcRequest::headers\<close> carries of a request is, for
  every header name, the last value that reads as text, unless the name is a withheld one:
  \<^verbatim>\<open>Authorization\<close>, \<^verbatim>\<open>Cookie\<close>, \<^verbatim>\<open>Proxy-Authorization\<close>, \<^verbatim>\<open>X-Api-Key\<close>, or any name with \<open>token\<close>, \<open>secret\<close> or
  \<open>api-key\<close> somewhere in it that is not an \<^verbatim>\<open>Mcp-Param-*\<close> mirror.
\<close>

theorem credentials_are_withheld:
  "map_of (unwrap_or (forwarded_headers to_str headers) []) name =
     (if name \<in> {''authorization'', ''cookie'', ''proxy-authorization'', ''x-api-key''}
         \<or> (\<not> is_param_header name
            \<and> (\<exists>fragment \<in> {''token'', ''secret'', ''api-key''}. \<exists>a b. name = a @ fragment @ b))
      then None
      else map_option JString (last_text to_str headers name))"
proof -
  let ?pick = "\<lambda>(name, v). if is_withheld name then None else map_option (\<lambda>text. (name, JString text)) (to_str v)"
  have withheld: "is_withheld name \<longleftrightarrow>
      name \<in> {''authorization'', ''cookie'', ''proxy-authorization'', ''x-api-key''}
         \<or> (\<not> is_param_header name
            \<and> (\<exists>fragment \<in> {''token'', ''secret'', ''api-key''}. \<exists>a b. name = a @ fragment @ b))"
    by (auto simp: is_withheld_def WITHHELD_HEADERS_def CREDENTIAL_NAME_FRAGMENTS_def contains_text_iff)
  have "map_of (foldl (\<lambda>m (name, v). AList.update name v m) [] (List.map_filter ?pick headers)) name =
      (if is_withheld name then None else map_option JString (last_text to_str headers name))"
  proof (induction headers rule: rev_induct)
    case Nil
    show ?case by (simp add: map_filter_simps last_text_def get_all_def)
  next
    case (snoc h hs)
    obtain k v where h: "h = (k, v)" by (cases h)
    have "List.map_filter ?pick (hs @ [(k, v)]) =
        List.map_filter ?pick hs @ (case ?pick (k, v) of None \<Rightarrow> [] | Some e \<Rightarrow> [e])"
      by (auto simp: map_filter_def split: option.split)
    then show ?case
      using snoc.IH by (auto simp: h last_text_snoc update_conv' split: option.split)
  qed
  then show ?thesis
    by (auto simp: withheld forwarded_headers_def Let_def)
qed

end
