(* ===== verification/Call_Stream.thy ===== *)
theory Call_Stream
  imports Http_Gates
begin

declare map_of_eq_Some_iff [simp del] Some_eq_map_of_iff [simp del]

text \<open>
  The answer of a dispatched call (\<^verbatim>\<open>answer_call\<close>, \<^verbatim>\<open>CallStream\<close>, \<^verbatim>\<open>render_response\<close> in
  \<^verbatim>\<open>src/mcp/transport/http.rs\<close>): one JSON response, or an event stream carrying what the call sent its
  client and then its response.

  A call is what its polls do: each puts messages on the call's outbox and is pending, until the
  last, which answers or panics. \<^verbatim>\<open>select!\<close> is biased, so the order of its branches is the order
  of the cases. A response body is a JSON response or the list of an event stream's messages;
  the serialization and the framing of an event are the packages' own.
\<close>

datatype http_body =
    NoBody
  | PlainText string
  | JsonBody rpc_response
  | EventStream "rpc_message list"

record http_response =
  ht_status :: nat
  ht_headers :: "(string \<times> string) list"
  ht_body :: http_body

definition respond :: "nat \<Rightarrow> http_body \<Rightarrow> http_response" where
  "respond status body = \<lparr>ht_status = status, ht_headers = [], ht_body = body\<rparr>"

definition response_status :: "rpc_response \<Rightarrow> bool \<Rightarrow> nat" where
  "response_status response modern =
     (case map_option e_code (rs_error response) of
        None \<Rightarrow> 200
      | Some code \<Rightarrow>
          if code = HEADER_MISMATCH then 400
          else if code \<in> {UNSUPPORTED_PROTOCOL_VERSION, MISSING_REQUIRED_CLIENT_CAPABILITY} \<and> modern then 400
          else if code = METHOD_NOT_FOUND \<and> modern then 404
          else 200)"

definition respond_sse :: "rpc_response \<Rightarrow> http_response" where
  "respond_sse response = respond 200 (EventStream [Response response])"

definition render_response :: "rpc_response option \<Rightarrow> bool \<Rightarrow> rendering \<Rightarrow> http_response" where
  "render_response response modern rendering =
     (case response of
        None \<Rightarrow> respond 202 NoBody
      | Some r \<Rightarrow>
          (let status = response_status r modern in
           if status \<noteq> 200 then respond status (JsonBody r)
           else if single_as_event rendering then respond_sse r
           else respond 200 (JsonBody r)))"

subsection \<open>The stream\<close>

datatype call =
    Pending "rpc_message list" call
  | Ready "rpc_message list" "rpc_response option"
  | Panics "rpc_message list"

datatype phase =
    Running call
  | Draining "rpc_response option"
  | Done

record call_stream =
  cs_phase :: phase
  cs_sent :: "rpc_message list"
  cs_outbox :: "rpc_message list"
  cs_serving :: bool

definition panic_answer :: "json option \<Rightarrow> rpc_response" where
  "panic_answer rid = response_error rid INTERNAL_ERROR ''The call failed while answering''"

definition drain_next ::
  "rpc_response option \<Rightarrow> rpc_message list \<Rightarrow> call_stream \<Rightarrow> rpc_message option \<times> call_stream" where
  "drain_next response outbox s =
     (case outbox of
        m # q \<Rightarrow> (Some m, s\<lparr>cs_phase := Draining response, cs_outbox := q\<rparr>)
      | [] \<Rightarrow> (map_option Response response, s\<lparr>cs_phase := Done, cs_outbox := [], cs_serving := False\<rparr>))"

fun running_next ::
  "json option \<Rightarrow> call \<Rightarrow> rpc_message list \<Rightarrow> call_stream \<Rightarrow> rpc_message option \<times> call_stream" where
  "running_next rid c (m # q) s = (Some m, s\<lparr>cs_phase := Running c, cs_outbox := q\<rparr>)"
| "running_next rid (Pending batch c) [] s = running_next rid c batch s"
| "running_next rid (Ready batch response) [] s = drain_next response batch s"
| "running_next rid (Panics batch) [] s = drain_next (Some (panic_answer rid)) batch s"

definition stream_next :: "json option \<Rightarrow> call_stream \<Rightarrow> rpc_message option \<times> call_stream" where
  "stream_next rid s =
     (case cs_sent s of
        m # ms \<Rightarrow> (Some m, s\<lparr>cs_sent := ms\<rparr>)
      | [] \<Rightarrow>
          (case cs_phase s of
             Running c \<Rightarrow> running_next rid c (cs_outbox s) s
           | Draining response \<Rightarrow> drain_next response (cs_outbox s) s
           | Done \<Rightarrow> (None, s)))"

text \<open>The messages a stream still has to send; the response, once it is out of the way, is one.\<close>

fun call_sends :: "call \<Rightarrow> rpc_message list" where
  "call_sends (Pending batch c) = batch @ call_sends c"
| "call_sends (Ready batch _) = batch"
| "call_sends (Panics batch) = batch"

fun call_answer :: "json option \<Rightarrow> call \<Rightarrow> rpc_response option" where
  "call_answer rid (Pending _ c) = call_answer rid c"
| "call_answer rid (Ready _ response) = response"
| "call_answer rid (Panics _) = Some (panic_answer rid)"

definition last_message :: "rpc_response option \<Rightarrow> rpc_message list" where
  "last_message response = (case response of None \<Rightarrow> [] | Some r \<Rightarrow> [Response r])"

definition stream_left :: "json option \<Rightarrow> call_stream \<Rightarrow> rpc_message list" where
  "stream_left rid s =
     cs_sent s @
     (case cs_phase s of
        Running c \<Rightarrow> cs_outbox s @ call_sends c @ last_message (call_answer rid c)
      | Draining response \<Rightarrow> cs_outbox s @ last_message response
      | Done \<Rightarrow> [])"

lemma drain_next_left:
  assumes "drain_next response q s = (m, s')" and "cs_sent s = []"
  shows "q @ last_message response = (case m of None \<Rightarrow> [] | Some x \<Rightarrow> x # stream_left rid s')"
  using assms by (auto simp: drain_next_def stream_left_def last_message_def split: list.splits option.splits)

lemma running_next_left:
  assumes "running_next rid c q s = (m, s')" and "cs_sent s = []"
  shows "q @ call_sends c @ last_message (call_answer rid c) = (case m of None \<Rightarrow> [] | Some x \<Rightarrow> x # stream_left rid s')"
  using assms
proof (induction rid c q s rule: running_next.induct)
  case (1 rid c m q s)
  then show ?case by (auto simp: stream_left_def)
next
  case (2 rid batch c s)
  then show ?case by simp
next
  case (3 rid batch response s)
  then show ?case using drain_next_left [of response batch s m s' rid] by simp
next
  case (4 rid batch s)
  then show ?case using drain_next_left [of "Some (panic_answer rid)" batch s m s' rid] by simp
qed

lemma stream_next_left:
  assumes "stream_next rid s = (m, s')"
  shows "stream_left rid s = (case m of None \<Rightarrow> [] | Some x \<Rightarrow> x # stream_left rid s')"
proof (cases "cs_sent s")
  case (Cons x xs)
  then show ?thesis using assms by (cases "cs_phase s") (auto simp: stream_next_def stream_left_def)
next
  case Nil
  then show ?thesis
  proof (cases "cs_phase s")
    case (Running c)
    then show ?thesis using assms Nil running_next_left [of rid c "cs_outbox s" s m s']
      by (simp add: stream_next_def stream_left_def)
  next
    case (Draining response)
    then show ?thesis using assms Nil drain_next_left [of response "cs_outbox s" s m s' rid]
      by (simp add: stream_next_def stream_left_def)
  next
    case Done
    then show ?thesis using assms Nil by (auto simp: stream_next_def stream_left_def)
  qed
qed

text \<open>Everything the stream yields until its end, and the stream as its end leaves it.\<close>

function stream_events :: "json option \<Rightarrow> call_stream \<Rightarrow> rpc_message list \<times> call_stream" where
  "stream_events rid s =
     (case stream_next rid s of
        (None, s') \<Rightarrow> ([], s')
      | (Some m, s') \<Rightarrow> (case stream_events rid s' of (ms, s'') \<Rightarrow> (m # ms, s'')))"
  by pat_completeness auto
termination
  by (relation "measure (\<lambda>(rid, s). length (stream_left rid s))") (auto dest!: sym [THEN stream_next_left])

declare stream_events.simps [simp del]

lemma stream_events_left: "fst (stream_events rid s) = stream_left rid s"
proof (induction rid s rule: stream_events.induct)
  case (1 rid s)
  obtain m s' where next': "stream_next rid s = (m, s')" by (cases "stream_next rid s")
  then show ?case
    using 1 [of m s'] stream_next_left [OF next']
    by (simp add: stream_events.simps [of rid s] split: option.split prod.split)
      (metis fst_conv)
qed

definition holds_session :: "call_stream \<Rightarrow> bool" where
  "holds_session s \<longleftrightarrow> (cs_serving s \<longleftrightarrow> cs_phase s \<noteq> Done)"

lemma running_next_holds:
  "running_next rid c q s = (m, s') \<Longrightarrow> cs_serving s \<Longrightarrow> holds_session s' \<and> (m = None \<longrightarrow> cs_phase s' = Done)"
  by (induction rid c q s rule: running_next.induct)
    (auto simp: drain_next_def holds_session_def split: list.splits)

lemma stream_next_holds:
  assumes "stream_next rid s = (m, s')" and "holds_session s"
  shows "holds_session s' \<and> (m = None \<longrightarrow> cs_phase s' = Done)"
  using assms running_next_holds [of rid _ "cs_outbox s" s m s']
  by (auto simp: stream_next_def drain_next_def holds_session_def split: list.splits phase.splits)

lemma stream_events_end: "holds_session s \<Longrightarrow> \<not> cs_serving (snd (stream_events rid s))"
proof (induction rid s rule: stream_events.induct)
  case (1 rid s)
  obtain m s' where next': "stream_next rid s = (m, s')" by (cases "stream_next rid s")
  then show ?case
    using 1 stream_next_holds [OF next']
    by (auto simp: stream_events.simps [of rid s] holds_session_def split: option.split prod.split)
qed

subsection \<open>The answer of a call\<close>

datatype streamed_answer = Whole http_response | Streaming call_stream | Panicked

fun answer_call :: "bool \<Rightarrow> rendering \<Rightarrow> call \<Rightarrow> streamed_answer" where
  "answer_call modern rendering (Ready sent response) =
     (if sent = [] then Whole (render_response response modern rendering)
      else Streaming \<lparr>cs_phase = Draining response, cs_sent = sent, cs_outbox = [], cs_serving = True\<rparr>)"
| "answer_call modern rendering (Pending [] c) = answer_call modern rendering c"
| "answer_call modern rendering (Pending (m # q) c) =
     Streaming \<lparr>cs_phase = Running c, cs_sent = [m], cs_outbox = q, cs_serving = True\<rparr>"
| "answer_call modern rendering (Panics sent) = Panicked"

text \<open>A call whose client accepts no event stream has no outbox: what it sends goes nowhere.\<close>

fun muted :: "call \<Rightarrow> call" where
  "muted (Pending _ c) = Pending [] (muted c)"
| "muted (Ready _ response) = Ready [] response"
| "muted (Panics _) = Panics []"

definition connected_call :: "rendering \<Rightarrow> call \<Rightarrow> call" where
  "connected_call rendering c = (if may_stream rendering then c else muted c)"

text \<open>The answer the client has once it has read it to the end; \<open>None\<close> is a panic left to the
  request guard.\<close>

definition whole_answer :: "json option \<Rightarrow> bool \<Rightarrow> rendering \<Rightarrow> call \<Rightarrow> http_response option" where
  "whole_answer rid modern rendering c =
     (case answer_call modern rendering (connected_call rendering c) of
        Whole answer \<Rightarrow> Some answer
      | Streaming s \<Rightarrow> Some (respond 200 (EventStream (fst (stream_events rid s))))
      | Panicked \<Rightarrow> None)"

fun panics_silently :: "call \<Rightarrow> bool" where
  "panics_silently (Pending batch c) \<longleftrightarrow> batch = [] \<and> panics_silently c"
| "panics_silently (Ready _ _) \<longleftrightarrow> False"
| "panics_silently (Panics _) \<longleftrightarrow> True"

lemma muted_sends [simp]: "call_sends (muted c) = []"
  by (induction c) simp_all

lemma muted_answer [simp]: "call_answer rid (muted c) = call_answer rid c"
  by (induction c) simp_all

text \<open>
  C10: the client of a call gets everything the call sent it, in the order it was sent, and the
  response last, once. A call that sent nothing is answered by its response alone, under its status; one
  that sent something is answered as an event stream of exactly those messages and the response,
  however its polls and the client's reads interleave, and the stream ends, its session released.
  A client that accepts no event stream always gets the single response. A panic before anything
  was sent is left to the guard; after, it is answered in the stream as an internal error.
\<close>

theorem messages_precede_their_response:
  "whole_answer rid modern rendering c =
     (let heard = connected_call rendering c in
      if panics_silently heard then None
      else if call_sends heard = []
      then Some (render_response (call_answer rid c) modern rendering)
      else Some (respond 200 (EventStream (call_sends heard @ last_message (call_answer rid c)))))
   \<and> (\<forall>s. answer_call modern rendering (connected_call rendering c) = Streaming s \<longrightarrow>
        may_stream rendering \<and> cs_serving s \<and> \<not> cs_serving (snd (stream_events rid s)))"
proof (rule conjI)
  have heard_answer: "call_answer rid (connected_call rendering c) = call_answer rid c"
    by (simp add: connected_call_def)
  have "(case answer_call modern rendering d of
        Whole answer \<Rightarrow> Some answer
      | Streaming s \<Rightarrow> Some (respond 200 (EventStream (fst (stream_events rid s))))
      | Panicked \<Rightarrow> None) =
     (if panics_silently d then None
      else if call_sends d = [] then Some (render_response (call_answer rid d) modern rendering)
      else Some (respond 200 (EventStream (call_sends d @ last_message (call_answer rid d)))))" for d
    by (induction modern rendering d rule: answer_call.induct) (auto simp: stream_events_left stream_left_def)
  from this [of "connected_call rendering c"]
  show "whole_answer rid modern rendering c =
     (let heard = connected_call rendering c in
      if panics_silently heard then None
      else if call_sends heard = []
      then Some (render_response (call_answer rid c) modern rendering)
      else Some (respond 200 (EventStream (call_sends heard @ last_message (call_answer rid c)))))"
    by (simp add: whole_answer_def Let_def heard_answer)
next
  have streams: "answer_call modern rendering d = Streaming s \<Longrightarrow> cs_serving s \<and> holds_session s \<and> call_sends d \<noteq> []" for d s
    by (induction modern rendering d rule: answer_call.induct) (auto simp: holds_session_def split: if_splits)
  show "\<forall>s. answer_call modern rendering (connected_call rendering c) = Streaming s \<longrightarrow>
        may_stream rendering \<and> cs_serving s \<and> \<not> cs_serving (snd (stream_events rid s))"
    using streams [of "connected_call rendering c"] stream_events_end
    by (auto simp: connected_call_def split: if_splits)
qed

definition demo_progress :: rpc_message where
  "demo_progress = Request (notification ''notifications/progress'' None)"

definition demo_streamed :: call where
  "demo_streamed = Pending [] (Pending [demo_progress] (Ready [] (Some (response_success None JNull))))"

lemma messages_precede_their_response_witness:
  "whole_answer None False \<lparr>single_as_event = False, may_stream = True\<rparr> demo_streamed =
     Some (respond 200 (EventStream [demo_progress, Response (response_success None JNull)]))
   \<and> (\<exists>s. answer_call False \<lparr>single_as_event = False, may_stream = True\<rparr> demo_streamed = Streaming s
        \<and> \<not> cs_serving (snd (stream_events None s)))"
  using messages_precede_their_response
    [of None False "\<lparr>single_as_event = False, may_stream = True\<rparr>" demo_streamed]
  by (simp add: demo_streamed_def connected_call_def last_message_def)

end
