(* ===== verification/Http_Transport.thy ===== *)
theory Http_Transport
  imports Call_Stream Dispatch_Correct
begin

declare map_of_eq_Some_iff [simp del] Some_eq_map_of_iff [simp del]

text \<open>
  The Streamable HTTP endpoint (\<^verbatim>\<open>src/mcp/transport/http.rs\<close>): \<^verbatim>\<open>POST /mcp\<close> from its gates through
  authentication and sessions to the dispatch, a client's response, and \<^verbatim>\<open>DELETE /mcp\<close>.

  The session store and the dispatch share one heap of sessions and one set of fired tokens, which
  live with the clients of the host's world: \<open>store_of\<close> and \<open>set_store\<close> are the store's view of
  them. What a request draws as it runs (readings of the clock, fresh tokens and references, the
  random session id) is the record \<open>draws\<close>. A call is one handler step, so its messages are on its
  outbox when it answers; \<^theory_text>\<open>Call_Stream\<close> shows any other interleaving gives the client the same.
\<close>

record ('f, 'q) http_libraries =
  hl_libraries :: "'f libraries"
  hl_to_str :: "string \<Rightarrow> string option"
  hl_header_value :: "string \<Rightarrow> string option"
  hl_weights :: "'q weights"
  hl_fingerprint :: "string \<Rightarrow> 64 word"

record ('s, 'a) http_server =
  hv_server :: "('s, 'a) mcp_server"
  hv_allowed_origins :: "string list"
  hv_allowed_hosts :: "string list option"
  hv_max_request_bytes :: nat
  hv_sessions :: bool
  hv_pending :: nat
  hv_client_request_timeout :: duration

record ('s, 'a) http_state =
  hs_server :: "('s, 'a) server_state"
  hs_store :: session_world

record draws =
  dr_clock :: "int \<times> int \<times> int"
  dr_now :: instant
  dr_later :: instant
  dr_insert :: instant
  dr_anonymous :: token
  dr_call :: token
  dr_scope :: token
  dr_session_id :: "(string, string) result"
  dr_session_token :: token
  dr_session_ref :: sref
  dr_outbox :: nat

definition clients_of :: "('s, 'a) http_state \<Rightarrow> client_world" where
  "clients_of st = hw_clients (ss_world (hs_server st))"

definition set_clients :: "client_world \<Rightarrow> ('s, 'a) http_state \<Rightarrow> ('s, 'a) http_state" where
  "set_clients cw st =
     st\<lparr>hs_server := (hs_server st)\<lparr>ss_world := (ss_world (hs_server st))\<lparr>hw_clients := cw\<rparr>\<rparr>\<rparr>"

definition store_of :: "('s, 'a) http_state \<Rightarrow> session_world" where
  "store_of st = (hs_store st)\<lparr>sw_heap := cw_sessions (clients_of st), sw_fired := cw_fired (clients_of st)\<rparr>"

definition set_store :: "session_world \<Rightarrow> ('s, 'a) http_state \<Rightarrow> ('s, 'a) http_state" where
  "set_store w st =
     (set_clients ((clients_of st)\<lparr>cw_sessions := sw_heap w, cw_fired := sw_fired w\<rparr>) st)\<lparr>hs_store := w\<rparr>"

definition context_identity :: "tool_context \<Rightarrow> identity" where
  "context_identity ctx = \<lparr>user_id = tx_user_id ctx, tenant_id = tx_tenant_id ctx\<rparr>"

definition with_world :: "('s, 'a) host_world \<Rightarrow> ('s, 'a) http_state \<Rightarrow> ('s, 'a) http_state" where
  "with_world w st = st\<lparr>hs_server := (hs_server st)\<lparr>ss_world := w\<rparr>\<rparr>"

subsection \<open>Refusals\<close>

definition transport_refusal :: "nat \<Rightarrow> int \<Rightarrow> string \<Rightarrow> http_response" where
  "transport_refusal status code message = respond status (JsonBody (response_error None code message))"

definition header_mismatch :: "json option \<Rightarrow> string \<Rightarrow> http_response" where
  "header_mismatch rid reason = respond 400 (JsonBody (response_error rid HEADER_MISMATCH reason))"

definition session_not_found :: "json option \<Rightarrow> http_response" where
  "session_not_found rid =
     respond 404 (JsonBody (response_error rid INVALID_REQUEST ''Session not found: initialize a new session''))"

fun session_refusal_text :: "refusal \<Rightarrow> string" where
  "session_refusal_text ServerFull = ''the server holds as many sessions as it may''"
| "session_refusal_text CallerFull =
     ''this caller holds as many sessions as it may, each serving a request''"

definition no_room_for_session :: "json option \<Rightarrow> refusal \<Rightarrow> http_response" where
  "no_room_for_session rid why =
     respond 503 (JsonBody (response_error rid INTERNAL_ERROR (session_refusal_text why)))"

fun auth_refusal_response :: "auth_error \<Rightarrow> http_response" where
  "auth_refusal_response (Unauthorized challenge) =
     \<lparr>ht_status = 401, ht_headers = [(''www-authenticate'', challenge)],
      ht_body = JsonBody (response_error None UNAUTHORIZED ''Unauthorized'')\<rparr>"
| "auth_refusal_response (Forbidden reason) =
     respond 403 (JsonBody (response_error None UNAUTHORIZED reason))"
| "auth_refusal_response (InsufficientScope challenge reason) =
     \<lparr>ht_status = 403, ht_headers = [(''www-authenticate'', challenge)],
      ht_body = JsonBody (response_error None UNAUTHORIZED reason)\<rparr>"
| "auth_refusal_response (RateLimited secs reason) =
     (let wait = max secs 1 in
      \<lparr>ht_status = 429, ht_headers = [(''retry-after'', nat_text wait)],
       ht_body = JsonBody (response_error_with_data None RATE_LIMITED reason
         (JObject [(''retry_after_secs'', JNumber (PosInt wait))]))\<rparr>)"
| "auth_refusal_response (AuthInternal reason) =
     respond 500 (JsonBody (response_error None INTERNAL_ERROR reason))"

subsection \<open>Reading the request\<close>

definition check_origin_and_host ::
  "('f, 'q) http_libraries \<Rightarrow> ('s, 'a) http_server \<Rightarrow> header_map \<Rightarrow> string option \<Rightarrow> (http_response, unit) result" where
  "check_origin_and_host L hv headers target =
     (if \<not> origin_allowed (hl_to_str L) headers (hv_allowed_origins hv)
      then Inl (respond 403 (PlainText ''Origin not allowed''))
      else
        (case hv_allowed_hosts hv of
           None \<Rightarrow> Inr ()
         | Some allowed \<Rightarrow>
             (case check_host (hl_to_str L) headers target allowed of
                Inl (status, reason) \<Rightarrow> Inl (respond status (PlainText reason))
              | Inr _ \<Rightarrow> Inr ())))"

definition accepted_protocol_version ::
  "('f, 'q) http_libraries \<Rightarrow> ('s, 'a) http_server \<Rightarrow> header_map \<Rightarrow> json option
     \<Rightarrow> (http_response, string option) result" where
  "accepted_protocol_version L hv headers rid =
     (case protocol_version_header (hl_to_str L) headers of
        Inl reason \<Rightarrow> Inl (header_mismatch rid reason)
      | Inr None \<Rightarrow> Inr None
      | Inr (Some version) \<Rightarrow>
          if accepts_protocol_version (hv_server hv) version then Inr (Some version)
          else Inl (respond 400 (JsonBody (unsupported_version_error (hv_server hv) rid version))))"

definition session_id_header ::
  "('f, 'q) http_libraries \<Rightarrow> header_map \<Rightarrow> json option \<Rightarrow> (http_response, string option) result" where
  "session_id_header L headers rid =
     (let malformed = Inl (respond 400 (JsonBody (response_error rid INVALID_REQUEST
            ''Mcp-Session-Id must be one visible-ASCII value''))) in
      case get_all headers ''mcp-session-id'' of
        [] \<Rightarrow> Inr None
      | [v] \<Rightarrow> (case hl_to_str L v of Some sid \<Rightarrow> Inr (Some (trim sid)) | None \<Rightarrow> malformed)
      | _ \<Rightarrow> malformed)"

text \<open>Step 4: the request as the hook and the handlers read it, and whether its era is modern.\<close>

definition read_request ::
  "('f, 'q) http_libraries \<Rightarrow> ('s, 'a) http_server \<Rightarrow> header_map \<Rightarrow> rpc_request
     \<Rightarrow> (http_response, rpc_request \<times> bool) result" where
  "read_request L hv headers request0 =
     (let request1 = request0\<lparr>rq_auth := bearer_token (hl_to_str L) headers,
                              rq_headers := forwarded_headers (hl_to_str L) headers\<rparr> in
      result_bind (accepted_protocol_version L hv headers (rq_id request1)) (\<lambda>version.
        if version = None \<and> rq_id request1 \<noteq> None \<and> meta_from_params (rq_params request1) \<noteq> MetaLegacy
        then Inl (header_mismatch (rq_id request1) ''Header mismatch: MCP-Protocol-Version header is required'')
        else
          (let request = (case version of
                            None \<Rightarrow> request1
                          | Some v \<Rightarrow> with_metadata PROTOCOL_VERSION_HEADER v request1);
               modern = (case version of None \<Rightarrow> False | Some v \<Rightarrow> is_modern_revision v) in
           case check_standard_headers (lib_header_codec (hl_libraries L)) (hl_to_str L) headers request modern of
             Inl reason \<Rightarrow> Inl (header_mismatch (rq_id request) reason)
           | Inr _ \<Rightarrow> Inr (request, modern))))"

text \<open>Step 5: the session the request names, on a server that keeps them.\<close>

definition named_session ::
  "('f, 'q) http_libraries \<Rightarrow> ('s, 'a) http_server \<Rightarrow> header_map \<Rightarrow> rpc_request \<Rightarrow> bool
     \<Rightarrow> (http_response, string option) result" where
  "named_session L hv headers request modern =
     (if hv_sessions hv \<and> \<not> modern \<and> rq_method request \<noteq> ''initialize''
      then session_id_header L headers (rq_id request)
      else Inr None)"

subsection \<open>Running the call\<close>

definition enter_session ::
  "instant \<Rightarrow> string option \<Rightarrow> tool_context \<Rightarrow> ('s, 'a) http_state \<Rightarrow> ('s, 'a) http_state \<times> (unit, sref option) result" where
  "enter_session now named ctx st =
     (case named of
        None \<Rightarrow> (st, Inr None)
      | Some sid \<Rightarrow>
          (case store_enter now sid (context_identity ctx) (store_of st) of
             (w, None) \<Rightarrow> (set_store w st, Inl ())
           | (w, Some r) \<Rightarrow> (set_store w st, Inr (Some r))))"

definition leave_session :: "instant \<Rightarrow> sref option \<Rightarrow> ('s, 'a) http_state \<Rightarrow> ('s, 'a) http_state" where
  "leave_session now session st =
     (case session of None \<Rightarrow> st | Some r \<Rightarrow> set_store (use_drop now r (store_of st)) st)"

definition http_client_connection ::
  "('f, 'q) http_libraries \<Rightarrow> ('s, 'a) http_server \<Rightarrow> nat option \<Rightarrow> sref option \<Rightarrow> tool_context \<Rightarrow> string option
     \<Rightarrow> ('s, 'a) http_state \<Rightarrow> client_connection" where
  "http_client_connection L hv outbound session ctx credential st =
     \<lparr>cn_outbound = outbound, cn_pending = hv_pending hv, cn_session = session,
      cn_caller = key_http (hl_fingerprint L) (context_identity ctx)
        (Option.bind session (\<lambda>r. s_id (cw_sessions (clients_of st) r))) credential,
      cn_timeout = hv_client_request_timeout hv\<rparr>"

definition set_outbox :: "nat \<Rightarrow> bool \<Rightarrow> ('s, 'a) http_state \<Rightarrow> ('s, 'a) http_state" where
  "set_outbox q is_open st =
     set_clients ((clients_of st)\<lparr>cw_out := (cw_out (clients_of st))(q := []),
       cw_out_open := (cw_out_open (clients_of st))(q := is_open)\<rparr>) st"

text \<open>The context a call runs under: its session's token, and its client through the call's outbox.\<close>

definition call_context ::
  "('f, 'q) http_libraries \<Rightarrow> ('s, 'a) http_server \<Rightarrow> draws \<Rightarrow> rendering \<Rightarrow> sref option \<Rightarrow> rpc_request
     \<Rightarrow> tool_context \<Rightarrow> ('s, 'a) http_state \<Rightarrow> tool_context" where
  "call_context L hv d rendering session request ctx st =
     (let ctx1 = (case session of
                    None \<Rightarrow> ctx
                  | Some r \<Rightarrow> with_cancellation (s_cancellation (cw_sessions (clients_of st) r)) ctx);
          outbound = (if may_stream rendering then Some (dr_outbox d) else None);
          connection = http_client_connection L hv outbound session ctx1 (rq_auth request) st in
      ctx1\<lparr>tx_client := connected (dr_scope d) connection\<rparr>)"

text \<open>The answer, once the call has one: what it left on its outbox goes first.\<close>

definition answer_now :: "bool \<Rightarrow> rendering \<Rightarrow> rpc_message list \<Rightarrow> rpc_response option \<Rightarrow> http_response" where
  "answer_now modern rendering sent response =
     (if sent = [] then render_response response modern rendering
      else respond 200 (EventStream (sent @ last_message response)))"

definition finish_call ::
  "instant \<Rightarrow> sref option \<Rightarrow> nat \<Rightarrow> bool \<Rightarrow> rendering \<Rightarrow> rpc_response option \<Rightarrow> ('s, 'a) http_state
     \<Rightarrow> ('s, 'a) http_state \<times> http_response" where
  "finish_call now session q modern rendering response st =
     (leave_session now session (set_outbox q False st),
      answer_now modern rendering (cw_out (clients_of st) q) response)"

definition on_server ::
  "(('s, 'a) server_state \<Rightarrow> ('s, 'a) server_state \<times> 'r) \<Rightarrow> ('s, 'a) http_state \<Rightarrow> ('s, 'a) http_state \<times> 'r" where
  "on_server f st = (case f (hs_server st) of (srv, r) \<Rightarrow> (st\<lparr>hs_server := srv\<rparr>, r))"

text \<open>A handshake is awaited to its end.\<close>

definition handle_now ::
  "('f, 'q) http_libraries \<Rightarrow> ('s, 'a) http_server \<Rightarrow> draws \<Rightarrow> rpc_request \<Rightarrow> tool_context
     \<Rightarrow> ('s, 'a) server_state \<Rightarrow> ('s, 'a) server_state \<times> rpc_response option" where
  "handle_now L hv d request ctx srv =
     (case dispatch_begin (hl_libraries L) (hv_server hv) (dr_clock d) (dr_call d) request ctx srv of
        (srv1, Finished response) \<Rightarrow> (srv1, response)
      | (srv1, Serving s) \<Rightarrow> dispatch_poll (hl_libraries L) (hv_server hv) (dr_clock d) s srv1)"

definition mint_session ::
  "('s, 'a) http_server \<Rightarrow> draws \<Rightarrow> bool \<Rightarrow> tool_context \<Rightarrow> ('s, 'a) http_state
     \<Rightarrow> ('s, 'a) http_state \<times> (http_response, sref option) result" where
  "mint_session hv d modern ctx st =
     (if \<not> (hv_sessions hv \<and> \<not> modern) then (st, Inr None)
      else
        (case mint (dr_now d) (dr_session_token d) (dr_session_id d) (context_identity ctx) of
           Inl _ \<Rightarrow> (st, Inl (transport_refusal 500 INTERNAL_ERROR ''Could not start a session''))
         | Inr s \<Rightarrow>
             (set_store (write_session (dr_session_ref d) s (store_of st)) st, Inr (Some (dr_session_ref d)))))"

definition enter_minted :: "sref option \<Rightarrow> ('s, 'a) http_state \<Rightarrow> ('s, 'a) http_state" where
  "enter_minted session st =
     (case session of
        None \<Rightarrow> st
      | Some r \<Rightarrow> set_store (write_session r (session_enter (cw_sessions (clients_of st) r)) (store_of st)) st)"

text \<open>The new session enters the store with a successful handshake, when there is room.\<close>

definition keep_session ::
  "instant \<Rightarrow> sref option \<Rightarrow> rpc_response option \<Rightarrow> ('s, 'a) http_state
     \<Rightarrow> ('s, 'a) http_state \<times> (refusal, string option) result" where
  "keep_session now session response st =
     (case (session, response) of
        (Some r, Some answer) \<Rightarrow>
          if is_success answer
          then (case store_insert now r (store_of st) of
                  (w, Inl why) \<Rightarrow> (set_store w st, Inl why)
                | (w, Inr _) \<Rightarrow> (set_store w st, Inr (s_id (cw_sessions (clients_of st) r))))
          else (st, Inr None)
      | _ \<Rightarrow> (st, Inr None))"

definition with_session_id :: "('f, 'q) http_libraries \<Rightarrow> string option \<Rightarrow> http_response \<Rightarrow> http_response" where
  "with_session_id L minted answer =
     (case Option.bind minted (hl_header_value L) of
        None \<Rightarrow> answer
      | Some v \<Rightarrow> answer\<lparr>ht_headers := (''mcp-session-id'', v) # ht_headers answer\<rparr>)"

definition serve_initialize ::
  "('f, 'q) http_libraries \<Rightarrow> ('s, 'a) http_server \<Rightarrow> draws \<Rightarrow> rpc_request \<Rightarrow> bool \<Rightarrow> rendering \<Rightarrow> tool_context
     \<Rightarrow> ('s, 'a) http_state \<Rightarrow> ('s, 'a) http_state \<times> http_response" where
  "serve_initialize L hv d request modern rendering ctx st =
     (case mint_session hv d modern ctx st of
        (st1, Inl failure) \<Rightarrow> (st1, failure)
      | (st1, Inr session) \<Rightarrow>
          (let ctx1 = call_context L hv d rendering session request ctx st1;
               st2 = enter_minted session (set_outbox (dr_outbox d) True st1) in
           case on_server (handle_now L hv d request ctx1) st2 of
             (st3, response) \<Rightarrow>
               (case keep_session (dr_insert d) session response (leave_session (dr_later d) session st3) of
                  (st4, Inl why) \<Rightarrow> (set_outbox (dr_outbox d) False st4, no_room_for_session (rq_id request) why)
                | (st4, Inr minted) \<Rightarrow>
                    (set_outbox (dr_outbox d) False st4,
                     with_session_id L minted (render_response response modern rendering)))))"

record calling =
  cl_serving :: serving
  cl_session :: "sref option"
  cl_outbox :: nat
  cl_modern :: bool
  cl_rendering :: rendering

datatype http_answer = Answered http_response | Calling calling

definition serve_call ::
  "('f, 'q) http_libraries \<Rightarrow> ('s, 'a) http_server \<Rightarrow> draws \<Rightarrow> rpc_request \<Rightarrow> bool \<Rightarrow> rendering \<Rightarrow> tool_context
     \<Rightarrow> sref option \<Rightarrow> ('s, 'a) http_state \<Rightarrow> ('s, 'a) http_state \<times> http_answer" where
  "serve_call L hv d request modern rendering ctx session st =
     (let ctx1 = call_context L hv d rendering session request ctx st in
      case on_server (dispatch_begin (hl_libraries L) (hv_server hv) (dr_clock d) (dr_call d) request ctx1)
             (set_outbox (dr_outbox d) True st) of
        (st1, Finished response) \<Rightarrow>
          (case finish_call (dr_later d) session (dr_outbox d) modern rendering response st1 of
             (st2, answer) \<Rightarrow> (st2, Answered answer))
      | (st1, Serving s) \<Rightarrow>
          (st1, Calling \<lparr>cl_serving = s, cl_session = session, cl_outbox = dr_outbox d,
                         cl_modern = modern, cl_rendering = rendering\<rparr>))"

text \<open>A turn of the call, and its drop when the client hangs up.\<close>

definition call_turn ::
  "('f, 'q) http_libraries \<Rightarrow> ('s, 'a) http_server \<Rightarrow> draws \<Rightarrow> calling \<Rightarrow> ('s, 'a) http_state
     \<Rightarrow> ('s, 'a) http_state \<times> http_response" where
  "call_turn L hv d c st =
     (case on_server (dispatch_poll (hl_libraries L) (hv_server hv) (dr_clock d) (cl_serving c)) st of
        (st1, response) \<Rightarrow>
          finish_call (dr_later d) (cl_session c) (cl_outbox c) (cl_modern c) (cl_rendering c) response st1)"

definition call_hangup :: "draws \<Rightarrow> calling \<Rightarrow> ('s, 'a) http_state \<Rightarrow> ('s, 'a) http_state" where
  "call_hangup d c st =
     leave_session (dr_later d) (cl_session c)
       (set_outbox (cl_outbox c) False (st\<lparr>hs_server := dispatch_drop (cl_serving c) (hs_server st)\<rparr>))"

subsection \<open>The endpoint\<close>

definition serve_request ::
  "('f, 'q) http_libraries \<Rightarrow> ('s, 'a) http_server \<Rightarrow> draws \<Rightarrow> header_map \<Rightarrow> rpc_request \<Rightarrow> rendering
     \<Rightarrow> ('s, 'a) http_state \<Rightarrow> ('s, 'a) http_state \<times> http_answer" where
  "serve_request L hv d headers request0 rendering st =
     (case read_request L hv headers request0 of
        Inl refused \<Rightarrow> (st, Answered refused)
      | Inr (request, modern) \<Rightarrow>
          (case named_session L hv headers request modern of
             Inl refused \<Rightarrow> (st, Answered refused)
           | Inr named \<Rightarrow>
               (case authenticate (hv_server hv) (dr_anonymous d) request (ss_world (hs_server st)) of
                  (w, Inl refused) \<Rightarrow>
                    (with_world w st, Answered (auth_refusal_response refused))
                | (w, Inr ctx) \<Rightarrow>
                    (case enter_session (dr_now d) named ctx (with_world w st) of
                       (st1, Inl _) \<Rightarrow> (st1, Answered (session_not_found (rq_id request)))
                     | (st1, Inr session) \<Rightarrow>
                         if rq_method request = ''initialize''
                         then (case serve_initialize L hv d request modern rendering ctx st1 of
                                 (st2, answer) \<Rightarrow> (st2, Answered answer))
                         else serve_call L hv d request modern rendering ctx session st1))))"

definition transport_message ::
  "('f, 'q) http_libraries \<Rightarrow> header_map \<Rightarrow> json option \<Rightarrow> string option \<Rightarrow> rpc_request" where
  "transport_message L headers rid version =
     (let message = \<lparr>rq_jsonrpc = JSONRPC_VERSION, rq_method = [], rq_params = None, rq_id = rid,
                     rq_auth = bearer_token (hl_to_str L) headers,
                     rq_headers = forwarded_headers (hl_to_str L) headers, rq_metadata = []\<rparr> in
      case version of None \<Rightarrow> message | Some v \<Rightarrow> with_metadata PROTOCOL_VERSION_HEADER v message)"

definition owned_session ::
  "instant \<Rightarrow> string \<Rightarrow> tool_context \<Rightarrow> ('s, 'a) http_state \<Rightarrow> ('s, 'a) http_state \<times> sref option" where
  "owned_session now sid ctx st =
     (case store_find now sid (store_of st) of
        (w, None) \<Rightarrow> (set_store w st, None)
      | (w, Some r) \<Rightarrow> (set_store w st, if is_owned_by (sw_heap w r) (context_identity ctx) then Some r else None))"

definition deliver_client_response ::
  "('f, 'q) http_libraries \<Rightarrow> ('s, 'a) http_server \<Rightarrow> tool_context \<Rightarrow> string option \<Rightarrow> string option \<Rightarrow> rpc_response
     \<Rightarrow> ('s, 'a) http_state \<Rightarrow> ('s, 'a) http_state \<times> bool" where
  "deliver_client_response L hv ctx sid credential response st =
     (case Client_Channel.deliver (hv_pending hv) (key_http (hl_fingerprint L) (context_identity ctx) sid credential)
             response (clients_of st) of
        (cw, delivered) \<Rightarrow> (set_clients cw st, delivered))"

text \<open>A client's response up to its delivery: its version, its headers, its session id, its caller and
  its session.\<close>

definition admit_response ::
  "('f, 'q) http_libraries \<Rightarrow> ('s, 'a) http_server \<Rightarrow> draws \<Rightarrow> header_map \<Rightarrow> rpc_response
     \<Rightarrow> ('s, 'a) http_state \<Rightarrow> ('s, 'a) http_state \<times> (http_response, tool_context \<times> sref option \<times> rpc_request) result" where
  "admit_response L hv d headers response st =
     (case accepted_protocol_version L hv headers None of
        Inl refused \<Rightarrow> (st, Inl refused)
      | Inr version \<Rightarrow>
          (case check_response_headers headers of
             Inl reason \<Rightarrow> (st, Inl (header_mismatch None reason))
           | Inr _ \<Rightarrow>
               (let modern = (case version of None \<Rightarrow> False | Some v \<Rightarrow> is_modern_revision v) in
                case (if hv_sessions hv \<and> \<not> modern then session_id_header L headers None else Inr None) of
                  Inl refused \<Rightarrow> (st, Inl refused)
                | Inr named \<Rightarrow>
                    (let message = transport_message L headers (rs_id response) version in
                     case authenticate (hv_server hv) (dr_anonymous d) message (ss_world (hs_server st)) of
                       (w, Inl refused) \<Rightarrow> (with_world w st, Inl (auth_refusal_response refused))
                     | (w, Inr ctx) \<Rightarrow>
                         (case named of
                            None \<Rightarrow> (with_world w st, Inr (ctx, None, message))
                          | Some sid \<Rightarrow>
                              (case owned_session (dr_now d) sid ctx (with_world w st) of
                                 (st1, None) \<Rightarrow> (st1, Inl (session_not_found None))
                               | (st1, Some r) \<Rightarrow> (st1, Inr (ctx, Some r, message))))))))"

definition accept_client_response ::
  "('f, 'q) http_libraries \<Rightarrow> ('s, 'a) http_server \<Rightarrow> draws \<Rightarrow> header_map \<Rightarrow> rpc_response
     \<Rightarrow> ('s, 'a) http_state \<Rightarrow> ('s, 'a) http_state \<times> http_response" where
  "accept_client_response L hv d headers response st =
     (case admit_response L hv d headers response st of
        (st1, Inl refused) \<Rightarrow> (st1, refused)
      | (st1, Inr (ctx, session, message)) \<Rightarrow>
          (fst (deliver_client_response L hv ctx
             (Option.bind session (\<lambda>r. s_id (cw_sessions (clients_of st1) r)))
             (rq_auth message) response st1),
           respond 202 NoBody))"

definition handle_mcp_delete ::
  "('f, 'q) http_libraries \<Rightarrow> ('s, 'a) http_server \<Rightarrow> draws \<Rightarrow> header_map \<Rightarrow> string option
     \<Rightarrow> ('s, 'a) http_state \<Rightarrow> ('s, 'a) http_state \<times> http_response" where
  "handle_mcp_delete L hv d headers target st =
     (case check_origin_and_host L hv headers target of
        Inl refused \<Rightarrow> (st, refused)
      | Inr _ \<Rightarrow>
          if \<not> hv_sessions hv then (st, respond 405 NoBody)
          else
            (case session_id_header L headers None of
               Inl refused \<Rightarrow> (st, refused)
             | Inr None \<Rightarrow>
                 (st, transport_refusal 400 INVALID_REQUEST ''DELETE needs the Mcp-Session-Id of the session to end'')
             | Inr (Some sid) \<Rightarrow>
                 (let version = (case protocol_version_header (hl_to_str L) headers of Inl _ \<Rightarrow> None | Inr v \<Rightarrow> v) in
                  case authenticate (hv_server hv) (dr_anonymous d) (transport_message L headers None version)
                         (ss_world (hs_server st)) of
                    (w, Inl refused) \<Rightarrow>
                      (with_world w st, auth_refusal_response refused)
                  | (w, Inr ctx) \<Rightarrow>
                      (case owned_session (dr_now d) sid ctx (with_world w st) of
                         (st1, None) \<Rightarrow> (st1, session_not_found None)
                       | (st1, Some _) \<Rightarrow>
                           (set_store (fst (store_end sid (store_of st1))) st1, respond 204 NoBody)))))"

text \<open>The body as the framework read it: its text, or the status and text of its refusal.\<close>

definition handle_mcp_post ::
  "('f, 'q) http_libraries \<Rightarrow> ('s, 'a) http_server \<Rightarrow> draws \<Rightarrow> header_map \<Rightarrow> string option
     \<Rightarrow> (nat \<times> string, string) result \<Rightarrow> ('s, 'a) http_state \<Rightarrow> ('s, 'a) http_state \<times> http_answer" where
  "handle_mcp_post L hv d headers target body st =
     (case check_origin_and_host L hv headers target of
        Inl refused \<Rightarrow> (st, Answered refused)
      | Inr _ \<Rightarrow>
          if \<not> is_json_content_type (hl_to_str L) headers
          then (st, Answered (transport_refusal 415 INVALID_REQUEST
                  ''Unsupported Media Type: Content-Type must be application/json''))
          else
            (case negotiate (hl_weights L) (hl_to_str L) headers of
               None \<Rightarrow>
                 (st, Answered (transport_refusal 406 INVALID_REQUEST
                    ''Not Acceptable: Accept must admit application/json or text/event-stream''))
             | Some rendering \<Rightarrow>
                 (case body of
                    Inl (status, text) \<Rightarrow>
                      (st, Answered
                        (if status = 413
                         then transport_refusal 413 INVALID_REQUEST
                                (''Request body exceeds '' @ nat_text (hv_max_request_bytes hv) @ '' bytes'')
                         else transport_refusal status PARSE_ERROR text))
                  | Inr text \<Rightarrow>
                      (case parse_message (lib_read_json (hl_libraries L)) text of
                         Inl refused \<Rightarrow> (st, Answered (respond 400 (JsonBody refused)))
                       | Inr (Request request) \<Rightarrow> serve_request L hv d headers request rendering st
                       | Inr (Response response) \<Rightarrow>
                           (case accept_client_response L hv d headers response st of
                              (st1, answer) \<Rightarrow> (st1, Answered answer))))))"

subsection \<open>The state's views\<close>

lemma store_views [simp]:
  "store_of (set_store w st) = w"
  "hs_store (set_store w st) = w"
  "clients_of (set_store w st) = (clients_of st)\<lparr>cw_sessions := sw_heap w, cw_fired := sw_fired w\<rparr>"
  "clients_of (set_clients cw st) = cw"
  "hs_store (set_clients cw st) = hs_store st"
  "clients_of (with_world w' st) = hw_clients w'"
  "hs_store (with_world w' st) = hs_store st"
  "ss_in_flight (hs_server (with_world w' st)) = ss_in_flight (hs_server st)"
  "ss_world (hs_server (with_world w' st)) = w'"
  "ss_in_flight (hs_server (set_clients cw st)) = ss_in_flight (hs_server st)"
  "ss_in_flight (hs_server (set_store w st)) = ss_in_flight (hs_server st)"
  by (simp_all add: store_of_def set_store_def clients_of_def set_clients_def with_world_def)

lemma outbox_views [simp]:
  "hs_store (set_outbox q b st) = hs_store st"
  "cw_sessions (clients_of (set_outbox q b st)) = cw_sessions (clients_of st)"
  "cw_fired (clients_of (set_outbox q b st)) = cw_fired (clients_of st)"
  "cw_out (clients_of (set_outbox q b st)) q = []"
  "store_of (set_outbox q b st) = store_of st"
  "ss_in_flight (hs_server (set_outbox q b st)) = ss_in_flight (hs_server st)"
  by (simp_all add: set_outbox_def store_of_def)

lemma store_of_parts [simp]:
  "sw_sessions (store_of st) = sw_sessions (hs_store st)"
  "sw_heap (store_of st) = cw_sessions (clients_of st)"
  "sw_fired (store_of st) = cw_fired (clients_of st)"
  "sw_limits (store_of st) = sw_limits (hs_store st)"
  by (simp_all add: store_of_def)

lemma respond_parts [simp]:
  "ht_status (respond n b) = n" "ht_headers (respond n b) = []" "ht_body (respond n b) = b"
  by (simp_all add: respond_def)

lemma context_views [simp]:
  "context_identity (with_cancellation t ctx) = context_identity ctx"
  "context_identity (ctx\<lparr>tx_client := ch\<rparr>) = context_identity ctx"
  "context_identity (call_context L hv d rendering session request ctx st) = context_identity ctx"
  by (simp_all add: context_identity_def with_cancellation_def call_context_def Let_def split: option.split)

text \<open>The gates in front of everything, as one condition.\<close>

definition gates_pass ::
  "('f, 'q) http_libraries \<Rightarrow> ('s, 'a) http_server \<Rightarrow> header_map \<Rightarrow> string option \<Rightarrow> bool" where
  "gates_pass L hv headers target \<longleftrightarrow>
     origin_allowed (hl_to_str L) headers (hv_allowed_origins hv)
     \<and> (\<forall>allowed. hv_allowed_hosts hv = Some allowed \<longrightarrow> check_host (hl_to_str L) headers target allowed = Inr ())"

lemma check_origin_and_host_iff: "check_origin_and_host L hv headers target = Inr () \<longleftrightarrow> gates_pass L hv headers target"
  by (auto simp: check_origin_and_host_def gates_pass_def split: option.splits sum.splits)

text \<open>A call in progress went through every stage.\<close>

lemma post_calling:
  assumes "handle_mcp_post L hv d headers target body st = (st', Calling c)"
  obtains raw request0 request modern rendering named w ctx session st1 s srv where
    "gates_pass L hv headers target" "is_json_content_type (hl_to_str L) headers"
    "negotiate (hl_weights L) (hl_to_str L) headers = Some rendering"
    "body = Inr raw" "parse_message (lib_read_json (hl_libraries L)) raw = Inr (Request request0)"
    "read_request L hv headers request0 = Inr (request, modern)"
    "named_session L hv headers request modern = Inr named"
    "authenticate (hv_server hv) (dr_anonymous d) request (ss_world (hs_server st)) = (w, Inr ctx)"
    "enter_session (dr_now d) named ctx (with_world w st) = (st1, Inr session)"
    "rq_method request \<noteq> ''initialize''"
    "dispatch_begin (hl_libraries L) (hv_server hv) (dr_clock d) (dr_call d) request
       (call_context L hv d rendering session request ctx st1) (hs_server (set_outbox (dr_outbox d) True st1))
     = (srv, Serving s)"
    "st' = (set_outbox (dr_outbox d) True st1)\<lparr>hs_server := srv\<rparr>"
    "c = \<lparr>cl_serving = s, cl_session = session, cl_outbox = dr_outbox d, cl_modern = modern,
          cl_rendering = rendering\<rparr>"
proof -
  from assms obtain rendering raw request0 where gate: "check_origin_and_host L hv headers target = Inr ()"
    "is_json_content_type (hl_to_str L) headers"
    "negotiate (hl_weights L) (hl_to_str L) headers = Some rendering"
    "body = Inr raw" "parse_message (lib_read_json (hl_libraries L)) raw = Inr (Request request0)"
    and serve: "serve_request L hv d headers request0 rendering st = (st', Calling c)"
    unfolding handle_mcp_post_def
    by (auto split: sum.splits if_splits option.splits rpc_message.splits prod.splits)
  from serve obtain request modern named w ctx session st1 where stages:
    "read_request L hv headers request0 = Inr (request, modern)"
    "named_session L hv headers request modern = Inr named"
    "authenticate (hv_server hv) (dr_anonymous d) request (ss_world (hs_server st)) = (w, Inr ctx)"
    "enter_session (dr_now d) named ctx (with_world w st) = (st1, Inr session)"
    "rq_method request \<noteq> ''initialize''"
    and call: "serve_call L hv d request modern rendering ctx session st1 = (st', Calling c)"
    unfolding serve_request_def
    by (auto split: sum.splits if_splits prod.splits)
  from call obtain srv s where
    "dispatch_begin (hl_libraries L) (hv_server hv) (dr_clock d) (dr_call d) request
       (call_context L hv d rendering session request ctx st1) (hs_server (set_outbox (dr_outbox d) True st1))
     = (srv, Serving s)"
    "st' = (set_outbox (dr_outbox d) True st1)\<lparr>hs_server := srv\<rparr>"
    "c = \<lparr>cl_serving = s, cl_session = session, cl_outbox = dr_outbox d, cl_modern = modern,
          cl_rendering = rendering\<rparr>"
    unfolding serve_call_def Let_def on_server_def
    by (auto split: prod.splits dispatched.splits)
  with gate stages show ?thesis using that unfolding check_origin_and_host_iff by blast
qed

lemma read_request_Inr:
  assumes "read_request L hv headers request0 = Inr (request, modern)"
  shows "rq_auth request = bearer_token (hl_to_str L) headers"
    and "rq_headers request = forwarded_headers (hl_to_str L) headers"
    and "rq_method request = rq_method request0" and "rq_params request = rq_params request0"
    and "rq_id request = rq_id request0"
    and "modern \<longleftrightarrow> (\<exists>v t. get_all headers PROTOCOL_VERSION_HEADER = [v] \<and> hl_to_str L v = Some t
           \<and> is_modern_revision (trim t))"
  using assms
  by (auto simp: read_request_def Let_def result_bind_Inr_iff accepted_protocol_version_def
      protocol_version_header_def with_metadata_def split: option.splits sum.splits if_splits list.splits)

lemma begun_serving:
  assumes "dispatch_begin L srv clock token request ctx st = (st', Serving s)"
  shows "sg_request s = request" and "sg_ctx s = with_cancellation (g_token (sg_guard s)) ctx"
    and "sg_parent s = tx_cancellation ctx" and "ss_world st' = ss_world st"
  using assms by (auto simp: dispatch_begin_def split: if_splits option.splits prod.splits)

lemma enter_session_Inr:
  assumes "enter_session now named ctx st = (st1, Inr session)"
  shows "named = None \<and> session = None \<and> st1 = st
    \<or> (\<exists>sid r. named = Some sid \<and> session = Some r \<and> st1 = set_store (store_of st1) st
         \<and> store_enter now sid (context_identity ctx) (store_of st) = (store_of st1, Some r))"
  using assms by (auto simp: enter_session_def split: option.splits prod.splits)

lemma call_context_parts:
  "with_cancellation t (call_context L hv d rendering session request ctx st) =
     ctx\<lparr>tx_cancellation := t,
         tx_client := connected (dr_scope d)
           (http_client_connection L hv (if may_stream rendering then Some (dr_outbox d) else None) session ctx
              (rq_auth request) st)\<rparr>"
  by (cases ctx; cases session)
    (simp_all add: call_context_def with_cancellation_def http_client_connection_def context_identity_def)

text \<open>
  C1: every call runs as the caller the hook admitted. A call in progress passed the origin and host
  gates and both media-type checks; its request carries the bearer credential of the
  \<^verbatim>\<open>Authorization\<close> header and the forwarded headers, nothing a body could have put there; the hook
  admitted exactly that request; and the identity, the admin flag, the scopes and the rest the
  handler sees are those the hook resolved, its client the one holding that credential in
  that session.
\<close>

theorem calls_run_as_the_admitted_caller:
  assumes "handle_mcp_post L hv d headers target body st = (st', Calling c)"
  shows "gates_pass L hv headers target \<and> is_json_content_type (hl_to_str L) headers
    \<and> negotiate (hl_weights L) (hl_to_str L) headers = Some (cl_rendering c)
    \<and> rq_auth (sg_request (cl_serving c)) = bearer_token (hl_to_str L) headers
    \<and> rq_headers (sg_request (cl_serving c)) = forwarded_headers (hl_to_str L) headers
    \<and> (\<exists>w ctx connection token scope.
         authenticate (hv_server hv) (dr_anonymous d) (sg_request (cl_serving c)) (ss_world (hs_server st)) = (w, Inr ctx)
         \<and> sg_ctx (cl_serving c) = ctx\<lparr>tx_cancellation := token, tx_client := connected scope connection\<rparr>
         \<and> cn_session connection = cl_session c
         \<and> cn_caller connection = key_http (hl_fingerprint L) (context_identity ctx)
              (Option.bind (cl_session c) (\<lambda>r. s_id (cw_sessions (clients_of st') r)))
              (bearer_token (hl_to_str L) headers)
         \<and> (cn_outbound connection \<noteq> None \<longleftrightarrow> may_stream (cl_rendering c)))"
proof -
  from assms show ?thesis
  proof (rule post_calling)
    fix raw request0 request modern rendering named w ctx session st1 s srv
    assume gates: "gates_pass L hv headers target" "is_json_content_type (hl_to_str L) headers"
        "negotiate (hl_weights L) (hl_to_str L) headers = Some rendering"
      and read: "read_request L hv headers request0 = Inr (request, modern)"
      and auth: "authenticate (hv_server hv) (dr_anonymous d) request (ss_world (hs_server st)) = (w, Inr ctx)"
      and begun: "dispatch_begin (hl_libraries L) (hv_server hv) (dr_clock d) (dr_call d) request
          (call_context L hv d rendering session request ctx st1) (hs_server (set_outbox (dr_outbox d) True st1))
          = (srv, Serving s)"
      and st': "st' = (set_outbox (dr_outbox d) True st1)\<lparr>hs_server := srv\<rparr>"
      and c: "c = \<lparr>cl_serving = s, cl_session = session, cl_outbox = dr_outbox d, cl_modern = modern,
          cl_rendering = rendering\<rparr>"
    note serving = begun_serving [OF begun]
    have heap: "cw_sessions (clients_of st') = cw_sessions (clients_of st1)"
      using serving(4) outbox_views(2) [of "dr_outbox d" True st1] by (simp add: st' clients_of_def)
    let ?connection = "http_client_connection L hv (if may_stream rendering then Some (dr_outbox d) else None)
        session ctx (rq_auth request) st1"
    have "sg_ctx s = ctx\<lparr>tx_cancellation := g_token (sg_guard s), tx_client := connected (dr_scope d) ?connection\<rparr>"
      using serving(2) by (simp add: call_context_parts)
    moreover have "cn_session ?connection = session"
        "cn_caller ?connection = key_http (hl_fingerprint L) (context_identity ctx)
              (Option.bind session (\<lambda>r. s_id (cw_sessions (clients_of st') r)))
              (bearer_token (hl_to_str L) headers)"
        "cn_outbound ?connection \<noteq> None \<longleftrightarrow> may_stream rendering"
      by (simp_all add: http_client_connection_def heap read_request_Inr(1) [OF read])
    ultimately have "\<exists>connection token scope.
        sg_ctx s = ctx\<lparr>tx_cancellation := token, tx_client := connected scope connection\<rparr>
        \<and> cn_session connection = session
        \<and> cn_caller connection = key_http (hl_fingerprint L) (context_identity ctx)
              (Option.bind session (\<lambda>r. s_id (cw_sessions (clients_of st') r)))
              (bearer_token (hl_to_str L) headers)
        \<and> (cn_outbound connection \<noteq> None \<longleftrightarrow> may_stream rendering)" by blast
    then show ?thesis
      using gates auth read_request_Inr(1,2) [OF read] serving(1) by (auto simp: c)
  qed
qed

lemma session_id_header_Inr:
  "session_id_header L headers rid = Inr named \<longleftrightarrow>
     (case named of
        None \<Rightarrow> get_all headers ''mcp-session-id'' = []
      | Some sid \<Rightarrow> \<exists>v t. get_all headers ''mcp-session-id'' = [v] \<and> hl_to_str L v = Some t \<and> sid = trim t)"
  by (auto simp: session_id_header_def Let_def split: list.splits option.splits)

text \<open>The session a live id names, its owner's, busy with the request.\<close>

definition runs_in :: "('s, 'a) http_state \<Rightarrow> string \<Rightarrow> sref \<Rightarrow> identity \<Rightarrow> bool" where
  "runs_in st sid r who \<longleftrightarrow>
     map_of (sw_sessions (hs_store st)) sid = Some r
     \<and> is_owned_by (cw_sessions (clients_of st) r) who
     \<and> (\<forall>ttl now. \<not> Session.is_expired ttl now (cw_sessions (clients_of st) r))"

lemma entered_session_runs:
  assumes "enter_session now (Some sid) ctx st = (st1, Inr session)"
  shows "\<exists>r. session = Some r \<and> runs_in st1 sid r (context_identity ctx)"
proof -
  obtain r where r: "session = Some r" "st1 = set_store (store_of st1) st"
    and entered: "store_enter now sid (context_identity ctx) (store_of st) = (store_of st1, Some r)"
    using enter_session_Inr [OF assms] by auto
  have sessions: "sw_sessions (store_of st1) = sw_sessions (sweep_if_due now (store_of st))"
    and heap: "sw_heap (store_of st1) r = session_enter (sw_heap (store_of st) r)"
    unfolding store_enter_Some(1) [OF entered] by (simp_all add: write_session_def)
  have "map_of (sw_sessions (hs_store st1)) sid = Some r"
    using store_enter_Some(2) [OF entered] sessions by simp
  moreover have "is_owned_by (cw_sessions (clients_of st1) r) (context_identity ctx)"
    using store_enter_Some(4) [OF entered] heap by (simp add: is_owned_by_def session_enter_def)
  moreover have "\<not> Session.is_expired ttl t (cw_sessions (clients_of st1) r)" for ttl t
    using heap by (simp add: Session.is_expired_def is_idle_def session_enter_def)
  ultimately show ?thesis using r(1) by (auto simp: runs_in_def)
qed

text \<open>
  C2: a request runs in its own session or not at all. On a server that keeps sessions, a legacy
  call that names one is in progress only in the live session that single, readable header names:
  it is in the store, it belongs to the caller the hook admitted, it is counted busy, so no sweep
  expires it, and the call's cancellation hangs off the session's. Any other call runs in no
  session: a modern one, one that names none, or one on a server that keeps none.
\<close>

theorem requests_run_in_their_own_session:
  assumes "handle_mcp_post L hv d headers target body st = (st', Calling c)"
  shows "if hv_sessions hv \<and> get_all headers ''mcp-session-id'' \<noteq> []
         \<and> \<not> (\<exists>v t. get_all headers PROTOCOL_VERSION_HEADER = [v] \<and> hl_to_str L v = Some t
               \<and> is_modern_revision (trim t))
    then \<exists>v t r. get_all headers ''mcp-session-id'' = [v] \<and> hl_to_str L v = Some t \<and> cl_session c = Some r
           \<and> runs_in st' (trim t) r (context_identity (sg_ctx (cl_serving c)))
           \<and> sg_parent (cl_serving c) = s_cancellation (cw_sessions (clients_of st') r)
    else cl_session c = None"
proof -
  from assms show ?thesis
  proof (rule post_calling)
    fix raw request0 request modern rendering named w ctx session st1 s srv
    assume read: "read_request L hv headers request0 = Inr (request, modern)"
      and named: "named_session L hv headers request modern = Inr named"
      and enter: "enter_session (dr_now d) named ctx (with_world w st) = (st1, Inr session)"
      and plain: "rq_method request \<noteq> ''initialize''"
      and begun: "dispatch_begin (hl_libraries L) (hv_server hv) (dr_clock d) (dr_call d) request
          (call_context L hv d rendering session request ctx st1) (hs_server (set_outbox (dr_outbox d) True st1))
          = (srv, Serving s)"
      and st': "st' = (set_outbox (dr_outbox d) True st1)\<lparr>hs_server := srv\<rparr>"
      and c: "c = \<lparr>cl_serving = s, cl_session = session, cl_outbox = dr_outbox d, cl_modern = modern,
          cl_rendering = rendering\<rparr>"
    note serving = begun_serving [OF begun]
    have views: "cw_sessions (clients_of st') = cw_sessions (clients_of st1)" "hs_store st' = hs_store st1"
      using serving(4) outbox_views(1,2) [of "dr_outbox d" True st1] by (simp_all add: st' clients_of_def)
    show ?thesis
    proof (cases named)
      case None
      then show ?thesis
        using enter_session_Inr [OF enter] named plain read_request_Inr(6) [OF read]
        by (auto simp: c named_session_def session_id_header_Inr split: if_splits)
    next
      case (Some sid)
      then obtain v t where kept: "hv_sessions hv" "\<not> modern" "get_all headers ''mcp-session-id'' = [v]"
        "hl_to_str L v = Some t" "sid = trim t"
        using named by (auto simp: named_session_def session_id_header_Inr split: if_splits)
      obtain r where r: "session = Some r" "runs_in st1 sid r (context_identity ctx)"
        using entered_session_runs [of "dr_now d" sid ctx "with_world w st" st1 session] enter Some by auto
      have "sg_parent s = s_cancellation (cw_sessions (clients_of st') r)"
        using serving(3) r(1) by (simp add: views call_context_def with_cancellation_def Let_def)
      moreover have "context_identity (sg_ctx s) = context_identity ctx" using serving(2) by simp
      ultimately show ?thesis
        using kept r read_request_Inr(6) [OF read] by (auto simp: c views runs_in_def)
    qed
  qed
qed

lemma check_origin_and_host_Inl: "check_origin_and_host L hv headers target = Inl r \<Longrightarrow> ht_status r \<in> {400, 403}"
  by (auto simp: check_origin_and_host_def check_host_def request_authority_def HOST_NOT_ALLOWED_def
      result_bind_Inl_iff split: if_splits option.splits sum.splits list.splits)

lemma auth_refusal_status: "ht_status (auth_refusal_response e) \<in> {401, 403, 429, 500}"
  by (cases e) (simp_all add: Let_def)

lemma session_id_header_Inl: "session_id_header L headers rid = Inl r \<Longrightarrow> ht_status r = 400"
  by (auto simp: session_id_header_def Let_def split: list.splits option.splits)

lemma owned_session_Some:
  assumes "owned_session now sid ctx st = (st1, Some r)"
  shows "st1 = set_store (sweep_if_due now (store_of st)) st"
    and "map_of (sw_sessions (sweep_if_due now (store_of st))) sid = Some r"
    and "is_owned_by (cw_sessions (clients_of st) r) (context_identity ctx)"
  using assms sweep_heap [of now "store_of st"]
  by (auto simp: owned_session_def store_find_def Let_def split: prod.splits option.splits if_splits)

text \<open>A call whose session ended finds itself cancelled at its next turn, before its handler.\<close>

lemma cancelled_turn:
  assumes "sg_parent (cl_serving c) \<in> set (cw_fired (clients_of st))"
  shows "hw_app (ss_world (hs_server (fst (call_turn L hv d c st)))) = hw_app (ss_world (hs_server st))"
    and "hw_tasks (ss_world (hs_server (fst (call_turn L hv d c st)))) = hw_tasks (ss_world (hs_server st))"
    and "snd (call_turn L hv d c st) =
      answer_now (cl_modern c) (cl_rendering c) (cw_out (clients_of st) (cl_outbox c)) None"
proof -
  have "is_cancelled (cl_serving c) (hs_server st)"
    using assms by (simp add: is_cancelled_def clients_of_def)
  then have turn: "call_turn L hv d c st =
      finish_call (dr_later d) (cl_session c) (cl_outbox c) (cl_modern c) (cl_rendering c) None
        (st\<lparr>hs_server := (hs_server st)\<lparr>ss_in_flight := guard_drop (sg_guard (cl_serving c)) (ss_in_flight (hs_server st))\<rparr>\<rparr>)"
    by (simp add: call_turn_def on_server_def dispatch_poll_def)
  have left: "hw_app (ss_world (hs_server (leave_session now session u))) = hw_app (ss_world (hs_server u))"
    "hw_tasks (ss_world (hs_server (leave_session now session u))) = hw_tasks (ss_world (hs_server u))"
    for now session and u :: "('a, 'b) http_state"
    by (simp_all add: leave_session_def set_store_def set_clients_def split: option.split)
  have boxed: "hw_app (ss_world (hs_server (set_outbox q b u))) = hw_app (ss_world (hs_server u))"
    "hw_tasks (ss_world (hs_server (set_outbox q b u))) = hw_tasks (ss_world (hs_server u))"
    for q b and u :: "('a, 'b) http_state"
    by (simp_all add: set_outbox_def set_clients_def)
  show "hw_app (ss_world (hs_server (fst (call_turn L hv d c st)))) = hw_app (ss_world (hs_server st))"
    "hw_tasks (ss_world (hs_server (fst (call_turn L hv d c st)))) = hw_tasks (ss_world (hs_server st))"
    "snd (call_turn L hv d c st) =
      answer_now (cl_modern c) (cl_rendering c) (cw_out (clients_of st) (cl_outbox c)) None"
    by (simp_all add: turn finish_call_def left boxed clients_of_def)
qed


subsection \<open>Where a session id is answered\<close>

lemma on_server_store [simp]: "hs_store (fst (on_server f st)) = hs_store st"
  by (simp add: on_server_def split: prod.split)

definition names_session :: "http_response \<Rightarrow> bool" where
  "names_session r \<longleftrightarrow> ''mcp-session-id'' \<in> fst ` set (ht_headers r)"

lemma respond_names_no_session [simp]: "\<not> names_session (respond n b)"
  by (simp add: names_session_def)

lemma refusals_name_no_session [simp]:
  "\<not> names_session (transport_refusal n code m)" "\<not> names_session (header_mismatch rid m)"
  "\<not> names_session (session_not_found rid)" "\<not> names_session (no_room_for_session rid why)"
  by (simp_all add: transport_refusal_def header_mismatch_def session_not_found_def no_room_for_session_def)

lemma auth_refusal_names_no_session [simp]: "\<not> names_session (auth_refusal_response e)"
  by (cases e) (simp_all add: names_session_def Let_def)

lemma render_response_names_no_session [simp]: "\<not> names_session (render_response response modern rendering)"
  by (simp add: render_response_def respond_sse_def Let_def split: option.split)

lemma answer_now_names_no_session [simp]: "\<not> names_session (answer_now modern rendering sent response)"
  by (simp add: answer_now_def)

lemma gate_refusals_name_no_session:
  "check_origin_and_host L hv headers target = Inl r \<Longrightarrow> \<not> names_session r"
  "accepted_protocol_version L hv headers rid = Inl r \<Longrightarrow> \<not> names_session r"
  "session_id_header L headers rid = Inl r \<Longrightarrow> \<not> names_session r"
  "read_request L hv headers request0 = Inl r \<Longrightarrow> \<not> names_session r"
  "named_session L hv headers request modern = Inl r \<Longrightarrow> \<not> names_session r"
proof -
  show gate: "check_origin_and_host L hv headers target = Inl r \<Longrightarrow> \<not> names_session r" for r
    by (auto simp: check_origin_and_host_def split: if_splits option.splits sum.splits)
  show version: "accepted_protocol_version L hv headers rid = Inl r \<Longrightarrow> \<not> names_session r" for r rid
    by (auto simp: accepted_protocol_version_def split: if_splits option.splits sum.splits)
  show sid: "session_id_header L headers rid = Inl r \<Longrightarrow> \<not> names_session r" for r rid
    by (auto simp: session_id_header_def Let_def split: list.splits option.splits)
  show "read_request L hv headers request0 = Inl r \<Longrightarrow> \<not> names_session r"
    by (auto simp: read_request_def Let_def result_bind_Inl_iff dest: version split: if_splits sum.splits option.splits)
  show "named_session L hv headers request modern = Inl r \<Longrightarrow> \<not> names_session r"
    by (auto simp: named_session_def dest: sid split: if_splits)
qed

lemma serve_initialize_modern:
  assumes "serve_initialize L hv d request True rendering ctx st = (st', r)"
  shows "hs_store st' = hs_store st \<and> \<not> names_session r"
proof -
  obtain st3 response where ran: "on_server (handle_now L hv d request
      (call_context L hv d rendering None request ctx st)) (set_outbox (dr_outbox d) True st) = (st3, response)"
    by (cases "on_server (handle_now L hv d request
      (call_context L hv d rendering None request ctx st)) (set_outbox (dr_outbox d) True st)")
  have "hs_store st3 = hs_store st" using arg_cong [OF ran, of "\<lambda>x. hs_store (fst x)"] by simp
  then show ?thesis
    using assms ran
    by (auto simp: serve_initialize_def mint_session_def enter_minted_def keep_session_def leave_session_def
        with_session_id_def Let_def)
qed

lemma serve_call_sessionless:
  assumes "serve_call L hv d request modern rendering ctx None st = (st', answer)"
  shows "hs_store st' = hs_store st
    \<and> (case answer of Answered r \<Rightarrow> \<not> names_session r | Calling c \<Rightarrow> cl_session c = None)"
proof -
  let ?run = "on_server (dispatch_begin (hl_libraries L) (hv_server hv) (dr_clock d) (dr_call d) request
      (call_context L hv d rendering None request ctx st)) (set_outbox (dr_outbox d) True st)"
  obtain st1 out where ran: "?run = (st1, out)" by (cases ?run)
  have "hs_store st1 = hs_store st" using arg_cong [OF ran, of "\<lambda>x. hs_store (fst x)"] by simp
  then show ?thesis
    using assms ran by (auto simp: serve_call_def finish_call_def leave_session_def Let_def split: dispatched.splits)
qed

lemma serve_call_names_no_session:
  "serve_call L hv d request modern rendering ctx session st = (st', Answered r) \<Longrightarrow> \<not> names_session r"
  by (auto simp: serve_call_def finish_call_def Let_def split: dispatched.splits prod.splits)

lemma accept_client_response_modern:
  assumes "accept_client_response L hv d headers response st = (st', r)"
    and "get_all headers PROTOCOL_VERSION_HEADER = [v]" and "hl_to_str L v = Some t" and "is_modern_revision (trim t)"
  shows "hs_store st' = hs_store st"
proof -
  have "version = Some (trim t)" if "accepted_protocol_version L hv headers None = Inr version" for version
    using that assms(2,3) by (auto simp: accepted_protocol_version_def protocol_version_header_def split: if_splits)
  then show ?thesis
    using assms(1,4)
    by (auto simp: accept_client_response_def admit_response_def deliver_client_response_def Let_def
        split: sum.splits prod.splits)
qed

lemma accept_client_response_names_no_session:
  "accept_client_response L hv d headers response st = (st', r) \<Longrightarrow> \<not> names_session r"
  by (auto simp: accept_client_response_def admit_response_def Let_def dest: gate_refusals_name_no_session
      split: sum.splits prod.splits if_splits option.splits)

text \<open>
  Sessions are the earlier revisions' alone. A POST whose \<^verbatim>\<open>MCP-Protocol-Version\<close> is a modern
  revision leaves the session store as it was, whatever \<^verbatim>\<open>Mcp-Session-Id\<close> it carries, whatever
  the message is and however it ends: its call runs in no session, and no answer to it names
  one, a modern \<^verbatim>\<open>initialize\<close> included.
\<close>

theorem modern_requests_keep_out_of_sessions:
  assumes post: "handle_mcp_post L hv d headers target body st = (st', answer)"
    and modern: "get_all headers PROTOCOL_VERSION_HEADER = [v]" "hl_to_str L v = Some t" "is_modern_revision (trim t)"
  shows "hs_store st' = hs_store st
    \<and> (case answer of Answered r \<Rightarrow> \<not> names_session r | Calling c \<Rightarrow> cl_session c = None)"
proof -
  have era: "m" if "read_request L hv headers request0 = Inr (request, m)" for request0 request m
    using read_request_Inr(6) [OF that] modern by blast
  have serve: "hs_store u = hs_store st
      \<and> (case answer of Answered r \<Rightarrow> \<not> names_session r | Calling c \<Rightarrow> cl_session c = None)"
    if served: "serve_request L hv d headers request0 rendering st = (u, answer)" for request0 rendering u
  proof (cases "read_request L hv headers request0")
    case (Inl r)
    then show ?thesis using served gate_refusals_name_no_session(4) [OF Inl] by (auto simp: serve_request_def)
  next
    case (Inr read)
    then obtain request where read: "read_request L hv headers request0 = Inr (request, True)"
      using era by (cases read) auto
    obtain w verdict where auth: "authenticate (hv_server hv) (dr_anonymous d) request (ss_world (hs_server st)) = (w, verdict)"
      by (cases "authenticate (hv_server hv) (dr_anonymous d) request (ss_world (hs_server st))")
    show ?thesis
      using served serve_initialize_modern [of L hv d request rendering _ "with_world w st" u]
        serve_call_sessionless [of L hv d request True rendering _ "with_world w st" u answer]
      by (cases verdict) (auto simp: serve_request_def read auth named_session_def enter_session_def
          split: if_splits prod.splits)
  qed
  show ?thesis
    using post serve
    by (auto simp: handle_mcp_post_def dest: gate_refusals_name_no_session
        accept_client_response_modern [OF _ modern] accept_client_response_names_no_session
        split: sum.splits if_splits option.splits rpc_message.splits prod.splits)
qed

lemma store_insert_Inr:
  assumes "store_insert now r w0 = (w, Inr u)" and "s_id (sw_heap w0 r) = Some sid"
  shows "map_of (sw_sessions w) sid = Some r" and "sw_heap w = sw_heap w0"
proof -
  have dropped: "sw_heap (drop_expired now v) = sw_heap v" for v by (simp add: drop_expired_def)
  have removed: "sw_heap (remove_ending key v) = sw_heap v" for key v
    by (simp add: remove_ending_def end_ref_def split: option.split)
  have room: "map_of (sw_sessions w) sid = Some r \<and> sw_heap w = sw_heap v"
    if "insert_with_room now sid r v = (w, Inr u)" for v
    using that by (auto simp: insert_with_room_def Let_def dropped map_of_update split: if_splits)
  show "map_of (sw_sessions w) sid = Some r" "sw_heap w = sw_heap w0"
    using assms room removed sweep_heap [of now w0]
    by (auto simp: store_insert_def Let_def split: if_splits option.splits prod.splits)
qed

text \<open>What a handshake that succeeds does: it ran in the legacy era, and wrote its session only.\<close>

lemma handle_now_initialize:
  assumes "handle_now L hv d request ctx srv = (srv', Some answer)" and "is_success answer"
    and "rq_method request = ''initialize''"
  shows "ss_world srv' = on_session ctx (record_capabilities (param (rq_params request) ''capabilities'')) (ss_world srv)"
proof -
  let ?r = "route (hl_libraries L) (hv_server hv) (dr_clock d) request ctx (ss_world srv)"
  have ran: "ss_world srv' = fst ?r \<and> answer = snd ?r"
    using assms
    by (auto simp: handle_now_def dispatch_begin_def is_success_def response_error_def
        split: if_splits option.splits prod.splits)
  then have era: "request_era request = MetaLegacy"
    using initialize_success_era [of request "hl_libraries L" "hv_server hv" "dr_clock d" ctx "ss_world srv"] assms by simp
  have same: "channel_session (tx_client (bound_context (hv_server hv) request Legacy ctx)) = channel_session (tx_client ctx)"
    by (rule same_caller_fields(5)) simp
  have "fst ?r = on_session (bound_context (hv_server hv) request Legacy ctx)
      (record_capabilities (param (rq_params request) ''capabilities'')) (ss_world srv)"
    using era assms(3) by (simp add: route_initialize handle_initialize_def Let_def)
  also have "\<dots> = on_session ctx (record_capabilities (param (rq_params request) ''capabilities'')) (ss_world srv)"
    by (simp add: on_session_def same)
  finally show ?thesis using ran by simp
qed

lemma handle_now_shakes:
  assumes "request_era request = MetaLegacy" and "rq_method request = ''initialize''"
    and "rq_jsonrpc request = JSONRPC_VERSION" and "rq_id request = Some rid"
  shows "\<exists>srv' answer. handle_now L hv d request ctx srv = (srv', Some answer) \<and> is_success answer"
  using assms
  by (simp add: handle_now_def dispatch_begin_def route_initialize handle_initialize_def success_or_error_def
      response_success_def is_success_def Let_def)

lemma call_context_session [simp]:
  "channel_session (tx_client (call_context L hv d rendering session request ctx st)) = session"
  by (simp add: call_context_def channel_session_def connected_def http_client_connection_def Let_def)

lemma keep_session_named:
  assumes "keep_session now session response st = (st', Inr (Some sid))"
  shows "\<exists>r answer. session = Some r \<and> response = Some answer \<and> is_success answer
    \<and> s_id (cw_sessions (clients_of st) r) = Some sid
    \<and> map_of (sw_sessions (hs_store st')) sid = Some r
    \<and> cw_sessions (clients_of st') = cw_sessions (clients_of st)"
proof -
  obtain r answer where parts: "session = Some r" "response = Some answer" "is_success answer"
    using assms by (auto simp: keep_session_def split: option.splits if_splits)
  then obtain w u where kept: "store_insert now r (store_of st) = (w, Inr u)" "st' = set_store w st"
    "s_id (cw_sessions (clients_of st) r) = Some sid"
    using assms by (auto simp: keep_session_def split: prod.splits sum.splits)
  then show ?thesis using parts store_insert_Inr [OF kept(1), of sid] by simp
qed

lemma leave_session_Some:
  "cw_sessions (clients_of (leave_session now (Some r) st)) r = session_leave now (cw_sessions (clients_of st) r)"
  by (simp add: leave_session_def use_drop_def)

lemma serve_initialize_named:
  assumes served: "serve_initialize L hv d request modern rendering ctx st = (st', r)" and named: "names_session r"
    and shake: "rq_method request = ''initialize''"
  shows "hv_sessions hv \<and> \<not> modern \<and> ht_status r = 200
    \<and> (\<exists>sid v. ht_headers r = [(''mcp-session-id'', v)] \<and> hl_header_value L sid = Some v
         \<and> dr_session_id d = Inr sid
         \<and> map_of (sw_sessions (hs_store st')) sid = Some (dr_session_ref d)
         \<and> cw_sessions (clients_of st') (dr_session_ref d) =
             \<lparr>s_id = Some sid, s_user = tx_user_id ctx, s_tenant = tx_tenant_id ctx,
              s_capabilities = capabilities_from_initialize (param (rq_params request) ''capabilities''),
              s_log_level = None, s_last_seen = dr_later d, s_active = 0,
              s_cancellation = dr_session_token d\<rparr>)"
proof -
  obtain st1 session where mint: "mint_session hv d modern ctx st = (st1, Inr session)"
    using served named by (auto simp: serve_initialize_def mint_session_def split: if_splits sum.splits)
  let ?ctx = "call_context L hv d rendering session request ctx st1"
  let ?st2 = "enter_minted session (set_outbox (dr_outbox d) True st1)"
  obtain srv response where ran: "handle_now L hv d request ?ctx (hs_server ?st2) = (srv, response)"
    by (cases "handle_now L hv d request ?ctx (hs_server ?st2)")
  let ?st3 = "leave_session (dr_later d) session (?st2\<lparr>hs_server := srv\<rparr>)"
  obtain st4 sid v where kept: "keep_session (dr_insert d) session response ?st3 = (st4, Inr (Some sid))"
    and written: "hl_header_value L sid = Some v" and st': "st' = set_outbox (dr_outbox d) False st4"
    and r: "r = with_session_id L (Some sid) (render_response response modern rendering)"
  proof -
    obtain st4 out where out: "keep_session (dr_insert d) session response ?st3 = (st4, out)"
      by (cases "keep_session (dr_insert d) session response ?st3")
    show ?thesis
      using served named mint ran out that
      by (cases out) (auto simp: serve_initialize_def on_server_def with_session_id_def Let_def
          split: option.splits bind_splits)
  qed
  obtain ref answer where final: "session = Some ref" "response = Some answer" "is_success answer"
    "s_id (cw_sessions (clients_of ?st3) ref) = Some sid" "map_of (sw_sessions (hs_store st4)) sid = Some ref"
    "cw_sessions (clients_of st4) = cw_sessions (clients_of ?st3)"
    using keep_session_named [OF kept] by auto
  obtain key where minted: "hv_sessions hv" "\<not> modern" "dr_session_id d = Inr key" "ref = dr_session_ref d"
    "st1 = set_store (write_session ref (session_new (dr_now d) (dr_session_token d) (Some key) (context_identity ctx))
        (store_of st)) st"
    using mint final(1) by (auto simp: mint_session_def mint_def result_bind_Inr_iff split: if_splits sum.splits)
  have world: "ss_world srv = on_session ?ctx (record_capabilities (param (rq_params request) ''capabilities''))
      (ss_world (hs_server ?st2))"
    using ran final(2,3) shake by (intro handle_now_initialize) simp_all
  have heap: "cw_sessions (clients_of ?st3) ref =
      session_leave (dr_later d) (record_capabilities (param (rq_params request) ''capabilities'')
        (session_enter (session_new (dr_now d) (dr_session_token d) (Some key) (context_identity ctx))))"
  proof -
    have entered: "cw_sessions (clients_of ?st2) ref =
        session_enter (session_new (dr_now d) (dr_session_token d) (Some key) (context_identity ctx))"
      by (simp add: final(1) enter_minted_def write_session_def minted(5))
    have "cw_sessions (hw_clients (ss_world srv)) ref =
        record_capabilities (param (rq_params request) ''capabilities'') (cw_sessions (clients_of ?st2) ref)"
      using world by (simp add: on_session_def final(1) clients_of_def)
    then show ?thesis
      using entered leave_session_Some [of "dr_later d" ref "?st2\<lparr>hs_server := srv\<rparr>"]
      by (simp add: final(1) clients_of_def)
  qed
  have same: "sid = key" using final(4) heap by (simp add: session_leave_def record_capabilities_def session_enter_def session_new_def)
  have status: "ht_status (render_response response modern rendering) = 200"
    "ht_headers (render_response response modern rendering) = []"
    using final(2,3) by (simp_all add: render_response_def response_status_def is_success_def respond_sse_def Let_def)
  have "cw_sessions (clients_of st') ref =
      \<lparr>s_id = Some sid, s_user = tx_user_id ctx, s_tenant = tx_tenant_id ctx,
       s_capabilities = capabilities_from_initialize (param (rq_params request) ''capabilities''),
       s_log_level = None, s_last_seen = dr_later d, s_active = 0, s_cancellation = dr_session_token d\<rparr>"
    using heap by (simp add: st' final(6) same session_leave_def record_capabilities_def session_enter_def
        session_new_def context_identity_def)
  then show ?thesis
    using minted final(5) written status by (simp add: r st' with_session_id_def same)
qed

text \<open>
  C9: an \<^verbatim>\<open>Mcp-Session-Id\<close> is answered only for a session the client can go on in. Whenever an answer of the
  endpoint carries the header, the server keeps sessions, the request was an \<^verbatim>\<open>initialize\<close> of the
  earlier revisions that succeeded, admitted by the hook; the one id it carries is freshly drawn and names a
  session that is now in the store, idle, owned by the admitted caller, and holding what
  exactly this client declared.
\<close>

theorem answered_session_ids_are_live:
  assumes post: "handle_mcp_post L hv d headers target body st = (st', Answered r)" and named: "names_session r"
  shows "hv_sessions hv \<and> ht_status r = 200
    \<and> (\<exists>sid v w request ctx.
         ht_headers r = [(''mcp-session-id'', v)] \<and> hl_header_value L sid = Some v \<and> dr_session_id d = Inr sid
         \<and> authenticate (hv_server hv) (dr_anonymous d) request (ss_world (hs_server st)) = (w, Inr ctx)
         \<and> rq_method request = ''initialize'' \<and> rq_auth request = bearer_token (hl_to_str L) headers
         \<and> map_of (sw_sessions (hs_store st')) sid = Some (dr_session_ref d)
         \<and> cw_sessions (clients_of st') (dr_session_ref d) =
             \<lparr>s_id = Some sid, s_user = tx_user_id ctx, s_tenant = tx_tenant_id ctx,
              s_capabilities = capabilities_from_initialize (param (rq_params request) ''capabilities''),
              s_log_level = None, s_last_seen = dr_later d, s_active = 0,
              s_cancellation = dr_session_token d\<rparr>)"
proof -
  obtain request0 rendering where served: "serve_request L hv d headers request0 rendering st = (st', Answered r)"
    using post named
    by (auto simp: handle_mcp_post_def dest: gate_refusals_name_no_session accept_client_response_names_no_session
        split: sum.splits if_splits option.splits rpc_message.splits prod.splits)
  then obtain request modern names w ctx st1 session where stages:
    "read_request L hv headers request0 = Inr (request, modern)"
    "authenticate (hv_server hv) (dr_anonymous d) request (ss_world (hs_server st)) = (w, Inr ctx)"
    "enter_session (dr_now d) names ctx (with_world w st) = (st1, Inr session)"
    and shake: "rq_method request = ''initialize''"
    and begun: "serve_initialize L hv d request modern rendering ctx st1 = (st', r)"
    using named
    by (auto simp: serve_request_def dest: gate_refusals_name_no_session serve_call_names_no_session
        split: sum.splits if_splits prod.splits)
  show ?thesis
    using serve_initialize_named [OF begun named shake] stages(2) shake read_request_Inr(1) [OF stages(1)] by blast
qed

subsection \<open>A client's answers\<close>

definition with_waiting ::
  "(nat \<Rightarrow> (pending_key, nat) table option) \<Rightarrow> (nat \<Rightarrow> bool) \<Rightarrow> ('s, 'a) http_state \<Rightarrow> ('s, 'a) http_state" where
  "with_waiting pending listening st =
     set_clients ((clients_of st)\<lparr>cw_pending := pending, cw_listening := listening\<rparr>) st"

lemma with_waiting_views [simp]:
  "store_of (with_waiting p l st) = store_of st"
  "cw_sessions (clients_of (with_waiting p l st)) = cw_sessions (clients_of st)"
  by (simp_all add: with_waiting_def store_of_def)

lemma owned_session_waiting:
  "snd (owned_session now sid ctx (with_waiting p l st)) = snd (owned_session now sid ctx st)"
  "cw_sessions (clients_of (fst (owned_session now sid ctx (with_waiting p l st)))) =
     cw_sessions (clients_of (fst (owned_session now sid ctx st)))"
  by (simp_all add: owned_session_def split: prod.split option.split)

lemma deliver_keys:
  assumes "Client_Channel.deliver table caller response w = (w', told)"
    and "Option.bind (cw_pending w' table) (\<lambda>entries. map_of entries key)
         \<noteq> Option.bind (cw_pending w table) (\<lambda>entries. map_of entries key)"
  shows "pk_caller key = caller \<and> rs_id response = Some (JString (pk_id key))"
  using assms
  by (cases key) (auto simp: Client_Channel.deliver_def forget_def Let_def map_of_delete
      split: option.splits json.splits if_splits)

lemma owned_session_pending [simp]:
  "cw_pending (clients_of (fst (owned_session now sid ctx st))) = cw_pending (clients_of st)"
  by (simp add: owned_session_def split: prod.split option.split)

lemma with_world_same [simp]: "with_world (ss_world (hs_server st)) st = st"
  by (simp add: with_world_def)

lemma owned_session_heap [simp]:
  "cw_sessions (clients_of (fst (owned_session now sid ctx st))) = cw_sessions (clients_of st)"
  using sweep_heap [of now "store_of st"]
  by (auto simp: owned_session_def store_find_def Let_def remove_ending_def end_ref_def split: prod.split option.split)

lemma admit_response_judged:
  assumes hook: "\<And>request w. authenticate (hv_server hv) (dr_anonymous d) request w = (w, verdict request)"
    and admit: "admit_response L hv d headers response st = (st1, v)"
  shows "cw_sessions (clients_of st1) = cw_sessions (clients_of st)"
    and "cw_pending (clients_of st1) = cw_pending (clients_of st)"
    and "v = Inr (ctx, session, message) \<Longrightarrow> verdict message = Inr ctx
        \<and> rq_auth message = bearer_token (hl_to_str L) headers
        \<and> (\<forall>r. session = Some r \<longrightarrow> is_owned_by (cw_sessions (clients_of st) r) (context_identity ctx))"
proof -
  have stays: "cw_sessions (clients_of u) = cw_sessions (clients_of st)" "cw_pending (clients_of u) = cw_pending (clients_of st)"
    if "owned_session (dr_now d) sid ctx st = (u, r)" for u r sid ctx
    using owned_session_heap [of "dr_now d" sid ctx st] owned_session_pending [of "dr_now d" sid ctx st] that by simp_all
  have message: "rq_auth (transport_message L headers rid version) = bearer_token (hl_to_str L) headers" for rid version
    by (simp add: transport_message_def Let_def with_metadata_def split: option.split)
  show "cw_sessions (clients_of st1) = cw_sessions (clients_of st)"
    "cw_pending (clients_of st1) = cw_pending (clients_of st)"
    "v = Inr (ctx, session, message) \<Longrightarrow> verdict message = Inr ctx
        \<and> rq_auth message = bearer_token (hl_to_str L) headers
        \<and> (\<forall>r. session = Some r \<longrightarrow> is_owned_by (cw_sessions (clients_of st) r) (context_identity ctx))"
    using admit stays message owned_session_Some(3)
    by (auto simp: admit_response_def hook Let_def split: sum.splits option.splits prod.splits if_splits)
qed

lemma admit_response_waiting:
  assumes hook: "\<And>request w. authenticate (hv_server hv) (dr_anonymous d) request w = (w, verdict request)"
  shows "snd (admit_response L hv d headers response (with_waiting p l st)) = snd (admit_response L hv d headers response st)"
proof -
  have same: "snd (case owned_session now sid ctx (with_waiting p l st) of
        (st1, None) \<Rightarrow> (st1, Inl refused) | (st1, Some r) \<Rightarrow> (st1, Inr (f r))) =
      snd (case owned_session now sid ctx st of
        (st1, None) \<Rightarrow> (st1, Inl refused) | (st1, Some r) \<Rightarrow> (st1, Inr (f r)))" for now sid ctx refused f
    using owned_session_waiting(1) [of now sid ctx p l st]
    by (cases "owned_session now sid ctx (with_waiting p l st)"; cases "owned_session now sid ctx st")
      (auto split: option.split)
  show ?thesis
    by (simp add: admit_response_def hook Let_def same split: sum.split option.split)
qed

text \<open>
  C11: a client's answer reaches only a request its own caller was sent, and the reply does not say
  whether it reached one. Under a hook that judges the request alone, the answer to a client's
  response is the same whatever requests are pending and whoever is waiting; and the one pending entry
  it may settle is keyed by its own id under the identity the hook admitted, with the
  credential of this very request and in a session of that caller's own.
\<close>

theorem answers_reach_only_their_caller:
  assumes hook: "\<And>request w. authenticate (hv_server hv) (dr_anonymous d) request w = (w, verdict request)"
  shows "snd (accept_client_response L hv d headers response (with_waiting p l st)) =
      snd (accept_client_response L hv d headers response st)
    \<and> (Option.bind (cw_pending (clients_of (fst (accept_client_response L hv d headers response st))) (hv_pending hv))
           (\<lambda>entries. map_of entries key)
         \<noteq> Option.bind (cw_pending (clients_of st) (hv_pending hv)) (\<lambda>entries. map_of entries key)
       \<longrightarrow> rs_id response = Some (JString (pk_id key))
           \<and> (\<exists>message ctx session.
                rq_auth message = bearer_token (hl_to_str L) headers \<and> verdict message = Inr ctx
                \<and> pk_caller key = key_http (hl_fingerprint L) (context_identity ctx) session
                    (bearer_token (hl_to_str L) headers)
                \<and> (\<forall>own. session = Some own \<longrightarrow>
                    (\<exists>r. s_id (cw_sessions (clients_of st) r) = Some own
                       \<and> is_owned_by (cw_sessions (clients_of st) r) (context_identity ctx)))))"
proof (rule conjI)
  show "snd (accept_client_response L hv d headers response (with_waiting p l st)) =
      snd (accept_client_response L hv d headers response st)"
    using admit_response_waiting [OF hook, of L headers response p l st]
    by (cases "admit_response L hv d headers response (with_waiting p l st)";
        cases "admit_response L hv d headers response st")
      (auto simp: accept_client_response_def split: sum.split)
next
  let ?look = "\<lambda>u. Option.bind (cw_pending (clients_of u) (hv_pending hv)) (\<lambda>entries. map_of entries key)"
  obtain st1 v where admit: "admit_response L hv d headers response st = (st1, v)"
    by (cases "admit_response L hv d headers response st")
  note judged = admit_response_judged [OF hook admit]
  show "?look (fst (accept_client_response L hv d headers response st)) \<noteq> ?look st
       \<longrightarrow> rs_id response = Some (JString (pk_id key))
           \<and> (\<exists>message ctx session.
                rq_auth message = bearer_token (hl_to_str L) headers \<and> verdict message = Inr ctx
                \<and> pk_caller key = key_http (hl_fingerprint L) (context_identity ctx) session
                    (bearer_token (hl_to_str L) headers)
                \<and> (\<forall>own. session = Some own \<longrightarrow>
                    (\<exists>r. s_id (cw_sessions (clients_of st) r) = Some own
                       \<and> is_owned_by (cw_sessions (clients_of st) r) (context_identity ctx))))"
  proof (cases v)
    case (Inl refused)
    then show ?thesis using judged(2) by (simp add: accept_client_response_def admit)
  next
    case (Inr admitted)
    obtain ctx session message where parts: "admitted = (ctx, session, message)" by (cases admitted)
    let ?sid = "Option.bind session (\<lambda>r. s_id (cw_sessions (clients_of st1) r))"
    let ?caller = "key_http (hl_fingerprint L) (context_identity ctx) ?sid (rq_auth message)"
    obtain w told where delivered: "Client_Channel.deliver (hv_pending hv) ?caller response (clients_of st1) = (w, told)"
      by (cases "Client_Channel.deliver (hv_pending hv) ?caller response (clients_of st1)")
    have after: "clients_of (fst (accept_client_response L hv d headers response st)) = w"
      by (simp add: accept_client_response_def admit Inr parts deliver_client_response_def delivered)
    have admitted: "verdict message = Inr ctx" "rq_auth message = bearer_token (hl_to_str L) headers"
      "\<forall>r. session = Some r \<longrightarrow> is_owned_by (cw_sessions (clients_of st) r) (context_identity ctx)"
      using judged(3) Inr parts by simp_all
    have own: "\<forall>own. ?sid = Some own \<longrightarrow>
        (\<exists>r. s_id (cw_sessions (clients_of st) r) = Some own
           \<and> is_owned_by (cw_sessions (clients_of st) r) (context_identity ctx))"
      using admitted(3) judged(1) by (cases session) auto
    show ?thesis
    proof
      assume "?look (fst (accept_client_response L hv d headers response st)) \<noteq> ?look st"
      then have key: "pk_caller key = ?caller \<and> rs_id response = Some (JString (pk_id key))"
        using deliver_keys [OF delivered, of key] judged(2) after by simp
      then show "rs_id response = Some (JString (pk_id key))
           \<and> (\<exists>message ctx session.
                rq_auth message = bearer_token (hl_to_str L) headers \<and> verdict message = Inr ctx
                \<and> pk_caller key = key_http (hl_fingerprint L) (context_identity ctx) session
                    (bearer_token (hl_to_str L) headers)
                \<and> (\<forall>own. session = Some own \<longrightarrow>
                    (\<exists>r. s_id (cw_sessions (clients_of st) r) = Some own
                       \<and> is_owned_by (cw_sessions (clients_of st) r) (context_identity ctx))))"
        using admitted(1,2) own by metis
    qed
  qed
qed

subsection \<open>Before anything moves\<close>

definition admits ::
  "('f, 'q) http_libraries \<Rightarrow> ('s, 'a) http_server \<Rightarrow> draws \<Rightarrow> header_map \<Rightarrow> ('s, 'a) http_state \<Rightarrow> bool" where
  "admits L hv d headers st \<longleftrightarrow>
     (\<exists>request w ctx. authenticate (hv_server hv) (dr_anonymous d) request (ss_world (hs_server st)) = (w, Inr ctx)
        \<and> rq_auth request = bearer_token (hl_to_str L) headers
        \<and> rq_headers request = forwarded_headers (hl_to_str L) headers)"

lemma admitsI:
  "authenticate (hv_server hv) (dr_anonymous d) request (ss_world (hs_server st)) = (w, Inr ctx)
   \<Longrightarrow> rq_auth request = bearer_token (hl_to_str L) headers
   \<Longrightarrow> rq_headers request = forwarded_headers (hl_to_str L) headers \<Longrightarrow> admits L hv d headers st"
  unfolding admits_def by blast

lemma transport_message_parts [simp]:
  "rq_auth (transport_message L headers rid version) = bearer_token (hl_to_str L) headers"
  "rq_headers (transport_message L headers rid version) = forwarded_headers (hl_to_str L) headers"
  by (simp_all add: transport_message_def Let_def with_metadata_def split: option.split)

lemma serve_request_unadmitted:
  assumes served: "serve_request L hv d headers request0 rendering st = (st', answer)"
    and unadmitted: "\<not> admits L hv d headers st"
  shows "hs_store st' = hs_store st \<and> ss_in_flight (hs_server st') = ss_in_flight (hs_server st)
    \<and> (\<exists>r. answer = Answered r)"
proof (cases "read_request L hv headers request0")
  case (Inl r)
  then show ?thesis using served by (auto simp: serve_request_def)
next
  case (Inr read)
  obtain request modern where read: "read_request L hv headers request0 = Inr (request, modern)"
    using Inr by (cases read) auto
  have refused: "\<exists>w e. authenticate (hv_server hv) (dr_anonymous d) request (ss_world (hs_server st)) = (w, Inl e)"
  proof (cases "authenticate (hv_server hv) (dr_anonymous d) request (ss_world (hs_server st))")
    case (Pair w verdict)
    then show ?thesis
      using unadmitted admitsI [OF _ read_request_Inr(1,2) [OF read], of hv d st w] by (cases verdict) auto
  qed
  then show ?thesis
    using served read by (auto simp: serve_request_def split: sum.splits)
qed

lemma accept_client_response_unadmitted:
  assumes "accept_client_response L hv d headers response st = (st', r)" and "\<not> admits L hv d headers st"
  shows "hs_store st' = hs_store st \<and> ss_in_flight (hs_server st') = ss_in_flight (hs_server st)"
proof -
  have no: "authenticate (hv_server hv) (dr_anonymous d) (transport_message L headers rid version)
      (ss_world (hs_server st)) \<noteq> (w, Inr ctx)" for rid version w ctx
    using assms(2) admitsI [of hv d "transport_message L headers rid version" st w ctx L headers] by auto
  obtain st1 v where admit: "admit_response L hv d headers response st = (st1, v)"
    by (cases "admit_response L hv d headers response st")
  have "(\<exists>e. v = Inl e) \<and> hs_store st1 = hs_store st \<and> ss_in_flight (hs_server st1) = ss_in_flight (hs_server st)"
    using admit by (auto simp: admit_response_def no Let_def split: sum.splits prod.splits)
  then show ?thesis using assms(1) by (auto simp: accept_client_response_def admit)
qed

text \<open>
  C4: nothing moves before the gates and the hook. A POST that changes anything at all, or starts a
  call, passed the origin and host lists, declared a JSON body, accepts an answer this endpoint can
  give, and carried one JSON-RPC message; and it changes the session store or the
  requests in flight, or starts a call, only once the hook has admitted a request with its credential
  and its headers. What a refusal leaves behind is what the hook itself did.
\<close>

theorem nothing_moves_before_admission:
  assumes post: "handle_mcp_post L hv d headers target body st = (st', answer)"
  shows "(st' \<noteq> st \<or> (\<exists>c. answer = Calling c) \<longrightarrow>
       gates_pass L hv headers target \<and> is_json_content_type (hl_to_str L) headers
       \<and> negotiate (hl_weights L) (hl_to_str L) headers \<noteq> None
       \<and> (\<exists>raw message. body = Inr raw \<and> parse_message (lib_read_json (hl_libraries L)) raw = Inr message))
    \<and> (hs_store st' \<noteq> hs_store st \<or> ss_in_flight (hs_server st') \<noteq> ss_in_flight (hs_server st)
         \<or> (\<exists>c. answer = Calling c) \<longrightarrow> admits L hv d headers st)"
proof (rule conjI)
  show "st' \<noteq> st \<or> (\<exists>c. answer = Calling c) \<longrightarrow>
       gates_pass L hv headers target \<and> is_json_content_type (hl_to_str L) headers
       \<and> negotiate (hl_weights L) (hl_to_str L) headers \<noteq> None
       \<and> (\<exists>raw message. body = Inr raw \<and> parse_message (lib_read_json (hl_libraries L)) raw = Inr message)"
    using post unfolding check_origin_and_host_iff [symmetric]
    by (auto simp: handle_mcp_post_def split: sum.splits if_splits option.splits)
next
  have "hs_store st' = hs_store st \<and> ss_in_flight (hs_server st') = ss_in_flight (hs_server st)
      \<and> (\<exists>r. answer = Answered r)" if "\<not> admits L hv d headers st"
    using post serve_request_unadmitted [OF _ that] accept_client_response_unadmitted [OF _ that]
    by (auto simp: handle_mcp_post_def split: sum.splits if_splits option.splits rpc_message.splits prod.splits)
  then show "hs_store st' \<noteq> hs_store st \<or> ss_in_flight (hs_server st') \<noteq> ss_in_flight (hs_server st)
         \<or> (\<exists>c. answer = Calling c) \<longrightarrow> admits L hv d headers st" by auto
qed

subsection \<open>A server to try them on\<close>

text \<open>No hook, sessions kept, one session of the anonymous caller live; a legacy call and a handshake as bodies.\<close>

definition demo_read :: "string \<Rightarrow> (string, json) result" where
  "demo_read raw =
     (if raw = ''call''
      then Inr (JObject [(''jsonrpc'', JString ''2.0''), (''method'', JString ''tools/call''), (''id'', u64_json 1),
             (''params'', JObject [(''name'', JString ''rows'')])])
      else if raw = ''hello''
      then Inr (JObject [(''jsonrpc'', JString ''2.0''), (''method'', JString ''initialize''), (''id'', u64_json 1),
             (''params'', JObject [(''capabilities'', JObject [(''sampling'', JObject [])])])])
      else Inl ''not JSON'')"

definition demo_http :: "(nat, nat) http_libraries" where
  "demo_http =
     \<lparr>hl_libraries = demo_libraries\<lparr>lib_read_json := demo_read\<rparr>, hl_to_str = Some, hl_header_value = Some,
      hl_weights = \<lparr>wt_zero = 0, wt_one = 1, wt_read = (\<lambda>_. None), wt_max = max, wt_greater = (\<lambda>a b. a > b)\<rparr>,
      hl_fingerprint = (\<lambda>_. 0)\<rparr>"

definition demo_http_server :: "(memory, nat) http_server" where
  "demo_http_server =
     \<lparr>hv_server = demo_server, hv_allowed_origins = [], hv_allowed_hosts = None, hv_max_request_bytes = 100,
      hv_sessions = True, hv_pending = 0, hv_client_request_timeout = 9\<rparr>"

definition demo_http_state :: "(memory, nat) http_state" where
  "demo_http_state =
     \<lparr>hs_server = \<lparr>ss_in_flight = in_flight_new, ss_world = demo_world\<rparr>,
      hs_store = (store_new 0 10 \<lparr>l_total = 5, l_per_caller = 5\<rparr> (\<lambda>_. connection_session 0 0))
        \<lparr>sw_sessions := [(''s1'', 0)]\<rparr>\<rparr>"

definition demo_draws :: draws where
  "demo_draws =
     \<lparr>dr_clock = (0, 0, 0), dr_now = 2, dr_later = 2, dr_insert = 3, dr_anonymous = 7, dr_call = 8, dr_scope = 9,
      dr_session_id = Inr ''s2'', dr_session_token = 10, dr_session_ref = 4, dr_outbox = 3\<rparr>"

definition demo_headers :: header_map where
  "demo_headers = [(''content-type'', ''application/json''), (''mcp-session-id'', ''s1'')]"



lemma demo_gates:
  "check_origin_and_host demo_http demo_http_server demo_headers None = Inr ()"
  "is_json_content_type (hl_to_str demo_http) demo_headers"
  "negotiate (hl_weights demo_http) (hl_to_str demo_http) demo_headers = Some \<lparr>single_as_event = False, may_stream = True\<rparr>"
  "session_id_header demo_http demo_headers rid = Inr (Some ''s1'')"
proof -
  show "check_origin_and_host demo_http demo_http_server demo_headers None = Inr ()"
    by (simp add: check_origin_and_host_def origin_allowed_def header_get_def get_all_def demo_headers_def
        demo_http_server_def is_origin_allowed_def demo_http_def)
  have "is_json_content_type Some demo_headers" by code_simp
  then show "is_json_content_type (hl_to_str demo_http) demo_headers" by (simp add: demo_http_def)
  have "negotiate (hl_weights demo_http) Some demo_headers = Some \<lparr>single_as_event = False, may_stream = True\<rparr>"
    by code_simp
  then show "negotiate (hl_weights demo_http) (hl_to_str demo_http) demo_headers = Some \<lparr>single_as_event = False, may_stream = True\<rparr>"
    by (simp add: demo_http_def)
  have "trim ''s1'' = ''s1''" by code_simp
  then show "session_id_header demo_http demo_headers rid = Inr (Some ''s1'')"
    by (simp add: session_id_header_Inr demo_headers_def get_all_def demo_http_def)
qed

lemma demo_parse:
  "parse_message (lib_read_json (hl_libraries demo_http)) ''call'' = Inr (Request demo_call)"
  "parse_message (lib_read_json (hl_libraries demo_http)) ''hello'' = Inr (Request demo_hello)"
proof -
  have "parse_message demo_read ''call'' = Inr (Request demo_call)" "parse_message demo_read ''hello'' = Inr (Request demo_hello)"
    by code_simp+
  then show "parse_message (lib_read_json (hl_libraries demo_http)) ''call'' = Inr (Request demo_call)"
    "parse_message (lib_read_json (hl_libraries demo_http)) ''hello'' = Inr (Request demo_hello)"
    by (simp_all add: demo_http_def)
qed

definition demo_sent :: "rpc_request \<Rightarrow> rpc_request" where
  "demo_sent r = r\<lparr>rq_auth := bearer_token Some demo_headers, rq_headers := forwarded_headers Some demo_headers\<rparr>"

lemma demo_read_request:
  assumes "meta_from_params (rq_params r) = MetaLegacy"
  shows "read_request demo_http demo_http_server demo_headers r = Inr (demo_sent r, False)"
proof -
  have plain: "\<not> is_param_header ''mcp-session-id''" "\<not> is_param_header ''content-type''" by code_simp+
  have "check_standard_headers codec Some demo_headers r' False = Inr ()" for codec r'
    using plain
    by (simp add: check_standard_headers_def check_method_header_def check_name_header_def single_header_def
        get_all_def demo_headers_def match_name_def header_keys_def MCP_METHOD_HEADER_def MCP_NAME_HEADER_def
        split: option.split)
  moreover have "accepted_protocol_version demo_http demo_http_server demo_headers rid = Inr None" for rid
    by (simp add: accepted_protocol_version_def protocol_version_header_def get_all_def demo_headers_def
        PROTOCOL_VERSION_HEADER_def)
  ultimately show ?thesis using assms by (simp add: read_request_def Let_def demo_sent_def demo_http_def)
qed

lemma demo_legacy:
  "meta_from_params (rq_params demo_call) = MetaLegacy" "meta_from_params (rq_params demo_hello) = MetaLegacy"
  by (simp_all add: meta_from_params_def param_def json_get_def demo_hello_def request_with_id_def)

lemma demo_authenticate:
  "authenticate (hv_server demo_http_server) token request w = (w, Inr (tool_context_default token))"
  by (simp add: authenticate_def demo_http_server_def demo_server_def with_task_manager_def with_list_page_size_def
      mcp_server_new_def)

lemma demo_enter:
  "\<exists>st1. enter_session 2 (Some ''s1'') (tool_context_default 7) demo_http_state = (st1, Inr (Some 0))"
  by (simp add: enter_session_def store_enter_def sweep_if_due_def store_of_def demo_http_state_def store_new_def
      clients_of_def demo_world_def sample_client_def expired_in_def Session.is_expired_def
      connection_session_def session_new_def is_owned_by_def context_identity_def tool_context_default_def)

lemma demo_calling:
  "\<exists>st' c. handle_mcp_post demo_http demo_http_server demo_draws demo_headers None (Inr ''call'') demo_http_state =
     (st', Calling c) \<and> cl_session c = Some 0"
proof -
  obtain st1 where enter: "enter_session 2 (Some ''s1'') (tool_context_default 7) demo_http_state = (st1, Inr (Some 0))"
    using demo_enter by blast
  have fields: "rq_jsonrpc (demo_sent demo_call) = JSONRPC_VERSION" "rq_id (demo_sent demo_call) = Some (u64_json 1)"
    "rq_method (demo_sent demo_call) = ''tools/call''" "hv_sessions demo_http_server" "dr_now demo_draws = 2"
    "dr_anonymous demo_draws = 7"
    by (simp_all add: demo_sent_def demo_http_server_def demo_draws_def)
  show ?thesis
    by (simp add: handle_mcp_post_def demo_gates demo_parse serve_request_def demo_read_request [OF demo_legacy(1)]
        named_session_def demo_authenticate enter fields serve_call_def dispatch_begin_def on_server_def Let_def
        split: prod.split)
qed

lemma calls_run_as_the_admitted_caller_witness:
  "\<exists>st' c. handle_mcp_post demo_http demo_http_server demo_draws demo_headers None (Inr ''call'') demo_http_state =
       (st', Calling c)
     \<and> rq_auth (sg_request (cl_serving c)) = bearer_token (hl_to_str demo_http) demo_headers
     \<and> gates_pass demo_http demo_http_server demo_headers None"
  using demo_calling calls_run_as_the_admitted_caller by blast

lemma requests_run_in_their_own_session_witness:
  "\<exists>st' c. handle_mcp_post demo_http demo_http_server demo_draws demo_headers None (Inr ''call'') demo_http_state =
       (st', Calling c)
     \<and> runs_in st' ''s1'' 0 (context_identity (sg_ctx (cl_serving c)))"
proof -
  obtain st' c where post: "handle_mcp_post demo_http demo_http_server demo_draws demo_headers None (Inr ''call'')
      demo_http_state = (st', Calling c)" and session: "cl_session c = Some 0"
    using demo_calling by blast
  have "trim ''s1'' = ''s1''" by code_simp
  then show ?thesis
    using requests_run_in_their_own_session [OF post] post session
    by (auto simp: demo_headers_def get_all_def demo_http_def split: if_splits)
qed

lemma demo_delete:
  "ht_status (snd (handle_mcp_delete demo_http demo_http_server demo_draws demo_headers None demo_http_state)) = 204"
proof -
  have "\<exists>st1. owned_session 2 ''s1'' (tool_context_default 7) demo_http_state = (st1, Some 0)"
    by (simp add: owned_session_def store_find_def sweep_if_due_def store_of_def demo_http_state_def store_new_def
        clients_of_def demo_world_def sample_client_def expired_in_def Session.is_expired_def
        connection_session_def session_new_def is_owned_by_def context_identity_def tool_context_default_def)
  then obtain st1 where owned: "owned_session 2 ''s1'' (tool_context_default 7) demo_http_state = (st1, Some 0)" by blast
  have fields: "hv_sessions demo_http_server" "dr_now demo_draws = 2" "dr_anonymous demo_draws = 7"
    by (simp_all add: demo_http_server_def demo_draws_def)
  show ?thesis
    by (simp add: handle_mcp_delete_def demo_gates demo_authenticate fields owned Let_def)
qed


definition demo_modern_headers :: header_map where
  "demo_modern_headers = (PROTOCOL_VERSION_HEADER, ''2026-07-28'') # demo_headers"

lemma modern_requests_keep_out_of_sessions_witness:
  "hs_store (fst (handle_mcp_post demo_http demo_http_server demo_draws demo_modern_headers None (Inr ''hello'')
     demo_http_state)) = hs_store demo_http_state"
proof -
  have "is_modern_revision (trim ''2026-07-28'')" by code_simp
  moreover have "get_all demo_modern_headers PROTOCOL_VERSION_HEADER = [''2026-07-28'']"
    by (simp add: demo_modern_headers_def demo_headers_def get_all_def PROTOCOL_VERSION_HEADER_def)
  moreover have "hl_to_str demo_http ''2026-07-28'' = Some ''2026-07-28''" by (simp add: demo_http_def)
  ultimately show ?thesis
    using modern_requests_keep_out_of_sessions [OF surjective_pairing] by blast
qed

lemma answers_reach_only_their_caller_witness:
  "snd (accept_client_response demo_http demo_http_server demo_draws demo_headers sample_response
      (with_waiting (\<lambda>_. None) (\<lambda>_. True) demo_http_state)) =
   snd (accept_client_response demo_http demo_http_server demo_draws demo_headers sample_response demo_http_state)"
  by (rule conjunct1 [OF answers_reach_only_their_caller
        [of demo_http_server demo_draws "\<lambda>_. Inr (tool_context_default (dr_anonymous demo_draws))"]])
    (rule demo_authenticate)

lemma nothing_moves_before_admission_witness:
  "admits demo_http demo_http_server demo_draws demo_headers demo_http_state"
  using demo_calling nothing_moves_before_admission by blast

lemma demo_room:
  assumes "sw_sessions w = [(key, r0)]" and "sw_limits w = \<lparr>l_total = 5, l_per_caller = 5\<rparr>"
    and "sw_ttl w = 10" and "sw_last_sweep w = 0" and "s_id (sw_heap w r) = Some sid"
  shows "\<exists>w'. store_insert 3 r w = (w', Inr ())"
proof -
  have "sweep_if_due 3 w = w" using assms(3,4) by (simp add: sweep_if_due_def)
  then show ?thesis using assms(1,2,5)
    by (auto simp: store_insert_def insert_with_room_def store_len_def Let_def split: prod.split option.split)
qed

lemma demo_handshake:
  "\<exists>st' r. handle_mcp_post demo_http demo_http_server demo_draws demo_headers None (Inr ''hello'') demo_http_state =
     (st', Answered r) \<and> names_session r"
proof -
  let ?request = "demo_sent demo_hello"
  have fields: "rq_jsonrpc ?request = JSONRPC_VERSION" "rq_id ?request = Some (u64_json 1)"
    "rq_method ?request = ''initialize''" "hv_sessions demo_http_server" "dr_anonymous demo_draws = 7"
    "dr_session_id demo_draws = Inr ''s2''" "dr_session_ref demo_draws = 4" "dr_insert demo_draws = 3"
    by (simp_all add: demo_sent_def demo_hello_def request_with_id_def demo_http_server_def demo_draws_def)
  have era: "request_era ?request = MetaLegacy"
    using demo_legacy(2) by (simp add: request_era_def get_metadata_def detect_era_def demo_sent_def demo_hello_def
        request_with_id_def)
  let ?R = "\<lparr>single_as_event = False, may_stream = True\<rparr>"
  let ?new = "session_new 2 10 (Some ''s2'') (context_identity (tool_context_default 7))"
  let ?st1 = "set_store (write_session 4 ?new (store_of demo_http_state)) demo_http_state"
  let ?ctx = "call_context demo_http demo_http_server demo_draws ?R (Some 4) ?request (tool_context_default 7) ?st1"
  let ?st2 = "enter_minted (Some 4) (set_outbox (dr_outbox demo_draws) True ?st1)"
  have minted: "mint_session demo_http_server demo_draws False (tool_context_default 7) demo_http_state = (?st1, Inr (Some 4))"
    by (simp add: mint_session_def mint_def fields) (simp add: demo_draws_def)
  obtain srv answer where ran: "handle_now demo_http demo_http_server demo_draws ?request ?ctx (hs_server ?st2) = (srv, Some answer)"
    and success: "is_success answer"
    using handle_now_shakes [OF era fields(3,1,2)] by blast
  have world: "cw_sessions (hw_clients (ss_world srv)) 4 =
      record_capabilities (param (rq_params ?request) ''capabilities'') (session_enter ?new)"
    using handle_now_initialize [OF ran success fields(3)]
    by (simp add: on_session_def clients_of_def [symmetric] enter_minted_def write_session_def)
  let ?st3 = "leave_session (dr_later demo_draws) (Some 4) (?st2\<lparr>hs_server := srv\<rparr>)"
  have sid: "s_id (cw_sessions (clients_of ?st3) 4) = Some ''s2''"
    unfolding leave_session_Some using world
    by (simp add: clients_of_def session_leave_def record_capabilities_def session_enter_def session_new_def)
  have table: "sw_sessions (store_of ?st3) = [(''s1'', 0)]" "sw_limits (store_of ?st3) = \<lparr>l_total = 5, l_per_caller = 5\<rparr>"
    "sw_ttl (store_of ?st3) = 10" "sw_last_sweep (store_of ?st3) = 0"
    by (simp_all add: leave_session_def use_drop_def store_of_def enter_minted_def write_session_def
        demo_http_state_def store_new_def)
  obtain w' where "store_insert 3 4 (store_of ?st3) = (w', Inr ())"
    using demo_room [OF table, of 4] sid by auto
  then have kept: "keep_session (dr_insert demo_draws) (Some 4) (Some answer) ?st3 = (set_store w' ?st3, Inr (Some ''s2''))"
    using success sid by (simp add: keep_session_def fields)
  have "\<exists>st' r. serve_initialize demo_http demo_http_server demo_draws ?request False ?R (tool_context_default 7)
      demo_http_state = (st', r) \<and> names_session r"
    using kept by (simp add: serve_initialize_def minted on_server_def ran Let_def with_session_id_def
        names_session_def) (simp add: demo_http_def)
  then show ?thesis
    by (auto simp: handle_mcp_post_def demo_gates demo_parse serve_request_def demo_read_request [OF demo_legacy(2)]
        named_session_def demo_authenticate enter_session_def fields)
qed

lemma answered_session_ids_are_live_witness:
  "map_of (sw_sessions (hs_store (fst (handle_mcp_post demo_http demo_http_server demo_draws demo_headers None
     (Inr ''hello'') demo_http_state)))) ''s2'' = Some 4"
proof -
  have "dr_session_id demo_draws = Inr ''s2''" "dr_session_ref demo_draws = 4" by (simp_all add: demo_draws_def)
  then show ?thesis using demo_handshake answered_session_ids_are_live by fastforce
qed

end
