(* ===== verification/Http_Serve.thy ===== *)
theory Http_Serve
  imports Http_Transport
begin

declare map_of_eq_Some_iff [simp del] Some_eq_map_of_iff [simp del]

text \<open>
  The server over HTTP: the builders of its HTTP settings (\<^verbatim>\<open>src/mcp/server.rs\<close>), its routes
  (\<^verbatim>\<open>mcp_router\<close>) and what \<^verbatim>\<open>serve\<close> checks before it binds (\<^verbatim>\<open>src/mcp/transport/http.rs\<close>,
  \<^verbatim>\<open>src/mcp/transport/error.rs\<close>). The resolver's answer and the failures of the socket are arguments;
  the request guard around the routes does not look at a request.
\<close>

definition DEFAULT_MAX_REQUEST_BYTES :: nat where "DEFAULT_MAX_REQUEST_BYTES = 4 * 1024 * 1024"

definition http_server_new :: "('s, 'a) mcp_server \<Rightarrow> nat \<Rightarrow> duration \<Rightarrow> ('s, 'a) http_server" where
  "http_server_new srv pending timeout =
     \<lparr>hv_server = srv, hv_allowed_origins = [], hv_allowed_hosts = None,
      hv_max_request_bytes = DEFAULT_MAX_REQUEST_BYTES, hv_sessions = False, hv_pending = pending,
      hv_client_request_timeout = timeout\<rparr>"

definition with_allowed_origins :: "string list \<Rightarrow> ('s, 'a) http_server \<Rightarrow> ('s, 'a) http_server" where
  "with_allowed_origins origins hv = hv\<lparr>hv_allowed_origins := origins\<rparr>"

definition with_allowed_hosts :: "string list \<Rightarrow> ('s, 'a) http_server \<Rightarrow> ('s, 'a) http_server" where
  "with_allowed_hosts hosts hv = hv\<lparr>hv_allowed_hosts := Some hosts\<rparr>"

definition with_max_request_bytes :: "nat \<Rightarrow> ('s, 'a) http_server \<Rightarrow> ('s, 'a) http_server" where
  "with_max_request_bytes bytes hv = hv\<lparr>hv_max_request_bytes := bytes\<rparr>"

definition with_client_request_timeout :: "duration \<Rightarrow> ('s, 'a) http_server \<Rightarrow> ('s, 'a) http_server" where
  "with_client_request_timeout timeout hv = hv\<lparr>hv_client_request_timeout := timeout\<rparr>"

text \<open>Turning sessions on, or changing their limits while they are on, starts an empty store.\<close>

definition with_http_sessions ::
  "instant \<Rightarrow> duration \<Rightarrow> limits \<Rightarrow> (sref \<Rightarrow> session) \<Rightarrow> ('s, 'a) http_server \<Rightarrow> ('s, 'a) http_server \<times> session_world" where
  "with_http_sessions now ttl limits heap hv = (hv\<lparr>hv_sessions := True\<rparr>, store_new now ttl limits heap)"

definition with_http_session_limits ::
  "instant \<Rightarrow> limits \<Rightarrow> ('s, 'a) http_server \<times> session_world \<Rightarrow> ('s, 'a) http_server \<times> session_world" where
  "with_http_session_limits now limits built =
     (case built of (hv, w) \<Rightarrow>
        (hv, if hv_sessions hv then store_new now (sw_ttl w) limits (sw_heap w) else w\<lparr>sw_limits := limits\<rparr>))"

subsection \<open>Routes\<close>

datatype verb = Post | Delete | OtherVerb

definition mcp_endpoint ::
  "('f, 'q) http_libraries \<Rightarrow> ('s, 'a) http_server \<Rightarrow> draws \<Rightarrow> verb \<Rightarrow> header_map \<Rightarrow> string option
     \<Rightarrow> (nat \<times> string, string) result \<Rightarrow> ('s, 'a) http_state \<Rightarrow> ('s, 'a) http_state \<times> http_answer" where
  "mcp_endpoint L hv d verb headers target body st =
     (case verb of
        Post \<Rightarrow> handle_mcp_post L hv d headers target body st
      | Delete \<Rightarrow>
          if hv_sessions hv
          then (case handle_mcp_delete L hv d headers target st of (st1, r) \<Rightarrow> (st1, Answered r))
          else (st, Answered (respond 405 NoBody))
      | OtherVerb \<Rightarrow> (st, Answered (respond 405 NoBody)))"

definition require_loopback_host ::
  "('f, 'q) http_libraries \<Rightarrow> header_map \<Rightarrow> string option \<Rightarrow> (http_response, unit) result" where
  "require_loopback_host L headers target =
     (case check_host (hl_to_str L) headers target [] of
        Inr _ \<Rightarrow> Inr ()
      | Inl (status, reason) \<Rightarrow> Inl (respond status (PlainText reason)))"

subsection \<open>Serving\<close>

datatype transport_error =
    InsecureBind insecure_bind_error
  | Resolve string string
  | Bind string string
  | Serve string
  | Stdio string
  | Encode string

fun transport_error_text :: "transport_error \<Rightarrow> string" where
  "transport_error_text (InsecureBind refused) = insecure_bind_text refused"
| "transport_error_text (Resolve addr source) = ''failed to resolve '' @ addr @ '': '' @ source"
| "transport_error_text (Bind addr source) = ''failed to bind '' @ addr @ '': '' @ source"
| "transport_error_text (Serve source) = ''HTTP server error: '' @ source"
| "transport_error_text (Stdio source) = ''stdio transport I/O failed: '' @ source"
| "transport_error_text (Encode source) = ''JSON-RPC message serialization failed: '' @ source"

definition has_auth_hook :: "('s, 'a) mcp_server \<Rightarrow> bool" where
  "has_auth_hook srv \<longleftrightarrow> sr_auth_hook srv \<noteq> None"

text \<open>Whether the loopback check is layered over the routes, once the addresses allow a bind.\<close>

definition serve_checks ::
  "('s, 'a) http_server \<Rightarrow> string \<Rightarrow> string \<Rightarrow> (string, ip_addr list) result \<Rightarrow> (transport_error, bool) result" where
  "serve_checks hv host port resolved =
     (case resolved of
        Inl source \<Rightarrow> Inl (Resolve (host @ '':'' @ port) source)
      | Inr addresses \<Rightarrow>
          if \<not> has_auth_hook (hv_server hv) \<and> \<not> list_all ip_is_loopback addresses
          then Inl (InsecureBind (insecure_bind_new host))
          else Inr (list_all ip_is_loopback addresses \<and> hv_allowed_hosts hv = None))"

definition serve_one ::
  "('f, 'q) http_libraries \<Rightarrow> ('s, 'a) http_server \<Rightarrow> bool \<Rightarrow> draws \<Rightarrow> verb \<Rightarrow> header_map \<Rightarrow> string option
     \<Rightarrow> (nat \<times> string, string) result \<Rightarrow> ('s, 'a) http_state \<Rightarrow> ('s, 'a) http_state \<times> http_answer" where
  "serve_one L hv host_guarded d verb headers target body st =
     (case (if host_guarded then require_loopback_host L headers target else Inr ()) of
        Inl refused \<Rightarrow> (st, Answered refused)
      | Inr _ \<Rightarrow> mcp_endpoint L hv d verb headers target body st)"

subsection \<open>An unauthenticated server stays local\<close>

lemma handle_mcp_delete_gated: "handle_mcp_delete L hv d headers target st = (st', r) \<Longrightarrow> st' \<noteq> st \<Longrightarrow> gates_pass L hv headers target"
  unfolding check_origin_and_host_iff [symmetric] by (auto simp: handle_mcp_delete_def split: sum.splits)

lemma handle_mcp_post_gated:
  "handle_mcp_post L hv d headers target body st = (st', answer) \<Longrightarrow> st' \<noteq> st \<or> (\<exists>c. answer = Calling c)
   \<Longrightarrow> gates_pass L hv headers target"
  unfolding check_origin_and_host_iff [symmetric] by (auto simp: handle_mcp_post_def split: sum.splits)

text \<open>The authority a request names is loopback, or the host's own list has it.\<close>

definition targets_listed ::
  "('f, 'q) http_libraries \<Rightarrow> string list \<Rightarrow> header_map \<Rightarrow> string option \<Rightarrow> bool" where
  "targets_listed L allowed headers target \<longleftrightarrow>
     (\<exists>authority. request_authority (hl_to_str L) headers target = Inr (Some authority) \<and> host_listed allowed authority)"

lemma check_host_targets: "check_host (hl_to_str L) headers target allowed = Inr () \<longleftrightarrow> targets_listed L allowed headers target"
proof -
  have "\<not> is_host_allowed None allowed" by (simp add: is_host_allowed_def)
  then have "(if is_host_allowed a allowed then Inr () else Inl HOST_NOT_ALLOWED) = Inr ()
      \<longleftrightarrow> (\<exists>authority. a = Some authority \<and> host_listed allowed authority)" for a
    by (cases a) (simp_all add: is_host_allowed_iff)
  then show ?thesis unfolding check_host_def targets_listed_def result_bind_Inr_iff by auto
qed

text \<open>
  A server nothing authenticates stays on this machine. When \<^verbatim>\<open>serve\<close> lets a bind through without
  a hook, every address it binds is loopback; and a request it is sent there changes something or
  starts a call only when the authority it names is a loopback one or one of the host's own list, so
  a page that rebinds its name reaches nothing. Without a hook, a bind that any reachable
  address is part of is refused before the socket opens, by the name it was asked for.
\<close>

theorem unauthenticated_server_stays_local:
  assumes "sr_auth_hook (hv_server hv) = None"
  shows "(serve_checks hv host port (Inr addresses) = Inr host_guarded \<longrightarrow>
       (\<forall>ip \<in> set addresses. ip_is_loopback ip)
       \<and> (serve_one L hv host_guarded d verb headers target body st = (st', answer)
           \<and> (st' \<noteq> st \<or> (\<exists>c. answer = Calling c)) \<longrightarrow>
          targets_listed L (unwrap_or (hv_allowed_hosts hv) []) headers target))
    \<and> ((\<exists>ip \<in> set addresses. \<not> ip_is_loopback ip) \<longleftrightarrow>
         serve_checks hv host port (Inr addresses) = Inl (InsecureBind \<lparr>ib_host = host, ib_gate = None\<rparr>))"
proof -
  have hook: "\<not> has_auth_hook (hv_server hv)" using assms by (simp add: has_auth_hook_def)
  have gated: "gates_pass L hv headers target"
    if "mcp_endpoint L hv d verb headers target body st = (st', answer)" "st' \<noteq> st \<or> (\<exists>c. answer = Calling c)"
    using that handle_mcp_post_gated [of L hv d headers target body st st' answer]
      handle_mcp_delete_gated [of L hv d headers target st st']
    by (cases verb) (auto simp: mcp_endpoint_def split: if_splits prod.splits)
  have "targets_listed L (unwrap_or (hv_allowed_hosts hv) []) headers target"
    if "serve_checks hv host port (Inr addresses) = Inr host_guarded"
      "serve_one L hv host_guarded d verb headers target body st = (st', answer)"
      "st' \<noteq> st \<or> (\<exists>c. answer = Calling c)"
  proof (cases "hv_allowed_hosts hv")
    case None
    then have "host_guarded" using that(1) hook by (auto simp: serve_checks_def split: if_splits)
    then have "require_loopback_host L headers target = Inr ()"
      using that(2,3) by (auto simp: serve_one_def split: sum.splits)
    then show ?thesis
      using None check_host_targets [of L headers target "[]"]
      by (auto simp: require_loopback_host_def split: sum.splits)
  next
    case (Some allowed)
    then have "\<not> host_guarded" using that(1) by (auto simp: serve_checks_def split: if_splits)
    then have "mcp_endpoint L hv d verb headers target body st = (st', answer)" using that(2) by (simp add: serve_one_def)
    then show ?thesis
      using gated [OF _ that(3)] Some check_host_targets [of L headers target allowed] by (auto simp: gates_pass_def)
  qed
  then show ?thesis
    using hook by (auto simp: serve_checks_def insecure_bind_new_def list_all_iff split: if_splits)
qed

lemma unauthenticated_server_stays_local_witness:
  "serve_checks demo_http_server ''0.0.0.0'' ''80'' (Inr [V4 0]) =
     Inl (InsecureBind \<lparr>ib_host = ''0.0.0.0'', ib_gate = None\<rparr>)"
proof -
  have "sr_auth_hook (hv_server demo_http_server) = None"
    by (simp add: demo_http_server_def demo_server_def with_task_manager_def with_list_page_size_def mcp_server_new_def)
  moreover have "\<not> ip_is_loopback (V4 0)" by code_simp
  ultimately show ?thesis
    using unauthenticated_server_stays_local [of demo_http_server "''0.0.0.0''" "''80''" "[V4 0]"] by simp
qed

end
