(* ===== verification/Rust_Num.thy ===== *)
theory Rust_Num
  imports Mirror "HOL-Library.Word"
begin

text \<open>
  Numbers as text, as the standard library writes and reads them: \<^verbatim>\<open>{n:x}\<close>, \<^verbatim>\<open>{n:016x}\<close>,
  \<^verbatim>\<open>str::parse::<u64>\<close> and the \<^verbatim>\<open>Debug\<close> text of a \<^verbatim>\<open>Duration\<close>. Decimal text is \<^theory_text>\<open>Mirror\<close>'s \<open>nat_text\<close>.
\<close>

definition U64_MAX :: nat where "U64_MAX = 2 ^ 64 - 1"

subsection \<open>Reading\<close>

definition digit_of :: "char \<Rightarrow> nat" where
  "digit_of c = nat (byte c - 48)"

fun read_digits :: "nat \<Rightarrow> string \<Rightarrow> nat option" where
  "read_digits acc [] = Some acc"
| "read_digits acc (c # cs) =
     (if is_ascii_digit c \<and> 10 * acc + digit_of c \<le> U64_MAX
      then read_digits (10 * acc + digit_of c) cs else None)"

definition parse_u64 :: "string \<Rightarrow> nat option" where
  "parse_u64 s =
     (let digits = (if s \<noteq> [] \<and> hd s = CHR ''+'' then tl s else s) in
      if digits = [] then None else read_digits 0 digits)"

lemma read_digits_bound: "acc \<le> U64_MAX \<Longrightarrow> read_digits acc s = Some n \<Longrightarrow> n \<le> U64_MAX"
  by (induction s arbitrary: acc) (auto split: if_splits)

lemma parse_u64_bound: "parse_u64 s = Some n \<Longrightarrow> n \<le> U64_MAX"
  using read_digits_bound [of 0 _ n] by (auto simp: parse_u64_def Let_def split: if_splits)

lemma read_digits_append:
  "read_digits acc (xs @ ys) = Option.bind (read_digits acc xs) (\<lambda>n. read_digits n ys)"
  by (induction xs arbitrary: acc) auto

lemma digit_char:
  "n < 10 \<Longrightarrow> is_ascii_digit (char_of (48 + n))"
  "n < 10 \<Longrightarrow> digit_of (char_of (48 + n)) = n"
  by (simp_all add: is_ascii_digit_def digit_of_def byte_char_of)

lemma read_digits_nat_text: "n \<le> U64_MAX \<Longrightarrow> read_digits 0 (nat_text n) = Some n"
proof (induction n rule: nat_text.induct)
  case (1 n)
  show ?case
  proof (cases "n < 10")
    case True
    with 1 show ?thesis by (simp add: nat_text.simps [of n] digit_char)
  next
    case False
    have "10 * (n div 10) + n mod 10 = n" by simp
    with False 1 show ?thesis
      by (simp add: nat_text.simps [of n] read_digits_append digit_char div_le_dividend le_trans)
  qed
qed

lemma nat_text_digits: "list_all is_ascii_digit (nat_text n)"
  by (induction n rule: nat_text.induct) (simp add: nat_text.simps digit_char)

lemma nat_text_nonempty [simp]: "nat_text n \<noteq> []"
  by (cases "n < 10") (simp_all add: nat_text.simps [of n])

lemma parse_u64_nat_text: "n \<le> U64_MAX \<Longrightarrow> parse_u64 (nat_text n) = Some n"
proof -
  assume bound: "n \<le> U64_MAX"
  have "hd (nat_text n) \<noteq> CHR ''+''"
    using nat_text_digits [of n] nat_text_nonempty [of n]
    by (cases "nat_text n") (auto simp: is_ascii_digit_def)
  with bound show ?thesis by (simp add: parse_u64_def read_digits_nat_text)
qed

subsection \<open>Hexadecimal text\<close>

definition hex_char :: "nat \<Rightarrow> char" where
  "hex_char d = char_of (if d < 10 then 48 + d else 87 + d)"

function hex_text :: "nat \<Rightarrow> string" where
  "hex_text n = (if n < 16 then [hex_char n] else hex_text (n div 16) @ [hex_char (n mod 16)])"
  by pat_completeness auto
termination
  by (relation "measure id") auto

declare hex_text.simps [simp del]

definition pad_zeros :: "nat \<Rightarrow> string \<Rightarrow> string" where
  "pad_zeros width s = replicate (width - length s) (CHR ''0'') @ s"

lemma hex_char_inj: "a < 16 \<Longrightarrow> b < 16 \<Longrightarrow> hex_char a = hex_char b \<Longrightarrow> a = b"
proof -
  assume a: "a < 16" and b: "b < 16" and same: "hex_char a = hex_char b"
  then have "of_char (hex_char a) = (of_char (hex_char b) :: nat)" by simp
  with a b show ?thesis by (auto simp: hex_char_def of_char_of split: if_splits)
qed

lemma hex_char_alphanumeric: "d < 16 \<Longrightarrow> is_ascii_alphanumeric (hex_char d)"
  by (auto simp: hex_char_def is_ascii_alphanumeric_def is_ascii_digit_def byte_char_of)

lemma hex_text_alphanumeric: "list_all is_ascii_alphanumeric (hex_text n)"
  by (induction n rule: hex_text.induct) (simp add: hex_text.simps hex_char_alphanumeric)

lemma hex_text_nonempty [simp]: "hex_text n \<noteq> []"
  by (cases "n < 16") (simp_all add: hex_text.simps [of n])

lemma hex_text_inj: "hex_text a = hex_text b \<Longrightarrow> a = b"
proof (induction a arbitrary: b rule: hex_text.induct)
  case (1 a)
  show ?case
  proof (cases "a < 16")
    case True
    then have "length (hex_text b) = 1" using 1(2) by (simp add: hex_text.simps [of a] flip: 1(2))
    then have "b < 16" by (cases "b < 16") (simp_all add: hex_text.simps [of b])
    with True 1(2) show ?thesis by (auto simp: hex_text.simps [of a] hex_text.simps [of b] dest: hex_char_inj)
  next
    case False
    have "\<not> b < 16"
    proof
      assume "b < 16"
      with 1(2) False show False by (simp add: hex_text.simps [of a] hex_text.simps [of b])
    qed
    with 1(2) False have parts: "hex_text (a div 16) = hex_text (b div 16)"
      "hex_char (a mod 16) = hex_char (b mod 16)"
      by (simp_all add: hex_text.simps [of a] hex_text.simps [of b])
    from parts(1) False have "a div 16 = b div 16" by (rule 1(1) [rotated])
    moreover from parts(2) have "a mod 16 = b mod 16" by (auto dest: hex_char_inj [rotated 2])
    ultimately show ?thesis by (metis div_mult_mod_eq)
  qed
qed

lemma hex_text_length: "0 < k \<Longrightarrow> n < 16 ^ k \<Longrightarrow> length (hex_text n) \<le> k"
proof (induction k arbitrary: n)
  case (Suc k)
  show ?case
  proof (cases "n < 16")
    case True
    then show ?thesis by (simp add: hex_text.simps [of n])
  next
    case False
    then have "0 < k" using Suc.prems by (cases k) auto
    moreover have "n div 16 < 16 ^ k" using Suc.prems(2) by (simp add: div_less_iff_less_mult mult.commute)
    ultimately show ?thesis using False Suc.IH [of "n div 16"] by (simp add: hex_text.simps [of n])
  qed
qed simp

text \<open>\<^verbatim>\<open>[String]::join\<close>.\<close>

fun join_with :: "string \<Rightarrow> string list \<Rightarrow> string" where
  "join_with sep [] = []"
| "join_with sep [s] = s"
| "join_with sep (s # t # ss) = s @ sep @ join_with sep (t # ss)"

subsection \<open>Durations\<close>

definition MILLISECOND :: duration where "MILLISECOND = 1000000"
definition SECOND :: duration where "SECOND = 1000000000"

text \<open>\<open>digits\<close> digits of \<open>frac\<close>, the zeros at the end left out; nothing at all for zero.\<close>

definition fraction_text :: "nat \<Rightarrow> nat \<Rightarrow> string" where
  "fraction_text digits frac =
     (let shown = rev (dropWhile (\<lambda>c. c = CHR ''0'') (rev (pad_zeros digits (nat_text frac)))) in
      if frac = 0 then [] else CHR ''.'' # shown)"

definition duration_text :: "duration \<Rightarrow> string" where
  "duration_text d =
     (if SECOND \<le> d then nat_text (d div SECOND) @ fraction_text 9 (d mod SECOND) @ ''s''
      else if MILLISECOND \<le> d
      then nat_text (d div MILLISECOND) @ fraction_text 6 (d mod MILLISECOND) @ ''ms''
      else if 1000 \<le> d then nat_text (d div 1000) @ fraction_text 3 (d mod 1000) @ [CHR 0xC2, CHR 0xB5, CHR ''s'']
      else nat_text d @ ''ns'')"

text \<open>\<open>duration\<close> in whole milliseconds, saturating.\<close>

definition duration_ms :: "duration \<Rightarrow> nat" where
  "duration_ms d = min (d div MILLISECOND) U64_MAX"

lemma duration_ms_bound: "duration_ms d \<le> U64_MAX"
  by (simp add: duration_ms_def)

end
