(* ===== verification/Request_Guard.thy ===== *)
theory Request_Guard
  imports Rust_Num Http_Gates Machine
begin

declare map_of_eq_Some_iff [simp del] Some_eq_map_of_iff [simp del]

text \<open>
  The request guard (\<^verbatim>\<open>src/server/request_guard.rs\<close>), the shed response (\<^verbatim>\<open>src/server/shed.rs\<close>)
  and the error body of \<^verbatim>\<open>src/error.rs\<close>: request ids, what a request is logged as, a contained
  panic, a deadline.

  A request runs as events: the handler answers or panics, its connection closes (the future, or
  the body being streamed, is dropped), the client's side polls the body. The clock is read at
  every event. Log lines are values, kept in the order they are written. What the handler does is
  part of the events; a body is what its polls answer. The JSON writer of \<^verbatim>\<open>serde_json\<close> is
  \<open>json_text\<close> and \<open>header_value\<close> is \<^verbatim>\<open>HeaderValue::from_str\<close>.
\<close>

definition REQUEST_ID_HEADER :: string where "REQUEST_ID_HEADER = ''x-request-id''"
definition HANDLER_PANIC :: string where "HANDLER_PANIC = ''handler_panic''"
definition REQUEST_TIMEOUT :: string where "REQUEST_TIMEOUT = ''request_timeout''"
definition MAX_REQUEST_ID_LEN :: nat where "MAX_REQUEST_ID_LEN = 128"
definition SLOW_REQUEST_THRESHOLD_ENV :: string where
  "SLOW_REQUEST_THRESHOLD_ENV = ''SLOW_REQUEST_THRESHOLD_MS''"
definition DEFAULT_SLOW_REQUEST_THRESHOLD :: duration where
  "DEFAULT_SLOW_REQUEST_THRESHOLD = 10 * SECOND"
definition UNMATCHED_ROUTE :: string where "UNMATCHED_ROUTE = ''<unmatched>''"

text \<open>\<^verbatim>\<open>HeaderMap::insert\<close>: the one value of its name.\<close>

definition header_remove :: "string \<Rightarrow> header_map \<Rightarrow> header_map" where
  "header_remove name headers = filter (\<lambda>(n, _). n \<noteq> name) headers"

definition header_insert :: "string \<Rightarrow> string \<Rightarrow> header_map \<Rightarrow> header_map" where
  "header_insert name value_text headers = header_remove name headers @ [(name, value_text)]"

lemma get_all_insert [store_simps]:
  "get_all (header_insert name v headers) n = (if n = name then [v] else get_all headers n)"
  by (induction headers) (auto simp: header_insert_def header_remove_def get_all_def)

lemma get_all_remove [store_simps]:
  "get_all (header_remove name headers) n = (if n = name then [] else get_all headers n)"
  by (induction headers) (auto simp: header_remove_def get_all_def)

subsection \<open>The error body\<close>

record error_detail =
  ed_type :: string
  ed_message :: string

record error_response =
  er_error :: error_detail

definition error_response_new :: "string \<Rightarrow> string \<Rightarrow> error_response" where
  "error_response_new error_type message = \<lparr>er_error = \<lparr>ed_type = error_type, ed_message = message\<rparr>\<rparr>"

definition error_response_json :: "error_response \<Rightarrow> json" where
  "error_response_json r =
     JObject [(''error'', JObject [(''type'', JString (ed_type (er_error r))),
                                   (''message'', JString (ed_message (er_error r)))])]"

definition error_response_of_json :: "json \<Rightarrow> error_response option" where
  "error_response_of_json v =
     Option.bind (Option.bind (struct_fields [''error''] [] v) (\<lambda>m. map_of m ''error'')) (\<lambda>d.
     Option.bind (struct_fields [''type'', ''message''] [] d) (\<lambda>m.
     Option.bind (Option.bind (map_of m ''type'') as_str) (\<lambda>error_type.
     Option.bind (Option.bind (map_of m ''message'') as_str) (\<lambda>message.
       Some (error_response_new error_type message)))))"

lemma error_response_round_trip [simp]: "error_response_of_json (error_response_json r) = Some r"
  by (simp add: error_response_of_json_def error_response_json_def error_response_new_def as_str_def)

subsection \<open>Request ids\<close>

definition is_usable_request_id :: "string \<Rightarrow> bool" where
  "is_usable_request_id rid \<longleftrightarrow>
     rid \<noteq> [] \<and> length rid \<le> MAX_REQUEST_ID_LEN
     \<and> list_all (\<lambda>b. is_ascii_alphanumeric b \<or> b \<in> {CHR ''-'', CHR ''_'', CHR ''.'', CHR '':''}) rid"

text \<open>The two statics of \<^verbatim>\<open>RequestId::mint\<close>; \<open>random\<close> is what the operating system's randomness gives.\<close>

record minter =
  mt_instance :: "64 word option"
  mt_sequence :: "64 word"

definition minter_new :: minter where
  "minter_new = \<lparr>mt_instance = None, mt_sequence = 0\<rparr>"

definition mint :: "64 word \<Rightarrow> minter \<Rightarrow> string \<times> minter" where
  "mint random m =
     (let inst = unwrap_or (mt_instance m) random in
      (pad_zeros 16 (hex_text (unat inst)) @ ''-'' @ hex_text (unat (mt_sequence m)),
       \<lparr>mt_instance = Some inst, mt_sequence = mt_sequence m + 1\<rparr>))"

definition id_of_headers ::
  "(string \<Rightarrow> string option) \<Rightarrow> 64 word \<Rightarrow> header_map \<Rightarrow> minter \<Rightarrow> string \<times> minter" where
  "id_of_headers to_str random headers m =
     (case header_text to_str headers REQUEST_ID_HEADER of
        Some rid \<Rightarrow> if is_usable_request_id rid then (rid, m) else mint random m
      | None \<Rightarrow> mint random m)"

subsection \<open>What is logged\<close>

record request_line =
  rl_request_id :: string
  rl_method :: string
  rl_path :: string

datatype log_line =
    RequestCompleted request_line nat nat
  | SlowRequest request_line nat nat nat
  | StreamCut request_line nat nat
  | RequestDropped request_line nat
  | HandlerPanicked request_line string
  | DeadlineOutlived request_line nat
  | ThresholdUnreadable string string nat

fun is_outcome :: "log_line \<Rightarrow> bool" where
  "is_outcome (RequestCompleted _ _ _) = True"
| "is_outcome (SlowRequest _ _ _ _) = True"
| "is_outcome (StreamCut _ _ _) = True"
| "is_outcome (RequestDropped _ _) = True"
| "is_outcome _ = False"

text \<open>The line of the request a log line is about.\<close>

fun about_line :: "log_line \<Rightarrow> request_line option" where
  "about_line (RequestCompleted l _ _) = Some l"
| "about_line (SlowRequest l _ _ _) = Some l"
| "about_line (StreamCut l _ _) = Some l"
| "about_line (RequestDropped l _) = Some l"
| "about_line (HandlerPanicked l _) = Some l"
| "about_line (DeadlineOutlived l _) = Some l"
| "about_line (ThresholdUnreadable _ _ _) = None"

subsection \<open>The slow-request threshold\<close>

definition parse_slow_request_threshold :: "string option \<Rightarrow> duration option \<times> log_line list" where
  "parse_slow_request_threshold raw =
     (case Option.bind raw (\<lambda>r. if trim r = [] then None else Some (trim r)) of
        None \<Rightarrow> (Some DEFAULT_SLOW_REQUEST_THRESHOLD, [])
      | Some text \<Rightarrow>
          (case parse_u64 text of
             Some ms \<Rightarrow> (if ms = 0 then None else Some (ms * MILLISECOND), [])
           | None \<Rightarrow>
               (Some DEFAULT_SLOW_REQUEST_THRESHOLD,
                [ThresholdUnreadable SLOW_REQUEST_THRESHOLD_ENV text
                   (duration_ms DEFAULT_SLOW_REQUEST_THRESHOLD)])))"

text \<open>Read on first use and kept: \<open>cell\<close> is the \<^verbatim>\<open>OnceLock\<close>.\<close>

definition slow_request_threshold ::
  "environment \<Rightarrow> duration option option \<Rightarrow> duration option \<times> duration option option \<times> log_line list" where
  "slow_request_threshold env cell =
     (case cell of
        Some threshold \<Rightarrow> (threshold, cell, [])
      | None \<Rightarrow>
          (case parse_slow_request_threshold (env SLOW_REQUEST_THRESHOLD_ENV) of
             (threshold, lines) \<Rightarrow> (threshold, Some threshold, lines)))"

subsection \<open>A request in flight\<close>

record in_flight =
  if_request_id :: string
  if_method :: string
  if_path :: string
  if_started :: instant
  if_slow_threshold :: "duration option"
  if_finished :: bool

definition in_flight_start ::
  "string \<Rightarrow> string \<Rightarrow> string \<Rightarrow> instant \<Rightarrow> duration option \<Rightarrow> in_flight" where
  "in_flight_start rid verb path now threshold =
     \<lparr>if_request_id = rid, if_method = verb, if_path = path, if_started = now,
      if_slow_threshold = threshold, if_finished = False\<rparr>"

definition line_of :: "in_flight \<Rightarrow> request_line" where
  "line_of f = \<lparr>rl_request_id = if_request_id f, rl_method = if_method f, rl_path = if_path f\<rparr>"

definition in_flight_drop :: "instant \<Rightarrow> in_flight \<Rightarrow> log_line list" where
  "in_flight_drop now f =
     (if if_finished f then [] else [RequestDropped (line_of f) (duration_ms (now - if_started f))])"

text \<open>\<^verbatim>\<open>finish\<close> and \<^verbatim>\<open>cut\<close> take the request, so it is dropped at their end.\<close>

definition in_flight_finish :: "instant \<Rightarrow> nat \<Rightarrow> in_flight \<Rightarrow> log_line list" where
  "in_flight_finish now status f =
     (let f' = f\<lparr>if_finished := True\<rparr>;
          latency = now - if_started f in
      (case if_slow_threshold f of
         Some threshold \<Rightarrow>
           if threshold \<le> latency
           then [SlowRequest (line_of f) status (duration_ms latency) (duration_ms threshold)]
           else [RequestCompleted (line_of f) status (duration_ms latency)]
       | None \<Rightarrow> [RequestCompleted (line_of f) status (duration_ms latency)])
      @ in_flight_drop now f')"

definition in_flight_cut :: "instant \<Rightarrow> nat \<Rightarrow> in_flight \<Rightarrow> log_line list" where
  "in_flight_cut now status f =
     (let f' = f\<lparr>if_finished := True\<rparr> in
      StreamCut (line_of f) status (duration_ms (now - if_started f)) # in_flight_drop now f')"

subsection \<open>Responses and their bodies\<close>

datatype data_poll = Waiting | Data string | DataError string | EndOfData

record answer =
  an_status :: nat
  an_headers :: header_map
  an_body :: "data_poll list"

fun poll_data :: "data_poll list \<Rightarrow> data_poll \<times> data_poll list" where
  "poll_data [] = (EndOfData, [])"
| "poll_data (p # ps) = (p, ps)"

definition json_answer :: "(json \<Rightarrow> string) \<Rightarrow> nat \<Rightarrow> json \<Rightarrow> answer" where
  "json_answer json_text status v =
     \<lparr>an_status = status, an_headers = [(''content-type'', APPLICATION_JSON)], an_body = [Data (json_text v)]\<rparr>"

definition failure_response :: "(json \<Rightarrow> string) \<Rightarrow> nat \<Rightarrow> string \<Rightarrow> string \<Rightarrow> answer" where
  "failure_response json_text status error_type message =
     json_answer json_text status (error_response_json (error_response_new error_type message))"

datatype payload = StaticText string | OwnedText string | OtherPayload

fun panic_message :: "payload \<Rightarrow> string" where
  "panic_message (StaticText s) = s"
| "panic_message (OwnedText s) = s"
| "panic_message OtherPayload = ''panic payload is not a string''"

text \<open>\<^verbatim>\<open>str::get(..n)\<close>: nothing unless \<open>n\<close> is the start of a character or the end.\<close>

definition str_get_to :: "nat \<Rightarrow> string \<Rightarrow> string option" where
  "str_get_to n s =
     (if n = length s \<or> (n < length s \<and> \<not> is_cont (byte (s ! n))) then Some (take n s) else None)"

definition is_streamed_answer ::
  "(string \<Rightarrow> string option) \<Rightarrow> string \<Rightarrow> answer \<Rightarrow> bool" where
  "is_streamed_answer to_str verb response \<longleftrightarrow>
     verb = ''POST''
     \<and> (case header_text to_str (an_headers response) ''content-type'' of
          None \<Rightarrow> False
        | Some v \<Rightarrow>
            (case str_get_to (length TEXT_EVENT_STREAM) (trim_start v) of
               None \<Rightarrow> False
             | Some start \<Rightarrow> eq_ignore_ascii_case start TEXT_EVENT_STREAM))"

record streamed_body =
  sb_data :: "data_poll list"
  sb_in_flight :: "in_flight option"
  sb_status :: nat

definition streamed_wrap :: "answer \<Rightarrow> in_flight \<Rightarrow> streamed_body" where
  "streamed_wrap response f =
     \<lparr>sb_data = an_body response, sb_in_flight = Some f, sb_status = an_status response\<rparr>"

definition streamed_poll ::
  "instant \<Rightarrow> streamed_body \<Rightarrow> data_poll \<times> streamed_body \<times> log_line list" where
  "streamed_poll now b =
     (case poll_data (sb_data b) of
        (polled, rest) \<Rightarrow>
          (if polled = EndOfData
           then (case sb_in_flight b of
                   Some f \<Rightarrow> (polled, b\<lparr>sb_data := rest, sb_in_flight := None\<rparr>,
                              in_flight_finish now (sb_status b) f)
                 | None \<Rightarrow> (polled, b\<lparr>sb_data := rest\<rparr>, []))
           else (polled, b\<lparr>sb_data := rest\<rparr>, [])))"

definition streamed_drop :: "instant \<Rightarrow> streamed_body \<Rightarrow> log_line list" where
  "streamed_drop now b =
     (case sb_in_flight b of Some f \<Rightarrow> in_flight_cut now (sb_status b) f | None \<Rightarrow> [])"

subsection \<open>The guard\<close>

record guard_libraries =
  gl_to_str :: "string \<Rightarrow> string option"
  gl_header_value :: "string \<Rightarrow> string option"
  gl_json_text :: "json \<Rightarrow> string"

record guarded_request =
  gr_method :: string
  gr_headers :: header_map
  gr_matched_path :: "string option"
  gr_request_id :: "string option"

definition route_template :: "guarded_request \<Rightarrow> string" where
  "route_template r = unwrap_or (gr_matched_path r) UNMATCHED_ROUTE"

datatype outcome = Returned answer | Panicking payload

datatype phase =
    HandlerRuns in_flight
  | Whole answer
  | Streamed answer streamed_body
  | Gone

record guarded =
  gd_phase :: phase
  gd_log :: "log_line list"

text \<open>Up to the handler's first poll: the id, the request it is handed, the request in flight.\<close>

definition guard_begin ::
  "guard_libraries \<Rightarrow> duration option \<Rightarrow> 64 word \<Rightarrow> instant \<Rightarrow> minter \<Rightarrow> guarded_request
     \<Rightarrow> guarded_request \<times> guarded \<times> minter" where
  "guard_begin L threshold random now m r =
     (case id_of_headers (gl_to_str L) random (gr_headers r) m of
        (rid, m') \<Rightarrow>
          (r\<lparr>gr_request_id := Some rid\<rparr>,
           \<lparr>gd_phase = HandlerRuns (in_flight_start rid (gr_method r) (route_template r) now threshold),
            gd_log = []\<rparr>,
           m'))"

definition panic_response :: "guard_libraries \<Rightarrow> string \<Rightarrow> answer" where
  "panic_response L rid =
     failure_response (gl_json_text L) 500 HANDLER_PANIC
       (''The request handler failed. The service logged the failure under request id '' @ rid @ ''.'')"

definition with_request_id :: "guard_libraries \<Rightarrow> string \<Rightarrow> answer \<Rightarrow> answer" where
  "with_request_id L rid response =
     (case gl_header_value L rid of
        Some v \<Rightarrow> response\<lparr>an_headers := header_insert REQUEST_ID_HEADER v (an_headers response)\<rparr>
      | None \<Rightarrow> response)"

text \<open>From the handler's outcome to the response.\<close>

definition guard_answer :: "guard_libraries \<Rightarrow> instant \<Rightarrow> in_flight \<Rightarrow> outcome \<Rightarrow> phase \<times> log_line list" where
  "guard_answer L now f result =
     (let (response, panicked) =
            (case result of
               Returned response \<Rightarrow> (response, [])
             | Panicking p \<Rightarrow>
                 (panic_response L (if_request_id f), [HandlerPanicked (line_of f) (panic_message p)])) in
      if is_streamed_answer (gl_to_str L) (if_method f) response
      then (Streamed (with_request_id L (if_request_id f) response) (streamed_wrap response f), panicked)
      else (Whole (with_request_id L (if_request_id f) response),
            panicked @ in_flight_finish now (an_status response) f))"

datatype guard_event =
    HandlerEnds instant outcome
  | BodyPolled instant
  | ConnectionCloses instant

fun guard_step :: "guard_libraries \<Rightarrow> guarded \<Rightarrow> guard_event \<Rightarrow> guarded" where
  "guard_step L g (HandlerEnds now result) =
     (case gd_phase g of
        HandlerRuns f \<Rightarrow>
          (case guard_answer L now f result of
             (p, lines) \<Rightarrow> \<lparr>gd_phase = p, gd_log = gd_log g @ lines\<rparr>)
      | _ \<Rightarrow> g)"
| "guard_step L g (BodyPolled now) =
     (case gd_phase g of
        Streamed response b \<Rightarrow>
          (case streamed_poll now b of
             (_, b', lines) \<Rightarrow> \<lparr>gd_phase = Streamed response b', gd_log = gd_log g @ lines\<rparr>)
      | _ \<Rightarrow> g)"
| "guard_step L g (ConnectionCloses now) =
     (case gd_phase g of
        HandlerRuns f \<Rightarrow> \<lparr>gd_phase = Gone, gd_log = gd_log g @ in_flight_drop now f\<rparr>
      | Streamed response b \<Rightarrow> \<lparr>gd_phase = Gone, gd_log = gd_log g @ streamed_drop now b\<rparr>
      | _ \<Rightarrow> \<lparr>gd_phase = Gone, gd_log = gd_log g\<rparr>)"

subsection \<open>Deadlines and sheds\<close>

text \<open>\<open>finished\<close> is what \<^verbatim>\<open>time::timeout\<close> over the handler answers: its response, or nothing when the
  deadline came first.\<close>

definition enforce_deadline ::
  "(json \<Rightarrow> string) \<Rightarrow> duration \<Rightarrow> guarded_request \<Rightarrow> answer option \<Rightarrow> answer \<times> log_line list" where
  "enforce_deadline json_text deadline r finished =
     (case finished of
        Some response \<Rightarrow> (response, [])
      | None \<Rightarrow>
          (failure_response json_text 504 REQUEST_TIMEOUT
             (''The request did not complete within '' @ duration_text deadline @ ''.''),
           [DeadlineOutlived
              \<lparr>rl_request_id = unwrap_or (gr_request_id r) ''unassigned'', rl_method = gr_method r,
               rl_path = route_template r\<rparr>
              (duration_ms deadline)]))"

definition RETRY_AFTER_SECS_FIELD :: string where "RETRY_AFTER_SECS_FIELD = ''retry_after_secs''"
definition SHED_REASON_FIELD :: string where "SHED_REASON_FIELD = ''reason''"

definition shed_body :: "string \<Rightarrow> string \<Rightarrow> nat \<Rightarrow> json" where
  "shed_body marker reason secs =
     JObject [(''error'', JString marker), (SHED_REASON_FIELD, JString reason),
              (RETRY_AFTER_SECS_FIELD, JNumber (PosInt secs))]"

definition shed_response :: "(json \<Rightarrow> string) \<Rightarrow> string \<Rightarrow> string \<Rightarrow> nat \<Rightarrow> answer" where
  "shed_response json_text marker reason secs =
     (let response = json_answer json_text 503 (shed_body marker reason secs) in
      response\<lparr>an_headers := header_insert ''retry-after'' (nat_text secs) (an_headers response)\<rparr>)"

subsection \<open>Ids\<close>

lemma usable_minted: "is_usable_request_id (fst (mint random m))"
proof -
  define inst where "inst = unwrap_or (mt_instance m) random"
  have short: "length (hex_text (unat w)) \<le> 16" for w :: "64 word"
  proof -
    have "unat w < 16 ^ 16" using unsigned_less [of w] by simp
    then show ?thesis by (intro hex_text_length) simp_all
  qed
  have plain: "list_all (\<lambda>b. is_ascii_alphanumeric b \<or> b \<in> {CHR ''-'', CHR ''_'', CHR ''.'', CHR '':''}) (hex_text n)" for n
    using hex_text_alphanumeric [of n] by (simp add: list_all_iff)
  have zero: "is_ascii_alphanumeric (CHR ''0'')" by code_simp
  show ?thesis
    using short [of inst] short [of "mt_sequence m"] plain [of "unat inst"] plain [of "unat (mt_sequence m)"] zero
    by (auto simp: mint_def Let_def is_usable_request_id_def pad_zeros_def MAX_REQUEST_ID_LEN_def
        list_all_iff simp flip: inst_def)
qed

lemma usable_id_of_headers: "is_usable_request_id (fst (id_of_headers to_str random headers m))"
  by (simp add: id_of_headers_def usable_minted split: option.splits)

lemma id_of_headers_adopts:
  "header_text to_str headers REQUEST_ID_HEADER = Some rid \<Longrightarrow> is_usable_request_id rid
     \<Longrightarrow> id_of_headers to_str random headers m = (rid, m)"
  by (simp add: id_of_headers_def)

fun mint_each :: "64 word list \<Rightarrow> minter \<Rightarrow> string list" where
  "mint_each [] m = []"
| "mint_each (random # rs) m = (case mint random m of (rid, m') \<Rightarrow> rid # mint_each rs m')"

lemma mint_each_eq:
  "mint_each rs m =
     map (\<lambda>i. pad_zeros 16 (hex_text (unat (unwrap_or (mt_instance m) (hd rs)))) @ ''-''
              @ hex_text (unat (mt_sequence m + of_nat i))) [0..<length rs]"
proof (induction rs arbitrary: m)
  case (Cons r rs)
  have *: "[0..<length (r # rs)] = 0 # map Suc [0..<length rs]"
    by (simp add: map_Suc_upt upt_conv_Cons del: upt_Suc)
  show ?case
    unfolding * by (simp add: mint_def Let_def Cons.IH add.assoc del: upt_Suc)
qed simp

lemma hex_sequence_inj:
  assumes "hex_text (unat (base + of_nat i :: 64 word)) = hex_text (unat (base + of_nat j :: 64 word))"
    and "i < 2 ^ 64" and "j < 2 ^ 64"
  shows "i = j"
proof -
  from assms(1) have "unat (base + of_nat i) = unat (base + of_nat j)" by (rule hex_text_inj)
  then have "base + of_nat i = base + (of_nat j :: 64 word)"
    by (rule word_unat_eq_iff [THEN iffD2])
  then have "(of_nat i :: 64 word) = of_nat j" by simp
  then have "unat (of_nat i :: 64 word) = unat (of_nat j :: 64 word)" by simp
  with assms(2,3) show ?thesis by (simp add: unat_of_nat take_bit_nat_eq_self)
qed

subsection \<open>One outcome line per request\<close>

text \<open>Whether the request is over: its outcome is on the log.\<close>

fun over :: "phase \<Rightarrow> bool" where
  "over (HandlerRuns _) = False"
| "over (Whole _) = True"
| "over (Streamed _ b) = (sb_in_flight b = None)"
| "over Gone = True"

fun answer_of :: "phase \<Rightarrow> answer option" where
  "answer_of (Whole r) = Some r"
| "answer_of (Streamed r _) = Some r"
| "answer_of _ = None"

fun flying :: "phase \<Rightarrow> in_flight option" where
  "flying (HandlerRuns f) = Some f"
| "flying (Streamed _ b) = sb_in_flight b"
| "flying _ = None"

definition outcomes :: "log_line list \<Rightarrow> nat" where
  "outcomes lines = length (filter is_outcome lines)"

lemma outcomes_simps [simp]:
  "outcomes [] = 0"
  "outcomes (l # ls) = (if is_outcome l then Suc (outcomes ls) else outcomes ls)"
  "outcomes (ls @ ks) = outcomes ls + outcomes ks"
  by (simp_all add: outcomes_def)

definition echoes :: "guard_libraries \<Rightarrow> string \<Rightarrow> phase \<Rightarrow> bool" where
  "echoes L rid p \<longleftrightarrow>
     (case answer_of p of None \<Rightarrow> True | Some r \<Rightarrow> get_all (an_headers r) REQUEST_ID_HEADER = [rid])"

definition guard_inv :: "guard_libraries \<Rightarrow> request_line \<Rightarrow> guarded \<Rightarrow> bool" where
  "guard_inv L l g \<longleftrightarrow>
     outcomes (gd_log g) = (if over (gd_phase g) then 1 else 0)
     \<and> list_all (\<lambda>line. about_line line = Some l) (gd_log g)
     \<and> (\<forall>f. flying (gd_phase g) = Some f \<longrightarrow> \<not> if_finished f \<and> line_of f = l)
     \<and> (gl_header_value L (rl_request_id l) = Some (rl_request_id l) \<longrightarrow> echoes L (rl_request_id l) (gd_phase g))"

lemma finish_lines:
  "outcomes (in_flight_finish now status f) = 1"
  "list_all (\<lambda>line. about_line line = Some (line_of f)) (in_flight_finish now status f)"
  by (simp_all add: in_flight_finish_def in_flight_drop_def Let_def split: option.split)

lemma finish_line:
  obtains line where "in_flight_finish now status f = [line]" "is_outcome line"
    "about_line line = Some (line_of f)"
proof -
  have "length (in_flight_finish now status f) = 1"
    by (simp add: in_flight_finish_def in_flight_drop_def Let_def split: option.split)
  then obtain line where line: "in_flight_finish now status f = [line]"
    by (metis One_nat_def length_0_conv length_Suc_conv)
  then show ?thesis
    using that [OF line] finish_lines(1) [of now status f] finish_lines(2) [of f now status] by (simp split: if_splits)
qed

lemma panic_response_whole:
  assumes "to_str ''application/json'' = Some ''application/json''"
  shows "\<not> is_streamed_answer to_str verb (panic_response L rid)"
proof -
  have "str_get_to (length TEXT_EVENT_STREAM) (trim_start ''application/json'') = None"
    by code_simp
  with assms show ?thesis
    by (simp add: is_streamed_answer_def panic_response_def failure_response_def json_answer_def
        header_text_def header_get_def get_all_def APPLICATION_JSON_def)
qed

lemma cut_lines:
  "outcomes (in_flight_cut now status f) = 1"
  "list_all (\<lambda>line. about_line line = Some (line_of f)) (in_flight_cut now status f)"
  by (simp_all add: in_flight_cut_def in_flight_drop_def Let_def)

lemma drop_lines:
  "\<not> if_finished f \<Longrightarrow> outcomes (in_flight_drop now f) = 1"
  "list_all (\<lambda>line. about_line line = Some (line_of f)) (in_flight_drop now f)"
  by (simp_all add: in_flight_drop_def)

lemma echoes_answer:
  "gl_header_value L rid = Some rid \<Longrightarrow>
     get_all (an_headers (with_request_id L rid r)) REQUEST_ID_HEADER = [rid]"
  by (simp add: with_request_id_def get_all_insert)

lemma rl_line_of [simp]: "rl_request_id (line_of f) = if_request_id f"
  by (simp add: line_of_def)

lemma guard_inv_step: "guard_inv L l g \<Longrightarrow> guard_inv L l (guard_step L g e)"
proof -
  assume inv: "guard_inv L l g"
  have fly: "\<not> if_finished f" "line_of f = l" if "flying (gd_phase g) = Some f" for f
    using inv that by (simp_all add: guard_inv_def)
  show ?thesis
  proof (cases e)
    case (HandlerEnds now result)
    show ?thesis
    proof (cases "gd_phase g")
      case (HandlerRuns f)
      with fly [of f] have f: "\<not> if_finished f" and l: "l = line_of f" by simp_all
      from inv HandlerRuns HandlerEnds f show ?thesis
        unfolding l
        by (cases result) (simp_all add: guard_inv_def guard_answer_def Let_def finish_lines
              streamed_wrap_def echoes_def echoes_answer)
    qed (use inv HandlerEnds in simp_all)
  next
    case (BodyPolled now)
    show ?thesis
    proof (cases "gd_phase g")
      case (Streamed r b)
      show ?thesis
      proof (cases "sb_in_flight b")
        case None
        with inv Streamed BodyPolled show ?thesis
          by (auto simp: guard_inv_def streamed_poll_def echoes_def split: prod.splits)
      next
        case (Some f)
        with fly [of f] Streamed have f: "\<not> if_finished f" "line_of f = l" by simp_all
        with inv Streamed BodyPolled Some show ?thesis
          by (auto simp: guard_inv_def streamed_poll_def echoes_def finish_lines split: prod.splits)
      qed
    qed (use inv BodyPolled in simp_all)
  next
    case (ConnectionCloses now)
    show ?thesis
    proof (cases "gd_phase g")
      case (HandlerRuns f)
      with fly [of f] have "\<not> if_finished f" "line_of f = l" by simp_all
      with inv HandlerRuns ConnectionCloses show ?thesis
        by (auto simp: guard_inv_def drop_lines echoes_def)
    next
      case (Streamed r b)
      then show ?thesis
        using inv ConnectionCloses fly
        by (cases "sb_in_flight b") (auto simp: guard_inv_def streamed_drop_def cut_lines echoes_def)
    qed (use inv ConnectionCloses in \<open>auto simp: guard_inv_def echoes_def\<close>)
  qed
qed

lemma over_stays: "over (gd_phase g) \<Longrightarrow> over (gd_phase (guard_step L g e))"
  by (cases "gd_phase g"; cases e) (auto simp: streamed_poll_def split: prod.splits option.splits)

interpretation guarding: settling_machine "guard_step L" "guard_inv L l" "\<lambda>g (_ :: unit). over (gd_phase g)"
  for L l
  by unfold_locales (simp_all add: guard_inv_step over_stays)

subsection \<open>What the guard promises\<close>

lemma guard_begin_inv:
  assumes "guard_begin L threshold random now m r = (r', g, m')"
  shows "gr_request_id r' = Some (fst (id_of_headers (gl_to_str L) random (gr_headers r) m))"
    and "guard_inv L \<lparr>rl_request_id = fst (id_of_headers (gl_to_str L) random (gr_headers r) m),
                       rl_method = gr_method r, rl_path = route_template r\<rparr> g"
  using assms
  by (auto simp: guard_begin_def guard_inv_def in_flight_start_def line_of_def echoes_def split: prod.splits)

lemma guarded_run:
  assumes "guard_begin L threshold random now m r = (r', g, m')"
  shows "guard_inv L \<lparr>rl_request_id = fst (id_of_headers (gl_to_str L) random (gr_headers r) m),
                       rl_method = gr_method r, rl_path = route_template r\<rparr> (run (guard_step L) g es)"
  by (rule guarding.run_inv [OF guard_begin_inv(2) [OF assms]])

text \<open>A guarded request of the witnesses: a streamed call of a client that goes away, and another
  whose handler panics.\<close>

definition demo_guard :: guard_libraries where
  "demo_guard = \<lparr>gl_to_str = Some, gl_header_value = Some, gl_json_text = (\<lambda>_. ''{}'')\<rparr>"

definition demo_guarded :: guarded_request where
  "demo_guarded = \<lparr>gr_method = ''POST'', gr_headers = [(''x-request-id'', ''call-7'')],
     gr_matched_path = Some ''/mcp'', gr_request_id = None\<rparr>"

definition demo_stream_answer :: answer where
  "demo_stream_answer = \<lparr>an_status = 200, an_headers = [(''content-type'', ''text/event-stream'')],
     an_body = [Data ''a'', Waiting, Data ''b'']\<rparr>"

definition demo_flying :: guarded where
  "demo_flying = \<lparr>gd_phase = HandlerRuns (in_flight_start ''call-7'' ''POST'' ''/mcp'' 5 (Some SECOND)), gd_log = []\<rparr>"

lemma demo_begin:
  "guard_begin demo_guard (Some SECOND) 9 5 minter_new demo_guarded =
     (demo_guarded\<lparr>gr_request_id := Some ''call-7''\<rparr>, demo_flying, minter_new)"
proof -
  have "header_text Some (gr_headers demo_guarded) REQUEST_ID_HEADER = Some ''call-7''"
    by code_simp
  moreover have "is_usable_request_id ''call-7''" by code_simp
  ultimately have "id_of_headers Some 9 (gr_headers demo_guarded) minter_new = (''call-7'', minter_new)"
    by (rule id_of_headers_adopts)
  then show ?thesis
    by (simp add: guard_begin_def demo_guard_def demo_flying_def demo_guarded_def route_template_def)
qed

text \<open>
  C20: Every request leaves its trace once. Whatever its handler does and whenever its client goes
  away, the log holds exactly one outcome line for it once it is over and none before (a completed
  or slow request, a stream cut short, a request dropped with no response), and every line names
  its id, its verb and the template of its route, never its path.
\<close>

theorem every_request_leaves_one_line:
  assumes "guard_begin L threshold random now m r = (r', g, m')"
  shows "length (filter is_outcome (gd_log (run (guard_step L) g es))) =
           (if over (gd_phase (run (guard_step L) g es)) then 1 else 0)
         \<and> (\<forall>line \<in> set (gd_log (run (guard_step L) g es)).
              about_line line = Some \<lparr>rl_request_id = fst (id_of_headers (gl_to_str L) random (gr_headers r) m),
                                       rl_method = gr_method r, rl_path = route_template r\<rparr>)
         \<and> (over (gd_phase (run (guard_step L) g es)) \<longrightarrow>
              length (filter is_outcome (gd_log (run (guard_step L) g (es @ fs)))) = 1)"
proof -
  define l where "l = \<lparr>rl_request_id = fst (id_of_headers (gl_to_str L) random (gr_headers r) m),
                        rl_method = gr_method r, rl_path = route_template r\<rparr>"
  have inv: "guard_inv L l (run (guard_step L) g ds)" for ds
    unfolding l_def by (rule guarded_run [OF assms])
  have later: "over (gd_phase (run (guard_step L) g es)) \<Longrightarrow> over (gd_phase (run (guard_step L) g (es @ fs)))"
    by (rule guarding.run_settled_later [OF inv [of "[]", simplified]])
  show ?thesis
    using inv [of es] inv [of "es @ fs"] later
    by (auto simp: guard_inv_def outcomes_def list_all_iff simp flip: l_def)
qed

lemma every_request_leaves_one_line_witness:
  "length (filter is_outcome (gd_log (run (guard_step demo_guard) demo_flying
      [HandlerEnds 6 (Returned demo_stream_answer), BodyPolled 7, ConnectionCloses 8]))) = 1"
proof -
  have "is_streamed_answer Some ''POST'' demo_stream_answer" by code_simp
  then have "over (gd_phase (run (guard_step demo_guard) demo_flying
      [HandlerEnds 6 (Returned demo_stream_answer), BodyPolled 7, ConnectionCloses 8]))"
    by (simp add: demo_flying_def in_flight_start_def guard_answer_def streamed_poll_def
        streamed_wrap_def demo_guard_def demo_stream_answer_def)
  with every_request_leaves_one_line [OF demo_begin, where fs = "[]" and es =
      "[HandlerEnds 6 (Returned demo_stream_answer), BodyPolled 7, ConnectionCloses 8]"]
  show ?thesis by (simp only: if_True)
qed

text \<open>
  Every response carries one request id: the caller's own when it is usable, a minted one
  otherwise; always 1 to 128 letters, digits and \<^verbatim>\<open>-_.:\<close>, so it can neither break nor forge a log
  line; and the handler was handed the same id.
\<close>

theorem responses_carry_their_request_id:
  assumes "guard_begin L threshold random now m r = (r', g, m')"
    and plain: "\<And>s. is_usable_request_id s \<Longrightarrow> gl_header_value L s = Some s"
    and response: "answer_of (gd_phase (run (guard_step L) g es)) = Some response"
  shows "\<exists>rid. get_all (an_headers response) REQUEST_ID_HEADER = [rid]
           \<and> gr_request_id r' = Some rid \<and> is_usable_request_id rid
           \<and> (\<forall>own. header_text (gl_to_str L) (gr_headers r) REQUEST_ID_HEADER = Some own
                \<and> is_usable_request_id own \<longrightarrow> rid = own)"
proof -
  define rid where "rid = fst (id_of_headers (gl_to_str L) random (gr_headers r) m)"
  have usable: "is_usable_request_id rid" by (simp add: rid_def usable_id_of_headers)
  have "get_all (an_headers response) REQUEST_ID_HEADER = [rid]"
    using guarded_run [OF assms(1), of es] response plain [OF usable]
    by (simp add: guard_inv_def echoes_def flip: rid_def)
  moreover have "rid = own"
    if "header_text (gl_to_str L) (gr_headers r) REQUEST_ID_HEADER = Some own" "is_usable_request_id own" for own
    using id_of_headers_adopts [OF that] by (simp add: rid_def)
  ultimately show ?thesis
    using usable guard_begin_inv(1) [OF assms(1)] by (auto simp flip: rid_def)
qed

lemma responses_carry_their_request_id_witness:
  "\<exists>response. answer_of (gd_phase (run (guard_step demo_guard) demo_flying
       [HandlerEnds 6 (Panicking (StaticText ''boom''))])) = Some response
     \<and> an_status response = 500 \<and> get_all (an_headers response) REQUEST_ID_HEADER = [''call-7'']"
proof -
  define response where "response = with_request_id demo_guard ''call-7'' (panic_response demo_guard ''call-7'')"
  have "\<not> is_streamed_answer Some ''POST'' (panic_response demo_guard ''call-7'')"
    by (rule panic_response_whole) simp
  then have ran: "answer_of (gd_phase (run (guard_step demo_guard) demo_flying
       [HandlerEnds 6 (Panicking (StaticText ''boom''))])) = Some response"
    by (simp add: response_def demo_flying_def in_flight_start_def guard_answer_def demo_guard_def)
  have "an_status response = 500"
    by (simp add: response_def with_request_id_def demo_guard_def panic_response_def failure_response_def
        json_answer_def)
  moreover have "get_all (an_headers response) REQUEST_ID_HEADER = [''call-7'']"
    using responses_carry_their_request_id [OF demo_begin _ ran] by (auto simp: demo_guard_def)
  ultimately show ?thesis using ran by blast
qed

text \<open>
  The ids a process mints are distinct for as long as its 64-bit sequence does not wrap around,
  whatever randomness it started from.
\<close>

theorem minted_ids_are_distinct:
  assumes "length rs \<le> 2 ^ 64"
  shows "distinct (mint_each rs m)"
proof -
  have "inj_on (\<lambda>i. pad_zeros 16 (hex_text (unat (unwrap_or (mt_instance m) (hd rs)))) @ ''-''
                  @ hex_text (unat (mt_sequence m + of_nat i))) {0..<length rs}"
    using assms by (intro inj_onI) (auto dest: hex_sequence_inj)
  then show ?thesis unfolding mint_each_eq by (simp add: distinct_map del: upt_Suc)
qed

lemma minted_ids_are_distinct_witness:
  "distinct (mint_each [3, 4, 5] \<lparr>mt_instance = None, mt_sequence = - 1\<rparr>)"
  using minted_ids_are_distinct [of "[3, 4, 5]" "\<lparr>mt_instance = None, mt_sequence = - 1\<rparr>"] by simp

text \<open>
  A handler that panics is answered: the caller gets a 500 whose JSON body names
  \<^verbatim>\<open>handler_panic\<close> and the id the panic was logged under, and the log holds the panic and then
  the completed request.
\<close>

theorem panics_are_answered:
  assumes "gl_to_str L ''application/json'' = Some ''application/json''"
  shows "\<exists>line. guard_answer L now f (Panicking p) =
     (Whole (with_request_id L (if_request_id f)
        \<lparr>an_status = 500, an_headers = [(''content-type'', ''application/json'')],
         an_body = [Data (gl_json_text L (error_response_json (error_response_new ''handler_panic''
           (''The request handler failed. The service logged the failure under request id ''
            @ if_request_id f @ ''.''))))]\<rparr>),
      [HandlerPanicked (line_of f) (panic_message p), line])
   \<and> is_outcome line \<and> about_line line = Some (line_of f)"
proof -
  have "\<not> is_streamed_answer (gl_to_str L) (if_method f) (panic_response L (if_request_id f))"
    using assms by (rule panic_response_whole)
  moreover obtain line where "in_flight_finish now 500 f = [line]" "is_outcome line" "about_line line = Some (line_of f)"
    by (rule finish_line)
  ultimately show ?thesis
    by (auto simp: guard_answer_def panic_response_def failure_response_def json_answer_def Let_def
        HANDLER_PANIC_def APPLICATION_JSON_def)
qed

lemma panics_are_answered_witness:
  "an_status (the (answer_of (fst (guard_answer demo_guard 9
     (in_flight_start ''call-7'' ''POST'' ''/mcp'' 5 None) (Panicking OtherPayload))))) = 500"
proof -
  have "gl_to_str demo_guard ''application/json'' = Some ''application/json''" by (simp add: demo_guard_def)
  from panics_are_answered [OF this, of 9 "in_flight_start ''call-7'' ''POST'' ''/mcp'' 5 None" OtherPayload]
  show ?thesis by (auto simp: with_request_id_def split: option.splits)
qed

end
