(* ===== verification/Trace_Context.thy ===== *)
theory Trace_Context
  imports Request_Guard
begin

declare map_of_eq_Some_iff [simp del] Some_eq_map_of_iff [simp del]

text \<open>
  W3C trace context (\<^verbatim>\<open>src/server/trace_context.rs\<close>), the level ceilings of logged targets
  (\<^verbatim>\<open>src/server/log_ceiling.rs\<close>) and the health answer (\<^verbatim>\<open>src/server/health.rs\<close>). Joining and
  exporting a trace is the OpenTelemetry packages' own; what they read a context through (the
  extractor) and write one through (the injector) is modelled.
\<close>

definition TRACEPARENT :: string where "TRACEPARENT = ''traceparent''"
definition TRACESTATE :: string where "TRACESTATE = ''tracestate''"
definition MAX_TRACESTATE_LEN :: nat where "MAX_TRACESTATE_LEN = 512"
definition TRACEPARENT_LEN :: nat where "TRACEPARENT_LEN = 55"

definition slice :: "nat \<Rightarrow> nat \<Rightarrow> string \<Rightarrow> string" where
  "slice a b s = take (b - a) (drop a s)"

definition lower_hex :: "string \<Rightarrow> bool" where
  "lower_hex s \<longleftrightarrow> list_all (\<lambda>b. is_ascii_digit b \<or> (97 \<le> byte b \<and> byte b \<le> 102)) s"

definition not_zero :: "string \<Rightarrow> bool" where
  "not_zero s \<longleftrightarrow> list_ex (\<lambda>b. b \<noteq> CHR ''0'') s"

definition is_valid_traceparent :: "string \<Rightarrow> bool" where
  "is_valid_traceparent s \<longleftrightarrow>
     (if length s < TRACEPARENT_LEN then False
      else
        (let version = slice 0 2 s; trace_id = slice 3 35 s; parent_id = slice 36 52 s; flags = slice 53 55 s;
             dashes = (s ! 2 = CHR ''-'' \<and> s ! 35 = CHR ''-'' \<and> s ! 52 = CHR ''-'');
             tail_ok = (if version = ''00'' then length s = TRACEPARENT_LEN
                        else length s = TRACEPARENT_LEN \<or> s ! TRACEPARENT_LEN = CHR ''-'') in
         dashes \<and> tail_ok \<and> lower_hex version \<and> version \<noteq> ''ff''
         \<and> lower_hex trace_id \<and> not_zero trace_id \<and> lower_hex parent_id \<and> not_zero parent_id
         \<and> lower_hex flags))"

definition printable :: "string \<Rightarrow> bool" where
  "printable s \<longleftrightarrow> list_all (\<lambda>b. 32 \<le> byte b \<and> byte b \<le> 126) s"

definition is_usable_tracestate :: "string \<Rightarrow> bool" where
  "is_usable_tracestate s \<longleftrightarrow> s \<noteq> [] \<and> length s \<le> MAX_TRACESTATE_LEN \<and> printable s"

record trace_context =
  tc_traceparent :: string
  tc_tracestate :: "string option"

definition trace_parse :: "string \<Rightarrow> string option \<Rightarrow> trace_context option" where
  "trace_parse traceparent tracestate =
     (if \<not> is_valid_traceparent (trim traceparent) then None
      else Some \<lparr>tc_traceparent = trim traceparent,
                 tc_tracestate =
                   Option.bind tracestate
                     (\<lambda>s. if is_usable_tracestate (trim s) then Some (trim s) else None)\<rparr>)"

definition trace_from_headers :: "(string \<Rightarrow> string option) \<Rightarrow> header_map \<Rightarrow> trace_context option" where
  "trace_from_headers to_str headers =
     Option.bind (header_text to_str headers TRACEPARENT)
       (\<lambda>traceparent. trace_parse traceparent (header_text to_str headers TRACESTATE))"

definition trace_from_meta :: "json option \<Rightarrow> trace_context option" where
  "trace_from_meta params =
     Option.bind (param params ''_meta'') (\<lambda>meta.
     Option.bind (Option.bind (json_get TRACEPARENT meta) as_str) (\<lambda>traceparent.
       trace_parse traceparent (Option.bind (json_get TRACESTATE meta) as_str)))"

text \<open>\<^verbatim>\<open>str::get(a..b)\<close>: the cut must fall between characters.\<close>

definition char_boundary :: "nat \<Rightarrow> string \<Rightarrow> bool" where
  "char_boundary n s \<longleftrightarrow> n = 0 \<or> n = length s \<or> (n < length s \<and> \<not> is_cont (byte (s ! n)))"

definition str_get :: "nat \<Rightarrow> nat \<Rightarrow> string \<Rightarrow> string option" where
  "str_get a b s = (if a \<le> b \<and> char_boundary a s \<and> char_boundary b s then Some (slice a b s) else None)"

definition trace_id :: "trace_context \<Rightarrow> string" where
  "trace_id c = unwrap_or (str_get 3 35 (tc_traceparent c)) []"

definition extract_get :: "trace_context \<Rightarrow> string \<Rightarrow> string option" where
  "extract_get c key =
     (if eq_ignore_ascii_case key TRACEPARENT then Some (tc_traceparent c)
      else if eq_ignore_ascii_case key TRACESTATE then tc_tracestate c
      else None)"

definition extract_keys :: "trace_context \<Rightarrow> string list" where
  "extract_keys c = (if tc_tracestate c \<noteq> None then [TRACEPARENT, TRACESTATE] else [TRACEPARENT])"

text \<open>\<open>header_name\<close> is \<^verbatim>\<open>HeaderName::from_bytes\<close>, \<open>header_value\<close> \<^verbatim>\<open>HeaderValue::from_str\<close>.\<close>

definition inject_set ::
  "(string \<Rightarrow> string option) \<Rightarrow> (string \<Rightarrow> string option) \<Rightarrow> string \<Rightarrow> string \<Rightarrow> header_map \<Rightarrow> header_map" where
  "inject_set header_name header_value key v headers =
     (case (header_name key, header_value v) of
        (Some n, Some w) \<Rightarrow> header_insert n w headers
      | _ \<Rightarrow> headers)"

subsection \<open>Level ceilings\<close>

text \<open>\<^verbatim>\<open>LevelFilter\<close>, ordered by verbosity; the level of a span or event is one other than \<^verbatim>\<open>OFF\<close>.\<close>

datatype level_filter = LevelOff | LevelError | LevelWarn | LevelInfo | LevelDebug | LevelTrace

fun verbosity :: "level_filter \<Rightarrow> nat" where
  "verbosity LevelOff = 0"
| "verbosity LevelError = 1"
| "verbosity LevelWarn = 2"
| "verbosity LevelInfo = 3"
| "verbosity LevelDebug = 4"
| "verbosity LevelTrace = 5"

record target_ceiling =
  ce_target :: string
  ce_max_level :: level_filter

record metadata =
  md_target :: string
  md_level :: level_filter

definition ceiling_covers :: "target_ceiling \<Rightarrow> string \<Rightarrow> bool" where
  "ceiling_covers c target =
     (case strip_prefix (ce_target c) target of
        None \<Rightarrow> False
      | Some rest \<Rightarrow> rest = [] \<or> take 2 rest = ''::'')"

definition ceiling_admits :: "target_ceiling \<Rightarrow> metadata \<Rightarrow> bool" where
  "ceiling_admits c m \<longleftrightarrow>
     \<not> ceiling_covers c (md_target m) \<or> verbosity (md_level m) \<le> verbosity (ce_max_level c)"

definition ceilings_admit :: "target_ceiling list \<Rightarrow> metadata \<Rightarrow> bool" where
  "ceilings_admit cs m \<longleftrightarrow> list_all (\<lambda>c. ceiling_admits c m) cs"

definition max_level_hint :: "target_ceiling list \<Rightarrow> level_filter option" where
  "max_level_hint cs = None"

subsection \<open>Health\<close>

record health_response =
  he_status :: string
  he_service :: string
  he_version :: string
  he_details :: "(string, string) table"

definition health_ok :: "string \<Rightarrow> string \<Rightarrow> health_response" where
  "health_ok service version =
     \<lparr>he_status = ''ok'', he_service = service, he_version = version, he_details = []\<rparr>"

definition health_degraded :: "string \<Rightarrow> string \<Rightarrow> health_response" where
  "health_degraded service version =
     \<lparr>he_status = ''degraded'', he_service = service, he_version = version, he_details = []\<rparr>"

definition with_detail :: "string \<Rightarrow> string \<Rightarrow> health_response \<Rightarrow> health_response" where
  "with_detail key v h = h\<lparr>he_details := AList.update key v (he_details h)\<rparr>"

definition health_status_code :: "health_response \<Rightarrow> nat" where
  "health_status_code h = (if he_status h = ''ok'' then 200 else 503)"

definition health_json :: "health_response \<Rightarrow> json" where
  "health_json h =
     JObject ([(''status'', JString (he_status h)), (''service'', JString (he_service h)),
               (''version'', JString (he_version h))]
              @ (if he_details h = [] then []
                 else [(''details'', JObject (map (\<lambda>(k, v). (k, JString v)) (he_details h)))]))"

definition health_answer :: "(json \<Rightarrow> string) \<Rightarrow> health_response \<Rightarrow> answer" where
  "health_answer json_text h = json_answer json_text (health_status_code h) (health_json h)"

subsection \<open>What a context holds\<close>

lemma trim_of_ascii:
  assumes "\<forall>c \<in> set s. byte c < 128"
  shows "trim s = rev (dropWhile (is_whitespace \<circ> byte) (rev (dropWhile (is_whitespace \<circ> byte) s)))"
proof -
  define ch :: "char \<Rightarrow> int \<times> string" where "ch = (\<lambda>c. (byte c, [c]))"
  have chunks: "utf8_chunks s = map ch s" using utf8_chunks_ascii [OF assms] by (simp add: ch_def)
  have drop: "dropWhile (is_whitespace \<circ> fst) (map ch t) = map ch (dropWhile (is_whitespace \<circ> byte) t)" for t
    by (simp add: dropWhile_map comp_def ch_def)
  have flat: "concat (map snd (map ch t)) = t" for t by (induction t) (simp_all add: ch_def)
  show ?thesis by (simp only: trim_def chunks drop rev_map flat)
qed

lemma trim_bytes: "\<forall>c \<in> set s. byte c < 128 \<Longrightarrow> set (trim s) \<subseteq> set s"
  by (auto simp: trim_of_ascii dest!: set_dropWhileD)

lemma trim_trim:
  assumes "\<forall>c \<in> set s. byte c < 128"
  shows "trim (trim s) = trim s"
proof -
  define W where "W = is_whitespace \<circ> byte"
  define t where "t = dropWhile W s"
  define u where "u = rev (dropWhile W (rev t))"
  have u: "trim s = u" using assms by (simp add: trim_of_ascii u_def t_def W_def)
  have keep: "dropWhile W t = t" by (simp add: t_def dropWhile_idem)
  have start: "dropWhile W u = u"
  proof (cases "u = []")
    case False
    obtain rest where t: "t = u @ rest"
      by (metis u_def rev_append rev_rev_ident takeWhile_dropWhile_id)
    from False t have "hd t = hd u" by simp
    moreover have "\<not> W (hd t)"
      using keep False t by (metis append_is_Nil_conv hd_dropWhile)
    ultimately show ?thesis using False by (cases u) simp_all
  qed simp
  have stop: "rev (dropWhile W (rev u)) = u" by (simp add: u_def dropWhile_idem)
  have "\<forall>c \<in> set u. byte c < 128" using assms trim_bytes u by blast
  then have "trim u = rev (dropWhile W (rev (dropWhile W u)))" by (simp add: trim_of_ascii W_def)
  with start stop u show ?thesis by simp
qed

lemma lower_hex_no_cont: "lower_hex s \<Longrightarrow> c \<in> set s \<Longrightarrow> \<not> is_cont (byte c)"
  by (auto simp: lower_hex_def list_all_iff is_cont_def is_ascii_digit_def)

lemma valid_trace_id:
  assumes "is_valid_traceparent (tc_traceparent c)"
  shows "trace_id c = slice 3 35 (tc_traceparent c)" and "length (trace_id c) = 32"
    and "lower_hex (trace_id c)" and "not_zero (trace_id c)"
proof -
  define s where "s = tc_traceparent c"
  have len: "55 \<le> length s" and hex: "lower_hex (slice 3 35 s)" and nz: "not_zero (slice 3 35 s)"
    and dash: "s ! 35 = CHR ''-''"
    using assms by (auto simp: is_valid_traceparent_def TRACEPARENT_LEN_def Let_def s_def split: if_splits)
  have "slice 3 35 s ! 0 = s ! 3" and "0 < length (slice 3 35 s)" using len by (simp_all add: slice_def)
  then have "s ! 3 \<in> set (slice 3 35 s)" by (metis nth_mem)
  with hex have "\<not> is_cont (byte (s ! 3))" by (rule lower_hex_no_cont)
  moreover have "\<not> is_cont (byte (s ! 35))" by (simp add: dash is_cont_def)
  ultimately have "str_get 3 35 s = Some (slice 3 35 s)" using len by (simp add: str_get_def char_boundary_def)
  then show own: "trace_id c = slice 3 35 (tc_traceparent c)" by (simp add: trace_id_def s_def)
  show "length (trace_id c) = 32" using own len by (simp add: slice_def s_def)
  show "lower_hex (trace_id c)" "not_zero (trace_id c)" using own hex nz by (simp_all add: s_def)
qed

lemma trace_parse_Some:
  "trace_parse t st = Some c \<Longrightarrow>
     tc_traceparent c = trim t \<and> is_valid_traceparent (trim t)
     \<and> (\<forall>s. tc_tracestate c = Some s \<longrightarrow> is_usable_tracestate s \<and> (\<exists>raw. st = Some raw \<and> s = trim raw))"
  by (auto simp: trace_parse_def bind_eq_Some_conv split: if_splits)

lemma trace_from_headers_parse:
  "trace_from_headers to_str headers = Some c \<Longrightarrow>
     \<exists>t. header_text to_str headers TRACEPARENT = Some t
       \<and> trace_parse t (header_text to_str headers TRACESTATE) = Some c"
  by (auto simp: trace_from_headers_def bind_eq_Some_conv)

lemma trace_from_meta_parse:
  "trace_from_meta ps = Some c \<Longrightarrow> \<exists>t st. trace_parse t st = Some c"
  by (auto simp: trace_from_meta_def bind_eq_Some_conv)

text \<open>
  Only a trace a server may write into its spans is read, from the headers or from the
  \<^verbatim>\<open>_meta\<close> of a call: its id is 32 lower-case hexadecimal digits, not all zero, and the state that
  comes with it is at most 512 printable ASCII bytes.
\<close>

theorem read_traces_are_plain:
  assumes "trace_from_headers to_str headers = Some c \<or> trace_from_meta ps = Some c"
  shows "length (trace_id c) = 32
    \<and> (\<forall>b \<in> set (trace_id c). is_ascii_digit b \<or> (97 \<le> byte b \<and> byte b \<le> 102))
    \<and> (\<exists>b \<in> set (trace_id c). b \<noteq> CHR ''0'')
    \<and> is_valid_traceparent (tc_traceparent c)
    \<and> (\<forall>s. tc_tracestate c = Some s \<longrightarrow>
         s \<noteq> [] \<and> length s \<le> 512 \<and> (\<forall>b \<in> set s. 32 \<le> byte b \<and> byte b \<le> 126))"
proof -
  obtain t st where "trace_parse t st = Some c"
    using assms trace_from_headers_parse trace_from_meta_parse by blast
  then have tp: "is_valid_traceparent (tc_traceparent c)"
    and st: "\<And>s. tc_tracestate c = Some s \<Longrightarrow> is_usable_tracestate s"
    by (auto dest: trace_parse_Some)
  show ?thesis
    using valid_trace_id [OF tp] st tp
    by (auto simp: lower_hex_def not_zero_def is_usable_tracestate_def printable_def
        MAX_TRACESTATE_LEN_def list_all_iff list_ex_iff)
qed

definition demo_traceparent :: string where
  "demo_traceparent = ''00-4bf92f3577b34da6a3ce929d0e0e4736-00f067aa0ba902b7-01''"

lemma demo_trace:
  "trace_from_headers Some [(''traceparent'', demo_traceparent), (''tracestate'', ''a=b'')] =
     Some \<lparr>tc_traceparent = demo_traceparent, tc_tracestate = Some ''a=b''\<rparr>"
  by code_simp

lemma read_traces_are_plain_witness:
  "length (trace_id \<lparr>tc_traceparent = demo_traceparent, tc_tracestate = Some ''a=b''\<rparr>) = 32"
  using read_traces_are_plain [OF disjI1 [OF demo_trace]] by simp

subsection \<open>A trace over a hop\<close>

text \<open>A propagator that writes every key it reads, in order.\<close>

definition carry ::
  "(string \<Rightarrow> string option) \<Rightarrow> (string \<Rightarrow> string option) \<Rightarrow> trace_context \<Rightarrow> header_map \<Rightarrow> header_map" where
  "carry header_name header_value c headers =
     fold (\<lambda>key h. case extract_get c key of
                      Some v \<Rightarrow> inject_set header_name header_value key v h
                    | None \<Rightarrow> h)
       (extract_keys c) headers"

lemma extract_get_own [simp]:
  "extract_get c TRACEPARENT = Some (tc_traceparent c)"
  "extract_get c TRACESTATE = tc_tracestate c"
proof -
  have "\<not> eq_ignore_ascii_case TRACESTATE TRACEPARENT" by code_simp
  then show "extract_get c TRACEPARENT = Some (tc_traceparent c)" "extract_get c TRACESTATE = tc_tracestate c"
    by (simp_all add: extract_get_def)
qed

lemma header_text_get_all:
  "header_text to_str headers n = (case get_all headers n of [] \<Rightarrow> None | v # _ \<Rightarrow> to_str v)"
  by (simp add: header_text_def header_get_def split: list.split)

text \<open>
  A trace survives a hop: what one service read from its caller's headers, written on its
  outbound request through the injector, is what the next service reads.
\<close>

theorem traces_survive_a_hop:
  assumes reading: "trace_from_headers to_str headers = Some c"
    and to_str: "\<And>v s. to_str v = Some s \<Longrightarrow> s = v \<and> printable s"
    and plain: "\<And>s. printable s \<Longrightarrow> to_str s = Some s \<and> header_value s = Some s"
    and names: "header_name TRACEPARENT = Some TRACEPARENT" "header_name TRACESTATE = Some TRACESTATE"
    and fresh: "get_all outbound TRACESTATE = []"
  shows "trace_from_headers to_str (carry header_name header_value c outbound) = Some c"
proof -
  obtain t where got: "header_text to_str headers TRACEPARENT = Some t"
    and parsed: "trace_parse t (header_text to_str headers TRACESTATE) = Some c"
    using trace_from_headers_parse [OF reading] by blast
  have printed: "printable t"
    using got to_str by (auto simp: header_text_get_all split: list.splits)
  have ascii: "printable s \<Longrightarrow> \<forall>b \<in> set s. byte b < 128" for s
    by (auto simp: printable_def list_all_iff)
  have trim_printable: "printable (trim s)" if "printable s" for s
    using trim_bytes [OF ascii [OF that]] that by (auto simp: printable_def list_all_iff)
  have tp: "tc_traceparent c = trim t" "is_valid_traceparent (trim t)"
    using trace_parse_Some [OF parsed] by simp_all
  have again: "trim (tc_traceparent c) = tc_traceparent c" "printable (tc_traceparent c)"
    using tp(1) trim_trim [OF ascii [OF printed]] trim_printable [OF printed] by simp_all
  have state: "trim s = s \<and> is_usable_tracestate s" if st: "tc_tracestate c = Some s" for s
  proof -
    obtain raw where raw: "header_text to_str headers TRACESTATE = Some raw" "s = trim raw"
      and usable: "is_usable_tracestate s" using trace_parse_Some [OF parsed] st by blast
    have "printable raw" using raw(1) to_str by (auto simp: header_text_get_all split: list.splits)
    with raw(2) usable trim_trim [OF ascii] show ?thesis by simp
  qed
  have differ: "TRACEPARENT \<noteq> TRACESTATE" by (simp add: TRACEPARENT_def TRACESTATE_def)
  show ?thesis
  proof (cases "tc_tracestate c")
    case None
    then have "carry header_name header_value c outbound = header_insert TRACEPARENT (tc_traceparent c) outbound"
      using names plain [OF again(2)] by (simp add: carry_def extract_keys_def inject_set_def)
    with None again tp plain [OF again(2)] fresh differ show ?thesis
      by (simp add: trace_from_headers_def header_text_get_all get_all_insert trace_parse_def)
  next
    case (Some s)
    from state [OF Some] have s: "trim s = s" "is_usable_tracestate s" "printable s"
      by (simp_all add: is_usable_tracestate_def)
    from Some have "carry header_name header_value c outbound =
        header_insert TRACESTATE s (header_insert TRACEPARENT (tc_traceparent c) outbound)"
      using names plain [OF again(2)] plain [OF s(3)] by (simp add: carry_def extract_keys_def inject_set_def)
    with Some again tp plain [OF again(2)] plain [OF s(3)] s differ show ?thesis
      by (simp add: trace_from_headers_def header_text_get_all get_all_insert trace_parse_def)
  qed
qed

lemma traces_survive_a_hop_witness:
  "trace_from_headers (\<lambda>v. if printable v then Some v else None)
     (carry Some Some \<lparr>tc_traceparent = demo_traceparent, tc_tracestate = Some ''a=b''\<rparr> [(''accept'', ''*/*'')]) =
   Some \<lparr>tc_traceparent = demo_traceparent, tc_tracestate = Some ''a=b''\<rparr>"
proof (rule traces_survive_a_hop [where headers = "[(''traceparent'', demo_traceparent), (''tracestate'', ''a=b'')]"])
  show "trace_from_headers (\<lambda>v. if printable v then Some v else None)
      [(''traceparent'', demo_traceparent), (''tracestate'', ''a=b'')] =
    Some \<lparr>tc_traceparent = demo_traceparent, tc_tracestate = Some ''a=b''\<rparr>"
    by code_simp
qed (auto simp: get_all_def TRACESTATE_def split: if_splits)

subsection \<open>Ceilings\<close>

lemma ceiling_covers_iff:
  "ceiling_covers c target \<longleftrightarrow>
     target = ce_target c \<or> (\<exists>path. target = ce_target c @ ''::'' @ path)"
proof -
  have two: "take 2 rest = ''::'' \<longleftrightarrow> (\<exists>path. rest = ''::'' @ path)" for rest :: string
    by (cases rest; cases "tl rest") auto
  show ?thesis
  proof (cases "strip_prefix (ce_target c) target")
    case None
    then have "target \<noteq> ce_target c @ rest" for rest using strip_prefix_Some [of "ce_target c" target rest] by auto
    from this [of "[]"] this show ?thesis by (simp add: ceiling_covers_def None)
  next
    case (Some rest)
    then have t: "target = ce_target c @ rest" by (simp add: strip_prefix_Some)
    have "ceiling_covers c target \<longleftrightarrow> rest = [] \<or> take 2 rest = ''::''"
      by (simp add: ceiling_covers_def Some)
    then show ?thesis unfolding two by (simp add: t)
  qed
qed

lemma ceilings_admit_iff:
  "ceilings_admit cs m \<longleftrightarrow>
     (\<forall>c \<in> set cs. ceiling_covers c (md_target m) \<longrightarrow> verbosity (md_level m) \<le> verbosity (ce_max_level c))"
  by (auto simp: ceilings_admit_def ceiling_admits_def list_all_iff)

end
