(* ===== verification/Iam.thy ===== *)
theory Iam
  imports Trace_Context
begin

declare map_of_eq_Some_iff [simp del] Some_eq_map_of_iff [simp del]

text \<open>
  Service-to-service identity tokens (\<^verbatim>\<open>src/iam/\<close>): the caller's token source, the callee's cache of
  signing keys and its verifier, and the middleware that holds the verifier over a router.

  What the metadata server and the key-set URL answer are arguments. So is the \<^verbatim>\<open>jsonwebtoken\<close>
  package: reading a token's header, making a key of its components, and decoding a token under
  a validation. A lookup awaits twice (for its turn to fetch, and for the download), so lookups
  interleave; \<open>key_step\<close> is every interleaving, a lookup whose caller goes away included, over a
  clock that never goes back.
\<close>

datatype iam_error =
    MetadataUnavailable string
  | MalformedToken string
  | JwksUnavailable string
  | TokenRejected string

fun iam_error_text :: "iam_error \<Rightarrow> string" where
  "iam_error_text (MetadataUnavailable why) = ''identity token unavailable from the metadata server: '' @ why"
| "iam_error_text (MalformedToken why) = ''metadata server returned an unusable token: '' @ why"
| "iam_error_text (JwksUnavailable why) = ''could not fetch Google signing keys: '' @ why"
| "iam_error_text (TokenRejected why) = ''identity token rejected: '' @ why"

subsection \<open>The caller's tokens\<close>

definition DEFAULT_METADATA_HOST :: string where "DEFAULT_METADATA_HOST = ''metadata.google.internal''"
definition METADATA_HOST_ENV :: string where "METADATA_HOST_ENV = ''GCE_METADATA_HOST''"
definition IDENTITY_PATH :: string where
  "IDENTITY_PATH = ''/computeMetadata/v1/instance/service-accounts/default/identity''"
definition REFRESH_AFTER :: duration where "REFRESH_AFTER = 45 * 60 * SECOND"

record cached_token =
  ct_token :: string
  ct_fetched_at :: instant

record token_source =
  ts_audience :: string
  ts_cached :: "cached_token option"

definition token_source_new :: "string \<Rightarrow> token_source" where
  "token_source_new audience = \<lparr>ts_audience = audience, ts_cached = None\<rparr>"

definition metadata_host :: "environment \<Rightarrow> string" where
  "metadata_host env =
     (case env METADATA_HOST_ENV of
        Some h \<Rightarrow> if h = [] then DEFAULT_METADATA_HOST else h
      | None \<Rightarrow> DEFAULT_METADATA_HOST)"

record metadata_request =
  mq_url :: string
  mq_query :: "(string \<times> string) list"
  mq_headers :: "(string \<times> string) list"

definition metadata_request :: "environment \<Rightarrow> token_source \<Rightarrow> metadata_request" where
  "metadata_request env s =
     \<lparr>mq_url = ''http://'' @ metadata_host env @ IDENTITY_PATH,
      mq_query = [(''audience'', ts_audience s), (''format'', ''full'')],
      mq_headers = [(''Metadata-Flavor'', ''Google'')]\<rparr>"

text \<open>What a sent request came to: no response, or a status, its text, and the body or why it did
  not arrive.\<close>

datatype reply = NoReply string | Reply nat string "(string, string) result"

definition fetch_token :: "reply \<Rightarrow> (iam_error, string) result" where
  "fetch_token r =
     (case r of
        NoReply why \<Rightarrow> Inl (MetadataUnavailable why)
      | Reply status shown body \<Rightarrow>
          if \<not> (200 \<le> status \<and> status < 300)
          then Inl (MetadataUnavailable (''metadata server answered '' @ shown))
          else
            (case body of
               Inl why \<Rightarrow> Inl (MalformedToken why)
             | Inr token \<Rightarrow>
                 if length (split_on (CHR ''.'') token) \<noteq> 3
                 then Inl (MalformedToken ''response was not a three-segment JWT'')
                 else Inr token))"

definition fresh_token :: "instant \<Rightarrow> token_source \<Rightarrow> string option" where
  "fresh_token now s =
     Option.bind (ts_cached s) (\<lambda>c. if now - ct_fetched_at c < REFRESH_AFTER then Some (ct_token c) else None)"

text \<open>After a fetch, under the write lock; \<open>stored\<close> is the reading of the clock kept with it.\<close>

definition keep_token ::
  "instant \<Rightarrow> instant \<Rightarrow> string \<Rightarrow> token_source \<Rightarrow> string \<times> token_source" where
  "keep_token now stored token s =
     (case fresh_token now s of
        Some existing \<Rightarrow> (existing, s)
      | None \<Rightarrow> (token, s\<lparr>ts_cached := Some \<lparr>ct_token = token, ct_fetched_at = stored\<rparr>\<rparr>))"

text \<open>One call alone: what the metadata server answers is drawn only when it is asked.\<close>

definition source_token ::
  "instant \<Rightarrow> reply \<Rightarrow> instant \<Rightarrow> instant \<Rightarrow> token_source \<Rightarrow> (iam_error, string) result \<times> token_source" where
  "source_token now r later stored s =
     (case fresh_token now s of
        Some token \<Rightarrow> (Inr token, s)
      | None \<Rightarrow>
          (case fetch_token r of
             Inl e \<Rightarrow> (Inl e, s)
           | Inr token \<Rightarrow> (case keep_token later stored token s of (kept, s') \<Rightarrow> (Inr kept, s'))))"

subsection \<open>The callee's keys\<close>

definition GOOGLE_OIDC_JWKS_URL :: string where
  "GOOGLE_OIDC_JWKS_URL = ''https://www.googleapis.com/oauth2/v3/certs''"
definition KEY_SET_TTL :: duration where "KEY_SET_TTL = 3600 * SECOND"
definition MIN_REFETCH_INTERVAL :: duration where "MIN_REFETCH_INTERVAL = 30 * SECOND"

record signing_key =
  sk_kid :: string
  sk_n :: string
  sk_e :: string

record fetched_keys =
  fk_keys :: "signing_key list"
  fk_fetched_at :: instant

record key_set =
  ks_min_refetch :: duration
  ks_fetched :: "fetched_keys option"
  ks_last_attempt :: "instant option"

definition key_set_new :: key_set where
  "key_set_new = \<lparr>ks_min_refetch = MIN_REFETCH_INTERVAL, ks_fetched = None, ks_last_attempt = None\<rparr>"

definition with_min_refetch_interval :: "duration \<Rightarrow> key_set \<Rightarrow> key_set" where
  "with_min_refetch_interval interval s = s\<lparr>ks_min_refetch := min interval KEY_SET_TTL\<rparr>"

definition unknown_kid :: "string \<Rightarrow> iam_error" where
  "unknown_kid kid = TokenRejected (''no Google signing key for kid '' @ kid)"

definition cooling_down :: "instant \<Rightarrow> key_set \<Rightarrow> bool" where
  "cooling_down now s =
     (case ks_last_attempt s of None \<Rightarrow> False | Some at \<Rightarrow> now - at < ks_min_refetch s)"

definition find_key :: "string \<Rightarrow> signing_key list \<Rightarrow> signing_key option" where
  "find_key kid ks = List.find (\<lambda>k. sk_kid k = kid) ks"

definition cooled_failure :: "key_set \<Rightarrow> (iam_error, signing_key) result" where
  "cooled_failure s =
     Inl (JwksUnavailable (''the last fetch failed less than '' @ duration_text (ks_min_refetch s) @ '' ago''))"

definition answer_from_memory ::
  "instant \<Rightarrow> string \<Rightarrow> key_set \<Rightarrow> (iam_error, signing_key) result option" where
  "answer_from_memory now kid s =
     (case ks_fetched s of
        Some f \<Rightarrow>
          if now - fk_fetched_at f < KEY_SET_TTL
          then (case find_key kid (fk_keys f) of
                  Some key \<Rightarrow> Some (Inr key)
                | None \<Rightarrow> if cooling_down now s then Some (Inl (unknown_kid kid)) else None)
          else if cooling_down now s then Some (cooled_failure s) else None
      | None \<Rightarrow> if cooling_down now s then Some (cooled_failure s) else None)"

text \<open>The end of a fetch: the attempt is marked whatever came of it.\<close>

definition fetch_keys ::
  "instant \<Rightarrow> (iam_error, signing_key list) result \<Rightarrow> string \<Rightarrow> key_set
     \<Rightarrow> (iam_error, signing_key) result \<times> key_set" where
  "fetch_keys finished downloaded kid s =
     (let s1 = s\<lparr>ks_last_attempt := Some finished\<rparr> in
      case downloaded of
        Inl e \<Rightarrow> (Inl e, s1)
      | Inr ks \<Rightarrow>
          (ok_or (find_key kid ks) (unknown_kid kid),
           s1\<lparr>ks_fetched := Some \<lparr>fk_keys = ks, fk_fetched_at = finished\<rparr>\<rparr>))"

text \<open>\<^verbatim>\<open>Response::json\<close> of the document: the body read as JSON, then as the struct.\<close>

definition signing_key_of_json :: "json \<Rightarrow> signing_key option" where
  "signing_key_of_json v =
     Option.bind (struct_fields [''kid'', ''n'', ''e''] [] v) (\<lambda>m.
     Option.bind (Option.bind (map_of m ''kid'') as_str) (\<lambda>kid.
     Option.bind (Option.bind (map_of m ''n'') as_str) (\<lambda>n.
     Option.bind (Option.bind (map_of m ''e'') as_str) (\<lambda>e.
       Some \<lparr>sk_kid = kid, sk_n = n, sk_e = e\<rparr>))))"

fun keys_of_json :: "json list \<Rightarrow> signing_key list option" where
  "keys_of_json [] = Some []"
| "keys_of_json (v # vs) =
     Option.bind (signing_key_of_json v) (\<lambda>k. map_option (\<lambda>ks. k # ks) (keys_of_json vs))"

definition key_set_document :: "json \<Rightarrow> signing_key list option" where
  "key_set_document v =
     Option.bind (Option.bind (struct_fields [''keys''] [] v) (\<lambda>m. map_of m ''keys''))
       (\<lambda>ks. case ks of JArray vs \<Rightarrow> keys_of_json vs | _ \<Rightarrow> None)"

text \<open>\<open>undecodable\<close> is the error of a body that is not the document.\<close>

definition download_keys ::
  "(string \<Rightarrow> json option) \<Rightarrow> string \<Rightarrow> reply \<Rightarrow> (iam_error, signing_key list) result" where
  "download_keys read_json undecodable r =
     (case r of
        NoReply why \<Rightarrow> Inl (JwksUnavailable why)
      | Reply _ _ (Inl why) \<Rightarrow> Inl (JwksUnavailable why)
      | Reply _ _ (Inr body) \<Rightarrow>
          ok_or (Option.bind (read_json body) key_set_document) (JwksUnavailable undecodable))"

subsection \<open>Lookups at once\<close>

text \<open>A lookup that memory does not answer waits for its turn to fetch; the one whose turn it is
  holds the lock until its download ends or its caller goes away.\<close>

datatype lookup = Waiting_turn string | Fetching string

datatype fetch_mark = FetchStarted instant | FetchEnded instant | FetchDropped instant

record key_system =
  sy_set :: key_set
  sy_clock :: instant
  sy_lookups :: "(nat, lookup) table"
  sy_answers :: "(string \<times> (iam_error, signing_key) result) list"
  sy_marks :: "fetch_mark list"

datatype key_event =
    LookupBegins instant nat string
  | LookupTurns instant nat
  | DownloadEnds instant nat "(iam_error, signing_key list) result"
  | LookupAbandoned instant nat

definition turn_taken :: "key_system \<Rightarrow> bool" where
  "turn_taken y \<longleftrightarrow> list_ex (\<lambda>(_, l). case l of Fetching _ \<Rightarrow> True | _ \<Rightarrow> False) (sy_lookups y)"

definition key_answered ::
  "nat \<Rightarrow> string \<Rightarrow> (iam_error, signing_key) result \<Rightarrow> key_system \<Rightarrow> key_system" where
  "key_answered n kid answer y =
     y\<lparr>sy_lookups := AList.delete n (sy_lookups y), sy_answers := sy_answers y @ [(kid, answer)]\<rparr>"

text \<open>\<open>at y t\<close> is the clock at a reading: it never goes back.\<close>

definition clock_at :: "key_system \<Rightarrow> instant \<Rightarrow> instant" where
  "clock_at y t = max (sy_clock y) t"

fun key_step :: "key_system \<Rightarrow> key_event \<Rightarrow> key_system" where
  "key_step y (LookupBegins t n kid) =
     (let now = clock_at y t; y' = y\<lparr>sy_clock := now\<rparr> in
      case map_of (sy_lookups y) n of
        Some _ \<Rightarrow> y'
      | None \<Rightarrow>
          (case answer_from_memory now kid (sy_set y) of
             Some answer \<Rightarrow> key_answered n kid answer y'
           | None \<Rightarrow> y'\<lparr>sy_lookups := AList.update n (Waiting_turn kid) (sy_lookups y)\<rparr>))"
| "key_step y (LookupTurns t n) =
     (let now = clock_at y t; y' = y\<lparr>sy_clock := now\<rparr> in
      case map_of (sy_lookups y) n of
        Some (Waiting_turn kid) \<Rightarrow>
          if turn_taken y then y'
          else
            (case answer_from_memory now kid (sy_set y) of
               Some answer \<Rightarrow> key_answered n kid answer y'
             | None \<Rightarrow> y'\<lparr>sy_lookups := AList.update n (Fetching kid) (sy_lookups y),
                          sy_marks := sy_marks y @ [FetchStarted now]\<rparr>)
      | _ \<Rightarrow> y')"
| "key_step y (DownloadEnds t n downloaded) =
     (let now = clock_at y t; y' = y\<lparr>sy_clock := now\<rparr> in
      case map_of (sy_lookups y) n of
        Some (Fetching kid) \<Rightarrow>
          (case fetch_keys now downloaded kid (sy_set y) of
             (answer, s) \<Rightarrow> key_answered n kid answer
                (y'\<lparr>sy_set := s, sy_marks := sy_marks y @ [FetchEnded now]\<rparr>))
      | _ \<Rightarrow> y')"
| "key_step y (LookupAbandoned t n) =
     (let now = clock_at y t; y' = y\<lparr>sy_clock := now\<rparr> in
      case map_of (sy_lookups y) n of
        Some (Fetching kid) \<Rightarrow>
          y'\<lparr>sy_lookups := AList.delete n (sy_lookups y), sy_marks := sy_marks y @ [FetchDropped now]\<rparr>
      | Some (Waiting_turn kid) \<Rightarrow> y'\<lparr>sy_lookups := AList.delete n (sy_lookups y)\<rparr>
      | None \<Rightarrow> y')"

definition key_system_new :: "key_set \<Rightarrow> key_system" where
  "key_system_new s =
     \<lparr>sy_set = s, sy_clock = 0, sy_lookups = [], sy_answers = [], sy_marks = []\<rparr>"

subsection \<open>The verifier\<close>

record id_token_claims =
  ic_sub :: string
  ic_aud :: string
  ic_email :: "string option"
  ic_email_verified :: "bool option"

record verifier =
  ve_audience :: string
  ve_allowed_emails :: "string list"

definition verifier_new :: "string \<Rightarrow> verifier" where
  "verifier_new audience = \<lparr>ve_audience = audience, ve_allowed_emails = []\<rparr>"

definition allowing :: "string list \<Rightarrow> verifier \<Rightarrow> verifier" where
  "allowing emails v = v\<lparr>ve_allowed_emails := remdups emails\<rparr>"

definition GOOGLE_ISSUERS :: "string list" where
  "GOOGLE_ISSUERS = [''https://accounts.google.com'', ''accounts.google.com'']"

record validation =
  va_algorithm :: string
  va_audience :: "string list"
  va_issuers :: "string list"

text \<open>The \<^verbatim>\<open>jsonwebtoken\<close> package: the \<open>kid\<close> of a token's header, a decoding key of its components,
  and the claims of a token under a key and a validation.\<close>

record 'k jwt =
  jw_header_kid :: "string \<Rightarrow> (string, string option) result"
  jw_rsa_key :: "string \<Rightarrow> string \<Rightarrow> (string, 'k) result"
  jw_decode :: "string \<Rightarrow> 'k \<Rightarrow> validation \<Rightarrow> (string, id_token_claims) result"

definition token_kid :: "'k jwt \<Rightarrow> string \<Rightarrow> (iam_error, string) result" where
  "token_kid J token =
     (case jw_header_kid J token of
        Inl e \<Rightarrow> Inl (TokenRejected e)
      | Inr None \<Rightarrow> Inl (TokenRejected ''token header carries no kid'')
      | Inr (Some kid) \<Rightarrow> Inr kid)"

definition usable_key :: "'k jwt \<Rightarrow> string \<Rightarrow> signing_key \<Rightarrow> (iam_error, 'k) result" where
  "usable_key J kid key =
     (case jw_rsa_key J (sk_n key) (sk_e key) of
        Inl e \<Rightarrow> Inl (TokenRejected (''signing key '' @ kid @ '' is unusable: '' @ e))
      | Inr k \<Rightarrow> Inr k)"

text \<open>\<open>lookup\<close> is what the key set answers for a \<open>kid\<close>.\<close>

definition decoding_key_for ::
  "'k jwt \<Rightarrow> (string \<Rightarrow> (iam_error, signing_key) result) \<Rightarrow> string \<Rightarrow> (iam_error, 'k) result" where
  "decoding_key_for J lookup token =
     result_bind (token_kid J token) (\<lambda>kid.
     result_bind (lookup kid) (\<lambda>key. usable_key J kid key))"

definition validation_of :: "verifier \<Rightarrow> validation" where
  "validation_of v =
     \<lparr>va_algorithm = ''RS256'', va_audience = [ve_audience v], va_issuers = GOOGLE_ISSUERS\<rparr>"

definition check_caller :: "verifier \<Rightarrow> id_token_claims \<Rightarrow> (iam_error, id_token_claims) result" where
  "check_caller v c =
     (if ve_allowed_emails v = [] then Inr c
      else
        (let email = unwrap_or (ic_email c) [] in
         if email \<notin> set (ve_allowed_emails v)
         then Inl (TokenRejected (''caller '' @ email @ '' is not in this service'' @ [CHR 0x27] @ ''s allowlist''))
         else if ic_email_verified c \<noteq> Some True
         then Inl (TokenRejected (''caller '' @ email @ '' is not a verified address''))
         else Inr c))"

definition verify ::
  "'k jwt \<Rightarrow> (string \<Rightarrow> (iam_error, signing_key) result) \<Rightarrow> verifier \<Rightarrow> string
     \<Rightarrow> (iam_error, id_token_claims) result" where
  "verify J lookup v token =
     result_bind (decoding_key_for J lookup token) (\<lambda>key.
       case jw_decode J token key (validation_of v) of
         Inl e \<Rightarrow> Inl (TokenRejected e)
       | Inr claims \<Rightarrow> check_caller v claims)"

definition unauthorized :: "(json \<Rightarrow> string) \<Rightarrow> string \<Rightarrow> answer" where
  "unauthorized json_text message =
     json_answer json_text 401 (error_response_json (error_response_new ''unauthorized'' message))"

text \<open>The middleware: the next handler runs, or the answer of a refusal.\<close>

datatype admission = RunsNext | Answers answer

definition require_google_id_token ::
  "(string \<Rightarrow> string option) \<Rightarrow> (json \<Rightarrow> string) \<Rightarrow> 'k jwt
     \<Rightarrow> (string \<Rightarrow> (iam_error, signing_key) result) \<Rightarrow> verifier \<Rightarrow> header_map \<Rightarrow> admission" where
  "require_google_id_token to_str json_text J lookup v headers =
     (case Option.bind (header_text to_str headers ''authorization'') bearer_credential of
        None \<Rightarrow> Answers (unauthorized json_text ''Missing bearer identity token'')
      | Some token \<Rightarrow>
          (case verify J lookup v token of
             Inr _ \<Rightarrow> RunsNext
           | Inl _ \<Rightarrow> Answers (unauthorized json_text ''Invalid identity token'')))"

subsection \<open>Fetches are spaced\<close>

fun starts :: "fetch_mark \<Rightarrow> bool" where
  "starts (FetchStarted _) = True"
| "starts _ = False"

fun apart :: "duration \<Rightarrow> fetch_mark \<Rightarrow> fetch_mark \<Rightarrow> bool" where
  "apart iv (FetchEnded e) (FetchStarted t) = (e + iv \<le> t)"
| "apart iv _ _ = True"

definition open_fetch :: "fetch_mark list \<Rightarrow> bool" where
  "open_fetch marks \<longleftrightarrow> marks \<noteq> [] \<and> starts (last marks)"

definition fetches :: "(nat, lookup) table \<Rightarrow> nat \<Rightarrow> bool" where
  "fetches ls n \<longleftrightarrow> (\<exists>k. map_of ls n = Some (Fetching k))"

text \<open>One lookup at most has its turn, and it has it while the last mark is a start.\<close>

definition turn_inv :: "(nat, lookup) table \<Rightarrow> fetch_mark list \<Rightarrow> bool" where
  "turn_inv ls marks \<longleftrightarrow>
     distinct_keys ls \<and> (\<forall>n m. fetches ls n \<longrightarrow> fetches ls m \<longrightarrow> n = m)
     \<and> ((\<exists>n. fetches ls n) \<longleftrightarrow> open_fetch marks)"

definition attempt_inv :: "duration \<Rightarrow> instant \<Rightarrow> key_set \<Rightarrow> fetch_mark list \<Rightarrow> bool" where
  "attempt_inv iv now s marks \<longleftrightarrow>
     ks_min_refetch s = iv
     \<and> (\<forall>a. ks_last_attempt s = Some a \<longrightarrow> a \<le> now)
     \<and> (\<forall>e. FetchEnded e \<in> set marks \<longrightarrow> (\<exists>a. ks_last_attempt s = Some a \<and> e \<le> a))"

definition marks_inv :: "duration \<Rightarrow> fetch_mark list \<Rightarrow> bool" where
  "marks_inv iv marks \<longleftrightarrow>
     sorted_wrt (apart iv) marks \<and> successively (\<lambda>a b. \<not> (starts a \<and> starts b)) marks"

definition answers_inv :: "(string \<times> (iam_error, signing_key) result) list \<Rightarrow> bool" where
  "answers_inv as \<longleftrightarrow> (\<forall>kid key. (kid, Inr key) \<in> set as \<longrightarrow> sk_kid key = kid)"

definition key_inv :: "duration \<Rightarrow> key_system \<Rightarrow> bool" where
  "key_inv iv y \<longleftrightarrow>
     turn_inv (sy_lookups y) (sy_marks y) \<and> attempt_inv iv (sy_clock y) (sy_set y) (sy_marks y)
     \<and> marks_inv iv (sy_marks y) \<and> answers_inv (sy_answers y)"

lemma turn_taken_iff: "distinct_keys (sy_lookups y) \<Longrightarrow> turn_taken y \<longleftrightarrow> (\<exists>n. fetches (sy_lookups y) n)"
proof -
  assume d: "distinct_keys (sy_lookups y)"
  have "turn_taken y \<longleftrightarrow> (\<exists>n k. (n, Fetching k) \<in> set (sy_lookups y))"
    by (force simp: turn_taken_def list_ex_iff split: lookup.splits)
  then show ?thesis using d unfolding fetches_def by (meson map_of_SomeD map_of_SomeI)
qed

lemma find_key_kid: "find_key kid ks = Some key \<Longrightarrow> sk_kid key = kid"
  unfolding find_key_def by (drule find_Some_mem) simp

lemma answer_from_memory_kid: "answer_from_memory now kid s = Some (Inr key) \<Longrightarrow> sk_kid key = kid"
  by (auto simp: answer_from_memory_def cooled_failure_def split: option.splits if_splits dest: find_key_kid)

lemma fetch_keys_kid: "fetch_keys now d kid s = (Inr key, s') \<Longrightarrow> sk_kid key = kid"
  by (auto simp: fetch_keys_def Let_def ok_or_def split: sum.splits option.splits dest: find_key_kid)

lemma fetch_keys_set:
  "fetch_keys now d kid s = (a, s') \<Longrightarrow> ks_min_refetch s' = ks_min_refetch s \<and> ks_last_attempt s' = Some now"
  by (auto simp: fetch_keys_def Let_def split: sum.splits)

lemma unanswered_not_cooling: "answer_from_memory now kid s = None \<Longrightarrow> \<not> cooling_down now s"
  by (auto simp: answer_from_memory_def split: option.splits if_splits)

lemma not_cooling_apart:
  "\<not> cooling_down now s \<Longrightarrow> ks_last_attempt s = Some a \<Longrightarrow> a \<le> now \<Longrightarrow> a + ks_min_refetch s \<le> now"
  by (auto simp: cooling_down_def)

lemma clock_later: "sy_clock y \<le> clock_at y t"
  by (simp add: clock_at_def)

lemma open_fetch_snoc [simp]: "open_fetch (marks @ [m]) = starts m"
  by (simp add: open_fetch_def)

lemma fetches_update [simp]:
  "fetches (AList.update n l ls) m = (if m = n then (case l of Fetching _ \<Rightarrow> True | _ \<Rightarrow> False) else fetches ls m)"
  by (simp add: fetches_def map_of_update split: lookup.split)

lemma fetches_delete [simp]: "fetches (AList.delete n ls) m = (m \<noteq> n \<and> fetches ls m)"
  by (simp add: fetches_def map_of_delete)

lemma marks_inv_snoc:
  "marks_inv iv (marks @ [m]) \<longleftrightarrow>
     marks_inv iv marks \<and> (\<forall>a \<in> set marks. apart iv a m) \<and> \<not> (open_fetch marks \<and> starts m)"
  by (auto simp: marks_inv_def sorted_wrt_append successively_append_iff open_fetch_def)

lemma answers_inv_snoc:
  "answers_inv as \<Longrightarrow> (\<And>key. answer = Inr key \<Longrightarrow> sk_kid key = kid) \<Longrightarrow> answers_inv (as @ [(kid, answer)])"
  by (auto simp: answers_inv_def)

lemma attempt_inv_later: "attempt_inv iv t s marks \<Longrightarrow> t \<le> now \<Longrightarrow> attempt_inv iv now s marks"
  unfolding attempt_inv_def using le_trans by blast

lemma attempt_inv_start [simp]: "attempt_inv iv t s (marks @ [FetchStarted u]) = attempt_inv iv t s marks"
  by (simp add: attempt_inv_def)

lemma attempt_inv_drop [simp]: "attempt_inv iv t s (marks @ [FetchDropped u]) = attempt_inv iv t s marks"
  by (simp add: attempt_inv_def)

lemma attempt_inv_end:
  assumes "attempt_inv iv t s marks" and "t \<le> now" and "fetch_keys now d kid s = (a, s')"
  shows "attempt_inv iv now s' (marks @ [FetchEnded now])"
  using assms fetch_keys_set [OF assms(3)] unfolding attempt_inv_def
  by (auto intro: le_trans)

lemma started_apart:
  assumes inv: "attempt_inv iv now s marks" and miss: "answer_from_memory now kid s = None"
  shows "\<forall>m \<in> set marks. apart iv m (FetchStarted now)"
proof
  fix m assume m: "m \<in> set marks"
  show "apart iv m (FetchStarted now)"
  proof (cases m)
    case (FetchEnded e)
    with m inv obtain a where a: "ks_last_attempt s = Some a" "e \<le> a" "a \<le> now" "ks_min_refetch s = iv"
      by (auto simp: attempt_inv_def)
    then show ?thesis
      using not_cooling_apart [OF unanswered_not_cooling [OF miss] a(1,3)] FetchEnded by simp
  qed simp_all
qed

lemma turn_inv_answered:
  "turn_inv ls marks \<Longrightarrow> \<not> fetches ls n \<Longrightarrow> turn_inv (AList.delete n ls) marks"
  by (auto simp: turn_inv_def distinct_keys_delete)

lemma turn_inv_waiting:
  "turn_inv ls marks \<Longrightarrow> \<not> fetches ls n \<Longrightarrow> turn_inv (AList.update n (Waiting_turn kid) ls) marks"
  by (auto simp: turn_inv_def distinct_keys_update)

lemma turn_inv_fetching:
  "turn_inv ls marks \<Longrightarrow> \<forall>m. \<not> fetches ls m
     \<Longrightarrow> turn_inv (AList.update n (Fetching kid) ls) (marks @ [FetchStarted t])"
  by (auto simp: turn_inv_def distinct_keys_update)

lemma turn_inv_released:
  "turn_inv ls marks \<Longrightarrow> fetches ls n \<Longrightarrow> \<not> starts m \<Longrightarrow> turn_inv (AList.delete n ls) (marks @ [m])"
  by (auto simp: turn_inv_def distinct_keys_delete)

lemma apart_other: "\<not> starts m \<Longrightarrow> apart iv a m"
  by (cases a; cases m) simp_all

lemma key_inv_parts:
  "turn_inv (sy_lookups y) (sy_marks y) \<Longrightarrow> attempt_inv iv (sy_clock y) (sy_set y) (sy_marks y)
     \<Longrightarrow> marks_inv iv (sy_marks y) \<Longrightarrow> answers_inv (sy_answers y) \<Longrightarrow> key_inv iv y"
  by (simp add: key_inv_def)

lemma key_inv_step: "key_inv iv y \<Longrightarrow> key_inv iv (key_step y e)"
proof -
  assume inv: "key_inv iv y"
  have turn: "turn_inv (sy_lookups y) (sy_marks y)" and marks: "marks_inv iv (sy_marks y)"
    and answers: "answers_inv (sy_answers y)"
    and attempt: "attempt_inv iv (clock_at y t) (sy_set y) (sy_marks y)" for t
    using inv attempt_inv_later [OF _ clock_later] by (auto simp: key_inv_def)
  have tick: "key_inv iv (y\<lparr>sy_clock := clock_at y t\<rparr>)" for t
    by (rule key_inv_parts) (simp_all add: turn marks answers attempt)
  have answered: "key_inv iv (key_answered n kid a (y\<lparr>sy_clock := clock_at y t\<rparr>))"
    if "\<not> fetches (sy_lookups y) n" "answer_from_memory now kid (sy_set y) = Some a" for n kid a t now
    using that answer_from_memory_kid
    by (intro key_inv_parts) (auto simp: key_answered_def marks attempt
          intro!: turn_inv_answered turn answers_inv_snoc answers)
  show ?thesis
  proof (cases e)
    case (LookupBegins t n kid)
    show ?thesis
    proof (cases "map_of (sy_lookups y) n")
      case None
      then have nf: "\<not> fetches (sy_lookups y) n" by (simp add: fetches_def)
      have "key_inv iv (y\<lparr>sy_clock := clock_at y t,
              sy_lookups := AList.update n (Waiting_turn kid) (sy_lookups y)\<rparr>)"
        by (rule key_inv_parts) (simp_all add: turn_inv_waiting [OF turn nf] marks answers attempt)
      with None answered [OF nf] LookupBegins show ?thesis
        by (cases "answer_from_memory (clock_at y t) kid (sy_set y)") (simp_all add: Let_def)
    qed (simp add: LookupBegins tick Let_def)
  next
    case (LookupTurns t n)
    show ?thesis
    proof (cases "\<exists>kid. map_of (sy_lookups y) n = Some (Waiting_turn kid) \<and> \<not> turn_taken y")
      case True
      then obtain kid where kid: "map_of (sy_lookups y) n = Some (Waiting_turn kid)" and free: "\<not> turn_taken y"
        by blast
      have nf: "\<not> fetches (sy_lookups y) n" using kid by (simp add: fetches_def)
      have none: "\<forall>m. \<not> fetches (sy_lookups y) m"
        using free turn by (simp add: turn_taken_iff turn_inv_def)
      then have closed: "\<not> open_fetch (sy_marks y)" using turn by (simp add: turn_inv_def)
      show ?thesis
      proof (cases "answer_from_memory (clock_at y t) kid (sy_set y)")
        case None
        have "marks_inv iv (sy_marks y @ [FetchStarted (clock_at y t)])"
          using marks closed started_apart [OF attempt None] by (simp add: marks_inv_snoc)
        then have "key_inv iv (y\<lparr>sy_clock := clock_at y t,
              sy_lookups := AList.update n (Fetching kid) (sy_lookups y),
              sy_marks := sy_marks y @ [FetchStarted (clock_at y t)]\<rparr>)"
          by (intro key_inv_parts) (simp_all add: turn_inv_fetching [OF turn none] answers attempt)
        with kid free None LookupTurns show ?thesis by (simp add: Let_def)
      next
        case (Some a)
        with answered [OF nf Some] kid free LookupTurns show ?thesis by (simp add: Let_def)
      qed
    qed (use LookupTurns tick in \<open>auto simp: Let_def split: option.splits lookup.splits\<close>)
  next
    case (DownloadEnds t n d)
    show ?thesis
    proof (cases "\<exists>kid. map_of (sy_lookups y) n = Some (Fetching kid)")
      case True
      then obtain kid where kid: "map_of (sy_lookups y) n = Some (Fetching kid)" by blast
      obtain a s where fetched: "fetch_keys (clock_at y t) d kid (sy_set y) = (a, s)"
        by (cases "fetch_keys (clock_at y t) d kid (sy_set y)")
      have "key_inv iv (key_answered n kid a (y\<lparr>sy_clock := clock_at y t, sy_set := s,
              sy_marks := sy_marks y @ [FetchEnded (clock_at y t)]\<rparr>))"
        using kid fetched fetch_keys_kid [of "clock_at y t" d kid "sy_set y"]
        by (intro key_inv_parts)
          (auto simp: key_answered_def marks_inv_snoc marks apart_other fetches_def
             intro!: turn_inv_released turn answers_inv_snoc answers attempt_inv_end [OF attempt])
      with kid fetched DownloadEnds show ?thesis by (simp add: Let_def)
    qed (use DownloadEnds tick in \<open>auto simp: Let_def split: option.splits lookup.splits\<close>)
  next
    case (LookupAbandoned t n)
    show ?thesis
    proof (cases "map_of (sy_lookups y) n")
      case (Some l)
      show ?thesis
      proof (cases l)
        case (Waiting_turn kid)
        with Some have "\<not> fetches (sy_lookups y) n" by (simp add: fetches_def)
        then have "key_inv iv (y\<lparr>sy_clock := clock_at y t, sy_lookups := AList.delete n (sy_lookups y)\<rparr>)"
          by (intro key_inv_parts) (simp_all add: turn_inv_answered [OF turn] marks answers attempt)
        with Some Waiting_turn LookupAbandoned show ?thesis by (simp add: Let_def)
      next
        case (Fetching kid)
        with Some have "fetches (sy_lookups y) n" by (simp add: fetches_def)
        then have "key_inv iv (y\<lparr>sy_clock := clock_at y t, sy_lookups := AList.delete n (sy_lookups y),
              sy_marks := sy_marks y @ [FetchDropped (clock_at y t)]\<rparr>)"
          by (intro key_inv_parts)
            (simp_all add: turn_inv_released [OF turn] marks_inv_snoc marks apart_other answers attempt)
        with Some Fetching LookupAbandoned show ?thesis by (simp add: Let_def)
      qed
    qed (simp add: LookupAbandoned tick Let_def)
  qed
qed

interpretation key_lookups: machine key_step "key_inv iv" for iv
  by unfold_locales (rule key_inv_step)

lemma key_inv_new:
  "ks_fetched s = None \<Longrightarrow> ks_last_attempt s = None \<Longrightarrow> key_inv (ks_min_refetch s) (key_system_new s)"
  by (simp add: key_inv_def key_system_new_def turn_inv_def attempt_inv_def marks_inv_def answers_inv_def
      fetches_def open_fetch_def)

lemma marks_inv_spaced:
  "marks_inv iv (xs @ FetchEnded e # ys @ FetchStarted t # zs) \<Longrightarrow> e + iv \<le> t"
  by (auto simp: marks_inv_def sorted_wrt_append)

lemma marks_inv_one_at_a_time: "\<not> marks_inv iv (xs @ FetchStarted a # FetchStarted b # zs)"
  by (auto simp: marks_inv_def successively_append_iff)

text \<open>A key set of the witnesses, and a fetch that brings one key, then a stranger's key id.\<close>

definition demo_key :: signing_key where
  "demo_key = \<lparr>sk_kid = ''k2'', sk_n = ''AQAB'', sk_e = ''AQAB''\<rparr>"

definition demo_lookups :: "key_event list" where
  "demo_lookups =
     [LookupBegins 5 2 ''k2'', LookupTurns 5 2, DownloadEnds 6 2 (Inr [demo_key]),
      LookupBegins 8 3 ''k2'', LookupBegins 9 4 ''zz'',
      LookupBegins (31 * SECOND) 5 ''zz'', LookupTurns (31 * SECOND) 5]"


lemma demo_lookups_run:
  "sy_marks (run key_step (key_system_new key_set_new) demo_lookups) =
     [FetchStarted 5, FetchEnded 6, FetchStarted (31 * SECOND)]"
  "sy_answers (run key_step (key_system_new key_set_new) demo_lookups) =
     [(''k2'', Inr demo_key), (''k2'', Inr demo_key), (''zz'', Inl (unknown_kid ''zz''))]"
  by (simp_all add: demo_lookups_def key_system_new_def key_set_new_def clock_at_def
      answer_from_memory_def cooling_down_def key_answered_def turn_taken_def fetch_keys_def
      find_key_def demo_key_def ok_or_def KEY_SET_TTL_def MIN_REFETCH_INTERVAL_def SECOND_def)


text \<open>One lookup of an unknown key id whose caller goes away while the set is being fetched.\<close>

definition abandoned_lookup :: "instant \<Rightarrow> key_event list" where
  "abandoned_lookup t = [LookupBegins t 0 ''made-up'', LookupTurns t 0, LookupAbandoned t 0]"

text \<open>
  The spacing does not hold for callers who leave: a fetch that is dropped marks no attempt,
  so any number of abandoned lookups, at one instant, each start a fetch of their own.
\<close>

theorem abandoned_fetches_are_not_spaced:
  "sy_marks (run key_step (key_system_new key_set_new) (concat (replicate n (abandoned_lookup t)))) =
     concat (replicate n [FetchStarted t, FetchDropped t])"
proof -
  have one: "run key_step (\<lparr>sy_set = key_set_new, sy_clock = c, sy_lookups = [], sy_answers = [], sy_marks = marks\<rparr>)
        (abandoned_lookup t) =
      \<lparr>sy_set = key_set_new, sy_clock = t, sy_lookups = [], sy_answers = [],
       sy_marks = marks @ [FetchStarted t, FetchDropped t]\<rparr>" if "c \<le> t" for c marks
    using that
    by (simp add: abandoned_lookup_def key_set_new_def clock_at_def answer_from_memory_def
        cooling_down_def turn_taken_def max_absorb2)
  have "c \<le> t \<Longrightarrow> sy_marks (run key_step
          (\<lparr>sy_set = key_set_new, sy_clock = c, sy_lookups = [], sy_answers = [], sy_marks = marks\<rparr>)
          (concat (replicate n (abandoned_lookup t)))) =
        marks @ concat (replicate n [FetchStarted t, FetchDropped t])" for c marks
    by (induction n arbitrary: c marks) (simp_all add: run_append one)
  from this [of 0 "[]"] show ?thesis by (simp add: key_system_new_def)
qed

subsection \<open>Who is let in\<close>

lemma verify_Inr:
  "verify J lookup v token = Inr claims \<longleftrightarrow>
     (\<exists>kid key k. jw_header_kid J token = Inr (Some kid) \<and> lookup kid = Inr key
        \<and> jw_rsa_key J (sk_n key) (sk_e key) = Inr k
        \<and> jw_decode J token k (validation_of v) = Inr claims \<and> check_caller v claims = Inr claims)"
proof -
  have kid: "token_kid J token = Inr kid \<longleftrightarrow> jw_header_kid J token = Inr (Some kid)" for kid
    by (simp add: token_kid_def split: sum.split option.split)
  have key: "usable_key J kid key = Inr k \<longleftrightarrow> jw_rsa_key J (sk_n key) (sk_e key) = Inr k" for kid key k
    by (simp add: usable_key_def split: sum.split)
  have caller: "check_caller v c = Inr claims \<longleftrightarrow> c = claims \<and> check_caller v claims = Inr claims" for c
    by (auto simp: check_caller_def Let_def split: if_splits)
  have decode: "(case jw_decode J token k (validation_of v) of Inl e \<Rightarrow> Inl (TokenRejected e)
        | Inr c \<Rightarrow> check_caller v c) = Inr claims \<longleftrightarrow>
      jw_decode J token k (validation_of v) = Inr claims \<and> check_caller v claims = Inr claims" for k
  proof (cases "jw_decode J token k (validation_of v)")
    case (Inr c)
    then show ?thesis using caller [of c] by simp
  qed simp
  show ?thesis
    unfolding verify_def decoding_key_for_def result_bind_Inr_iff kid key decode by blast
qed

lemma check_caller_Inr:
  "check_caller v c = Inr c \<longleftrightarrow>
     ve_allowed_emails v = []
     \<or> (unwrap_or (ic_email c) [] \<in> set (ve_allowed_emails v) \<and> ic_email_verified c = Some True)"
  by (simp add: check_caller_def Let_def)

text \<open>
  C16: Only a caller with a token of its own for this service reaches the handler: the bearer token
  of its \<^verbatim>\<open>Authorization\<close> header, signed with the published key its \<open>kid\<close> names, addressed to this
  service's audience, of an accepted issuer, and, under an allowlist, of a named caller whose
  address is verified. Every other request is answered a 401 that does not say why.
\<close>

theorem only_verified_callers_run:
  assumes decoded: "\<And>token k va claims. jw_decode J token k va = Inr claims \<Longrightarrow>
      signs token k \<and> ic_aud claims \<in> set (va_audience va) \<and> issuer token \<in> set (va_issuers va)"
  shows "case require_google_id_token to_str json_text J lookup v headers of
      RunsNext \<Rightarrow>
        (\<exists>header token kid key k claims.
           header_text to_str headers ''authorization'' = Some header \<and> bearer_credential header = Some token
           \<and> jw_header_kid J token = Inr (Some kid) \<and> lookup kid = Inr key
           \<and> jw_rsa_key J (sk_n key) (sk_e key) = Inr k \<and> signs token k
           \<and> ic_aud (claims :: id_token_claims) = ve_audience v
           \<and> issuer token \<in> {''https://accounts.google.com'', ''accounts.google.com''}
           \<and> (ve_allowed_emails v \<noteq> [] \<longrightarrow>
                unwrap_or (ic_email claims) [] \<in> set (ve_allowed_emails v) \<and> ic_email_verified claims = Some True))
    | Answers a \<Rightarrow> a \<in> {unauthorized json_text ''Missing bearer identity token'',
                          unauthorized json_text ''Invalid identity token''}"
proof (cases "Option.bind (header_text to_str headers ''authorization'') bearer_credential")
  case (Some token)
  then obtain header where header: "header_text to_str headers ''authorization'' = Some header"
    "bearer_credential header = Some token" by (auto simp: bind_eq_Some_conv)
  show ?thesis
  proof (cases "verify J lookup v token")
    case (Inr claims)
    then obtain kid key k where found: "jw_header_kid J token = Inr (Some kid)" "lookup kid = Inr key"
      "jw_rsa_key J (sk_n key) (sk_e key) = Inr k" "jw_decode J token k (validation_of v) = Inr claims"
      "check_caller v claims = Inr claims" by (auto simp: verify_Inr)
    have claims: "signs token k" "ic_aud claims = ve_audience v"
      "issuer token \<in> {''https://accounts.google.com'', ''accounts.google.com''}"
      using decoded [OF found(4)] by (simp_all add: validation_of_def GOOGLE_ISSUERS_def)
    have caller: "ve_allowed_emails v \<noteq> [] \<longrightarrow>
        unwrap_or (ic_email claims) [] \<in> set (ve_allowed_emails v) \<and> ic_email_verified claims = Some True"
      using found(5) by (auto simp: check_caller_Inr)
    have ran: "require_google_id_token to_str json_text J lookup v headers = RunsNext"
      using Some Inr by (simp add: require_google_id_token_def)
    show ?thesis
      unfolding ran admission.case
      by (intro exI conjI) (fact header found claims caller)+
  qed (simp add: Some require_google_id_token_def)
qed (simp add: require_google_id_token_def)

definition demo_jwt :: "string jwt" where
  "demo_jwt =
     \<lparr>jw_header_kid = (\<lambda>t. Inr (Some ''k2'')),
      jw_rsa_key = (\<lambda>n e. Inr n),
      jw_decode = (\<lambda>t k va. if t = ''a.b.c'' \<and> k = ''AQAB'' \<and> va_audience va = [''https://svc''] \<and> va_issuers va = GOOGLE_ISSUERS
         then Inr \<lparr>ic_sub = ''7'', ic_aud = ''https://svc'', ic_email = Some ''a@x'', ic_email_verified = Some True\<rparr>
         else Inl ''InvalidToken'')\<rparr>"

definition demo_verifier :: verifier where
  "demo_verifier = allowing [''a@x''] (verifier_new ''https://svc'')"

lemma only_verified_callers_run_witness:
  "\<exists>token claims. bearer_credential ''Bearer a.b.c'' = Some token \<and> token = ''a.b.c''
     \<and> ic_aud (claims :: id_token_claims) = ve_audience demo_verifier
     \<and> unwrap_or (ic_email claims) [] = ''a@x''"
proof -
  have "bearer_credential ''Bearer a.b.c'' = Some ''a.b.c''" by code_simp
  then have ran: "require_google_id_token Some (\<lambda>_. []) demo_jwt (\<lambda>_. Inr demo_key) demo_verifier
      [(''authorization'', ''Bearer a.b.c'')] = RunsNext"
    by (simp add: require_google_id_token_def header_text_def header_get_def get_all_def verify_def
        decoding_key_for_def token_kid_def usable_key_def demo_jwt_def validation_of_def allowing_def
        verifier_new_def check_caller_def demo_verifier_def demo_key_def)
  have library: "(t = ''a.b.c'' \<and> k = ''AQAB'') \<and> ic_aud c \<in> set (va_audience va) \<and> ''accounts.google.com'' \<in> set (va_issuers va)"
    if "jw_decode demo_jwt t k va = Inr c" for t k va c
    using that by (auto simp: demo_jwt_def GOOGLE_ISSUERS_def split: if_splits)
  show ?thesis
    using only_verified_callers_run [where J = demo_jwt and signs = "\<lambda>t k. t = ''a.b.c'' \<and> k = ''AQAB''"
        and issuer = "\<lambda>_. ''accounts.google.com''" and to_str = Some and json_text = "\<lambda>_. []"
        and lookup = "\<lambda>_. Inr demo_key" and v = demo_verifier
        and headers = "[(''authorization'', ''Bearer a.b.c'')]", OF library] ran
    by (auto simp: header_text_def header_get_def get_all_def demo_verifier_def allowing_def verifier_new_def)
qed

lemma source_token_fresh:
  assumes "source_token now r later stored s = (Inr token, s')"
  shows "\<exists>c. ts_cached s' = Some c \<and> ct_token c = token
    \<and> ((ts_cached s = Some c \<and> (now - ct_fetched_at c < REFRESH_AFTER \<or> later - ct_fetched_at c < REFRESH_AFTER))
       \<or> (ct_fetched_at c = stored \<and> fetch_token r = Inr token))"
  using assms
  by (auto simp: source_token_def keep_token_def fresh_token_def bind_eq_Some_conv bind_eq_None_conv
      split: option.splits sum.splits prod.splits if_splits)

end
