(* ===== verification/Service_Client.thy ===== *)
theory Service_Client
  imports Iam
begin

declare map_of_eq_Some_iff [simp del] Some_eq_map_of_iff [simp del]

text \<open>
  The client one dravr service calls another with (\<^verbatim>\<open>src/service_client/\<close>), over the token source of
  \<^theory_text>\<open>Iam\<close> and the request ids of \<^theory_text>\<open>Request_Guard\<close>, and the description of a failed request
  (\<^verbatim>\<open>describe_request_error\<close> in \<^verbatim>\<open>src/http_client/mod.rs\<close>).

  The \<^verbatim>\<open>url\<close> and \<^verbatim>\<open>reqwest\<close> packages are arguments: parsing a URL, building a request of a builder,
  whether a builder has a second copy. What the network does with an attempt is drawn with it, and
  an attempt answers, beside its result, the request it put on the wire, if any. A client is its
  own state: the token cache its clones share.
\<close>

definition DEFAULT_SHED_RETRY_AFTER_SECS :: nat where "DEFAULT_SHED_RETRY_AFTER_SECS = 30"

subsection \<open>Failed requests\<close>

datatype io_kind = ConnectionReset | ConnectionAborted | BrokenPipe | UnexpectedEof | OtherIo

text \<open>An error under a failed request: its text, and what it can be downcast to; a
  \<^verbatim>\<open>hyper::Error\<close> tells whether its message was incomplete and whether it was cancelled.\<close>

record cause =
  ca_text :: string
  ca_reqwest :: bool
  ca_hyper :: "(bool \<times> bool) option"
  ca_io :: "io_kind option"

record request_error =
  re_text :: string
  re_timeout :: bool
  re_connect :: bool
  re_causes :: "cause list"

text \<open>\<open>re_text\<close> is the error's text without its URL (\<^verbatim>\<open>without_url\<close>).\<close>

definition describe_request_error :: "request_error \<Rightarrow> string" where
  "describe_request_error e =
     join_with '': '' (re_text e # map ca_text (filter (\<lambda>c. \<not> ca_reqwest c) (re_causes e)))"

datatype transport_failure = TimedOut | Unreachable | ClosedBeforeResponse | OtherFailure

fun closed_before_response :: "cause list \<Rightarrow> bool" where
  "closed_before_response [] = False"
| "closed_before_response (c # cs) =
     (if (case ca_hyper c of Some (incomplete, canceled) \<Rightarrow> incomplete \<or> canceled | None \<Rightarrow> False) then True
      else if (case ca_io c of
                 Some kind \<Rightarrow> kind \<in> {ConnectionReset, ConnectionAborted, BrokenPipe, UnexpectedEof}
               | None \<Rightarrow> False) then True
      else closed_before_response cs)"

definition transport_failure_of :: "request_error \<Rightarrow> transport_failure" where
  "transport_failure_of e =
     (if re_timeout e then TimedOut
      else if re_connect e then Unreachable
      else if closed_before_response (re_causes e) then ClosedBeforeResponse
      else OtherFailure)"

fun failure_describe :: "transport_failure \<Rightarrow> string" where
  "failure_describe TimedOut = ''timed out waiting for a response''"
| "failure_describe Unreachable = ''could not connect to the service''"
| "failure_describe ClosedBeforeResponse = ''saw the connection close before any response''"
| "failure_describe OtherFailure = ''could not be sent''"

subsection \<open>Outcomes\<close>

record exchange =
  ex_service :: string
  ex_operation :: string
  ex_request_id :: string
  ex_elapsed :: duration
  ex_resent :: bool

datatype unfinished = ServiceDeadline | GatewayDeadline | BadGateway | HandlerPanic

fun unfinished_describe :: "unfinished \<Rightarrow> string" where
  "unfinished_describe ServiceDeadline = ''outlived the service'' @ [CHR 0x27] @ ''s request deadline''"
| "unfinished_describe GatewayDeadline = ''outlived the gateway'' @ [CHR 0x27] @ ''s deadline''"
| "unfinished_describe BadGateway = ''got no usable answer through the gateway''"
| "unfinished_describe HandlerPanic = ''failed in a service handler that panicked''"

datatype service_error =
    Identity string string iam_error
  | TransportError exchange transport_failure string
  | Shed exchange nat nat "string option"
  | Unfinished exchange nat unfinished "string option"
  | BodyError exchange nat string
  | DecodeError exchange nat string

fun error_exchange :: "service_error \<Rightarrow> exchange option" where
  "error_exchange (Identity _ _ _) = None"
| "error_exchange (TransportError x _ _) = Some x"
| "error_exchange (Shed x _ _ _) = Some x"
| "error_exchange (Unfinished x _ _ _) = Some x"
| "error_exchange (BodyError x _ _) = Some x"
| "error_exchange (DecodeError x _ _) = Some x"

definition named :: "exchange \<Rightarrow> string \<Rightarrow> string" where
  "named x noun =
     ex_service x @ '' '' @ ex_operation x @ '' '' @ noun @ '' ('' @ REQUEST_ID_HEADER @ '' '' @ ex_request_id x"

text \<open>\<open>status_text\<close> is how the \<^verbatim>\<open>http\<close> package writes a status.\<close>

fun service_error_text :: "(nat \<Rightarrow> string) \<Rightarrow> service_error \<Rightarrow> string" where
  "service_error_text status_text (Identity service _ source) =
     ''could not mint an identity token for '' @ service @ '': '' @ iam_error_text source"
| "service_error_text status_text (TransportError x failure why) =
     named x ''request'' @ '') '' @ failure_describe failure @ '' after ''
     @ nat_text (ex_elapsed x div MILLISECOND) @ '' ms: '' @ why"
| "service_error_text status_text (Shed x status secs reason) =
     ex_service x @ '' shed the '' @ ex_operation x @ '' request ('' @ REQUEST_ID_HEADER @ '' '' @ ex_request_id x
     @ '', '' @ status_text status @ ''); retry after '' @ nat_text secs @ ''s''
     @ (case reason of Some r \<Rightarrow> '': '' @ r | None \<Rightarrow> [])"
| "service_error_text status_text (Unfinished x status kind detail) =
     named x ''request'' @ '') '' @ unfinished_describe kind @ '' ('' @ status_text status @ ''): ''
     @ unwrap_or detail ''no detail''"
| "service_error_text status_text (BodyError x status why) =
     named x ''request'' @ '') was answered '' @ status_text status
     @ '' but its body could not be read after '' @ nat_text (ex_elapsed x div MILLISECOND) @ '' ms: '' @ why"
| "service_error_text status_text (DecodeError x status detail) =
     named x ''response'' @ '', '' @ status_text status @ '') is not the expected shape: '' @ detail"

datatype config_error =
    InvalidBaseUrl string string
  | AudienceRequired string
  | AudienceNotSet string string string
  | HttpClient string string

fun config_error_text :: "config_error \<Rightarrow> string" where
  "config_error_text (InvalidBaseUrl service detail) = service @ '' base URL is not usable: '' @ detail"
| "config_error_text (AudienceRequired service) =
     service @ '' is not on loopback, so an ID-token audience is required''"
| "config_error_text (AudienceNotSet service url_var audience_var) =
     url_var @ '' names a '' @ service @ '' service that is not on loopback, so '' @ audience_var @ '' must be set''"
| "config_error_text (HttpClient service detail) =
     ''could not build the HTTP client for '' @ service @ '': '' @ detail"

subsection \<open>Sorting a response\<close>

record service_response =
  sr_exchange :: exchange
  sr_status :: nat
  sr_headers :: header_map
  sr_body :: string

definition is_success_status :: "nat \<Rightarrow> bool" where
  "is_success_status status \<longleftrightarrow> 200 \<le> status \<and> status < 300"

definition as_u64 :: "json \<Rightarrow> nat option" where
  "as_u64 v = (case v of JNumber (PosInt n) \<Rightarrow> Some n | _ \<Rightarrow> None)"

definition header_wait :: "(string \<Rightarrow> string option) \<Rightarrow> header_map \<Rightarrow> nat option" where
  "header_wait to_str headers =
     Option.bind (header_text to_str headers ''retry-after'') (\<lambda>v. parse_u64 (trim v))"

definition unfinished_kind :: "nat \<Rightarrow> error_response option \<Rightarrow> unfinished option" where
  "unfinished_kind status guard =
     (let guard_type = map_option (\<lambda>g. ed_type (er_error g)) guard in
      if status = 504
      then (if guard_type = Some REQUEST_TIMEOUT then Some ServiceDeadline else Some GatewayDeadline)
      else if status = 502 then Some BadGateway
      else if status = 500 \<and> guard_type = Some HANDLER_PANIC then Some HandlerPanic
      else None)"

text \<open>\<open>read_json\<close> is \<^verbatim>\<open>serde_json::from_slice::<Value>\<close>.\<close>

definition classify ::
  "(string \<Rightarrow> string option) \<Rightarrow> (string \<Rightarrow> json option) \<Rightarrow> exchange \<Rightarrow> nat \<Rightarrow> header_map \<Rightarrow> string
     \<Rightarrow> (service_error, service_response) result" where
  "classify to_str read_json x status headers body =
     (let answer = \<lparr>sr_exchange = x, sr_status = status, sr_headers = headers, sr_body = body\<rparr> in
      if is_success_status status then Inr answer
      else
        (let json = read_json body;
             named_wait = Option.bind (Option.bind json (json_get RETRY_AFTER_SECS_FIELD)) as_u64 in
         if status = 503 \<or> named_wait \<noteq> None
         then Inl (Shed x status
                (case named_wait of
                   Some secs \<Rightarrow> secs
                 | None \<Rightarrow> unwrap_or (header_wait to_str headers) DEFAULT_SHED_RETRY_AFTER_SECS)
                (Option.bind (Option.bind json (json_get SHED_REASON_FIELD)) as_str))
         else
           (let guard = Option.bind json error_response_of_json in
            case unfinished_kind status guard of
              Some kind \<Rightarrow> Inl (Unfinished x status kind (map_option (\<lambda>g. ed_message (er_error g)) guard))
            | None \<Rightarrow> Inr answer)))"

datatype json_category = DataError_category | SyntaxError | EofError | IoError_category

record json_error =
  je_category :: json_category
  je_line :: nat
  je_column :: nat

definition decode_detail :: "json_error \<Rightarrow> string" where
  "decode_detail e =
     (case je_category e of
        DataError_category \<Rightarrow> ''a value of another type, or a missing field,''
      | SyntaxError \<Rightarrow> ''invalid JSON''
      | EofError \<Rightarrow> ''JSON that ends early''
      | IoError_category \<Rightarrow> ''an unreadable body'')
     @ '' at line '' @ nat_text (je_line e) @ '' column '' @ nat_text (je_column e)"

definition response_json ::
  "(string \<Rightarrow> (json_error, 'a) result) \<Rightarrow> service_response \<Rightarrow> (service_error, 'a) result" where
  "response_json decode r =
     (case decode (sr_body r) of
        Inl e \<Rightarrow> Inl (DecodeError (sr_exchange r) (sr_status r) (decode_detail e))
      | Inr v \<Rightarrow> Inr v)"

definition json_value :: "(string \<Rightarrow> json option) \<Rightarrow> service_response \<Rightarrow> json" where
  "json_value read_json r = unwrap_or (read_json (sr_body r)) JNull"

subsection \<open>The client\<close>

text \<open>What the code reads of a parsed URL; \<open>su_origin\<close> is \<^verbatim>\<open>Url::origin\<close>.\<close>

record service_url =
  su_scheme :: string
  su_host :: "string option"
  su_username :: string
  su_password :: "string option"
  su_query :: "string option"
  su_fragment :: "string option"
  su_origin :: string

record service_client =
  sc_service :: string
  sc_base_url :: string
  sc_base :: service_url
  sc_tokens :: "token_source option"

definition trim_end_slashes :: "string \<Rightarrow> string" where
  "trim_end_slashes s = rev (dropWhile (\<lambda>c. c = CHR ''/'') (rev s))"

definition service_client_new ::
  "(string \<Rightarrow> (string, service_url) result) \<Rightarrow> string \<Rightarrow> string \<Rightarrow> string option
     \<Rightarrow> (config_error, service_client) result" where
  "service_client_new parse_url service text audience =
     (let base_url = trim_end_slashes text;
          invalid = (\<lambda>detail. Inl (InvalidBaseUrl service detail)) in
      case parse_url base_url of
        Inl e \<Rightarrow> invalid e
      | Inr u \<Rightarrow>
          if su_scheme u \<notin> {''http'', ''https''}
          then invalid (''its scheme is '' @ [CHR 0x22] @ su_scheme u @ [CHR 0x22] @ '', not http or https'')
          else
            (case su_host u of
               None \<Rightarrow> invalid ''it names no host''
             | Some host \<Rightarrow>
                 if su_username u \<noteq> [] \<or> su_password u \<noteq> None then invalid ''it carries credentials''
                 else if su_query u \<noteq> None \<or> su_fragment u \<noteq> None
                 then invalid ''it carries a query or a fragment''
                 else
                   (let client = (\<lambda>tokens. \<lparr>sc_service = service, sc_base_url = base_url, sc_base = u,
                                           sc_tokens = tokens\<rparr>) in
                    if is_loopback_host host then Inr (client None)
                    else if su_scheme u \<noteq> ''https''
                    then invalid (''a service that is not on loopback must be https; an identity token is ''
                           @ ''never sent in clear'')
                    else
                      (case Option.bind audience (\<lambda>a. if a = [] then None else Some a) of
                         None \<Rightarrow> Inl (AudienceRequired service)
                       | Some a \<Rightarrow> Inr (client (Some (token_source_new a)))))))"

text \<open>\<open>built\<close> is what building the HTTP client answered.\<close>

definition service_client_from_env ::
  "(string \<Rightarrow> (string, service_url) result) \<Rightarrow> environment \<Rightarrow> (request_error, unit) result
     \<Rightarrow> string \<Rightarrow> string \<Rightarrow> string \<Rightarrow> (config_error, service_client option) result" where
  "service_client_from_env parse_url env built service url_var audience_var =
     (case env url_var of
        None \<Rightarrow> Inr None
      | Some base_url \<Rightarrow>
          if trim_end_slashes base_url = [] then Inr None
          else
            (let audience = Option.bind (env audience_var) (\<lambda>a. if a = [] then None else Some a) in
             case built of
               Inl e \<Rightarrow> Inl (HttpClient service (describe_request_error e))
             | Inr _ \<Rightarrow>
                 (case service_client_new parse_url service base_url audience of
                    Inr c \<Rightarrow> Inr (Some c)
                  | Inl (AudienceRequired s) \<Rightarrow> Inl (AudienceNotSet s url_var audience_var)
                  | Inl other \<Rightarrow> Inl other)))"

subsection \<open>Requests\<close>

record builder =
  bu_method :: string
  bu_url :: string
  bu_query :: "(string \<times> string) list"
  bu_headers :: "(string \<times> string) list"
  bu_json :: "json option"
  bu_timeout :: "duration option"

record service_request =
  sq_operation :: string
  sq_builder :: builder
  sq_resend_after_close :: bool
  sq_refused :: "string option"

definition request_of :: "service_client \<Rightarrow> string \<Rightarrow> string \<Rightarrow> string \<Rightarrow> bool \<Rightarrow> service_request" where
  "request_of c operation verb path resend =
     \<lparr>sq_operation = operation,
      sq_builder = \<lparr>bu_method = verb, bu_url = sc_base_url c @ path, bu_query = [], bu_headers = [],
                    bu_json = None, bu_timeout = None\<rparr>,
      sq_resend_after_close = resend,
      sq_refused = (if take 1 path = ''/'' then None
                    else Some (''its path does not start with '' @ [CHR 0x27] @ ''/'' @ [CHR 0x27]
                               @ ''; nothing was sent''))\<rparr>"

definition service_get :: "service_client \<Rightarrow> string \<Rightarrow> string \<Rightarrow> service_request" where
  "service_get c operation path = request_of c operation ''GET'' path True"

definition service_post_json :: "service_client \<Rightarrow> string \<Rightarrow> string \<Rightarrow> json \<Rightarrow> service_request" where
  "service_post_json c operation path body =
     (let request = request_of c operation ''POST'' path False in
      request\<lparr>sq_builder := (sq_builder request)\<lparr>bu_json := Some body\<rparr>\<rparr>)"

definition service_delete :: "service_client \<Rightarrow> string \<Rightarrow> string \<Rightarrow> service_request" where
  "service_delete c operation path = request_of c operation ''DELETE'' path False"

definition add_query :: "(string \<times> string) list \<Rightarrow> service_request \<Rightarrow> service_request" where
  "add_query pairs r =
     r\<lparr>sq_builder := (sq_builder r)\<lparr>bu_query := bu_query (sq_builder r) @ pairs\<rparr>\<rparr>"

definition add_header :: "string \<Rightarrow> string \<Rightarrow> service_request \<Rightarrow> service_request" where
  "add_header name v r =
     r\<lparr>sq_builder := (sq_builder r)\<lparr>bu_headers := bu_headers (sq_builder r) @ [(name, v)]\<rparr>\<rparr>"

definition set_timeout :: "duration \<Rightarrow> service_request \<Rightarrow> service_request" where
  "set_timeout d r = r\<lparr>sq_builder := (sq_builder r)\<lparr>bu_timeout := Some d\<rparr>\<rparr>"

text \<open>A built request, and the packages' part in sending one: \<open>sl_inject\<close> is what the trace propagator
  does to the headers, \<open>sl_bad_header\<close> the text of a header value that is none.\<close>

record wire_request =
  wr_method :: string
  wr_url :: string
  wr_origin :: string
  wr_headers :: header_map
  wr_body :: string

record send_libraries =
  sl_build :: "builder \<Rightarrow> (request_error, wire_request) result"
  sl_can_clone :: "builder \<Rightarrow> bool"
  sl_header_value :: "string \<Rightarrow> string option"
  sl_bad_header :: string
  sl_inject :: "header_map \<Rightarrow> header_map"
  sl_to_str :: "string \<Rightarrow> string option"
  sl_read_json :: "string \<Rightarrow> json option"

text \<open>What an attempt met: no response, or a response and its body or why that was cut.\<close>

datatype met = NoResponse request_error | Responded nat header_map "(request_error, string) result"

record attempt_draws =
  at_now :: instant
  at_metadata :: reply
  at_later :: instant
  at_stored :: instant
  at_random :: "64 word"
  at_met :: met
  at_elapsed :: duration

definition exchange_of ::
  "service_client \<Rightarrow> string \<Rightarrow> string \<Rightarrow> duration \<Rightarrow> bool \<Rightarrow> exchange" where
  "exchange_of c operation rid elapsed resent =
     \<lparr>ex_service = sc_service c, ex_operation = operation, ex_request_id = rid, ex_elapsed = elapsed,
      ex_resent = resent\<rparr>"

definition unsendable ::
  "service_client \<Rightarrow> string \<Rightarrow> bool \<Rightarrow> string \<Rightarrow> 64 word \<Rightarrow> minter \<Rightarrow> service_error \<times> minter" where
  "unsendable c operation resent why random m =
     (case mint random m of
        (rid, m') \<Rightarrow> (TransportError (exchange_of c operation rid 0 resent) OtherFailure why, m'))"

text \<open>\<^verbatim>\<open>Authorization\<close> for the service, and the client with its token cache as it is left.\<close>

definition authorization ::
  "(string \<Rightarrow> string option) \<Rightarrow> service_client \<Rightarrow> string \<Rightarrow> attempt_draws
     \<Rightarrow> (service_error, string option) result \<times> service_client" where
  "authorization header_value c operation d =
     (case sc_tokens c of
        None \<Rightarrow> (Inr None, c)
      | Some tokens \<Rightarrow>
          (case source_token (at_now d) (at_metadata d) (at_later d) (at_stored d) tokens of
             (answer, tokens') \<Rightarrow>
               (case answer of
                  Inl e \<Rightarrow> Inl (Identity (sc_service c) operation e)
                | Inr token \<Rightarrow>
                    (case header_value (''Bearer '' @ token) of
                       None \<Rightarrow> Inl (Identity (sc_service c) operation
                                 (MalformedToken ''the token holds a byte an HTTP header cannot carry''))
                     | Some v \<Rightarrow> Inr (Some v)),
                c\<lparr>sc_tokens := Some tokens'\<rparr>)))"

definition answer_of_met ::
  "send_libraries \<Rightarrow> exchange \<Rightarrow> met \<Rightarrow> (service_error, service_response) result" where
  "answer_of_met L x m =
     (case m of
        NoResponse e \<Rightarrow> Inl (TransportError x (transport_failure_of e) (describe_request_error e))
      | Responded status headers (Inr body) \<Rightarrow> classify (sl_to_str L) (sl_read_json L) x status headers body
      | Responded status headers (Inl e) \<Rightarrow>
          result_bind (classify (sl_to_str L) (sl_read_json L) x status headers [])
            (\<lambda>_. Inl (BodyError x status (describe_request_error e))))"

record attempted =
  ad_result :: "(service_error, service_response) result"
  ad_sent :: "wire_request option"
  ad_client :: service_client
  ad_minter :: minter

definition attempt ::
  "send_libraries \<Rightarrow> service_client \<Rightarrow> string \<Rightarrow> builder \<Rightarrow> bool \<Rightarrow> attempt_draws \<Rightarrow> minter \<Rightarrow> attempted" where
  "attempt L c operation b resent d m =
     (let nothing = (\<lambda>c' why. case unsendable c operation resent why (at_random d) m of
                (e, m') \<Rightarrow> \<lparr>ad_result = Inl e, ad_sent = None, ad_client = c', ad_minter = m'\<rparr>) in
      case sl_build L b of
        Inl e \<Rightarrow> nothing c (describe_request_error e)
      | Inr request \<Rightarrow>
          if wr_origin request \<noteq> su_origin (sc_base c)
          then nothing c (''its URL is outside the service'' @ [CHR 0x27] @ ''s base URL; nothing was sent'')
          else
            (case authorization (sl_header_value L) c operation d of
               (Inl e, c') \<Rightarrow> \<lparr>ad_result = Inl e, ad_sent = None, ad_client = c', ad_minter = m\<rparr>
             | (Inr auth, c') \<Rightarrow>
                 (let headers = (case auth of
                            Some v \<Rightarrow> header_insert ''authorization'' v (wr_headers request)
                          | None \<Rightarrow> header_remove ''authorization'' (wr_headers request)) in
                  case mint (at_random d) m of
                    (rid, m1) \<Rightarrow>
                      (case sl_header_value L rid of
                         None \<Rightarrow>
                           (case unsendable c operation resent (sl_bad_header L) (at_random d) m1 of
                              (e, m2) \<Rightarrow> \<lparr>ad_result = Inl e, ad_sent = None, ad_client = c', ad_minter = m2\<rparr>)
                       | Some idv \<Rightarrow>
                           \<lparr>ad_result = answer_of_met L (exchange_of c operation rid (at_elapsed d) resent) (at_met d),
                            ad_sent = Some (request\<lparr>wr_headers :=
                              sl_inject L (header_insert REQUEST_ID_HEADER idv headers)\<rparr>),
                            ad_client = c', ad_minter = m1\<rparr>))))"

record sent =
  se_result :: "(service_error, service_response) result"
  se_wire :: "wire_request list"
  se_client :: service_client
  se_minter :: minter

fun closed_early :: "(service_error, service_response) result \<Rightarrow> bool" where
  "closed_early (Inl (TransportError _ ClosedBeforeResponse _)) = True"
| "closed_early _ = False"

definition send ::
  "send_libraries \<Rightarrow> service_client \<Rightarrow> service_request \<Rightarrow> attempt_draws \<Rightarrow> attempt_draws \<Rightarrow> minter \<Rightarrow> sent" where
  "send L c r d1 d2 m =
     (case sq_refused r of
        Some why \<Rightarrow>
          (case unsendable c (sq_operation r) False why (at_random d1) m of
             (e, m') \<Rightarrow> \<lparr>se_result = Inl e, se_wire = [], se_client = c, se_minter = m'\<rparr>)
      | None \<Rightarrow>
          (let spare = (sq_resend_after_close r \<and> sl_can_clone L (sq_builder r));
               first = attempt L c (sq_operation r) (sq_builder r) False d1 m;
               sent1 = (case ad_sent first of Some w \<Rightarrow> [w] | None \<Rightarrow> []) in
           if spare \<and> closed_early (ad_result first)
           then (let second = attempt L (ad_client first) (sq_operation r) (sq_builder r) True d2 (ad_minter first) in
                 \<lparr>se_result = ad_result second,
                  se_wire = sent1 @ (case ad_sent second of Some w \<Rightarrow> [w] | None \<Rightarrow> []),
                  se_client = ad_client second, se_minter = ad_minter second\<rparr>)
           else \<lparr>se_result = ad_result first, se_wire = sent1, se_client = ad_client first,
                 se_minter = ad_minter first\<rparr>))"

subsection \<open>What goes out\<close>

definition client_ok :: "service_client \<Rightarrow> bool" where
  "client_ok c \<longleftrightarrow>
     su_scheme (sc_base c) \<in> {''http'', ''https''}
     \<and> (\<exists>host. su_host (sc_base c) = Some host \<and>
          (case sc_tokens c of
             None \<Rightarrow> is_loopback_host host
           | Some t \<Rightarrow> \<not> is_loopback_host host \<and> su_scheme (sc_base c) = ''https'' \<and> ts_audience t \<noteq> []))"

lemma client_ok_new: "service_client_new parse_url service txt audience = Inr c \<Longrightarrow> client_ok c"
  by (auto simp: service_client_new_def client_ok_def Let_def token_source_new_def bind_eq_Some_conv
      split: sum.splits option.splits if_splits)

lemma source_token_audience:
  "source_token now r later stored s = (a, s') \<Longrightarrow> ts_audience s' = ts_audience s"
  by (auto simp: source_token_def keep_token_def split: option.splits sum.splits prod.splits)

lemma authorization_client:
  assumes "authorization hv c operation d = (a, c')"
  shows "sc_base c' = sc_base c" and "client_ok c \<Longrightarrow> client_ok c'"
  using assms source_token_audience
  by (fastforce simp: authorization_def client_ok_def split: option.splits prod.splits)+

lemma authorization_none: "authorization hv c operation d = (Inr None, c') \<Longrightarrow> sc_tokens c = None"
  by (auto simp: authorization_def split: option.splits prod.splits sum.splits)

lemma authorization_some:
  "authorization hv c operation d = (Inr (Some v), c') \<Longrightarrow>
     \<exists>tokens token tokens'. sc_tokens c = Some tokens
       \<and> source_token (at_now d) (at_metadata d) (at_later d) (at_stored d) tokens = (Inr token, tokens')
       \<and> hv (''Bearer '' @ token) = Some v"
  by (auto simp: authorization_def split: option.splits prod.splits sum.splits)

text \<open>What the packages are relied on for: a header value is the text it is read from, and the
  propagator leaves the client's own two headers alone.\<close>

definition faithful_headers :: "send_libraries \<Rightarrow> bool" where
  "faithful_headers L \<longleftrightarrow>
     (\<forall>s v. sl_header_value L s = Some v \<longrightarrow> v = s)
     \<and> (\<forall>h. get_all (sl_inject L h) ''authorization'' = get_all h ''authorization'')
     \<and> (\<forall>h. get_all (sl_inject L h) REQUEST_ID_HEADER = get_all h REQUEST_ID_HEADER)"

text \<open>A request of the client on the wire: to the service's own origin, under one id of the client's,
  and with the service's own token or none.\<close>

definition well_sent :: "service_client \<Rightarrow> wire_request \<Rightarrow> bool" where
  "well_sent c w \<longleftrightarrow>
     wr_origin w = su_origin (sc_base c)
     \<and> (\<exists>rid. get_all (wr_headers w) REQUEST_ID_HEADER = [rid] \<and> is_usable_request_id rid)
     \<and> (case sc_tokens c of
          None \<Rightarrow> get_all (wr_headers w) ''authorization'' = []
        | Some _ \<Rightarrow> \<exists>token. get_all (wr_headers w) ''authorization'' = [''Bearer '' @ token])"

lemma attempt_sent:
  assumes "ad_sent (attempt L c operation b resent d m) = Some w"
  obtains request auth c' rid m1 idv where "sl_build L b = Inr request"
    "wr_origin request = su_origin (sc_base c)"
    "authorization (sl_header_value L) c operation d = (Inr auth, c')"
    "mint (at_random d) m = (rid, m1)" "sl_header_value L rid = Some idv"
    "w = request\<lparr>wr_headers := sl_inject L (header_insert REQUEST_ID_HEADER idv
           (case auth of Some v \<Rightarrow> header_insert ''authorization'' v (wr_headers request)
                       | None \<Rightarrow> header_remove ''authorization'' (wr_headers request)))\<rparr>"
    "ad_result (attempt L c operation b resent d m) =
       answer_of_met L (exchange_of c operation rid (at_elapsed d) resent) (at_met d)"
    "ad_minter (attempt L c operation b resent d m) = m1"
    "ad_client (attempt L c operation b resent d m) = c'"
  using assms that
  by (auto simp: attempt_def Let_def split: sum.splits prod.splits if_splits option.splits)

lemma attempt_client:
  "sc_base (ad_client (attempt L c operation b resent d m)) = sc_base c"
  "client_ok c \<Longrightarrow> client_ok (ad_client (attempt L c operation b resent d m))"
  by (auto simp: attempt_def Let_def authorization_client
      split: sum.splits prod.splits if_splits option.splits)

lemma attempt_tokens:
  "sc_tokens (ad_client (attempt L c operation b resent d m)) = None \<longleftrightarrow> sc_tokens c = None"
  by (auto simp: attempt_def Let_def authorization_def split: sum.splits prod.splits if_splits option.splits)

lemma attempt_well_sent:
  assumes lib: "faithful_headers L" and "ad_sent (attempt L c operation b resent d m) = Some w"
  shows "well_sent c w"
  using assms(2)
proof (rule attempt_sent)
  fix request auth c' rid m1 idv
  assume origin: "wr_origin request = su_origin (sc_base c)"
    and auth: "authorization (sl_header_value L) c operation d = (Inr auth, c')"
    and minted: "mint (at_random d) m = (rid, m1)" and idv: "sl_header_value L rid = Some idv"
    and w: "w = request\<lparr>wr_headers := sl_inject L (header_insert REQUEST_ID_HEADER idv
           (case auth of Some v \<Rightarrow> header_insert ''authorization'' v (wr_headers request)
                       | None \<Rightarrow> header_remove ''authorization'' (wr_headers request)))\<rparr>"
  have rid: "idv = rid" "is_usable_request_id rid"
    using lib idv usable_minted [of "at_random d" m] minted by (simp_all add: faithful_headers_def)
  have names: "REQUEST_ID_HEADER \<noteq> ''authorization''" by (simp add: REQUEST_ID_HEADER_def)
  show "well_sent c w"
  proof (cases auth)
    case None
    with auth authorization_none have "sc_tokens c = None" by blast
    with None lib rid names origin w show ?thesis
      by (simp add: well_sent_def faithful_headers_def get_all_insert get_all_remove)
  next
    case (Some v)
    with authorization_some [of "sl_header_value L" c operation d v c'] auth obtain tokens token where
      "sc_tokens c = Some tokens" "sl_header_value L (''Bearer '' @ token) = Some v" by auto
    with Some lib rid names origin w show ?thesis
      by (auto simp: well_sent_def faithful_headers_def get_all_insert)
  qed
qed

lemma well_sent_same:
  "sc_base c' = sc_base c \<Longrightarrow> sc_tokens c' = None \<longleftrightarrow> sc_tokens c = None \<Longrightarrow> well_sent c' w = well_sent c w"
  by (auto simp: well_sent_def split: option.splits)

lemma send_well_sent:
  assumes "faithful_headers L" and "w \<in> set (se_wire (send L c r d1 d2 m))"
  shows "well_sent c w"
proof -
  define first where "first = attempt L c (sq_operation r) (sq_builder r) False d1 m"
  have "ad_sent first = Some w
      \<or> ad_sent (attempt L (ad_client first) (sq_operation r) (sq_builder r) True d2 (ad_minter first)) = Some w"
    using assms(2) by (auto simp: send_def Let_def first_def split: option.splits if_splits prod.splits)
  then show ?thesis
    using attempt_well_sent [OF assms(1)] well_sent_same [of "ad_client first" c] attempt_client(1) attempt_tokens
    unfolding first_def by metis
qed

lemma send_client:
  "client_ok c \<Longrightarrow> client_ok (se_client (send L c r d1 d2 m))"
  "sc_base (se_client (send L c r d1 d2 m)) = sc_base c"
  "sc_tokens (se_client (send L c r d1 d2 m)) = None \<longleftrightarrow> sc_tokens c = None"
  by (auto simp: send_def Let_def attempt_client attempt_tokens split: option.splits prod.splits)

text \<open>A client over its calls: a request and what its two attempts would draw.\<close>

record call_state =
  cl_client :: service_client
  cl_minter :: minter
  cl_wire :: "wire_request list"

definition call_step ::
  "send_libraries \<Rightarrow> call_state \<Rightarrow> service_request \<times> attempt_draws \<times> attempt_draws \<Rightarrow> call_state" where
  "call_step L y e =
     (case e of (r, d1, d2) \<Rightarrow>
       (let s = send L (cl_client y) r d1 d2 (cl_minter y) in
        \<lparr>cl_client = se_client s, cl_minter = se_minter s, cl_wire = cl_wire y @ se_wire s\<rparr>))"

definition calls_inv :: "send_libraries \<Rightarrow> service_client \<Rightarrow> call_state \<Rightarrow> bool" where
  "calls_inv L c y \<longleftrightarrow>
     faithful_headers L \<and> sc_base (cl_client y) = sc_base c \<and> (sc_tokens (cl_client y) = None \<longleftrightarrow> sc_tokens c = None)
     \<and> (\<forall>w \<in> set (cl_wire y). well_sent c w)"

interpretation service_calls: machine "call_step L" "calls_inv L c" for L c
proof
  fix L c and y :: call_state and e :: "service_request \<times> attempt_draws \<times> attempt_draws"
  assume inv: "calls_inv L c y"
  obtain r d1 d2 where e: "e = (r, d1, d2)" by (cases e)
  define s where "s = send L (cl_client y) r d1 d2 (cl_minter y)"
  have kept: "sc_base (se_client s) = sc_base c" "sc_tokens (se_client s) = None \<longleftrightarrow> sc_tokens c = None"
    using inv by (simp_all add: s_def send_client calls_inv_def)
  have "well_sent c w" if "w \<in> set (se_wire s)" for w
    using send_well_sent [of L w "cl_client y" r d1 d2 "cl_minter y"] that inv
      well_sent_same [of "cl_client y" c w] by (simp add: calls_inv_def s_def)
  with inv kept show "calls_inv L c (call_step L y e)"
    by (auto simp: call_step_def calls_inv_def e Let_def simp flip: s_def)
qed

subsection \<open>Answers\<close>

lemma classify_Inr:
  "classify to_str read_json x status headers body = Inr answer \<longleftrightarrow>
     answer = \<lparr>sr_exchange = x, sr_status = status, sr_headers = headers, sr_body = body\<rparr>
     \<and> (is_success_status status
        \<or> (status \<noteq> 503
           \<and> Option.bind (Option.bind (read_json body) (json_get RETRY_AFTER_SECS_FIELD)) as_u64 = None
           \<and> unfinished_kind status (Option.bind (read_json body) error_response_of_json) = None))"
  by (auto simp: classify_def Let_def split: option.splits)

definition body_text :: "answer \<Rightarrow> string" where
  "body_text a = concat (map (\<lambda>p. case p of Data s \<Rightarrow> s | _ \<Rightarrow> []) (an_body a))"

lemma failure_body: "body_text (failure_response json_text status t msg) =
    json_text (error_response_json (error_response_new t msg))"
  by (simp add: body_text_def failure_response_def json_answer_def)

lemma failure_status: "an_status (failure_response json_text status t msg) = status"
  by (simp add: failure_response_def json_answer_def)

lemma shed_get:
  "json_get RETRY_AFTER_SECS_FIELD (shed_body marker reason secs) = Some (JNumber (PosInt secs))"
  "json_get SHED_REASON_FIELD (shed_body marker reason secs) = Some (JString reason)"
  by (simp_all add: json_get_def shed_body_def RETRY_AFTER_SECS_FIELD_def SHED_REASON_FIELD_def)

lemma error_body_no_wait: "json_get RETRY_AFTER_SECS_FIELD (error_response_json e) = None"
  by (simp add: json_get_def error_response_json_def RETRY_AFTER_SECS_FIELD_def)

lemma classify_failure:
  assumes "read_json (json_text (error_response_json (error_response_new t msg))) =
      Some (error_response_json (error_response_new t msg))"
    and "unfinished_kind status (Some (error_response_new t msg)) = Some kind"
    and "\<not> is_success_status status" and "status \<noteq> 503"
  shows "classify to_str read_json x status h (body_text (failure_response json_text st t msg)) =
      Inl (Unfinished x status kind (Some msg))"
  unfolding failure_body using assms
  by (simp add: classify_def error_body_no_wait) (simp add: error_response_new_def)

text \<open>
  What one service's guard answers, another's client reads back for what it is: a shed with
  the service's own wait and reason, a deadline and a panic as requests that were not finished,
  each with the guard's own message.
\<close>

theorem guard_answers_are_read_back:
  assumes "read_json (gl_json_text G (shed_body marker reason secs)) = Some (shed_body marker reason secs)"
    and "read_json (gl_json_text G (error_response_json (error_response_new ''request_timeout''
           (''The request did not complete within '' @ duration_text deadline @ ''.'')))) =
         Some (error_response_json (error_response_new ''request_timeout''
           (''The request did not complete within '' @ duration_text deadline @ ''.'')))"
    and "read_json (gl_json_text G (error_response_json (error_response_new ''handler_panic''
           (''The request handler failed. The service logged the failure under request id '' @ rid @ ''.'')))) =
         Some (error_response_json (error_response_new ''handler_panic''
           (''The request handler failed. The service logged the failure under request id '' @ rid @ ''.'')))"
  shows "classify to_str read_json x (an_status (shed_response (gl_json_text G) marker reason secs))
           (an_headers (shed_response (gl_json_text G) marker reason secs))
           (body_text (shed_response (gl_json_text G) marker reason secs)) = Inl (Shed x 503 secs (Some reason))
     \<and> classify to_str read_json x (an_status (fst (enforce_deadline (gl_json_text G) deadline r None)))
           (an_headers (fst (enforce_deadline (gl_json_text G) deadline r None)))
           (body_text (fst (enforce_deadline (gl_json_text G) deadline r None))) =
         Inl (Unfinished x 504 ServiceDeadline
           (Some (''The request did not complete within '' @ duration_text deadline @ ''.'')))
     \<and> classify to_str read_json x (an_status (panic_response G rid)) (an_headers (panic_response G rid))
           (body_text (panic_response G rid)) =
         Inl (Unfinished x 500 HandlerPanic (Some
           (''The request handler failed. The service logged the failure under request id '' @ rid @ ''.'')))"
proof (intro conjI)
  have parts: "body_text (shed_response (gl_json_text G) marker reason secs) = gl_json_text G (shed_body marker reason secs)"
    "an_status (shed_response (gl_json_text G) marker reason secs) = 503"
    by (simp_all add: shed_response_def json_answer_def body_text_def Let_def)
  show "classify to_str read_json x (an_status (shed_response (gl_json_text G) marker reason secs))
           (an_headers (shed_response (gl_json_text G) marker reason secs))
           (body_text (shed_response (gl_json_text G) marker reason secs)) = Inl (Shed x 503 secs (Some reason))"
    unfolding parts by (simp add: classify_def assms shed_get as_u64_def as_str_def is_success_status_def)
  show "classify to_str read_json x (an_status (fst (enforce_deadline (gl_json_text G) deadline r None)))
           (an_headers (fst (enforce_deadline (gl_json_text G) deadline r None)))
           (body_text (fst (enforce_deadline (gl_json_text G) deadline r None))) =
         Inl (Unfinished x 504 ServiceDeadline
           (Some (''The request did not complete within '' @ duration_text deadline @ ''.'')))"
    unfolding enforce_deadline_def option.case fst_conv failure_status
    by (rule classify_failure)
      (simp_all add: unfinished_kind_def error_response_new_def REQUEST_TIMEOUT_def is_success_status_def
        assms(2) [unfolded error_response_new_def] del: append_Cons append_Nil)
  show "classify to_str read_json x (an_status (panic_response G rid)) (an_headers (panic_response G rid))
           (body_text (panic_response G rid)) =
         Inl (Unfinished x 500 HandlerPanic (Some
           (''The request handler failed. The service logged the failure under request id '' @ rid @ ''.'')))"
    unfolding panic_response_def failure_status
    by (rule classify_failure)
      (simp_all add: unfinished_kind_def error_response_new_def HANDLER_PANIC_def is_success_status_def
        assms(3) [unfolded error_response_new_def] del: append_Cons append_Nil)
qed

definition demo_exchange :: exchange where
  "demo_exchange = \<lparr>ex_service = ''pdf'', ex_operation = ''render'', ex_request_id = ''r-1'', ex_elapsed = 5, ex_resent = False\<rparr>"


definition demo_texts :: guard_libraries where
  "demo_texts = demo_guard\<lparr>gl_json_text := (\<lambda>v.
     if v = shed_body ''busy'' ''queue full'' 12 then ''s''
     else if v = error_response_json (error_response_new ''request_timeout''
                   (''The request did not complete within '' @ duration_text (320 * SECOND) @ ''.'')) then ''d''
     else ''p'')\<rparr>"

definition demo_read :: "string \<Rightarrow> json option" where
  "demo_read s =
     (if s = ''s'' then Some (shed_body ''busy'' ''queue full'' 12)
      else if s = ''d'' then Some (error_response_json (error_response_new ''request_timeout''
             (''The request did not complete within '' @ duration_text (320 * SECOND) @ ''.'')))
      else Some (error_response_json (error_response_new ''handler_panic''
             (''The request handler failed. The service logged the failure under request id '' @ ''r-1'' @ ''.''))))"

lemma guard_answers_are_read_back_witness:
  "classify Some demo_read demo_exchange (an_status (shed_response (gl_json_text demo_texts) ''busy'' ''queue full'' 12))
     (an_headers (shed_response (gl_json_text demo_texts) ''busy'' ''queue full'' 12))
     (body_text (shed_response (gl_json_text demo_texts) ''busy'' ''queue full'' 12)) =
   Inl (Shed demo_exchange 503 12 (Some ''queue full''))"
proof -
  have differ: "shed_body ''busy'' ''queue full'' 12 \<noteq> error_response_json e" for e
    by (simp add: shed_body_def error_response_json_def)
  have kinds: "error_response_json (error_response_new ''handler_panic'' a) \<noteq>
      error_response_json (error_response_new ''request_timeout'' b)" for a b
    by (simp add: error_response_json_def error_response_new_def)
  show ?thesis
    by (rule guard_answers_are_read_back [where G = demo_texts and deadline = "320 * SECOND" and rid = "''r-1''", THEN conjunct1])
       (simp_all add: demo_texts_def demo_read_def differ differ [symmetric] kinds del: append.simps)
qed

text \<open>
  What comes back as an answer is the service's own, and all of it is: a success whatever its
  body says, and any other status unless it is a 503, names a wait, is a gateway's 502 or a 504, or
  is the guard's panic; the bytes, the headers and the status are those that arrived.
\<close>

theorem answers_are_the_services_own:
  "classify to_str read_json x status headers body = Inr answer \<longleftrightarrow>
     answer = \<lparr>sr_exchange = x, sr_status = status, sr_headers = headers, sr_body = body\<rparr>
     \<and> (200 \<le> status \<and> status < 300
        \<or> status \<notin> {502, 503, 504}
           \<and> (\<forall>v n. read_json body = Some v \<longrightarrow> json_get ''retry_after_secs'' v \<noteq> Some (JNumber (PosInt n)))
           \<and> (status = 500 \<longrightarrow> (\<forall>v g. read_json body = Some v \<and> error_response_of_json v = Some g \<longrightarrow>
                ed_type (er_error g) \<noteq> ''handler_panic'')))"
proof -
  have wait: "Option.bind (Option.bind r (json_get RETRY_AFTER_SECS_FIELD)) as_u64 = None \<longleftrightarrow>
      (\<forall>v n. r = Some v \<longrightarrow> json_get ''retry_after_secs'' v \<noteq> Some (JNumber (PosInt n)))" for r
    by (cases r; cases "json_get ''retry_after_secs'' (the r)")
       (auto simp: RETRY_AFTER_SECS_FIELD_def as_u64_def split: json.splits json_number.splits)
  have kind: "unfinished_kind status (Option.bind r error_response_of_json) = None \<longleftrightarrow>
      status \<noteq> 504 \<and> status \<noteq> 502 \<and> (status = 500 \<longrightarrow> (\<forall>v g. r = Some v \<and> error_response_of_json v = Some g \<longrightarrow>
                ed_type (er_error g) \<noteq> ''handler_panic''))" for r
    by (cases r) (auto simp: unfinished_kind_def Let_def HANDLER_PANIC_def)
  show ?thesis
    unfolding classify_Inr wait kind is_success_status_def by blast
qed

lemma answers_are_the_services_own_witness:
  "classify Some (\<lambda>_. None) demo_exchange 404 [] ''gone'' =
     Inr \<lparr>sr_exchange = demo_exchange, sr_status = 404, sr_headers = [], sr_body = ''gone''\<rparr>"
  by (rule answers_are_the_services_own [THEN iffD2]) simp

subsection \<open>What a call promises\<close>


definition demo_url :: "string \<Rightarrow> (string, service_url) result" where
  "demo_url s = Inr \<lparr>su_scheme = ''https'', su_host = Some ''pdf.example'', su_username = [], su_password = None,
     su_query = None, su_fragment = None, su_origin = ''https://pdf.example''\<rparr>"

definition demo_send :: send_libraries where
  "demo_send = \<lparr>sl_build = (\<lambda>b. Inr \<lparr>wr_method = bu_method b, wr_url = bu_url b,
       wr_origin = ''https://pdf.example'', wr_headers = bu_headers b, wr_body = []\<rparr>),
     sl_can_clone = (\<lambda>_. True), sl_header_value = Some, sl_bad_header = [], sl_inject = (\<lambda>h. h),
     sl_to_str = Some, sl_read_json = (\<lambda>_. None)\<rparr>"

definition demo_client :: service_client where
  "demo_client = \<lparr>sc_service = ''pdf'', sc_base_url = ''https://pdf.example'',
     sc_base = \<lparr>su_scheme = ''https'', su_host = Some ''pdf.example'', su_username = [], su_password = None,
       su_query = None, su_fragment = None, su_origin = ''https://pdf.example''\<rparr>,
     sc_tokens = Some (token_source_new ''https://pdf.example'')\<rparr>"

definition demo_closed :: request_error where
  "demo_closed = \<lparr>re_text = ''error sending request'', re_timeout = False, re_connect = False,
     re_causes = [\<lparr>ca_text = ''connection closed'', ca_reqwest = False, ca_hyper = Some (True, False), ca_io = None\<rparr>]\<rparr>"

definition demo_attempt :: "met \<Rightarrow> attempt_draws" where
  "demo_attempt x = \<lparr>at_now = 3, at_metadata = Reply 200 [] (Inr ''a.b.c''), at_later = 4, at_stored = 4,
     at_random = 7, at_met = x, at_elapsed = 2\<rparr>"

lemma demo_not_loopback: "\<not> is_loopback_host ''pdf.example''"
  by code_simp

lemma demo_client_new:
  "service_client_new demo_url ''pdf'' ''https://pdf.example/'' (Some ''https://pdf.example'') = Inr demo_client"
proof -
  note demo_not_loopback
  then show ?thesis
    by (simp add: service_client_new_def demo_url_def demo_client_def trim_end_slashes_def)
qed

lemma demo_token: "source_token 3 (Reply 200 [] (Inr ''a.b.c'')) 4 4 (token_source_new ''https://pdf.example'') =
   (Inr ''a.b.c'', \<lparr>ts_audience = ''https://pdf.example'', ts_cached = Some \<lparr>ct_token = ''a.b.c'', ct_fetched_at = 4\<rparr>\<rparr>)"
  by (simp add: source_token_def fresh_token_def token_source_new_def fetch_token_def keep_token_def)


lemma mint_differs:
  assumes "mint random m = (a, m1)" and "mint random' m1 = (b, m2)"
  shows "a \<noteq> b"
proof
  assume "a = b"
  with assms have "hex_text (unat (mt_sequence m)) = hex_text (unat (mt_sequence m + 1))"
    by (auto simp: mint_def Let_def)
  with hex_sequence_inj [of "mt_sequence m" 0 1] show False by simp
qed

lemma classify_not_closed: "\<not> closed_early (classify to_str read_json x status headers body)"
  by (auto simp: classify_def Let_def split: option.splits)

lemma closed_early_met:
  assumes "closed_early (answer_of_met L x m)"
  shows "\<exists>e. m = NoResponse e \<and> \<not> re_timeout e \<and> \<not> re_connect e \<and> closed_before_response (re_causes e)"
proof (cases m)
  case (NoResponse e)
  with assms show ?thesis by (simp add: answer_of_met_def transport_failure_of_def split: if_splits)
next
  case (Responded status headers body)
  have "\<not> closed_early (result_bind (classify (sl_to_str L) (sl_read_json L) x status headers [])
      (\<lambda>_. Inl (BodyError x status why)))" for why
    using classify_not_closed [of "sl_to_str L" "sl_read_json L" x status headers "[]"]
    by (cases "classify (sl_to_str L) (sl_read_json L) x status headers []") simp_all
  with assms Responded classify_not_closed show ?thesis
    by (cases body) (auto simp: answer_of_met_def)
qed

lemma attempt_closed:
  assumes "closed_early (ad_result (attempt L c op b resent d m))" and "ad_sent (attempt L c op b resent d m) = Some w"
  shows "\<exists>e. at_met d = NoResponse e \<and> \<not> re_timeout e \<and> \<not> re_connect e \<and> closed_before_response (re_causes e)"
  using assms(2) by (rule attempt_sent) (use assms(1) closed_early_met in auto)

lemma send_refused: "sq_refused r \<noteq> None \<Longrightarrow> se_wire (send L c r d1 d2 m) = []"
  by (auto simp: send_def split: prod.splits)

lemma request_refused: "p = [] \<or> hd p \<noteq> CHR ''/'' \<Longrightarrow> sq_refused (request_of c op verb p again) \<noteq> None"
  by (cases p) (simp_all add: request_of_def)

lemma send_wire:
  assumes "sq_refused r = None"
    and "first = attempt L c (sq_operation r) (sq_builder r) False d1 m"
  shows "se_wire (send L c r d1 d2 m) =
    (case ad_sent first of Some w \<Rightarrow> [w] | None \<Rightarrow> [])
    @ (if sq_resend_after_close r \<and> sl_can_clone L (sq_builder r) \<and> closed_early (ad_result first)
       then (case ad_sent (attempt L (ad_client first) (sq_operation r) (sq_builder r) True d2 (ad_minter first)) of
               Some w \<Rightarrow> [w] | None \<Rightarrow> [])
       else [])"
  using assms by (simp add: send_def Let_def)

text \<open>
  C21: Only a read whose connection closed unanswered is sent again, and once: a call puts at most
  two requests on the wire, a post or a delete at most one, a path that could name another host
  none at all; a second is sent only when the first met neither a response, nor a timeout, nor an
  unreachable service.
\<close>

theorem only_unanswered_reads_are_resent:
  "length (se_wire (send L c r d1 d2 m)) \<le> 2
   \<and> (length (se_wire (send L c r d1 d2 m)) = 2 \<longrightarrow>
        sq_resend_after_close r
        \<and> (\<exists>e. at_met d1 = NoResponse e \<and> \<not> re_timeout e \<and> \<not> re_connect e \<and> closed_before_response (re_causes e)))
   \<and> length (se_wire (send L c (service_post_json c op p body) d1 d2 m)) \<le> 1
   \<and> length (se_wire (send L c (service_delete c op p) d1 d2 m)) \<le> 1
   \<and> (p = [] \<or> hd p \<noteq> CHR ''/'' \<longrightarrow> se_wire (send L c (service_get c op p) d1 d2 m) = [])"
proof (intro conjI impI)
  have wire: "length (se_wire (send L c r d1 d2 m)) \<le> 2
     \<and> (length (se_wire (send L c r d1 d2 m)) = 2 \<longrightarrow> sq_resend_after_close r
        \<and> (\<exists>e. at_met d1 = NoResponse e \<and> \<not> re_timeout e \<and> \<not> re_connect e \<and> closed_before_response (re_causes e)))"
    for r
  proof (cases "sq_refused r")
    case None
    show ?thesis
      unfolding send_wire [OF None refl]
      using attempt_closed [of L c "sq_operation r" "sq_builder r" False d1 m]
      by (auto split: option.splits if_splits)
  qed (simp add: send_refused)
  show "length (se_wire (send L c r d1 d2 m)) \<le> 2" using wire by blast
  show "sq_resend_after_close r" if "length (se_wire (send L c r d1 d2 m)) = 2" using wire that by blast
  show "\<exists>e. at_met d1 = NoResponse e \<and> \<not> re_timeout e \<and> \<not> re_connect e \<and> closed_before_response (re_causes e)"
    if "length (se_wire (send L c r d1 d2 m)) = 2" using wire that by blast
  have once: "length (se_wire (send L c q d1 d2 m)) \<le> 1" if "\<not> sq_resend_after_close q" for q
    using wire [of q] that by (cases "length (se_wire (send L c q d1 d2 m)) = 2") auto
  show "length (se_wire (send L c (service_post_json c op p body) d1 d2 m)) \<le> 1"
    by (rule once) (simp add: service_post_json_def request_of_def Let_def)
  show "length (se_wire (send L c (service_delete c op p) d1 d2 m)) \<le> 1"
    by (rule once) (simp add: service_delete_def request_of_def)
  show "se_wire (send L c (service_get c op p) d1 d2 m) = []" if "p = [] \<or> hd p \<noteq> CHR ''/''"
    unfolding service_get_def by (rule send_refused [OF request_refused [OF that]])
qed

lemma demo_attempted:
  assumes "authorization Some c op (demo_attempt x) = (Inr auth, c')"
    and "su_origin (sc_base c) = ''https://pdf.example''"
  shows "\<exists>w. ad_sent (attempt demo_send c op b again (demo_attempt x) m) = Some w"
    and "ad_client (attempt demo_send c op b again (demo_attempt x) m) = c'"
    and "\<exists>rid. ad_result (attempt demo_send c op b again (demo_attempt x) m) =
           answer_of_met demo_send (exchange_of c op rid 2 again) x"
proof -
  obtain rid m1 where "mint (at_random (demo_attempt x)) m = (rid, m1)" by (cases "mint (at_random (demo_attempt x)) m")
  then show "\<exists>w. ad_sent (attempt demo_send c op b again (demo_attempt x) m) = Some w"
    "ad_client (attempt demo_send c op b again (demo_attempt x) m) = c'"
    "\<exists>rid. ad_result (attempt demo_send c op b again (demo_attempt x) m) =
           answer_of_met demo_send (exchange_of c op rid 2 again) x"
    using assms by (auto simp: attempt_def demo_send_def Let_def demo_attempt_def)
qed

definition demo_client_cached :: service_client where
  "demo_client_cached = demo_client\<lparr>sc_tokens := Some \<lparr>ts_audience = ''https://pdf.example'',
     ts_cached = Some \<lparr>ct_token = ''a.b.c'', ct_fetched_at = 4\<rparr>\<rparr>\<rparr>"

lemma demo_authorized:
  "authorization Some demo_client op (demo_attempt x) = (Inr (Some ''Bearer a.b.c''), demo_client_cached)"
  "authorization Some demo_client_cached op (demo_attempt x) = (Inr (Some ''Bearer a.b.c''), demo_client_cached)"
  "su_origin (sc_base demo_client) = ''https://pdf.example''"
  "su_origin (sc_base demo_client_cached) = ''https://pdf.example''"
proof -
  show "authorization Some demo_client op (demo_attempt x) = (Inr (Some ''Bearer a.b.c''), demo_client_cached)"
    by (simp add: authorization_def demo_client_cached_def demo_client_def demo_attempt_def demo_token)
  show "authorization Some demo_client_cached op (demo_attempt x) = (Inr (Some ''Bearer a.b.c''), demo_client_cached)"
    by (simp add: authorization_def demo_client_cached_def demo_client_def demo_attempt_def
        source_token_def fresh_token_def REFRESH_AFTER_def SECOND_def)
qed (simp_all add: demo_client_cached_def demo_client_def)

lemma only_unanswered_reads_are_resent_witness:
  "length (se_wire (send demo_send demo_client (service_get demo_client ''render'' ''/x'')
      (demo_attempt (NoResponse demo_closed)) (demo_attempt (NoResponse demo_closed)) minter_new)) = 2
   \<and> closed_before_response (re_causes demo_closed)"
proof -
  define r where "r = service_get demo_client ''render'' ''/x''"
  define x where "x = NoResponse demo_closed"
  define first where "first = attempt demo_send demo_client (sq_operation r) (sq_builder r) False (demo_attempt x) minter_new"
  have open_: "sq_refused r = None" "sq_resend_after_close r" "sl_can_clone demo_send (sq_builder r)"
    by (simp_all add: r_def service_get_def request_of_def demo_send_def)
  note one = demo_attempted [where op = "sq_operation r" and x = x and b = "sq_builder r" and again = False and m = minter_new,
      OF demo_authorized(1) demo_authorized(3)]
  have "closed_early (answer_of_met demo_send e x)" for e
    by (simp add: x_def answer_of_met_def transport_failure_of_def demo_closed_def)
  then have early: "closed_early (ad_result first)" using one(3) by (auto simp: first_def)
  obtain w1 where w1: "ad_sent first = Some w1" using one(1) by (auto simp: first_def)
  obtain w2 where w2: "ad_sent (attempt demo_send demo_client_cached (sq_operation r) (sq_builder r) True
      (demo_attempt x) (ad_minter first)) = Some w2"
    using demo_attempted(1) [where op = "sq_operation r" and x = x and b = "sq_builder r" and again = True
      and m = "ad_minter first", OF demo_authorized(2) demo_authorized(4)]
    by blast
  have "length (se_wire (send demo_send demo_client r (demo_attempt x) (demo_attempt x) minter_new)) = 2"
    unfolding send_wire [OF open_(1) first_def] using open_ early w1 w2 one(2) by (simp flip: first_def)
  with only_unanswered_reads_are_resent [of demo_send demo_client r "demo_attempt x" "demo_attempt x" minter_new]
  show ?thesis by (auto simp: demo_attempt_def x_def r_def)
qed

end
