(* ===== verification/Secrets.thy ===== *)
theory Secrets
  imports Http_Gates Machine "HOL-Library.Sublist"
begin

declare map_of_eq_Some_iff [simp del] Some_eq_map_of_iff [simp del]

text \<open>
  Redaction (\<^verbatim>\<open>src/secrets.rs\<close>): the registry of the process's secrets, the masking of their
  values and of credentials by shape, and the writer that masks what is logged.

  The registry is the list of its values, longest first; text is its bytes. The environment is the
  list of its variables that are text.
\<close>

definition MASK :: string where "MASK = ''[REDACTED]''"
definition MIN_SECRET_LEN :: nat where "MIN_SECRET_LEN = 8"

definition SECRET_NAME_SUFFIXES :: "string list" where
  "SECRET_NAME_SUFFIXES =
     [''_TOKEN'', ''_SECRET'', ''_PASSWORD'', ''_API_KEY'', ''_KEY'', ''_PAT'', ''_CREDENTIALS'', ''_DSN'']"

definition NON_SECRET_QUALIFIERS :: "string list" where
  "NON_SECRET_QUALIFIERS =
     [''COUNT'', ''DAYS'', ''DIR'', ''ENABLED'', ''EXPIRY'', ''FILE'', ''HEADER'', ''HOURS'', ''ID'', ''LEN'', ''LENGTH'',
      ''LIFETIME'', ''LIMIT'', ''MAX'', ''MIN'', ''MINUTES'', ''MS'', ''NAME'', ''PATH'', ''PREFIX'', ''SECS'',
      ''SECONDS'', ''SIZE'', ''STEP'', ''TIMEOUT'', ''TTL'', ''URL'']"

subsection \<open>The registry\<close>

text \<open>\<^verbatim>\<open>sort_by_key(Reverse(len))\<close> is stable, as \<open>sort_key\<close> is.\<close>

definition register_secret :: "string \<Rightarrow> string list \<Rightarrow> string list" where
  "register_secret v secrets =
     (let t = trim v in
      if length t < MIN_SECRET_LEN then secrets
      else if t \<in> set secrets then secrets
      else sort_key (\<lambda>known. - int (length known)) (secrets @ [t]))"

definition to_ascii_upper :: "char \<Rightarrow> char" where
  "to_ascii_upper c = (if 97 \<le> byte c \<and> byte c \<le> 122 then char_of (byte c - 32) else c)"

text \<open>Whether a window of the segments is the word, with no qualifier after it.\<close>

fun word_at :: "string list \<Rightarrow> string list \<Rightarrow> bool" where
  "word_at word [] = False"
| "word_at word (s # segments) =
     ((take (length word) (s # segments) = word
       \<and> \<not> list_ex (\<lambda>later. later \<in> set NON_SECRET_QUALIFIERS) (drop (length word) (s # segments)))
      \<or> word_at word segments)"

definition is_secret_name :: "string \<Rightarrow> bool" where
  "is_secret_name name \<longleftrightarrow>
     (let segments = split_on (CHR ''_'') (map to_ascii_upper name) in
      list_ex (\<lambda>suffix. word_at (split_on (CHR ''_'') (dropWhile (\<lambda>c. c = CHR ''_'') suffix)) segments)
        SECRET_NAME_SUFFIXES)"

definition register_env :: "(string \<times> string) list \<Rightarrow> string list \<Rightarrow> nat \<times> string list" where
  "register_env vars secrets =
     fold (\<lambda>(name, v) (matched, known).
             if is_secret_name name then (matched + 1, register_secret v known) else (matched, known))
       vars (0, secrets)"

subsection \<open>Masking\<close>

text \<open>\<^verbatim>\<open>str::replace\<close> of a pattern that is not empty.\<close>

function replace_text :: "string \<Rightarrow> string \<Rightarrow> string \<Rightarrow> string" where
  "replace_text pattern new s =
     (if s = [] then []
      else if pattern \<noteq> [] \<and> take (length pattern) s = pattern
      then new @ replace_text pattern new (drop (length pattern) s)
      else hd s # replace_text pattern new (tl s))"
  by pat_completeness auto
termination
  by (relation "measure (\<lambda>(pattern, new, s). length s)") auto

declare replace_text.simps [simp del]

definition BEARER :: string where "BEARER = ''Bearer ''"
definition JWT_HEAD :: string where "JWT_HEAD = ''eyJ''"
definition SCHEME_END :: string where "SCHEME_END = ''://''"

definition is_base64url_byte :: "char \<Rightarrow> bool" where
  "is_base64url_byte b \<longleftrightarrow> is_ascii_alphanumeric b \<or> b = CHR ''-'' \<or> b = CHR ''_''"

definition is_credential_byte :: "char \<Rightarrow> bool" where
  "is_credential_byte b \<longleftrightarrow> is_base64url_byte b \<or> b \<in> {CHR ''.'', CHR ''~'', CHR ''+'', CHR ''/'', CHR ''=''}"

text \<open>\<^verbatim>\<open>u8::is_ascii_whitespace\<close>: space, tab, line feed, form feed, carriage return.\<close>

definition is_ascii_whitespace :: "char \<Rightarrow> bool" where
  "is_ascii_whitespace b \<longleftrightarrow> byte b \<in> {32, 9, 10, 12, 13}"

definition span :: "(char \<Rightarrow> bool) \<Rightarrow> string \<Rightarrow> nat" where
  "span accept bytes = length (takeWhile accept bytes)"

definition byte_at :: "string \<Rightarrow> nat \<Rightarrow> char option" where
  "byte_at bytes n = (if n < length bytes then Some (bytes ! n) else None)"

definition jwt_len :: "string \<Rightarrow> nat option" where
  "jwt_len bytes =
     (let header = span is_base64url_byte bytes in
      if header < 10 \<or> byte_at bytes header \<noteq> Some (CHR ''.'') then None
      else
        (let payload_start = header + 1;
             payload = span is_base64url_byte (drop payload_start bytes);
             signature_dot = payload_start + payload in
         if payload = 0 \<or> byte_at bytes signature_dot \<noteq> Some (CHR ''.'') then None
         else
           (let signature = span is_base64url_byte (drop (signature_dot + 1) bytes) in
            if signature > 0 then Some (signature_dot + 1 + signature) else None)))"

definition userinfo_password :: "string \<Rightarrow> (nat \<times> nat) option" where
  "userinfo_password authority =
     (let user = span (\<lambda>b. b \<notin> {CHR '':'', CHR ''@'', CHR ''/''} \<and> \<not> is_ascii_whitespace b) authority in
      if byte_at authority user \<noteq> Some (CHR '':'') then None
      else
        (let start = user + 1;
             stop = start + span (\<lambda>b. b \<notin> {CHR ''@'', CHR ''/''} \<and> \<not> is_ascii_whitespace b) (drop start authority) in
         if stop > start \<and> byte_at authority stop = Some (CHR ''@'') then Some (start, stop) else None))"

definition starts_with :: "string \<Rightarrow> string \<Rightarrow> bool" where
  "starts_with p s \<longleftrightarrow> take (length p) s = p"

text \<open>The part of \<open>rest\<close> to mask at its start; \<open>before\<close> is the byte before it.\<close>

definition masked_end :: "char option \<Rightarrow> string \<Rightarrow> (nat \<times> nat) option" where
  "masked_end before rest =
     (if starts_with BEARER rest
      then (let start = length BEARER; stop = start + span is_credential_byte (drop start rest) in
            if stop > start then Some (start, stop) else None)
      else if starts_with JWT_HEAD rest \<and> (case before of None \<Rightarrow> True | Some b \<Rightarrow> \<not> is_base64url_byte b)
      then map_option (\<lambda>len. (0, len)) (jwt_len rest)
      else if starts_with SCHEME_END rest
      then map_option (\<lambda>(start, stop). (length SCHEME_END + start, length SCHEME_END + stop))
             (userinfo_password (drop (length SCHEME_END) rest))
      else None)"

definition char_len :: "string \<Rightarrow> nat" where
  "char_len rest = (case utf8_step rest of Some (_, bytes) \<Rightarrow> length bytes | None \<Rightarrow> 1)"

function mask_scan :: "char option \<Rightarrow> string \<Rightarrow> string" where
  "mask_scan before rest =
     (if rest = [] then []
      else
        (case masked_end before rest of
           Some (start, stop) \<Rightarrow>
             take start rest @ MASK @ mask_scan (Some (rest ! (stop - 1))) (drop (max 1 stop) rest)
         | None \<Rightarrow>
             take (char_len rest) rest
             @ mask_scan (Some (rest ! (char_len rest - 1))) (drop (max 1 (char_len rest)) rest)))"
  by pat_completeness auto
termination
  by (relation "measure (\<lambda>(before, rest). length rest)") auto

declare mask_scan.simps [simp del]

definition mask_token_shapes :: "string \<Rightarrow> string" where
  "mask_token_shapes s =
     (if \<not> contains_text s BEARER \<and> \<not> contains_text s JWT_HEAD \<and> \<not> contains_text s SCHEME_END then s
      else mask_scan None s)"

definition redact :: "string list \<Rightarrow> string \<Rightarrow> string" where
  "redact secrets s =
     mask_token_shapes (fold (\<lambda>secret out. if contains_text out secret then replace_text secret MASK out else out) secrets s)"

text \<open>\<^verbatim>\<open>RedactingWriter::write\<close>: what reaches the inner writer, and the count answered; \<open>lossy\<close> is
  \<^verbatim>\<open>String::from_utf8_lossy\<close>.\<close>

definition redacting_write :: "(string \<Rightarrow> string) \<Rightarrow> string list \<Rightarrow> string \<Rightarrow> string \<times> nat" where
  "redacting_write lossy secrets buf = (redact secrets (lossy buf), length buf)"

subsection \<open>What masking leaves\<close>

text \<open>A masked text is the text with some stretches of it replaced by the mask.\<close>

inductive masked :: "string \<Rightarrow> string \<Rightarrow> bool" where
  masked_nil: "masked [] []"
| masked_keep: "masked t u \<Longrightarrow> masked (c # t) (c # u)"
| masked_mask: "masked t u \<Longrightarrow> masked (seg @ t) (MASK @ u)"

inductive_cases masked_nil_cases: "masked [] u"

text \<open>The texts masking cannot make up: no bracket of the mask's, and not its inside.\<close>

definition plain_secret :: "string \<Rightarrow> bool" where
  "plain_secret s \<longleftrightarrow> 8 \<le> length s \<and> CHR ''['' \<notin> set s \<and> CHR '']'' \<notin> set s \<and> s \<noteq> ''REDACTED''"

lemma masked_append: "masked t u \<Longrightarrow> masked (p @ t) (p @ u)"
  by (induction p) (auto intro: masked_keep)

lemma masked_refl: "masked t t"
  by (induction t) (auto intro: masked_nil masked_keep)

lemma mask_inside:
  assumes "sublist s MASK" and "CHR ''['' \<notin> set s" and "CHR '']'' \<notin> set s"
  shows "sublist s ''REDACTED''"
proof -
  have m: "MASK = ''['' @ (''REDACTED'' @ '']'')" by (simp add: MASK_def)
  have left: "sublist s (''REDACTED'' @ '']'')"
  proof -
    from assms(1) consider "sublist s ''[''" | "sublist s (''REDACTED'' @ '']'')"
      | (cross) a b where "s = a @ b" "suffix a ''[''" "prefix b (''REDACTED'' @ '']'')"
      unfolding m sublist_append by blast
    then show ?thesis
    proof cases
      case 1
      then have "s = [] \<or> s = ''[''" by (auto simp: sublist_Cons_right prefix_Cons)
      with assms(2) show ?thesis by auto
    next
      case cross
      then have "a = []" using assms(2) by (cases a) (auto simp: suffix_Cons)
      with cross show ?thesis by (simp add: prefix_imp_sublist)
    qed
  qed
  then consider "sublist s ''REDACTED''" | "sublist s '']''"
    | (cross) a b where "s = a @ b" "suffix a ''REDACTED''" "prefix b '']''"
    unfolding sublist_append by blast
  then show ?thesis
  proof cases
    case 2
    then have "s = [] \<or> s = '']''" by (auto simp: sublist_Cons_right prefix_Cons)
    with assms(3) show ?thesis by auto
  next
    case cross
    then have "b = []" using assms(3) by (cases b) auto
    with cross show ?thesis by (simp add: suffix_imp_sublist)
  qed
qed

lemma not_in_mask: "plain_secret s \<Longrightarrow> \<not> sublist s MASK"
proof
  assume s: "plain_secret s" and "sublist s MASK"
  then have "sublist s ''REDACTED''" by (auto simp: plain_secret_def intro: mask_inside)
  then obtain a b where ab: "''REDACTED'' = a @ s @ b" by (auto simp: sublist_def)
  have "length (a @ s @ b) = 8" unfolding ab [symmetric] by simp
  moreover have "8 \<le> length s" using s by (simp add: plain_secret_def)
  ultimately have "length a = 0" and "length b = 0" unfolding length_append by linarith+
  then have "a = [] \<and> b = []" by simp
  with ab s show False by (simp add: plain_secret_def)
qed

lemma mask_split:
  assumes s: "plain_secret s" and "sublist s (p @ MASK @ u)"
  shows "sublist s p \<or> sublist s u"
proof -
  have ne: "s \<noteq> []" and brackets: "CHR ''['' \<notin> set s" "CHR '']'' \<notin> set s"
    using s by (auto simp: plain_secret_def)
  have right: "sublist s u" if "sublist s (MASK @ u)"
    using that not_in_mask [OF s] unfolding sublist_append
  proof (elim disjE exE conjE)
    fix a b
    assume ab: "s = a @ b" "suffix a MASK" "prefix b u"
    have "a = []"
    proof (rule ccontr)
      assume a: "a \<noteq> []"
      with ab(2) have "last a = CHR '']''" by (auto simp: suffix_def MASK_def) (metis last.simps last_appendR list.discI)
      with a ab(1) brackets(2) show False by (metis Un_iff last_in_set set_append)
    qed
    with ab show ?thesis by (simp add: prefix_imp_sublist)
  qed blast
  from assms(2) consider "sublist s p" | "sublist s (MASK @ u)"
    | (cross) a b where "s = a @ b" "suffix a p" "prefix b (MASK @ u)"
    unfolding sublist_append by blast
  then show ?thesis
  proof cases
    case cross
    have "b = []"
    proof (rule ccontr)
      assume b: "b \<noteq> []"
      with cross(3) have "hd b = CHR ''[''" by (cases b) (auto simp: MASK_def)
      with b cross(1) brackets(1) show False by (metis Un_iff hd_in_set set_append)
    qed
    with cross show ?thesis by (simp add: suffix_imp_sublist)
  qed (use right in auto)
qed

lemma masked_prefix:
  "masked t u \<Longrightarrow> CHR ''['' \<notin> set s \<Longrightarrow> prefix s u \<Longrightarrow> prefix s t"
proof (induction arbitrary: s rule: masked.induct)
  case (masked_keep t u c)
  then show ?case by (cases s) auto
next
  case (masked_mask t u seg)
  then show ?case by (cases s) (auto simp: MASK_def)
qed simp

lemma masked_sublist:
  assumes "masked t u" and "plain_secret s" and "sublist s u"
  shows "sublist s t"
  using assms
proof (induction rule: masked.induct)
  case (masked_keep t u c)
  from masked_keep.prems(2) consider "prefix s (c # u)" | "sublist s u"
    by (auto simp: sublist_Cons_right)
  then show ?case
  proof cases
    case 1
    with masked_prefix [OF masked.masked_keep [OF masked_keep.hyps]] masked_keep.prems(1)
    show ?thesis by (auto simp: plain_secret_def intro: prefix_imp_sublist)
  next
    case 2
    with masked_keep show ?thesis by (auto simp: sublist_Cons_right)
  qed
next
  case (masked_mask t u seg)
  from mask_split [OF masked_mask.prems(1), of "[]" u] masked_mask.prems have "sublist s u"
    by (auto simp: plain_secret_def)
  with masked_mask show ?case by (simp add: sublist_append)
qed simp

lemma replace_hit:
  "s \<noteq> [] \<Longrightarrow> take (length s) t = s \<Longrightarrow>
     replace_text s new t = new @ replace_text s new (drop (length s) t)"
  by (subst replace_text.simps) auto

lemma replace_miss:
  "\<not> (s \<noteq> [] \<and> take (length s) (c # cs) = s) \<Longrightarrow> replace_text s new (c # cs) = c # replace_text s new cs"
  by (subst replace_text.simps) auto

lemma masked_replace: "masked t (replace_text s MASK t)"
proof (induction t rule: length_induct)
  case (1 t)
  show ?case
  proof (cases t)
    case Nil
    then show ?thesis by (simp add: replace_text.simps masked_nil)
  next
    case (Cons c cs)
    show ?thesis
    proof (cases "s \<noteq> [] \<and> take (length s) t = s")
      case True
      then have "length (drop (length s) t) < length t" using Cons by (cases s) auto
      with 1 have "masked (drop (length s) t) (replace_text s MASK (drop (length s) t))" by blast
      from masked_mask [OF this, of "take (length s) t"] have
        "masked t (MASK @ replace_text s MASK (drop (length s) t))" by (simp only: append_take_drop_id)
      with True show ?thesis by (metis replace_hit)
    next
      case False
      have "masked cs (replace_text s MASK cs)" using 1 Cons by simp
      with False show ?thesis unfolding Cons by (simp add: replace_miss masked_keep)
    qed
  qed
qed

lemma replace_text_gone:
  assumes s: "plain_secret s"
  shows "\<not> sublist s (replace_text s MASK t)"
proof (induction t rule: length_induct)
  case (1 t)
  have ne: "s \<noteq> []" using s by (auto simp: plain_secret_def)
  show ?case
  proof (cases t)
    case Nil
    with ne show ?thesis by (simp add: replace_text.simps)
  next
    case (Cons c cs)
    show ?thesis
    proof (cases "take (length s) t = s")
      case True
      then have "length (drop (length s) t) < length t" using Cons ne by (cases s) auto
      with 1 have "\<not> sublist s (replace_text s MASK (drop (length s) t))" by blast
      with mask_split [OF s, of "[]"] ne show ?thesis
        unfolding replace_hit [OF ne True] by auto
    next
      case False
      have out: "replace_text s MASK t = c # replace_text s MASK cs"
        using False unfolding Cons by (simp add: replace_miss)
      have "\<not> prefix s (replace_text s MASK t)"
      proof
        assume "prefix s (replace_text s MASK t)"
        with masked_prefix [OF masked_replace] s have "prefix s t" by (auto simp: plain_secret_def)
        with False show False by (auto simp: prefix_def)
      qed
      moreover have "\<not> sublist s (replace_text s MASK cs)" using 1 Cons by simp
      ultimately show ?thesis unfolding out by (simp add: sublist_Cons_right)
    qed
  qed
qed

lemma masked_end_order: "masked_end before rest = Some (start, stop) \<Longrightarrow> start < stop"
  by (auto simp: masked_end_def jwt_len_def userinfo_password_def Let_def split: if_splits)

lemma char_len_pos: "rest \<noteq> [] \<Longrightarrow> 1 \<le> char_len rest \<and> char_len rest \<le> length rest"
  by (cases rest) (auto simp: char_len_def dest: utf8_step_bytes split: option.splits)

lemma masked_scan: "masked rest (mask_scan before rest)"
proof (induction before rest rule: mask_scan.induct)
  case (1 before rest)
  show ?case
  proof (cases "rest = []")
    case True
    then show ?thesis by (simp add: mask_scan.simps masked_nil)
  next
    case False
    show ?thesis
    proof (cases "masked_end before rest")
      case None
      have "masked (drop (char_len rest) rest) (mask_scan (Some (rest ! (char_len rest - 1))) (drop (char_len rest) rest))"
        using 1(1) [OF False None] char_len_pos [OF False] by (simp add: max_absorb2)
      from masked_append [OF this, of "take (char_len rest) rest"] None False char_len_pos [OF False]
      show ?thesis by (simp add: mask_scan.simps [of before rest] max_absorb2)
    next
      case (Some p)
      obtain start stop where p: "p = (start, stop)" by (cases p)
      have order: "start < stop" using masked_end_order Some p by simp
      have parts: "rest = take start rest @ drop start (take stop rest) @ drop stop rest"
        using order by (metis append_assoc append_take_drop_id drop_take less_imp_le_nat take_add le_add_diff_inverse)
      have "masked (drop stop rest) (mask_scan (Some (rest ! (stop - 1))) (drop stop rest))"
        using 1(2) [OF False Some p [symmetric]] order by (simp add: max_absorb2)
      from masked_append [OF masked_mask [OF this, of "drop start (take stop rest)"], of "take start rest"] parts
      show ?thesis using Some p False order by (simp add: mask_scan.simps [of before rest] max_absorb2)
    qed
  qed
qed

lemma masked_shapes: "masked t (mask_token_shapes t)"
  by (simp add: mask_token_shapes_def masked_refl masked_scan)

definition mask_known :: "string list \<Rightarrow> string \<Rightarrow> string" where
  "mask_known secrets t =
     fold (\<lambda>secret out. if contains_text out secret then replace_text secret MASK out else out) secrets t"

lemma contains_sublist: "contains_text t s \<longleftrightarrow> sublist s t"
  by (simp add: contains_text_iff sublist_def)

lemma mask_known_gone:
  assumes "plain_secret s"
  shows "\<not> sublist s t \<Longrightarrow> \<not> sublist s (mask_known secrets t)"
    and "s \<in> set secrets \<Longrightarrow> \<not> sublist s (mask_known secrets t)"
proof -
  have keep: "\<not> sublist s t \<Longrightarrow> \<not> sublist s (mask_known ss t)" for ss t
    by (induction ss arbitrary: t)
      (auto simp: mask_known_def dest: masked_sublist [OF masked_replace assms])
  then show "\<not> sublist s t \<Longrightarrow> \<not> sublist s (mask_known secrets t)" .
  show "s \<in> set secrets \<Longrightarrow> \<not> sublist s (mask_known secrets t)"
  proof (induction secrets arbitrary: t)
    case (Cons a ss)
    have step: "mask_known (a # ss) t = mask_known ss (if contains_text t a then replace_text a MASK t else t)"
      by (simp add: mask_known_def)
    show ?case
    proof (cases "a = s")
      case True
      have "\<not> sublist s (if contains_text t s then replace_text s MASK t else t)"
        using replace_text_gone [OF assms] by (simp add: contains_sublist)
      with True keep show ?thesis unfolding step by metis
    next
      case False
      with Cons show ?thesis unfolding step by simp
    qed
  qed simp
qed

subsection \<open>What redaction promises\<close>

lemma redact_eq: "redact secrets t = mask_token_shapes (mask_known secrets t)"
  by (simp add: redact_def mask_known_def)

text \<open>The registry, as every run of registrations leaves it.\<close>

definition registry_inv :: "string list \<Rightarrow> bool" where
  "registry_inv secrets \<longleftrightarrow>
     distinct secrets \<and> (\<forall>s \<in> set secrets. 8 \<le> length s) \<and> sorted_wrt (\<lambda>a b. length b \<le> length a) secrets"

lemma set_register: "set (register_secret v secrets) =
    (if length (trim v) < 8 then set secrets else insert (trim v) (set secrets))"
  by (auto simp: register_secret_def Let_def MIN_SECRET_LEN_def)

interpretation registry: machine "\<lambda>secrets v. register_secret v secrets" registry_inv
proof
  fix secrets and v :: string
  assume inv: "registry_inv secrets"
  have sorted: "sorted_wrt (\<lambda>a b. length b \<le> length a) (sort_key (\<lambda>known. - int (length known)) xs)" for xs :: "string list"
    using sorted_sort_key [of "\<lambda>known. - int (length known)" xs] by (simp add: sorted_wrt_map)
  show "registry_inv (register_secret v secrets)"
    using inv sorted by (auto simp: registry_inv_def register_secret_def Let_def MIN_SECRET_LEN_def distinct_sort)
qed

lemma registered_stays:
  "s \<in> set secrets \<Longrightarrow> s \<in> set (run (\<lambda>secrets v. register_secret v secrets) secrets vs)"
  by (induction vs arbitrary: secrets) (auto simp: set_register)

lemma registered_in:
  "v \<in> set vs \<Longrightarrow> 8 \<le> length (trim v) \<Longrightarrow>
     trim v \<in> set (run (\<lambda>secrets v. register_secret v secrets) secrets vs)"
proof (induction vs arbitrary: secrets)
  case (Cons a vs)
  show ?case
  proof (cases "v = a")
    case True
    with Cons.prems show ?thesis by (auto simp: set_register intro: registered_stays)
  next
    case False
    with Cons show ?thesis by simp
  qed
qed simp

text \<open>
  C22: No registered secret leaves the process: whatever was registered, in whatever order and
  overlapping however it does, and wherever it stands in a text, the redacted text does not contain
  it (unless the secret is itself made of the mask's own brackets or is \<^verbatim>\<open>REDACTED\<close>).
\<close>

theorem registered_secrets_are_masked:
  assumes "v \<in> set vs" and "8 \<le> length (trim v)"
    and "CHR ''['' \<notin> set (trim v)" and "CHR '']'' \<notin> set (trim v)" and "trim v \<noteq> ''REDACTED''"
  shows "\<not> contains_text (redact (run (\<lambda>secrets v. register_secret v secrets) [] vs) t) (trim v)"
proof -
  have plain: "plain_secret (trim v)" using assms by (simp add: plain_secret_def)
  have "\<not> sublist (trim v) (mask_known (run (\<lambda>secrets v. register_secret v secrets) [] vs) t)"
    by (rule mask_known_gone(2) [OF plain]) (rule registered_in [OF assms(1,2)])
  then show ?thesis
    using masked_sublist [OF masked_shapes plain] by (auto simp: redact_eq contains_sublist)
qed

lemma registered_secrets_are_masked_witness:
  "\<not> contains_text (redact (run (\<lambda>secrets v. register_secret v secrets) [] [''sk-live-01'', '' sk-live-0123 ''])
       ''bad key sk-live-0123, Bearer abc'') ''sk-live-0123''"
proof -
  have t: "trim '' sk-live-0123 '' = ''sk-live-0123''" by code_simp
  show ?thesis
    using registered_secrets_are_masked [of "'' sk-live-0123 ''" "[''sk-live-01'', '' sk-live-0123 '']"
        "''bad key sk-live-0123, Bearer abc''"] t by simp
qed

subsection \<open>Bearer credentials\<close>

lemma bearer_hit:
  assumes "prefix (BEARER @ [c]) rest" and "is_credential_byte c"
  shows "\<exists>stop. masked_end before rest = Some (7, stop)"
proof -
  obtain ys where rest: "rest = BEARER @ c # ys" using assms(1) by (auto simp: prefix_def)
  have "starts_with BEARER rest" by (simp add: rest starts_with_def)
  moreover have "0 < span is_credential_byte (drop (length BEARER) rest)"
    using assms(2) by (simp add: rest span_def)
  ultimately show ?thesis by (simp add: masked_end_def Let_def BEARER_def)
qed

lemma bearer_plain: "is_credential_byte c \<Longrightarrow> plain_secret (BEARER @ [c])"
  by (auto simp: plain_secret_def BEARER_def is_credential_byte_def is_base64url_byte_def
      is_ascii_alphanumeric_def is_ascii_digit_def)

lemma bearer_head:
  assumes "masked_end before rest = Some (start, stop)" and "is_credential_byte c"
  shows "\<not> sublist (BEARER @ [c]) (take start rest)"
proof
  assume sub: "sublist (BEARER @ [c]) (take start rest)"
  then have long: "8 \<le> start" and space: "CHR '' '' \<in> set (take start rest)"
    using sublist_length_le [OF sub] by (auto simp: BEARER_def dest: set_mono_sublist)
  have "\<not> (starts_with BEARER rest)"
    using assms(1) long by (auto simp: masked_end_def Let_def BEARER_def split: if_splits)
  then have "starts_with SCHEME_END rest" and "start \<noteq> 0"
    using assms(1) long by (auto simp: masked_end_def Let_def split: if_splits)
  moreover have "\<not> (starts_with JWT_HEAD rest)"
    using \<open>starts_with SCHEME_END rest\<close>
    by (cases rest) (auto simp: starts_with_def SCHEME_END_def JWT_HEAD_def)
  moreover have len: "length SCHEME_END = 3" by (simp add: SCHEME_END_def)
  ultimately have "map_option (\<lambda>(start, stop). (3 + start, 3 + stop)) (userinfo_password (drop 3 rest)) =
      Some (start, stop)"
    using assms(1) \<open>\<not> starts_with BEARER rest\<close> by (simp add: masked_end_def)
  then obtain a b where user: "userinfo_password (drop 3 rest) = Some (a, b)" "start = 3 + a"
    by auto
  have scheme: "take 3 rest = ''://''"
    using \<open>starts_with SCHEME_END rest\<close> unfolding starts_with_def len by (simp add: SCHEME_END_def)
  define auth where "auth = drop 3 rest"
  define ok where "ok = (\<lambda>b. b \<notin> {CHR '':'', CHR ''@'', CHR ''/''} \<and> \<not> is_ascii_whitespace b)"
  have a: "a = Suc (span ok auth)" and colon: "byte_at auth (span ok auth) = Some (CHR '':'')"
    using user(1) by (auto simp: userinfo_password_def Let_def ok_def auth_def split: if_splits)
  have "take start rest = take 3 rest @ take a auth" by (simp add: user(2) take_add auth_def)
  moreover have "take a auth = takeWhile ok auth @ '':''"
  proof -
    have "span ok auth < length auth" "auth ! span ok auth = CHR '':''"
      using colon by (auto simp: byte_at_def split: if_splits)
    then have "take a auth = take (span ok auth) auth @ [CHR '':'']" by (simp add: a take_Suc_conv_app_nth)
    then show ?thesis by (simp add: span_def takeWhile_eq_take [symmetric])
  qed
  ultimately have "CHR '' '' \<in> set (takeWhile ok auth)" using space scheme by auto
  then have "ok (CHR '' '')" using set_takeWhileD by fastforce
  moreover have "is_ascii_whitespace (CHR '' '')" by (simp add: is_ascii_whitespace_def)
  ultimately show False by (simp add: ok_def)
qed

lemma char_tail:
  assumes "rest \<noteq> []" and "b \<in> set (drop 1 (take (char_len rest) rest))"
  shows "b \<noteq> CHR ''B''"
proof (cases "utf8_step rest")
  case None
  with assms show ?thesis by (cases rest) (auto simp: char_len_def)
next
  case (Some p)
  obtain cp bs where p: "p = (cp, bs)" by (cases p)
  have "take (char_len rest) rest = bs" using Some p utf8_step_bytes [of rest cp bs] by (simp add: char_len_def)
  with assms(2) have "b \<in> set (drop 1 bs)" by simp
  from utf8_step_cases [OF Some [unfolded p]] this have "is_cont (byte b)" by cases auto
  then show ?thesis by (auto simp: is_cont_def)
qed

lemma scan_no_bearer:
  assumes c: "is_credential_byte c"
  shows "\<not> sublist (BEARER @ [c]) (mask_scan before rest)"
proof (induction before rest rule: mask_scan.induct)
  case (1 before rest)
  show ?case
  proof (cases "rest = []")
    case True
    then show ?thesis by (simp add: mask_scan.simps BEARER_def)
  next
    case False
    have start: "\<not> prefix (BEARER @ [c]) (mask_scan before rest)" if "masked_end before rest = None"
    proof
      assume "prefix (BEARER @ [c]) (mask_scan before rest)"
      with masked_prefix [OF masked_scan] bearer_plain [OF c] have "prefix (BEARER @ [c]) rest"
        unfolding plain_secret_def by blast
      from bearer_hit [OF this c, of before] that show False by simp
    qed
    show ?thesis
    proof (cases "masked_end before rest")
      case None
      define n where "n = char_len rest"
      define r where "r = mask_scan (Some (rest ! (n - 1))) (drop n rest)"
      have n: "1 \<le> n" "n \<le> length rest" using char_len_pos [OF False] by (auto simp: n_def)
      have out: "mask_scan before rest = take n rest @ r"
        using None False n by (simp add: mask_scan.simps [of before rest] max_absorb2 n_def r_def)
      have ih: "\<not> sublist (BEARER @ [c]) r"
        using 1(1) [OF False None] n by (simp add: max_absorb2 n_def r_def)
      obtain x xs where head: "take n rest = x # xs" using n False by (cases "take n rest") auto
      have tail: "b \<in> set xs \<Longrightarrow> b \<noteq> CHR ''B''" for b
        using char_tail [OF False, of b] head by (simp add: n_def)
      have skip: "sublist (BEARER @ [c]) (xs @ r) \<Longrightarrow> sublist (BEARER @ [c]) r"
        using tail by (induction xs) (auto simp: sublist_Cons_right BEARER_def)
      show ?thesis
        using start [OF None] ih skip unfolding out head by (auto simp: sublist_Cons_right)
    next
      case (Some p)
      obtain a b where p: "p = (a, b)" by (cases p)
      define r where "r = mask_scan (Some (rest ! (b - 1))) (drop b rest)"
      have order: "a < b" using masked_end_order Some p by simp
      have out: "mask_scan before rest = take a rest @ MASK @ r"
        using Some p False order by (simp add: mask_scan.simps [of before rest] max_absorb2 r_def)
      have "\<not> sublist (BEARER @ [c]) r"
        using 1(2) [OF False Some p [symmetric]] order by (simp add: max_absorb2 r_def)
      with mask_split [OF bearer_plain [OF c], of "take a rest" r] bearer_head [OF Some [unfolded p] c]
      show ?thesis unfolding out by blast
    qed
  qed
qed

text \<open>
  No bearer credential leaves the process either, registered or not: a redacted text never
  holds \<^verbatim>\<open>Bearer\<close>, a space and a byte a credential can hold.
\<close>

theorem bearer_credentials_are_masked:
  assumes "is_credential_byte c"
  shows "\<not> contains_text (redact secrets t) (''Bearer '' @ [c])"
proof (cases "contains_text (mask_known secrets t) BEARER")
  case True
  then show ?thesis
    using scan_no_bearer [OF assms] by (simp add: redact_eq mask_token_shapes_def contains_sublist BEARER_def)
next
  case False
  have plain: "plain_secret (BEARER @ [c])" by (rule bearer_plain [OF assms])
  show ?thesis
  proof
    assume "contains_text (redact secrets t) (''Bearer '' @ [c])"
    then have "sublist (BEARER @ [c]) (mask_known secrets t)"
      using masked_sublist [OF masked_shapes plain] by (simp add: redact_eq contains_sublist BEARER_def)
    then have "sublist BEARER (mask_known secrets t)"
      by (meson prefixI prefix_imp_sublist sublist_order.order.trans)
    with False show False by (simp add: contains_sublist)
  qed
qed

lemma bearer_credentials_are_masked_witness:
  "\<not> contains_text (redact [''sk-live-0123''] ''GET https://a:b@c Bearer x.y'') ''Bearer x''"
proof -
  have "is_credential_byte (CHR ''x'')" by code_simp
  from bearer_credentials_are_masked [OF this] show ?thesis by simp
qed

end
