(* ===== verification/Notify_Layer.thy ===== *)
theory Notify_Layer
  imports Secrets Rust_Num "HOL-Library.Product_Lexorder" "HOL-Library.List_Lexorder" "HOL-Library.Char_ord"
begin

declare map_of_eq_Some_iff [simp del] Some_eq_map_of_iff [simp del]

text \<open>
  The notify layer (\<^verbatim>\<open>src/notify/\<close>): business events routed to Slack under per-event rules and
  captured to PostHog.

  A host's providers are functions (\<open>route\<close>, \<open>capture_for\<close>, \<open>enrich\<close>, \<open>actions_for\<close>). The sample
  rate is a machine floating-point number, known through the operations of \<open>f32_ops\<close>. A span is the
  fields stashed in it; an event brings its scope, innermost span first. What a call puts on a sink
  is a value, in order. Locks are never poisoned here: no code that holds one panics.
\<close>

definition NOTIFY_TARGET :: string where "NOTIFY_TARGET = ''notify''"
definition EVENT_FIELD :: string where "EVENT_FIELD = ''event''"
definition DEFAULT_FLUSH_TICK :: duration where "DEFAULT_FLUSH_TICK = 5 * SECOND"

subsection \<open>Rules\<close>

record dedup_rule =
  dr_keys :: "string list"
  dr_window :: duration

record batch_rule =
  br_interval :: duration

record 'f routing_rule =
  rr_channel :: string
  rr_enabled :: bool
  rr_dedup :: "dedup_rule option"
  rr_batch :: "batch_rule option"
  rr_sample_rate :: 'f
  rr_enabled_envs :: "string list option"

record 'f f32_ops =
  f_one :: 'f
  f_at_least_one :: "'f \<Rightarrow> bool"
  f_at_most_zero :: "'f \<Rightarrow> bool"
  f_fraction :: "nat \<Rightarrow> 'f"
  f_less :: "'f \<Rightarrow> 'f \<Rightarrow> bool"

definition to_channel :: "'f f32_ops \<Rightarrow> string \<Rightarrow> 'f routing_rule" where
  "to_channel F channel =
     \<lparr>rr_channel = channel, rr_enabled = True, rr_dedup = None, rr_batch = None,
      rr_sample_rate = f_one F, rr_enabled_envs = None\<rparr>"

definition allows_env :: "'f routing_rule \<Rightarrow> string \<Rightarrow> bool" where
  "allows_env r env =
     (case rr_enabled_envs r of None \<Rightarrow> True | Some envs \<Rightarrow> list_ex (\<lambda>allowed. allowed = env) envs)"

type_synonym 'f static_provider = "(string, 'f routing_rule) table"

definition provider_with_rule ::
  "string \<Rightarrow> 'f routing_rule \<Rightarrow> 'f static_provider \<Rightarrow> 'f static_provider" where
  "provider_with_rule event rule p = AList.update event rule p"

definition static_route_for :: "'f static_provider \<Rightarrow> string \<Rightarrow> 'f routing_rule option" where
  "static_route_for p event = map_of p event"

subsection \<open>Recording fields\<close>

type_synonym field_map = "(string, string) table"

datatype field_value =
    FStr string
  | FDebug string
  | FI64 int
  | FU64 nat
  | FF64 string
  | FBool bool

record notify_visitor =
  nv_event_name :: "string option"
  nv_fields :: field_map

definition notify_visitor_new :: notify_visitor where
  "notify_visitor_new = \<lparr>nv_event_name = None, nv_fields = []\<rparr>"

definition strip_debug_quotes :: "string \<Rightarrow> string" where
  "strip_debug_quotes s = unwrap_or (strip_circumfix [CHR 0x22] [CHR 0x22] s) s"

definition record_text :: "string \<Rightarrow> string \<Rightarrow> notify_visitor \<Rightarrow> notify_visitor" where
  "record_text name v nv =
     (if name = EVENT_FIELD then nv\<lparr>nv_event_name := Some v\<rparr>
      else nv\<lparr>nv_fields := AList.update name v (nv_fields nv)\<rparr>)"

definition record_other :: "string \<Rightarrow> string \<Rightarrow> notify_visitor \<Rightarrow> notify_visitor" where
  "record_other name v nv = nv\<lparr>nv_fields := AList.update name v (nv_fields nv)\<rparr>"

fun record_field :: "string \<times> field_value \<Rightarrow> notify_visitor \<Rightarrow> notify_visitor" where
  "record_field (name, FStr v) nv = record_text name v nv"
| "record_field (name, FDebug v) nv = record_text name (strip_debug_quotes v) nv"
| "record_field (name, FI64 v) nv = record_other name (int_text v) nv"
| "record_field (name, FU64 v) nv = record_other name (nat_text v) nv"
| "record_field (name, FF64 v) nv = record_other name v nv"
| "record_field (name, FBool v) nv = record_other name (if v then ''true'' else ''false'') nv"

definition record_all :: "(string \<times> field_value) list \<Rightarrow> notify_visitor" where
  "record_all values = fold record_field values notify_visitor_new"

text \<open>\<^verbatim>\<open>on_new_span\<close> and \<^verbatim>\<open>on_record\<close>: the span's stash, if it has one.\<close>

definition stash_event :: "string option \<Rightarrow> field_map \<Rightarrow> field_map" where
  "stash_event name fs = (case name of Some n \<Rightarrow> AList.update ''event'' n fs | None \<Rightarrow> fs)"

definition on_new_span :: "(string \<times> field_value) list \<Rightarrow> field_map option" where
  "on_new_span values =
     (let nv = record_all values in Some (stash_event (nv_event_name nv) (nv_fields nv)))"

definition on_record :: "(string \<times> field_value) list \<Rightarrow> field_map option \<Rightarrow> field_map option" where
  "on_record values stash =
     (let nv = record_all values in
      case stash of
        Some existing \<Rightarrow>
          Some (stash_event (nv_event_name nv)
                  (fold (\<lambda>(k, v) m. AList.update k v m) (nv_fields nv) existing))
      | None \<Rightarrow> Some (stash_event (nv_event_name nv) (nv_fields nv)))"

definition build_dedup_key :: "string \<Rightarrow> string list \<Rightarrow> field_map \<Rightarrow> string \<times> string" where
  "build_dedup_key event ks fs =
     (event,
      case map (\<lambda>k. unwrap_or (map_of fs k) []) ks of
        [] \<Rightarrow> []
      | v # vs \<Rightarrow> v @ concat (map (\<lambda>w. CHR 0x00 # w) vs))"

subsection \<open>Rendering\<close>

definition FIELD_DENYLIST :: "string list" where
  "FIELD_DENYLIST =
     [''uri'', ''method'', ''version'', ''host'', ''grant_type'', ''username'', ''route'', ''id'', ''x-request-id'']"

definition LIFTED_KEYS :: "string list" where "LIFTED_KEYS = [''message'', ''emoji'']"

definition is_lifted :: "string \<Rightarrow> bool" where "is_lifted key \<longleftrightarrow> key \<in> set LIFTED_KEYS"

definition is_id_field :: "string \<Rightarrow> bool" where "is_id_field key \<longleftrightarrow> strip_suffix ''_id'' key \<noteq> None"

definition field_priority :: "string \<Rightarrow> nat" where
  "field_priority key = (if key = ''user_email'' then 10 else if is_id_field key then 90 else 50)"

definition escape_mrkdwn :: "string \<Rightarrow> string" where
  "escape_mrkdwn s =
     replace_text ''>'' ''&gt;'' (replace_text ''<'' ''&lt;'' (replace_text ''&'' ''&amp;'' s))"

definition format_duration_ms :: "nat \<Rightarrow> string" where
  "format_duration_ms ms =
     (if ms < 1000 then nat_text ms @ ''ms''
      else
        (let secs = ms div 1000; rem_ms = ms mod 1000 in
         if secs < 60
         then (if rem_ms = 0 then nat_text secs @ ''s''
               else nat_text secs @ ''.'' @ pad_zeros 3 (nat_text rem_ms) @ ''s'')
         else if secs < 3600
         then (let m = secs div 60; s = secs mod 60 in
               if s = 0 then nat_text m @ ''m'' else nat_text m @ ''m '' @ nat_text s @ ''s'')
         else (let h = secs div 3600; m = (secs mod 3600) div 60 in
               if m = 0 then nat_text h @ ''h'' else nat_text h @ ''h '' @ nat_text m @ ''m'')))"

definition format_value :: "string \<Rightarrow> string \<Rightarrow> string" where
  "format_value key v =
     (if strip_suffix ''_ms'' key \<noteq> None
      then (case parse_u64 v of Some ms \<Rightarrow> format_duration_ms ms | None \<Rightarrow> escape_mrkdwn v)
      else escape_mrkdwn v)"

definition EM_DASH :: string where "EM_DASH = [CHR 0xE2, CHR 0x80, CHR 0x94]"
definition BULLET :: string where "BULLET = [CHR 0xE2, CHR 0x80, CHR 0xA2]"
definition MIDDLE_DOT :: string where "MIDDLE_DOT = [CHR 0xC2, CHR 0xB7]"

definition present_field :: "string \<Rightarrow> field_map \<Rightarrow> string option" where
  "present_field key fs = Option.bind (map_of fs key) (\<lambda>v. if v = [] then None else Some v)"

definition headline :: "string \<Rightarrow> field_map \<Rightarrow> string" where
  "headline event fs =
     (case (present_field ''emoji'' fs, map_option escape_mrkdwn (present_field ''message'' fs)) of
        (Some e, Some m) \<Rightarrow> e @ '' *'' @ event @ ''* '' @ EM_DASH @ '' '' @ m
      | (Some e, None) \<Rightarrow> e @ '' *'' @ event @ ''*''
      | (None, Some m) \<Rightarrow> ''*'' @ event @ ''* '' @ EM_DASH @ '' '' @ m
      | (None, None) \<Rightarrow> ''*'' @ event @ ''*'')"

definition renderable :: "string \<Rightarrow> bool" where
  "renderable k \<longleftrightarrow> \<not> is_lifted k \<and> k \<notin> set FIELD_DENYLIST"

definition by_priority :: "field_map \<Rightarrow> field_map" where
  "by_priority fs = sort_key (\<lambda>(k, v). (field_priority k, k)) fs"

definition pair_text :: "string \<times> string \<Rightarrow> string" where
  "pair_text p = fst p @ ''='' @ format_value (fst p) (snd p)"

definition format_line :: "string \<Rightarrow> field_map \<Rightarrow> string" where
  "format_line event fs =
     (let pairs = map pair_text (by_priority (filter (\<lambda>(k, _). renderable k) fs)) in
      if pairs = [] then headline event fs
      else headline event fs @ [CHR 0x0A] @ join_with '', '' pairs)"

definition section_block :: "string \<Rightarrow> string \<Rightarrow> json" where
  "section_block event s =
     JObject [(''type'', JString ''section''),
              (''text'', JObject [(''type'', JString ''mrkdwn''), (''text'', JString s)]),
              (''block_id'', JString (''notify-'' @ event))]"

definition section_text :: "string \<Rightarrow> field_map \<Rightarrow> string" where
  "section_text event fs =
     (let pairs = map pair_text (by_priority (filter (\<lambda>(k, _). renderable k \<and> \<not> is_id_field k) fs)) in
      if pairs = [] then headline event fs
      else headline event fs @ [CHR 0x0A] @ join_with '', '' pairs)"

definition id_text :: "field_map \<Rightarrow> string option" where
  "id_text fs =
     (let ids = by_priority (filter (\<lambda>(k, _). renderable k \<and> is_id_field k) fs) in
      if ids = [] then None
      else Some (join_with (''  '' @ MIDDLE_DOT @ ''  '')
                   (map (\<lambda>(k, v). k @ ''='' @ escape_mrkdwn v) ids)))"

definition event_blocks :: "string \<Rightarrow> field_map \<Rightarrow> json list" where
  "event_blocks event fs =
     section_block event (section_text event fs)
     # (case id_text fs of
          None \<Rightarrow> []
        | Some s \<Rightarrow> [JObject [(''type'', JString ''context''),
              (''elements'', JArray [JObject [(''type'', JString ''mrkdwn''), (''text'', JString s)]])]])"

definition single_line_blocks :: "string \<Rightarrow> string \<Rightarrow> json" where
  "single_line_blocks event line = JArray [section_block event line]"

subsection \<open>The layer\<close>

record batched_line =
  bl_queued_at :: instant
  bl_text :: string

record batch_buffer =
  bb_channel :: string
  bb_interval :: duration
  bb_lines :: "batched_line list"

definition batch_buffer_new :: "string \<Rightarrow> duration \<Rightarrow> batch_buffer" where
  "batch_buffer_new channel interval = \<lparr>bb_channel = channel, bb_interval = interval, bb_lines = []\<rparr>"

type_synonym batches = "(string, batch_buffer) table"

record 'f slack_sink =
  sl_route :: "string \<Rightarrow> 'f routing_rule option"
  sl_environment :: string

record analytics_capture =
  ac_distinct_id :: string
  ac_properties :: json

text \<open>What a layer is built of, and its state behind it.\<close>

record 'f notify_builder =
  nb_slack :: "'f slack_sink option"
  nb_default_rule :: "'f routing_rule option"
  nb_flush_tick :: duration
  nb_analytics :: "(string \<Rightarrow> field_map \<Rightarrow> analytics_capture option) option"
  nb_enricher :: "(string \<Rightarrow> field_map \<Rightarrow> field_map) option"
  nb_actions :: "(string \<Rightarrow> field_map \<Rightarrow> json list option) option"

record 'f notify_layer =
  nl_parts :: "'f notify_builder"
  nl_dedup :: "(string \<times> string, instant) table"
  nl_batches :: batches
  nl_sample_counter :: "64 word"

definition builder_with_slack :: "'f slack_sink option \<Rightarrow> 'f notify_builder" where
  "builder_with_slack slack =
     \<lparr>nb_slack = slack, nb_default_rule = None, nb_flush_tick = DEFAULT_FLUSH_TICK, nb_analytics = None,
      nb_enricher = None, nb_actions = None\<rparr>"

definition notify_builder_new ::
  "(string \<Rightarrow> 'f routing_rule option) \<Rightarrow> string \<Rightarrow> 'f notify_builder" where
  "notify_builder_new router environment =
     builder_with_slack (Some \<lparr>sl_route = router, sl_environment = environment\<rparr>)"

definition default_rule :: "'f routing_rule \<Rightarrow> 'f notify_builder \<Rightarrow> 'f notify_builder" where
  "default_rule rule b = b\<lparr>nb_default_rule := Some rule\<rparr>"

definition flush_tick :: "duration \<Rightarrow> 'f notify_builder \<Rightarrow> 'f notify_builder" where
  "flush_tick tick b = b\<lparr>nb_flush_tick := tick\<rparr>"

definition with_analytics ::
  "(string \<Rightarrow> field_map \<Rightarrow> analytics_capture option) \<Rightarrow> 'f notify_builder \<Rightarrow> 'f notify_builder" where
  "with_analytics provider b = b\<lparr>nb_analytics := Some provider\<rparr>"

definition analytics_builder ::
  "(string \<Rightarrow> field_map \<Rightarrow> analytics_capture option) \<Rightarrow> 'f notify_builder" where
  "analytics_builder provider = with_analytics provider (builder_with_slack None)"

definition with_enricher ::
  "(string \<Rightarrow> field_map \<Rightarrow> field_map) \<Rightarrow> 'f notify_builder \<Rightarrow> 'f notify_builder" where
  "with_enricher enrich b = b\<lparr>nb_enricher := Some enrich\<rparr>"

definition with_actions ::
  "(string \<Rightarrow> field_map \<Rightarrow> json list option) \<Rightarrow> 'f notify_builder \<Rightarrow> 'f notify_builder" where
  "with_actions actions b = b\<lparr>nb_actions := Some actions\<rparr>"

text \<open>The layer, and whether its flusher is spawned.\<close>

definition layer_build :: "'f notify_builder \<Rightarrow> 'f notify_layer \<times> bool" where
  "layer_build b =
     (\<lparr>nl_parts = b, nl_dedup = [], nl_batches = [], nl_sample_counter = 0\<rparr>, nb_slack b \<noteq> None)"

definition sample_passes ::
  "'f f32_ops \<Rightarrow> 'f \<Rightarrow> 64 word \<Rightarrow> bool \<times> 64 word" where
  "sample_passes F rate counter =
     (if f_at_least_one F rate then (True, counter)
      else if f_at_most_zero F rate then (False, counter)
      else
        (let mixed = counter * 0x9E3779B97F4A7C15 in
         (f_less F (f_fraction F (unat (drop_bit 32 mixed))) rate, counter + 1)))"

definition dedup_passes ::
  "instant \<Rightarrow> string \<times> string \<Rightarrow> duration \<Rightarrow> (string \<times> string, instant) table
     \<Rightarrow> bool \<times> (string \<times> string, instant) table" where
  "dedup_passes now key window seen =
     (case map_of seen key of
        Some earlier \<Rightarrow> if now - earlier < window then (False, seen) else (True, AList.update key now seen)
      | None \<Rightarrow> (True, AList.update key now seen))"

definition enqueue_batch ::
  "instant \<Rightarrow> string \<Rightarrow> string \<Rightarrow> duration \<Rightarrow> string \<Rightarrow> batches \<Rightarrow> batches" where
  "enqueue_batch now event channel interval line bs =
     (let buffer = unwrap_or (map_of bs event) (batch_buffer_new channel interval) in
      AList.update event
        (buffer\<lparr>bb_lines := bb_lines buffer @ [\<lparr>bl_queued_at = now, bl_text = line\<rparr>]\<rparr>) bs)"

definition immediate_blocks :: "'f notify_builder \<Rightarrow> string \<Rightarrow> field_map \<Rightarrow> json" where
  "immediate_blocks b event fs =
     JArray (event_blocks event fs
       @ (case Option.bind (nb_actions b) (\<lambda>actions. actions event fs) of
            Some elements \<Rightarrow>
              if elements = [] then []
              else [JObject [(''type'', JString ''actions''),
                             (''block_id'', JString (''notify-actions-'' @ event)),
                             (''elements'', JArray elements)]]
          | None \<Rightarrow> []))"

text \<open>What reaches a sink: a post to a channel, or a capture.\<close>

datatype sink_call =
    Posted string json
  | Captured string string json

definition capture_analytics :: "'f notify_builder \<Rightarrow> string \<Rightarrow> field_map \<Rightarrow> sink_call list" where
  "capture_analytics b event fs =
     (case nb_analytics b of
        None \<Rightarrow> []
      | Some capture_for \<Rightarrow>
          (case capture_for event fs of
             None \<Rightarrow> []
           | Some c \<Rightarrow> [Captured (ac_distinct_id c) event (ac_properties c)]))"

definition dispatch_event ::
  "'f f32_ops \<Rightarrow> instant \<Rightarrow> string \<Rightarrow> field_map \<Rightarrow> 'f notify_layer \<Rightarrow> sink_call list \<times> 'f notify_layer" where
  "dispatch_event F now event fs y =
     (case nb_slack (nl_parts y) of
        None \<Rightarrow> ([], y)
      | Some slack \<Rightarrow>
          (case (case sl_route slack event of Some r \<Rightarrow> Some r | None \<Rightarrow> nb_default_rule (nl_parts y)) of
             None \<Rightarrow> ([], y)
           | Some rule \<Rightarrow>
               if \<not> rr_enabled rule \<or> \<not> allows_env rule (sl_environment slack) then ([], y)
               else
                 (case sample_passes F (rr_sample_rate rule) (nl_sample_counter y) of
                    (sampled, counter) \<Rightarrow>
                      (let y1 = y\<lparr>nl_sample_counter := counter\<rparr> in
                       if \<not> sampled then ([], y1)
                       else
                         (case (case rr_dedup rule of
                                  None \<Rightarrow> (True, nl_dedup y1)
                                | Some d \<Rightarrow> dedup_passes now (build_dedup_key event (dr_keys d) fs) (dr_window d) (nl_dedup y1)) of
                            (fresh, seen) \<Rightarrow>
                              (let y2 = y1\<lparr>nl_dedup := seen\<rparr> in
                               if \<not> fresh then ([], y2)
                               else
                                 (case rr_batch rule of
                                    Some br \<Rightarrow>
                                      ([], y2\<lparr>nl_batches := enqueue_batch now event (rr_channel rule)
                                                (br_interval br) (format_line event fs) (nl_batches y2)\<rparr>)
                                  | None \<Rightarrow>
                                      ([Posted (rr_channel rule) (immediate_blocks (nl_parts y) event fs)], y2))))))))"

text \<open>An event: its target, its fields, and the stashes of its scope, innermost span first.\<close>

record notify_event =
  ne_target :: string
  ne_values :: "(string \<times> field_value) list"
  ne_scope :: "field_map option list"

definition insert_fields :: "field_map \<Rightarrow> field_map \<Rightarrow> field_map" where
  "insert_fields fs m = fold (\<lambda>(k, v) m. AList.update k v m) fs m"

definition merged_fields :: "notify_event \<Rightarrow> field_map \<Rightarrow> field_map" where
  "merged_fields e own =
     insert_fields own
       (fold (\<lambda>stash m. case stash of Some fs \<Rightarrow> insert_fields fs m | None \<Rightarrow> m) (rev (ne_scope e)) [])"

definition redact_fields :: "string list \<Rightarrow> field_map \<Rightarrow> field_map" where
  "redact_fields secrets fs = map (\<lambda>(k, v). (k, redact secrets v)) fs"

definition sink_fields :: "string list \<Rightarrow> 'f notify_builder \<Rightarrow> string \<Rightarrow> field_map \<Rightarrow> field_map" where
  "sink_fields secrets b event merged =
     redact_fields secrets (case nb_enricher b of Some enrich \<Rightarrow> enrich event merged | None \<Rightarrow> merged)"

definition on_event ::
  "'f f32_ops \<Rightarrow> string list \<Rightarrow> instant \<Rightarrow> notify_event \<Rightarrow> 'f notify_layer \<Rightarrow> sink_call list \<times> 'f notify_layer" where
  "on_event F secrets now e y =
     (if ne_target e \<noteq> NOTIFY_TARGET then ([], y)
      else
        (let nv = record_all (ne_values e) in
         case nv_event_name nv of
           None \<Rightarrow> ([], y)
         | Some event \<Rightarrow>
             (let fs = sink_fields secrets (nl_parts y) event (merged_fields e (nv_fields nv));
                  captured = capture_analytics (nl_parts y) event fs in
              case dispatch_event F now event fs y of
                (posted, y') \<Rightarrow> (captured @ posted, y'))))"

subsection \<open>Flushing\<close>

definition format_batch :: "string \<Rightarrow> batched_line list \<Rightarrow> string" where
  "format_batch event ls =
     ''*'' @ event @ ''* '' @ EM_DASH @ '' batched x'' @ nat_text (length ls) @ [CHR 0x0A]
     @ join_with [CHR 0x0A] (map (\<lambda>l. BULLET @ '' '' @ bl_text l) ls)"

definition is_ripe :: "instant \<Rightarrow> batch_buffer \<Rightarrow> bool" where
  "is_ripe now buffer \<longleftrightarrow>
     (case bb_lines buffer of
        [] \<Rightarrow> False
      | oldest # _ \<Rightarrow> \<not> now - bl_queued_at oldest < bb_interval buffer)"

definition drain_ripe :: "instant \<Rightarrow> batches \<Rightarrow> (string \<times> string \<times> batched_line list) list \<times> batches" where
  "drain_ripe now bs =
     (map (\<lambda>(event, buffer). (event, bb_channel buffer, bb_lines buffer))
        (filter (\<lambda>(_, buffer). is_ripe now buffer) bs),
      map (\<lambda>(event, buffer). (event, if is_ripe now buffer then buffer\<lparr>bb_lines := []\<rparr> else buffer)) bs)"

definition flush_ripe_batches :: "instant \<Rightarrow> 'f notify_layer \<Rightarrow> sink_call list \<times> 'f notify_layer" where
  "flush_ripe_batches now y =
     (case nb_slack (nl_parts y) of
        None \<Rightarrow> ([], y)
      | Some _ \<Rightarrow>
          (case drain_ripe now (nl_batches y) of
             (ripe, bs) \<Rightarrow>
               (map (\<lambda>(event, channel, ls). Posted channel (single_line_blocks event (format_batch event ls))) ripe,
                y\<lparr>nl_batches := bs\<rparr>)))"

subsection \<open>Escaping\<close>

lemma replace_char_eq: "replace_text [c] new s = concat (map (\<lambda>d. if d = c then new else [d]) s)"
proof (induction s)
  case Nil
  then show ?case by (simp add: replace_text.simps)
next
  case (Cons d s)
  then show ?case
    using replace_hit [of "[c]" "d # s" new] replace_miss [of "[c]" d s new] by auto
qed

definition escape_char :: "char \<Rightarrow> string" where
  "escape_char c =
     (if c = CHR ''&'' then ''&amp;'' else if c = CHR ''<'' then ''&lt;'' else if c = CHR ''>'' then ''&gt;'' else [c])"

lemma escape_mrkdwn_chars: "escape_mrkdwn s = concat (map escape_char s)"
  unfolding escape_mrkdwn_def replace_char_eq
  by (induction s) (auto simp: escape_char_def)

lemma escaped_has_no_control: "CHR ''<'' \<notin> set (escape_mrkdwn s)" "CHR ''>'' \<notin> set (escape_mrkdwn s)"
  by (auto simp: escape_mrkdwn_chars escape_char_def)

lemma escape_char_head: "escape_char c @ u = escape_char d @ v \<Longrightarrow> c = d"
  by (auto simp: escape_char_def split: if_splits)

lemma escape_mrkdwn_inj: "escape_mrkdwn s = escape_mrkdwn t \<Longrightarrow> s = t"
proof (induction s arbitrary: t)
  case Nil
  then show ?case by (cases t) (auto simp: escape_mrkdwn_chars escape_char_def split: if_splits)
next
  case (Cons c s)
  show ?case
  proof (cases t)
    case Nil
    with Cons.prems show ?thesis by (auto simp: escape_mrkdwn_chars escape_char_def split: if_splits)
  next
    case (Cons d t')
    with Cons.prems have "c = d" using escape_char_head by (simp add: escape_mrkdwn_chars)
    with Cons Cons.prems Cons.IH [of t'] show ?thesis by (simp add: escape_mrkdwn_chars)
  qed
qed

subsection \<open>Order of the fields\<close>

text \<open>A message is the same for every iteration order of the map of fields.\<close>

lemma sorted_fields_eq:
  assumes "distinct_keys fs" and "distinct_keys gs" and "set gs = set fs"
  shows "by_priority (filter P gs) = by_priority (filter P fs)"
proof -
  let ?f = "\<lambda>(k, v). (field_priority k, k)"
  have inj: "inj_on ?f (set fs)"
    using assms(1) by (auto simp: inj_on_def dest: eq_key_imp_eq_value)
  have d: "distinct (map ?f (filter P xs))" if "set xs = set fs" "distinct_keys xs" for xs
    using that inj by (auto simp: distinct_map dest: inj_on_subset [of _ _ "set (filter P xs)"])
  have d': "distinct (map ?f (sort_key ?f (filter P xs)))" if "set xs = set fs" "distinct_keys xs" for xs
    using d [OF that] by (simp add: distinct_map)
  have inj': "inj_on ?f (set (sort_key ?f (filter P gs)) \<union> set (sort_key ?f (filter P fs)))"
    by (rule inj_on_subset [OF inj]) (auto simp: assms(3))
  show ?thesis unfolding by_priority_def
    by (rule map_sorted_distinct_set_unique [OF inj'])
       (use d' [of gs] d' [of fs] assms in \<open>simp_all\<close>)
qed

lemma same_lookup:
  assumes "distinct_keys fs" and "distinct_keys gs" and "set gs = set fs"
  shows "map_of gs = map_of fs"
  using assms by (metis map_of_inject_set)

lemma blocks_ignore_order:
  assumes "distinct_keys fs" and "distinct_keys gs" and "set gs = set fs"
  shows "event_blocks event gs = event_blocks event fs"
    and "format_line event gs = format_line event fs"
  using sorted_fields_eq [OF assms] same_lookup [OF assms]
  by (simp_all add: event_blocks_def section_text_def id_text_def format_line_def headline_def present_field_def Let_def)

subsection \<open>Deduplication\<close>

text \<open>What reaches a layer after its spans are merged: an event with its fields, or a tick.\<close>

datatype layer_input = Emitted string field_map | Ticked

fun layer_step ::
  "'f f32_ops \<Rightarrow> 'f notify_layer \<Rightarrow> instant \<times> layer_input \<Rightarrow> sink_call list \<times> 'f notify_layer" where
  "layer_step F y (now, Emitted event fs) = dispatch_event F now event fs y"
| "layer_step F y (now, Ticked) = flush_ripe_batches now y"

text \<open>The layer after the first \<open>n\<close> inputs.\<close>

definition layer_at ::
  "'f f32_ops \<Rightarrow> 'f notify_layer \<Rightarrow> (instant \<times> layer_input) list \<Rightarrow> nat \<Rightarrow> 'f notify_layer" where
  "layer_at F y inputs n = run (\<lambda>y i. snd (layer_step F y i)) y (take n inputs)"

definition calls_at ::
  "'f f32_ops \<Rightarrow> 'f notify_layer \<Rightarrow> (instant \<times> layer_input) list \<Rightarrow> nat \<Rightarrow> sink_call list" where
  "calls_at F y inputs n = fst (layer_step F (layer_at F y inputs n) (inputs ! n))"

text \<open>The entry of a dedup key never goes back, and a step at \<open>now\<close> leaves none later than \<open>now\<close>.\<close>

definition fired_since :: "instant \<Rightarrow> string \<times> string \<Rightarrow> 'f notify_layer \<Rightarrow> bool" where
  "fired_since start key y \<longleftrightarrow> (\<exists>t. map_of (nl_dedup y) key = Some t \<and> start \<le> t)"

lemma dedup_passes_cases:
  "dedup_passes now key window seen = (fresh, seen') \<Longrightarrow>
     (fresh \<longrightarrow> seen' = AList.update key now seen) \<and> (\<not> fresh \<longrightarrow> seen' = seen)"
  by (auto simp: dedup_passes_def split: option.splits if_splits)

lemma dispatch_dedup:
  "nl_dedup (snd (dispatch_event F now event fs y)) = nl_dedup y
   \<or> (\<exists>k. nl_dedup (snd (dispatch_event F now event fs y)) = AList.update k now (nl_dedup y))"
  by (auto simp: dispatch_event_def build_dedup_key_def Let_def dest!: dedup_passes_cases
        split: option.splits prod.splits if_splits)

lemma dispatch_parts: "nl_parts (snd (dispatch_event F now event fs y)) = nl_parts y"
  by (auto simp: dispatch_event_def Let_def split: option.splits prod.splits)

lemma flush_parts:
  "nl_parts (snd (flush_ripe_batches now y)) = nl_parts y"
  "nl_dedup (snd (flush_ripe_batches now y)) = nl_dedup y"
  by (auto simp: flush_ripe_batches_def Let_def split: option.splits prod.splits)

lemma step_parts: "nl_parts (snd (layer_step F y i)) = nl_parts y"
  by (cases i; cases "snd i") (auto simp: dispatch_parts flush_parts)

lemma step_fired_since:
  assumes "fired_since start key y" and "start \<le> fst i"
  shows "fired_since start key (snd (layer_step F y i))"
proof (cases "snd i")
  case (Emitted event fs)
  have "nl_dedup (snd (layer_step F y i)) = nl_dedup y
      \<or> (\<exists>k. nl_dedup (snd (layer_step F y i)) = AList.update k (fst i) (nl_dedup y))"
    using dispatch_dedup [of F "fst i" event fs y] Emitted by (cases i) simp
  with assms show ?thesis by (auto simp: fired_since_def map_of_update)
next
  case Ticked
  with assms show ?thesis by (cases i) (auto simp: fired_since_def flush_parts)
qed

lemma run_fired_since:
  assumes "fired_since start key y" and "\<forall>i \<in> set inputs. start \<le> fst i"
  shows "fired_since start key (run (\<lambda>y i. snd (layer_step F y i)) y inputs)"
  using assms by (induction inputs arbitrary: y) (auto simp: step_fired_since)

lemma run_parts: "nl_parts (run (\<lambda>y i. snd (layer_step F y i)) y inputs) = nl_parts y"
  by (induction inputs arbitrary: y) (auto simp: step_parts)

lemma sorted_after:
  "sorted (map fst inputs) \<Longrightarrow> m < length inputs \<Longrightarrow> i \<in> set (drop (Suc m) inputs) \<Longrightarrow>
     fst (inputs ! m) \<le> (fst i :: instant)"
  using sorted_wrt_append [of "(\<le>)" "map fst (take m inputs)" "map fst (drop m inputs)"]
  by (simp add: Cons_nth_drop_Suc [symmetric] del: sorted_append) (metis (no_types, lifting) Cons_nth_drop_Suc append_take_drop_id image_eqI list.set_map list.simps(9) map_append sorted_simps(2) sorted_wrt_append)

text \<open>A dispatch under a rule with deduplication posts only when its key is not in its window.\<close>

lemma posted_fires:
  assumes "nb_slack (nl_parts y) = Some slack" and "sl_route slack event = Some rule"
    and "rr_dedup rule = Some d" and "fst (dispatch_event F now event fs y) \<noteq> []"
  shows "fired_since now (build_dedup_key event (dr_keys d) fs) (snd (dispatch_event F now event fs y))"
    and "map_of (nl_dedup y) (build_dedup_key event (dr_keys d) fs) = Some t \<Longrightarrow> dr_window d \<le> now - t"
  using assms
  by (auto simp: dispatch_event_def dedup_passes_def fired_since_def map_of_update Let_def
        split: option.splits prod.splits if_splits)

text \<open>
  Repeats inside a rule's window are not posted: when a layer handles events and ticks in time
  order, two events of a name routed under a rule with deduplication that both post, and whose key
  fields agree, are at least the rule's window apart.
\<close>

theorem repeats_in_a_window_are_not_posted:
  assumes "nb_slack (nl_parts y) = Some slack" and "sl_route slack event = Some rule"
    and "rr_dedup rule = Some d"
    and "sorted (map fst inputs)" and "m < n" and "n < length inputs"
    and "inputs ! m = (s, Emitted event fs)" and "inputs ! n = (t, Emitted event gs)"
    and "build_dedup_key event (dr_keys d) fs = build_dedup_key event (dr_keys d) gs"
    and "calls_at F y inputs m \<noteq> []" and "calls_at F y inputs n \<noteq> []"
  shows "s + dr_window d \<le> t"
proof -
  let ?key = "build_dedup_key event (dr_keys d) gs" and ?step = "\<lambda>y i. snd (layer_step F y i)"
  have at: "nb_slack (nl_parts (layer_at F y inputs k)) = Some slack" for k
    using assms(1) by (simp add: layer_at_def run_parts)
  have "fired_since s ?key (?step (layer_at F y inputs m) (inputs ! m))"
    using posted_fires(1) [OF at assms(2,3), of F s fs m] assms(7,9,10) by (simp add: calls_at_def)
  moreover have "layer_at F y inputs n = run ?step (?step (layer_at F y inputs m) (inputs ! m)) (take (n - Suc m) (drop (Suc m) inputs))"
  proof -
    have "take n inputs = take m inputs @ inputs ! m # take (n - Suc m) (drop (Suc m) inputs)"
      using assms(5,6) take_add [of m "Suc (n - Suc m)" inputs] by (simp add: Cons_nth_drop_Suc [symmetric])
    then show ?thesis by (simp add: layer_at_def run_append)
  qed
  moreover have "\<forall>i \<in> set (take (n - Suc m) (drop (Suc m) inputs)). s \<le> fst i"
    using assms(4,7) sorted_after [OF assms(4), of m] assms(5,6) by (auto dest: in_set_takeD)
  ultimately have "fired_since s ?key (layer_at F y inputs n)" by (simp add: run_fired_since)
  then obtain u where u: "map_of (nl_dedup (layer_at F y inputs n)) ?key = Some u" "s \<le> u"
    by (auto simp: fired_since_def)
  have "dr_window d \<le> t - u"
    using posted_fires(2) [OF at assms(2,3) _ u(1)] assms(8,11) by (simp add: calls_at_def)
  moreover have "s \<le> t" using sorted_nth_mono [OF assms(4), of m n] assms(5-8) by simp
  ultimately show ?thesis using u(2) by linarith
qed

text \<open>A sample rate in percent, and a layer whose one rule deduplicates by \<^verbatim>\<open>user_id\<close> within a minute.\<close>

definition demo_f32 :: "nat f32_ops" where
  "demo_f32 = \<lparr>f_one = 100, f_at_least_one = (\<lambda>r. 100 \<le> r), f_at_most_zero = (\<lambda>r. r = 0),
     f_fraction = (\<lambda>n. n * 100 div (2 ^ 32 - 1)), f_less = (\<lambda>a b. a < b)\<rparr>"

definition demo_dedup_rule :: "nat routing_rule" where
  "demo_dedup_rule = (to_channel demo_f32 ''#pulse'')\<lparr>rr_dedup := Some \<lparr>dr_keys = [''user_id''], dr_window = 60 * SECOND\<rparr>\<rparr>"

definition demo_notify_layer :: "nat notify_layer" where
  "demo_notify_layer = fst (layer_build (notify_builder_new (\<lambda>event. if event = ''login'' then Some demo_dedup_rule else None) ''dev''))"

lemma repeats_in_a_window_are_not_posted_witness:
  "calls_at demo_f32 demo_notify_layer
     [(0, Emitted ''login'' [(''user_id'', ''7'')]), (60 * SECOND, Emitted ''login'' [(''user_id'', ''7'')])] 0 \<noteq> []
   \<and> calls_at demo_f32 demo_notify_layer
     [(0, Emitted ''login'' [(''user_id'', ''7'')]), (60 * SECOND, Emitted ''login'' [(''user_id'', ''7'')])] 1 \<noteq> []
   \<and> 0 + 60 * SECOND \<le> 60 * SECOND"
proof -
  let ?inputs = "[(0, Emitted ''login'' [(''user_id'', ''7'')]), (60 * SECOND, Emitted ''login'' [(''user_id'', ''7'')])]"
  note defs = calls_at_def layer_at_def demo_notify_layer_def demo_dedup_rule_def demo_f32_def layer_build_def
    notify_builder_new_def builder_with_slack_def to_channel_def dispatch_event_def allows_env_def sample_passes_def
    dedup_passes_def build_dedup_key_def unwrap_or_def Let_def
  have a: "calls_at demo_f32 demo_notify_layer ?inputs 0 \<noteq> []" by (simp add: defs)
  have b: "calls_at demo_f32 demo_notify_layer ?inputs 1 \<noteq> []" by (simp add: defs)
  have slack: "nb_slack (nl_parts demo_notify_layer) =
      Some \<lparr>sl_route = (\<lambda>event. if event = ''login'' then Some demo_dedup_rule else None), sl_environment = ''dev''\<rparr>"
    by (simp add: demo_notify_layer_def layer_build_def notify_builder_new_def builder_with_slack_def)
  have "0 + dr_window \<lparr>dr_keys = [''user_id''], dr_window = 60 * SECOND\<rparr> \<le> 60 * SECOND"
    by (rule repeats_in_a_window_are_not_posted [OF slack, where inputs = ?inputs and m = 0 and n = 1 and event = "''login''"
          and rule = demo_dedup_rule and F = demo_f32])
       (use a b in \<open>simp_all add: demo_dedup_rule_def\<close>)
  with a b show ?thesis by simp
qed

subsection \<open>Batches\<close>

datatype batch_op = Enqueue string string duration string | Drain

fun queue_step ::
  "(string \<times> batched_line list) list \<times> batches \<Rightarrow> instant \<times> batch_op \<Rightarrow> (string \<times> batched_line list) list \<times> batches" where
  "queue_step (posted, bs) (now, Enqueue event channel interval line) =
     (posted, enqueue_batch now event channel interval line bs)"
| "queue_step (posted, bs) (now, Drain) =
     (posted @ map (\<lambda>(event, channel, ls). (event, ls)) (fst (drain_ripe now bs)), snd (drain_ripe now bs))"

definition pending :: "string \<Rightarrow> batches \<Rightarrow> batched_line list" where
  "pending event bs = (case map_of bs event of None \<Rightarrow> [] | Some buffer \<Rightarrow> bb_lines buffer)"

definition lines_for :: "string \<Rightarrow> (string \<times> batched_line list) list \<Rightarrow> batched_line list" where
  "lines_for event posted = concat (map snd (filter (\<lambda>p. fst p = event) posted))"

fun queued_for :: "string \<Rightarrow> (instant \<times> batch_op) list \<Rightarrow> batched_line list" where
  "queued_for event [] = []"
| "queued_for event ((now, Enqueue name channel interval line) # ops) =
     (if name = event then [\<lparr>bl_queued_at = now, bl_text = line\<rparr>] else []) @ queued_for event ops"
| "queued_for event ((now, Drain) # ops) = queued_for event ops"

lemma lines_for_append [simp]: "lines_for event (ps @ qs) = lines_for event ps @ lines_for event qs"
  by (simp add: lines_for_def)

lemma drain_keys: "keys (snd (drain_ripe now bs)) = keys bs"
  by (induction bs) (auto simp: drain_ripe_def)

lemma drain_other:
  "event \<notin> set (keys bs) \<Longrightarrow> lines_for event (map (\<lambda>(event, channel, ls). (event, ls)) (fst (drain_ripe now bs))) = []"
  by (induction bs) (auto simp: drain_ripe_def lines_for_def)

lemma drain_conserves:
  assumes "distinct_keys bs"
  shows "lines_for event (map (\<lambda>(event, channel, ls). (event, ls)) (fst (drain_ripe now bs)))
           @ pending event (snd (drain_ripe now bs)) = pending event bs"
  using assms
proof (induction bs)
  case (Cons p bs)
  obtain name buffer where p: "p = (name, buffer)" by (cases p)
  show ?case
  proof (cases "name = event")
    case True
    with Cons.prems drain_other [of event bs now] show ?thesis
      by (auto simp: p drain_ripe_def lines_for_def pending_def)
  next
    case False
    with Cons show ?thesis by (auto simp: p drain_ripe_def lines_for_def pending_def)
  qed
qed (simp add: drain_ripe_def lines_for_def pending_def)

lemma drained_not_ripe: "\<forall>(event, buffer) \<in> set (snd (drain_ripe now bs)). \<not> is_ripe now buffer"
proof -
  have "\<not> is_ripe now (if is_ripe now b then b\<lparr>bb_lines := []\<rparr> else b)" for b
    by (cases "is_ripe now b") (simp_all add: is_ripe_def [of now "_\<lparr>bb_lines := []\<rparr>"])
  then show ?thesis by (auto simp: drain_ripe_def)
qed

lemma enqueue_pending:
  "pending event (enqueue_batch now name channel interval line bs) =
     pending event bs @ (if name = event then [\<lparr>bl_queued_at = now, bl_text = line\<rparr>] else [])"
  by (auto simp: pending_def enqueue_batch_def batch_buffer_new_def unwrap_or_def map_of_update Let_def split: option.splits)

interpretation queueing: machine queue_step "\<lambda>s. distinct_keys (snd s)"
proof
  fix s :: "(string \<times> batched_line list) list \<times> batches" and e :: "instant \<times> batch_op"
  assume "distinct_keys (snd s)"
  then show "distinct_keys (snd (queue_step s e))"
    by (cases s; cases e; cases "snd e") (simp_all add: enqueue_batch_def Let_def distinct_keys_update drain_keys)
qed

lemma step_conserves:
  assumes "distinct_keys (snd s)"
  shows "lines_for event (fst (queue_step s op)) @ pending event (snd (queue_step s op)) =
    lines_for event (fst s) @ pending event (snd s) @ queued_for event [op]"
  using assms drain_conserves [of "snd s" event "fst op"]
  by (cases s; cases op; cases "snd op") (auto simp: enqueue_pending)

lemma queued_for_Cons: "queued_for event (op # ops) = queued_for event [op] @ queued_for event ops"
  by (cases op; cases "snd op") simp_all

lemma run_conserves:
  assumes "distinct_keys (snd s)"
  shows "lines_for event (fst (run queue_step s ops)) @ pending event (snd (run queue_step s ops)) =
    lines_for event (fst s) @ pending event (snd s) @ queued_for event ops"
  using assms
proof (induction ops arbitrary: s)
  case (Cons op ops)
  from Cons.IH [OF queueing.step_inv [OF Cons.prems], of op] step_conserves [OF Cons.prems, of event op]
  show ?case by (simp add: queued_for_Cons [of event op ops])
qed simp

text \<open>
  Batched lines are posted once, in order, and on time: whatever lines are queued and whenever
  the flusher wakes, the lines posted for an event so far followed by those still in its buffer are
  exactly the lines queued for it, in the order they were queued, and a flush leaves no buffer
  whose oldest line has waited out the interval.
\<close>

theorem batched_lines_are_posted_once_in_order:
  "lines_for event (fst (run queue_step ([], []) ops)) @ pending event (snd (run queue_step ([], []) ops))
     = queued_for event ops
   \<and> list_all (\<lambda>(event, buffer). \<not> is_ripe now buffer) (snd (run queue_step ([], []) (ops @ [(now, Drain)])))"
proof
  show "lines_for event (fst (run queue_step ([], []) ops)) @ pending event (snd (run queue_step ([], []) ops))
     = queued_for event ops"
    using run_conserves [of "([], [])" event ops] by (simp add: lines_for_def pending_def)
  show "list_all (\<lambda>(event, buffer). \<not> is_ripe now buffer) (snd (run queue_step ([], []) (ops @ [(now, Drain)])))"
    using drained_not_ripe [of now "snd (run queue_step ([], []) ops)"]
    by (cases "run queue_step ([], []) ops") (simp add: run_append list_all_iff)
qed

subsection \<open>What the sinks see\<close>

text \<open>
  Neither sink is handed a field that holds a registered secret: whatever the spans, the event and
  the enricher put in the fields, the value of none contains a secret of the registry (one the
  registry takes and masking cannot make up).
\<close>

theorem sinks_see_no_registered_secret:
  assumes "secret \<in> set secrets" and "plain_secret secret"
  shows "list_all (\<lambda>(k, v). \<not> contains_text v secret) (sink_fields secrets b event merged)"
proof -
  have "\<not> contains_text (redact secrets v) secret" for v
    using mask_known_gone(2) [OF assms(2,1)] masked_sublist [OF masked_shapes assms(2)]
    by (auto simp: redact_eq contains_sublist)
  then show ?thesis by (auto simp: sink_fields_def redact_fields_def list_all_iff)
qed

lemma sinks_see_no_registered_secret_witness:
  "list_all (\<lambda>(k, v). \<not> contains_text v ''sk-live-0123'')
     (sink_fields [''sk-live-0123''] (nl_parts demo_notify_layer) ''login'' [(''key'', ''sk-live-0123'')])"
  by (rule sinks_see_no_registered_secret) (simp_all add: plain_secret_def)

subsection \<open>Dedup keys\<close>

definition nul_free :: "string \<Rightarrow> bool" where "nul_free s \<longleftrightarrow> CHR 0x00 \<notin> set s"

lemma nul_cut:
  "nul_free v \<Longrightarrow> nul_free w \<Longrightarrow> v @ CHR 0x00 # s = w @ CHR 0x00 # t \<Longrightarrow> v = w \<and> s = t"
proof (induction v arbitrary: w)
  case Nil
  then show ?case by (cases w) (auto simp: nul_free_def)
next
  case (Cons c v)
  then show ?case by (cases w) (auto simp: nul_free_def)
qed

fun nul_join :: "string list \<Rightarrow> string" where
  "nul_join [] = []"
| "nul_join [v] = v"
| "nul_join (v # vs) = v @ CHR 0x00 # nul_join vs"

lemma nul_join_inj:
  "length vs = length ws \<Longrightarrow> list_all nul_free vs \<Longrightarrow> list_all nul_free ws \<Longrightarrow>
     nul_join vs = nul_join ws \<Longrightarrow> vs = ws"
proof (induction vs arbitrary: ws rule: nul_join.induct)
  case (2 v)
  then show ?case by (cases ws) auto
next
  case (3 v v' vs)
  then obtain w w' ws' where ws: "ws = w # w' # ws'" by (cases ws; cases "tl ws") auto
  have "v = w \<and> nul_join (v' # vs) = nul_join (w' # ws')"
    using 3(3,4,5) by (intro nul_cut) (simp_all add: ws)
  moreover from this have "v' # vs = w' # ws'"
    using "3.IH" [of "w' # ws'"] "3.prems" by (simp add: ws)
  ultimately show ?case by (simp add: ws)
qed simp

lemma dedup_key_join: "build_dedup_key event ks fs = (event, nul_join (map (\<lambda>k. unwrap_or (map_of fs k) []) ks))"
proof -
  have "nul_join (v # vs) = v @ concat (map (\<lambda>w. CHR 0x00 # w) vs)" for v vs
    by (induction vs arbitrary: v) auto
  then show ?thesis by (cases ks) (simp_all add: build_dedup_key_def)
qed

text \<open>
  The dedup key of an event is its values exactly as far as no value holds a NUL: two maps of
  fields have the same key just when they agree on every key field, a missing field counting as
  empty. A NUL in a value breaks this, the boundary between two values then being ambiguous.
\<close>

theorem dedup_keys_tell_values_apart:
  assumes "list_all (\<lambda>k. nul_free (unwrap_or (map_of fs k) []) \<and> nul_free (unwrap_or (map_of gs k) [])) ks"
  shows "build_dedup_key event ks fs = build_dedup_key event ks gs
      \<longleftrightarrow> list_all (\<lambda>k. unwrap_or (map_of fs k) [] = unwrap_or (map_of gs k) []) ks"
proof
  let ?v = "\<lambda>fs k. unwrap_or (map_of fs k) []"
  assume "build_dedup_key event ks fs = build_dedup_key event ks gs"
  then have "map (?v fs) ks = map (?v gs) ks"
    using assms by (intro nul_join_inj) (auto simp: dedup_key_join list_all_iff)
  then show "list_all (\<lambda>k. ?v fs k = ?v gs k) ks" by (auto simp: list_all_iff)
next
  assume "list_all (\<lambda>k. unwrap_or (map_of fs k) [] = unwrap_or (map_of gs k) []) ks"
  then have "map (\<lambda>k. unwrap_or (map_of fs k) []) ks = map (\<lambda>k. unwrap_or (map_of gs k) []) ks"
    by (auto simp: list_all_iff intro: map_cong)
  then show "build_dedup_key event ks fs = build_dedup_key event ks gs"
    unfolding dedup_key_join by (rule arg_cong)
qed

lemma dedup_keys_tell_values_apart_witness:
  "build_dedup_key ''e'' [''a'', ''b''] [(''a'', ''ab''), (''b'', ''c'')]
     \<noteq> build_dedup_key ''e'' [''a'', ''b''] [(''a'', ''a''), (''b'', ''bc'')]"
  using dedup_keys_tell_values_apart [of "[(''a'', ''ab''), (''b'', ''c'')]" "[(''a'', ''a''), (''b'', ''bc'')]" "[''a'', ''b'']" "''e''"]
  by (simp add: nul_free_def unwrap_or_def)

lemma dedup_keys_collide:
  "build_dedup_key ''e'' [''a'', ''b''] [(''a'', [CHR 0x00, CHR ''x'']), (''b'', ''y'')]
     = build_dedup_key ''e'' [''a'', ''b''] [(''a'', []), (''b'', ''x'' @ CHR 0x00 # ''y'')]"
  by (simp add: build_dedup_key_def unwrap_or_def)

end
