(* ===== verification/Resource_Metadata.thy ===== *)
theory Resource_Metadata
  imports Request_Guard Server_Auth
begin

declare map_of_eq_Some_iff [simp del] Some_eq_map_of_iff [simp del]

text \<open>
  Protected resource metadata (\<^verbatim>\<open>src/mcp/resource_metadata/\<close> and the routes of
  \<^verbatim>\<open>src/mcp/transport/http.rs\<close> that serve it): the document, the set of documents of a server with
  several origins, where a request's document comes from, and the challenge that points at it.
\<close>

definition WELL_KNOWN_PROTECTED_RESOURCE :: string where
  "WELL_KNOWN_PROTECTED_RESOURCE = ''/.well-known/oauth-protected-resource''"

definition DIALED_HOST_HEADERS :: "string list" where
  "DIALED_HOST_HEADERS = [''x-forwarded-host'', ''host'']"

fun find_header :: "(string \<Rightarrow> string option) \<Rightarrow> header_map \<Rightarrow> string list \<Rightarrow> string option" where
  "find_header to_str headers [] = None"
| "find_header to_str headers (name # names) =
     (case header_text to_str headers name of Some v \<Rightarrow> Some v | None \<Rightarrow> find_header to_str headers names)"

definition dialed_host :: "(string \<Rightarrow> string option) \<Rightarrow> header_map \<Rightarrow> string option" where
  "dialed_host to_str headers = find_header to_str headers DIALED_HOST_HEADERS"

subsection \<open>Resource identifiers\<close>

datatype scheme_policy = HttpsOrLoopbackHttp | RequireHttps | AllowHttp

datatype resource_scheme = PlainHttp | SecureHttp

definition policy_admits :: "scheme_policy \<Rightarrow> resource_scheme \<Rightarrow> string \<Rightarrow> bool" where
  "policy_admits policy scheme host =
     (case scheme of
        SecureHttp \<Rightarrow> True
      | PlainHttp \<Rightarrow>
          (case policy of
             AllowHttp \<Rightarrow> True
           | HttpsOrLoopbackHttp \<Rightarrow> is_loopback_host host
           | RequireHttps \<Rightarrow> False))"

record parsed_resource =
  pr_scheme :: resource_scheme
  pr_authority :: string
  pr_origin :: string
  pr_path :: string

text \<open>\<^verbatim>\<open>str::split_once\<close> at a text that is not empty, and \<^verbatim>\<open>str::rsplit_once\<close> at a character.\<close>

fun split_once_text :: "string \<Rightarrow> string \<Rightarrow> (string \<times> string) option" where
  "split_once_text p [] = None"
| "split_once_text p (c # cs) =
     (if take (length p) (c # cs) = p then Some ([], drop (length p) (c # cs))
      else map_option (\<lambda>(a, b). (c # a, b)) (split_once_text p cs))"

definition rsplit_once :: "char \<Rightarrow> string \<Rightarrow> (string \<times> string) option" where
  "rsplit_once c s = map_option (\<lambda>(a, b). (rev b, rev a)) (split_once c (rev s))"

definition scheme_of_text :: "string \<Rightarrow> resource_scheme option" where
  "scheme_of_text s =
     (if eq_ignore_ascii_case s ''https'' then Some SecureHttp
      else if eq_ignore_ascii_case s ''http'' then Some PlainHttp else None)"

definition parse_resource :: "string \<Rightarrow> parsed_resource option" where
  "parse_resource resource =
     (if list_ex (\<lambda>c. c \<in> {CHR ''?'', CHR ''#''}) resource \<or> list_ex is_whitespace (chars resource) then None
      else
        (case split_once_text ''://'' resource of
           None \<Rightarrow> None
         | Some (scheme_text, rest) \<Rightarrow>
             (case scheme_of_text scheme_text of
                None \<Rightarrow> None
              | Some scheme \<Rightarrow>
                  (let authority = takeWhile (\<lambda>c. c \<noteq> CHR ''/'') rest in
                   if authority = [] \<or> CHR ''@'' \<in> set authority then None
                   else
                     (let origin_len = length scheme_text + 3 + length authority in
                      Some \<lparr>pr_scheme = scheme, pr_authority = authority,
                            pr_origin = take origin_len resource, pr_path = drop origin_len resource\<rparr>)))))"

definition host_and_port :: "parsed_resource \<Rightarrow> string \<times> string option" where
  "host_and_port p =
     (case rsplit_once (CHR '':'') (pr_authority p) of
        Some (host, port) \<Rightarrow>
          if port \<noteq> [] \<and> list_all is_ascii_digit port
             \<and> (\<not> (host \<noteq> [] \<and> hd host = CHR ''['') \<or> (host \<noteq> [] \<and> last host = CHR '']''))
          then (host, Some port) else (pr_authority p, None)
      | None \<Rightarrow> (pr_authority p, None))"

definition resource_host :: "parsed_resource \<Rightarrow> string" where
  "resource_host p = fst (host_and_port p)"

definition authority_without_default_port :: "parsed_resource \<Rightarrow> string" where
  "authority_without_default_port p =
     (let default_port = (case pr_scheme p of SecureHttp \<Rightarrow> ''443'' | PlainHttp \<Rightarrow> ''80'') in
      case host_and_port p of
        (host, Some port) \<Rightarrow> if port = default_port then host else pr_authority p
      | (host, None) \<Rightarrow> pr_authority p)"

subsection \<open>The document\<close>

record resource_metadata =
  prm_resource :: string
  prm_authorization_servers :: "string list"
  prm_jwks_uri :: "string option"
  prm_scopes_supported :: "string list"
  prm_bearer_methods_supported :: "string list"
  prm_resource_name :: "string option"
  prm_resource_documentation :: "string option"

datatype invalid_resource = InvalidResource string

fun invalid_resource_text :: "invalid_resource \<Rightarrow> string" where
  "invalid_resource_text (InvalidResource resource) =
     [CHR 0x27] @ resource @ [CHR 0x27]
     @ '' is not a protected resource identifier: an https URL (http only where the scheme policy allows it) with no query, fragment or credentials''"

definition with_scheme_policy ::
  "string \<Rightarrow> string list \<Rightarrow> scheme_policy \<Rightarrow> (invalid_resource, resource_metadata) result" where
  "with_scheme_policy resource authorization_servers policy =
     (if (case parse_resource resource of
            None \<Rightarrow> False
          | Some p \<Rightarrow> policy_admits policy (pr_scheme p) (resource_host p))
      then Inr \<lparr>prm_resource = resource, prm_authorization_servers = authorization_servers, prm_jwks_uri = None,
                prm_scopes_supported = [], prm_bearer_methods_supported = [''header''],
                prm_resource_name = None, prm_resource_documentation = None\<rparr>
      else Inl (InvalidResource resource))"

definition resource_metadata_new ::
  "string \<Rightarrow> string list \<Rightarrow> (invalid_resource, resource_metadata) result" where
  "resource_metadata_new resource authorization_servers =
     with_scheme_policy resource authorization_servers HttpsOrLoopbackHttp"

definition with_scopes :: "string list \<Rightarrow> resource_metadata \<Rightarrow> resource_metadata" where
  "with_scopes scopes d = d\<lparr>prm_scopes_supported := scopes\<rparr>"

definition with_jwks_uri :: "string \<Rightarrow> resource_metadata \<Rightarrow> resource_metadata" where
  "with_jwks_uri url d = d\<lparr>prm_jwks_uri := Some url\<rparr>"

definition with_resource_name :: "string \<Rightarrow> resource_metadata \<Rightarrow> resource_metadata" where
  "with_resource_name name d = d\<lparr>prm_resource_name := Some name\<rparr>"

definition with_resource_documentation :: "string \<Rightarrow> resource_metadata \<Rightarrow> resource_metadata" where
  "with_resource_documentation url d = d\<lparr>prm_resource_documentation := Some url\<rparr>"

definition listed :: "string \<Rightarrow> string list \<Rightarrow> (string \<times> json) list" where
  "listed name xs = (if xs = [] then [] else [(name, JArray (map JString xs))])"

definition given :: "string \<Rightarrow> string option \<Rightarrow> (string \<times> json) list" where
  "given name x = (case x of None \<Rightarrow> [] | Some s \<Rightarrow> [(name, JString s)])"

definition metadata_json :: "resource_metadata \<Rightarrow> json" where
  "metadata_json d =
     JObject ([(''resource'', JString (prm_resource d))]
              @ listed ''authorization_servers'' (prm_authorization_servers d)
              @ given ''jwks_uri'' (prm_jwks_uri d)
              @ listed ''scopes_supported'' (prm_scopes_supported d)
              @ [(''bearer_methods_supported'', JArray (map JString (prm_bearer_methods_supported d)))]
              @ given ''resource_name'' (prm_resource_name d)
              @ given ''resource_documentation'' (prm_resource_documentation d))"

definition without_end_slashes :: "string \<Rightarrow> string" where
  "without_end_slashes path = rev (dropWhile (\<lambda>c. c = CHR ''/'') (rev path))"

definition metadata_path :: "resource_metadata \<Rightarrow> string" where
  "metadata_path d =
     WELL_KNOWN_PROTECTED_RESOURCE
     @ without_end_slashes (case parse_resource (prm_resource d) of None \<Rightarrow> [] | Some p \<Rightarrow> pr_path p)"

definition metadata_url :: "resource_metadata \<Rightarrow> string" where
  "metadata_url d =
     (case parse_resource (prm_resource d) of None \<Rightarrow> [] | Some p \<Rightarrow> pr_origin p) @ metadata_path d"

definition is_dialed_as :: "resource_metadata \<Rightarrow> string \<Rightarrow> bool" where
  "is_dialed_as d host =
     (case parse_resource (prm_resource d) of
        None \<Rightarrow> False
      | Some p \<Rightarrow> eq_ignore_ascii_case (authority_without_default_port p) host)"

subsection \<open>The documents of a server\<close>

record metadata_set =
  mds_canonical :: resource_metadata
  mds_aliases :: "resource_metadata list"

definition metadata_set_new :: "resource_metadata \<Rightarrow> metadata_set" where
  "metadata_set_new canonical = \<lparr>mds_canonical = canonical, mds_aliases = []\<rparr>"

definition with_alias :: "resource_metadata \<Rightarrow> metadata_set \<Rightarrow> metadata_set" where
  "with_alias alias s = s\<lparr>mds_aliases := mds_aliases s @ [alias]\<rparr>"

definition documents :: "metadata_set \<Rightarrow> resource_metadata list" where
  "documents s = mds_canonical s # mds_aliases s"

definition for_host :: "metadata_set \<Rightarrow> string option \<Rightarrow> resource_metadata" where
  "for_host s host =
     (case Option.bind host (\<lambda>h. let first = trim (hd (split_on (CHR '','') h)) in
                                 if first = [] then None else Some first) of
        None \<Rightarrow> mds_canonical s
      | Some h \<Rightarrow> unwrap_or (List.find (\<lambda>d. is_dialed_as d h) (documents s)) (mds_canonical s))"

text \<open>A source: the document for a path and headers, and the paths it is served at.\<close>

record metadata_source =
  ms_metadata_for :: "string \<Rightarrow> header_map \<Rightarrow> resource_metadata option"
  ms_metadata_paths :: "string list"

definition paths_of :: "resource_metadata list \<Rightarrow> string list" where
  "paths_of ds =
     fold (\<lambda>d paths. if metadata_path d \<in> set paths then paths else paths @ [metadata_path d])
       ds [WELL_KNOWN_PROTECTED_RESOURCE]"

definition source_of_document :: "resource_metadata \<Rightarrow> metadata_source" where
  "source_of_document d = \<lparr>ms_metadata_for = (\<lambda>path headers. Some d), ms_metadata_paths = paths_of [d]\<rparr>"

definition source_of_set :: "(string \<Rightarrow> string option) \<Rightarrow> metadata_set \<Rightarrow> metadata_source" where
  "source_of_set to_str s =
     \<lparr>ms_metadata_for = (\<lambda>path headers. Some (for_host s (dialed_host to_str headers))),
      ms_metadata_paths = paths_of (documents s)\<rparr>"

definition source_of_closure :: "(string \<Rightarrow> header_map \<Rightarrow> resource_metadata option) \<Rightarrow> metadata_source" where
  "source_of_closure f = \<lparr>ms_metadata_for = f, ms_metadata_paths = [WELL_KNOWN_PROTECTED_RESOURCE]\<rparr>"

definition serve_resource_metadata ::
  "(json \<Rightarrow> string) \<Rightarrow> metadata_source \<Rightarrow> string \<Rightarrow> header_map \<Rightarrow> answer" where
  "serve_resource_metadata json_text source path headers =
     (case ms_metadata_for source path headers of
        None \<Rightarrow> \<lparr>an_status = 404, an_headers = [], an_body = []\<rparr>
      | Some d \<Rightarrow>
          (let response = json_answer json_text 200 (metadata_json d) in
           response\<lparr>an_headers := header_insert ''access-control-allow-origin'' ''*'' (an_headers response)\<rparr>))"

text \<open>The routes: what a \<^verbatim>\<open>GET\<close> of a path is answered, when a route takes it.\<close>

definition metadata_routes ::
  "(json \<Rightarrow> string) \<Rightarrow> metadata_source \<Rightarrow> string \<Rightarrow> header_map \<Rightarrow> answer option" where
  "metadata_routes json_text source path headers =
     (if path \<in> set (ms_metadata_paths source)
      then Some (serve_resource_metadata json_text source path headers) else None)"

subsection \<open>The challenge\<close>

datatype bearer_error = BearerInvalidRequest | BearerInvalidToken | BearerInsufficientScope

fun bearer_error_text :: "bearer_error \<Rightarrow> string" where
  "bearer_error_text BearerInvalidRequest = ''invalid_request''"
| "bearer_error_text BearerInvalidToken = ''invalid_token''"
| "bearer_error_text BearerInsufficientScope = ''insufficient_scope''"

record bearer_challenge =
  bc_resource_metadata :: string
  bc_error :: "bearer_error option"
  bc_scope :: "string option"

definition bearer_challenge_new :: "string \<Rightarrow> bearer_challenge" where
  "bearer_challenge_new url = \<lparr>bc_resource_metadata = url, bc_error = None, bc_scope = None\<rparr>"

definition with_error :: "bearer_error \<Rightarrow> bearer_challenge \<Rightarrow> bearer_challenge" where
  "with_error e c = c\<lparr>bc_error := Some e\<rparr>"

definition with_scope :: "string \<Rightarrow> bearer_challenge \<Rightarrow> bearer_challenge" where
  "with_scope scope c = c\<lparr>bc_scope := Some scope\<rparr>"

definition invalid_token :: "bearer_challenge \<Rightarrow> bearer_challenge" where
  "invalid_token c = with_error BearerInvalidToken c"

definition insufficient_scope :: "string \<Rightarrow> bearer_challenge \<Rightarrow> bearer_challenge" where
  "insufficient_scope scope c = with_scope scope (with_error BearerInsufficientScope c)"

definition write_quoted :: "string \<Rightarrow> string" where
  "write_quoted v = [CHR 0x22] @ quote_escape v @ [CHR 0x22]"

definition challenge_text :: "bearer_challenge \<Rightarrow> string" where
  "challenge_text c =
     ''Bearer resource_metadata='' @ write_quoted (bc_resource_metadata c)
     @ (case bc_error c of None \<Rightarrow> [] | Some e \<Rightarrow> '', error='' @ write_quoted (bearer_error_text e))
     @ (case bc_scope c of None \<Rightarrow> [] | Some s \<Rightarrow> '', scope='' @ write_quoted s)"

definition metadata_challenge :: "resource_metadata \<Rightarrow> bearer_challenge" where
  "metadata_challenge d = bearer_challenge_new (metadata_url d)"

definition www_authenticate :: "resource_metadata \<Rightarrow> string" where
  "www_authenticate d = challenge_text (metadata_challenge d)"

subsection \<open>Where a challenge points\<close>

lemma split_once_text_Some: "split_once_text p s = Some (a, b) \<Longrightarrow> s = a @ p @ b"
proof (induction s arbitrary: a)
  case (Cons c s)
  show ?case
  proof (cases "take (length p) (c # s) = p")
    case True
    with Cons.prems show ?thesis by (metis append_Nil append_take_drop_id option.inject prod.inject split_once_text.simps(2))
  next
    case False
    with Cons show ?thesis by auto
  qed
qed simp

lemma parsed_parts:
  assumes "parse_resource resource = Some p"
  shows "\<exists>scheme_text authority path.
     resource = scheme_text @ ''://'' @ authority @ path \<and> scheme_of_text scheme_text = Some (pr_scheme p)
     \<and> pr_origin p = scheme_text @ ''://'' @ authority \<and> pr_path p = path \<and> pr_authority p = authority
     \<and> authority \<noteq> [] \<and> CHR ''/'' \<notin> set authority \<and> CHR ''@'' \<notin> set authority
     \<and> (path = [] \<or> hd path = CHR ''/'')"
proof -
  obtain scheme_text rest where split: "split_once_text ''://'' resource = Some (scheme_text, rest)"
    and scheme: "scheme_of_text scheme_text = Some (pr_scheme p)"
    and p: "pr_authority p = takeWhile (\<lambda>c. c \<noteq> CHR ''/'') rest"
      "pr_authority p \<noteq> []" "CHR ''@'' \<notin> set (pr_authority p)"
      "pr_origin p = take (length scheme_text + 3 + length (pr_authority p)) resource"
      "pr_path p = drop (length scheme_text + 3 + length (pr_authority p)) resource"
    using assms by (auto simp: parse_resource_def Let_def split: if_splits option.splits)
  have rest: "rest = pr_authority p @ dropWhile (\<lambda>c. c \<noteq> CHR ''/'') rest"
    by (simp add: p(1))
  have "resource = scheme_text @ ''://'' @ rest" using split by (rule split_once_text_Some)
  then have res: "resource = (scheme_text @ ''://'' @ pr_authority p) @ dropWhile (\<lambda>c. c \<noteq> CHR ''/'') rest"
    using rest by simp
  have len: "length scheme_text + 3 + length (pr_authority p) = length (scheme_text @ ''://'' @ pr_authority p)" by simp
  have origin: "pr_origin p = scheme_text @ ''://'' @ pr_authority p"
    unfolding p(4) len by (subst res) (rule append_eq_conv_conj [THEN iffD1, OF refl, THEN conjunct1, symmetric])
  have path: "pr_path p = dropWhile (\<lambda>c. c \<noteq> CHR ''/'') rest"
    unfolding p(5) len by (subst res) (rule append_eq_conv_conj [THEN iffD1, OF refl, THEN conjunct2, symmetric])
  have hd: "pr_path p = [] \<or> hd (pr_path p) = CHR ''/''"
    unfolding path using hd_dropWhile [of "\<lambda>c. c \<noteq> CHR ''/''" rest] by blast
  have slash: "CHR ''/'' \<notin> set (pr_authority p)" unfolding p(1) by (blast dest: set_takeWhileD)
  have whole: "resource = scheme_text @ ''://'' @ pr_authority p @ pr_path p"
    unfolding path by (subst res) (simp only: append_assoc)
  show ?thesis using whole scheme origin hd slash p(2,3) by blast
qed

text \<open>
  A challenge points at the document the server serves: for a resource identifier its policy
  admits, the URL of the challenge is on the identifier's own origin, at the well-known segment put
  before its path, a \<^verbatim>\<open>GET\<close> there is answered with the document, and the document names the
  identifier it was made for; plain http is taken only where the policy says so.
\<close>

theorem challenges_point_at_the_served_document:
  assumes "with_scheme_policy resource servers policy = Inr d"
  shows "\<exists>scheme_text authority path.
     resource = scheme_text @ ''://'' @ authority @ path \<and> (path = [] \<or> hd path = CHR ''/'')
     \<and> authority \<noteq> [] \<and> CHR ''/'' \<notin> set authority \<and> CHR ''@'' \<notin> set authority
     \<and> metadata_url d = scheme_text @ ''://'' @ authority @ metadata_path d
     \<and> metadata_path d = ''/.well-known/oauth-protected-resource'' @ without_end_slashes path
     \<and> metadata_routes json_text (source_of_document d) (metadata_path d) headers =
         Some \<lparr>an_status = 200,
               an_headers = [(''content-type'', APPLICATION_JSON), (''access-control-allow-origin'', ''*'')],
               an_body = [Data (json_text (metadata_json d))]\<rparr>
     \<and> json_get ''resource'' (metadata_json d) = Some (JString resource)
     \<and> (scheme_of_text scheme_text = Some SecureHttp
        \<or> scheme_of_text scheme_text = Some PlainHttp
           \<and> (policy = AllowHttp \<or> policy = HttpsOrLoopbackHttp \<and>
                (\<exists>p. parse_resource resource = Some p \<and> is_loopback_host (resource_host p))))"
proof -
  obtain p where p: "parse_resource resource = Some p" "policy_admits policy (pr_scheme p) (resource_host p)"
    and res: "prm_resource d = resource"
    using assms by (auto simp: with_scheme_policy_def split: if_splits option.splits)
  obtain scheme_text authority path where parts:
     "resource = scheme_text @ ''://'' @ authority @ path" "scheme_of_text scheme_text = Some (pr_scheme p)"
     "pr_origin p = scheme_text @ ''://'' @ authority" "pr_path p = path"
     "authority \<noteq> []" "CHR ''/'' \<notin> set authority" "CHR ''@'' \<notin> set authority"
     "path = [] \<or> hd path = CHR ''/''"
    using parsed_parts [OF p(1)] by blast
  have url: "metadata_url d = scheme_text @ ''://'' @ authority @ metadata_path d"
    by (simp add: metadata_url_def res p(1) parts(3))
  have at: "metadata_path d = ''/.well-known/oauth-protected-resource'' @ without_end_slashes path"
    by (simp add: metadata_path_def res p(1) parts(4) WELL_KNOWN_PROTECTED_RESOURCE_def)
  have served: "metadata_routes json_text (source_of_document d) (metadata_path d) headers =
         Some \<lparr>an_status = 200,
               an_headers = [(''content-type'', APPLICATION_JSON), (''access-control-allow-origin'', ''*'')],
               an_body = [Data (json_text (metadata_json d))]\<rparr>"
    by (simp add: metadata_routes_def source_of_document_def paths_of_def serve_resource_metadata_def
        json_answer_def header_insert_def header_remove_def)
  have doc: "json_get ''resource'' (metadata_json d) = Some (JString resource)"
    by (simp add: metadata_json_def json_get_def res)
  have scheme: "scheme_of_text scheme_text = Some SecureHttp
        \<or> scheme_of_text scheme_text = Some PlainHttp
           \<and> (policy = AllowHttp \<or> policy = HttpsOrLoopbackHttp \<and>
                (\<exists>p. parse_resource resource = Some p \<and> is_loopback_host (resource_host p)))"
    using p parts(2) by (auto simp: policy_admits_def split: resource_scheme.splits scheme_policy.splits)
  show ?thesis using parts(1,5-8) url at served doc scheme by blast
qed

lemma challenges_point_at_the_served_document_witness:
  "\<exists>d scheme_text authority path. with_scheme_policy ''https://a.example/mcp/'' [] RequireHttps = Inr d
     \<and> metadata_url d = scheme_text @ ''://'' @ authority @ metadata_path d
     \<and> ''https://a.example/mcp/'' = scheme_text @ ''://'' @ authority @ path"
proof -
  have parsed: "parse_resource ''https://a.example/mcp/'' =
      Some \<lparr>pr_scheme = SecureHttp, pr_authority = ''a.example'', pr_origin = ''https://a.example'', pr_path = ''/mcp/''\<rparr>"
    by code_simp
  obtain d where d: "with_scheme_policy ''https://a.example/mcp/'' [] RequireHttps = Inr d"
    by (simp add: with_scheme_policy_def parsed policy_admits_def)
  from challenges_point_at_the_served_document [OF d] d show ?thesis by blast
qed

subsection \<open>Reading a challenge back\<close>

text \<open>A client's reading of the challenge: RFC 9110's quoted strings.\<close>

fun unquote :: "string \<Rightarrow> (string \<times> string) option" where
  "unquote [] = None"
| "unquote (c # cs) =
     (if c = CHR 0x22 then Some ([], cs)
      else if c = CHR 0x5C
      then (case cs of [] \<Rightarrow> None | d # ds \<Rightarrow> map_option (\<lambda>(v, r). (d # v, r)) (unquote ds))
      else map_option (\<lambda>(v, r). (c # v, r)) (unquote cs))"

definition read_param :: "string \<Rightarrow> string \<Rightarrow> (string \<times> string) option" where
  "read_param name s = Option.bind (strip_prefix (name @ [CHR 0x22]) s) unquote"

definition read_optional :: "string \<Rightarrow> string \<Rightarrow> string option \<times> string" where
  "read_optional name s = (case read_param name s of Some (v, r) \<Rightarrow> (Some v, r) | None \<Rightarrow> (None, s))"

definition read_challenge :: "string \<Rightarrow> (string \<times> string option \<times> string option) option" where
  "read_challenge s =
     (case read_param ''Bearer resource_metadata='' s of
        None \<Rightarrow> None
      | Some (url, r) \<Rightarrow>
          (case read_optional '', error='' r of
             (e, r1) \<Rightarrow> (case read_optional '', scope='' r1 of
                (sc, r2) \<Rightarrow> if r2 = [] then Some (url, e, sc) else None)))"

lemma unquote_escape: "unquote (quote_escape v @ CHR 0x22 # r) = Some (v, r)"
  by (induction v) auto

lemma read_written: "read_param name (name @ write_quoted v @ r) = Some (v, r)"
proof -
  have "name @ write_quoted v @ r = (name @ [CHR 0x22]) @ quote_escape v @ CHR 0x22 # r" by (simp add: write_quoted_def)
  then have "strip_prefix (name @ [CHR 0x22]) (name @ write_quoted v @ r) = Some (quote_escape v @ CHR 0x22 # r)"
    by (metis strip_prefix_Some)
  then show ?thesis by (simp add: read_param_def unquote_escape)
qed

lemma read_optional_written:
  "read_optional name (name @ write_quoted v @ r) = (Some v, r)"
  by (simp only: read_optional_def read_written option.case prod.case)

text \<open>
  A challenge says exactly what it was made to say: a client that reads the header by HTTP's
  quoted-string grammar gets the metadata URL, the error code and the scope, whatever characters
  they hold.
\<close>

theorem challenges_read_back:
  "read_challenge (challenge_text c) =
     Some (bc_resource_metadata c, map_option bearer_error_text (bc_error c), bc_scope c)"
proof -
  let ?e = "case bc_error c of None \<Rightarrow> [] | Some e \<Rightarrow> '', error='' @ write_quoted (bearer_error_text e)"
  let ?s = "case bc_scope c of None \<Rightarrow> [] | Some s \<Rightarrow> '', scope='' @ write_quoted s"
  have url: "read_param ''Bearer resource_metadata='' (challenge_text c) = Some (bc_resource_metadata c, ?e @ ?s)"
    unfolding challenge_text_def by (simp only: append_assoc read_written)
  have no_error: "read_optional '', error='' ?s = (None, ?s)"
    by (simp add: read_optional_def read_param_def strip_prefix_def split: option.split)
  have error: "read_optional '', error='' (?e @ ?s) = (map_option bearer_error_text (bc_error c), ?s)"
  proof (cases "bc_error c")
    case None
    with no_error show ?thesis by simp
  next
    case (Some e)
    then show ?thesis by (simp only: option.case append_assoc read_optional_written option.map)
  qed
  have scope: "read_optional '', scope='' ?s = (bc_scope c, [])"
  proof (cases "bc_scope c")
    case None
    then show ?thesis by (simp add: read_optional_def read_param_def strip_prefix_def)
  next
    case (Some s)
    then show ?thesis using read_optional_written [of "'', scope=''" s "[]"] by (simp only: option.case append_Nil2)
  qed
  show ?thesis unfolding read_challenge_def url by (simp add: error scope)
qed

subsection \<open>Dialed hosts\<close>

text \<open>
  A forged host picks another of the server's own documents at most: whatever the headers say,
  the answer is one of the set's documents, the document of a dialed host when one of them is its,
  and the canonical one otherwise.
\<close>

theorem dialed_hosts_pick_own_documents:
  "for_host s host \<in> set (documents s)
   \<and> (for_host s host = mds_canonical s
      \<or> (\<exists>h. host = Some h \<and> is_dialed_as (for_host s host) (trim (hd (split_on (CHR '','') h)))))
   \<and> ((\<exists>h d. host = Some h \<and> d \<in> set (documents s) \<and> trim (hd (split_on (CHR '','') h)) \<noteq> []
          \<and> is_dialed_as d (trim (hd (split_on (CHR '','') h)))) \<longrightarrow>
      (\<exists>h. host = Some h \<and> is_dialed_as (for_host s host) (trim (hd (split_on (CHR '','') h)))))"
proof (cases host)
  case None
  then show ?thesis by (simp add: for_host_def documents_def)
next
  case (Some h)
  let ?first = "trim (hd (split_on (CHR '','') h))"
  have found: "for_host s host = unwrap_or (List.find (\<lambda>d. is_dialed_as d ?first) (documents s)) (mds_canonical s)"
    if "?first \<noteq> []" using that by (simp add: Some for_host_def Let_def)
  show ?thesis
  proof (cases "?first = []")
    case True
    then show ?thesis by (simp add: Some for_host_def Let_def documents_def)
  next
    case False
    show ?thesis
    proof (cases "List.find (\<lambda>d. is_dialed_as d ?first) (documents s)")
      case None
      then have "\<forall>d \<in> set (documents s). \<not> is_dialed_as d ?first" by (simp add: find_None_iff_all)
      moreover have "for_host s host = mds_canonical s" using found [OF False] None by simp
      moreover have "mds_canonical s \<in> set (documents s)" by (simp add: documents_def)
      ultimately show ?thesis using Some by auto
    next
      case (Some d)
      from find_Some_mem [OF Some] found [OF False] Some \<open>host = Some h\<close> show ?thesis by auto
    qed
  qed
qed

definition demo_document :: "string \<Rightarrow> resource_metadata" where
  "demo_document resource =
     \<lparr>prm_resource = resource, prm_authorization_servers = [], prm_jwks_uri = None, prm_scopes_supported = [],
      prm_bearer_methods_supported = [''header''], prm_resource_name = None, prm_resource_documentation = None\<rparr>"

lemma dialed_hosts_pick_own_documents_witness:
  "is_dialed_as (for_host \<lparr>mds_canonical = demo_document ''https://a.example'', mds_aliases = [demo_document ''https://B.example'']\<rparr>
       (Some ''b.example, proxy'')) ''b.example''"
proof -
  let ?s = "\<lparr>mds_canonical = demo_document ''https://a.example'', mds_aliases = [demo_document ''https://B.example'']\<rparr>"
  have first: "trim (hd (split_on (CHR '','') ''b.example, proxy'')) = ''b.example''" by code_simp
  have "parse_resource ''https://B.example'' =
      Some \<lparr>pr_scheme = SecureHttp, pr_authority = ''B.example'', pr_origin = ''https://B.example'', pr_path = []\<rparr>"
    by code_simp
  moreover have "authority_without_default_port
      \<lparr>pr_scheme = SecureHttp, pr_authority = ''B.example'', pr_origin = ''https://B.example'', pr_path = []\<rparr> = ''B.example''"
    by code_simp
  moreover have "eq_ignore_ascii_case ''B.example'' ''b.example''" by code_simp
  ultimately have "is_dialed_as (demo_document ''https://B.example'') ''b.example''"
    by (simp add: is_dialed_as_def demo_document_def)
  then have "\<exists>h d. Some ''b.example, proxy'' = Some h \<and> d \<in> set (documents ?s) \<and> trim (hd (split_on (CHR '','') h)) \<noteq> []
      \<and> is_dialed_as d (trim (hd (split_on (CHR '','') h)))"
    using first by (auto simp: documents_def simp del: split_on.simps)
  with dialed_hosts_pick_own_documents [of ?s "Some ''b.example, proxy''"] first
  show ?thesis by (auto simp del: split_on.simps)
qed

end
