(* ===== verification/Caller.thy ===== *)
theory Caller
  imports Iam Resource_Metadata
begin

declare map_of_eq_Some_iff [simp del] Some_eq_map_of_iff [simp del]

text \<open>
  Verified callers (\<^verbatim>\<open>src/mcp/caller.rs\<close>): the verifier of a platform's tokens, the hook that turns a
  verified token into the context of a call, and their configuration.

  The JWT library decodes a token under a key and a validation to the JSON of its claims; reading
  the claims from it is the code's. \<open>lookup\<close> is the key set's lookup of a key id. What is written
  to the log is not modelled.
\<close>

definition PLATFORM_TENANT_CLAIM :: string where "PLATFORM_TENANT_CLAIM = ''active_tenant_id''"
definition VERIFIED_CALLER_AUTH_METHOD :: string where "VERIFIED_CALLER_AUTH_METHOD = ''verified_caller''"

definition REQUIRED_CLAIMS :: "string list" where
  "REQUIRED_CLAIMS = [''exp'', ''iss'', ''aud'', ''sub'']"

subsection \<open>The verifier\<close>

record verified_caller =
  vc_user_id :: string
  vc_tenant_id :: "string option"
  vc_scopes :: "string list"
  vc_client_id :: "string option"

definition into_context :: "token \<Rightarrow> json option \<Rightarrow> verified_caller \<Rightarrow> tool_context" where
  "into_context token request_id v =
     (tool_context_default token)\<lparr>tx_user_id := Some (vc_user_id v),
        tx_auth_method := Some VERIFIED_CALLER_AUTH_METHOD, tx_tenant_id := vc_tenant_id v,
        tx_scopes := vc_scopes v, tx_client_id := vc_client_id v, tx_request_id := request_id\<rparr>"

record caller_claims =
  cc_sub :: string
  cc_scope :: "string option"
  cc_client_id :: "string option"
  cc_rest :: json_map

text \<open>\<^verbatim>\<open>Deserialize\<close> for \<^verbatim>\<open>CallerClaims\<close>: the flattened rest holds the members no field is named after.\<close>

definition optional_string :: "string \<Rightarrow> json_map \<Rightarrow> string option option" where
  "optional_string name m =
     (case map_of m name of
        None \<Rightarrow> Some None
      | Some v \<Rightarrow> (case v of JNull \<Rightarrow> Some None | JString s \<Rightarrow> Some (Some s) | _ \<Rightarrow> None))"

definition caller_claims_of_json :: "json \<Rightarrow> caller_claims option" where
  "caller_claims_of_json v =
     (case v of
        JObject m \<Rightarrow>
          (case (Option.bind (map_of m ''sub'') as_str, optional_string ''scope'' m, optional_string ''client_id'' m) of
             (Some sub, Some scope, Some client_id) \<Rightarrow>
               Some \<lparr>cc_sub = sub, cc_scope = scope, cc_client_id = client_id,
                     cc_rest = filter (\<lambda>(k, _). k \<notin> {''sub'', ''scope'', ''client_id''}) m\<rparr>
           | _ \<Rightarrow> None)
      | _ \<Rightarrow> None)"

record caller_verifier =
  cv_issuer :: string
  cv_audience :: string
  cv_tenant_claim :: string

definition caller_verifier_new :: "string \<Rightarrow> string \<Rightarrow> caller_verifier" where
  "caller_verifier_new issuer audience =
     \<lparr>cv_issuer = issuer, cv_audience = audience, cv_tenant_claim = PLATFORM_TENANT_CLAIM\<rparr>"

definition with_tenant_claim :: "string \<Rightarrow> caller_verifier \<Rightarrow> caller_verifier" where
  "with_tenant_claim claim v = v\<lparr>cv_tenant_claim := claim\<rparr>"

record caller_validation =
  cva_algorithm :: string
  cva_audience :: "string list"
  cva_issuers :: "string list"
  cva_required :: "string list"
  cva_nbf :: bool

definition caller_validation_of :: "caller_verifier \<Rightarrow> caller_validation" where
  "caller_validation_of v =
     \<lparr>cva_algorithm = ''RS256'', cva_audience = [cv_audience v], cva_issuers = [cv_issuer v],
      cva_required = REQUIRED_CLAIMS, cva_nbf = True\<rparr>"

text \<open>The library: the reading of a header and a key, the validated claims of a token, and the error
  of claims that are not of the shape.\<close>

record 'k caller_jwt =
  cj_keys :: "'k jwt"
  cj_decode :: "string \<Rightarrow> 'k \<Rightarrow> caller_validation \<Rightarrow> (string, json) result"
  cj_shape_error :: "json \<Rightarrow> string"

text \<open>\<^verbatim>\<open>str::split_whitespace\<close>.\<close>

fun gather_words :: "(int \<times> string) list \<Rightarrow> string \<Rightarrow> string list" where
  "gather_words [] word = (if word = [] then [] else [word])"
| "gather_words ((c, bytes) # rest) word =
     (if is_whitespace c then (if word = [] then [] else [word]) @ gather_words rest []
      else gather_words rest (word @ bytes))"

definition split_whitespace :: "string \<Rightarrow> string list" where
  "split_whitespace s = gather_words (utf8_chunks s) []"

definition tenant_of_claims :: "string \<Rightarrow> caller_claims \<Rightarrow> (iam_error, string option) result" where
  "tenant_of_claims claim c =
     (case map_of (cc_rest c) claim of
        None \<Rightarrow> Inr None
      | Some v \<Rightarrow>
          (case v of
             JNull \<Rightarrow> Inr None
           | JString tenant \<Rightarrow>
               if trim tenant \<noteq> [] then Inr (Some tenant)
               else Inl (TokenRejected (''claim '' @ claim @ '' is not a tenant id''))
           | _ \<Rightarrow> Inl (TokenRejected (''claim '' @ claim @ '' is not a tenant id''))))"

definition caller_of_claims :: "caller_verifier \<Rightarrow> caller_claims \<Rightarrow> (iam_error, verified_caller) result" where
  "caller_of_claims v c =
     (if trim (cc_sub c) = [] then Inl (TokenRejected ''token has an empty sub'')
      else
        result_bind (tenant_of_claims (cv_tenant_claim v) c) (\<lambda>tenant_id.
          Inr \<lparr>vc_user_id = cc_sub c, vc_tenant_id = tenant_id,
               vc_scopes = split_whitespace (unwrap_or (cc_scope c) []),
               vc_client_id = Option.bind (cc_client_id c) (\<lambda>c. if c = [] then None else Some c)\<rparr>))"

definition verify_caller ::
  "'k caller_jwt \<Rightarrow> (string \<Rightarrow> (iam_error, signing_key) result) \<Rightarrow> caller_verifier \<Rightarrow> string
     \<Rightarrow> (iam_error, verified_caller) result" where
  "verify_caller J lookup v token =
     result_bind (decoding_key_for (cj_keys J) lookup token) (\<lambda>key.
       case cj_decode J token key (caller_validation_of v) of
         Inl e \<Rightarrow> Inl (TokenRejected e)
       | Inr payload \<Rightarrow>
           (case caller_claims_of_json payload of
              None \<Rightarrow> Inl (TokenRejected (cj_shape_error J payload))
            | Some claims \<Rightarrow> caller_of_claims v claims))"

subsection \<open>The hook\<close>

record caller_hook =
  chk_verifier :: caller_verifier
  chk_challenge :: string
  chk_shared_key :: "api_key_hook option"
  chk_anonymous :: bool

definition caller_hook_new :: "caller_verifier \<Rightarrow> string \<Rightarrow> caller_hook" where
  "caller_hook_new v challenge =
     \<lparr>chk_verifier = v, chk_challenge = challenge, chk_shared_key = None, chk_anonymous = False\<rparr>"

definition with_shared_key :: "api_key_hook \<Rightarrow> caller_hook \<Rightarrow> caller_hook" where
  "with_shared_key hook h = h\<lparr>chk_shared_key := Some hook\<rparr>"

definition allowing_anonymous :: "caller_hook \<Rightarrow> caller_hook" where
  "allowing_anonymous h = h\<lparr>chk_anonymous := True\<rparr>"

definition presented_token :: "rpc_request \<Rightarrow> string option" where
  "presented_token request = Option.bind (rq_auth request) (\<lambda>t. if t = [] then None else Some t)"

text \<open>\<open>fresh\<close> is the token of the context made for the call.\<close>

definition caller_authenticate ::
  "environment \<Rightarrow> 'k caller_jwt \<Rightarrow> (string \<Rightarrow> (iam_error, signing_key) result) \<Rightarrow> caller_hook \<Rightarrow> token
     \<Rightarrow> rpc_request \<Rightarrow> (auth_error, tool_context) result" where
  "caller_authenticate env J lookup h fresh request =
     (case presented_token request of
        None \<Rightarrow>
          if chk_anonymous h then Inr ((tool_context_default fresh)\<lparr>tx_request_id := rq_id request\<rparr>)
          else Inl (Unauthorized (chk_challenge h))
      | Some presented \<Rightarrow>
          (case Option.bind (chk_shared_key h) (\<lambda>hook. admit env hook fresh presented request) of
             Some ctx \<Rightarrow> Inr ctx
           | None \<Rightarrow>
               (case verify_caller J lookup (chk_verifier h) presented of
                  Inr caller \<Rightarrow> Inr (into_context fresh (rq_id request) caller)
                | Inl (JwksUnavailable why) \<Rightarrow> Inl (AuthInternal ''The caller token could not be checked'')
                | Inl why \<Rightarrow> Inl (Unauthorized (chk_challenge h)))))"

subsection \<open>Configuration\<close>

datatype caller_config_error =
    IncompleteConfig "string list"
  | InvalidResourceConfig invalid_resource

fun caller_config_error_text :: "caller_config_error \<Rightarrow> string" where
  "caller_config_error_text (IncompleteConfig missing) =
     ''caller tokens are configured by every variable or none; unset: '' @ join_with '', '' missing"
| "caller_config_error_text (InvalidResourceConfig invalid) = invalid_resource_text invalid"

record caller_token_config =
  ctc_resource :: string
  ctc_issuer :: string
  ctc_jwks_url :: string
  ctc_authorization_server :: string

definition config_variables :: "string \<Rightarrow> string list" where
  "config_variables p =
     [p @ ''_RESOURCE_URL'', p @ ''_CALLER_ISSUER'', p @ ''_CALLER_JWKS_URL'', p @ ''_AUTHORIZATION_SERVER'']"

definition config_metadata :: "caller_token_config \<Rightarrow> (invalid_resource, resource_metadata) result" where
  "config_metadata c = resource_metadata_new (ctc_resource c) [ctc_authorization_server c]"

definition caller_config_from_env ::
  "environment \<Rightarrow> string \<Rightarrow> (caller_config_error, caller_token_config option) result" where
  "caller_config_from_env env p =
     (let names = config_variables p; values = map (configured_key env) names in
      if list_all (\<lambda>v. v = None) values then Inr None
      else
        (case concat (map (\<lambda>v. case v of None \<Rightarrow> [] | Some s \<Rightarrow> [s]) values) of
           resource # issuer # jwks_url # authorization_server # _ \<Rightarrow>
             (let config = \<lparr>ctc_resource = resource, ctc_issuer = issuer, ctc_jwks_url = jwks_url,
                            ctc_authorization_server = authorization_server\<rparr> in
              case config_metadata config of
                Inl invalid \<Rightarrow> Inl (InvalidResourceConfig invalid)
              | Inr _ \<Rightarrow> Inr (Some config))
         | _ \<Rightarrow> Inl (IncompleteConfig (map fst (filter (\<lambda>(_, v). v = None) (zip names values))))))"

text \<open>The verifier of a configuration, and the URL its key set is fetched from.\<close>

definition config_verifier :: "caller_token_config \<Rightarrow> caller_verifier \<times> string" where
  "config_verifier c = (caller_verifier_new (ctc_issuer c) (ctc_resource c), ctc_jwks_url c)"

subsection \<open>Who a call runs as\<close>

lemma verified_caller_iff:
  "verify_caller J lookup v token = Inr caller \<longleftrightarrow>
     (\<exists>kid key k payload claims tenant.
        jw_header_kid (cj_keys J) token = Inr (Some kid) \<and> lookup kid = Inr key
        \<and> jw_rsa_key (cj_keys J) (sk_n key) (sk_e key) = Inr k
        \<and> cj_decode J token k (caller_validation_of v) = Inr payload
        \<and> caller_claims_of_json payload = Some claims \<and> trim (cc_sub claims) \<noteq> []
        \<and> tenant_of_claims (cv_tenant_claim v) claims = Inr tenant
        \<and> caller = \<lparr>vc_user_id = cc_sub claims, vc_tenant_id = tenant,
             vc_scopes = split_whitespace (unwrap_or (cc_scope claims) []),
             vc_client_id = Option.bind (cc_client_id claims) (\<lambda>c. if c = [] then None else Some c)\<rparr>)"
proof -
  have kid: "token_kid J' token = Inr kid \<longleftrightarrow> jw_header_kid J' token = Inr (Some kid)" for kid and J' :: "'a jwt"
    by (simp add: token_kid_def split: sum.split option.split)
  have key: "usable_key J' kid key = Inr k \<longleftrightarrow> jw_rsa_key J' (sk_n key) (sk_e key) = Inr k" for kid key k and J' :: "'a jwt"
    by (simp add: usable_key_def split: sum.split)
  have claims: "caller_of_claims v claims = Inr caller \<longleftrightarrow>
      trim (cc_sub claims) \<noteq> [] \<and> (\<exists>tenant. tenant_of_claims (cv_tenant_claim v) claims = Inr tenant
        \<and> caller = \<lparr>vc_user_id = cc_sub claims, vc_tenant_id = tenant,
             vc_scopes = split_whitespace (unwrap_or (cc_scope claims) []),
             vc_client_id = Option.bind (cc_client_id claims) (\<lambda>c. if c = [] then None else Some c)\<rparr>)" for claims
    by (auto simp: caller_of_claims_def result_bind_Inr_iff)
  have decoded: "(case cj_decode J token k (caller_validation_of v) of
         Inl e \<Rightarrow> Inl (TokenRejected e)
       | Inr payload \<Rightarrow>
           (case caller_claims_of_json payload of
              None \<Rightarrow> Inl (TokenRejected (cj_shape_error J payload))
            | Some claims \<Rightarrow> caller_of_claims v claims)) = Inr caller \<longleftrightarrow>
      (\<exists>payload claims. cj_decode J token k (caller_validation_of v) = Inr payload
         \<and> caller_claims_of_json payload = Some claims \<and> caller_of_claims v claims = Inr caller)" for k
    by (auto split: sum.splits option.splits)
  show ?thesis
    unfolding verify_caller_def decoding_key_for_def result_bind_Inr_iff kid key decoded claims by blast
qed

lemma tenant_of_claims_Some:
  "tenant_of_claims claim c = Inr (Some tenant) \<longleftrightarrow>
     map_of (cc_rest c) claim = Some (JString tenant) \<and> trim tenant \<noteq> []"
  by (auto simp: tenant_of_claims_def split: option.splits json.splits)

lemma authenticated_cases:
  "caller_authenticate env J lookup h fresh request = Inr ctx \<longleftrightarrow>
     presented_token request = None \<and> chk_anonymous h
       \<and> ctx = (tool_context_default fresh)\<lparr>tx_request_id := rq_id request\<rparr>
     \<or> (\<exists>presented hook. presented_token request = Some presented \<and> chk_shared_key h = Some hook
          \<and> admit env hook fresh presented request = Some ctx)
     \<or> (\<exists>presented caller. presented_token request = Some presented
          \<and> Option.bind (chk_shared_key h) (\<lambda>hook. admit env hook fresh presented request) = None
          \<and> verify_caller J lookup (chk_verifier h) presented = Inr caller
          \<and> ctx = into_context fresh (rq_id request) caller)"
  by (auto simp: caller_authenticate_def bind_eq_Some_conv split: option.splits sum.splits iam_error.splits)


text \<open>
  C37: A tool for a tenant's rows runs for the tenant of a verified token only: when the hook admits
  a call and the registry's gate lets it through to a tool that requires a tenant, the call's token
  verified and its tenant claim is a non-empty string, the very tenant the tool reads off its context.
\<close>

theorem tenant_tools_run_for_verified_tenants:
  assumes "caller_authenticate env J lookup h fresh request = Inr ctx"
    and "refusal name caps scopes ctx = None" and "caps_contains caps REQUIRES_TENANT"
  shows "\<exists>token caller tenant. presented_token request = Some token
    \<and> verify_caller J lookup (chk_verifier h) token = Inr caller
    \<and> tx_user_id ctx = Some (vc_user_id caller) \<and> tx_tenant_id ctx = Some tenant
    \<and> vc_tenant_id caller = Some tenant \<and> trim tenant \<noteq> []
    \<and> list_all (\<lambda>scope. scope \<in> set (vc_scopes caller)) scopes"
proof -
  have gate: "non_empty (tx_tenant_id ctx)" "list_all (\<lambda>scope. scope \<in> set (tx_scopes ctx)) scopes"
    using assms(2,3) by (auto simp: refusal_def Let_def find_None_iff list_ex_iff list_all_iff split: if_splits)
  from assms(1) obtain token caller where v: "presented_token request = Some token"
    "verify_caller J lookup (chk_verifier h) token = Inr caller" "ctx = into_context fresh (rq_id request) caller"
    using gate(1) unfolding authenticated_cases
    by (auto simp: admit_def tool_context_default_def non_empty_def split: option.splits if_splits)
  have ctx: "tx_user_id ctx = Some (vc_user_id caller)" "tx_tenant_id ctx = vc_tenant_id caller" "tx_scopes ctx = vc_scopes caller"
    by (simp_all add: v(3) into_context_def)
  obtain tenant where t: "vc_tenant_id caller = Some tenant"
    using gate(1) by (auto simp: ctx non_empty_def split: option.splits)
  have "trim tenant \<noteq> []"
    using v(2) t unfolding verified_caller_iff by (auto simp: tenant_of_claims_Some)
  with v ctx t gate(2) show ?thesis by auto
qed

text \<open>The members a field of the claims is named after are not in the rest: a tenant claim of such a
  name is never found, whatever the token says.\<close>

lemma claims_of_own_fields_hold_no_tenant:
  assumes "caller_claims_of_json payload = Some claims" and "claim \<in> {''sub'', ''scope'', ''client_id''}"
  shows "tenant_of_claims claim claims = Inr None"
proof -
  have "map_of (cc_rest claims) claim = None"
    using assms by (auto simp: caller_claims_of_json_def map_of_eq_None_iff split: json.splits option.splits)
  then show ?thesis by (simp add: tenant_of_claims_def)
qed

text \<open>
  Caller tokens are configured by all four variables or none: the configuration is absent
  exactly when no variable is set, complete exactly when all are and the resource identifier is
  allowed, and otherwise refused, an incomplete one naming exactly the variables that are missing;
  its audience is the resource its metadata publishes.
\<close>

theorem caller_configuration_is_all_or_none:
  "case caller_config_from_env env p of
     Inr None \<Rightarrow> \<forall>name \<in> set (config_variables p). configured_key env name = None
   | Inr (Some c) \<Rightarrow>
       map (configured_key env) (config_variables p) =
         [Some (ctc_resource c), Some (ctc_issuer c), Some (ctc_jwks_url c), Some (ctc_authorization_server c)]
       \<and> (\<exists>d. config_metadata c = Inr d \<and> prm_resource d = cv_audience (fst (config_verifier c)))
   | Inl (IncompleteConfig missing) \<Rightarrow>
       missing \<noteq> [] \<and> missing = filter (\<lambda>name. configured_key env name = None) (config_variables p)
       \<and> (\<exists>name \<in> set (config_variables p). configured_key env name \<noteq> None)
   | Inl (InvalidResourceConfig (InvalidResource resource)) \<Rightarrow>
       \<forall>name \<in> set (config_variables p). configured_key env name \<noteq> None"
proof -
  have doc: "resource_metadata_new r s = Inr d \<Longrightarrow> prm_resource d = r" for r s d
    by (auto simp: resource_metadata_new_def with_scheme_policy_def split: if_splits)
  obtain a b c d where v: "config_variables p = [a, b, c, d]" by (simp add: config_variables_def)
  show ?thesis
    by (cases "configured_key env a"; cases "configured_key env b"; cases "configured_key env c"; cases "configured_key env d")
       (auto simp: caller_config_from_env_def v Let_def config_metadata_def config_verifier_def caller_verifier_new_def
         doc split: sum.splits invalid_resource.splits)
qed

subsection \<open>A platform, its token and a hook\<close>

definition demo_claims :: json where
  "demo_claims = JObject [(''sub'', JString ''u1''), (''active_tenant_id'', JString ''t1''), (''scope'', JString ''read write'')]"

definition demo_caller_jwt :: "string caller_jwt" where
  "demo_caller_jwt =
     \<lparr>cj_keys = \<lparr>jw_header_kid = (\<lambda>_. Inr (Some ''k1'')), jw_rsa_key = (\<lambda>n e. Inr n), jw_decode = (\<lambda>_ _ _. Inl [])\<rparr>,
      cj_decode = (\<lambda>token k va. if token = ''a.b.c'' \<and> k = ''n1'' \<and> ''https://a.example/mcp'' \<in> set (cva_audience va)
                                  \<and> ''https://i.example'' \<in> set (cva_issuers va)
                                then Inr demo_claims else Inl ''refused''),
      cj_shape_error = (\<lambda>_. [])\<rparr>"

definition demo_lookup :: "string \<Rightarrow> (iam_error, signing_key) result" where
  "demo_lookup kid =
     (if kid = ''k1'' then Inr \<lparr>sk_kid = ''k1'', sk_n = ''n1'', sk_e = ''AQAB''\<rparr> else Inl (unknown_kid kid))"

definition demo_caller_hook :: caller_hook where
  "demo_caller_hook = caller_hook_new (caller_verifier_new ''https://i.example'' ''https://a.example/mcp'') ''Bearer''"

definition demo_call :: rpc_request where
  "demo_call = \<lparr>rq_jsonrpc = ''2.0'', rq_method = ''tools/call'', rq_params = None, rq_id = Some (JNumber (PosInt 1)),
     rq_auth = Some ''a.b.c'', rq_headers = None, rq_metadata = []\<rparr>"

definition demo_identity :: verified_caller where
  "demo_identity = \<lparr>vc_user_id = ''u1'', vc_tenant_id = Some ''t1'', vc_scopes = [''read'', ''write''], vc_client_id = None\<rparr>"

lemma demo_trims: "trim ''u1'' = ''u1''" "trim ''t1'' = ''t1''" "split_whitespace ''read write'' = [''read'', ''write'']"
  by code_simp+

lemma demo_claims_read:
  "caller_claims_of_json demo_claims =
     Some \<lparr>cc_sub = ''u1'', cc_scope = Some ''read write'', cc_client_id = None,
           cc_rest = [(''active_tenant_id'', JString ''t1'')]\<rparr>"
  by (simp add: demo_claims_def caller_claims_of_json_def optional_string_def as_str_def)

lemma demo_key: "decoding_key_for (cj_keys demo_caller_jwt) demo_lookup ''a.b.c'' = Inr ''n1''"
  by (simp add: decoding_key_for_def token_kid_def usable_key_def demo_caller_jwt_def demo_lookup_def)

lemma demo_decoded: "cj_decode demo_caller_jwt ''a.b.c'' ''n1'' (caller_validation_of (chk_verifier demo_caller_hook)) = Inr demo_claims"
  by (simp add: demo_caller_jwt_def demo_caller_hook_def caller_hook_new_def caller_verifier_new_def caller_validation_of_def)

lemma demo_tenant_claim: "cv_tenant_claim (chk_verifier demo_caller_hook) = ''active_tenant_id''"
  by (simp add: demo_caller_hook_def caller_hook_new_def caller_verifier_new_def PLATFORM_TENANT_CLAIM_def)

lemma demo_verified: "verify_caller demo_caller_jwt demo_lookup (chk_verifier demo_caller_hook) ''a.b.c'' = Inr demo_identity"
  by (simp add: verify_caller_def demo_key demo_decoded demo_claims_read caller_of_claims_def tenant_of_claims_def
      demo_tenant_claim demo_trims demo_identity_def)

lemma demo_admitted:
  "caller_authenticate env demo_caller_jwt demo_lookup demo_caller_hook fresh demo_call =
     Inr (into_context fresh (Some (JNumber (PosInt 1))) demo_identity)"
  using demo_verified
  by (simp add: caller_authenticate_def presented_token_def demo_call_def)
     (simp add: demo_caller_hook_def caller_hook_new_def)

lemma tenant_tools_run_for_verified_tenants_witness:
  "\<exists>caller. verify_caller demo_caller_jwt demo_lookup (chk_verifier demo_caller_hook) ''a.b.c'' = Inr caller
     \<and> vc_tenant_id caller = Some ''t1''"
proof -
  let ?ctx = "into_context 0 (Some (JNumber (PosInt 1))) demo_identity"
  have "refusal ''rows'' REQUIRES_TENANT [''read''] ?ctx = None"
    by (simp add: refusal_def Let_def caps_contains_def REQUIRES_TENANT_def ADMIN_ONLY_def non_empty_def
        into_context_def demo_identity_def)
  moreover have "caps_contains REQUIRES_TENANT REQUIRES_TENANT" by (simp add: caps_contains_def)
  ultimately show ?thesis
    using tenant_tools_run_for_verified_tenants [OF demo_admitted [of "\<lambda>_. None" 0], of "''rows''" REQUIRES_TENANT "[''read'']"]
    by (auto simp: presented_token_def demo_call_def into_context_def demo_identity_def)
qed

lemma caller_configuration_is_all_or_none_witness:
  "caller_config_from_env (\<lambda>name. if name = ''X_CALLER_ISSUER'' then Some ''i'' else None) ''X'' \<noteq> Inr None
   \<and> (\<forall>c. caller_config_from_env (\<lambda>name. if name = ''X_CALLER_ISSUER'' then Some ''i'' else None) ''X'' \<noteq> Inr (Some c))"
proof -
  let ?env = "\<lambda>name. if name = ''X_CALLER_ISSUER'' then Some ''i'' else None"
  have t: "trim ''i'' = ''i''" by code_simp
  have set_one: "configured_key ?env ''X_CALLER_ISSUER'' = Some ''i''" by (simp add: configured_key_def t)
  have unset: "configured_key ?env ''X_RESOURCE_URL'' = None" by (simp add: configured_key_def)
  show ?thesis
    using caller_configuration_is_all_or_none [of ?env "''X''"] set_one unset
    by (auto simp: config_variables_def)
qed


end
