(* ===== verification/Notifications.thy ===== *)
theory Notifications
  imports Notify_Layer Service_Client
begin

declare map_of_eq_Some_iff [simp del] Some_eq_map_of_iff [simp del]

text \<open>
  The notification clients (\<^verbatim>\<open>src/notifications/\<close>): their configuration, the Slack client with its
  signature check and uploads, the Resend client with its retries, the alert mailer and the PostHog
  client.

  A client's request is a value; what an tries met is a \<open>met\<close>. A task spawned to send is the
  function of what it meets. The text of a status, the reading of JSON and the HMAC, encoded, are
  arguments.
\<close>

subsection \<open>Configuration\<close>

record slack_config =
  sc_bot_token :: string
  sc_error_channel :: string
  sc_signing_secret :: "string option"

record email_config =
  ec_resend_api_key :: string
  ec_from_address :: string
  ec_to_addresses :: "string list"

record notification_config =
  nc_slack :: "slack_config option"
  nc_email :: "email_config option"
  nc_batch_window :: duration
  nc_max_messages_per_minute :: nat
  nc_dedup_window :: duration
  nc_service_name :: string
  nc_environment :: string
  nc_host :: "string option"

definition U32_MAX :: nat where "U32_MAX = 2 ^ 32 - 1"

definition parse_u32 :: "string \<Rightarrow> nat option" where
  "parse_u32 s = Option.bind (parse_u64 s) (\<lambda>n. if n \<le> U32_MAX then Some n else None)"

definition env_nonempty :: "environment \<Rightarrow> string \<Rightarrow> string option" where
  "env_nonempty env name = Option.bind (env name) (\<lambda>s. if s = [] then None else Some s)"

definition slack_config_from_env :: "environment \<Rightarrow> slack_config option" where
  "slack_config_from_env env =
     (case env_nonempty env ''SLACK_BOT_TOKEN'' of
        None \<Rightarrow> None
      | Some bot_token \<Rightarrow>
          (case env_nonempty env ''SLACK_ERROR_CHANNEL'' of
             None \<Rightarrow> None
           | Some error_channel \<Rightarrow>
               Some \<lparr>sc_bot_token = bot_token, sc_error_channel = error_channel,
                     sc_signing_secret = env_nonempty env ''SLACK_SIGNING_SECRET''\<rparr>))"

definition email_config_from_env :: "environment \<Rightarrow> email_config option" where
  "email_config_from_env env =
     (case env_nonempty env ''RESEND_API_KEY'' of
        None \<Rightarrow> None
      | Some resend_api_key \<Rightarrow>
          (case env_nonempty env ''NOTIFY_EMAIL_FROM'' of
             None \<Rightarrow> None
           | Some from_address \<Rightarrow>
               (case env_nonempty env ''NOTIFY_EMAIL_TO'' of
                  None \<Rightarrow> None
                | Some joined \<Rightarrow>
                    (let to_addresses = filter (\<lambda>s. s \<noteq> []) (map trim (split_on (CHR '','') joined)) in
                     if to_addresses = [] then None
                     else Some \<lparr>ec_resend_api_key = resend_api_key, ec_from_address = from_address,
                                ec_to_addresses = to_addresses\<rparr>))))"

definition env_number :: "(string \<Rightarrow> nat option) \<Rightarrow> environment \<Rightarrow> string \<Rightarrow> nat \<Rightarrow> nat" where
  "env_number parse env name d = unwrap_or (Option.bind (env name) parse) d"

fun first_env :: "environment \<Rightarrow> string list \<Rightarrow> string option" where
  "first_env env [] = None"
| "first_env env (name # names) =
     (case env_nonempty env name of Some s \<Rightarrow> Some s | None \<Rightarrow> first_env env names)"

definition notification_config_from_env :: "environment \<Rightarrow> notification_config" where
  "notification_config_from_env env =
     \<lparr>nc_slack = slack_config_from_env env, nc_email = email_config_from_env env,
      nc_batch_window = env_number parse_u64 env ''NOTIFY_BATCH_WINDOW_SECS'' 5 * SECOND,
      nc_max_messages_per_minute = env_number parse_u32 env ''NOTIFY_MAX_MESSAGES_PER_MIN'' 10,
      nc_dedup_window = env_number parse_u64 env ''NOTIFY_DEDUP_WINDOW_SECS'' 30 * SECOND,
      nc_service_name = unwrap_or (env ''SERVICE_NAME'') ''dravr-service'',
      nc_environment = unwrap_or (env ''ENVIRONMENT'') ''development'',
      nc_host = first_env env [''DRAVR_NOTIFY_HOST'', ''K_REVISION'', ''HOSTNAME'', ''HOST'']\<rparr>"

subsection \<open>Slack\<close>

datatype post_body = JsonBody json | FormBody "(string \<times> string) list" | BytesBody string

record http_post =
  hp_url :: string
  hp_authorization :: "string option"
  hp_body :: post_body

record notify_libraries =
  nlb_status_text :: "nat \<Rightarrow> string"
  nlb_read_json :: "string \<Rightarrow> (request_error, json) result"
  nlb_json_text :: "json \<Rightarrow> string"

definition SLACK_POST_MESSAGE_URL :: string where "SLACK_POST_MESSAGE_URL = ''https://slack.com/api/chat.postMessage''"
definition SLACK_CHAT_UPDATE_URL :: string where "SLACK_CHAT_UPDATE_URL = ''https://slack.com/api/chat.update''"
definition SLACK_VIEWS_OPEN_URL :: string where "SLACK_VIEWS_OPEN_URL = ''https://slack.com/api/views.open''"
definition SLACK_GET_UPLOAD_URL_URL :: string where
  "SLACK_GET_UPLOAD_URL_URL = ''https://slack.com/api/files.getUploadURLExternal''"
definition SLACK_COMPLETE_UPLOAD_URL :: string where
  "SLACK_COMPLETE_UPLOAD_URL = ''https://slack.com/api/files.completeUploadExternal''"
definition MAX_TIMESTAMP_AGE_SECS :: nat where "MAX_TIMESTAMP_AGE_SECS = 300"

definition SLACK_MISCONFIGURED_TARGET_ERRORS :: "string list" where
  "SLACK_MISCONFIGURED_TARGET_ERRORS =
     [''channel_not_found'', ''is_archived'', ''not_in_channel'', ''invalid_auth'', ''not_authed'',
      ''account_inactive'', ''token_revoked'', ''missing_scope'', ''restricted_action'']"

definition is_misconfigured_target :: "string \<Rightarrow> bool" where
  "is_misconfigured_target api_error \<longleftrightarrow> api_error \<in> set SLACK_MISCONFIGURED_TARGET_ERRORS"

datatype slack_result = SlackOk | ApiError string | HttpError string

text \<open>What a failed call logs: at ERROR for a misconfigured target, at WARN otherwise.\<close>

datatype delivery_log = TargetMisconfigured string string string | DeliveryFailed string string string

definition log_delivery_failure :: "slack_result \<Rightarrow> string \<Rightarrow> string \<Rightarrow> delivery_log option" where
  "log_delivery_failure r channel operation =
     (case r of
        SlackOk \<Rightarrow> None
      | ApiError e \<Rightarrow>
          Some (if is_misconfigured_target e then TargetMisconfigured e channel operation
                else DeliveryFailed e channel operation)
      | HttpError e \<Rightarrow> Some (DeliveryFailed e channel operation))"

record slack_client =
  slc_bot_token :: string
  slc_signing_secret :: "string option"

definition slack_client_new :: "slack_config \<Rightarrow> slack_client" where
  "slack_client_new config =
     \<lparr>slc_bot_token = sc_bot_token config, slc_signing_secret = sc_signing_secret config\<rparr>"

datatype signature_error =
    MissingHeader string
  | TimestampExpired nat
  | InvalidSignature
  | NotConfigured

fun signature_error_text :: "signature_error \<Rightarrow> string" where
  "signature_error_text (MissingHeader h) = ''missing header: '' @ h"
| "signature_error_text (TimestampExpired age) = ''timestamp too old ('' @ nat_text age @ ''s)''"
| "signature_error_text InvalidSignature = ''invalid HMAC signature''"
| "signature_error_text NotConfigured = ''signing secret not configured''"

record slack_file =
  sf_filename :: string
  sf_title :: "string option"
  sf_alt_text :: "string option"
  sf_bytes :: string

definition slack_file_new :: "string \<Rightarrow> string \<Rightarrow> slack_file" where
  "slack_file_new filename bytes =
     \<lparr>sf_filename = filename, sf_title = None, sf_alt_text = None, sf_bytes = bytes\<rparr>"

definition with_title :: "string \<Rightarrow> slack_file \<Rightarrow> slack_file" where
  "with_title title f = f\<lparr>sf_title := Some title\<rparr>"

definition with_alt_text :: "string \<Rightarrow> slack_file \<Rightarrow> slack_file" where
  "with_alt_text alt_text f = f\<lparr>sf_alt_text := Some alt_text\<rparr>"

definition ok_body :: "json \<Rightarrow> (slack_result, json) result" where
  "ok_body body =
     (if unwrap_or (Option.bind (json_get ''ok'' body) as_bool) False then Inr body
      else Inl (ApiError (unwrap_or (Option.bind (json_get ''error'' body) as_str) ''unknown'')))"

definition read_slack_response :: "notify_libraries \<Rightarrow> met \<Rightarrow> (slack_result, json) result" where
  "read_slack_response L m =
     (case m of
        NoResponse e \<Rightarrow> Inl (HttpError (describe_request_error e))
      | Responded status headers body \<Rightarrow>
          if \<not> is_success_status status then Inl (HttpError (''HTTP '' @ nlb_status_text L status))
          else
            (case result_bind body (nlb_read_json L) of
               Inl e \<Rightarrow> Inl (HttpError (''response parse: '' @ describe_request_error e))
             | Inr v \<Rightarrow> ok_body v))"

definition slack_post :: "slack_client \<Rightarrow> string \<Rightarrow> post_body \<Rightarrow> http_post" where
  "slack_post c url body =
     \<lparr>hp_url = url, hp_authorization = Some (''Bearer '' @ slc_bot_token c), hp_body = body\<rparr>"

definition send_slack_request :: "notify_libraries \<Rightarrow> met \<Rightarrow> slack_result" where
  "send_slack_request L m = (case read_slack_response L m of Inr _ \<Rightarrow> SlackOk | Inl failure \<Rightarrow> failure)"

text \<open>A fire-and-forget call: its request, and what its task logs of what it met.\<close>

definition post_message ::
  "notify_libraries \<Rightarrow> slack_client \<Rightarrow> string \<Rightarrow> json \<Rightarrow> http_post \<times> (met \<Rightarrow> delivery_log option)" where
  "post_message L c channel blocks =
     (slack_post c SLACK_POST_MESSAGE_URL
        (JsonBody (JObject [(''channel'', JString channel), (''blocks'', blocks)])),
      (\<lambda>m. log_delivery_failure (send_slack_request L m) channel ''post_message''))"

definition post_message_await ::
  "notify_libraries \<Rightarrow> slack_client \<Rightarrow> string \<Rightarrow> json \<Rightarrow> http_post \<times> (met \<Rightarrow> slack_result)" where
  "post_message_await L c channel blocks =
     (slack_post c SLACK_POST_MESSAGE_URL
        (JsonBody (JObject [(''channel'', JString channel), (''blocks'', blocks)])),
      send_slack_request L)"

definition update_message ::
  "notify_libraries \<Rightarrow> slack_client \<Rightarrow> string \<Rightarrow> string \<Rightarrow> json \<Rightarrow> http_post \<times> (met \<Rightarrow> delivery_log option)" where
  "update_message L c channel message_ts blocks =
     (slack_post c SLACK_CHAT_UPDATE_URL
        (JsonBody (JObject [(''channel'', JString channel), (''ts'', JString message_ts), (''blocks'', blocks)])),
      (\<lambda>m. log_delivery_failure (send_slack_request L m) channel ''update_message''))"

definition views_open_payload :: "string \<Rightarrow> json \<Rightarrow> json" where
  "views_open_payload trigger_id view = JObject [(''trigger_id'', JString trigger_id), (''view'', view)]"

definition open_view ::
  "notify_libraries \<Rightarrow> slack_client \<Rightarrow> string \<Rightarrow> json \<Rightarrow> http_post \<times> (met \<Rightarrow> slack_result)" where
  "open_view L c trigger_id view =
     (slack_post c SLACK_VIEWS_OPEN_URL (JsonBody (views_open_payload trigger_id view)), send_slack_request L)"

subsection \<open>Uploads\<close>

record reserved_upload =
  ru_upload_url :: string
  ru_file_id :: string

definition reserve_upload_form :: "slack_file \<Rightarrow> (string \<times> string) list" where
  "reserve_upload_form f =
     [(''filename'', sf_filename f), (''length'', nat_text (length (sf_bytes f)))]
     @ (case sf_alt_text f of Some alt_text \<Rightarrow> [(''alt_txt'', alt_text)] | None \<Rightarrow> [])"

definition reserved_upload :: "json \<Rightarrow> (slack_result, reserved_upload) result" where
  "reserved_upload body =
     (case (Option.bind (json_get ''upload_url'' body) as_str, Option.bind (json_get ''file_id'' body) as_str) of
        (Some upload_url, Some file_id) \<Rightarrow> Inr \<lparr>ru_upload_url = upload_url, ru_file_id = file_id\<rparr>
      | _ \<Rightarrow> Inl (ApiError ''files.getUploadURLExternal answered without upload_url and file_id''))"

definition upload_bytes_post :: "string \<Rightarrow> string \<Rightarrow> http_post" where
  "upload_bytes_post upload_url bytes =
     \<lparr>hp_url = upload_url, hp_authorization = None, hp_body = BytesBody bytes\<rparr>"

definition post_upload_bytes :: "notify_libraries \<Rightarrow> met \<Rightarrow> (slack_result, unit) result" where
  "post_upload_bytes L m =
     (case m of
        NoResponse e \<Rightarrow> Inl (HttpError (describe_request_error e))
      | Responded status headers body \<Rightarrow>
          if is_success_status status then Inr ()
          else Inl (HttpError (''file upload HTTP '' @ nlb_status_text L status)))"

definition complete_upload_form ::
  "notify_libraries \<Rightarrow> string \<Rightarrow> string \<Rightarrow> string \<Rightarrow> string option \<Rightarrow> (string \<times> string) list" where
  "complete_upload_form L file_id title channel initial_comment =
     [(''files'', nlb_json_text L (JArray [JObject [(''id'', JString file_id), (''title'', JString title)]])),
      (''channel_id'', channel)]
     @ (case initial_comment of Some comment \<Rightarrow> [(''initial_comment'', comment)] | None \<Rightarrow> [])"

text \<open>An upload: the requests it makes, given what each would meet, and its result.\<close>

definition upload_file ::
  "notify_libraries \<Rightarrow> slack_client \<Rightarrow> string \<Rightarrow> slack_file \<Rightarrow> string option \<Rightarrow> met \<Rightarrow> met \<Rightarrow> met
     \<Rightarrow> http_post list \<times> slack_result" where
  "upload_file L c channel f initial_comment m1 m2 m3 =
     (let p1 = slack_post c SLACK_GET_UPLOAD_URL_URL (FormBody (reserve_upload_form f)) in
      case result_bind (read_slack_response L m1) reserved_upload of
        Inl failure \<Rightarrow> ([p1], failure)
      | Inr reserved \<Rightarrow>
          (let title = unwrap_or (sf_title f) (sf_filename f);
               p2 = upload_bytes_post (ru_upload_url reserved) (sf_bytes f) in
           case post_upload_bytes L m2 of
             Inl failure \<Rightarrow> ([p1, p2], failure)
           | Inr _ \<Rightarrow>
               ([p1, p2, slack_post c SLACK_COMPLETE_UPLOAD_URL
                   (FormBody (complete_upload_form L (ru_file_id reserved) title channel initial_comment))],
                (case read_slack_response L m3 of Inr _ \<Rightarrow> SlackOk | Inl failure \<Rightarrow> failure))))"

subsection \<open>Signatures\<close>

text \<open>\<open>sign secret message\<close> is the lower-case hexadecimal of the HMAC-SHA256 of the message.\<close>

definition v0_basestring :: "string \<Rightarrow> string \<Rightarrow> string" where
  "v0_basestring timestamp body =
     ''v0:'' @ timestamp @ '':'' @ (if utf8_valid body then body else [])"

definition verify_signature ::
  "(string \<Rightarrow> string \<Rightarrow> string) \<Rightarrow> nat \<Rightarrow> slack_client \<Rightarrow> string \<Rightarrow> string \<Rightarrow> string \<Rightarrow> (signature_error, unit) result" where
  "verify_signature sign now c timestamp signature body =
     (case slc_signing_secret c of
        None \<Rightarrow> Inl NotConfigured
      | Some signing_secret \<Rightarrow>
          (case parse_u64 timestamp of
             None \<Rightarrow> Inl (MissingHeader ''x-slack-request-timestamp'')
           | Some ts \<Rightarrow>
               (let age = now - ts in
                if age > MAX_TIMESTAMP_AGE_SECS then Inl (TimestampExpired age)
                else if signature = ''v0='' @ sign signing_secret (v0_basestring timestamp body) then Inr ()
                else Inl InvalidSignature)))"

subsection \<open>Resend\<close>

definition RESEND_API_URL :: string where "RESEND_API_URL = ''https://api.resend.com/emails''"
definition MAX_RETRIES :: nat where "MAX_RETRIES = 3"
definition MAX_RETRY_DELAY :: duration where "MAX_RETRY_DELAY = 5 * SECOND"
definition DEFAULT_RETRY_DELAY :: duration where "DEFAULT_RETRY_DELAY = SECOND"
definition RETRY_DELAY_FLOOR :: duration where "RETRY_DELAY_FLOOR = 200 * MILLISECOND"

datatype resend_body = TextBody string | HtmlBody string

record resend_email =
  rm_from :: string
  rm_to :: "string list"
  rm_subject :: string
  rm_body :: resend_body

definition resend_payload :: "resend_email \<Rightarrow> json" where
  "resend_payload email =
     JObject ([(''from'', JString (rm_from email)), (''to'', JArray (map JString (rm_to email))),
               (''subject'', JString (rm_subject email))]
              @ (case rm_body email of
                   TextBody t \<Rightarrow> [(''text'', JString t)]
                 | HtmlBody h \<Rightarrow> [(''html'', JString h)]))"

type_synonym resend_receipt = "string option"

datatype resend_error =
    MissingApiKey
  | ResendTransport string
  | ResendApi nat string

fun resend_error_text :: "resend_error \<Rightarrow> string" where
  "resend_error_text MissingApiKey = ''Resend API key is empty''"
| "resend_error_text (ResendTransport reason) = ''Resend request failed: '' @ reason"
| "resend_error_text (ResendApi status body) =
     ''Resend API error (HTTP '' @ nat_text status @ ''): '' @ body"

record resend_client =
  rc_api_key :: string

definition resend_client_new :: "string \<Rightarrow> (resend_error, resend_client) result" where
  "resend_client_new api_key = (if api_key = [] then Inl MissingApiKey else Inr \<lparr>rc_api_key = api_key\<rparr>)"

definition resend_post :: "resend_client \<Rightarrow> resend_email \<Rightarrow> http_post" where
  "resend_post c email =
     \<lparr>hp_url = RESEND_API_URL, hp_authorization = Some (''Bearer '' @ rc_api_key c),
      hp_body = JsonBody (resend_payload email)\<rparr>"

definition parse_retry_delay :: "string option \<Rightarrow> string option \<Rightarrow> duration option" where
  "parse_retry_delay retry_after ratelimit_reset =
     (let secs = (\<lambda>v. Option.bind v (\<lambda>s. parse_u64 (trim s))) in
      map_option (\<lambda>n. n * SECOND)
        (case secs retry_after of Some n \<Rightarrow> Some n | None \<Rightarrow> secs ratelimit_reset))"

definition retry_delay_from_headers :: "(string \<Rightarrow> string option) \<Rightarrow> header_map \<Rightarrow> duration option" where
  "retry_delay_from_headers to_str headers =
     parse_retry_delay (header_text to_str headers ''retry-after'') (header_text to_str headers ''ratelimit-reset'')"

definition plan_retry :: "nat \<Rightarrow> duration option \<Rightarrow> duration option" where
  "plan_retry tries hint =
     (if tries \<ge> MAX_RETRIES then None
      else
        (let delay = unwrap_or hint DEFAULT_RETRY_DELAY in
         if delay \<le> MAX_RETRY_DELAY then Some (max delay RETRY_DELAY_FLOOR) else None))"

text \<open>What one answer leads to: an end, or a wait before the next attempt.\<close>

definition accepted_id :: "notify_libraries \<Rightarrow> (request_error, string) result \<Rightarrow> string option" where
  "accepted_id L body =
     (case result_bind body (nlb_read_json L) of
        Inl e \<Rightarrow> None
      | Inr v \<Rightarrow>
          (case v of
             JObject m \<Rightarrow> Option.bind (json_get ''id'' v) as_str
           | JArray [x] \<Rightarrow> as_str x
           | _ \<Rightarrow> None))"

definition resend_answer ::
  "(string \<Rightarrow> string option) \<Rightarrow> notify_libraries \<Rightarrow> nat \<Rightarrow> met \<Rightarrow> (resend_error, resend_receipt) result + duration" where
  "resend_answer to_str L tries m =
     (case m of
        NoResponse e \<Rightarrow> Inl (Inl (ResendTransport (describe_request_error e)))
      | Responded status headers body \<Rightarrow>
          if is_success_status status then Inl (Inr (accepted_id L body))
          else
            (case (if status = 429 then plan_retry tries (retry_delay_from_headers to_str headers) else None) of
               Some delay \<Rightarrow> Inr delay
             | None \<Rightarrow> Inl (Inl (ResendApi status (case body of Inr b \<Rightarrow> b | Inl _ \<Rightarrow> ''no body'')))))"

text \<open>The loop from its \<open>tries\<close>th retry on, given what each post meets: the waits, and the result.\<close>

lemma plan_retry_bounded: "plan_retry tries hint = Some delay \<Longrightarrow> tries < MAX_RETRIES"
  by (auto simp: plan_retry_def split: if_splits)

lemma resend_answer_waits: "resend_answer to_str L tries m = Inr delay \<Longrightarrow> tries < MAX_RETRIES"
  by (auto simp: resend_answer_def dest: plan_retry_bounded split: met.splits if_splits option.splits)

function send_with_retry ::
  "(string \<Rightarrow> string option) \<Rightarrow> notify_libraries \<Rightarrow> (nat \<Rightarrow> met) \<Rightarrow> nat
     \<Rightarrow> duration list \<times> (resend_error, resend_receipt) result" where
  "send_with_retry to_str L post tries =
     (case resend_answer to_str L tries (post tries) of
        Inl r \<Rightarrow> ([], r)
      | Inr delay \<Rightarrow>
          (case send_with_retry to_str L post (tries + 1) of (delays, r) \<Rightarrow> (delay # delays, r)))"
  by pat_completeness auto
termination
  by (relation "measure (\<lambda>(to_str, L, post, tries). MAX_RETRIES - tries)") (auto dest: resend_answer_waits)

declare send_with_retry.simps [simp del]

definition send_with_receipt ::
  "(string \<Rightarrow> string option) \<Rightarrow> notify_libraries \<Rightarrow> resend_client \<Rightarrow> resend_email \<Rightarrow> (nat \<Rightarrow> met)
     \<Rightarrow> http_post list \<times> duration list \<times> (resend_error, resend_receipt) result" where
  "send_with_receipt to_str L c email met =
     (case send_with_retry to_str L met 0 of
        (delays, r) \<Rightarrow> (replicate (length delays + 1) (resend_post c email), delays, r))"

definition resend_send ::
  "(string \<Rightarrow> string option) \<Rightarrow> notify_libraries \<Rightarrow> resend_client \<Rightarrow> resend_email \<Rightarrow> (nat \<Rightarrow> met)
     \<Rightarrow> (resend_error, unit) result" where
  "resend_send to_str L c email met =
     (case snd (snd (send_with_receipt to_str L c email met)) of Inr _ \<Rightarrow> Inr () | Inl e \<Rightarrow> Inl e)"

subsection \<open>Alert mail\<close>

record email_client =
  em_resend :: resend_client
  em_from_address :: string
  em_to_addresses :: "string list"

definition email_client_new :: "email_config \<Rightarrow> (resend_error, email_client) result" where
  "email_client_new config =
     result_bind (resend_client_new (ec_resend_api_key config))
       (\<lambda>resend. Inr \<lparr>em_resend = resend, em_from_address = ec_from_address config,
                       em_to_addresses = ec_to_addresses config\<rparr>)"

definition alert_email :: "email_client \<Rightarrow> string \<Rightarrow> string \<Rightarrow> resend_email" where
  "alert_email c subject body =
     \<lparr>rm_from = em_from_address c, rm_to = em_to_addresses c, rm_subject = subject, rm_body = TextBody body\<rparr>"

definition send_alert ::
  "(string \<Rightarrow> string option) \<Rightarrow> notify_libraries \<Rightarrow> email_client \<Rightarrow> string \<Rightarrow> string \<Rightarrow> (nat \<Rightarrow> met)
     \<Rightarrow> resend_error option" where
  "send_alert to_str L c subject body met =
     (case resend_send to_str L (em_resend c) (alert_email c subject body) met of
        Inl e \<Rightarrow> Some e
      | Inr _ \<Rightarrow> None)"

subsection \<open>PostHog\<close>

definition DEFAULT_POSTHOG_HOST :: string where "DEFAULT_POSTHOG_HOST = ''https://us.i.posthog.com''"
definition MAX_ATTEMPTS :: nat where "MAX_ATTEMPTS = 3"
definition FIRST_BACKOFF :: duration where "FIRST_BACKOFF = 500 * MILLISECOND"

record posthog_client =
  ph_api_key :: string
  ph_host :: string
  ph_first_backoff :: duration

definition posthog_with_host :: "string \<Rightarrow> string \<Rightarrow> posthog_client" where
  "posthog_with_host api_key host =
     \<lparr>ph_api_key = api_key, ph_host = host, ph_first_backoff = FIRST_BACKOFF\<rparr>"

definition posthog_new :: "string \<Rightarrow> posthog_client" where
  "posthog_new api_key = posthog_with_host api_key DEFAULT_POSTHOG_HOST"

text \<open>The body of an event, stamped with the time and the identifier drawn at the call.\<close>

definition event_body :: "posthog_client \<Rightarrow> string \<Rightarrow> string \<Rightarrow> string \<Rightarrow> string \<Rightarrow> json \<Rightarrow> json" where
  "event_body c timestamp uuid distinct_id event properties =
     JObject [(''api_key'', JString (ph_api_key c)), (''event'', JString event),
              (''distinct_id'', JString distinct_id), (''timestamp'', JString timestamp),
              (''uuid'', JString uuid), (''properties'', properties)]"

datatype delivery = Accepted | RefusedCapture | GaveUp

definition posthog_post :: "posthog_client \<Rightarrow> json \<Rightarrow> http_post" where
  "posthog_post c body =
     \<lparr>hp_url = ph_host c @ ''/capture/'', hp_authorization = None, hp_body = JsonBody body\<rparr>"

text \<open>What one answer leads to: an end, or a failure a resend may cure.\<close>

definition capture_answer :: "notify_libraries \<Rightarrow> met \<Rightarrow> delivery + string" where
  "capture_answer L m =
     (case m of
        NoResponse e \<Rightarrow> Inr (describe_request_error e)
      | Responded status headers body \<Rightarrow>
          if is_success_status status then Inl Accepted
          else if 500 \<le> status \<and> status < 600 then Inr (''status '' @ nlb_status_text L status)
          else Inl RefusedCapture)"

text \<open>\<^verbatim>\<open>Duration::saturating_mul\<close>.\<close>

definition DURATION_MAX :: duration where "DURATION_MAX = U64_MAX * SECOND + (SECOND - 1)"

function posthog_send ::
  "notify_libraries \<Rightarrow> (nat \<Rightarrow> met) \<Rightarrow> nat \<Rightarrow> duration \<Rightarrow> duration list \<times> delivery" where
  "posthog_send L met tries backoff =
     (case capture_answer L (met tries) of
        Inl d \<Rightarrow> ([], d)
      | Inr failure \<Rightarrow>
          if tries \<ge> MAX_ATTEMPTS then ([], GaveUp)
          else
            (case posthog_send L met (tries + 1) (min (2 * backoff) DURATION_MAX) of
               (waits, d) \<Rightarrow> (backoff # waits, d)))"
  by pat_completeness auto
termination
  by (relation "measure (\<lambda>(L, met, tries, backoff). MAX_ATTEMPTS - tries)") auto

declare posthog_send.simps [simp del]

text \<open>A capture: what its task posts, how long it waits between, and how it ends.\<close>

definition capture ::
  "notify_libraries \<Rightarrow> posthog_client \<Rightarrow> string \<Rightarrow> string \<Rightarrow> string \<Rightarrow> string \<Rightarrow> json \<Rightarrow> (nat \<Rightarrow> met)
     \<Rightarrow> http_post list \<times> duration list \<times> delivery" where
  "capture L c timestamp uuid distinct_id event properties met =
     (case posthog_send L met 1 (ph_first_backoff c) of
        (waits, d) \<Rightarrow>
          (replicate (length waits + 1) (posthog_post c (event_body c timestamp uuid distinct_id event properties)),
           waits, d))"

subsection \<open>What a signature binds\<close>

lemma verified_iff:
  "verify_signature sign now c timestamp signature body = Inr () \<longleftrightarrow>
     (\<exists>secret n. slc_signing_secret c = Some secret \<and> parse_u64 timestamp = Some n \<and> now \<le> n + 300
        \<and> signature = ''v0='' @ sign secret (v0_basestring timestamp body))"
  by (auto simp: verify_signature_def MAX_TIMESTAMP_AGE_SECS_def Let_def split: option.splits)

lemma read_digits_plain: "read_digits acc s = Some n \<Longrightarrow> c \<in> set s \<Longrightarrow> is_ascii_digit c"
  by (induction s arbitrary: acc) (auto simp: digit_of_def split: option.splits if_splits)

lemma parse_u64_no_colon: "parse_u64 s = Some n \<Longrightarrow> CHR '':'' \<notin> set s"
  by (cases s) (auto simp: parse_u64_def is_ascii_digit_def Let_def dest!: read_digits_plain [where c = "CHR '':''"]
      split: if_splits)

lemma basestring_inj:
  assumes "CHR '':'' \<notin> set t" and "CHR '':'' \<notin> set t'" and "utf8_valid b" and "utf8_valid b'"
    and "v0_basestring t b = v0_basestring t' b'"
  shows "t = t' \<and> b = b'"
proof -
  have "t @ CHR '':'' # b = t' @ CHR '':'' # b'" using assms(3-5) by (simp add: v0_basestring_def)
  then show ?thesis using assms(1,2)
  proof (induction t arbitrary: t')
    case Nil
    then show ?case by (cases t') auto
  next
    case (Cons x t)
    then show ?case by (cases t') auto
  qed
qed

text \<open>
  A Slack signature lets through one request only: a request is accepted only with a signing
  secret configured and a timestamp no more than five minutes old, and two requests whose bodies are
  text and that are accepted under one signature are the same timestamp and body, or exhibit two
  messages with one HMAC under the secret.
\<close>

theorem signatures_bind_the_request:
  assumes "verify_signature sign now c timestamp signature body = Inr ()"
    and "verify_signature sign now' c timestamp' signature body' = Inr ()"
    and "utf8_valid body" and "utf8_valid body'"
  shows "\<exists>secret n. slc_signing_secret c = Some secret \<and> parse_u64 timestamp = Some n \<and> now \<le> n + 300
    \<and> (timestamp = timestamp' \<and> body = body' \<or> (\<exists>m m'. m \<noteq> m' \<and> sign secret m = sign secret m'))"
proof -
  obtain secret n n' where s: "slc_signing_secret c = Some secret"
    and n: "parse_u64 timestamp = Some n" "parse_u64 timestamp' = Some n'" "now \<le> n + 300"
    and eq: "sign secret (v0_basestring timestamp body) = sign secret (v0_basestring timestamp' body')"
    using assms(1,2) by (auto simp: verified_iff)
  show ?thesis
  proof (cases "v0_basestring timestamp body = v0_basestring timestamp' body'")
    case True
    with basestring_inj [OF parse_u64_no_colon [OF n(1)] parse_u64_no_colon [OF n(2)] assms(3,4)] s n
    show ?thesis by blast
  next
    case False
    with s n eq show ?thesis by blast
  qed
qed

definition demo_slack :: slack_client where
  "demo_slack = slack_client_new \<lparr>sc_bot_token = ''xoxb-1'', sc_error_channel = ''#errors'', sc_signing_secret = Some ''s''\<rparr>"

definition demo_sign :: "string \<Rightarrow> string \<Rightarrow> string" where "demo_sign secret m = secret @ m"

lemma signatures_bind_the_request_witness:
  "\<exists>secret n. slc_signing_secret demo_slack = Some secret \<and> parse_u64 ''60'' = Some n \<and> 300 \<le> n + 300
    \<and> (''60'' = ''60'' \<and> ''a=1'' = ''a=1'' \<or> (\<exists>m m'. m \<noteq> m' \<and> demo_sign secret m = demo_sign secret m'))"
proof -
  have p: "parse_u64 ''60'' = Some 60"
    by (simp add: parse_u64_def digit_of_def is_ascii_digit_def U64_MAX_def)
  have u: "utf8_valid ''a=1''" by code_simp
  have v: "verify_signature demo_sign 300 demo_slack ''60'' ''v0=sv0:60:a=1'' ''a=1'' = Inr ()"
  proof (rule verified_iff [THEN iffD2], intro exI conjI)
    show "slc_signing_secret demo_slack = Some ''s''" by (simp add: demo_slack_def slack_client_new_def)
    show "parse_u64 ''60'' = Some 60" by (rule p)
    show "''v0=sv0:60:a=1'' = ''v0='' @ demo_sign ''s'' (v0_basestring ''60'' ''a=1'')" by code_simp
  qed simp
  show ?thesis by (rule signatures_bind_the_request [OF v v u u])
qed

text \<open>A body that is not text is checked as the empty one: one signature lets through every such body.\<close>

lemma signatures_do_not_bind_other_bodies:
  "\<not> utf8_valid body \<Longrightarrow> \<not> utf8_valid body' \<Longrightarrow>
     verify_signature sign now c timestamp signature body = verify_signature sign now c timestamp signature body'"
proof -
  assume "\<not> utf8_valid body" and "\<not> utf8_valid body'"
  then have "v0_basestring timestamp body = v0_basestring timestamp body'" by (simp add: v0_basestring_def)
  then show ?thesis unfolding verify_signature_def by (rule arg_cong)
qed

text \<open>A timestamp of the future is as good as one of now.\<close>

lemma future_timestamps_are_accepted:
  assumes "slc_signing_secret c = Some secret" and "parse_u64 timestamp = Some n" and "now \<le> n"
  shows "verify_signature sign now c timestamp (''v0='' @ sign secret (v0_basestring timestamp body)) body = Inr ()"
  using assms by (simp add: verified_iff)

subsection \<open>What an upload does\<close>

text \<open>
  An upload keeps the bot token with Slack and shares only what is stored: whatever its requests
  meet, a request that carries the token goes to Slack's own API, the file is shared only after its
  bytes were accepted at the URL the reservation named, and the upload succeeds exactly when all
  three requests do.
\<close>

theorem uploads_keep_the_token_and_share_what_is_stored:
  shows "(\<forall>p \<in> set (fst (upload_file L c channel f comment m1 m2 m3)).
            hp_authorization p \<noteq> None \<longrightarrow> prefix ''https://slack.com/api/'' (hp_url p))
    \<and> (length (fst (upload_file L c channel f comment m1 m2 m3)) = 3 \<longleftrightarrow>
         (\<exists>body reserved. read_slack_response L m1 = Inr body \<and> reserved_upload body = Inr reserved
            \<and> post_upload_bytes L m2 = Inr ()))
    \<and> (snd (upload_file L c channel f comment m1 m2 m3) = SlackOk \<longleftrightarrow>
         (\<exists>body reserved final. read_slack_response L m1 = Inr body \<and> reserved_upload body = Inr reserved
            \<and> post_upload_bytes L m2 = Inr () \<and> read_slack_response L m3 = Inr final))"
proof -
  have no_ok: "read_slack_response L m \<noteq> Inl SlackOk" for m
    by (auto simp: read_slack_response_def ok_body_def split: met.splits sum.splits if_splits)
  have no_ok': "reserved_upload v \<noteq> Inl SlackOk" for v
    by (auto simp: reserved_upload_def split: option.splits)
  have no_ok'': "post_upload_bytes L m \<noteq> Inl SlackOk" for m
    by (auto simp: post_upload_bytes_def split: met.splits)
  show ?thesis
    using no_ok no_ok' no_ok''
    by (auto simp: upload_file_def Let_def slack_post_def upload_bytes_post_def SLACK_GET_UPLOAD_URL_URL_def
        SLACK_COMPLETE_UPLOAD_URL_def result_bind_Inr_iff result_bind_Inl_iff split: sum.splits)
qed

subsection \<open>What sending twice costs\<close>

lemma plan_retry_delay: "plan_retry n hint = Some delay \<Longrightarrow> 200 * MILLISECOND \<le> delay \<and> delay \<le> 5 * SECOND"
  by (auto simp: plan_retry_def RETRY_DELAY_FLOOR_def MAX_RETRY_DELAY_def SECOND_def MILLISECOND_def
      max_def Let_def split: if_splits)

lemma resend_answer_wait:
  "resend_answer to_str L n m = Inr delay \<Longrightarrow>
     (\<exists>headers body. m = Responded 429 headers body)
     \<and> 200 * MILLISECOND \<le> delay \<and> delay \<le> 5 * SECOND"
  by (auto simp: resend_answer_def dest: plan_retry_delay split: met.splits if_splits option.splits)

lemma send_with_retry_ends:
  assumes "send_with_retry to_str L post n = (delays, r)"
  shows "n + length delays \<le> max n MAX_RETRIES
    \<and> resend_answer to_str L (n + length delays) (post (n + length delays)) = Inl r
    \<and> (\<forall>k < length delays. resend_answer to_str L (n + k) (post (n + k)) = Inr (delays ! k))"
  using assms
proof (induction to_str L post n arbitrary: delays r rule: send_with_retry.induct)
  case (1 to_str L post n)
  show ?case
  proof (cases "resend_answer to_str L n (post n)")
    case (Inl r')
    with "1.prems" show ?thesis by (simp add: send_with_retry.simps [of to_str L post n])
  next
    case (Inr delay)
    obtain delays' where later: "send_with_retry to_str L post (n + 1) = (delays', r)" and d: "delays = delay # delays'"
      using "1.prems" Inr by (auto simp: send_with_retry.simps [of to_str L post n] split: prod.splits)
    have "n < MAX_RETRIES" using resend_answer_waits [OF Inr] .
    moreover note "1.IH" [OF Inr later]
    ultimately show ?thesis using Inr by (auto simp: d nth_Cons' less_Suc_eq_0_disj)
  qed
qed

text \<open>
  A send ends after at most four posts of one email and fifteen seconds of waiting: it posts
  again only after a 429, at most three times, waits between a fifth of a second and five seconds
  each time, and its result is that of its last post.
\<close>

theorem sends_are_bounded:
  assumes "send_with_receipt to_str L c email met = (posts, delays, r)"
  shows "posts = replicate (length delays + 1) (resend_post c email) \<and> length posts \<le> 4
    \<and> sum_list delays \<le> 15 * SECOND
    \<and> (\<forall>delay \<in> set delays. 200 * MILLISECOND \<le> delay \<and> delay \<le> 5 * SECOND)
    \<and> (\<forall>k < length delays. \<exists>headers body. met k = Responded 429 headers body)
    \<and> resend_answer to_str L (length delays) (met (length delays)) = Inl r"
proof -
  have run: "send_with_retry to_str L met 0 = (delays, r)" and posts: "posts = replicate (length delays + 1) (resend_post c email)"
    using assms by (auto simp: send_with_receipt_def split: prod.splits)
  note ends = send_with_retry_ends [OF run, simplified]
  have len: "length delays \<le> 3" using ends by (simp add: MAX_RETRIES_def)
  have waits: "\<forall>delay \<in> set delays. 200 * MILLISECOND \<le> delay \<and> delay \<le> 5 * SECOND"
    using ends resend_answer_wait by (metis in_set_conv_nth)
  have "sum_list delays \<le> length delays * (5 * SECOND)"
    using waits by (induction delays) auto
  also have "\<dots> \<le> 3 * (5 * SECOND)" using len by (rule mult_le_mono1)
  finally have "sum_list delays \<le> 15 * SECOND" by simp
  with posts len waits ends resend_answer_wait show ?thesis by auto
qed

definition demo_notify_libraries :: notify_libraries where
  "demo_notify_libraries = \<lparr>nlb_status_text = (\<lambda>_. ''''), nlb_read_json = (\<lambda>_. Inr JNull), nlb_json_text = (\<lambda>_. ''null'')\<rparr>"

definition demo_email :: resend_email where
  "demo_email = \<lparr>rm_from = ''a'', rm_to = [''b''], rm_subject = ''s'', rm_body = TextBody ''t''\<rparr>"

lemma sends_are_bounded_witness:
  "length (fst (send_with_receipt Some demo_notify_libraries \<lparr>rc_api_key = ''k''\<rparr> demo_email (\<lambda>_. Responded 429 [] (Inr ''wait'')))) \<le> 4"
  using sends_are_bounded [where to_str = Some and c = "\<lparr>rc_api_key = ''k''\<rparr>" and met = "\<lambda>_. Responded 429 [] (Inr ''wait'')"]
  by (metis prod.collapse)

lemma posthog_send_ends:
  assumes "posthog_send L met n backoff = (waits, d)" and "n \<le> MAX_ATTEMPTS"
  shows "n + length waits \<le> MAX_ATTEMPTS
    \<and> (\<forall>k < length waits. \<exists>failure. capture_answer L (met (n + k)) = Inr failure)
    \<and> (case capture_answer L (met (n + length waits)) of
         Inl d' \<Rightarrow> d = d' | Inr _ \<Rightarrow> d = GaveUp \<and> n + length waits = MAX_ATTEMPTS)"
  using assms
proof (induction L met n backoff arbitrary: waits d rule: posthog_send.induct)
  case (1 L met n backoff)
  show ?case
  proof (cases "capture_answer L (met n)")
    case (Inl d')
    with "1.prems" show ?thesis by (simp add: posthog_send.simps [of L met n backoff])
  next
    case (Inr failure)
    show ?thesis
    proof (cases "n \<ge> MAX_ATTEMPTS")
      case True
      with "1.prems" Inr show ?thesis by (simp add: posthog_send.simps [of L met n backoff])
    next
      case False
      obtain waits' where later: "posthog_send L met (n + 1) (min (2 * backoff) DURATION_MAX) = (waits', d)"
        and w: "waits = backoff # waits'"
        using "1.prems" Inr False by (auto simp: posthog_send.simps [of L met n backoff] split: prod.splits)
      from "1.IH" [OF Inr _ later] False Inr show ?thesis
        by (auto simp: w less_Suc_eq_0_disj split: sum.splits)
    qed
  qed
qed

lemma posthog_send_waits:
  assumes "posthog_send L met n backoff = (waits, d)" and "2 * backoff \<le> DURATION_MAX" and "n + 2 \<ge> MAX_ATTEMPTS"
  shows "waits = take (length waits) [backoff, 2 * backoff]"
proof (cases "waits = []")
  case False
  then obtain waits' where w: "waits = backoff # waits'"
    and later: "posthog_send L met (Suc n) (2 * backoff) = (waits', d)"
    using assms(1,2) by (auto simp: posthog_send.simps [of L met n backoff] min_absorb1 split: sum.splits if_splits prod.splits)
  show ?thesis
  proof (cases "waits' = []")
    case False
    then obtain waits'' where w': "waits' = (2 * backoff) # waits''" and "\<not> Suc n \<ge> MAX_ATTEMPTS"
      and last: "posthog_send L met (Suc (Suc n)) (min (4 * backoff) DURATION_MAX) = (waits'', d)"
      using later by (auto simp: posthog_send.simps [of L met "Suc n" "2 * backoff"] split: sum.splits if_splits prod.splits)
    have "waits'' = []"
      using last assms(3)
      by (auto simp: posthog_send.simps [of L met "Suc (Suc n)" "min (4 * backoff) DURATION_MAX"] split: sum.splits if_splits prod.splits)
    with w w' show ?thesis by simp
  qed (simp add: w)
qed simp

text \<open>The first of the answers that settles a capture.\<close>

fun settling_answer :: "notify_libraries \<Rightarrow> met list \<Rightarrow> delivery" where
  "settling_answer L [] = GaveUp"
| "settling_answer L (m # ms) = (case capture_answer L m of Inl d \<Rightarrow> d | Inr _ \<Rightarrow> settling_answer L ms)"

text \<open>
  A capture ends as the first of its at most three answers that settles it, or gives up: every
  post carries the one body stamped at the call, so a resend is the same event, a resend follows
  only a 5xx or no response, and the waits before resends are half a second and a second.
\<close>

theorem captures_end_with_the_settling_answer:
  assumes "capture L (posthog_with_host api_key host) timestamp uuid distinct_id event properties met = (posts, waits, d)"
  shows "d = settling_answer L [met 1, met 2, met 3]
    \<and> posts = replicate (length waits + 1) (posthog_post (posthog_with_host api_key host)
                (event_body (posthog_with_host api_key host) timestamp uuid distinct_id event properties))
    \<and> waits = take (length waits) [500 * MILLISECOND, 1000 * MILLISECOND] \<and> length posts \<le> 3
    \<and> (\<forall>k \<in> {1..length waits}. \<exists>failure. capture_answer L (met k) = Inr failure)"
proof -
  have run: "posthog_send L met 1 (500 * MILLISECOND) = (waits, d)"
    and posts: "posts = replicate (length waits + 1) (posthog_post (posthog_with_host api_key host)
                (event_body (posthog_with_host api_key host) timestamp uuid distinct_id event properties))"
    using assms by (auto simp: capture_def posthog_with_host_def FIRST_BACKOFF_def split: prod.splits)
  have w: "waits = take (length waits) [500 * MILLISECOND, 1000 * MILLISECOND]"
    using posthog_send_waits [OF run] by (simp add: MAX_ATTEMPTS_def DURATION_MAX_def U64_MAX_def SECOND_def MILLISECOND_def)
  have ends: "length waits \<le> 2" "\<forall>k < length waits. \<exists>failure. capture_answer L (met (Suc k)) = Inr failure"
    "case capture_answer L (met (Suc (length waits))) of Inl d' \<Rightarrow> d = d' | Inr _ \<Rightarrow> d = GaveUp \<and> length waits = 2"
    using posthog_send_ends [OF run] by (auto simp: MAX_ATTEMPTS_def split: sum.splits)
  have failed: "\<exists>failure. capture_answer L (met 1) = Inr failure" if "0 < length waits"
    using ends(2) that by simp
  have failed2: "\<exists>failure. capture_answer L (met 2) = Inr failure" if "1 < length waits"
    using ends(2) [rule_format, OF that] by (simp add: numeral_2_eq_2)
  have last: "case capture_answer L (met (length waits + 1)) of Inl d' \<Rightarrow> d = d' | Inr _ \<Rightarrow> d = GaveUp \<and> length waits = 2"
    using ends(3) by simp
  consider "length waits = 0" | "length waits = 1" | "length waits = 2" using ends(1) by linarith
  then have d: "d = settling_answer L [met 1, met 2, met 3]"
  proof cases
    case 1
    with last show ?thesis by (simp split: sum.splits)
  next
    case 2
    then have "met (length waits + 1) = met 2" by (simp add: numeral_2_eq_2)
    with 2 last failed show ?thesis by (auto split: sum.splits)
  next
    case 3
    then have "met (length waits + 1) = met 3" by simp
    with 3 last failed failed2 show ?thesis by (auto split: sum.splits)
  qed
  have "\<exists>failure. capture_answer L (met k) = Inr failure" if "k \<in> {1..length waits}" for k
    using ends(2) that by (cases k) auto
  with d posts w ends(1) show ?thesis by simp
qed

lemma captures_end_with_the_settling_answer_witness:
  "snd (snd (capture \<lparr>nlb_status_text = nat_text, nlb_read_json = (\<lambda>_. Inr JNull), nlb_json_text = (\<lambda>_. [])\<rparr>
      (posthog_with_host ''k'' ''h'') ''t'' ''u'' ''d'' ''e'' JNull
      (\<lambda>n. if n = 1 then Responded 503 [] (Inr []) else Responded 200 [] (Inr [])))) = Accepted"
proof -
  let ?L = "\<lparr>nlb_status_text = nat_text, nlb_read_json = (\<lambda>_. Inr JNull), nlb_json_text = (\<lambda>_. [])\<rparr>"
  let ?met = "\<lambda>n :: nat. if n = 1 then Responded 503 [] (Inr []) else Responded 200 [] (Inr [])"
  have "settling_answer ?L [?met 1, ?met 2, ?met 3] = Accepted" by (simp add: capture_answer_def is_success_status_def)
  with captures_end_with_the_settling_answer [where L = ?L and met = ?met and api_key = "''k''" and host = "''h''"
      and timestamp = "''t''" and uuid = "''u''" and distinct_id = "''d''" and event = "''e''" and properties = JNull]
  show ?thesis by (metis prod.collapse)
qed

end
