(* ===== verification/Error_Digest.thy ===== *)
theory Error_Digest
  imports Notifications
begin

declare map_of_eq_Some_iff [simp del] Some_eq_map_of_iff [simp del]

text \<open>
  The error notification layer (\<^verbatim>\<open>src/notifications/error_layer.rs\<close>): ERROR events queued to a
  dispatcher that batches them over a window, drops recent repeats and posts digests under a global
  rate limit.

  The dispatcher is the state machine its loop runs through: waiting for a first event, collecting
  until a deadline, gone. A step carries its instant. What a digest posts is a value; how Slack and
  Resend answer it changes nothing here. A float's text is what its visitor prints.
\<close>

subsection \<open>Events\<close>

record error_event =
  ee_target :: string
  ee_message :: string
  ee_fields :: field_map

text \<open>\<^verbatim>\<open>chars().take(n)\<close> of text in its bytes.\<close>

fun take_chars :: "nat \<Rightarrow> string \<Rightarrow> string" where
  "take_chars 0 s = []"
| "take_chars (Suc n) s =
     (if s = [] then [] else take (char_len s) s @ take_chars n (drop (char_len s) s))"

definition event_dedup_key :: "error_event \<Rightarrow> string" where
  "event_dedup_key e = ee_target e @ ''::'' @ take_chars 80 (ee_message e)"

fun visited_text :: "field_value \<Rightarrow> string" where
  "visited_text (FStr v) = v"
| "visited_text (FDebug v) = v"
| "visited_text (FI64 v) = int_text v"
| "visited_text (FU64 v) = nat_text v"
| "visited_text (FF64 v) = v"
| "visited_text (FBool v) = (if v then ''true'' else ''false'')"

definition error_visit :: "string \<times> field_value \<Rightarrow> string \<times> field_map \<Rightarrow> string \<times> field_map" where
  "error_visit = (\<lambda>(name, v) (message, fs).
     if name = ''message'' then (visited_text v, fs) else (message, AList.update name (visited_text v) fs))"

definition error_event_of :: "string list \<Rightarrow> string \<Rightarrow> (string \<times> field_value) list \<Rightarrow> error_event" where
  "error_event_of secrets tgt values =
     (case fold error_visit values ([], []) of
        (message, fs) \<Rightarrow>
          \<lparr>ee_target = tgt, ee_message = redact secrets message, ee_fields = redact_fields secrets fs\<rparr>)"

text \<open>What an event of a level puts on the dispatcher's channel.\<close>

definition error_on_event ::
  "string list \<Rightarrow> level_filter \<Rightarrow> string \<Rightarrow> (string \<times> field_value) list \<Rightarrow> error_event list" where
  "error_on_event secrets level tgt values =
     (if level \<noteq> LevelError then [] else [error_event_of secrets tgt values])"

subsection \<open>Digests\<close>

type_synonym digest_entry = "string \<times> error_event \<times> nat"

definition truncate_message :: "string \<Rightarrow> nat \<Rightarrow> string" where
  "truncate_message msg max_len =
     (if length msg \<le> max_len then msg else take_chars (max_len - 3) msg @ ''...'')"

definition context_line :: "string \<Rightarrow> string option \<Rightarrow> nat \<Rightarrow> string" where
  "context_line env host error_count =
     (case host of
        None \<Rightarrow> ''*Environment:* '' @ env @ '' | *Errors:* '' @ nat_text error_count
      | Some h \<Rightarrow> ''*Environment:* '' @ env @ '' | *Host:* '' @ h @ '' | *Errors:* '' @ nat_text error_count)"

definition NL :: string where "NL = [CHR 0x0A]"

definition count_suffix :: "nat \<Rightarrow> string" where
  "count_suffix n = (if n > 1 then '' (x'' @ nat_text n @ '')'' else [])"

definition markdown :: "string \<Rightarrow> json" where
  "markdown s = JObject [(''type'', JString ''mrkdwn''), (''text'', JString s)]"

definition context_block :: "string \<Rightarrow> json" where
  "context_block s = JObject [(''type'', JString ''context''), (''elements'', JArray [markdown s])]"

definition error_section :: "digest_entry \<Rightarrow> json" where
  "error_section = (\<lambda>(key, e, n).
     JObject [(''type'', JString ''section''),
       (''text'', markdown
          (''*'' @ ee_target e @ ''*'' @ count_suffix n @ NL
           @ ''```'' @ truncate_message (ee_message e) 500 @ ''```''
           @ (if ee_fields e = [] then []
              else NL @ join_with '' | ''
                     (map (\<lambda>(k, v). ''`'' @ k @ ''`: '' @ v) (take 4 (ee_fields e))))))])"

definition slack_digest :: "notification_config \<Rightarrow> digest_entry list \<Rightarrow> json" where
  "slack_digest config entries =
     (let display_limit = min (length entries) 8 in
      JArray
        ([JObject [(''type'', JString ''header''),
            (''text'', JObject [(''type'', JString ''plain_text''),
               (''text'', JString (''Error Alert '' @ EM_DASH @ '' '' @ nc_service_name config))])],
          context_block (context_line (nc_environment config) (nc_host config) (length entries)),
          JObject [(''type'', JString ''divider'')]]
         @ map error_section (take display_limit entries)
         @ (if length entries > display_limit
            then [context_block (''...and '' @ nat_text (length entries - display_limit) @ '' more errors'')]
            else [])))"

definition send_slack_digest ::
  "notify_libraries \<Rightarrow> notification_config \<Rightarrow> slack_client \<Rightarrow> digest_entry list \<Rightarrow> http_post" where
  "send_slack_digest L config slack entries =
     (let channel = (case nc_slack config of None \<Rightarrow> ''#errors'' | Some s \<Rightarrow> sc_error_channel s) in
      fst (post_message_await L slack channel (slack_digest config entries)))"

definition email_section :: "digest_entry \<Rightarrow> string" where
  "email_section = (\<lambda>(key, e, n).
     ''--- '' @ ee_target e @ '' ---'' @ count_suffix n @ NL @ ee_message e @ NL
     @ concat (map (\<lambda>(k, v). ''  '' @ k @ '': '' @ v @ NL) (ee_fields e)) @ NL)"

definition email_digest :: "notification_config \<Rightarrow> digest_entry list \<Rightarrow> string \<times> string" where
  "email_digest config entries =
     (''['' @ nc_environment config @ ''] '' @ nat_text (length entries) @ '' error(s) in '' @ nc_service_name config,
      (case nc_host config of
         None \<Rightarrow> ''Error digest for '' @ nc_service_name config @ '' ('' @ nc_environment config @ '')'' @ NL @ NL
       | Some host \<Rightarrow>
           ''Error digest for '' @ nc_service_name config @ '' ('' @ nc_environment config @ '' on '' @ host @ '')'' @ NL @ NL)
      @ concat (map email_section entries))"

subsection \<open>The dispatcher\<close>

record dispatcher =
  dp_config :: notification_config
  dp_slack :: "slack_client option"
  dp_email :: "email_client option"
  dp_last_notified :: "(string, instant) table"
  dp_recent_sends :: "instant list"

definition dispatcher_new ::
  "notification_config \<Rightarrow> slack_client option \<Rightarrow> email_client option \<Rightarrow> dispatcher" where
  "dispatcher_new config slack email =
     \<lparr>dp_config = config, dp_slack = slack, dp_email = email, dp_last_notified = [], dp_recent_sends = []\<rparr>"

definition group_event :: "error_event \<Rightarrow> (string, error_event \<times> nat) table \<Rightarrow> (string, error_event \<times> nat) table" where
  "group_event e grouped =
     (let key = event_dedup_key e in
      case map_of grouped key of
        Some (first, n) \<Rightarrow> AList.update key (first, n + 1) grouped
      | None \<Rightarrow> AList.update key (e, 1) grouped)"

definition group_batch :: "error_event list \<Rightarrow> (string, error_event \<times> nat) table" where
  "group_batch batch = fold group_event batch []"

definition is_due :: "instant \<Rightarrow> dispatcher \<Rightarrow> string \<Rightarrow> bool" where
  "is_due now d key \<longleftrightarrow>
     (case map_of (dp_last_notified d) key of
        None \<Rightarrow> True
      | Some earlier \<Rightarrow> nc_dedup_window (dp_config d) \<le> now - earlier)"

definition digest_entries :: "instant \<Rightarrow> error_event list \<Rightarrow> dispatcher \<Rightarrow> digest_entry list" where
  "digest_entries now batch d = filter (\<lambda>(key, _). is_due now d key) (group_batch batch)"

definition ONE_MINUTE :: duration where "ONE_MINUTE = 60 * SECOND"

definition prune_recent_sends :: "instant \<Rightarrow> dispatcher \<Rightarrow> dispatcher" where
  "prune_recent_sends now d = d\<lparr>dp_recent_sends := filter (\<lambda>ts. now - ts < ONE_MINUTE) (dp_recent_sends d)\<rparr>"

definition under_rate_limit :: "dispatcher \<Rightarrow> bool" where
  "under_rate_limit d \<longleftrightarrow>
     length (dp_recent_sends d) mod 2 ^ 32 < nc_max_messages_per_minute (dp_config d)"

datatype dispatched =
    NothingDue
  | DroppedBatch nat
  | Notified "digest_entry list" "http_post option" "(string \<times> string) option"

definition dispatch_batch ::
  "notify_libraries \<Rightarrow> instant \<Rightarrow> error_event list \<Rightarrow> dispatcher \<Rightarrow> dispatched \<times> dispatcher" where
  "dispatch_batch L now batch d =
     (let entries = digest_entries now batch d in
      if entries = [] then (NothingDue, d)
      else
        (let d1 = prune_recent_sends now d in
         if \<not> under_rate_limit d1 then (DroppedBatch (length entries), d1)
         else
           (Notified entries
              (map_option (\<lambda>slack. send_slack_digest L (dp_config d) slack entries) (dp_slack d))
              (map_option (\<lambda>email. email_digest (dp_config d) entries) (dp_email d)),
            d1\<lparr>dp_last_notified := fold (\<lambda>(key, _) m. AList.update key now m) entries (dp_last_notified d1),
               dp_recent_sends := dp_recent_sends d1 @ [now]\<rparr>)))"

text \<open>\<^verbatim>\<open>Dispatcher::run\<close>: its phases, and what it has dispatched, batch by batch.\<close>

datatype dispatch_phase = AwaitingFirst | Collecting "error_event list" instant | Exited

record dispatch_loop =
  dl_dispatcher :: dispatcher
  dl_phase :: dispatch_phase
  dl_batches :: "(instant \<times> error_event list \<times> dispatched) list"

datatype dispatch_event_kind = Received error_event | WindowElapses | ChannelCloses

definition close_batch ::
  "notify_libraries \<Rightarrow> instant \<Rightarrow> error_event list \<Rightarrow> dispatch_loop \<Rightarrow> dispatch_loop" where
  "close_batch L now batch y =
     (case dispatch_batch L now batch (dl_dispatcher y) of
        (result, d) \<Rightarrow>
          \<lparr>dl_dispatcher = d, dl_phase = AwaitingFirst, dl_batches = dl_batches y @ [(now, batch, result)]\<rparr>)"

definition collect ::
  "notify_libraries \<Rightarrow> instant \<Rightarrow> error_event list \<Rightarrow> instant \<Rightarrow> dispatch_loop \<Rightarrow> dispatch_loop" where
  "collect L now batch deadline y =
     (if deadline - now = 0 then close_batch L now batch y
      else y\<lparr>dl_phase := Collecting batch deadline\<rparr>)"

fun dispatcher_step :: "notify_libraries \<Rightarrow> dispatch_loop \<Rightarrow> instant \<times> dispatch_event_kind \<Rightarrow> dispatch_loop" where
  "dispatcher_step L y (now, Received e) =
     (case dl_phase y of
        AwaitingFirst \<Rightarrow> collect L now [e] (now + nc_batch_window (dp_config (dl_dispatcher y))) y
      | Collecting batch deadline \<Rightarrow> collect L now (batch @ [e]) deadline y
      | Exited \<Rightarrow> y)"
| "dispatcher_step L y (now, WindowElapses) =
     (case dl_phase y of
        Collecting batch deadline \<Rightarrow> if deadline \<le> now then close_batch L now batch y else y
      | _ \<Rightarrow> y)"
| "dispatcher_step L y (now, ChannelCloses) = y\<lparr>dl_phase := Exited\<rparr>"

definition dispatch_loop_new :: "dispatcher \<Rightarrow> dispatch_loop" where
  "dispatch_loop_new d = \<lparr>dl_dispatcher = d, dl_phase = AwaitingFirst, dl_batches = []\<rparr>"

subsection \<open>What a digest says\<close>

definition events_of :: "string \<Rightarrow> error_event list \<Rightarrow> error_event list" where
  "events_of key batch = filter (\<lambda>e. event_dedup_key e = key) batch"

lemma group_events:
  "map_of (fold group_event batch grouped) key =
     (case events_of key batch of
        [] \<Rightarrow> map_of grouped key
      | e # es \<Rightarrow>
          (case map_of grouped key of
             None \<Rightarrow> Some (e, Suc (length es))
           | Some (first, n) \<Rightarrow> Some (first, n + Suc (length es))))"
proof (induction batch arbitrary: grouped)
  case (Cons e batch)
  then show ?case
    by (auto simp: events_of_def group_event_def Let_def map_of_update split: option.splits list.splits)
qed (simp add: events_of_def)

lemma group_keys: "distinct_keys grouped \<Longrightarrow> distinct_keys (fold group_event batch grouped)"
  by (induction batch arbitrary: grouped)
     (auto simp: group_event_def Let_def distinct_keys_update split: option.splits)

lemma entries_iff:
  "(key, first, n) \<in> set (digest_entries now batch d) \<longleftrightarrow>
     is_due now d key \<and> (\<exists>es. events_of key batch = first # es \<and> n = length (events_of key batch))"
proof -
  have "(key, first, n) \<in> set (group_batch batch) \<longleftrightarrow> map_of (group_batch batch) key = Some (first, n)"
    using group_keys [of "[]" batch] by (auto simp: group_batch_def dest: map_of_SomeI map_of_SomeD)
  then show ?thesis
    by (auto simp: digest_entries_def group_batch_def group_events split: list.splits)
qed

text \<open>
  A digest accounts for its batch: when a batch is notified, each dedup key of it that was not
  notified within the window has one entry, with the first event of the key and the number of its
  events, and nothing else has an entry; the batch is dropped only at the rate limit.
\<close>

theorem digests_account_for_the_batch:
  assumes "dispatch_batch L now batch d = (result, d')"
  shows "(case result of
            NothingDue \<Rightarrow> \<forall>e \<in> set batch. \<not> is_due now d (event_dedup_key e)
          | DroppedBatch n \<Rightarrow> n = length (digest_entries now batch d) \<and> \<not> under_rate_limit (prune_recent_sends now d)
          | Notified entries slack mail \<Rightarrow>
              distinct_keys entries
              \<and> (\<forall>key first n. (key, first, n) \<in> set entries \<longleftrightarrow>
                   is_due now d key \<and> (\<exists>es. events_of key batch = first # es \<and> n = length (events_of key batch)))
              \<and> (slack \<noteq> None \<longleftrightarrow> dp_slack d \<noteq> None) \<and> (mail \<noteq> None \<longleftrightarrow> dp_email d \<noteq> None))"
proof -
  have none: "\<not> is_due now d (event_dedup_key e)"
    if empty: "digest_entries now batch d = []" and e: "e \<in> set batch" for e
  proof
    assume due: "is_due now d (event_dedup_key e)"
    obtain first es where "events_of (event_dedup_key e) batch = first # es"
      using e by (cases "events_of (event_dedup_key e) batch") (auto simp: events_of_def filter_empty_conv)
    with due entries_iff [of "event_dedup_key e" first "Suc (length es)" now batch d] empty show False by simp
  qed
  have keys: "distinct_keys (digest_entries now batch d)"
    using group_keys [of "[]" batch] by (simp add: digest_entries_def group_batch_def distinct_map_filter)
  show ?thesis
    using assms none keys entries_iff [of _ _ _ now batch d]
    by (auto simp: dispatch_batch_def Let_def split: if_splits)
qed

definition demo_error :: "string \<Rightarrow> error_event" where
  "demo_error message = \<lparr>ee_target = ''t'', ee_message = message, ee_fields = []\<rparr>"

definition demo_config :: notification_config where
  "demo_config =
     \<lparr>nc_slack = None, nc_email = None, nc_batch_window = 5, nc_max_messages_per_minute = 10, nc_dedup_window = 30,
      nc_service_name = ''s'', nc_environment = ''e'', nc_host = None\<rparr>"

lemma digests_account_for_the_batch_witness:
  "\<exists>entries. fst (dispatch_batch demo_notify_libraries 0 [demo_error ''a'', demo_error ''a''] (dispatcher_new demo_config None None)) =
     Notified entries None None \<and> (\<exists>first. (''t::a'', first, 2) \<in> set entries)"
proof -
  let ?d = "dispatcher_new demo_config None None" and ?b = "[demo_error ''a'', demo_error ''a'']"
  have key: "event_dedup_key (demo_error ''a'') = ''t::a''" by code_simp
  have "(''t::a'', demo_error ''a'', 2) \<in> set (digest_entries 0 ?b ?d)"
    by (simp add: entries_iff events_of_def key is_due_def dispatcher_new_def)
  then have ne: "digest_entries 0 ?b ?d \<noteq> []" by auto
  have rate: "under_rate_limit (prune_recent_sends 0 ?d)"
    by (simp add: under_rate_limit_def prune_recent_sends_def dispatcher_new_def demo_config_def)
  have sinks: "dp_slack ?d = None" "dp_email ?d = None" by (simp_all add: dispatcher_new_def)
  obtain entries where n: "fst (dispatch_batch demo_notify_libraries 0 ?b ?d) = Notified entries None None"
    by (simp add: dispatch_batch_def Let_def ne rate sinks)
  then have "dispatch_batch demo_notify_libraries 0 ?b ?d = (Notified entries None None, snd (dispatch_batch demo_notify_libraries 0 ?b ?d))"
    by (metis prod.collapse)
  from digests_account_for_the_batch [OF this] n show ?thesis
    by (auto simp: events_of_def key is_due_def dispatcher_new_def)
qed

subsection \<open>How often it says it\<close>

text \<open>The loop on a clock that never goes back: an event that names an earlier instant happens now.\<close>

fun clocked_step ::
  "notify_libraries \<Rightarrow> instant \<times> dispatch_loop \<Rightarrow> instant \<times> dispatch_event_kind \<Rightarrow> instant \<times> dispatch_loop" where
  "clocked_step L (c, y) (t, ev) = (max c t, dispatcher_step L y (max c t, ev))"

fun sent_of :: "(instant \<times> error_event list \<times> dispatched) list \<Rightarrow> (instant \<times> string list) list" where
  "sent_of [] = []"
| "sent_of ((t, batch, result) # rest) =
     (case result of Notified entries slack mail \<Rightarrow> [(t, keys entries)] | _ \<Rightarrow> []) @ sent_of rest"

lemma sent_of_append [simp]: "sent_of (xs @ ys) = sent_of xs @ sent_of ys"
  by (induction xs) auto

definition spaced :: "duration \<Rightarrow> instant \<times> string list \<Rightarrow> instant \<times> string list \<Rightarrow> bool" where
  "spaced w = (\<lambda>(s, ks) (t, ls). s \<le> t \<and> (\<forall>k \<in> set ks \<inter> set ls. s + w \<le> t))"

definition in_minute :: "instant \<Rightarrow> instant \<Rightarrow> bool" where
  "in_minute start u \<longleftrightarrow> start \<le> u \<and> u < start + ONE_MINUTE"

definition sent_inv :: "instant \<Rightarrow> duration \<Rightarrow> (instant \<times> string list) list \<Rightarrow> bool" where
  "sent_inv c w sent \<longleftrightarrow> (\<forall>(t, ks) \<in> set sent. t \<le> c) \<and> sorted_wrt (spaced w) sent"

definition last_inv :: "(string, instant) table \<Rightarrow> (instant \<times> string list) list \<Rightarrow> bool" where
  "last_inv seen sent \<longleftrightarrow> (\<forall>(t, ks) \<in> set sent. \<forall>k \<in> set ks. \<exists>u. map_of seen k = Some u \<and> t \<le> u)"

definition recent_inv :: "instant \<Rightarrow> instant list \<Rightarrow> (instant \<times> string list) list \<Rightarrow> bool" where
  "recent_inv c recent sent \<longleftrightarrow>
     filter (\<lambda>u. c - u < ONE_MINUTE) recent = filter (\<lambda>u. c - u < ONE_MINUTE) (map fst sent)"

definition limit_inv :: "nat \<Rightarrow> instant list \<Rightarrow> (instant \<times> string list) list \<Rightarrow> bool" where
  "limit_inv n recent sent \<longleftrightarrow>
     length recent \<le> n \<and> (\<forall>start. length (filter (in_minute start) (map fst sent)) \<le> n)"

definition dispatcher_inv ::
  "notification_config \<Rightarrow> instant \<Rightarrow> dispatcher \<Rightarrow> (instant \<times> string list) list \<Rightarrow> bool" where
  "dispatcher_inv config c d sent \<longleftrightarrow>
     dp_config d = config \<and> sent_inv c (nc_dedup_window config) sent \<and> last_inv (dp_last_notified d) sent
     \<and> recent_inv c (dp_recent_sends d) sent \<and> limit_inv (nc_max_messages_per_minute config) (dp_recent_sends d) sent"

lemma recent_later:
  assumes "recent_inv c recent sent" and "c \<le> t"
  shows "filter (\<lambda>u. t - u < ONE_MINUTE) recent = filter (\<lambda>u. t - u < ONE_MINUTE) (map fst sent)"
proof -
  have "filter (\<lambda>u. t - u < ONE_MINUTE) xs = filter (\<lambda>u. t - u < ONE_MINUTE) (filter (\<lambda>u. c - u < ONE_MINUTE) xs)" for xs
    using assms(2) by (auto intro!: filter_cong)
  then show ?thesis using assms(1) unfolding recent_inv_def by metis
qed

lemma sent_later: "sent_inv c w sent \<Longrightarrow> c \<le> t \<Longrightarrow> sent_inv t w sent"
  by (fastforce simp: sent_inv_def)

lemma dispatcher_inv_later: "dispatcher_inv config c d sent \<Longrightarrow> c \<le> t \<Longrightarrow> dispatcher_inv config t d sent"
  using sent_later recent_later [of c "dp_recent_sends d" sent t]
  unfolding dispatcher_inv_def recent_inv_def [of t] by blast

lemma sent_snoc:
  assumes "sent_inv c w sent" and "c \<le> t" and "last_inv seen sent"
    and "\<forall>k \<in> set ks. case map_of seen k of None \<Rightarrow> True | Some earlier \<Rightarrow> w \<le> t - earlier"
  shows "sent_inv t w (sent @ [(t, ks)])"
proof -
  have "spaced w p (t, ks)" if p: "p \<in> set sent" for p
  proof -
    obtain s ls where p': "p = (s, ls)" by (cases p)
    have "s \<le> t" using assms(1,2) p by (fastforce simp: p' sent_inv_def)
    moreover have "s + w \<le> t" if "k \<in> set ls" "k \<in> set ks" for k
    proof -
      obtain u where u: "map_of seen k = Some u" "s \<le> u" using assms(3) p \<open>k \<in> set ls\<close> by (fastforce simp: p' last_inv_def)
      then have "w \<le> t - u" using assms(4) \<open>k \<in> set ks\<close> by fastforce
      with u(2) \<open>s \<le> t\<close> show ?thesis by linarith
    qed
    ultimately show ?thesis by (auto simp: p' spaced_def)
  qed
  with assms(1,2) show ?thesis by (fastforce simp: sent_inv_def sorted_wrt_append)
qed

lemma notified_now:
  "map_of (fold (\<lambda>(key, _) m. AList.update key now m) entries seen) k =
     (if k \<in> set (keys entries) then Some now else map_of seen k)"
  by (induction entries arbitrary: seen) (auto simp: map_of_update)

lemma last_snoc:
  assumes "last_inv seen sent" and "sent_inv c w sent" and "c \<le> t"
  shows "last_inv (fold (\<lambda>(key, _) m. AList.update key t m) entries seen) (sent @ [(t, keys entries)])"
  using assms by (fastforce simp: last_inv_def sent_inv_def notified_now)

lemma limit_snoc:
  assumes "limit_inv n recent sent" and "recent_inv c recent sent" and "c \<le> t"
    and "length (filter (\<lambda>u. t - u < ONE_MINUTE) recent) < n"
  shows "limit_inv n (filter (\<lambda>u. t - u < ONE_MINUTE) recent @ [t]) (sent @ [(t, ks)])"
proof -
  have "length (filter (in_minute start) (map fst sent)) < n" if "in_minute start t" for start
  proof -
    have "filter (in_minute start) (map fst sent) = filter (in_minute start) (filter (\<lambda>u. t - u < ONE_MINUTE) (map fst sent))"
      using that by (auto simp: in_minute_def intro!: filter_cong)
    then have "length (filter (in_minute start) (map fst sent)) \<le> length (filter (\<lambda>u. t - u < ONE_MINUTE) (map fst sent))"
      by (metis length_filter_le)
    with recent_later [OF assms(2,3)] assms(4) show ?thesis by simp
  qed
  then show ?thesis using assms(1,4) by (auto simp: limit_inv_def Suc_leI)
qed

lemma prune_inv:
  assumes "dispatcher_inv config c d sent" and "c \<le> t"
  shows "dispatcher_inv config t (prune_recent_sends t d) sent"
proof -
  have inv: "dispatcher_inv config t d sent" by (rule dispatcher_inv_later [OF assms])
  have "recent_inv t (filter (\<lambda>u. t - u < ONE_MINUTE) (dp_recent_sends d)) sent"
    using recent_later [of c "dp_recent_sends d" sent t] assms by (simp add: recent_inv_def dispatcher_inv_def)
  moreover have "limit_inv n (filter (\<lambda>u. t - u < ONE_MINUTE) recent) sent" if "limit_inv n recent sent" for n recent
    using that by (auto simp: limit_inv_def intro: order_trans [OF length_filter_le])
  ultimately show ?thesis using inv by (simp add: dispatcher_inv_def prune_recent_sends_def)
qed

lemma rate_limit_below:
  assumes "dispatcher_inv config c d sent" and "nc_max_messages_per_minute config \<le> U32_MAX" and "under_rate_limit d"
  shows "length (dp_recent_sends d) < nc_max_messages_per_minute config"
proof -
  have "length (dp_recent_sends d) \<le> nc_max_messages_per_minute config"
    using assms(1) by (simp add: dispatcher_inv_def limit_inv_def)
  then have "length (dp_recent_sends d) mod 2 ^ 32 = length (dp_recent_sends d)"
    using assms(2) by (simp add: U32_MAX_def)
  with assms(1,3) show ?thesis by (simp add: under_rate_limit_def dispatcher_inv_def)
qed

lemma dispatch_inv:
  assumes inv: "dispatcher_inv config c d sent" and "c \<le> t" and max: "nc_max_messages_per_minute config \<le> U32_MAX"
    and "dispatch_batch L t batch d = (result, d')"
  shows "dispatcher_inv config t d' (sent @ sent_of [(t, batch, result)])"
proof -
  let ?entries = "digest_entries t batch d" and ?d1 = "prune_recent_sends t d"
  note pruned = prune_inv [OF inv \<open>c \<le> t\<close>]
  show ?thesis
  proof (cases "?entries = [] \<or> \<not> under_rate_limit ?d1")
    case True
    with assms(4) pruned dispatcher_inv_later [OF inv \<open>c \<le> t\<close>] show ?thesis
      by (auto simp: dispatch_batch_def Let_def split: if_splits)
  next
    case False
    then obtain slack mail where result: "result = Notified ?entries slack mail"
      and d': "d' = ?d1\<lparr>dp_last_notified := fold (\<lambda>(key, _) m. AList.update key t m) ?entries (dp_last_notified ?d1),
                        dp_recent_sends := dp_recent_sends ?d1 @ [t]\<rparr>"
      using assms(4) by (auto simp: dispatch_batch_def Let_def)
    have d1: "dp_recent_sends ?d1 = filter (\<lambda>u. t - u < ONE_MINUTE) (dp_recent_sends d)"
      "dp_last_notified ?d1 = dp_last_notified d" "dp_config ?d1 = dp_config d"
      by (simp_all add: prune_recent_sends_def)
    note parts = inv [unfolded dispatcher_inv_def]
    have due: "\<forall>k \<in> set (keys ?entries).
        case map_of (dp_last_notified d) k of None \<Rightarrow> True | Some earlier \<Rightarrow> nc_dedup_window config \<le> t - earlier"
      using parts by (auto simp: digest_entries_def is_due_def)
    have below: "length (filter (\<lambda>u. t - u < ONE_MINUTE) (dp_recent_sends d)) < nc_max_messages_per_minute config"
      using rate_limit_below [OF pruned max] False by (simp add: d1)
    have "sent_inv t (nc_dedup_window config) (sent @ [(t, keys ?entries)])"
      using sent_snoc [OF _ \<open>c \<le> t\<close> _ due] parts by blast
    moreover have "last_inv (dp_last_notified d') (sent @ [(t, keys ?entries)])"
      using last_snoc [of "dp_last_notified d" sent c "nc_dedup_window config" t ?entries] parts \<open>c \<le> t\<close>
      by (simp add: d' d1)
    moreover have "recent_inv t (dp_recent_sends d') (sent @ [(t, keys ?entries)])"
      using recent_later [of c "dp_recent_sends d" sent t] parts \<open>c \<le> t\<close> by (simp add: recent_inv_def d' d1 ONE_MINUTE_def SECOND_def)
    moreover have "limit_inv (nc_max_messages_per_minute config) (dp_recent_sends d') (sent @ [(t, keys ?entries)])"
      using limit_snoc [OF _ _ \<open>c \<le> t\<close> below] parts by (simp add: d' d1)
    ultimately show ?thesis using parts by (simp add: dispatcher_inv_def result d' d1)
  qed
qed

definition loop_inv :: "notification_config \<Rightarrow> instant \<times> dispatch_loop \<Rightarrow> bool" where
  "loop_inv config = (\<lambda>(c, y).
     nc_max_messages_per_minute config \<le> U32_MAX \<longrightarrow>
       dispatcher_inv config c (dl_dispatcher y) (sent_of (dl_batches y)))"

lemma close_batch_inv: "loop_inv config (c, y) \<Longrightarrow> c \<le> t \<Longrightarrow> loop_inv config (t, close_batch L t batch y)"
  using dispatch_inv [of config c "dl_dispatcher y" "sent_of (dl_batches y)" t]
  by (auto simp: loop_inv_def close_batch_def split: prod.splits)

lemma loop_inv_later:
  "loop_inv config (c, y) \<Longrightarrow> c \<le> t \<Longrightarrow> loop_inv config (t, y\<lparr>dl_phase := p\<rparr>)"
  by (auto simp: loop_inv_def intro: dispatcher_inv_later)

lemma loop_inv_same: "loop_inv config (c, y) \<Longrightarrow> c \<le> t \<Longrightarrow> loop_inv config (t, y)"
  by (auto simp: loop_inv_def intro: dispatcher_inv_later)

lemma collect_inv: "loop_inv config (c, y) \<Longrightarrow> c \<le> t \<Longrightarrow> loop_inv config (t, collect L t batch deadline y)"
  by (simp add: collect_def close_batch_inv loop_inv_later)

interpretation dispatching: machine "clocked_step L" "loop_inv config" for L config
proof
  fix s :: "instant \<times> dispatch_loop" and e :: "instant \<times> dispatch_event_kind"
  obtain c y t ev where s: "s = (c, y)" and e: "e = (t, ev)" by (cases s; cases e)
  assume "loop_inv config s"
  then have inv: "loop_inv config (c, y)" by (simp add: s)
  show "loop_inv config (clocked_step L s e)"
    using collect_inv [OF inv, of "max c t"] close_batch_inv [OF inv, of "max c t"] loop_inv_later [OF inv, of "max c t"]
      loop_inv_same [OF inv, of "max c t"]
    by (cases ev) (auto simp: s e split: dispatch_phase.splits)
qed

text \<open>
  C27: Digests are rare: whatever errors arrive and whenever, no minute holds more digests than the
  configured limit, and two digests that report one dedup key are at least the dedup window apart.
\<close>

theorem digests_are_limited_and_spaced:
  assumes "nc_max_messages_per_minute config \<le> U32_MAX"
    and "run (clocked_step L) (0, dispatch_loop_new (dispatcher_new config slack mail)) evs = (now, y)"
  shows "length (filter (\<lambda>u. start \<le> u \<and> u < start + 60 * SECOND) (map fst (sent_of (dl_batches y))))
           \<le> nc_max_messages_per_minute config
    \<and> (\<forall>xs s ks ys t ls zs k. sent_of (dl_batches y) = xs @ (s, ks) # ys @ (t, ls) # zs \<and> k \<in> set ks \<and> k \<in> set ls
          \<longrightarrow> s + nc_dedup_window config \<le> t)"
proof -
  have "loop_inv config (0, dispatch_loop_new (dispatcher_new config slack mail))"
    by (simp add: loop_inv_def dispatch_loop_new_def dispatcher_new_def dispatcher_inv_def sent_inv_def last_inv_def
        recent_inv_def limit_inv_def)
  from dispatching.run_inv [OF this, of L evs] assms
  have inv: "dispatcher_inv config now (dl_dispatcher y) (sent_of (dl_batches y))" by (simp add: loop_inv_def)
  then have "sorted_wrt (spaced (nc_dedup_window config)) (sent_of (dl_batches y))"
    by (simp add: dispatcher_inv_def sent_inv_def)
  moreover have "length (filter (in_minute start) (map fst (sent_of (dl_batches y)))) \<le> nc_max_messages_per_minute config"
    using inv by (simp add: dispatcher_inv_def limit_inv_def)
  ultimately show ?thesis
    by (auto simp: sorted_wrt_append spaced_def in_minute_def [abs_def] ONE_MINUTE_def)
qed

lemma digests_are_limited_and_spaced_witness:
  "\<exists>now y. run (clocked_step demo_notify_libraries) (0, dispatch_loop_new (dispatcher_new demo_config None None))
        [(0, Received (demo_error ''a'')), (5, WindowElapses)] = (now, y)
    \<and> length (sent_of (dl_batches y)) = 1
    \<and> length (filter (\<lambda>u. 0 \<le> u \<and> u < 0 + 60 * SECOND) (map fst (sent_of (dl_batches y)))) \<le> 10"
proof -
  let ?d = "dispatcher_new demo_config None None" and ?evs = "[(0, Received (demo_error ''a'')), (5, WindowElapses)]"
  have conf: "nc_max_messages_per_minute demo_config = 10" "nc_batch_window demo_config = 5" by (simp_all add: demo_config_def)
  have d: "dp_config ?d = demo_config" by (simp add: dispatcher_new_def)
  have "(event_dedup_key (demo_error ''a''), demo_error ''a'', 1) \<in> set (digest_entries 5 [demo_error ''a''] ?d)"
    by (simp add: entries_iff events_of_def is_due_def dispatcher_new_def)
  then have ne: "digest_entries 5 [demo_error ''a''] ?d \<noteq> []" by auto
  have rate: "under_rate_limit (prune_recent_sends 5 ?d)"
    by (simp add: under_rate_limit_def prune_recent_sends_def dispatcher_new_def demo_config_def)
  obtain now y where run: "run (clocked_step demo_notify_libraries) (0, dispatch_loop_new ?d) ?evs = (now, y)" by (meson surj_pair)
  then have "length (sent_of (dl_batches y)) = 1"
    by (auto simp: dispatch_loop_new_def collect_def close_batch_def d conf dispatch_batch_def Let_def ne rate)
  with digests_are_limited_and_spaced [OF _ run, of 0] run show ?thesis by (auto simp: conf U32_MAX_def)
qed

subsection \<open>What is lost\<close>

fun received_errors :: "(instant \<times> dispatch_event_kind) list \<Rightarrow> error_event list" where
  "received_errors [] = []"
| "received_errors ((t, Received e) # evs) = e # received_errors evs"
| "received_errors ((t, _) # evs) = received_errors evs"

fun collecting :: "dispatch_phase \<Rightarrow> error_event list" where
  "collecting (Collecting batch deadline) = batch"
| "collecting _ = []"

definition dispatched_errors :: "dispatch_loop \<Rightarrow> error_event list" where
  "dispatched_errors y = concat (map (\<lambda>(t, batch, result). batch) (dl_batches y))"

lemma close_batch_parts:
  "dl_phase (close_batch L now batch y) = AwaitingFirst"
  "dispatched_errors (close_batch L now batch y) = dispatched_errors y @ batch"
  by (auto simp: close_batch_def dispatched_errors_def split: prod.splits)

lemma collect_parts:
  "dl_phase (collect L now batch deadline y) \<noteq> Exited"
  "dispatched_errors (collect L now batch deadline y) @ collecting (dl_phase (collect L now batch deadline y))
     = dispatched_errors y @ batch"
  by (auto simp: collect_def close_batch_parts) (simp add: dispatched_errors_def)

lemma step_errors:
  assumes "dl_phase y \<noteq> Exited" and "ev \<noteq> ChannelCloses"
  shows "dl_phase (dispatcher_step L y (t, ev)) \<noteq> Exited
    \<and> dispatched_errors (dispatcher_step L y (t, ev)) @ collecting (dl_phase (dispatcher_step L y (t, ev)))
        = dispatched_errors y @ collecting (dl_phase y) @ received_errors [(t, ev)]"
proof (cases ev)
  case (Received e)
  with assms collect_parts show ?thesis by (cases "dl_phase y") auto
next
  case WindowElapses
  with assms show ?thesis by (cases "dl_phase y") (auto simp: close_batch_parts)
qed (use assms in simp)

lemma received_errors_Cons: "received_errors (i # evs) = received_errors [i] @ received_errors evs"
  by (cases i; cases "snd i") auto

lemma run_errors:
  assumes "dl_phase y \<noteq> Exited" and "\<forall>i \<in> set evs. snd i \<noteq> ChannelCloses"
  shows "dl_phase (run (dispatcher_step L) y evs) \<noteq> Exited
    \<and> dispatched_errors (run (dispatcher_step L) y evs) @ collecting (dl_phase (run (dispatcher_step L) y evs))
        = dispatched_errors y @ collecting (dl_phase y) @ received_errors evs"
  using assms
proof (induction evs arbitrary: y)
  case (Cons i evs)
  obtain t ev where i: "i = (t, ev)" by (cases i)
  note step = step_errors [OF Cons.prems(1), of ev L t]
  from Cons step show ?case by (simp add: i received_errors_Cons [of "(t, ev)" evs])
qed simp

lemma run_exited: "dl_phase y = Exited \<Longrightarrow> run (dispatcher_step L) y evs = y"
proof (induction evs arbitrary: y)
  case (Cons i evs)
  have "dispatcher_step L y i = y" using Cons.prems by (cases i; cases "snd i") simp_all
  with Cons show ?case by simp
qed simp

text \<open>
  C28: Every error is dispatched once and in order, except those of the batch that is open when the
  channel closes: those reach no digest, whatever comes after. (The layer's documentation says that
  they are flushed.)
\<close>

theorem errors_are_batched_until_the_channel_closes:
  assumes "\<forall>i \<in> set evs. snd i \<noteq> ChannelCloses"
  shows "dispatched_errors (run (dispatcher_step L) (dispatch_loop_new d) evs)
           @ collecting (dl_phase (run (dispatcher_step L) (dispatch_loop_new d) evs)) = received_errors evs
    \<and> dispatched_errors (run (dispatcher_step L) (dispatch_loop_new d) (evs @ (t, ChannelCloses) # later))
        = dispatched_errors (run (dispatcher_step L) (dispatch_loop_new d) evs)"
proof
  show "dispatched_errors (run (dispatcher_step L) (dispatch_loop_new d) evs)
           @ collecting (dl_phase (run (dispatcher_step L) (dispatch_loop_new d) evs)) = received_errors evs"
    using run_errors [OF _ assms, of "dispatch_loop_new d" L]
    by (simp add: dispatch_loop_new_def dispatched_errors_def)
  show "dispatched_errors (run (dispatcher_step L) (dispatch_loop_new d) (evs @ (t, ChannelCloses) # later))
        = dispatched_errors (run (dispatcher_step L) (dispatch_loop_new d) evs)"
    by (simp add: run_append run_exited dispatched_errors_def)
qed

lemma errors_are_batched_until_the_channel_closes_witness:
  "dispatched_errors (run (dispatcher_step demo_notify_libraries) (dispatch_loop_new (dispatcher_new demo_config None None))
     [(0, Received (demo_error ''a'')), (1, ChannelCloses)]) = []"
  using errors_are_batched_until_the_channel_closes [of "[(0, Received (demo_error ''a''))]" demo_notify_libraries
      "dispatcher_new demo_config None None" 1 "[]"]
  by (simp add: dispatch_loop_new_def dispatcher_new_def demo_config_def collect_def dispatched_errors_def)

text \<open>Truncation measures bytes and takes characters, so it can lengthen a text of many-byte characters.\<close>

lemma truncation_can_lengthen:
  "truncate_message (concat (replicate 2 [CHR 0xE2, CHR 0x82, CHR 0xAC])) 5 = concat (replicate 2 [CHR 0xE2, CHR 0x82, CHR 0xAC]) @ ''...''"
  by code_simp

end
