(* ===== verification/Random_Id.thy ===== *)
theory Random_Id
  imports Rust_Num "HOL-Library.Word"
begin

unbundle bit_operations_syntax

text \<open>
  Unguessable identifiers (\<^verbatim>\<open>src/mcp/random_id.rs\<close>): the ids of tasks, sessions and requests
  to the client, rendered from the operating system's random bytes. A draw is the argument: an
  error of \<^verbatim>\<open>getrandom::fill\<close>, or the bytes it filled the buffer with.
\<close>

definition ID_BYTES :: nat where "ID_BYTES = 16"

definition HEX_DIGITS :: string where "HEX_DIGITS = ''0123456789abcdef''"

definition byte_hex :: "8 word \<Rightarrow> string" where
  "byte_hex b = [HEX_DIGITS ! unat (drop_bit 4 b), HEX_DIGITS ! unat (b AND 0x0F)]"

definition random_hex_id :: "(string, 8 word list) result \<Rightarrow> (string, string) result" where
  "random_hex_id drawn = result_bind drawn (\<lambda>bytes. Inr (concat (map byte_hex bytes)))"

subsection \<open>Lemmas\<close>

lemma high_half: "unat (drop_bit 4 (b :: 8 word)) = unat b div 16"
  unfolding unat_drop_bit_eq by (simp only: drop_bit_eq_div) simp

lemma low_half: "unat ((b :: 8 word) AND 0x0F) = unat b mod 16"
proof -
  have "b AND 0x0F = take_bit 4 b" by (simp add: take_bit_eq_mask mask_eq_exp_minus_1)
  moreover have "unat (take_bit 4 b) = take_bit 4 (unat b)"
    by (rule bit_eqI) (auto simp: bit_unsigned_iff bit_take_bit_iff)
  ultimately show ?thesis by (simp add: take_bit_eq_mod)
qed

lemma byte_below: "unat (b :: 8 word) < 256"
  using unsigned_less [of b] by simp

lemma halves: "unat (b :: 8 word) div 16 < 16" "unat b mod 16 < 16"
  using byte_below [of b] by simp_all

lemma hex_digits_distinct: "distinct HEX_DIGITS" "length HEX_DIGITS = 16"
  by (simp_all add: HEX_DIGITS_def)

lemma byte_hex_digits: "set (byte_hex b) \<subseteq> set HEX_DIGITS" "length (byte_hex b) = 2"
  using halves [of b] by (simp_all add: byte_hex_def high_half low_half hex_digits_distinct nth_mem)

lemma byte_hex_inj: "byte_hex a = byte_hex b \<Longrightarrow> a = b"
proof -
  assume "byte_hex a = byte_hex b"
  then have "unat a div 16 = unat b div 16" "unat a mod 16 = unat b mod 16"
    using halves [of a] halves [of b] hex_digits_distinct
    by (simp_all add: byte_hex_def high_half low_half nth_eq_iff_index_eq)
  then have "unat a = unat b" by (metis div_mult_mod_eq)
  then show "a = b" by (rule unsigned_word_eqI)
qed

lemma rendered_length: "length (concat (map byte_hex bytes)) = 2 * length bytes"
  by (induction bytes) (simp_all add: byte_hex_digits)

lemma rendered_digits: "set (concat (map byte_hex bytes)) \<subseteq> set HEX_DIGITS"
  by (induction bytes) (use byte_hex_digits in auto)

lemma rendered_inj: "concat (map byte_hex as) = concat (map byte_hex bs) \<Longrightarrow> as = bs"
proof (induction as arbitrary: bs)
  case Nil
  then have "2 * length bs = 0" using rendered_length [of bs] by (metis concat.simps(1) list.map(1) list.size(3))
  then show ?case by simp
next
  case (Cons a as)
  then obtain b bs' where bs: "bs = b # bs'"
    using byte_hex_digits(2) [of a] by (cases bs) auto
  with Cons.prems have "byte_hex a = byte_hex b" "concat (map byte_hex as) = concat (map byte_hex bs')"
    by (simp_all add: append_eq_append_conv byte_hex_digits)
  with Cons.IH [of bs'] show ?case by (simp add: bs byte_hex_inj)
qed

text \<open>
  Nothing of a draw is lost, and nothing but it decides the id: a full draw renders as exactly
  32 characters, each a lowercase hexadecimal digit, and no other draw renders as the same id, so
  an id is as hard to guess as the 128 bits behind it; and it is visible ASCII, fit for a header
  value or a JSON string as it is. A failed draw mints no id.
\<close>

theorem ids_keep_every_bit_drawn:
  "(case drawn of
      Inl e \<Rightarrow> random_hex_id drawn = Inl e
    | Inr bytes \<Rightarrow>
        (\<exists>i. random_hex_id drawn = Inr i \<and> length i = 2 * length bytes
           \<and> (length bytes = ID_BYTES \<longrightarrow> length i = 32)
           \<and> list_all (\<lambda>c. c \<in> set HEX_DIGITS \<and> byte c \<in> {33..126}) i))
   \<and> (random_hex_id drawn = random_hex_id (Inr other) \<longrightarrow> drawn = Inr other)"
proof -
  have visible: "\<forall>c \<in> set HEX_DIGITS. byte c \<in> {33..126}"
    by (simp add: HEX_DIGITS_def)
  show ?thesis
  proof (cases drawn)
    case (Inr bytes)
    have "list_all (\<lambda>c. c \<in> set HEX_DIGITS \<and> byte c \<in> {33..126}) (concat (map byte_hex bytes))"
      using rendered_digits [of bytes] visible by (auto simp: list_all_iff)
    with Inr show ?thesis
      by (auto simp: random_hex_id_def rendered_length ID_BYTES_def dest: rendered_inj simp del: set_concat)
  qed (simp add: random_hex_id_def)
qed

lemma ids_keep_every_bit_drawn_witness:
  "length (concat (map byte_hex (replicate 16 (0xAB :: 8 word)))) = 32
   \<and> random_hex_id (Inr [0xAB]) \<noteq> random_hex_id (Inr [0xBA])"
  using ids_keep_every_bit_drawn [of "Inr (replicate 16 (0xAB :: 8 word))" "[]"]
    ids_keep_every_bit_drawn [of "Inr [0xAB]" "[0xBA]"]
  by (auto simp: random_hex_id_def ID_BYTES_def)

end
