(* ===== verification/Elicitation.thy ===== *)
theory Elicitation
  imports Mcp_Schema Client_Channel
begin

text \<open>
  Form-mode elicitation (\<^verbatim>\<open>src/mcp/elicitation.rs\<close>): the form a server asks its client to show,
  its restricted schema, and the answer, each with the JSON its derived serializer writes and the
  reader the derived deserializer is. The untagged \<^verbatim>\<open>PrimitiveSchema\<close> is read as the first shape
  that fits, in the order the source lists them. A \<^verbatim>\<open>BTreeMap\<close> is a table in the order of its
  keys; a \<^verbatim>\<open>Number\<close> is kept as written; a \<^verbatim>\<open>u64\<close> is a natural number. \<^verbatim>\<open>elicit\<close> is the request
  of the client channel with these for its parameters and its result.
\<close>

declare map_of_eq_Some_iff [simp del] Some_eq_map_of_iff [simp del]

subsection \<open>Readers\<close>

text \<open>A unit-only enum reads from its name, or from an object whose one entry names it.\<close>

definition variant_of :: "(string \<times> 'a) list \<Rightarrow> json \<Rightarrow> 'a option" where
  "variant_of names v =
     (case v of
        JString s \<Rightarrow> map_of names s
      | JObject [(s, JNull)] \<Rightarrow> map_of names s
      | _ \<Rightarrow> None)"

definition as_number :: "json \<Rightarrow> json_number option" where
  "as_number v = (case v of JNumber n \<Rightarrow> Some n | _ \<Rightarrow> None)"

fun read_all :: "('a \<Rightarrow> 'b option) \<Rightarrow> 'a list \<Rightarrow> 'b list option" where
  "read_all f [] = Some []"
| "read_all f (x # xs) =
     (case (f x, read_all f xs) of (Some y, Some ys) \<Rightarrow> Some (y # ys) | _ \<Rightarrow> None)"

definition as_list :: "(json \<Rightarrow> 'a option) \<Rightarrow> json \<Rightarrow> 'a list option" where
  "as_list f v = (case v of JArray vs \<Rightarrow> read_all f vs | _ \<Rightarrow> None)"

definition as_map :: "(json \<Rightarrow> 'a option) \<Rightarrow> json \<Rightarrow> (string, 'a) table option" where
  "as_map f v =
     (case v of
        JObject m \<Rightarrow> read_all (\<lambda>(key, w). map_option (Pair key) (f w)) m
      | _ \<Rightarrow> None)"

abbreviation as_strings :: "json \<Rightarrow> string list option" where
  "as_strings \<equiv> as_list as_str"

text \<open>A reader of which only success matters: inside an untagged enum a failed shape is passed by.\<close>

definition fits :: "('e, 'a) result \<Rightarrow> 'a option" where
  "fits r = (case r of Inl _ \<Rightarrow> None | Inr x \<Rightarrow> Some x)"

definition read_struct ::
  "string list \<Rightarrow> string list \<Rightarrow> (json_map \<Rightarrow> (de_error, 'a) result) \<Rightarrow> json \<Rightarrow> (de_error, 'a) result" where
  "read_struct names defaulted f v =
     result_bind (ok_or (struct_fields names defaulted v) (InvalidField ''struct'')) f"

text \<open>\<^verbatim>\<open>#[serde(default)]\<close> on a list: absent reads as empty, \<^verbatim>\<open>null\<close> is an error.\<close>

definition list_field_of :: "string \<Rightarrow> (json \<Rightarrow> 'a list option) \<Rightarrow> json_map \<Rightarrow> (de_error, 'a list) result" where
  "list_field_of key f m =
     (case map_of m key of None \<Rightarrow> Inr [] | Some v \<Rightarrow> ok_or (f v) (InvalidField key))"

subsection \<open>The shapes of a field\<close>

datatype object_type = ObjectKind
datatype string_type = StringKind
datatype number_type = NumberKind | IntegerKind
datatype boolean_type = BooleanKind
datatype array_type = ArrayKind

fun object_name :: "object_type \<Rightarrow> string" where "object_name ObjectKind = ''object''"
fun string_name :: "string_type \<Rightarrow> string" where "string_name StringKind = ''string''"
fun boolean_name :: "boolean_type \<Rightarrow> string" where "boolean_name BooleanKind = ''boolean''"
fun array_name :: "array_type \<Rightarrow> string" where "array_name ArrayKind = ''array''"
fun number_name :: "number_type \<Rightarrow> string" where
  "number_name NumberKind = ''number''"
| "number_name IntegerKind = ''integer''"

definition as_object_type :: "json \<Rightarrow> object_type option" where
  "as_object_type = variant_of [(''object'', ObjectKind)]"
definition as_string_type :: "json \<Rightarrow> string_type option" where
  "as_string_type = variant_of [(''string'', StringKind)]"
definition as_boolean_type :: "json \<Rightarrow> boolean_type option" where
  "as_boolean_type = variant_of [(''boolean'', BooleanKind)]"
definition as_array_type :: "json \<Rightarrow> array_type option" where
  "as_array_type = variant_of [(''array'', ArrayKind)]"
definition as_number_type :: "json \<Rightarrow> number_type option" where
  "as_number_type = variant_of [(''number'', NumberKind), (''integer'', IntegerKind)]"

datatype string_format = Email | Uri | Date | DateTime

fun format_name :: "string_format \<Rightarrow> string" where
  "format_name Email = ''email''"
| "format_name Uri = ''uri''"
| "format_name Date = ''date''"
| "format_name DateTime = ''date-time''"

definition as_format :: "json \<Rightarrow> string_format option" where
  "as_format = variant_of [(''email'', Email), (''uri'', Uri), (''date'', Date), (''date-time'', DateTime)]"

record string_schema =
  ss_kind :: string_type
  ss_title :: "string option"
  ss_description :: "string option"
  ss_min_length :: "nat option"
  ss_max_length :: "nat option"
  ss_format :: "string_format option"
  ss_default :: "string option"

record number_schema =
  ns_kind :: number_type
  ns_title :: "string option"
  ns_description :: "string option"
  ns_minimum :: "json_number option"
  ns_maximum :: "json_number option"
  ns_default :: "json_number option"

record boolean_schema =
  bs_kind :: boolean_type
  bs_title :: "string option"
  bs_description :: "string option"
  bs_default :: "bool option"

record enum_option =
  eo_value :: string
  eo_title :: string

record untitled_single_select =
  us_kind :: string_type
  us_title :: "string option"
  us_description :: "string option"
  us_values :: "string list"
  us_default :: "string option"

record titled_single_select =
  ts_kind :: string_type
  ts_title :: "string option"
  ts_description :: "string option"
  ts_options :: "enum_option list"
  ts_default :: "string option"

record legacy_titled_enum =
  le_kind :: string_type
  le_title :: "string option"
  le_description :: "string option"
  le_values :: "string list"
  le_names :: "string list"
  le_default :: "string option"

record untitled_enum_items =
  ui_kind :: string_type
  ui_values :: "string list"

record titled_enum_items =
  ti_options :: "enum_option list"

record untitled_multi_select =
  um_kind :: array_type
  um_title :: "string option"
  um_description :: "string option"
  um_min_items :: "nat option"
  um_max_items :: "nat option"
  um_items :: untitled_enum_items
  um_default :: "string list option"

record titled_multi_select =
  tm_kind :: array_type
  tm_title :: "string option"
  tm_description :: "string option"
  tm_min_items :: "nat option"
  tm_max_items :: "nat option"
  tm_items :: titled_enum_items
  tm_default :: "string list option"

datatype primitive_schema =
    TitledSingleSelect titled_single_select
  | LegacyTitledEnum legacy_titled_enum
  | UntitledSingleSelect untitled_single_select
  | TitledMultiSelect titled_multi_select
  | UntitledMultiSelect untitled_multi_select
  | StringField string_schema
  | NumberField number_schema
  | BooleanField boolean_schema

subsection \<open>Written\<close>

definition labels_json :: "string \<Rightarrow> string option \<Rightarrow> string option \<Rightarrow> json_map" where
  "labels_json kind title description =
     [(''type'', JString kind)] @ opt_field ''title'' JString title @ opt_field ''description'' JString description"

definition enum_option_json :: "enum_option \<Rightarrow> json" where
  "enum_option_json e = JObject [(''const'', JString (eo_value e)), (''title'', JString (eo_title e))]"

definition options_json :: "enum_option list \<Rightarrow> json" where
  "options_json es = JArray (map enum_option_json es)"

definition string_schema_json :: "string_schema \<Rightarrow> json" where
  "string_schema_json s = JObject
     (labels_json (string_name (ss_kind s)) (ss_title s) (ss_description s)
      @ opt_field ''minLength'' u64_json (ss_min_length s)
      @ opt_field ''maxLength'' u64_json (ss_max_length s)
      @ opt_field ''format'' (\<lambda>f. JString (format_name f)) (ss_format s)
      @ opt_field ''default'' JString (ss_default s))"

definition number_schema_json :: "number_schema \<Rightarrow> json" where
  "number_schema_json s = JObject
     (labels_json (number_name (ns_kind s)) (ns_title s) (ns_description s)
      @ opt_field ''minimum'' JNumber (ns_minimum s)
      @ opt_field ''maximum'' JNumber (ns_maximum s)
      @ opt_field ''default'' JNumber (ns_default s))"

definition boolean_schema_json :: "boolean_schema \<Rightarrow> json" where
  "boolean_schema_json s = JObject
     (labels_json (boolean_name (bs_kind s)) (bs_title s) (bs_description s)
      @ opt_field ''default'' JBool (bs_default s))"

definition untitled_single_json :: "untitled_single_select \<Rightarrow> json" where
  "untitled_single_json s = JObject
     (labels_json (string_name (us_kind s)) (us_title s) (us_description s)
      @ [(''enum'', strings_json (us_values s))] @ opt_field ''default'' JString (us_default s))"

definition titled_single_json :: "titled_single_select \<Rightarrow> json" where
  "titled_single_json s = JObject
     (labels_json (string_name (ts_kind s)) (ts_title s) (ts_description s)
      @ [(''oneOf'', options_json (ts_options s))] @ opt_field ''default'' JString (ts_default s))"

definition legacy_enum_json :: "legacy_titled_enum \<Rightarrow> json" where
  "legacy_enum_json s = JObject
     (labels_json (string_name (le_kind s)) (le_title s) (le_description s)
      @ [(''enum'', strings_json (le_values s)), (''enumNames'', strings_json (le_names s))]
      @ opt_field ''default'' JString (le_default s))"

definition untitled_items_json :: "untitled_enum_items \<Rightarrow> json" where
  "untitled_items_json i = JObject [(''type'', JString (string_name (ui_kind i))), (''enum'', strings_json (ui_values i))]"

definition titled_items_json :: "titled_enum_items \<Rightarrow> json" where
  "titled_items_json i = JObject [(''anyOf'', options_json (ti_options i))]"

definition untitled_multi_json :: "untitled_multi_select \<Rightarrow> json" where
  "untitled_multi_json s = JObject
     (labels_json (array_name (um_kind s)) (um_title s) (um_description s)
      @ opt_field ''minItems'' u64_json (um_min_items s) @ opt_field ''maxItems'' u64_json (um_max_items s)
      @ [(''items'', untitled_items_json (um_items s))] @ opt_field ''default'' strings_json (um_default s))"

definition titled_multi_json :: "titled_multi_select \<Rightarrow> json" where
  "titled_multi_json s = JObject
     (labels_json (array_name (tm_kind s)) (tm_title s) (tm_description s)
      @ opt_field ''minItems'' u64_json (tm_min_items s) @ opt_field ''maxItems'' u64_json (tm_max_items s)
      @ [(''items'', titled_items_json (tm_items s))] @ opt_field ''default'' strings_json (tm_default s))"

fun primitive_json :: "primitive_schema \<Rightarrow> json" where
  "primitive_json (TitledSingleSelect s) = titled_single_json s"
| "primitive_json (LegacyTitledEnum s) = legacy_enum_json s"
| "primitive_json (UntitledSingleSelect s) = untitled_single_json s"
| "primitive_json (TitledMultiSelect s) = titled_multi_json s"
| "primitive_json (UntitledMultiSelect s) = untitled_multi_json s"
| "primitive_json (StringField s) = string_schema_json s"
| "primitive_json (NumberField s) = number_schema_json s"
| "primitive_json (BooleanField s) = boolean_schema_json s"

subsection \<open>Read\<close>

definition enum_option_of_json :: "json \<Rightarrow> (de_error, enum_option) result" where
  "enum_option_of_json = read_struct [''const'', ''title''] [] (\<lambda>m.
     result_bind (req_field ''const'' as_str m) (\<lambda>value.
     result_bind (req_field ''title'' as_str m) (\<lambda>title.
       Inr \<lparr>eo_value = value, eo_title = title\<rparr>)))"

definition as_options :: "json \<Rightarrow> enum_option list option" where
  "as_options = as_list (fits \<circ> enum_option_of_json)"

definition string_schema_of_json :: "json \<Rightarrow> (de_error, string_schema) result" where
  "string_schema_of_json = read_struct
     [''type'', ''title'', ''description'', ''minLength'', ''maxLength'', ''format'', ''default'']
     [''title'', ''description'', ''minLength'', ''maxLength'', ''format'', ''default''] (\<lambda>m.
     result_bind (req_field ''type'' as_string_type m) (\<lambda>kind.
     result_bind (opt_field_of ''title'' as_str m) (\<lambda>title.
     result_bind (opt_field_of ''description'' as_str m) (\<lambda>description.
     result_bind (opt_field_of ''minLength'' Task_Data.as_u64 m) (\<lambda>least.
     result_bind (opt_field_of ''maxLength'' Task_Data.as_u64 m) (\<lambda>most.
     result_bind (opt_field_of ''format'' as_format m) (\<lambda>format.
     result_bind (opt_field_of ''default'' as_str m) (\<lambda>d.
       Inr \<lparr>ss_kind = kind, ss_title = title, ss_description = description, ss_min_length = least,
            ss_max_length = most, ss_format = format, ss_default = d\<rparr>))))))))"

definition number_schema_of_json :: "json \<Rightarrow> (de_error, number_schema) result" where
  "number_schema_of_json = read_struct
     [''type'', ''title'', ''description'', ''minimum'', ''maximum'', ''default'']
     [''title'', ''description'', ''minimum'', ''maximum'', ''default''] (\<lambda>m.
     result_bind (req_field ''type'' as_number_type m) (\<lambda>kind.
     result_bind (opt_field_of ''title'' as_str m) (\<lambda>title.
     result_bind (opt_field_of ''description'' as_str m) (\<lambda>description.
     result_bind (opt_field_of ''minimum'' as_number m) (\<lambda>least.
     result_bind (opt_field_of ''maximum'' as_number m) (\<lambda>most.
     result_bind (opt_field_of ''default'' as_number m) (\<lambda>d.
       Inr \<lparr>ns_kind = kind, ns_title = title, ns_description = description, ns_minimum = least,
            ns_maximum = most, ns_default = d\<rparr>)))))))"

definition boolean_schema_of_json :: "json \<Rightarrow> (de_error, boolean_schema) result" where
  "boolean_schema_of_json = read_struct
     [''type'', ''title'', ''description'', ''default''] [''title'', ''description'', ''default''] (\<lambda>m.
     result_bind (req_field ''type'' as_boolean_type m) (\<lambda>kind.
     result_bind (opt_field_of ''title'' as_str m) (\<lambda>title.
     result_bind (opt_field_of ''description'' as_str m) (\<lambda>description.
     result_bind (opt_field_of ''default'' as_bool m) (\<lambda>d.
       Inr \<lparr>bs_kind = kind, bs_title = title, bs_description = description, bs_default = d\<rparr>)))))"

definition untitled_single_of_json :: "json \<Rightarrow> (de_error, untitled_single_select) result" where
  "untitled_single_of_json = read_struct
     [''type'', ''title'', ''description'', ''enum'', ''default''] [''title'', ''description'', ''default''] (\<lambda>m.
     result_bind (req_field ''type'' as_string_type m) (\<lambda>kind.
     result_bind (opt_field_of ''title'' as_str m) (\<lambda>title.
     result_bind (opt_field_of ''description'' as_str m) (\<lambda>description.
     result_bind (req_field ''enum'' as_strings m) (\<lambda>values.
     result_bind (opt_field_of ''default'' as_str m) (\<lambda>d.
       Inr \<lparr>us_kind = kind, us_title = title, us_description = description, us_values = values,
            us_default = d\<rparr>))))))"

definition titled_single_of_json :: "json \<Rightarrow> (de_error, titled_single_select) result" where
  "titled_single_of_json = read_struct
     [''type'', ''title'', ''description'', ''oneOf'', ''default''] [''title'', ''description'', ''default''] (\<lambda>m.
     result_bind (req_field ''type'' as_string_type m) (\<lambda>kind.
     result_bind (opt_field_of ''title'' as_str m) (\<lambda>title.
     result_bind (opt_field_of ''description'' as_str m) (\<lambda>description.
     result_bind (req_field ''oneOf'' as_options m) (\<lambda>options.
     result_bind (opt_field_of ''default'' as_str m) (\<lambda>d.
       Inr \<lparr>ts_kind = kind, ts_title = title, ts_description = description, ts_options = options,
            ts_default = d\<rparr>))))))"

definition legacy_enum_of_json :: "json \<Rightarrow> (de_error, legacy_titled_enum) result" where
  "legacy_enum_of_json = read_struct
     [''type'', ''title'', ''description'', ''enum'', ''enumNames'', ''default''] [''title'', ''description'', ''default''] (\<lambda>m.
     result_bind (req_field ''type'' as_string_type m) (\<lambda>kind.
     result_bind (opt_field_of ''title'' as_str m) (\<lambda>title.
     result_bind (opt_field_of ''description'' as_str m) (\<lambda>description.
     result_bind (req_field ''enum'' as_strings m) (\<lambda>values.
     result_bind (req_field ''enumNames'' as_strings m) (\<lambda>names.
     result_bind (opt_field_of ''default'' as_str m) (\<lambda>d.
       Inr \<lparr>le_kind = kind, le_title = title, le_description = description, le_values = values,
            le_names = names, le_default = d\<rparr>)))))))"

definition untitled_items_of_json :: "json \<Rightarrow> (de_error, untitled_enum_items) result" where
  "untitled_items_of_json = read_struct [''type'', ''enum''] [] (\<lambda>m.
     result_bind (req_field ''type'' as_string_type m) (\<lambda>kind.
     result_bind (req_field ''enum'' as_strings m) (\<lambda>values.
       Inr \<lparr>ui_kind = kind, ui_values = values\<rparr>)))"

definition titled_items_of_json :: "json \<Rightarrow> (de_error, titled_enum_items) result" where
  "titled_items_of_json = read_struct [''anyOf''] [] (\<lambda>m.
     result_bind (req_field ''anyOf'' as_options m) (\<lambda>options. Inr \<lparr>ti_options = options\<rparr>))"

abbreviation multi_names :: "string list" where
  "multi_names \<equiv> [''type'', ''title'', ''description'', ''minItems'', ''maxItems'', ''items'', ''default'']"

definition untitled_multi_of_json :: "json \<Rightarrow> (de_error, untitled_multi_select) result" where
  "untitled_multi_of_json = read_struct multi_names
     [''title'', ''description'', ''minItems'', ''maxItems'', ''default''] (\<lambda>m.
     result_bind (req_field ''type'' as_array_type m) (\<lambda>kind.
     result_bind (opt_field_of ''title'' as_str m) (\<lambda>title.
     result_bind (opt_field_of ''description'' as_str m) (\<lambda>description.
     result_bind (opt_field_of ''minItems'' Task_Data.as_u64 m) (\<lambda>least.
     result_bind (opt_field_of ''maxItems'' Task_Data.as_u64 m) (\<lambda>most.
     result_bind (req_field ''items'' (fits \<circ> untitled_items_of_json) m) (\<lambda>items.
     result_bind (opt_field_of ''default'' as_strings m) (\<lambda>d.
       Inr \<lparr>um_kind = kind, um_title = title, um_description = description, um_min_items = least,
            um_max_items = most, um_items = items, um_default = d\<rparr>))))))))"

definition titled_multi_of_json :: "json \<Rightarrow> (de_error, titled_multi_select) result" where
  "titled_multi_of_json = read_struct multi_names
     [''title'', ''description'', ''minItems'', ''maxItems'', ''default''] (\<lambda>m.
     result_bind (req_field ''type'' as_array_type m) (\<lambda>kind.
     result_bind (opt_field_of ''title'' as_str m) (\<lambda>title.
     result_bind (opt_field_of ''description'' as_str m) (\<lambda>description.
     result_bind (opt_field_of ''minItems'' Task_Data.as_u64 m) (\<lambda>least.
     result_bind (opt_field_of ''maxItems'' Task_Data.as_u64 m) (\<lambda>most.
     result_bind (req_field ''items'' (fits \<circ> titled_items_of_json) m) (\<lambda>items.
     result_bind (opt_field_of ''default'' as_strings m) (\<lambda>d.
       Inr \<lparr>tm_kind = kind, tm_title = title, tm_description = description, tm_min_items = least,
            tm_max_items = most, tm_items = items, tm_default = d\<rparr>))))))))"

fun first_fit :: "(json \<Rightarrow> 'a option) list \<Rightarrow> json \<Rightarrow> 'a option" where
  "first_fit [] v = None"
| "first_fit (f # fs) v = (case f v of Some x \<Rightarrow> Some x | None \<Rightarrow> first_fit fs v)"

definition primitive_of_json :: "json \<Rightarrow> (de_error, primitive_schema) result" where
  "primitive_of_json v =
     ok_or
       (first_fit
          [\<lambda>v. map_option TitledSingleSelect (fits (titled_single_of_json v)),
           \<lambda>v. map_option LegacyTitledEnum (fits (legacy_enum_of_json v)),
           \<lambda>v. map_option UntitledSingleSelect (fits (untitled_single_of_json v)),
           \<lambda>v. map_option TitledMultiSelect (fits (titled_multi_of_json v)),
           \<lambda>v. map_option UntitledMultiSelect (fits (untitled_multi_of_json v)),
           \<lambda>v. map_option StringField (fits (string_schema_of_json v)),
           \<lambda>v. map_option NumberField (fits (number_schema_of_json v)),
           \<lambda>v. map_option BooleanField (fits (boolean_schema_of_json v))] v)
       (Custom ''data did not match any variant of untagged enum PrimitiveSchema'')"

subsection \<open>The request and its answer\<close>

record elicitation_schema =
  es_kind :: object_type
  es_properties :: "(string, primitive_schema) table"
  es_required :: "string list"

definition elicitation_schema_default :: elicitation_schema where
  "elicitation_schema_default = \<lparr>es_kind = ObjectKind, es_properties = [], es_required = []\<rparr>"

record elicit_request =
  er_message :: string
  er_requested_schema :: elicitation_schema

definition elicitation_schema_json :: "elicitation_schema \<Rightarrow> json" where
  "elicitation_schema_json s = JObject
     ([(''type'', JString (object_name (es_kind s))),
       (''properties'', JObject (map (\<lambda>(name, p). (name, primitive_json p)) (es_properties s)))]
      @ (if es_required s = [] then [] else [(''required'', strings_json (es_required s))]))"

definition elicit_request_json :: "elicit_request \<Rightarrow> json" where
  "elicit_request_json r = JObject
     [(''message'', JString (er_message r)),
      (''requestedSchema'', elicitation_schema_json (er_requested_schema r))]"

definition elicitation_schema_of_json :: "json \<Rightarrow> (de_error, elicitation_schema) result" where
  "elicitation_schema_of_json = read_struct [''type'', ''properties'', ''required''] [''required''] (\<lambda>m.
     result_bind (req_field ''type'' as_object_type m) (\<lambda>kind.
     result_bind (req_field ''properties'' (as_map (fits \<circ> primitive_of_json)) m) (\<lambda>properties.
     result_bind (list_field_of ''required'' as_strings m) (\<lambda>required.
       Inr \<lparr>es_kind = kind, es_properties = properties, es_required = required\<rparr>))))"

definition elicit_request_of_json :: "json \<Rightarrow> (de_error, elicit_request) result" where
  "elicit_request_of_json = read_struct [''message'', ''requestedSchema''] [] (\<lambda>m.
     result_bind (req_field ''message'' as_str m) (\<lambda>message.
     result_bind (req_field ''requestedSchema'' (fits \<circ> elicitation_schema_of_json) m) (\<lambda>schema.
       Inr \<lparr>er_message = message, er_requested_schema = schema\<rparr>)))"

datatype elicit_action = Accept | Decline | Cancel

fun action_name :: "elicit_action \<Rightarrow> string" where
  "action_name Accept = ''accept''"
| "action_name Decline = ''decline''"
| "action_name Cancel = ''cancel''"

definition as_action :: "json \<Rightarrow> elicit_action option" where
  "as_action = variant_of [(''accept'', Accept), (''decline'', Decline), (''cancel'', Cancel)]"

record elicit_result =
  el_action :: elicit_action
  el_content :: "json_map option"

definition elicit_result_json :: "elicit_result \<Rightarrow> json" where
  "elicit_result_json r = JObject
     ([(''action'', JString (action_name (el_action r)))] @ opt_field ''content'' JObject (el_content r))"

definition elicit_result_of_json :: "json \<Rightarrow> (de_error, elicit_result) result" where
  "elicit_result_of_json = read_struct [''action'', ''content''] [''content''] (\<lambda>m.
     result_bind (req_field ''action'' as_action m) (\<lambda>action.
     result_bind (opt_field_of ''content'' as_object m) (\<lambda>content.
       Inr \<lparr>el_action = action, el_content = content\<rparr>)))"

text \<open>\<open>wording\<close> is the text of a failed decoding. Serializing a request never fails.\<close>

definition elicit ::
  "client_channel \<Rightarrow> elicit_request \<Rightarrow> (string, string) result \<Rightarrow> client_world
     \<Rightarrow> client_world \<times> (client_request_error, waiting) result" where
  "elicit ch request random w = elicit_begin ch (Inr (elicit_request_json request)) random w"

definition decode_elicit_result :: "(de_error \<Rightarrow> string) \<Rightarrow> json \<Rightarrow> (string, elicit_result) result" where
  "decode_elicit_result wording v =
     (case elicit_result_of_json v of Inl e \<Rightarrow> Inl (wording e) | Inr r \<Rightarrow> Inr r)"

definition elicit_poll ::
  "(de_error \<Rightarrow> string) \<Rightarrow> waiting \<Rightarrow> duration \<Rightarrow> client_world
     \<Rightarrow> (client_world \<times> (client_request_error, elicit_result) result) option" where
  "elicit_poll wording wt elapsed w = request_poll (decode_elicit_result wording) wt elapsed w"

subsection \<open>Lemmas\<close>

text \<open>A lookup in a written object goes field by field; \<open>orelse\<close> keeps both sides in reach of the
  simplifier.\<close>

definition orelse :: "'a option \<Rightarrow> 'a option \<Rightarrow> 'a option" where
  "orelse x y = (case x of None \<Rightarrow> y | Some _ \<Rightarrow> x)"

lemma orelse_simps [simp]: "orelse None y = y" "orelse (Some v) y = Some v" "orelse x None = x"
  by (simp_all add: orelse_def split: option.split)

lemma map_of_append_orelse: "map_of (xs @ ys) k = orelse (map_of xs k) (map_of ys k)"
  by (simp add: map_add_def orelse_def split: option.split)

lemma map_of_opt_field: "map_of (opt_field key f x) k = (if k = key then map_option f x else None)"
  by (cases x) (simp_all add: opt_field_def)

lemma map_of_labels:
  "map_of (labels_json kind title description) k =
     (if k = ''type'' then Some (JString kind)
      else if k = ''title'' then map_option JString title
      else if k = ''description'' then map_option JString description else None)"
  by (cases title; cases description) (auto simp: labels_json_def opt_field_def)

definition opt_read :: "string \<Rightarrow> (json \<Rightarrow> 'a option) \<Rightarrow> json option \<Rightarrow> (de_error, 'a option) result" where
  "opt_read key f found = opt_field_of key f (case found of None \<Rightarrow> [] | Some v \<Rightarrow> [(key, v)])"

lemma opt_field_of_read: "opt_field_of key f m = opt_read key f (map_of m key)"
  by (simp add: opt_read_def opt_field_of_def split: option.split)

lemma opt_read_None [simp]: "opt_read key f None = Inr None"
  by (simp add: opt_read_def opt_field_of_def)

lemma opt_read_map:
  "(\<And>y. g y \<noteq> JNull \<and> f (g y) = Some y) \<Longrightarrow> opt_read key f (map_option g x) = Inr x"
  by (cases x) (auto simp: opt_read_def opt_field_of_def split: json.split; metis ok_or_simps(2) result_bind.simps(2))+

lemmas written_fields = map_of_append_orelse map_of_opt_field map_of_labels opt_field_of_read
lemmas struct_reading = read_struct_def req_field_def written_fields

lemma read_all_map: "(\<And>x. x \<in> set xs \<Longrightarrow> f (g x) = Some (h x)) \<Longrightarrow> read_all f (map g xs) = Some (map h xs)"
  by (induction xs) simp_all

lemma as_str_JString [simp]: "as_str (JString s) = Some s" by (simp add: as_str_def)
lemma as_bool_JBool [simp]: "as_bool (JBool b) = Some b" by (simp add: as_bool_def)
lemma as_u64_json [simp]: "Task_Data.as_u64 (u64_json n) = Some n" by (simp add: Task_Data.as_u64_def u64_json_def)
lemma as_number_JNumber [simp]: "as_number (JNumber n) = Some n" by (simp add: as_number_def)
lemma as_object_JObject [simp]: "as_object (JObject m) = Some m" by (simp add: as_object_def)

lemma as_strings_json [simp]: "as_strings (strings_json ss) = Some ss"
  using read_all_map [of ss as_str JString id] by (simp add: as_list_def strings_json_def)

lemma fits_simps [simp]: "fits (Inr x) = Some x" "fits (Inl e) = None"
  by (simp_all add: fits_def)

lemma string_type_read [simp]: "as_string_type (JString (string_name s)) = Some s"
  by (cases s) (simp add: as_string_type_def variant_of_def)
lemma object_type_read [simp]: "as_object_type (JString (object_name s)) = Some s"
  by (cases s) (simp add: as_object_type_def variant_of_def)
lemma boolean_type_read [simp]: "as_boolean_type (JString (boolean_name s)) = Some s"
  by (cases s) (simp add: as_boolean_type_def variant_of_def)
lemma array_type_read [simp]: "as_array_type (JString (array_name s)) = Some s"
  by (cases s) (simp add: as_array_type_def variant_of_def)
lemma number_type_read [simp]: "as_number_type (JString (number_name s)) = Some s"
  by (cases s) (simp_all add: as_number_type_def variant_of_def)
lemma format_read [simp]: "as_format (JString (format_name s)) = Some s"
  by (cases s) (simp_all add: as_format_def variant_of_def)
lemma action_read [simp]: "as_action (JString (action_name s)) = Some s"
  by (cases s) (simp_all add: as_action_def variant_of_def)

lemma foreign_types [simp]:
  "as_string_type (JString (array_name a)) = None" "as_string_type (JString (number_name n)) = None"
  "as_string_type (JString (boolean_name b)) = None" "as_array_type (JString (string_name s)) = None"
  "as_array_type (JString (number_name n)) = None" "as_array_type (JString (boolean_name b)) = None"
  "as_number_type (JString (boolean_name b)) = None"
  by (cases a; cases n; cases b; cases s; simp add: as_string_type_def as_array_type_def as_number_type_def variant_of_def)+

lemma opt_reads [simp]:
  "opt_read key as_str (map_option JString s) = Inr s"
  "opt_read key as_bool (map_option JBool b) = Inr b"
  "opt_read key Task_Data.as_u64 (map_option u64_json n) = Inr n"
  "opt_read key as_number (map_option JNumber d) = Inr d"
  "opt_read key as_format (map_option (\<lambda>f. JString (format_name f)) fo) = Inr fo"
  "opt_read key as_strings (map_option strings_json ss) = Inr ss"
  "opt_read key as_object (map_option JObject ob) = Inr ob"
  by (rule opt_read_map; simp add: u64_json_def strings_json_def
      as_strings_json [unfolded strings_json_def] as_u64_json [unfolded u64_json_def])+

subsection \<open>Each shape reads back\<close>

lemma enum_option_read: "enum_option_of_json (enum_option_json e) = Inr e"
  by (simp add: enum_option_of_json_def enum_option_json_def struct_reading)

lemma options_read [simp]: "as_options (options_json es) = Some es"
  using read_all_map [of es "fits \<circ> enum_option_of_json" enum_option_json id]
  by (simp add: as_options_def as_list_def options_json_def enum_option_read)

lemma string_schema_read: "string_schema_of_json (string_schema_json s) = Inr s"
  by (simp add: string_schema_of_json_def string_schema_json_def struct_reading del: map_of_append)

lemma number_schema_read: "number_schema_of_json (number_schema_json s) = Inr s"
  by (simp add: number_schema_of_json_def number_schema_json_def struct_reading del: map_of_append)

lemma boolean_schema_read: "boolean_schema_of_json (boolean_schema_json s) = Inr s"
  by (simp add: boolean_schema_of_json_def boolean_schema_json_def struct_reading del: map_of_append)

lemma untitled_single_read: "untitled_single_of_json (untitled_single_json s) = Inr s"
  by (simp add: untitled_single_of_json_def untitled_single_json_def struct_reading del: map_of_append)

lemma titled_single_read: "titled_single_of_json (titled_single_json s) = Inr s"
  by (simp add: titled_single_of_json_def titled_single_json_def struct_reading del: map_of_append)

lemma legacy_enum_read: "legacy_enum_of_json (legacy_enum_json s) = Inr s"
  by (simp add: legacy_enum_of_json_def legacy_enum_json_def struct_reading del: map_of_append)

lemma untitled_items_read [simp]: "untitled_items_of_json (untitled_items_json i) = Inr i"
  by (simp add: untitled_items_of_json_def untitled_items_json_def struct_reading)

lemma titled_items_read [simp]: "titled_items_of_json (titled_items_json i) = Inr i"
  by (simp add: titled_items_of_json_def titled_items_json_def struct_reading)

lemma untitled_multi_read: "untitled_multi_of_json (untitled_multi_json s) = Inr s"
  by (simp add: untitled_multi_of_json_def untitled_multi_json_def struct_reading del: map_of_append)

lemma titled_multi_read: "titled_multi_of_json (titled_multi_json s) = Inr s"
  by (simp add: titled_multi_of_json_def titled_multi_json_def struct_reading del: map_of_append)

subsection \<open>Every earlier shape passes a written one by\<close>

text \<open>A shape is passed by where a member it needs is missing or its \<open>type\<close> is another.\<close>

lemma passed_by_titled_single:
  "map_of m ''oneOf'' = None \<Longrightarrow> fits (titled_single_of_json (JObject m)) = None"
  by (auto simp: titled_single_of_json_def read_struct_def fits_def result_bind_Inr_iff req_field_def split: sum.split)

lemma passed_by_legacy_enum:
  "map_of m ''enumNames'' = None \<Longrightarrow> fits (legacy_enum_of_json (JObject m)) = None"
  by (auto simp: legacy_enum_of_json_def read_struct_def fits_def result_bind_Inr_iff req_field_def split: sum.split)

lemma passed_by_untitled_single:
  "map_of m ''enum'' = None \<Longrightarrow> fits (untitled_single_of_json (JObject m)) = None"
  by (auto simp: untitled_single_of_json_def read_struct_def fits_def result_bind_Inr_iff req_field_def split: sum.split)

lemma passed_by_titled_multi:
  "Option.bind (map_of m ''items'') (fits \<circ> titled_items_of_json) = None \<Longrightarrow> fits (titled_multi_of_json (JObject m)) = None"
  by (auto simp: titled_multi_of_json_def read_struct_def fits_def result_bind_Inr_iff req_field_def split: sum.split)

lemma passed_by_untitled_multi:
  "map_of m ''items'' = None \<Longrightarrow> fits (untitled_multi_of_json (JObject m)) = None"
  by (auto simp: untitled_multi_of_json_def read_struct_def fits_def result_bind_Inr_iff req_field_def split: sum.split)

lemma passed_by_string:
  "Option.bind (map_of m ''type'') as_string_type = None \<Longrightarrow> fits (string_schema_of_json (JObject m)) = None"
  by (auto simp: string_schema_of_json_def read_struct_def fits_def result_bind_Inr_iff req_field_def split: sum.split)

lemma passed_by_number:
  "Option.bind (map_of m ''type'') as_number_type = None \<Longrightarrow> fits (number_schema_of_json (JObject m)) = None"
  by (auto simp: number_schema_of_json_def read_struct_def fits_def result_bind_Inr_iff req_field_def split: sum.split)

lemmas passed_by = passed_by_titled_single passed_by_legacy_enum passed_by_untitled_single passed_by_titled_multi
  passed_by_untitled_multi passed_by_string passed_by_number

lemma untitled_items_untitled [simp]: "fits (titled_items_of_json (untitled_items_json i)) = None"
  by (simp add: titled_items_of_json_def untitled_items_json_def struct_reading)

lemma primitive_read: "primitive_of_json (primitive_json p) = Inr p"
proof (cases p)
  case (TitledSingleSelect s)
  then show ?thesis by (simp add: primitive_of_json_def titled_single_read)
next
  case (LegacyTitledEnum s)
  have "fits (titled_single_of_json (legacy_enum_json s)) = None"
    unfolding legacy_enum_json_def by (rule passed_by) (simp add: written_fields del: map_of_append)
  with LegacyTitledEnum show ?thesis by (simp add: primitive_of_json_def legacy_enum_read)
next
  case (UntitledSingleSelect s)
  have "fits (titled_single_of_json (untitled_single_json s)) = None" "fits (legacy_enum_of_json (untitled_single_json s)) = None"
    unfolding untitled_single_json_def by (intro passed_by; simp add: written_fields del: map_of_append)+
  with UntitledSingleSelect show ?thesis by (simp add: primitive_of_json_def untitled_single_read)
next
  case (TitledMultiSelect s)
  have "fits (titled_single_of_json (titled_multi_json s)) = None" "fits (legacy_enum_of_json (titled_multi_json s)) = None"
    "fits (untitled_single_of_json (titled_multi_json s)) = None"
    unfolding titled_multi_json_def by (intro passed_by; simp add: written_fields del: map_of_append)+
  with TitledMultiSelect show ?thesis by (simp add: primitive_of_json_def titled_multi_read)
next
  case (UntitledMultiSelect s)
  have "fits (titled_single_of_json (untitled_multi_json s)) = None" "fits (legacy_enum_of_json (untitled_multi_json s)) = None"
    "fits (untitled_single_of_json (untitled_multi_json s)) = None" "fits (titled_multi_of_json (untitled_multi_json s)) = None"
    unfolding untitled_multi_json_def by (intro passed_by; simp add: written_fields del: map_of_append)+
  with UntitledMultiSelect show ?thesis by (simp add: primitive_of_json_def untitled_multi_read)
next
  case (StringField s)
  have "fits (titled_single_of_json (string_schema_json s)) = None" "fits (legacy_enum_of_json (string_schema_json s)) = None"
    "fits (untitled_single_of_json (string_schema_json s)) = None" "fits (titled_multi_of_json (string_schema_json s)) = None"
    "fits (untitled_multi_of_json (string_schema_json s)) = None"
    unfolding string_schema_json_def by (intro passed_by; simp add: written_fields del: map_of_append)+
  with StringField show ?thesis by (simp add: primitive_of_json_def string_schema_read)
next
  case (NumberField s)
  have "fits (titled_single_of_json (number_schema_json s)) = None" "fits (legacy_enum_of_json (number_schema_json s)) = None"
    "fits (untitled_single_of_json (number_schema_json s)) = None" "fits (titled_multi_of_json (number_schema_json s)) = None"
    "fits (untitled_multi_of_json (number_schema_json s)) = None" "fits (string_schema_of_json (number_schema_json s)) = None"
    unfolding number_schema_json_def by (intro passed_by; simp add: written_fields del: map_of_append)+
  with NumberField show ?thesis by (simp add: primitive_of_json_def number_schema_read)
next
  case (BooleanField s)
  have "fits (titled_single_of_json (boolean_schema_json s)) = None" "fits (legacy_enum_of_json (boolean_schema_json s)) = None"
    "fits (untitled_single_of_json (boolean_schema_json s)) = None" "fits (titled_multi_of_json (boolean_schema_json s)) = None"
    "fits (untitled_multi_of_json (boolean_schema_json s)) = None" "fits (string_schema_of_json (boolean_schema_json s)) = None"
    "fits (number_schema_of_json (boolean_schema_json s)) = None"
    unfolding boolean_schema_json_def by (intro passed_by; simp add: written_fields del: map_of_append)+
  with BooleanField show ?thesis by (simp add: primitive_of_json_def boolean_schema_read)
qed

lemma schema_read [simp]: "elicitation_schema_of_json (elicitation_schema_json s) = Inr s"
proof -
  have properties: "as_map (fits \<circ> primitive_of_json)
      (JObject (map (\<lambda>(name, p). (name, primitive_json p)) (es_properties s))) = Some (es_properties s)"
    using read_all_map [of "es_properties s" "\<lambda>(key, w). map_option (Pair key) ((fits \<circ> primitive_of_json) w)"
        "\<lambda>(name, p). (name, primitive_json p)" id]
    by (simp add: as_map_def primitive_read case_prod_unfold)
  show ?thesis
    using properties
    by (auto simp: elicitation_schema_of_json_def elicitation_schema_json_def read_struct_def req_field_def
        list_field_of_def)
qed

lemma elicit_request_read: "elicit_request_of_json (elicit_request_json r) = Inr r"
  by (simp add: elicit_request_of_json_def elicit_request_json_def read_struct_def req_field_def)

lemma elicit_result_read: "elicit_result_of_json (elicit_result_json a) = Inr a"
  by (simp add: elicit_result_of_json_def elicit_result_json_def struct_reading del: map_of_append)

text \<open>
  C29: What goes over the wire comes back: any form a tool can write, each field of any of the eight
  shapes, whatever labels, bounds, options and defaults it has, is read by a client that tries
  the shapes in the documented order as exactly that form, no field taken for another shape; and
  any answer, accepted with its fields, declined or dismissed, is read by the server as written.
\<close>

theorem forms_and_answers_read_back:
  "elicit_request_of_json (elicit_request_json request) = Inr request
   \<and> primitive_of_json (primitive_json p) = Inr p
   \<and> elicit_result_of_json (elicit_result_json answer) = Inr answer"
  by (simp add: elicit_request_read elicit_result_read primitive_read)

text \<open>
  A schema that would confuse a client cannot be written: a field never has titles in two places
  or two lists to choose from, is of type \<open>array\<close> exactly when it has \<open>items\<close>, and carries options,
  values or items for no type but \<open>string\<close> and \<open>array\<close>.
\<close>

theorem written_fields_are_unambiguous:
  "\<exists>m. primitive_json p = JObject m
     \<and> (contains_key ''oneOf'' m \<longrightarrow> \<not> contains_key ''enum'' m \<and> \<not> contains_key ''enumNames'' m)
     \<and> (contains_key ''enumNames'' m \<longrightarrow> contains_key ''enum'' m)
     \<and> (contains_key ''items'' m \<longleftrightarrow> map_of m ''type'' = Some (JString ''array''))
     \<and> (contains_key ''oneOf'' m \<or> contains_key ''enum'' m \<longrightarrow> map_of m ''type'' = Some (JString ''string''))"
proof (cases p)
  case (TitledSingleSelect s)
  then show ?thesis
    by (cases "ts_kind s") (simp add: titled_single_json_def contains_key_def written_fields del: map_of_append)
next
  case (LegacyTitledEnum s)
  then show ?thesis
    by (cases "le_kind s") (simp add: legacy_enum_json_def contains_key_def written_fields del: map_of_append)
next
  case (UntitledSingleSelect s)
  then show ?thesis
    by (cases "us_kind s") (simp add: untitled_single_json_def contains_key_def written_fields del: map_of_append)
next
  case (TitledMultiSelect s)
  then show ?thesis
    by (cases "tm_kind s") (simp add: titled_multi_json_def contains_key_def written_fields del: map_of_append)
next
  case (UntitledMultiSelect s)
  then show ?thesis
    by (cases "um_kind s") (simp add: untitled_multi_json_def contains_key_def written_fields del: map_of_append)
next
  case (StringField s)
  then show ?thesis
    by (cases "ss_kind s") (simp add: string_schema_json_def contains_key_def written_fields del: map_of_append)
next
  case (NumberField s)
  then show ?thesis
    by (cases "ns_kind s") (simp_all add: number_schema_json_def contains_key_def written_fields del: map_of_append)
next
  case (BooleanField s)
  then show ?thesis
    by (cases "bs_kind s") (simp add: boolean_schema_json_def contains_key_def written_fields del: map_of_append)
qed

subsection \<open>Asking\<close>

lemma elicit_sends:
  assumes "elicit ch request random w = (w', Inr wt)"
  shows "\<exists>connection q rid. ch_connection ch = Some connection \<and> cn_outbound connection = Some q \<and> random = Inr rid
    \<and> wt_connection wt = connection \<and> wt_key wt = \<lparr>pk_caller = cn_caller connection, pk_id = rid\<rparr>
    \<and> cw_out w' q = cw_out w q @ [Request (request_with_id ''elicitation/create'' (Some (elicit_request_json request)) (JString rid))]
    \<and> (\<exists>entries. cw_pending w' (cn_pending connection) = Some entries \<and> map_of entries (wt_key wt) = Some (wt_answer wt))
    \<and> cw_listening w' (wt_answer wt) \<and> cw_answer w' (wt_answer wt) = None
    \<and> wt_cancellation wt = sc_cancellation (ch_scope ch) \<and> cw_fired w' = cw_fired w"
  using assms
  by (auto simp: elicit_def elicit_begin_def request_begin_def request_allowed_def register_def Let_def
      send_on_def reaches_client_def map_of_update
      split: option.splits sum.splits if_splits era.splits prod.splits)

text \<open>
  A form asked is the form shown, and its answer the one given. When a call may ask, exactly one
  message goes out on its connection, an \<^verbatim>\<open>elicitation/create\<close> under the drawn id whose
  parameters read back as the form; and when the client's answer to that id arrives from the
  caller asked, then unless the call was cancelled the tool gets exactly what the client wrote,
  however long it took.
\<close>

theorem asked_forms_are_answered_as_filled:
  assumes "elicit ch request random w = (w', Inr wt)"
    and "rs_id response = Some (JString (pk_id (wt_key wt)))"
    and "rs_result response = Some (elicit_result_json answer)" and "rs_error response = None"
    and "sc_cancellation (ch_scope ch) \<notin> set (cw_fired w)"
  shows "\<exists>connection q message params. ch_connection ch = Some connection \<and> cn_outbound connection = Some q
      \<and> cw_out w' q = cw_out w q @ [Request message]
      \<and> rq_method message = ''elicitation/create'' \<and> rq_id message = rs_id response
      \<and> rq_params message = Some params \<and> elicit_request_of_json params = Inr request
      \<and> (case deliver (cn_pending connection) (cn_caller connection) response w' of
           (w'', delivered) \<Rightarrow> delivered
             \<and> map_option snd (elicit_poll wording wt elapsed w'') = Some (Inr answer))"
proof -
  from elicit_sends [OF assms(1)] obtain connection q rid entries where
    sends: "ch_connection ch = Some connection" "cn_outbound connection = Some q" "random = Inr rid"
      "wt_connection wt = connection" "wt_key wt = \<lparr>pk_caller = cn_caller connection, pk_id = rid\<rparr>"
      "cw_out w' q = cw_out w q @ [Request (request_with_id ''elicitation/create'' (Some (elicit_request_json request)) (JString rid))]"
      "cw_pending w' (cn_pending connection) = Some entries" "map_of entries (wt_key wt) = Some (wt_answer wt)"
      "cw_listening w' (wt_answer wt)" "wt_cancellation wt = sc_cancellation (ch_scope ch)" "cw_fired w' = cw_fired w"
    by blast
  let ?d = "deliver (cn_pending connection) (cn_caller connection) response w'"
  have d: "?d = ((forget (cn_pending connection) (wt_key wt) w')\<lparr>cw_answer :=
      (cw_answer (forget (cn_pending connection) (wt_key wt) w'))(wt_answer wt := Some (cn_caller connection, response))\<rparr>, True)"
    using sends(5,7-9) assms(2) by (simp add: deliver_def Let_def forget_frame)
  have "map_option snd (elicit_poll wording wt elapsed (fst ?d)) = Some (Inr answer)"
    using assms(3-5) sends(10,11)
    by (simp add: d elicit_poll_def request_poll_def Let_def forget_frame response_result_def decode_elicit_result_def
        elicit_result_read)
  with sends(1,2,5,6) assms(2) d show ?thesis
    by (auto simp: request_with_id_def elicit_request_read)
qed

subsection \<open>A form asked over a sample call\<close>

definition form_client :: client_world where
  "form_client = sample_client\<lparr>cw_sessions := (\<lambda>_. (connection_session 0 0)\<lparr>s_capabilities :=
     \<lparr>dc_sampling = False, dc_form_elicitation = True\<rparr>\<rparr>)\<rparr>"

definition sample_form :: elicit_request where
  "sample_form = \<lparr>er_message = ''Which list?'', er_requested_schema =
     \<lparr>es_kind = ObjectKind,
      es_properties = [(''list'', UntitledSingleSelect \<lparr>us_kind = StringKind, us_title = None,
        us_description = None, us_values = [''a'', ''b''], us_default = Some ''a''\<rparr>)],
      es_required = [''list'']\<rparr>\<rparr>"

definition sample_filled :: elicit_result where
  "sample_filled = \<lparr>el_action = Accept, el_content = Some [(''list'', JString ''b'')]\<rparr>"

definition form_response :: rpc_response where
  "form_response = response_success (Some (JString ''r1'')) (elicit_result_json sample_filled)"

lemma sample_form_asked: "\<exists>w'. elicit sample_channel sample_form (Inr ''r1'') form_client = (w', Inr sample_waiting)"
  by (simp add: elicit_def elicit_begin_def request_begin_def request_allowed_def register_def Let_def send_on_def
      reaches_client_def sample_channel_def sample_connection_def sample_waiting_def for_legacy_call_def bound_def
      connected_def default_scope_def form_client_def sample_client_def sample_key_def)

lemma asked_forms_are_answered_as_filled_witness:
  "\<exists>w' message. elicit sample_channel sample_form (Inr ''r1'') form_client = (w', Inr sample_waiting)
     \<and> cw_out w' 0 = [Request message]
     \<and> map_option snd (elicit_poll (\<lambda>_. []) sample_waiting 0 (fst (deliver 0 sample_key form_response w')))
       = Some (Inr sample_filled)"
proof -
  obtain w' where asked: "elicit sample_channel sample_form (Inr ''r1'') form_client = (w', Inr sample_waiting)"
    using sample_form_asked by blast
  show ?thesis
    using asked asked_forms_are_answered_as_filled [OF asked, of form_response sample_filled "\<lambda>_. []" 0]
    by (auto simp: form_response_def response_success_def sample_waiting_def sample_channel_def sample_connection_def
        for_legacy_call_def bound_def connected_def default_scope_def form_client_def sample_client_def split: prod.splits)
qed

lemma written_fields_are_unambiguous_witness:
  "\<exists>m. primitive_json (UntitledSingleSelect \<lparr>us_kind = StringKind, us_title = None,
        us_description = None, us_values = [''a'', ''b''], us_default = Some ''a''\<rparr>) = JObject m
     \<and> map_of m ''type'' = Some (JString ''string'')"
  using written_fields_are_unambiguous [of "UntitledSingleSelect \<lparr>us_kind = StringKind, us_title = None,
        us_description = None, us_values = [''a'', ''b''], us_default = Some ''a''\<rparr>"]
  by (auto simp: untitled_single_json_def contains_key_def written_fields simp del: map_of_append)

end
