(* ===== verification/Stdio.thy ===== *)
theory Stdio
  imports Server_System Http_Serve "HOL-Library.Sublist"
begin

declare map_of_eq_Some_iff [simp del] Some_eq_map_of_iff [simp del]

text \<open>
  The stdio transport (\<^verbatim>\<open>src/mcp/transport/stdio.rs\<close>): the loop that reads lines, a task for every
  request, and the writer that puts every message on stdout, over the dispatch of \<open>Server_System\<close>.

  The loop, the tasks, the writer and the host run concurrently, so each of their turns is an
  event and a run is any list of them. What the world holds of the connection is the outbound
  channel's queue, of which \<open>io_taken\<close> messages are received, and the table of pending requests.
  \<open>io_read\<close>, \<open>io_settled\<close> and \<open>io_answers\<close> record, for the theorems, the requests read, what became
  of each, and the responses handed to the queue, a refusal's without a request's number.
\<close>

record ('f, 's, 'a) stdio_config =
  ic_libraries :: "'f libraries"
  ic_server :: "('s, 'a) mcp_server"
  ic_timeout :: duration
  ic_queue :: nat
  ic_pending :: nat
  ic_session :: sref
  ic_closed :: token
  ic_caller :: caller_key

text \<open>Everyone on a stdio connection is the one anonymous caller, in the session the connection is.\<close>

definition stdio_connection :: "('f, 's, 'a) stdio_config \<Rightarrow> client_connection" where
  "stdio_connection cfg =
     \<lparr>cn_outbound = Some (ic_queue cfg), cn_pending = ic_pending cfg, cn_session = Some (ic_session cfg),
      cn_caller = ic_caller cfg, cn_timeout = ic_timeout cfg\<rparr>"

definition stdio_context :: "('f, 's, 'a) stdio_config \<Rightarrow> tool_context" where
  "stdio_context cfg =
     (tool_context_default (ic_closed cfg))\<lparr>tx_client := connected (ic_closed cfg) (stdio_connection cfg)\<rparr>"

datatype stdio_task = Spawned rpc_request | InFlight serving
datatype settled_as = Replied rpc_response | Silent | CalledOff | TaskPanicked | CutOff
datatype joined = Joined "(transport_error, unit) result" | JoinFailed string
datatype stdout_writer = Writing | Flushing | Wrote joined

datatype stdio_phase =
    ReadingLines
  | DrainingTasks "(transport_error, unit) result"
  | StoppingWriter "(transport_error, unit) result"
  | Returned "(transport_error, unit) result"

record ('s, 'a) stdio =
  io_system :: "('s, 'a) server_system"
  io_tasks :: "(nat, stdio_task) table"
  io_writer :: stdout_writer
  io_stop :: bool
  io_phase :: stdio_phase
  io_taken :: nat
  io_lines :: "rpc_message list"
  io_read :: "rpc_request list"
  io_settled :: "(nat, settled_as) table"
  io_answers :: "(nat option \<times> rpc_response) list"

datatype ('s, 'a) stdio_event =
    LineRead string
  | InputEnds
  | InputFails string
  | TaskBegins nat "int \<times> int \<times> int" token
  | TaskTurns nat "int \<times> int \<times> int"
  | TaskPanics nat
  | WriterTurns "transport_error option"
  | WriterPanics string
  | WriterNoticed
  | DrainEnds
  | DrainTimesOut
  | WriterJoined
  | HostMoves "('s, 'a) host_world"

subsection \<open>The connection in the world\<close>

definition io_clients :: "('s, 'a) stdio \<Rightarrow> client_world" where
  "io_clients y = hw_clients (ss_world (sy_state (io_system y)))"

definition io_out :: "('f, 's, 'a) stdio_config \<Rightarrow> ('s, 'a) stdio \<Rightarrow> rpc_message list" where
  "io_out cfg y = cw_out (io_clients y) (ic_queue cfg)"

definition io_open :: "('f, 's, 'a) stdio_config \<Rightarrow> ('s, 'a) stdio \<Rightarrow> bool" where
  "io_open cfg y = cw_out_open (io_clients y) (ic_queue cfg)"

definition on_clients :: "(client_world \<Rightarrow> client_world) \<Rightarrow> ('s, 'a) stdio \<Rightarrow> ('s, 'a) stdio" where
  "on_clients f y =
     (let sys = io_system y; w = ss_world (sy_state sys) in
      y\<lparr>io_system := sys\<lparr>sy_state := (sy_state sys)\<lparr>ss_world := w\<lparr>hw_clients := f (hw_clients w)\<rparr>\<rparr>\<rparr>\<rparr>)"

text \<open>\<^verbatim>\<open>outbound.send\<close>: dropped once the receiver is gone or closed.\<close>

definition queue_send :: "nat \<Rightarrow> rpc_message \<Rightarrow> client_world \<Rightarrow> client_world" where
  "queue_send q m w = (if cw_out_open w q then w\<lparr>cw_out := (cw_out w)(q := cw_out w q @ [m])\<rparr> else w)"

definition queue_close :: "nat \<Rightarrow> client_world \<Rightarrow> client_world" where
  "queue_close q w = w\<lparr>cw_out_open := (cw_out_open w)(q := False)\<rparr>"

definition fire_token :: "token \<Rightarrow> client_world \<Rightarrow> client_world" where
  "fire_token t w = w\<lparr>cw_fired := t # cw_fired w\<rparr>"

definition hand_over_response ::
  "('f, 's, 'a) stdio_config \<Rightarrow> nat option \<Rightarrow> rpc_response \<Rightarrow> ('s, 'a) stdio \<Rightarrow> ('s, 'a) stdio" where
  "hand_over_response cfg n r y =
     (on_clients (queue_send (ic_queue cfg) (Response r)) y)\<lparr>io_answers := io_answers y @ [(n, r)]\<rparr>"

text \<open>What a host can do to the connection: send requests and notifications while it is open.\<close>

fun is_client_request :: "rpc_message \<Rightarrow> bool" where
  "is_client_request (Request _) \<longleftrightarrow> True"
| "is_client_request (Response _) \<longleftrightarrow> False"

definition host_extends :: "('f, 's, 'a) stdio_config \<Rightarrow> client_world \<Rightarrow> client_world \<Rightarrow> bool" where
  "host_extends cfg w w' \<longleftrightarrow>
     (let q = ic_queue cfg; added = drop (length (cw_out w q)) (cw_out w' q) in
      prefix (cw_out w q) (cw_out w' q) \<and> list_all is_client_request added
      \<and> (cw_out_open w q \<or> added = []) \<and> cw_out_open w' q = cw_out_open w q
      \<and> (cw_pending w (ic_pending cfg) = None \<longrightarrow> cw_pending w' (ic_pending cfg) = None)
      \<and> (ic_closed cfg \<in> set (cw_fired w) \<longrightarrow> ic_closed cfg \<in> set (cw_fired w')))"

subsection \<open>The loop\<close>

definition line_read :: "('f, 's, 'a) stdio_config \<Rightarrow> string \<Rightarrow> ('s, 'a) stdio \<Rightarrow> ('s, 'a) stdio" where
  "line_read cfg line y =
     (if trim line = [] then y
      else (case parse_message (lib_read_json (ic_libraries cfg)) line of
              Inr (Response response) \<Rightarrow>
                on_clients (\<lambda>w. fst (Client_Channel.deliver (ic_pending cfg) (ic_caller cfg) response w)) y
            | Inr (Request request) \<Rightarrow>
                y\<lparr>io_tasks := io_tasks y @ [(length (io_read y), Spawned request)],
                  io_read := io_read y @ [request]\<rparr>
            | Inl refused \<Rightarrow> hand_over_response cfg None refused y))"

definition end_of_input ::
  "('f, 's, 'a) stdio_config \<Rightarrow> (transport_error, unit) result \<Rightarrow> ('s, 'a) stdio \<Rightarrow> ('s, 'a) stdio" where
  "end_of_input cfg read y = (on_clients (close_pending (ic_pending cfg)) y)\<lparr>io_phase := DrainingTasks read\<rparr>"

text \<open>\<^verbatim>\<open>JoinSet::shutdown\<close>: every task still there is dropped.\<close>

fun abandon_all ::
  "('f, 's, 'a) stdio_config \<Rightarrow> (nat, stdio_task) table \<Rightarrow> ('s, 'a) server_system \<Rightarrow> ('s, 'a) server_system" where
  "abandon_all cfg [] sys = sys"
| "abandon_all cfg ((n, InFlight s) # tasks) sys =
     abandon_all cfg tasks (server_step (ic_libraries cfg) (ic_server cfg) sys (Abandoned s))"
| "abandon_all cfg ((n, Spawned _) # tasks) sys = abandon_all cfg tasks sys"

definition shutdown_tasks :: "('f, 's, 'a) stdio_config \<Rightarrow> ('s, 'a) stdio \<Rightarrow> ('s, 'a) stdio" where
  "shutdown_tasks cfg y =
     y\<lparr>io_system := abandon_all cfg (io_tasks y) (io_system y),
       io_settled := io_settled y @ map (\<lambda>(n, _). (n, CutOff)) (io_tasks y), io_tasks := []\<rparr>"

text \<open>A writer that panicked or was aborted reads as an I/O error.\<close>

fun finish_writing :: "joined \<Rightarrow> (transport_error, unit) result" where
  "finish_writing (Joined outcome) = outcome"
| "finish_writing (JoinFailed e) = Inl (Stdio e)"

definition writer_gone :: "('f, 's, 'a) stdio_config \<Rightarrow> joined \<Rightarrow> ('s, 'a) stdio \<Rightarrow> ('s, 'a) stdio" where
  "writer_gone cfg written y =
     (shutdown_tasks cfg (on_clients (fire_token (ic_closed cfg)) (on_clients (close_pending (ic_pending cfg)) y)))
       \<lparr>io_phase := Returned (finish_writing written)\<rparr>"

definition stop_writing :: "(transport_error, unit) result \<Rightarrow> ('s, 'a) stdio \<Rightarrow> ('s, 'a) stdio" where
  "stop_writing read y = y\<lparr>io_stop := True, io_phase := StoppingWriter read\<rparr>"

definition writer_joined ::
  "('f, 's, 'a) stdio_config \<Rightarrow> (transport_error, unit) result \<Rightarrow> joined \<Rightarrow> ('s, 'a) stdio \<Rightarrow> ('s, 'a) stdio" where
  "writer_joined cfg read written y =
     (on_clients (fire_token (ic_closed cfg)) y)
       \<lparr>io_phase := Returned (case read of Inl e \<Rightarrow> Inl e | Inr _ \<Rightarrow> finish_writing written)\<rparr>"

subsection \<open>The tasks\<close>

definition settle :: "('f, 's, 'a) stdio_config \<Rightarrow> nat \<Rightarrow> settled_as \<Rightarrow> ('s, 'a) stdio \<Rightarrow> ('s, 'a) stdio" where
  "settle cfg n outcome y =
     (let y1 = y\<lparr>io_tasks := AList.delete n (io_tasks y), io_settled := io_settled y @ [(n, outcome)]\<rparr> in
      case outcome of Replied r \<Rightarrow> hand_over_response cfg (Some n) r y1 | _ \<Rightarrow> y1)"

text \<open>No response: none was due to a notification, or the request was called off.\<close>

definition outcome_of :: "settled_as \<Rightarrow> rpc_response option \<Rightarrow> settled_as" where
  "outcome_of without response = (case response of None \<Rightarrow> without | Some r \<Rightarrow> Replied r)"

definition task_begins ::
  "('f, 's, 'a) stdio_config \<Rightarrow> nat \<Rightarrow> int \<times> int \<times> int \<Rightarrow> token \<Rightarrow> ('s, 'a) stdio \<Rightarrow> ('s, 'a) stdio" where
  "task_begins cfg n clock token y =
     (case map_of (io_tasks y) n of
        Some (Spawned request) \<Rightarrow>
          (let sys = io_system y;
               arrive = server_step (ic_libraries cfg) (ic_server cfg) sys (Arrives clock token request (stdio_context cfg)) in
           if token \<in> set (sy_tokens sys) then y
           else (case snd (dispatch_begin (ic_libraries cfg) (ic_server cfg) clock token request (stdio_context cfg) (sy_state sys)) of
                   Finished response \<Rightarrow> settle cfg n (outcome_of Silent response) (y\<lparr>io_system := arrive\<rparr>)
                 | Serving s \<Rightarrow> y\<lparr>io_system := arrive, io_tasks := AList.update n (InFlight s) (io_tasks y)\<rparr>))
      | _ \<Rightarrow> y)"

definition task_turns ::
  "('f, 's, 'a) stdio_config \<Rightarrow> nat \<Rightarrow> int \<times> int \<times> int \<Rightarrow> ('s, 'a) stdio \<Rightarrow> ('s, 'a) stdio" where
  "task_turns cfg n clock y =
     (case map_of (io_tasks y) n of
        Some (InFlight s) \<Rightarrow>
          settle cfg n (outcome_of CalledOff (snd (dispatch_poll (ic_libraries cfg) (ic_server cfg) clock s (sy_state (io_system y)))))
            (y\<lparr>io_system := server_step (ic_libraries cfg) (ic_server cfg) (io_system y) (Turn clock s)\<rparr>)
      | _ \<Rightarrow> y)"

definition task_panics :: "('f, 's, 'a) stdio_config \<Rightarrow> nat \<Rightarrow> ('s, 'a) stdio \<Rightarrow> ('s, 'a) stdio" where
  "task_panics cfg n y =
     (case map_of (io_tasks y) n of
        Some (InFlight s) \<Rightarrow>
          settle cfg n TaskPanicked
            (y\<lparr>io_system := server_step (ic_libraries cfg) (ic_server cfg) (io_system y) (Abandoned s)\<rparr>)
      | _ \<Rightarrow> y)"

subsection \<open>The writer\<close>

text \<open>One message received and written, or the error that ends the writer and drops its receiver.\<close>

definition write_next ::
  "('f, 's, 'a) stdio_config \<Rightarrow> transport_error option \<Rightarrow> ('s, 'a) stdio \<Rightarrow> ('s, 'a) stdio" where
  "write_next cfg failure y =
     (case failure of
        None \<Rightarrow> y\<lparr>io_taken := Suc (io_taken y), io_lines := io_lines y @ [io_out cfg y ! io_taken y]\<rparr>
      | Some e \<Rightarrow>
          (on_clients (queue_close (ic_queue cfg)) y)
            \<lparr>io_taken := Suc (io_taken y), io_writer := Wrote (Joined (Inl e))\<rparr>)"

definition writer_turn ::
  "('f, 's, 'a) stdio_config \<Rightarrow> transport_error option \<Rightarrow> ('s, 'a) stdio \<Rightarrow> ('s, 'a) stdio" where
  "writer_turn cfg failure y =
     (case io_writer y of
        Writing \<Rightarrow>
          if io_stop y then (on_clients (queue_close (ic_queue cfg)) y)\<lparr>io_writer := Flushing\<rparr>
          else if io_taken y < length (io_out cfg y) then write_next cfg failure y
          else y
      | Flushing \<Rightarrow>
          if io_taken y < length (io_out cfg y) then write_next cfg failure y
          else y\<lparr>io_writer := Wrote (Joined (Inr ()))\<rparr>
      | Wrote _ \<Rightarrow> y)"

definition writer_panic :: "('f, 's, 'a) stdio_config \<Rightarrow> string \<Rightarrow> ('s, 'a) stdio \<Rightarrow> ('s, 'a) stdio" where
  "writer_panic cfg e y =
     (case io_writer y of
        Wrote _ \<Rightarrow> y
      | _ \<Rightarrow> (on_clients (queue_close (ic_queue cfg)) y)\<lparr>io_writer := Wrote (JoinFailed e)\<rparr>)"

subsection \<open>A connection over every order of events\<close>

fun stdio_step :: "('f, 's, 'a) stdio_config \<Rightarrow> ('s, 'a) stdio \<Rightarrow> ('s, 'a) stdio_event \<Rightarrow> ('s, 'a) stdio" where
  "stdio_step cfg y (LineRead line) = (if io_phase y = ReadingLines then line_read cfg line y else y)"
| "stdio_step cfg y InputEnds = (if io_phase y = ReadingLines then end_of_input cfg (Inr ()) y else y)"
| "stdio_step cfg y (InputFails e) = (if io_phase y = ReadingLines then end_of_input cfg (Inl (Stdio e)) y else y)"
| "stdio_step cfg y (TaskBegins n clock token) = task_begins cfg n clock token y"
| "stdio_step cfg y (TaskTurns n clock) = task_turns cfg n clock y"
| "stdio_step cfg y (TaskPanics n) = task_panics cfg n y"
| "stdio_step cfg y (WriterTurns failure) = writer_turn cfg failure y"
| "stdio_step cfg y (WriterPanics e) = writer_panic cfg e y"
| "stdio_step cfg y WriterNoticed =
     (case (io_phase y, io_writer y) of (ReadingLines, Wrote written) \<Rightarrow> writer_gone cfg written y | _ \<Rightarrow> y)"
| "stdio_step cfg y DrainEnds =
     (case io_phase y of DrainingTasks read \<Rightarrow> if io_tasks y = [] then stop_writing read y else y | _ \<Rightarrow> y)"
| "stdio_step cfg y DrainTimesOut =
     (case io_phase y of DrainingTasks read \<Rightarrow> stop_writing read (shutdown_tasks cfg y) | _ \<Rightarrow> y)"
| "stdio_step cfg y WriterJoined =
     (case (io_phase y, io_writer y) of
        (StoppingWriter read, Wrote written) \<Rightarrow> writer_joined cfg read written y | _ \<Rightarrow> y)"
| "stdio_step cfg y (HostMoves w) =
     (if host_extends cfg (io_clients y) (hw_clients w)
      then y\<lparr>io_system := server_step (ic_libraries cfg) (ic_server cfg) (io_system y) (WorldMoves w)\<rparr> else y)"

text \<open>A connection opens its channel, its table of pending requests and its session.\<close>

definition open_connection :: "('f, 's, 'a) stdio_config \<Rightarrow> instant \<Rightarrow> client_world \<Rightarrow> client_world" where
  "open_connection cfg now w =
     w\<lparr>cw_out := (cw_out w)(ic_queue cfg := []), cw_out_open := (cw_out_open w)(ic_queue cfg := True),
       cw_pending := (cw_pending w)(ic_pending cfg := Some []),
       cw_sessions := (cw_sessions w)(ic_session cfg := connection_session now (ic_closed cfg))\<rparr>"

definition stdio_start :: "('f, 's, 'a) stdio_config \<Rightarrow> instant \<Rightarrow> ('s, 'a) host_world \<Rightarrow> ('s, 'a) stdio" where
  "stdio_start cfg now w =
     \<lparr>io_system = system_start (w\<lparr>hw_clients := open_connection cfg now (hw_clients w)\<rparr>), io_tasks = [],
      io_writer = Writing, io_stop = False, io_phase = ReadingLines, io_taken = 0, io_lines = [],
      io_read = [], io_settled = [], io_answers = []\<rparr>"

subsection \<open>The world under the operations\<close>

lemma on_clients_fields [simp]:
  "io_tasks (on_clients f y) = io_tasks y" "io_writer (on_clients f y) = io_writer y"
  "io_stop (on_clients f y) = io_stop y" "io_phase (on_clients f y) = io_phase y"
  "io_taken (on_clients f y) = io_taken y" "io_lines (on_clients f y) = io_lines y"
  "io_read (on_clients f y) = io_read y" "io_settled (on_clients f y) = io_settled y"
  "io_answers (on_clients f y) = io_answers y" "io_clients (on_clients f y) = f (io_clients y)"
  "sy_running (io_system (on_clients f y)) = sy_running (io_system y)"
  "sy_tokens (io_system (on_clients f y)) = sy_tokens (io_system y)"
  by (simp_all add: on_clients_def io_clients_def Let_def)

lemma on_clients_moves:
  "\<exists>w. io_system (on_clients f y) = server_step L srv (io_system y) (WorldMoves w)"
  by (simp add: on_clients_def Let_def) (metis server_system.surjective server_system.update_convs(1))

lemma clients_other_fields [simp]:
  "io_clients (y\<lparr>io_tasks := ts\<rparr>) = io_clients y" "io_clients (y\<lparr>io_phase := p\<rparr>) = io_clients y"
  "io_clients (y\<lparr>io_settled := xs\<rparr>) = io_clients y" "io_clients (y\<lparr>io_answers := as\<rparr>) = io_clients y"
  "io_clients (y\<lparr>io_read := rs\<rparr>) = io_clients y" "io_clients (y\<lparr>io_writer := wr\<rparr>) = io_clients y"
  "io_clients (y\<lparr>io_stop := b\<rparr>) = io_clients y" "io_clients (y\<lparr>io_taken := n\<rparr>) = io_clients y"
  "io_clients (y\<lparr>io_lines := ls\<rparr>) = io_clients y"
  "io_clients (y\<lparr>io_system := sys\<rparr>) = hw_clients (ss_world (sy_state sys))"
  by (simp_all add: io_clients_def)

lemma queue_send_fields [simp]:
  "cw_out (queue_send q m w) q = (if cw_out_open w q then cw_out w q @ [m] else cw_out w q)"
  "cw_out_open (queue_send q m w) = cw_out_open w" "cw_pending (queue_send q m w) = cw_pending w"
  "cw_fired (queue_send q m w) = cw_fired w"
  by (simp_all add: queue_send_def)

lemma queue_close_fields [simp]:
  "cw_out (queue_close q w) = cw_out w" "cw_out_open (queue_close q w) q = False"
  "cw_pending (queue_close q w) = cw_pending w" "cw_fired (queue_close q w) = cw_fired w"
  by (simp_all add: queue_close_def)

lemma fire_token_fields [simp]:
  "cw_out (fire_token t w) = cw_out w" "cw_out_open (fire_token t w) = cw_out_open w"
  "cw_pending (fire_token t w) = cw_pending w" "cw_fired (fire_token t w) = t # cw_fired w"
  by (simp_all add: fire_token_def)

lemma close_pending_fields [simp]:
  "cw_out (close_pending p w) = cw_out w" "cw_out_open (close_pending p w) = cw_out_open w"
  "cw_pending (close_pending p w) p = None" "cw_fired (close_pending p w) = cw_fired w"
  by (simp_all add: close_pending_def)

lemma deliver_fields [simp]:
  "cw_out (fst (Client_Channel.deliver p c r w)) = cw_out w"
  "cw_out_open (fst (Client_Channel.deliver p c r w)) = cw_out_open w"
  "cw_fired (fst (Client_Channel.deliver p c r w)) = cw_fired w"
  "cw_pending w p = None \<Longrightarrow> cw_pending (fst (Client_Channel.deliver p c r w)) p = None"
  by (auto simp: Client_Channel.deliver_def Let_def forget_frame split: option.split json.split)

subsection \<open>The channel\<close>

fun responses_of :: "rpc_message list \<Rightarrow> rpc_response list" where
  "responses_of [] = []"
| "responses_of (Response r # ms) = r # responses_of ms"
| "responses_of (Request _ # ms) = responses_of ms"

lemma responses_of_append [simp]: "responses_of (xs @ ys) = responses_of xs @ responses_of ys"
  by (induction xs rule: responses_of.induct) simp_all

lemma responses_of_requests [simp]: "list_all is_client_request ms \<Longrightarrow> responses_of ms = []"
  by (induction ms rule: responses_of.induct) simp_all

text \<open>What is written is what was sent, in order; only a writer that failed leaves a message out.\<close>

definition channel_ok ::
  "rpc_message list \<Rightarrow> bool \<Rightarrow> nat \<Rightarrow> rpc_message list \<Rightarrow> stdout_writer \<Rightarrow> bool \<Rightarrow> rpc_response list \<Rightarrow> bool" where
  "channel_ok out taking taken ls writer stop replies \<longleftrightarrow>
     taken \<le> length out \<and> prefix ls out
     \<and> (case writer of
          Writing \<Rightarrow> ls = take taken out \<and> taking \<and> responses_of out = replies
        | Flushing \<Rightarrow> ls = take taken out \<and> \<not> taking \<and> stop \<and> responses_of out = replies
        | Wrote written \<Rightarrow> \<not> taking
            \<and> (finish_writing written = Inr () \<longrightarrow> ls = out \<and> stop \<and> responses_of out = replies))"

lemma channel_extends:
  assumes "channel_ok out taking taken ls writer stop replies" and "prefix out out'"
    and "list_all is_client_request (drop (length out) out')" and "taking \<or> drop (length out) out' = []"
  shows "channel_ok out' taking taken ls writer stop replies"
proof -
  obtain ms where ms: "out' = out @ ms" using assms(2) by (auto simp: prefix_def)
  have "take taken out' = take taken out" if "taken \<le> length out" using that by (simp add: ms)
  moreover have "prefix ls out'" if "prefix ls out" using that assms(2) by (rule prefix_order.trans)
  moreover have "\<not> taking \<Longrightarrow> ms = []" using assms(4) by (simp add: ms)
  ultimately show ?thesis
    using assms(1,3) by (auto simp: channel_ok_def ms split: stdout_writer.splits)
qed

lemma channel_answer:
  assumes "channel_ok out taking taken ls writer stop replies" and "\<not> stop"
  shows "channel_ok (if taking then out @ [Response r] else out) taking taken ls writer stop (replies @ [r])"
  using assms by (auto simp: channel_ok_def split: stdout_writer.splits)

lemma channel_written:
  assumes "channel_ok out taking taken ls writer stop replies" and "taken < length out"
    and "writer = Writing \<or> writer = Flushing"
  shows "channel_ok out taking (Suc taken) (ls @ [out ! taken]) writer stop replies"
    and "channel_ok out False (Suc taken) ls (Wrote (Joined (Inl e))) stop replies"
  using assms take_is_prefix [of "Suc taken" out]
  by (auto simp: channel_ok_def take_Suc_conv_app_nth split: stdout_writer.splits)

lemma channel_closes:
  assumes "channel_ok out taking taken ls writer stop replies"
  shows "writer = Writing \<Longrightarrow> stop \<Longrightarrow> channel_ok out False taken ls Flushing stop replies"
    and "writer = Flushing \<Longrightarrow> \<not> taken < length out \<Longrightarrow> channel_ok out taking taken ls (Wrote (Joined (Inr ()))) stop replies"
    and "\<not> (\<exists>written. writer = Wrote written) \<Longrightarrow> channel_ok out False taken ls (Wrote (JoinFailed e)) stop replies"
  using assms by (auto simp: channel_ok_def split: stdout_writer.splits)

lemma channel_stops: "channel_ok out taking taken ls writer False replies \<Longrightarrow> channel_ok out taking taken ls writer True replies"
  by (auto simp: channel_ok_def split: stdout_writer.splits)

definition queue_ok :: "('f, 's, 'a) stdio_config \<Rightarrow> ('s, 'a) stdio \<Rightarrow> bool" where
  "queue_ok cfg y \<longleftrightarrow>
     channel_ok (io_out cfg y) (io_open cfg y) (io_taken y) (io_lines y) (io_writer y) (io_stop y) (map snd (io_answers y))"

subsection \<open>Hosts that keep to their channel\<close>

definition keeps_connection :: "('f, 's, 'a) stdio_config \<Rightarrow> bool" where
  "keeps_connection cfg \<longleftrightarrow>
     (\<forall>clock request ctx w. host_extends cfg (hw_clients w)
        (hw_clients (fst (route (ic_libraries cfg) (ic_server cfg) clock request ctx w))))"

lemma host_extends_refl [simp]: "host_extends cfg w w"
  by (simp add: host_extends_def Let_def)

lemma arrives_world:
  assumes "token \<notin> set (sy_tokens sys)"
  shows "sy_state (server_step L srv sys (Arrives clock token request ctx)) =
    fst (dispatch_begin L srv clock token request ctx (sy_state sys))"
  using assms by (auto split: prod.split dispatched.split)

lemma keeps_route:
  "keeps_connection cfg \<Longrightarrow> route (ic_libraries cfg) (ic_server cfg) clock request ctx w = (w', r) \<Longrightarrow>
   host_extends cfg (hw_clients w) (hw_clients w')"
  unfolding keeps_connection_def by (metis fst_conv)

lemma server_step_extends:
  assumes "keeps_connection cfg" and "\<forall>w. e \<noteq> WorldMoves w"
  shows "host_extends cfg (hw_clients (ss_world (sy_state sys)))
    (hw_clients (ss_world (sy_state (server_step (ic_libraries cfg) (ic_server cfg) sys e))))"
  using assms
  by (cases e) (auto simp: dispatch_begin_def dispatch_poll_def dispatch_drop_def Let_def
      dest: keeps_route split: prod.split dispatched.split option.split)

lemma abandoned_clients [simp]:
  "hw_clients (ss_world (sy_state (server_step L srv sys (Abandoned s)))) = hw_clients (ss_world (sy_state sys))"
  by (simp add: dispatch_drop_def Let_def)

lemma abandon_all_clients [simp]:
  "hw_clients (ss_world (sy_state (abandon_all cfg tasks sys))) = hw_clients (ss_world (sy_state sys))"
  by (induction cfg tasks sys rule: abandon_all.induct) (simp_all del: server_step.simps)

lemma abandon_all_running:
  "set (sy_running (abandon_all cfg tasks sys)) = set (sy_running sys) - {s. \<exists>n. (n, InFlight s) \<in> set tasks}"
  by (induction cfg tasks sys rule: abandon_all.induct) auto

lemma abandon_all_ok: "system_ok (ic_libraries cfg) sys \<Longrightarrow> system_ok (ic_libraries cfg) (abandon_all cfg tasks sys)"
  by (induction cfg tasks sys rule: abandon_all.induct) (simp_all add: server_step_ok del: server_step.simps)

subsection \<open>The invariants\<close>

definition system_sound :: "('f, 's, 'a) stdio_config \<Rightarrow> ('s, 'a) stdio \<Rightarrow> bool" where
  "system_sound cfg y \<longleftrightarrow> system_ok (ic_libraries cfg) (io_system y)"

text \<open>Every request read is in exactly one place: a task, or settled.\<close>

definition tasks_ok :: "('s, 'a) stdio \<Rightarrow> bool" where
  "tasks_ok y \<longleftrightarrow>
     distinct (map fst (io_tasks y) @ map fst (io_settled y))
     \<and> set (map fst (io_tasks y) @ map fst (io_settled y)) = {0..<length (io_read y)}"

fun task_request :: "stdio_task \<Rightarrow> rpc_request" where
  "task_request (Spawned request) = request"
| "task_request (InFlight s) = sg_request s"

text \<open>What the server runs is what the tasks have in flight.\<close>

definition running_ok :: "('s, 'a) stdio \<Rightarrow> bool" where
  "running_ok y \<longleftrightarrow>
     set (sy_running (io_system y)) = {s. \<exists>n. (n, InFlight s) \<in> set (io_tasks y)}
     \<and> (\<forall>n m s. (n, InFlight s) \<in> set (io_tasks y) \<and> (m, InFlight s) \<in> set (io_tasks y) \<longrightarrow> n = m)
     \<and> (\<forall>(n, t) \<in> set (io_tasks y). task_request t = io_read y ! n)"

fun replied :: "(nat, settled_as) table \<Rightarrow> (nat \<times> rpc_response) list" where
  "replied [] = []"
| "replied ((n, Replied r) # xs) = (n, r) # replied xs"
| "replied (_ # xs) = replied xs"

fun numbered :: "(nat option \<times> rpc_response) list \<Rightarrow> (nat \<times> rpc_response) list" where
  "numbered [] = []"
| "numbered ((Some n, r) # xs) = (n, r) # numbered xs"
| "numbered ((None, r) # xs) = numbered xs"

text \<open>A request settled as replied was answered once, with a response to it; only a notification is
  owed none.\<close>

definition settled_ok :: "('s, 'a) stdio \<Rightarrow> bool" where
  "settled_ok y \<longleftrightarrow>
     replied (io_settled y) = numbered (io_answers y)
     \<and> (\<forall>(n, r) \<in> set (replied (io_settled y)). answer_to (rq_id (io_read y ! n)) r)
     \<and> (\<forall>n. (n, Silent) \<in> set (io_settled y) \<longrightarrow> n < length (io_read y) \<and> rq_id (io_read y ! n) = None)"

definition phase_ok :: "('f, 's, 'a) stdio_config \<Rightarrow> ('s, 'a) stdio \<Rightarrow> bool" where
  "phase_ok cfg y \<longleftrightarrow>
     (case io_phase y of
        ReadingLines \<Rightarrow> \<not> io_stop y
      | DrainingTasks _ \<Rightarrow> \<not> io_stop y \<and> cw_pending (io_clients y) (ic_pending cfg) = None
      | StoppingWriter _ \<Rightarrow> io_tasks y = [] \<and> cw_pending (io_clients y) (ic_pending cfg) = None
      | Returned r \<Rightarrow> io_tasks y = [] \<and> cw_pending (io_clients y) (ic_pending cfg) = None
          \<and> ic_closed cfg \<in> set (cw_fired (io_clients y))
          \<and> (\<exists>written. io_writer y = Wrote written \<and> (r = Inr () \<longrightarrow> finish_writing written = Inr ())))"

definition stdio_ok :: "('f, 's, 'a) stdio_config \<Rightarrow> ('s, 'a) stdio \<Rightarrow> bool" where
  "stdio_ok cfg y \<longleftrightarrow>
     system_sound cfg y \<and> queue_ok cfg y \<and> tasks_ok y \<and> running_ok y \<and> settled_ok y \<and> phase_ok cfg y"

subsection \<open>Every operation keeps them\<close>

lemma queue_ok_extends:
  assumes "queue_ok cfg y" and "host_extends cfg (io_clients y) (io_clients y')"
    and "io_taken y' = io_taken y" "io_lines y' = io_lines y" "io_writer y' = io_writer y" "io_stop y' = io_stop y"
      "io_answers y' = io_answers y"
  shows "queue_ok cfg y'"
proof -
  from assms(2) have ext: "prefix (io_out cfg y) (io_out cfg y')"
    "list_all is_client_request (drop (length (io_out cfg y)) (io_out cfg y'))"
    "io_open cfg y \<or> drop (length (io_out cfg y)) (io_out cfg y') = []" "io_open cfg y' = io_open cfg y"
    unfolding host_extends_def Let_def io_out_def io_open_def by blast+
  from channel_extends [OF assms(1) [unfolded queue_ok_def] ext(1-3)] show ?thesis
    by (simp add: queue_ok_def assms(3-7) ext(4))
qed

lemma phase_ok_extends:
  assumes "phase_ok cfg y" and "host_extends cfg (io_clients y) (io_clients y')"
    and "io_phase y' = io_phase y" "io_writer y' = io_writer y" "io_stop y' = io_stop y"
      "io_tasks y = [] \<Longrightarrow> io_tasks y' = []"
  shows "phase_ok cfg y'"
proof -
  from assms(2) have "cw_pending (io_clients y) (ic_pending cfg) = None \<Longrightarrow> cw_pending (io_clients y') (ic_pending cfg) = None"
    "ic_closed cfg \<in> set (cw_fired (io_clients y)) \<Longrightarrow> ic_closed cfg \<in> set (cw_fired (io_clients y'))"
    unfolding host_extends_def Let_def by blast+
  with assms(1,3-6) show ?thesis
    by (auto simp: phase_ok_def split: stdio_phase.splits)
qed

lemma system_sound_clients: "system_sound cfg y \<Longrightarrow> system_sound cfg (on_clients f y)"
proof -
  assume "system_sound cfg y"
  moreover obtain w where "io_system (on_clients f y) = server_step (ic_libraries cfg) (ic_server cfg) (io_system y) (WorldMoves w)"
    using on_clients_moves by blast
  ultimately show ?thesis
    unfolding system_sound_def by (metis server_step_ok)
qed

lemma hand_over_fields [simp]:
  "io_tasks (hand_over_response cfg n r y) = io_tasks y" "io_writer (hand_over_response cfg n r y) = io_writer y"
  "io_stop (hand_over_response cfg n r y) = io_stop y" "io_phase (hand_over_response cfg n r y) = io_phase y"
  "io_taken (hand_over_response cfg n r y) = io_taken y" "io_lines (hand_over_response cfg n r y) = io_lines y"
  "io_read (hand_over_response cfg n r y) = io_read y" "io_settled (hand_over_response cfg n r y) = io_settled y"
  "io_answers (hand_over_response cfg n r y) = io_answers y @ [(n, r)]"
  "sy_running (io_system (hand_over_response cfg n r y)) = sy_running (io_system y)"
  "io_clients (hand_over_response cfg n r y) = queue_send (ic_queue cfg) (Response r) (io_clients y)"
  by (simp_all add: hand_over_response_def)

lemma hand_over_sound: "system_sound cfg y \<Longrightarrow> system_sound cfg (hand_over_response cfg n r y)"
  using system_sound_clients [of cfg y] by (simp add: hand_over_response_def system_sound_def)

lemma hand_over_queue:
  assumes "queue_ok cfg y" and "\<not> io_stop y"
  shows "queue_ok cfg (hand_over_response cfg n r y)"
  using channel_answer [OF assms(1) [unfolded queue_ok_def] assms(2), of r]
  by (simp add: queue_ok_def io_out_def io_open_def split: if_splits)

lemma hand_over_phase: "phase_ok cfg y \<Longrightarrow> phase_ok cfg (hand_over_response cfg n r y)"
  by (simp add: phase_ok_def split: stdio_phase.splits)

lemma replied_append [simp]: "replied (xs @ ys) = replied xs @ replied ys"
  by (induction xs rule: replied.induct) simp_all

lemma numbered_append [simp]: "numbered (xs @ ys) = numbered xs @ numbered ys"
  by (induction xs rule: numbered.induct) simp_all

lemma working_not_stopped: "phase_ok cfg y \<Longrightarrow> io_tasks y \<noteq> [] \<Longrightarrow> \<not> io_stop y"
  by (auto simp: phase_ok_def split: stdio_phase.splits)

lemma tasks_deleted:
  assumes "tasks_ok y" and "map_of (io_tasks y) n = Some t"
  shows "set (AList.delete n (io_tasks y)) = set (io_tasks y) - {(n, t)}" and "(n, t) \<in> set (io_tasks y)"
    and "n < length (io_read y)"
proof -
  show mem: "(n, t) \<in> set (io_tasks y)" using assms(2) by (rule map_of_SomeD)
  have dist: "distinct (map fst (io_tasks y))" using assms(1) by (simp add: tasks_ok_def)
  have only: "t' = t" if "(n, t') \<in> set (io_tasks y)" for t'
    using map_of_SomeI [OF dist that] assms(2) by simp
  show "set (AList.delete n (io_tasks y)) = set (io_tasks y) - {(n, t)}"
    unfolding set_delete using only by blast
  have "fst (n, t) \<in> fst ` set (io_tasks y)" using mem by (rule imageI)
  then have "n \<in> set (map fst (io_tasks y) @ map fst (io_settled y))" by simp
  moreover have "set (map fst (io_tasks y) @ map fst (io_settled y)) = {0..<length (io_read y)}"
    using assms(1) unfolding tasks_ok_def by (rule conjunct2)
  ultimately have "n \<in> {0..<length (io_read y)}" by (simp only:)
  then show "n < length (io_read y)" by simp
qed

lemma tasks_ok_settled:
  assumes "tasks_ok y" and "map_of (io_tasks y) n = Some t"
    and "io_tasks y' = AList.delete n (io_tasks y)" "io_settled y' = io_settled y @ [(n, outcome)]" "io_read y' = io_read y"
  shows "tasks_ok y'"
proof -
  have dist: "distinct (map fst (io_tasks y))" using assms(1) by (simp add: tasks_ok_def)
  have fsts: "set (map fst (AList.delete n (io_tasks y))) = set (map fst (io_tasks y)) - {n}"
    by (auto simp: set_delete image_iff)
  have "n \<in> set (map fst (io_tasks y))" using assms(2) by (force dest: map_of_SomeD)
  with assms(1) fsts distinct_keys_delete [OF dist, of n] show ?thesis
    unfolding tasks_ok_def assms(3-5) by auto
qed

lemma running_ok_settled:
  assumes "running_ok y" and "tasks_ok y" and "map_of (io_tasks y) n = Some t"
    and "io_tasks y' = AList.delete n (io_tasks y)" "io_read y' = io_read y"
    and "set (sy_running (io_system y')) = set (sy_running (io_system y)) - {s. t = InFlight s}"
  shows "running_ok y'"
proof -
  have once: "m = n" if "(m, InFlight s) \<in> set (io_tasks y)" "t = InFlight s" for m s
    using assms(1) that tasks_deleted(2) [OF assms(2,3)] unfolding running_ok_def by blast
  have "{s. \<exists>m. (m, InFlight s) \<in> set (io_tasks y')} = {s. \<exists>m. (m, InFlight s) \<in> set (io_tasks y)} - {s. t = InFlight s}"
    unfolding assms(4) tasks_deleted(1) [OF assms(2,3)] using once by blast
  with assms(1,6) have "set (sy_running (io_system y')) = {s. \<exists>m. (m, InFlight s) \<in> set (io_tasks y')}"
    by (simp add: running_ok_def)
  with assms(1) show ?thesis
    unfolding running_ok_def assms(4,5) tasks_deleted(1) [OF assms(2,3)] by fast
qed

lemma settle_fields:
  "io_tasks (settle cfg n outcome y) = AList.delete n (io_tasks y)"
  "io_settled (settle cfg n outcome y) = io_settled y @ [(n, outcome)]"
  "io_read (settle cfg n outcome y) = io_read y" "io_phase (settle cfg n outcome y) = io_phase y"
  "io_answers (settle cfg n outcome y) = io_answers y @ (case outcome of Replied r \<Rightarrow> [(Some n, r)] | _ \<Rightarrow> [])"
  "sy_running (io_system (settle cfg n outcome y)) = sy_running (io_system y)"
  by (simp_all add: settle_def Let_def split: settled_as.split)

lemma settle_ok:
  assumes ok: "stdio_ok cfg y" and t: "map_of (io_tasks y) n = Some t"
    and sys: "system_ok (ic_libraries cfg) sys" "host_extends cfg (io_clients y) (hw_clients (ss_world (sy_state sys)))"
    and running: "set (sy_running sys) = set (sy_running (io_system y)) - {s. t = InFlight s}"
    and reply: "\<And>r. outcome = Replied r \<Longrightarrow> answer_to (rq_id (io_read y ! n)) r"
    and silent: "outcome = Silent \<Longrightarrow> rq_id (io_read y ! n) = None"
  shows "stdio_ok cfg (settle cfg n outcome (y\<lparr>io_system := sys\<rparr>))"
proof -
  let ?y = "y\<lparr>io_system := sys\<rparr>" and ?z = "settle cfg n outcome (y\<lparr>io_system := sys\<rparr>)"
  let ?y1 = "?y\<lparr>io_tasks := AList.delete n (io_tasks y), io_settled := io_settled y @ [(n, outcome)]\<rparr>"
  have z: "?z = (case outcome of Replied r \<Rightarrow> hand_over_response cfg (Some n) r ?y1 | _ \<Rightarrow> ?y1)"
    by (simp add: settle_def Let_def)
  have nonempty: "io_tasks y \<noteq> []" using t by (cases "io_tasks y") simp_all
  have parts: "queue_ok cfg y" "phase_ok cfg y" "tasks_ok y" "running_ok y" "settled_ok y"
    using ok by (simp_all add: stdio_ok_def)
  have "\<not> io_stop y" by (rule working_not_stopped [OF parts(2) nonempty])
  moreover have q1: "queue_ok cfg ?y1"
    by (rule queue_ok_extends [OF parts(1)]) (use sys(2) in simp_all)
  ultimately have "queue_ok cfg ?z" unfolding z by (cases outcome) (simp_all add: hand_over_queue)
  moreover have "phase_ok cfg ?y1"
    by (rule phase_ok_extends [OF parts(2)]) (use sys(2) in simp_all)
  then have "phase_ok cfg ?z" unfolding z by (cases outcome) (simp_all add: hand_over_phase)
  moreover have "system_sound cfg ?y1" using sys(1) by (simp add: system_sound_def)
  then have "system_sound cfg ?z" unfolding z by (cases outcome) (simp_all add: hand_over_sound)
  moreover have "tasks_ok ?z"
    by (rule tasks_ok_settled [OF parts(3) t, where outcome = outcome]) (simp_all add: settle_fields)
  moreover have "running_ok ?z"
    by (rule running_ok_settled [OF parts(4,3) t]) (use running in \<open>simp_all add: settle_fields\<close>)
  moreover have "settled_ok ?z"
    using parts(5) reply silent tasks_deleted(3) [OF parts(3) t] by (cases outcome) (auto simp: settled_ok_def settle_fields)
  ultimately show ?thesis by (simp add: stdio_ok_def)
qed

lemma begin_answers:
  assumes "handler_answers srv" and "dispatch_begin L srv clock token request ctx st = (st', Finished (Some r))"
  shows "answer_to (rq_id request) r"
  using assms(2) answer_to_route [OF assms(1), of request L clock ctx "ss_world st"]
  by (auto simp: dispatch_begin_def simp del: answer_to_route split: if_splits option.splits prod.splits)

lemma begin_silent:
  "dispatch_begin L srv clock token request ctx st = (st', Finished None) \<Longrightarrow> rq_id request = None"
  by (auto simp: dispatch_begin_def split: if_splits option.splits prod.splits)

lemma poll_answers:
  assumes "handler_answers srv" and "snd (dispatch_poll L srv clock s st) = Some r"
  shows "answer_to (rq_id (sg_request s)) r"
  using assms(2) answer_to_route [OF assms(1), of "sg_request s" L clock "sg_ctx s" "ss_world st"]
  by (auto simp: dispatch_poll_def case_prod_unfold split: if_splits)

lemma outcome_of_Replied:
  "outcome_of Silent x = Replied r \<longleftrightarrow> x = Some r" "outcome_of CalledOff x = Replied r \<longleftrightarrow> x = Some r"
  "outcome_of Silent x = Silent \<longleftrightarrow> x = None" "outcome_of CalledOff x \<noteq> Silent"
  by (simp_all add: outcome_of_def split: option.split)

lemma task_turns_ok:
  assumes ok: "stdio_ok cfg y" and keeps: "keeps_connection cfg" and handler: "handler_answers (ic_server cfg)"
  shows "stdio_ok cfg (task_turns cfg n clock y)"
proof (cases "\<exists>s. map_of (io_tasks y) n = Some (InFlight s)")
  case True
  then obtain s where t: "map_of (io_tasks y) n = Some (InFlight s)" by blast
  let ?sys = "server_step (ic_libraries cfg) (ic_server cfg) (io_system y) (Turn clock s)"
  have mem: "(n, InFlight s) \<in> set (io_tasks y)" using t by (rule map_of_SomeD)
  then have run_s: "s \<in> set (sy_running (io_system y))" and req: "sg_request s = io_read y ! n"
    using ok by (auto simp: stdio_ok_def running_ok_def)
  have running: "set (sy_running ?sys) = set (sy_running (io_system y)) - {s'. InFlight s = InFlight s'}"
    using run_s by auto
  have "system_ok (ic_libraries cfg) ?sys"
    using ok by (intro server_step_ok) (simp add: stdio_ok_def system_sound_def)
  moreover have "host_extends cfg (io_clients y) (hw_clients (ss_world (sy_state ?sys)))"
    unfolding io_clients_def by (rule server_step_extends [OF keeps]) simp
  moreover have "answer_to (rq_id (io_read y ! n)) r"
    if "outcome_of CalledOff (snd (dispatch_poll (ic_libraries cfg) (ic_server cfg) clock s (sy_state (io_system y)))) = Replied r" for r
    using poll_answers [OF handler that [unfolded outcome_of_Replied(2)]] by (simp add: req)
  ultimately show ?thesis
    unfolding task_turns_def t option.case stdio_task.case
    by (intro settle_ok [OF ok t _ _ running]) (simp_all add: outcome_of_Replied)
qed (use ok in \<open>auto simp: task_turns_def split: option.split stdio_task.split\<close>)

lemma task_panics_ok:
  assumes ok: "stdio_ok cfg y" and keeps: "keeps_connection cfg"
  shows "stdio_ok cfg (task_panics cfg n y)"
proof (cases "\<exists>s. map_of (io_tasks y) n = Some (InFlight s)")
  case True
  then obtain s where t: "map_of (io_tasks y) n = Some (InFlight s)" by blast
  let ?sys = "server_step (ic_libraries cfg) (ic_server cfg) (io_system y) (Abandoned s)"
  have mem: "(n, InFlight s) \<in> set (io_tasks y)" using t by (rule map_of_SomeD)
  then have "s \<in> set (sy_running (io_system y))"
    using ok by (auto simp: stdio_ok_def running_ok_def)
  then have running: "set (sy_running ?sys) = set (sy_running (io_system y)) - {s'. InFlight s = InFlight s'}"
    by auto
  have "system_ok (ic_libraries cfg) ?sys"
    using ok by (intro server_step_ok) (simp add: stdio_ok_def system_sound_def)
  moreover have "host_extends cfg (io_clients y) (hw_clients (ss_world (sy_state ?sys)))"
    unfolding io_clients_def by (rule server_step_extends [OF keeps]) simp
  ultimately show ?thesis
    unfolding task_panics_def t option.case stdio_task.case
    by (intro settle_ok [OF ok t _ _ running]) simp_all
qed (use ok in \<open>auto simp: task_panics_def split: option.split stdio_task.split\<close>)

lemma update_task:
  assumes "tasks_ok y" and "map_of (io_tasks y) n = Some t"
  shows "set (AList.update n t' (io_tasks y)) = insert (n, t') (set (io_tasks y) - {(n, t)})"
    and "map fst (AList.update n t' (io_tasks y)) = map fst (io_tasks y)"
proof -
  show "map fst (AList.update n t' (io_tasks y)) = map fst (io_tasks y)"
    using assms(2) by (simp add: update_keys) (metis map_of_eq_None_iff option.simps(3))
  have dist: "distinct (map fst (io_tasks y))" using assms(1) by (simp add: tasks_ok_def)
  have mem: "(n, t) \<in> set (io_tasks y)" using assms(2) by (rule map_of_SomeD)
  have "(k, v) \<in> set (AList.update n t' (io_tasks y)) \<longleftrightarrow> (k, v) \<in> insert (n, t') (set (io_tasks y) - {(n, t)})" for k v
    using map_of_eq_Some_iff [OF distinct_keys_update [OF dist, of n t'], of k v] map_of_eq_Some_iff [OF dist, of k v]
      assms(2) by (cases "k = n") (auto simp: map_of_update)
  then show "set (AList.update n t' (io_tasks y)) = insert (n, t') (set (io_tasks y) - {(n, t)})" by auto
qed

lemma task_begins_ok:
  assumes ok: "stdio_ok cfg y" and keeps: "keeps_connection cfg" and handler: "handler_answers (ic_server cfg)"
  shows "stdio_ok cfg (task_begins cfg n clock token y)"
proof (cases "(\<exists>request. map_of (io_tasks y) n = Some (Spawned request)) \<and> token \<notin> set (sy_tokens (io_system y))")
  case True
  then obtain request where t: "map_of (io_tasks y) n = Some (Spawned request)" and fresh: "token \<notin> set (sy_tokens (io_system y))"
    by blast
  let ?event = "Arrives clock token request (stdio_context cfg)"
  let ?sys = "server_step (ic_libraries cfg) (ic_server cfg) (io_system y) ?event"
  obtain st started where begin_eq: "dispatch_begin (ic_libraries cfg) (ic_server cfg) clock token request
      (stdio_context cfg) (sy_state (io_system y)) = (st, started)"
    by (cases "dispatch_begin (ic_libraries cfg) (ic_server cfg) clock token request (stdio_context cfg) (sy_state (io_system y))")
  have mem: "(n, Spawned request) \<in> set (io_tasks y)" using t by (rule map_of_SomeD)
  have parts: "queue_ok cfg y" "phase_ok cfg y" "tasks_ok y" "running_ok y" "settled_ok y" "system_ok (ic_libraries cfg) (io_system y)"
    using ok by (simp_all add: stdio_ok_def system_sound_def)
  have req: "request = io_read y ! n"
    using parts(4) mem unfolding running_ok_def by fastforce
  have sys: "system_ok (ic_libraries cfg) ?sys" by (rule server_step_ok [OF parts(6)])
  have ext: "host_extends cfg (io_clients y) (hw_clients (ss_world (sy_state ?sys)))"
    unfolding io_clients_def by (rule server_step_extends [OF keeps]) simp
  show ?thesis
  proof (cases started)
    case (Finished response)
    have running: "set (sy_running ?sys) = set (sy_running (io_system y)) - {s. Spawned request = InFlight s}"
      using begin_eq Finished by simp
    have "rq_id (io_read y ! n) = None" if "outcome_of Silent response = Silent"
      using begin_silent [of "ic_libraries cfg" "ic_server cfg" clock token request "stdio_context cfg" "sy_state (io_system y)" st]
        begin_eq Finished that req by (simp add: outcome_of_Replied)
    moreover have "answer_to (rq_id (io_read y ! n)) r" if "outcome_of Silent response = Replied r" for r
      using begin_answers [OF handler, of "ic_libraries cfg" clock token request "stdio_context cfg" "sy_state (io_system y)" st r]
        begin_eq Finished that req by (simp add: outcome_of_Replied)
    ultimately have "stdio_ok cfg (settle cfg n (outcome_of Silent response) (y\<lparr>io_system := ?sys\<rparr>))"
      using sys ext running by (intro settle_ok [OF ok t])
    with t fresh begin_eq Finished show ?thesis
      by (simp add: task_begins_def Let_def del: server_step.simps)
  next
    case (Serving s)
    let ?z = "y\<lparr>io_system := ?sys, io_tasks := AList.update n (InFlight s) (io_tasks y)\<rparr>"
    have z: "task_begins cfg n clock token y = ?z"
      using t fresh begin_eq Serving by (simp add: task_begins_def Let_def del: server_step.simps)
    have running: "sy_running ?sys = sy_running (io_system y) @ [s]"
      using begin_eq Serving fresh by simp
    have s: "sg_request s = request" "g_token (sg_guard s) = token"
      using begin_eq Serving by (auto simp: dispatch_begin_def Cancellation.register_def Let_def split: if_splits option.splits prod.splits)
    have new: "s \<notin> set (sy_running (io_system y))"
      using parts(6) s(2) fresh by (auto simp: system_ok_def)
    then have unused: "(m, InFlight s) \<notin> set (io_tasks y)" for m
      using parts(4) by (auto simp: running_ok_def)
    note tasks = update_task [OF parts(3) t, of "InFlight s"]
    have "queue_ok cfg ?z"
      by (rule queue_ok_extends [OF parts(1)]) (use ext in simp_all)
    moreover have "phase_ok cfg ?z"
      by (rule phase_ok_extends [OF parts(2)]) (use ext t in \<open>auto simp del: server_step.simps\<close>)
    moreover have "system_sound cfg ?z" using sys by (simp add: system_sound_def)
    moreover have "tasks_ok ?z" using parts(3) by (simp add: tasks_ok_def tasks(2) flip: set_map)
    moreover have "settled_ok ?z" using parts(5) by (simp add: settled_ok_def)
    moreover have "running_ok ?z"
    proof -
      define T where "T = insert (n, InFlight s) (set (io_tasks y) - {(n, Spawned request)})"
      have z_fields: "set (io_tasks ?z) = T" "sy_running (io_system ?z) = sy_running ?sys" "io_read ?z = io_read y"
        by (simp_all add: T_def tasks(1) del: server_step.simps)
      have runs: "set (sy_running ?sys) = {s'. \<exists>m. (m, InFlight s') \<in> T}"
        using parts(4) unfolding running running_ok_def T_def by auto
      have once: "\<forall>m k s'. (m, InFlight s') \<in> T \<and> (k, InFlight s') \<in> T \<longrightarrow> m = k"
        using parts(4) unused unfolding running_ok_def T_def by blast
      have requests: "\<forall>(m, t) \<in> T. task_request t = io_read y ! m"
        using parts(4) s(1) req unfolding running_ok_def T_def by auto
      show ?thesis
        unfolding running_ok_def z_fields by (intro conjI runs once requests)
    qed
    ultimately show ?thesis unfolding z stdio_ok_def by blast
  qed
next
  case False
  then have "task_begins cfg n clock token y = y"
    by (auto simp: task_begins_def Let_def simp del: server_step.simps split: option.split stdio_task.split)
  with ok show ?thesis by simp
qed

lemmas stdio_parts = stdio_ok_def [THEN iffD1]

text \<open>An operation on the connection alone, that keeps its queue.\<close>

lemma on_clients_ok:
  assumes "stdio_ok cfg y"
    and "cw_out (f (io_clients y)) (ic_queue cfg) = cw_out (io_clients y) (ic_queue cfg)"
    and "cw_out_open (f (io_clients y)) (ic_queue cfg) = cw_out_open (io_clients y) (ic_queue cfg)"
    and "cw_pending (io_clients y) (ic_pending cfg) = None \<Longrightarrow> cw_pending (f (io_clients y)) (ic_pending cfg) = None"
    and "set (cw_fired (io_clients y)) \<subseteq> set (cw_fired (f (io_clients y)))"
  shows "stdio_ok cfg (on_clients f y)"
proof -
  have ext: "host_extends cfg (io_clients y) (f (io_clients y))"
    using assms(2-5) by (auto simp: host_extends_def Let_def)
  note parts = stdio_parts [OF assms(1)]
  have "queue_ok cfg (on_clients f y)"
    by (rule queue_ok_extends [of cfg y]) (use parts ext in simp_all)
  moreover have "phase_ok cfg (on_clients f y)"
    by (rule phase_ok_extends [of cfg y]) (use parts ext in simp_all)
  moreover have "system_sound cfg (on_clients f y)" using parts by (simp add: system_sound_clients)
  ultimately show ?thesis
    using parts by (simp add: stdio_ok_def tasks_ok_def running_ok_def settled_ok_def)
qed

lemma line_read_ok:
  assumes ok: "stdio_ok cfg y" and "io_phase y = ReadingLines"
  shows "stdio_ok cfg (line_read cfg line y)"
proof -
  note parts = stdio_parts [OF ok]
  have running: "\<not> io_stop y" using parts assms(2) by (simp add: phase_ok_def)
  have refused: "stdio_ok cfg (hand_over_response cfg None r y)" for r
    using parts running
    by (auto simp: stdio_ok_def tasks_ok_def running_ok_def settled_ok_def hand_over_queue hand_over_phase hand_over_sound)
  have answered: "stdio_ok cfg (on_clients (\<lambda>w. fst (Client_Channel.deliver (ic_pending cfg) (ic_caller cfg) response w)) y)" for response
    by (rule on_clients_ok [OF ok]) simp_all
  have spawned: "stdio_ok cfg (y\<lparr>io_tasks := io_tasks y @ [(length (io_read y), Spawned request)], io_read := io_read y @ [request]\<rparr>)"
    (is "stdio_ok cfg ?z") for request
  proof -
    have bounds: "set (map fst (io_tasks y) @ map fst (io_settled y)) = {0..<length (io_read y)}"
      "distinct (map fst (io_tasks y) @ map fst (io_settled y))"
      using parts unfolding tasks_ok_def by blast+
    then have below: "n < length (io_read y)" if "(n, t) \<in> set (io_tasks y)" for n t
      using that by (metis UnI1 atLeastLessThan_iff fst_conv image_eqI set_append set_map)
    have replies: "n < length (io_read y)" if "(n, r) \<in> set (replied (io_settled y))" for n r
    proof -
      have "(n, r) \<in> set (replied xs) \<Longrightarrow> n \<in> set (map fst xs)" for xs
        by (induction xs rule: replied.induct) auto
      with that bounds(1) show ?thesis by (metis UnI2 atLeastLessThan_iff set_append)
    qed
    have "tasks_ok ?z"
    proof -
      have "length (io_read y) \<notin> set (map fst (io_tasks y) @ map fst (io_settled y))" unfolding bounds(1) by simp
      with bounds(2) have "distinct (map fst (io_tasks ?z) @ map fst (io_settled ?z))" by simp
      moreover have "set (map fst (io_tasks ?z) @ map fst (io_settled ?z)) = {0..<length (io_read ?z)}"
        using bounds(1) by auto
      ultimately show ?thesis unfolding tasks_ok_def by blast
    qed
    moreover have "running_ok ?z"
    proof -
      have "\<forall>(n, t) \<in> set (io_tasks y). task_request t = (io_read y @ [request]) ! n"
        using parts below by (fastforce simp: running_ok_def nth_append)
      with parts show ?thesis by (auto simp: running_ok_def)
    qed
    moreover have "settled_ok ?z"
      using parts replies by (fastforce simp: settled_ok_def nth_append)
    moreover have "queue_ok cfg ?z"
      by (rule queue_ok_extends [of cfg y]) (use parts in simp_all)
    moreover have "phase_ok cfg ?z" using parts assms(2) by (simp add: phase_ok_def)
    moreover have "system_sound cfg ?z" using parts by (simp add: system_sound_def)
    ultimately show ?thesis by (simp add: stdio_ok_def)
  qed
  show ?thesis
    using ok refused answered spawned
    by (auto simp: line_read_def split: sum.split rpc_message.split)
qed

lemma queue_ok_frame:
  assumes "queue_ok cfg y" "io_out cfg y' = io_out cfg y" "io_open cfg y' = io_open cfg y"
    "io_taken y' = io_taken y" "io_lines y' = io_lines y" "io_writer y' = io_writer y" "io_stop y' = io_stop y"
    "io_answers y' = io_answers y"
  shows "queue_ok cfg y'"
  using assms by (simp add: queue_ok_def)

lemma out_fields [simp]:
  "io_out cfg (on_clients f y) = cw_out (f (io_clients y)) (ic_queue cfg)"
  "io_open cfg (on_clients f y) = cw_out_open (f (io_clients y)) (ic_queue cfg)"
  by (simp_all add: io_out_def io_open_def)

lemma end_of_input_ok:
  assumes ok: "stdio_ok cfg y" and "io_phase y = ReadingLines"
  shows "stdio_ok cfg (end_of_input cfg read y)"
proof -
  note parts = stdio_parts [OF on_clients_ok [OF ok, of "close_pending (ic_pending cfg)", simplified]]
  have "queue_ok cfg (end_of_input cfg read y)"
    by (rule queue_ok_frame [of cfg "on_clients (close_pending (ic_pending cfg)) y"])
      (use parts in \<open>simp_all add: end_of_input_def io_out_def io_open_def\<close>)
  with parts assms(2) show ?thesis
    by (simp add: stdio_ok_def system_sound_def tasks_ok_def running_ok_def settled_ok_def phase_ok_def end_of_input_def)
qed

lemma shutdown_fields [simp]:
  "io_tasks (shutdown_tasks cfg y) = []" "io_writer (shutdown_tasks cfg y) = io_writer y"
  "io_stop (shutdown_tasks cfg y) = io_stop y" "io_phase (shutdown_tasks cfg y) = io_phase y"
  "io_taken (shutdown_tasks cfg y) = io_taken y" "io_lines (shutdown_tasks cfg y) = io_lines y"
  "io_read (shutdown_tasks cfg y) = io_read y" "io_answers (shutdown_tasks cfg y) = io_answers y"
  "io_settled (shutdown_tasks cfg y) = io_settled y @ map (\<lambda>(n, _). (n, CutOff)) (io_tasks y)"
  "io_clients (shutdown_tasks cfg y) = io_clients y"
  "io_system (shutdown_tasks cfg y) = abandon_all cfg (io_tasks y) (io_system y)"
  by (simp_all add: shutdown_tasks_def io_clients_def)

lemma replied_cut: "replied (map (\<lambda>(n, _). (n, CutOff)) ts) = []"
  by (induction ts) auto

lemma shutdown_ok:
  assumes ok: "stdio_ok cfg y"
  shows "stdio_ok cfg (shutdown_tasks cfg y)" and "sy_running (io_system (shutdown_tasks cfg y)) = []"
proof -
  note parts = stdio_parts [OF ok]
  have "set (sy_running (abandon_all cfg (io_tasks y) (io_system y))) = {}"
    using parts by (simp add: abandon_all_running running_ok_def)
  then show none: "sy_running (io_system (shutdown_tasks cfg y)) = []" by simp
  have fsts: "map fst (map (\<lambda>(n, _). (n, CutOff)) ts) = map fst ts" for ts :: "(nat, stdio_task) table"
    by (induction ts) auto
  have "tasks_ok (shutdown_tasks cfg y)"
    using parts unfolding tasks_ok_def by (simp add: fsts Un_commute Int_commute del: map_map set_map flip: set_map)
  moreover have "running_ok (shutdown_tasks cfg y)" using none by (simp add: running_ok_def)
  moreover have "settled_ok (shutdown_tasks cfg y)" using parts by (auto simp: settled_ok_def replied_cut)
  moreover have "queue_ok cfg (shutdown_tasks cfg y)"
    by (rule queue_ok_frame [of cfg y]) (use parts in \<open>simp_all add: io_out_def io_open_def\<close>)
  moreover have "phase_ok cfg (shutdown_tasks cfg y)"
    using parts by (auto simp: phase_ok_def split: stdio_phase.splits)
  moreover have "system_sound cfg (shutdown_tasks cfg y)" using parts by (simp add: system_sound_def abandon_all_ok)
  ultimately show "stdio_ok cfg (shutdown_tasks cfg y)" by (simp add: stdio_ok_def)
qed

lemma phase_change_ok:
  assumes "stdio_ok cfg y" and "phase_ok cfg (y\<lparr>io_phase := p\<rparr>)"
  shows "stdio_ok cfg (y\<lparr>io_phase := p\<rparr>)"
proof -
  note parts = stdio_parts [OF assms(1)]
  have "queue_ok cfg (y\<lparr>io_phase := p\<rparr>)"
    by (rule queue_ok_frame [of cfg y]) (use parts in \<open>simp_all add: io_out_def io_open_def\<close>)
  with parts assms(2) show ?thesis
    by (simp add: stdio_ok_def system_sound_def tasks_ok_def running_ok_def settled_ok_def)
qed

lemma writer_gone_ok:
  assumes ok: "stdio_ok cfg y" and writer: "io_writer y = Wrote written" and phase: "io_phase y = ReadingLines"
  shows "stdio_ok cfg (writer_gone cfg written y)"
proof -
  let ?y1 = "on_clients (fire_token (ic_closed cfg)) (on_clients (close_pending (ic_pending cfg)) y)"
  have "stdio_ok cfg (on_clients (close_pending (ic_pending cfg)) y)"
    by (rule on_clients_ok [OF ok]) simp_all
  then have "stdio_ok cfg ?y1" by (rule on_clients_ok) auto
  from shutdown_ok(1) [OF this] show ?thesis
    unfolding writer_gone_def by (rule phase_change_ok) (simp add: phase_ok_def writer)
qed

lemma stop_writing_ok:
  assumes ok: "stdio_ok cfg y" and "io_tasks y = []" and "io_phase y = DrainingTasks read"
  shows "stdio_ok cfg (stop_writing read y)"
proof -
  note parts = stdio_parts [OF ok]
  have "\<not> io_stop y" using parts assms(3) by (simp add: phase_ok_def)
  with parts have "queue_ok cfg (stop_writing read y)"
    using channel_stops by (simp add: queue_ok_def stop_writing_def io_out_def io_open_def)
  with parts assms(2,3) show ?thesis
    by (simp add: stdio_ok_def system_sound_def tasks_ok_def running_ok_def settled_ok_def phase_ok_def stop_writing_def)
qed

lemma writer_joined_ok:
  assumes ok: "stdio_ok cfg y" and writer: "io_writer y = Wrote written" and phase: "io_phase y = StoppingWriter read"
  shows "stdio_ok cfg (writer_joined cfg read written y)"
proof -
  have fields: "io_tasks y = []" "cw_pending (io_clients y) (ic_pending cfg) = None"
    using stdio_parts [OF ok] phase by (simp_all add: phase_ok_def)
  have "stdio_ok cfg (on_clients (fire_token (ic_closed cfg)) y)" by (rule on_clients_ok [OF ok]) auto
  then show ?thesis
    unfolding writer_joined_def
    by (rule phase_change_ok) (cases read; simp add: phase_ok_def writer fields)
qed

text \<open>The writer touches its end of the queue only.\<close>

lemma writer_ok:
  assumes ok: "stdio_ok cfg y" and writer: "\<not> (\<exists>written. io_writer y = Wrote written)"
    and same: "io_tasks y' = io_tasks y" "io_phase y' = io_phase y" "io_stop y' = io_stop y" "io_read y' = io_read y"
      "io_settled y' = io_settled y" "io_answers y' = io_answers y"
      "sy_running (io_system y') = sy_running (io_system y)"
      "cw_pending (io_clients y') = cw_pending (io_clients y)" "cw_fired (io_clients y') = cw_fired (io_clients y)"
    and sound: "system_sound cfg y'" and queue: "queue_ok cfg y'"
  shows "stdio_ok cfg y'"
proof -
  note parts = stdio_parts [OF ok]
  have "phase_ok cfg y'"
    using parts writer unfolding phase_ok_def same by (cases "io_phase y") auto
  moreover have "tasks_ok y' \<longleftrightarrow> tasks_ok y" by (simp only: tasks_ok_def same)
  moreover have "running_ok y' \<longleftrightarrow> running_ok y" by (simp only: running_ok_def same)
  moreover have "settled_ok y' \<longleftrightarrow> settled_ok y" by (simp only: settled_ok_def same)
  ultimately show ?thesis using sound queue parts by (simp add: stdio_ok_def)
qed

lemma write_next_ok:
  assumes ok: "stdio_ok cfg y" and writer: "io_writer y = Writing \<or> io_writer y = Flushing"
    and left: "io_taken y < length (io_out cfg y)"
  shows "stdio_ok cfg (write_next cfg failure y)"
proof (rule writer_ok [OF ok])
  note parts = stdio_parts [OF ok]
  note wrote = channel_written [OF parts [THEN conjunct2, THEN conjunct1, unfolded queue_ok_def] left writer]
  show "queue_ok cfg (write_next cfg failure y)"
    using wrote(1) wrote(2) by (simp add: write_next_def queue_ok_def io_out_def io_open_def split: option.split)
  show "system_sound cfg (write_next cfg failure y)"
    using parts system_sound_clients [of cfg y "queue_close (ic_queue cfg)"]
    by (simp add: write_next_def system_sound_def split: option.split)
  show "\<not> (\<exists>written. io_writer y = Wrote written)" using writer by auto
qed (simp_all add: write_next_def split: option.split)

lemma writer_turn_ok:
  assumes ok: "stdio_ok cfg y"
  shows "stdio_ok cfg (writer_turn cfg failure y)"
proof -
  note parts = stdio_parts [OF ok]
  note closes = channel_closes [OF parts [THEN conjunct2, THEN conjunct1, unfolded queue_ok_def]]
  have stop: "stdio_ok cfg ((on_clients (queue_close (ic_queue cfg)) y)\<lparr>io_writer := Flushing\<rparr>)"
    if "io_writer y = Writing" "io_stop y"
    by (rule writer_ok [OF ok])
      (use parts closes(1) [OF that] that system_sound_clients [of cfg y] in
        \<open>simp_all add: queue_ok_def io_out_def io_open_def system_sound_def\<close>)
  have flushed: "stdio_ok cfg (y\<lparr>io_writer := Wrote (Joined (Inr ()))\<rparr>)"
    if "io_writer y = Flushing" "\<not> io_taken y < length (io_out cfg y)"
    by (rule writer_ok [OF ok])
      (use parts closes(2) [OF that] that in \<open>simp_all add: queue_ok_def io_out_def io_open_def system_sound_def\<close>)
  show ?thesis
    using ok stop flushed write_next_ok [OF ok]
    by (auto simp: writer_turn_def split: stdout_writer.split)
qed

lemma writer_panic_ok:
  assumes ok: "stdio_ok cfg y"
  shows "stdio_ok cfg (writer_panic cfg e y)"
proof (cases "\<exists>written. io_writer y = Wrote written")
  case False
  note parts = stdio_parts [OF ok]
  note closes = channel_closes [OF parts [THEN conjunct2, THEN conjunct1, unfolded queue_ok_def]]
  have "stdio_ok cfg ((on_clients (queue_close (ic_queue cfg)) y)\<lparr>io_writer := Wrote (JoinFailed e)\<rparr>)"
    by (rule writer_ok [OF ok])
      (use parts closes(3) [OF False] False system_sound_clients [of cfg y] in
        \<open>simp_all add: queue_ok_def io_out_def io_open_def system_sound_def\<close>)
  then show ?thesis using ok by (simp add: writer_panic_def split: stdout_writer.split)
qed (use ok in \<open>auto simp: writer_panic_def\<close>)

lemma host_moves_ok:
  assumes ok: "stdio_ok cfg y" and ext: "host_extends cfg (io_clients y) (hw_clients w)"
  shows "stdio_ok cfg (y\<lparr>io_system := server_step (ic_libraries cfg) (ic_server cfg) (io_system y) (WorldMoves w)\<rparr>)"
    (is "stdio_ok cfg ?z")
proof -
  note parts = stdio_parts [OF ok]
  have "queue_ok cfg ?z" by (rule queue_ok_extends [of cfg y]) (use parts ext in simp_all)
  moreover have "phase_ok cfg ?z" by (rule phase_ok_extends [of cfg y]) (use parts ext in simp_all)
  moreover have "system_sound cfg ?z"
    using parts server_step_ok [of "ic_libraries cfg" "io_system y" "ic_server cfg" "WorldMoves w"]
    by (simp add: system_sound_def del: server_step.simps)
  ultimately show ?thesis
    using parts by (simp add: stdio_ok_def tasks_ok_def running_ok_def settled_ok_def)
qed

lemma stdio_step_ok:
  assumes keeps: "keeps_connection cfg" and handler: "handler_answers (ic_server cfg)" and ok: "stdio_ok cfg y"
  shows "stdio_ok cfg (stdio_step cfg y e)"
proof (cases e)
  case DrainTimesOut
  have "stdio_ok cfg (stop_writing read (shutdown_tasks cfg y))" if "io_phase y = DrainingTasks read" for read
    using that by (intro stop_writing_ok [OF shutdown_ok(1) [OF ok]]) simp_all
  with DrainTimesOut ok show ?thesis by (auto split: stdio_phase.split)
qed (use ok line_read_ok [OF ok] end_of_input_ok [OF ok] task_begins_ok [OF ok keeps handler]
      task_turns_ok [OF ok keeps handler] task_panics_ok [OF ok keeps] writer_turn_ok [OF ok] writer_panic_ok [OF ok]
      writer_gone_ok [OF ok] stop_writing_ok [OF ok] writer_joined_ok [OF ok] host_moves_ok [OF ok] in
    \<open>auto split: stdio_phase.split stdout_writer.split simp del: server_step.simps\<close>)

lemma stdio_start_ok: "stdio_ok cfg (stdio_start cfg now w)"
  using system_start_ok
  by (simp add: stdio_ok_def stdio_start_def system_sound_def queue_ok_def channel_ok_def io_out_def io_open_def
      io_clients_def system_start_def open_connection_def tasks_ok_def running_ok_def settled_ok_def phase_ok_def)

definition stdio_inv :: "('f, 's, 'a) stdio_config \<Rightarrow> ('s, 'a) stdio \<Rightarrow> bool" where
  "stdio_inv cfg y \<longleftrightarrow> keeps_connection cfg \<and> handler_answers (ic_server cfg) \<and> stdio_ok cfg y"

interpretation stdio: machine "stdio_step cfg" "stdio_inv cfg" for cfg :: "('f, 's, 'a) stdio_config"
  by unfold_locales (simp add: stdio_inv_def stdio_step_ok)

lemma stdio_reachable:
  assumes "keeps_connection cfg" "handler_answers (ic_server cfg)" and "y = run (stdio_step cfg) (stdio_start cfg now w) es"
  shows "stdio_ok cfg y"
  using stdio.run_inv [of cfg "stdio_start cfg now w" es] stdio_start_ok [of cfg now w] assms
  unfolding stdio_inv_def by blast

lemma stdio_inv_reachable:
  assumes "keeps_connection cfg" "handler_answers (ic_server cfg)" and "y = run (stdio_step cfg) (stdio_start cfg now w) es"
  shows "stdio_inv cfg y"
  using stdio_reachable [OF assms] assms(1,2) by (simp add: stdio_inv_def)

subsection \<open>Nothing happens on a connection that returned\<close>

definition connection_over :: "('f, 's, 'a) stdio_config \<Rightarrow> ('s, 'a) stdio \<Rightarrow> (transport_error, unit) result \<times> rpc_message list \<times> rpc_message list \<Rightarrow> bool" where
  "connection_over cfg y x \<longleftrightarrow> io_phase y = Returned (fst x) \<and> io_lines y = fst (snd x) \<and> io_out cfg y = snd (snd x)"

lemma returned_step:
  assumes inv: "stdio_inv cfg y" and over: "connection_over cfg y x"
  shows "connection_over cfg (stdio_step cfg y e) x"
proof -
  note parts = stdio_parts [of cfg y]
  have ok: "stdio_ok cfg y" using inv by (simp add: stdio_inv_def)
  have phase: "io_phase y = Returned (fst x)" using over by (simp add: connection_over_def)
  with parts [OF ok] obtain written where idle: "io_tasks y = []" "io_writer y = Wrote written"
    by (auto simp: phase_ok_def)
  with parts [OF ok] have closed: "\<not> io_open cfg y" by (auto simp: queue_ok_def channel_ok_def)
  show ?thesis
  proof (cases e)
    case (HostMoves v)
    show ?thesis
    proof (cases "host_extends cfg (io_clients y) (hw_clients v)")
      case True
      with closed have "cw_out (hw_clients v) (ic_queue cfg) = io_out cfg y"
        by (auto simp: host_extends_def Let_def io_out_def io_open_def prefix_def)
      with HostMoves True over show ?thesis by (simp add: connection_over_def io_out_def)
    qed (use HostMoves over in simp)
  qed (use over phase idle in \<open>auto simp: task_begins_def task_turns_def task_panics_def writer_turn_def writer_panic_def\<close>)
qed

interpretation stdio_ends: settling_machine "stdio_step cfg" "stdio_inv cfg" "connection_over cfg"
  for cfg :: "('f, 's, 'a) stdio_config"
  by unfold_locales (rule returned_step)

text \<open>
  C35: Stdout carries what was sent, in order and nothing else. Whatever order lines, tasks, the writer and
  the host take their turns in, the lines on stdout are a prefix of the messages sent on the connection;
  and when the transport returns without an error, they are all of them, among them, in the order
  they were given, exactly the refusals and answers of what was read. Once it returned, nothing
  that happens later is written or sent.
\<close>

theorem stdout_carries_what_was_sent:
  assumes "keeps_connection cfg" and "handler_answers (ic_server cfg)"
    and "y = run (stdio_step cfg) (stdio_start cfg now w) es"
  shows "prefix (io_lines y) (io_out cfg y)
    \<and> (io_phase y = Returned (Inr ()) \<longrightarrow>
         io_lines y = io_out cfg y \<and> responses_of (io_lines y) = map snd (io_answers y))
    \<and> (\<forall>r. io_phase y = Returned r \<longrightarrow>
         (let later = run (stdio_step cfg) y rest in
          io_phase later = Returned r \<and> io_lines later = io_lines y \<and> io_out cfg later = io_out cfg y))"
proof (intro conjI allI impI)
  note parts = stdio_parts [OF stdio_reachable [OF assms]]
  show "prefix (io_lines y) (io_out cfg y)"
    using parts by (simp add: queue_ok_def channel_ok_def)
  show "io_lines y = io_out cfg y" "responses_of (io_lines y) = map snd (io_answers y)" if "io_phase y = Returned (Inr ())"
    using parts that by (auto simp: phase_ok_def queue_ok_def channel_ok_def)
  show "let later = run (stdio_step cfg) y rest in
      io_phase later = Returned r \<and> io_lines later = io_lines y \<and> io_out cfg later = io_out cfg y"
    if "io_phase y = Returned r" for r
    using stdio_ends.run_settled [OF stdio_inv_reachable [OF assms], of "(r, io_lines y, io_out cfg y)" rest] that
    by (simp add: connection_over_def Let_def)
qed

subsection \<open>Every request read is settled\<close>

definition cut_short :: "('s, 'a) stdio \<Rightarrow> bool" where
  "cut_short y \<longleftrightarrow> (\<exists>n. (n, CutOff) \<in> set (io_settled y)) \<and> \<not> (\<exists>e. io_phase y = Returned (Inl e))"

lemma settle_uncut:
  "outcome \<noteq> CutOff \<Longrightarrow> cut_short (settle cfg n outcome (y\<lparr>io_system := sys\<rparr>)) \<Longrightarrow> cut_short y"
  by (auto simp: cut_short_def settle_fields)

lemma outcome_not_cut: "without \<noteq> CutOff \<Longrightarrow> outcome_of without r \<noteq> CutOff"
  by (simp add: outcome_of_def split: option.split)

lemma step_uncut:
  assumes ok: "stdio_ok cfg y" and e: "e \<noteq> DrainTimesOut" and cut: "cut_short (stdio_step cfg y e)"
  shows "cut_short y"
proof (cases e)
  case (TaskBegins n clock token)
  with cut show ?thesis
    by (auto simp: task_begins_def Let_def cut_short_def settle_fields outcome_of_def simp del: server_step.simps
        split: option.splits stdio_task.splits dispatched.splits if_splits)
next
  case (TaskTurns n clock)
  with cut show ?thesis
    by (auto simp: task_turns_def cut_short_def settle_fields outcome_of_def simp del: server_step.simps
        split: option.splits stdio_task.splits)
next
  case (TaskPanics n)
  with cut show ?thesis
    by (auto simp: task_panics_def cut_short_def settle_fields simp del: server_step.simps
        split: option.splits stdio_task.splits)
next
  case WriterNoticed
  have "finish_writing written \<noteq> Inr ()" if "io_phase y = ReadingLines" "io_writer y = Wrote written" for written
    using stdio_parts [OF ok] that by (auto simp: phase_ok_def queue_ok_def channel_ok_def)
  moreover have "finish_writing written = Inr () \<or> (\<exists>e. finish_writing written = Inl e)" for written
    by (cases "finish_writing written") simp_all
  ultimately show ?thesis
    using cut WriterNoticed unfolding cut_short_def
    by (fastforce simp: writer_gone_def split: stdio_phase.splits stdout_writer.splits)
next
  case (LineRead line)
  with cut show ?thesis
    by (auto simp: cut_short_def line_read_def split: if_splits sum.splits rpc_message.splits)
next
  case (WriterTurns failure)
  with cut show ?thesis
    by (auto simp: cut_short_def writer_turn_def write_next_def split: if_splits stdout_writer.splits option.splits)
qed (use cut e in \<open>auto simp: cut_short_def end_of_input_def stop_writing_def writer_joined_def writer_panic_def
      split: if_splits stdio_phase.splits stdout_writer.splits sum.splits\<close>)

lemma run_uncut:
  "stdio_inv cfg y \<Longrightarrow> DrainTimesOut \<notin> set es \<Longrightarrow> cut_short (run (stdio_step cfg) y es) \<Longrightarrow> cut_short y"
proof (induction es arbitrary: y)
  case (Cons e es)
  have "stdio_inv cfg (stdio_step cfg y e)" by (rule stdio.step_inv [OF Cons.prems(1)])
  with Cons have "cut_short (stdio_step cfg y e)" by simp
  with Cons.prems step_uncut [of cfg y e] show ?case by (auto simp: stdio_inv_def)
qed simp

lemma settled_once:
  assumes "tasks_ok y" and "io_tasks y = []" and "n < length (io_read y)"
  shows "\<exists>!outcome. (n, outcome) \<in> set (io_settled y)"
proof -
  have dist: "distinct_keys (io_settled y)" and all: "set (map fst (io_settled y)) = {0..<length (io_read y)}"
    using assms(1,2) by (simp_all add: tasks_ok_def)
  from all assms(3) obtain outcome where "(n, outcome) \<in> set (io_settled y)" by force
  with dist show ?thesis by (metis map_of_SomeI option.inject)
qed

lemma replied_iff: "(n, r) \<in> set (replied xs) \<longleftrightarrow> (n, Replied r) \<in> set xs"
  by (induction xs rule: replied.induct) auto

lemma numbered_iff: "(n, r) \<in> set (numbered as) \<longleftrightarrow> (Some n, r) \<in> set as"
  by (induction as rule: numbered.induct) auto

lemma responses_of_iff: "r \<in> set (responses_of ms) \<longleftrightarrow> Response r \<in> set ms"
  by (induction ms rule: responses_of.induct) auto

text \<open>
  C34: Nothing read is forgotten. When the transport returns, every request it read has been settled
  in exactly one way. One that was replied to got a response to its own id, and on a return without
  an error that response is a line on stdout; only a notification is owed none; and a request is cut
  off only by a drain that ran out of time or a stdout that failed: an orderly end leaves none.
\<close>

theorem every_request_read_is_settled:
  assumes "keeps_connection cfg" and "handler_answers (ic_server cfg)"
    and "y = run (stdio_step cfg) (stdio_start cfg now w) es" and "io_phase y = Returned result"
  shows "\<forall>n < length (io_read y).
    (\<exists>!outcome. (n, outcome) \<in> set (io_settled y))
    \<and> (\<forall>r. (n, Replied r) \<in> set (io_settled y) \<longrightarrow>
         answer_to (rq_id (io_read y ! n)) r \<and> (result = Inr () \<longrightarrow> Response r \<in> set (io_lines y)))
    \<and> ((n, Silent) \<in> set (io_settled y) \<longrightarrow> rq_id (io_read y ! n) = None)
    \<and> (result = Inr () \<and> DrainTimesOut \<notin> set es \<longrightarrow> (n, CutOff) \<notin> set (io_settled y))"
proof (intro allI impI conjI)
  fix n assume n: "n < length (io_read y)"
  note parts = stdio_parts [OF stdio_reachable [OF assms(1-3)]]
  have idle: "io_tasks y = []" using parts assms(4) by (simp add: phase_ok_def)
  show "\<exists>!outcome. (n, outcome) \<in> set (io_settled y)"
    using parts idle n by (intro settled_once) simp_all
  show "rq_id (io_read y ! n) = None" if "(n, Silent) \<in> set (io_settled y)"
    using parts that by (simp add: settled_ok_def)
  fix r assume r: "(n, Replied r) \<in> set (io_settled y)"
  then have mem: "(n, r) \<in> set (replied (io_settled y))" by (simp add: replied_iff)
  with parts show "answer_to (rq_id (io_read y ! n)) r" by (auto simp: settled_ok_def)
  show "Response r \<in> set (io_lines y)" if "result = Inr ()"
  proof -
    have "(n, r) \<in> set (numbered (io_answers y))" using mem parts by (simp add: settled_ok_def)
    then have "(Some n, r) \<in> set (io_answers y)" by (simp add: numbered_iff)
    then have "r \<in> set (map snd (io_answers y))" by force
    moreover have "responses_of (io_lines y) = map snd (io_answers y)"
      using parts assms(4) that by (auto simp: phase_ok_def queue_ok_def channel_ok_def)
    ultimately show ?thesis by (metis responses_of_iff)
  qed
next
  fix n assume "result = Inr () \<and> DrainTimesOut \<notin> set es"
  moreover have "\<not> cut_short (stdio_start cfg now w)" by (simp add: cut_short_def stdio_start_def)
  moreover have "stdio_inv cfg (stdio_start cfg now w)"
    using assms(1,2) stdio_start_ok by (simp add: stdio_inv_def)
  ultimately have "\<not> cut_short y" using run_uncut [of cfg "stdio_start cfg now w" es] assms(3) by blast
  with assms(4) \<open>result = Inr () \<and> DrainTimesOut \<notin> set es\<close> show "(n, CutOff) \<notin> set (io_settled y)"
    by (auto simp: cut_short_def)
qed

subsection \<open>What the server behind it sees\<close>

lemma abandon_all_runs: "\<exists>ses. abandon_all cfg tasks sys = run (server_step (ic_libraries cfg) (ic_server cfg)) sys ses
    \<and> (\<forall>clock token request ctx. Arrives clock token request ctx \<notin> set ses)"
proof (induction cfg tasks sys rule: abandon_all.induct)
  case (1 cfg sys)
  show ?case by (rule exI [of _ "[]"]) simp
next
  case (2 cfg n s tasks sys)
  then obtain ses where "abandon_all cfg tasks (server_step (ic_libraries cfg) (ic_server cfg) sys (Abandoned s))
      = run (server_step (ic_libraries cfg) (ic_server cfg)) (server_step (ic_libraries cfg) (ic_server cfg) sys (Abandoned s)) ses"
    "\<forall>clock token request ctx. Arrives clock token request ctx \<notin> set ses" by blast
  then show ?case by (intro exI [of _ "Abandoned s # ses"]) (simp del: server_step.simps)
qed simp

text \<open>One step of the transport is some steps of the server, and brings it only requests read.\<close>

definition server_moves :: "('f, 's, 'a) stdio_config \<Rightarrow> ('s, 'a) stdio \<Rightarrow> ('s, 'a) stdio \<Rightarrow> bool" where
  "server_moves cfg y y' \<longleftrightarrow>
     (\<exists>ses. io_system y' = run (server_step (ic_libraries cfg) (ic_server cfg)) (io_system y) ses
        \<and> (\<forall>clock token request ctx. Arrives clock token request ctx \<in> set ses \<longrightarrow>
             ctx = stdio_context cfg \<and> (\<exists>n. (n, Spawned request) \<in> set (io_tasks y))))"

lemma moves_none: "io_system y' = io_system y \<Longrightarrow> server_moves cfg y y'"
  unfolding server_moves_def by (rule exI [of _ "[]"]) simp

lemma moves_clients: "io_system y' = io_system (on_clients f y) \<Longrightarrow> server_moves cfg y y'"
proof -
  assume same: "io_system y' = io_system (on_clients f y)"
  obtain v where "io_system (on_clients f y) = server_step (ic_libraries cfg) (ic_server cfg) (io_system y) (WorldMoves v)"
    using on_clients_moves by blast
  with same show ?thesis
    unfolding server_moves_def by (intro exI [of _ "[WorldMoves v]"]) (simp del: server_step.simps)
qed

lemma moves_step:
  "(\<And>clock token request ctx. e = Arrives clock token request ctx \<Longrightarrow>
      ctx = stdio_context cfg \<and> (\<exists>n. (n, Spawned request) \<in> set (io_tasks y))) \<Longrightarrow>
   io_system y' = server_step (ic_libraries cfg) (ic_server cfg) (io_system y) e \<Longrightarrow> server_moves cfg y y'"
  unfolding server_moves_def by (intro exI [of _ "[e]"]) (auto simp del: server_step.simps)

lemma moves_trans:
  assumes "server_moves cfg y y1" and "set (io_tasks y1) \<subseteq> set (io_tasks y)" and "server_moves cfg y1 y2"
  shows "server_moves cfg y y2"
proof -
  let ?step = "server_step (ic_libraries cfg) (ic_server cfg)"
  let ?known = "\<lambda>z ses. \<forall>clock token request ctx. Arrives clock token request ctx \<in> set ses \<longrightarrow>
    ctx = stdio_context cfg \<and> (\<exists>n. (n, Spawned request) \<in> set (io_tasks z))"
  obtain ses where ses: "io_system y1 = run ?step (io_system y) ses" "?known y ses"
    using assms(1) unfolding server_moves_def by blast
  obtain later where later: "io_system y2 = run ?step (io_system y1) later" "?known y1 later"
    using assms(3) unfolding server_moves_def by blast
  have "io_system y2 = run ?step (io_system y) (ses @ later)" using ses(1) later(1) by (simp add: run_append)
  moreover have "?known y (ses @ later)" unfolding set_append using ses(2) later(2) assms(2) by blast
  ultimately show ?thesis unfolding server_moves_def by blast
qed

lemma moves_shutdown: "server_moves cfg y (shutdown_tasks cfg y)"
  using abandon_all_runs [of cfg "io_tasks y" "io_system y"] unfolding server_moves_def by auto

lemma moves_settle:
  assumes "server_moves cfg y y1" and "set (io_tasks y1) \<subseteq> set (io_tasks y)"
  shows "server_moves cfg y (settle cfg n outcome y1)"
proof -
  have "server_moves cfg y1 (settle cfg n outcome y1)"
  proof (cases outcome)
    case (Replied r)
    then show ?thesis
      by (intro moves_clients [where f = "queue_send (ic_queue cfg) (Response r)"])
        (simp add: settle_def Let_def hand_over_response_def on_clients_def)
  qed (auto simp: settle_def intro: moves_none)
  with assms show ?thesis by (rule moves_trans)
qed

lemma task_begins_moves: "server_moves cfg y (task_begins cfg n clock token y)"
proof (cases "(\<exists>request. map_of (io_tasks y) n = Some (Spawned request)) \<and> token \<notin> set (sy_tokens (io_system y))")
  case True
  then obtain request where t: "map_of (io_tasks y) n = Some (Spawned request)" by blast
  let ?sys = "server_step (ic_libraries cfg) (ic_server cfg) (io_system y) (Arrives clock token request (stdio_context cfg))"
  have "\<exists>n. (n, Spawned request) \<in> set (io_tasks y)" using t by (blast dest: map_of_SomeD)
  then have moves: "server_moves cfg y (y\<lparr>io_system := ?sys\<rparr>)"
    "server_moves cfg y (y\<lparr>io_system := ?sys, io_tasks := ts\<rparr>)" for ts
    by (intro moves_step [where e = "Arrives clock token request (stdio_context cfg)"]; simp del: server_step.simps)+
  show ?thesis
    using True t moves moves_settle [OF moves(1)]
    by (simp add: task_begins_def Let_def del: server_step.simps split: dispatched.split)
next
  case False
  then have "task_begins cfg n clock token y = y"
    by (auto simp: task_begins_def Let_def simp del: server_step.simps split: option.split stdio_task.split)
  then show ?thesis by (simp add: moves_none)
qed

lemma stdio_step_moves: "server_moves cfg y (stdio_step cfg y e)"
proof (cases e)
  case (LineRead line)
  have "server_moves cfg y (hand_over_response cfg None r y)" for r
    by (rule moves_clients [where f = "queue_send (ic_queue cfg) (Response r)"])
      (simp add: hand_over_response_def on_clients_def Let_def)
  then have "server_moves cfg y (line_read cfg line y)"
    by (auto simp: line_read_def intro: moves_none moves_clients split: sum.split rpc_message.split)
  with LineRead show ?thesis by (simp add: moves_none)
next
  case (TaskTurns n clock)
  have "server_moves cfg y (y\<lparr>io_system := server_step (ic_libraries cfg) (ic_server cfg) (io_system y) (Turn clock s)\<rparr>)" for s
    by (rule moves_step [where e = "Turn clock s"]) (simp_all del: server_step.simps)
  from moves_settle [OF this] TaskTurns show ?thesis
    by (auto simp: task_turns_def intro: moves_none simp del: server_step.simps split: option.split stdio_task.split)
next
  case (TaskPanics n)
  have "server_moves cfg y (y\<lparr>io_system := server_step (ic_libraries cfg) (ic_server cfg) (io_system y) (Abandoned s)\<rparr>)" for s
    by (rule moves_step [where e = "Abandoned s"]) (simp_all del: server_step.simps)
  from moves_settle [OF this] TaskPanics show ?thesis
    by (auto simp: task_panics_def intro: moves_none simp del: server_step.simps split: option.split stdio_task.split)
next
  case (HostMoves v)
  have "server_moves cfg y (y\<lparr>io_system := server_step (ic_libraries cfg) (ic_server cfg) (io_system y) (WorldMoves v)\<rparr>)"
    by (rule moves_step [where e = "WorldMoves v"]) (simp_all del: server_step.simps)
  with HostMoves show ?thesis by (auto intro: moves_none simp del: server_step.simps)
next
  case InputEnds
  have "server_moves cfg y (end_of_input cfg read y)" for read
    by (rule moves_clients [where f = "close_pending (ic_pending cfg)"]) (simp add: end_of_input_def on_clients_def Let_def)
  with InputEnds show ?thesis by (simp add: moves_none)
next
  case (InputFails why)
  have "server_moves cfg y (end_of_input cfg read y)" for read
    by (rule moves_clients [where f = "close_pending (ic_pending cfg)"]) (simp add: end_of_input_def on_clients_def Let_def)
  with InputFails show ?thesis by (simp add: moves_none)
next
  case (WriterTurns failure)
  have "server_moves cfg y (writer_turn cfg failure y)"
    by (auto simp: writer_turn_def write_next_def on_clients_def Let_def intro: moves_none
        moves_clients [where f = "queue_close (ic_queue cfg)"] split: stdout_writer.split option.split)
  with WriterTurns show ?thesis by simp
next
  case (WriterPanics why)
  have "server_moves cfg y (writer_panic cfg why y)"
    by (auto simp: writer_panic_def on_clients_def Let_def intro: moves_none
        moves_clients [where f = "queue_close (ic_queue cfg)"] split: stdout_writer.split)
  with WriterPanics show ?thesis by simp
next
  case WriterNoticed
  have "server_moves cfg y (writer_gone cfg written y)" for written
  proof -
    let ?y1 = "on_clients (close_pending (ic_pending cfg)) y" and ?fire = "fire_token (ic_closed cfg)"
    have close: "server_moves cfg y ?y1" by (rule moves_clients) simp
    have fire: "server_moves cfg ?y1 (on_clients ?fire ?y1)" by (rule moves_clients) simp
    have "server_moves cfg y (on_clients ?fire ?y1)" by (rule moves_trans [OF close _ fire]) simp
    from moves_trans [OF this _ moves_shutdown] have "server_moves cfg y (shutdown_tasks cfg (on_clients ?fire ?y1))" by simp
    then show ?thesis by (simp add: server_moves_def writer_gone_def)
  qed
  with WriterNoticed show ?thesis by (auto intro: moves_none split: stdio_phase.split stdout_writer.split)
next
  case DrainTimesOut
  have "server_moves cfg y (stop_writing read (shutdown_tasks cfg y))" for read
    using moves_shutdown [of cfg y] by (simp add: server_moves_def stop_writing_def)
  with DrainTimesOut show ?thesis by (auto intro: moves_none split: stdio_phase.split)
next
  case WriterJoined
  have "server_moves cfg y (writer_joined cfg read written y)" for read written
    by (rule moves_clients [where f = "fire_token (ic_closed cfg)"]) (simp add: writer_joined_def on_clients_def Let_def)
  with WriterJoined show ?thesis by (auto intro: moves_none split: stdio_phase.split stdout_writer.split)
qed (auto simp: task_begins_moves stop_writing_def intro: moves_none split: stdio_phase.split)

lemma settle_spawned:
  "(m, t) \<in> set (io_tasks (settle cfg n outcome y)) \<Longrightarrow> (m, t) \<in> set (io_tasks y)"
  by (auto simp: settle_fields set_delete)

lemma update_spawned:
  "(m, Spawned r) \<in> set (AList.update n (InFlight s) ts) \<Longrightarrow> (m, Spawned r) \<in> set ts"
  by (induction ts) (auto split: if_splits)

lemma step_spawned:
  assumes "(m, Spawned r) \<in> set (io_tasks (stdio_step cfg y e))"
  shows "(m, Spawned r) \<in> set (io_tasks y)
    \<or> (\<exists>line. e = LineRead line \<and> parse_message (lib_read_json (ic_libraries cfg)) line = Inr (Request r))"
proof (cases e)
  case (LineRead line)
  with assms show ?thesis
    by (auto simp: line_read_def split: if_splits sum.splits rpc_message.splits)
next
  case (TaskBegins n clock token)
  with assms show ?thesis
    by (auto simp: task_begins_def Let_def simp del: server_step.simps dest!: settle_spawned dest: update_spawned
        split: option.splits stdio_task.splits dispatched.splits if_splits)
next
  case (TaskTurns n clock)
  with assms show ?thesis
    by (auto simp: task_turns_def simp del: server_step.simps dest!: settle_spawned split: option.splits stdio_task.splits)
next
  case (TaskPanics n)
  with assms show ?thesis
    by (auto simp: task_panics_def simp del: server_step.simps dest!: settle_spawned split: option.splits stdio_task.splits)
qed (use assms in \<open>auto simp: end_of_input_def stop_writing_def writer_joined_def writer_panic_def writer_gone_def
      writer_turn_def write_next_def simp del: server_step.simps
      split: if_splits stdio_phase.splits stdout_writer.splits option.splits\<close>)

lemma run_snoc: "run step s (es @ [e]) = step (run step s es) e"
  by (simp add: run_append)

lemma spawned_was_read:
  "(m, Spawned r) \<in> set (io_tasks (run (stdio_step cfg) (stdio_start cfg now w) es)) \<Longrightarrow>
   \<exists>line. LineRead line \<in> set es \<and> parse_message (lib_read_json (ic_libraries cfg)) line = Inr (Request r)"
proof (induction es rule: rev_induct)
  case (snoc e es)
  from step_spawned [OF snoc.prems [unfolded run_snoc]] snoc.IH show ?case by auto
qed (simp add: stdio_start_def)

lemma stdio_context_is_anonymous:
  "ctx = stdio_context cfg \<Longrightarrow>
     tx_user_id ctx = None \<and> tx_tenant_id ctx = None \<and> \<not> tx_is_admin ctx \<and> tx_scopes ctx = []
     \<and> ch_connection (tx_client ctx) = Some (stdio_connection cfg)"
  by (simp add: stdio_context_def tool_context_default_def connected_def)

text \<open>
  C33: The stdio transport is the server, fed what it reads. Over every order of events what the server
  behind the connection goes through is a run of the server of its own: every step of the transport
  is steps of it. The only messages that ever arrive there are requests parsed from lines read on
  stdin, and each runs as the one anonymous caller of the connection, without a user, a tenant, a
  scope or administrator rights, whatever the message says.
\<close>

theorem stdio_serves_what_it_reads:
  "\<exists>ses. io_system (run (stdio_step cfg) (stdio_start cfg now w) es) =
      run (server_step (ic_libraries cfg) (ic_server cfg))
        (system_start (w\<lparr>hw_clients := open_connection cfg now (hw_clients w)\<rparr>)) ses
    \<and> (\<forall>clock token request ctx. Arrives clock token request ctx \<in> set ses \<longrightarrow>
         ctx = stdio_context cfg
         \<and> tx_user_id ctx = None \<and> tx_tenant_id ctx = None \<and> \<not> tx_is_admin ctx \<and> tx_scopes ctx = []
         \<and> ch_connection (tx_client ctx) = Some (stdio_connection cfg)
         \<and> (\<exists>line. LineRead line \<in> set es
              \<and> parse_message (lib_read_json (ic_libraries cfg)) line = Inr (Request request)))"
proof (induction es rule: rev_induct)
  case Nil
  show ?case by (rule exI [of _ "[]"]) (simp add: stdio_start_def)
next
  case (snoc e es)
  let ?y = "run (stdio_step cfg) (stdio_start cfg now w) es"
  let ?step = "server_step (ic_libraries cfg) (ic_server cfg)"
  let ?start = "system_start (w\<lparr>hw_clients := open_connection cfg now (hw_clients w)\<rparr>)"
  obtain ses where ses: "io_system ?y = run ?step ?start ses"
    "\<And>clock token request ctx. Arrives clock token request ctx \<in> set ses \<Longrightarrow> ctx = stdio_context cfg
       \<and> (\<exists>line. LineRead line \<in> set es \<and> parse_message (lib_read_json (ic_libraries cfg)) line = Inr (Request request))"
    using snoc.IH by blast
  obtain later where later: "io_system (stdio_step cfg ?y e) = run ?step (io_system ?y) later"
    "\<And>clock token request ctx. Arrives clock token request ctx \<in> set later \<Longrightarrow>
       ctx = stdio_context cfg \<and> (\<exists>n. (n, Spawned request) \<in> set (io_tasks ?y))"
    using stdio_step_moves [of cfg ?y e] unfolding server_moves_def by blast
  have run: "io_system (run (stdio_step cfg) (stdio_start cfg now w) (es @ [e])) = run ?step ?start (ses @ later)"
    using ses(1) later(1) by (simp add: run_append)
  have arrivals: "ctx = stdio_context cfg \<and> (\<exists>line. LineRead line \<in> set (es @ [e])
      \<and> parse_message (lib_read_json (ic_libraries cfg)) line = Inr (Request request))"
    if "Arrives clock token request ctx \<in> set (ses @ later)" for clock token request ctx
  proof (cases "Arrives clock token request ctx \<in> set ses")
    case True
    from ses(2) [OF this] show ?thesis by auto
  next
    case False
    with that have "Arrives clock token request ctx \<in> set later" by simp
    from later(2) [OF this] spawned_was_read show ?thesis by fastforce
  qed
  show ?case using run arrivals stdio_context_is_anonymous by (intro exI [of _ "ses @ later"]) blast
qed

subsection \<open>The end\<close>

lemma idle_registry:
  assumes "system_ok L sys" and "sy_running sys = []" and "sy_count sys < 2 ^ 64"
  shows "fl_entries (ss_in_flight (sy_state sys)) = []"
proof (rule ccontr)
  assume "fl_entries (ss_in_flight (sy_state sys)) \<noteq> []"
  then obtain k v rest where "fl_entries (ss_in_flight (sy_state sys)) = (k, v) # rest"
    by (metis list.exhaust surj_pair)
  moreover have "map_of (fl_entries (ss_in_flight (sy_state sys))) k = None"
    using assms by (simp add: system_ok_def flights_ok_def flights_of_def guards_of_def)
  ultimately show False by simp
qed

lemma abandon_all_count: "sy_count (abandon_all cfg tasks sys) = sy_count sys"
  by (induction cfg tasks sys rule: abandon_all.induct) simp_all

lemma on_clients_count [simp]: "sy_count (io_system (on_clients f y)) = sy_count (io_system y)"
  by (simp add: on_clients_def Let_def)

lemma settle_count: "sy_count (io_system (settle cfg n outcome y)) = sy_count (io_system y)"
  by (simp add: settle_def Let_def hand_over_response_def split: settled_as.split)

lemma stdio_step_count: "sy_count (io_system (stdio_step cfg y e)) \<le> Suc (sy_count (io_system y))"
proof (cases e)
  case (TaskBegins n clock token)
  then show ?thesis
    by (auto simp: task_begins_def Let_def settle_count split: option.split stdio_task.split dispatched.split prod.split)
next
  case (TaskTurns n clock)
  then show ?thesis by (simp add: task_turns_def settle_count split: option.split stdio_task.split)
next
  case (TaskPanics n)
  then show ?thesis by (simp add: task_panics_def settle_count split: option.split stdio_task.split)
next
  case (LineRead line)
  then show ?thesis by (auto simp: line_read_def hand_over_response_def split: sum.split rpc_message.split)
qed (auto simp: end_of_input_def stop_writing_def writer_joined_def writer_panic_def writer_gone_def
      writer_turn_def write_next_def abandon_all_count shutdown_tasks_def
      split: if_splits stdio_phase.split stdout_writer.split option.split)

lemma stdio_count: "sy_count (io_system (run (stdio_step cfg) (stdio_start cfg now w) es)) \<le> length es"
proof (induction es rule: rev_induct)
  case (snoc e es)
  with stdio_step_count [of cfg "run (stdio_step cfg) (stdio_start cfg now w) es" e] show ?case
    by (simp add: run_snoc)
qed (simp add: stdio_start_def system_start_def)

text \<open>
  Nothing outlives the connection. However the transport returned, no request is running any more and
  none is registered, no server request waits for an answer, the queue takes nothing, and the
  connection's token has fired, so whatever a tool left behind sees the end.
\<close>

theorem nothing_outlives_the_connection:
  assumes "keeps_connection cfg" and "handler_answers (ic_server cfg)"
    and "y = run (stdio_step cfg) (stdio_start cfg now w) es" and "io_phase y = Returned result"
    and "length es < 2 ^ 64"
  shows "sy_running (io_system y) = [] \<and> fl_entries (ss_in_flight (sy_state (io_system y))) = []
    \<and> cw_pending (io_clients y) (ic_pending cfg) = None \<and> \<not> io_open cfg y
    \<and> ic_closed cfg \<in> set (cw_fired (io_clients y))"
proof -
  note parts = stdio_parts [OF stdio_reachable [OF assms(1-3)]]
  have over: "io_tasks y = []" "cw_pending (io_clients y) (ic_pending cfg) = None"
    "ic_closed cfg \<in> set (cw_fired (io_clients y))" "\<exists>written. io_writer y = Wrote written"
    using parts assms(4) by (auto simp: phase_ok_def)
  have idle: "sy_running (io_system y) = []"
    using parts over(1) by (simp add: running_ok_def)
  moreover have "sy_count (io_system y) < 2 ^ 64"
    using stdio_count [of cfg now w es] assms(3,5) by simp
  then have "fl_entries (ss_in_flight (sy_state (io_system y))) = []"
    using parts idle by (intro idle_registry [of "ic_libraries cfg"]) (simp_all add: system_sound_def)
  moreover have "\<not> io_open cfg y"
    using parts over(4) by (auto simp: queue_ok_def channel_ok_def)
  ultimately show ?thesis using over by blast
qed

text \<open>What the writer still has to do once it was told to stop.\<close>

definition writer_left :: "('f, 's, 'a) stdio_config \<Rightarrow> ('s, 'a) stdio \<Rightarrow> nat" where
  "writer_left cfg y =
     (case io_writer y of
        Writing \<Rightarrow> length (io_out cfg y) - io_taken y + 2
      | Flushing \<Rightarrow> length (io_out cfg y) - io_taken y + 1
      | Wrote _ \<Rightarrow> 0)"

lemma stopped_turn:
  assumes "io_stop y"
  shows "io_stop (writer_turn cfg f y) \<and> io_phase (writer_turn cfg f y) = io_phase y
    \<and> (writer_left cfg y > 0 \<longrightarrow> writer_left cfg (writer_turn cfg f y) < writer_left cfg y)
    \<and> (writer_left cfg y = 0 \<longrightarrow> writer_turn cfg f y = y)"
  using assms
  by (auto simp: writer_turn_def write_next_def writer_left_def io_out_def split: stdout_writer.split option.split)

lemma stopped_turns:
  "io_stop y \<Longrightarrow> writer_left cfg y \<le> length fs \<Longrightarrow>
   io_phase (run (stdio_step cfg) y (map WriterTurns fs)) = io_phase y
   \<and> writer_left cfg (run (stdio_step cfg) y (map WriterTurns fs)) = 0"
proof (induction fs arbitrary: y)
  case (Cons f fs)
  note turn = stopped_turn [OF Cons.prems(1), of cfg f]
  have "writer_left cfg (writer_turn cfg f y) \<le> length fs"
    using turn Cons.prems(2) by (cases "writer_left cfg y = 0") auto
  with Cons.IH [of "writer_turn cfg f y"] turn show ?case by simp
qed simp

lemma writer_left_0: "writer_left cfg y = 0 \<longleftrightarrow> (\<exists>written. io_writer y = Wrote written)"
  by (simp add: writer_left_def split: stdout_writer.split)


subsection \<open>A connection of a plain server\<close>

definition plain_server :: "(memory, nat) mcp_server" where
  "plain_server = mcp_server_new ''plain'' ''1'' registry_new None"

text \<open>Its libraries read one line: a ping.\<close>

definition ping_line :: string where "ping_line = ''ping''"

definition plain_libraries :: "nat libraries" where
  "plain_libraries = demo_libraries\<lparr>lib_read_json := (\<lambda>raw. if raw = ping_line then
     Inr (JObject [(''jsonrpc'', JString ''2.0''), (''method'', JString ''ping''), (''id'', u64_json 1)]) else Inl ''no'')\<rparr>"

definition plain_config :: "(nat, memory, nat) stdio_config" where
  "plain_config =
     \<lparr>ic_libraries = plain_libraries, ic_server = plain_server, ic_timeout = 9, ic_queue = 0, ic_pending = 0,
      ic_session = 0, ic_closed = 5, ic_caller = sample_key\<rparr>"

lemma plain_server_fields [simp]:
  "sr_tools plain_server = registry_new" "sr_tool_dispatcher plain_server = None"
  "sr_method_handler plain_server = None" "sr_task_manager plain_server = None" "sr_auth_hook plain_server = None"
  "sr_validation plain_server = None"
  by (simp_all add: plain_server_def mcp_server_new_def)

lemma on_session_extends [simp]: "host_extends cfg (hw_clients w) (hw_clients (on_session ctx f w))"
  by (simp add: on_session_def host_extends_def Let_def split: option.split)

lemma plain_unknown: "handle_unknown_method plain_server m rid ps ctx w = (w, method_not_found rid m)"
  by (simp add: handle_unknown_method_def)

lemma plain_list: "fst (handle_tools_list L plain_server rid ps ctx w) = w"
  by (simp add: handle_tools_list_def visible_tools_def)

lemma plain_call: "fst (handle_tools_call L plain_server rid ps ctx modern tasks headers w) = w"
proof -
  have schema: "fst (input_schema_of plain_server name ctx w) = w" for name ctx and w :: "(memory, nat) host_world"
    by (simp add: input_schema_of_def)
  have "fst (check_call_headers L plain_server call ctx modern headers w) = w" for call
    using schema by (auto simp: check_call_headers_def Let_def case_prod_unfold split: prod.split option.split sum.split)
  moreover have "fst (call_outcome_of plain_server name ctx' arguments w) = w" for name ctx' arguments
    by (simp add: call_outcome_of_def registry_execute_def registry_new_def)
  ultimately show ?thesis
    by (auto simp: handle_tools_call_def Let_def case_prod_unfold split: option.split sum.split)
qed

lemma plain_route: "host_extends cfg (hw_clients w) (hw_clients (fst (route L plain_server clock request ctx w)))"
proof -
  have level: "host_extends cfg (hw_clients w) (hw_clients (fst (handle_set_level rid ps ctx w)))" for rid ps ctx
    by (simp add: handle_set_level_def split: option.split)
  have initialize: "host_extends cfg (hw_clients w) (hw_clients (fst (handle_initialize plain_server rid ps ctx w)))" for rid ps ctx
    by (simp add: handle_initialize_def Let_def)
  have legacy: "host_extends cfg (hw_clients w) (hw_clients (fst (process_legacy L plain_server request ctx w)))" for request ctx
    using level initialize by (simp add: process_legacy_def Let_def plain_unknown plain_list plain_call)
  have "fst (modern_method L plain_server clock request ctx declares w) = w" for request ctx declares
    by (simp add: modern_method_def Let_def plain_unknown plain_list plain_call)
  then have modern: "fst (process_modern L plain_server clock request meta ctx w) = w" for request meta ctx
    by (simp add: process_modern_def Let_def case_prod_unfold)
  show ?thesis
    using legacy modern by (simp add: route_def Let_def split: modern_meta.split)
qed

lemma plain_keeps: "keeps_connection plain_config" "handler_answers (ic_server plain_config)"
  by (simp_all add: keeps_connection_def plain_config_def plain_route handler_answers_def)

definition ping_run :: "(memory, nat) stdio_event list" where
  "ping_run = [LineRead ping_line, TaskBegins 0 (0, 0, 0) 7, TaskTurns 0 (0, 0, 0), InputEnds, DrainEnds,
     WriterTurns None, WriterTurns None, WriterTurns None, WriterJoined]"

definition pinged :: "(memory, nat) stdio" where
  "pinged = run (stdio_step plain_config) (stdio_start plain_config 0 demo_world) ping_run"

definition ping_id :: json where "ping_id = u64_json 1"
definition ping :: rpc_request where "ping = request_with_id ''ping'' None ping_id"
definition pong :: rpc_response where "pong = response_success (Some ping_id) (JObject [])"

lemma ping_fields [simp]:
  "rq_jsonrpc ping = JSONRPC_VERSION" "rq_id ping = Some ping_id" "rq_method ping = ''ping''"
  by (simp_all add: ping_def request_with_id_def)

lemma plain_fields [simp]:
  "ic_libraries plain_config = plain_libraries" "ic_server plain_config = plain_server" "ic_queue plain_config = 0"
  "ic_pending plain_config = 0" "ic_closed plain_config = 5"
  by (simp_all add: plain_config_def)

lemma ping_parsed: "parse_message (lib_read_json plain_libraries) ping_line = Inr (Request ping)"
  by (simp add: plain_libraries_def ping_line_def parse_message_def) code_simp

lemma ping_line_trim: "trim ping_line \<noteq> []"
  by code_simp

lemma ping_routed: "route L plain_server clock ping ctx w = (w, pong)"
proof -
  have "request_era ping = MetaLegacy" by code_simp
  from route_legacy [OF this] show ?thesis
    by (simp add: process_legacy_def Let_def pong_def)
qed

definition ping_start :: "(memory, nat) stdio" where
  "ping_start = stdio_start plain_config 0 demo_world"

definition ping_registered :: "in_flight \<times> in_flight_guard" where
  "ping_registered = Cancellation.register (lib_id_text plain_libraries) (registry_context (stdio_context plain_config)) 7 ping_id in_flight_new"

definition ping_serving :: serving where
  "ping_serving =
     \<lparr>sg_request = ping, sg_ctx = with_cancellation 7 (stdio_context plain_config), sg_guard = snd ping_registered,
      sg_parent = 5\<rparr>"

lemma ping_guard: "g_token (snd ping_registered) = 7"
  by (simp add: ping_registered_def Cancellation.register_def Let_def split: option.split)

lemma ping_unfired: "fl_fired (fst ping_registered) = []"
  by (auto simp: ping_registered_def Cancellation.register_def Let_def in_flight_new_def split: option.split)

definition ping_begun :: "(memory, nat) stdio" where
  "ping_begun = ping_start
     \<lparr>io_system :=
        \<lparr>sy_state = \<lparr>ss_in_flight = fst ping_registered, ss_world = ss_world (sy_state (io_system ping_start))\<rparr>,
         sy_running = [ping_serving], sy_count = 1, sy_tokens = [7]\<rparr>,
      io_tasks := [(0, InFlight ping_serving)], io_read := [ping]\<rparr>"

lemma ping_begins:
  "stdio_step plain_config (stdio_step plain_config ping_start (LineRead ping_line)) (TaskBegins 0 (0, 0, 0) 7) = ping_begun"
proof -
  have closed: "tx_cancellation (stdio_context plain_config) = 5"
    by (simp add: stdio_context_def tool_context_default_def)
  have begin_eq: "dispatch_begin plain_libraries plain_server (0, 0, 0) 7 ping (stdio_context plain_config)
      \<lparr>ss_in_flight = in_flight_new, ss_world = w\<rparr> =
      (\<lparr>ss_in_flight = fst ping_registered, ss_world = w\<rparr>, Serving ping_serving)" for w
    unfolding dispatch_begin_def
    by (simp add: case_prod_unfold flip: ping_registered_def)
      (simp add: ping_serving_def closed ping_guard)
  show ?thesis
    by (simp add: ping_start_def stdio_start_def line_read_def ping_line_trim ping_parsed task_begins_def system_start_def
        begin_eq ping_begun_def)
qed

definition ping_answered :: "(memory, nat) stdio" where
  "ping_answered = stdio_step plain_config ping_begun (TaskTurns 0 (0, 0, 0))"

lemma ping_turn: "io_tasks ping_answered = []" "io_settled ping_answered = [(0, Replied pong)]"
  "io_answers ping_answered = [(Some 0, pong)]" "io_out plain_config ping_answered = [Response pong]"
  "io_phase ping_answered = ReadingLines" "io_stop ping_answered = False" "io_writer ping_answered = Writing"
  "io_taken ping_answered = 0" "io_lines ping_answered = []" "io_read ping_answered = [ping]"
proof -
  let ?w = "ss_world (sy_state (io_system ping_start))"
  have world: "cw_fired (hw_clients ?w) = []" "cw_out (hw_clients ?w) 0 = []" "cw_out_open (hw_clients ?w) 0"
    by (simp_all add: ping_start_def stdio_start_def system_start_def open_connection_def demo_world_def sample_client_def)
  have "\<not> is_cancelled ping_serving (sy_state (io_system ping_begun))"
    by (simp add: is_cancelled_def ping_begun_def ping_unfired world(1))
  then have polled: "dispatch_poll plain_libraries plain_server (0, 0, 0) ping_serving (sy_state (io_system ping_begun)) =
      ((sy_state (io_system ping_begun))\<lparr>ss_in_flight :=
          guard_drop (snd ping_registered) (ss_in_flight (sy_state (io_system ping_begun)))\<rparr>, Some pong)"
    by (simp add: dispatch_poll_def ping_serving_def ping_routed)
  have begun: "io_tasks ping_begun = [(0, InFlight ping_serving)]" "sy_running (io_system ping_begun) = [ping_serving]"
    "io_settled ping_begun = []" "io_answers ping_begun = []" "io_phase ping_begun = ReadingLines"
    "io_stop ping_begun = False" "io_writer ping_begun = Writing" "io_taken ping_begun = 0" "io_lines ping_begun = []"
    "io_read ping_begun = [ping]" "ss_world (sy_state (io_system ping_begun)) = ?w"
    by (simp_all add: ping_begun_def ping_start_def stdio_start_def)
  have turn: "ping_answered = settle plain_config 0 (Replied pong) (ping_begun\<lparr>io_system :=
      server_step plain_libraries plain_server (io_system ping_begun) (Turn (0, 0, 0) ping_serving)\<rparr>)"
    by (simp add: ping_answered_def task_turns_def begun polled outcome_of_def del: server_step.simps)
  show "io_tasks ping_answered = []" "io_settled ping_answered = [(0, Replied pong)]"
    "io_answers ping_answered = [(Some 0, pong)]" "io_out plain_config ping_answered = [Response pong]"
    "io_phase ping_answered = ReadingLines" "io_stop ping_answered = False" "io_writer ping_answered = Writing"
    "io_taken ping_answered = 0" "io_lines ping_answered = []" "io_read ping_answered = [ping]"
    by (simp_all add: turn settle_def Let_def io_out_def begun polled world del: server_step.simps)
      (simp add: begun polled world)
qed

definition ping_drained :: "(memory, nat) stdio" where
  "ping_drained = stdio_step plain_config ping_answered InputEnds"

lemma ping_drained_fields:
  "io_tasks ping_drained = []" "io_phase ping_drained = DrainingTasks (Inr ())" "io_writer ping_drained = Writing"
  "io_stop ping_drained = False" "io_taken ping_drained = 0" "io_lines ping_drained = []"
  "io_out plain_config ping_drained = [Response pong]" "io_read ping_drained = [ping]"
  "io_settled ping_drained = [(0, Replied pong)]"
  using ping_turn by (simp_all add: ping_drained_def end_of_input_def io_out_def)

lemma ping_closing:
  assumes "io_phase y = DrainingTasks (Inr ())" "io_tasks y = []" "io_writer y = Writing" "io_stop y = False"
    "io_taken y = 0" "io_lines y = []" "io_out plain_config y = [m]"
  shows "io_phase (run (stdio_step plain_config) y
      [DrainEnds, WriterTurns None, WriterTurns None, WriterTurns None, WriterJoined]) = Returned (Inr ())
    \<and> io_lines (run (stdio_step plain_config) y
      [DrainEnds, WriterTurns None, WriterTurns None, WriterTurns None, WriterJoined]) = [m]
    \<and> io_settled (run (stdio_step plain_config) y
      [DrainEnds, WriterTurns None, WriterTurns None, WriterTurns None, WriterJoined]) = io_settled y
    \<and> io_read (run (stdio_step plain_config) y
      [DrainEnds, WriterTurns None, WriterTurns None, WriterTurns None, WriterJoined]) = io_read y"
  using assms
  by (simp add: stop_writing_def writer_turn_def write_next_def writer_joined_def io_out_def)

lemma pinged_ends:
  "io_phase pinged = Returned (Inr ())" "io_lines pinged = [Response pong]" "io_read pinged = [ping]"
  "io_settled pinged = [(0, Replied pong)]"
proof -
  have "pinged = run (stdio_step plain_config) ping_drained
      [DrainEnds, WriterTurns None, WriterTurns None, WriterTurns None, WriterJoined]"
    using ping_begins
    by (simp add: pinged_def ping_run_def ping_drained_def ping_answered_def flip: ping_start_def del: stdio_step.simps)
  with ping_closing [of ping_drained "Response pong"] ping_drained_fields
  show "io_phase pinged = Returned (Inr ())" "io_lines pinged = [Response pong]" "io_read pinged = [ping]"
    "io_settled pinged = [(0, Replied pong)]" by metis+
qed

lemma stdout_carries_what_was_sent_witness:
  "io_phase pinged = Returned (Inr ()) \<and> io_out plain_config pinged = [Response pong]
   \<and> io_lines (run (stdio_step plain_config) pinged [LineRead ping_line]) = [Response pong]"
  using stdout_carries_what_was_sent [OF plain_keeps pinged_def, of "[LineRead ping_line]"] pinged_ends
  by (simp add: Let_def)

lemma every_request_read_is_settled_witness:
  "(\<exists>!outcome. (0, outcome) \<in> set (io_settled pinged)) \<and> answer_to (Some ping_id) pong \<and> Response pong \<in> set (io_lines pinged)"
  using every_request_read_is_settled [OF plain_keeps pinged_def pinged_ends(1)] pinged_ends by simp

lemma stdio_serves_what_it_reads_witness:
  "\<exists>ses. io_system pinged = run (server_step plain_libraries plain_server)
       (system_start (demo_world\<lparr>hw_clients := open_connection plain_config 0 (hw_clients demo_world)\<rparr>)) ses
     \<and> (\<forall>clock token request ctx. Arrives clock token request ctx \<in> set ses \<longrightarrow> request = ping \<and> \<not> tx_is_admin ctx)"
proof -
  have "parse_message (lib_read_json plain_libraries) line = Inr (Request request) \<Longrightarrow> LineRead line \<in> set ping_run \<Longrightarrow> request = ping"
    for line request
    using ping_parsed by (auto simp: ping_run_def)
  then show ?thesis
    using stdio_serves_what_it_reads [of plain_config 0 demo_world ping_run] unfolding pinged_def plain_fields by blast
qed

lemma nothing_outlives_the_connection_witness:
  "sy_running (io_system pinged) = [] \<and> (5 :: nat) \<in> set (cw_fired (io_clients pinged))"
proof -
  have "length ping_run < 2 ^ 64" by (simp add: ping_run_def)
  from nothing_outlives_the_connection [OF plain_keeps pinged_def pinged_ends(1) this] show ?thesis by simp
qed


end
