(* ===== verification/Observe.thy ===== *)
theory Observe
  imports Server_System Trace_Context
begin

declare map_of_eq_Some_iff [simp del] Some_eq_map_of_iff [simp del]

text \<open>
  The observation of dispatch (\<^verbatim>\<open>src/mcp/observe/mod.rs\<close>) and the observer that records it for
  OpenTelemetry (\<^verbatim>\<open>src/mcp/observe/otel.rs\<close>), over the server of \<open>Server_System\<close>.

  An observer is two functions on a state of its own. Every event carries the instant it happens at;
  an operation starts when its message arrives and ends when its dispatch answers or is dropped.
  \<open>ov_calls\<close> and \<open>ov_count\<close> record the calls of the observer for the theorems.
\<close>

definition TOOLS_CALL :: string where "TOOLS_CALL = ''tools/call''"
definition PROMPTS_GET :: string where "PROMPTS_GET = ''prompts/get''"
definition PROTOCOL_VERSION_METADATA :: string where "PROTOCOL_VERSION_METADATA = ''mcp-protocol-version''"
definition SESSION_ID_HEADER :: string where "SESSION_ID_HEADER = ''mcp-session-id''"
definition DEFAULT_MAX_PAYLOAD_BYTES :: nat where "DEFAULT_MAX_PAYLOAD_BYTES = 4096"

text \<open>The marker starts with the ellipsis character, three bytes.\<close>

definition TRUNCATION_MARKER :: string where
  "TRUNCATION_MARKER = [CHR 0xE2, CHR 0x80, CHR 0xA6] @ ''(truncated)''"

subsection \<open>Payloads\<close>

datatype payload_kind = Arguments | CallResult

record payload_site =
  ps_method :: string
  ps_target :: "string option"
  ps_kind :: payload_kind

datatype omission_reason = Redacted | LimitTooSmall | Unserializable
datatype captured_payload = CapturedJson string | Omitted omission_reason

fun captured_json :: "captured_payload \<Rightarrow> string option" where
  "captured_json (CapturedJson text) = Some text"
| "captured_json (Omitted _) = None"

record capture_policy =
  pc_request_arguments :: bool
  pc_response_content :: bool
  pc_max_bytes :: nat
  pc_redactor :: "(payload_site \<Rightarrow> json \<Rightarrow> json option) option"

definition capture_disabled :: capture_policy where
  "capture_disabled =
     \<lparr>pc_request_arguments = False, pc_response_content = False, pc_max_bytes = DEFAULT_MAX_PAYLOAD_BYTES,
      pc_redactor = None\<rparr>"

definition with_request_arguments :: "bool \<Rightarrow> capture_policy \<Rightarrow> capture_policy" where
  "with_request_arguments enabled policy = policy\<lparr>pc_request_arguments := enabled\<rparr>"

definition with_response_content :: "bool \<Rightarrow> capture_policy \<Rightarrow> capture_policy" where
  "with_response_content enabled policy = policy\<lparr>pc_response_content := enabled\<rparr>"

definition with_max_bytes :: "nat \<Rightarrow> capture_policy \<Rightarrow> capture_policy" where
  "with_max_bytes limit policy = policy\<lparr>pc_max_bytes := limit\<rparr>"

definition with_redactor :: "(payload_site \<Rightarrow> json \<Rightarrow> json option) \<Rightarrow> capture_policy \<Rightarrow> capture_policy" where
  "with_redactor redactor policy = policy\<lparr>pc_redactor := Some redactor\<rparr>"

definition captures_anything :: "capture_policy \<Rightarrow> bool" where
  "captures_anything policy \<longleftrightarrow> pc_request_arguments policy \<or> pc_response_content policy"

text \<open>\<^verbatim>\<open>str::floor_char_boundary\<close>: the last boundary at or before an index.\<close>

fun floor_char_boundary :: "string \<Rightarrow> nat \<Rightarrow> nat" where
  "floor_char_boundary s 0 = 0"
| "floor_char_boundary s (Suc n) =
     (if length s \<le> Suc n then length s
      else if char_boundary (Suc n) s then Suc n
      else floor_char_boundary s n)"

definition truncate_utf8 :: "nat \<Rightarrow> string \<Rightarrow> captured_payload" where
  "truncate_utf8 max_bytes text =
     (if length text \<le> max_bytes then CapturedJson text
      else if max_bytes < length TRUNCATION_MARKER then Omitted LimitTooSmall
      else CapturedJson
        (take (floor_char_boundary text (max_bytes - length TRUNCATION_MARKER)) text @ TRUNCATION_MARKER))"

text \<open>\<open>to_text\<close> is \<^verbatim>\<open>serde_json::to_string\<close>.\<close>

definition capture ::
  "(json \<Rightarrow> (string, string) result) \<Rightarrow> capture_policy \<Rightarrow> payload_site \<Rightarrow> json \<Rightarrow> captured_payload" where
  "capture to_text policy site payload =
     (let truncated = (\<lambda>kept. (case to_text kept of
                          Inl _ \<Rightarrow> Omitted Unserializable
                        | Inr text \<Rightarrow> truncate_utf8 (pc_max_bytes policy) text)) in
      case pc_redactor policy of
        None \<Rightarrow> truncated payload
      | Some redactor \<Rightarrow>
          (case redactor site payload of
             None \<Rightarrow> Omitted Redacted
           | Some kept \<Rightarrow> truncated kept))"

subsection \<open>What a message says about itself, and how it ended\<close>

record operation_info =
  oi_method :: string
  oi_request_id :: "json option"
  oi_target :: "string option"
  oi_protocol_version :: "string option"
  oi_session_id :: "string option"
  oi_trace_context :: "trace_context option"
  oi_arguments :: "captured_payload option"

definition is_protocol_version_shaped :: "string \<Rightarrow> bool" where
  "is_protocol_version_shaped version \<longleftrightarrow>
     length version = 10
     \<and> list_all (\<lambda>(i, b). if i = 4 \<or> i = 7 then b = CHR ''-'' else is_ascii_digit b) (enumerate 0 version)"

definition operation_target :: "rpc_request \<Rightarrow> string option" where
  "operation_target request =
     (if rq_method request = TOOLS_CALL \<or> rq_method request = PROMPTS_GET
      then Option.bind (param (rq_params request) ''name'') as_str else None)"

definition declared_version :: "rpc_request \<Rightarrow> string option" where
  "declared_version request =
     (case (case Option.bind (param (rq_params request) ''_meta'') (json_get META_PROTOCOL_VERSION) of
              None \<Rightarrow> None
            | Some v \<Rightarrow> as_str v) of
        Some v \<Rightarrow> Some v
      | None \<Rightarrow> map_of (rq_metadata request) PROTOCOL_VERSION_METADATA)"

definition operation_info_of ::
  "(json \<Rightarrow> (string, string) result) \<Rightarrow> capture_policy \<Rightarrow> rpc_request \<Rightarrow> operation_info" where
  "operation_info_of to_text policy request =
     \<lparr>oi_method = rq_method request, oi_request_id = rq_id request, oi_target = operation_target request,
      oi_protocol_version =
        (case declared_version request of
           None \<Rightarrow> None
         | Some v \<Rightarrow> if is_protocol_version_shaped v then Some v else None),
      oi_session_id =
        Option.bind (Option.bind (rq_headers request) (\<lambda>headers. map_of headers SESSION_ID_HEADER)) as_str,
      oi_trace_context = trace_from_meta (rq_params request),
      oi_arguments =
        (if pc_request_arguments policy \<and> rq_method request = TOOLS_CALL
         then Some (capture to_text policy
                \<lparr>ps_method = rq_method request, ps_target = operation_target request, ps_kind = Arguments\<rparr>
                (unwrap_or (param (rq_params request) ''arguments'') (JObject [])))
         else None)\<rparr>"

definition is_tool_call :: "operation_info \<Rightarrow> bool" where
  "is_tool_call info \<longleftrightarrow> oi_method info = TOOLS_CALL"

datatype operation_outcome =
    Completed "captured_payload option"
  | ToolError "captured_payload option"
  | TaskCreated
  | Failed int string
  | NotificationAccepted
  | Cancelled

definition outcome_of ::
  "(json \<Rightarrow> (string, string) result) \<Rightarrow> capture_policy \<Rightarrow> operation_info \<Rightarrow> rpc_response option
     \<Rightarrow> operation_outcome" where
  "outcome_of to_text policy info response =
     (case response of
        None \<Rightarrow> NotificationAccepted
      | Some r \<Rightarrow>
          (case rs_error r of
             Some e \<Rightarrow> Failed (e_code e) (e_message e)
           | None \<Rightarrow>
               if \<not> is_tool_call info then Completed None
               else if Option.bind (param (rs_result r) ''resultType'') as_str = Some ''task'' then TaskCreated
               else
                 (let captured =
                    (if pc_response_content policy
                     then Some (capture to_text policy
                            \<lparr>ps_method = oi_method info, ps_target = oi_target info, ps_kind = CallResult\<rparr>
                            (unwrap_or (rs_result r) JNull))
                     else None)
                  in if unwrap_or (Option.bind (param (rs_result r) ''isError'') as_bool) False
                     then ToolError captured else Completed captured)))"

subsection \<open>Observed dispatch\<close>

record ('o, 'span) observer =
  ob_start :: "operation_info \<Rightarrow> 'o \<Rightarrow> 'o \<times> 'span"
  ob_complete :: "operation_info \<Rightarrow> 'span \<Rightarrow> operation_outcome \<Rightarrow> nat \<Rightarrow> 'o \<Rightarrow> 'o"

record 'span pending_operation =
  po_number :: nat
  po_info :: operation_info
  po_span :: 'span
  po_started :: nat

datatype observer_call = OpStarted operation_info | OpEnded operation_outcome

record ('s, 'a, 'o, 'span) observed =
  ov_system :: "('s, 'a) server_system"
  ov_observer :: 'o
  ov_pending :: "(serving \<times> 'span pending_operation) list"
  ov_calls :: "(nat \<times> observer_call) list"
  ov_count :: nat

definition observe_start ::
  "('o, 'span) observer \<Rightarrow> operation_info \<Rightarrow> nat \<Rightarrow> ('s, 'a, 'o, 'span) observed
     \<Rightarrow> ('s, 'a, 'o, 'span) observed \<times> 'span pending_operation" where
  "observe_start obs info now y =
     (case ob_start obs info (ov_observer y) of
        (o', sp) \<Rightarrow>
          (y\<lparr>ov_observer := o', ov_calls := ov_calls y @ [(ov_count y, OpStarted info)],
             ov_count := Suc (ov_count y)\<rparr>,
           \<lparr>po_number = ov_count y, po_info = info, po_span = sp, po_started = now\<rparr>))"

definition observe_complete ::
  "('o, 'span) observer \<Rightarrow> nat \<Rightarrow> operation_outcome \<Rightarrow> 'span pending_operation
     \<Rightarrow> ('s, 'a, 'o, 'span) observed \<Rightarrow> ('s, 'a, 'o, 'span) observed" where
  "observe_complete obs now outcome p y =
     y\<lparr>ov_observer := ob_complete obs (po_info p) (po_span p) outcome (now - po_started p) (ov_observer y),
       ov_calls := ov_calls y @ [(po_number p, OpEnded outcome)]\<rparr>"

record ('f, 's, 'a, 'o, 'span) observation =
  on_libraries :: "'f libraries"
  on_server :: "('s, 'a) mcp_server"
  on_observer :: "('o, 'span) observer"
  on_policy :: capture_policy
  on_text :: "json \<Rightarrow> (string, string) result"

text \<open>A running operation answers or is dropped: dropped, it completes as cancelled.\<close>

definition observe_leave ::
  "('f, 's, 'a, 'o, 'span) observation \<Rightarrow> nat \<Rightarrow> serving \<Rightarrow> ('s, 'a) server_event
     \<Rightarrow> ('span pending_operation \<Rightarrow> operation_outcome) \<Rightarrow> ('s, 'a, 'o, 'span) observed
     \<Rightarrow> ('s, 'a, 'o, 'span) observed" where
  "observe_leave on now s event outcome y =
     (case map_of (ov_pending y) s of
        None \<Rightarrow> y
      | Some p \<Rightarrow>
          observe_complete (on_observer on) now (outcome p) p
            (y\<lparr>ov_system := server_step (on_libraries on) (on_server on) (ov_system y) event,
               ov_pending := filter (\<lambda>(s', _). s' \<noteq> s) (ov_pending y)\<rparr>))"

fun observed_step ::
  "('f, 's, 'a, 'o, 'span) observation \<Rightarrow> ('s, 'a, 'o, 'span) observed \<Rightarrow> nat \<times> ('s, 'a) server_event
     \<Rightarrow> ('s, 'a, 'o, 'span) observed" where
  "observed_step on y (now, Arrives clock token request ctx) =
     (let L = on_libraries on; srv = on_server on;
          sys = server_step L srv (ov_system y) (Arrives clock token request ctx);
          (y1, p) = observe_start (on_observer on) (operation_info_of (on_text on) (on_policy on) request) now y in
      case snd (dispatch_begin L srv clock token request ctx (sy_state (ov_system y))) of
        Finished response \<Rightarrow>
          observe_complete (on_observer on) now (outcome_of (on_text on) (on_policy on) (po_info p) response) p
            (y1\<lparr>ov_system := sys\<rparr>)
      | Serving s \<Rightarrow>
          if token \<in> set (sy_tokens (ov_system y)) then y
          else y1\<lparr>ov_system := sys, ov_pending := ov_pending y1 @ [(s, p)]\<rparr>)"
| "observed_step on y (now, Turn clock s) =
     observe_leave on now s (Turn clock s)
       (\<lambda>p. outcome_of (on_text on) (on_policy on) (po_info p)
              (snd (dispatch_poll (on_libraries on) (on_server on) clock s (sy_state (ov_system y))))) y"
| "observed_step on y (now, Abandoned s) = observe_leave on now s (Abandoned s) (\<lambda>_. Cancelled) y"
| "observed_step on y (now, WorldMoves w) =
     y\<lparr>ov_system := server_step (on_libraries on) (on_server on) (ov_system y) (WorldMoves w)\<rparr>"

definition observed_start :: "('s, 'a) host_world \<Rightarrow> 'o \<Rightarrow> ('s, 'a, 'o, 'span) observed" where
  "observed_start w observer =
     \<lparr>ov_system = system_start w, ov_observer = observer, ov_pending = [], ov_calls = [], ov_count = 0\<rparr>"

subsection \<open>The observer for OpenTelemetry\<close>

definition MCP_METHOD_NAME :: string where "MCP_METHOD_NAME = ''mcp.method.name''"
definition MCP_PROTOCOL_VERSION :: string where "MCP_PROTOCOL_VERSION = ''mcp.protocol.version''"
definition MCP_SESSION_ID :: string where "MCP_SESSION_ID = ''mcp.session.id''"
definition JSONRPC_PROTOCOL_VERSION :: string where "JSONRPC_PROTOCOL_VERSION = ''jsonrpc.protocol.version''"
definition JSONRPC_REQUEST_ID :: string where "JSONRPC_REQUEST_ID = ''jsonrpc.request.id''"
definition RPC_RESPONSE_STATUS_CODE :: string where "RPC_RESPONSE_STATUS_CODE = ''rpc.response.status_code''"
definition ERROR_TYPE :: string where "ERROR_TYPE = ''error.type''"
definition GEN_AI_TOOL_NAME :: string where "GEN_AI_TOOL_NAME = ''gen_ai.tool.name''"
definition GEN_AI_PROMPT_NAME :: string where "GEN_AI_PROMPT_NAME = ''gen_ai.prompt.name''"
definition GEN_AI_OPERATION_NAME :: string where "GEN_AI_OPERATION_NAME = ''gen_ai.operation.name''"
definition GEN_AI_TOOL_CALL_ARGUMENTS :: string where "GEN_AI_TOOL_CALL_ARGUMENTS = ''gen_ai.tool.call.arguments''"
definition GEN_AI_TOOL_CALL_RESULT :: string where "GEN_AI_TOOL_CALL_RESULT = ''gen_ai.tool.call.result''"
definition EXECUTE_TOOL :: string where "EXECUTE_TOOL = ''execute_tool''"
definition TOOL_ERROR :: string where "TOOL_ERROR = ''tool_error''"

lemmas semconv_defs = MCP_METHOD_NAME_def MCP_PROTOCOL_VERSION_def MCP_SESSION_ID_def JSONRPC_PROTOCOL_VERSION_def
  JSONRPC_REQUEST_ID_def RPC_RESPONSE_STATUS_CODE_def ERROR_TYPE_def GEN_AI_TOOL_NAME_def GEN_AI_PROMPT_NAME_def
  GEN_AI_OPERATION_NAME_def GEN_AI_TOOL_CALL_ARGUMENTS_def GEN_AI_TOOL_CALL_RESULT_def EXECUTE_TOOL_def TOOL_ERROR_def

text \<open>A span joins the trace of its message's metadata; without one it stays where it was opened.\<close>

record otel_span =
  sn_name :: string
  sn_parent :: "trace_context option"
  sn_attributes :: "(string \<times> string) list"
  sn_error :: "string option"

record otel_world =
  ow_spans :: "otel_span list"
  ow_durations :: "(nat \<times> (string \<times> string) list) list"

definition span_target :: "operation_info \<Rightarrow> string option" where
  "span_target info =
     (if oi_method info = TOOLS_CALL \<or> oi_method info = PROMPTS_GET then oi_target info else None)"

definition shared_attributes :: "operation_info \<Rightarrow> (string \<times> string) list" where
  "shared_attributes info =
     [(MCP_METHOD_NAME, oi_method info), (JSONRPC_PROTOCOL_VERSION, JSONRPC_VERSION)]
     @ (case span_target info of
          None \<Rightarrow> []
        | Some t \<Rightarrow>
            if is_tool_call info then [(GEN_AI_TOOL_NAME, t), (GEN_AI_OPERATION_NAME, EXECUTE_TOOL)]
            else [(GEN_AI_PROMPT_NAME, t)])
     @ (case oi_protocol_version info of None \<Rightarrow> [] | Some v \<Rightarrow> [(MCP_PROTOCOL_VERSION, v)])"

definition request_id_text :: "(json \<Rightarrow> string) \<Rightarrow> json \<Rightarrow> string" where
  "request_id_text id_string i = (case as_str i of Some s \<Rightarrow> s | None \<Rightarrow> id_string i)"

definition payload_attribute :: "string \<Rightarrow> captured_payload option \<Rightarrow> (string \<times> string) list" where
  "payload_attribute key payload =
     (case Option.bind payload captured_json of None \<Rightarrow> [] | Some text \<Rightarrow> [(key, text)])"

definition set_attributes :: "nat \<Rightarrow> (string \<times> string) list \<Rightarrow> string option \<Rightarrow> otel_world \<Rightarrow> otel_world" where
  "set_attributes n attributes failure w =
     (let s = ow_spans w ! n in
      w\<lparr>ow_spans := (ow_spans w)[n := s\<lparr>sn_attributes := sn_attributes s @ attributes,
                                       sn_error := (case failure of None \<Rightarrow> sn_error s | Some e \<Rightarrow> Some e)\<rparr>]\<rparr>)"

definition otel_start :: "(json \<Rightarrow> string) \<Rightarrow> operation_info \<Rightarrow> otel_world \<Rightarrow> otel_world \<times> nat" where
  "otel_start id_string info w =
     (w\<lparr>ow_spans := ow_spans w @
        [\<lparr>sn_name = (case span_target info of None \<Rightarrow> oi_method info | Some t \<Rightarrow> oi_method info @ '' '' @ t),
          sn_parent = oi_trace_context info,
          sn_attributes =
            shared_attributes info
            @ (case oi_request_id info of None \<Rightarrow> [] | Some i \<Rightarrow> [(JSONRPC_REQUEST_ID, request_id_text id_string i)])
            @ (case oi_session_id info of None \<Rightarrow> [] | Some s \<Rightarrow> [(MCP_SESSION_ID, s)])
            @ payload_attribute GEN_AI_TOOL_CALL_ARGUMENTS (oi_arguments info),
          sn_error = None\<rparr>]\<rparr>,
      length (ow_spans w))"

fun outcome_attributes :: "operation_outcome \<Rightarrow> (string \<times> string) list \<times> string option" where
  "outcome_attributes (Completed payload) = (payload_attribute GEN_AI_TOOL_CALL_RESULT payload, None)"
| "outcome_attributes (ToolError payload) =
     (payload_attribute GEN_AI_TOOL_CALL_RESULT payload @ [(ERROR_TYPE, TOOL_ERROR)],
      Some ''Tool call returned an error result'')"
| "outcome_attributes (Failed code message) =
     ([(RPC_RESPONSE_STATUS_CODE, int_text code), (ERROR_TYPE, int_text code)], Some message)"
| "outcome_attributes _ = ([], None)"

fun error_attributes :: "operation_outcome \<Rightarrow> (string \<times> string) list" where
  "error_attributes (ToolError _) = [(ERROR_TYPE, TOOL_ERROR)]"
| "error_attributes (Failed code _) = [(RPC_RESPONSE_STATUS_CODE, int_text code), (ERROR_TYPE, int_text code)]"
| "error_attributes _ = []"

definition otel_complete ::
  "operation_info \<Rightarrow> nat \<Rightarrow> operation_outcome \<Rightarrow> nat \<Rightarrow> otel_world \<Rightarrow> otel_world" where
  "otel_complete info sp outcome elapsed w =
     (case outcome_attributes outcome of
        (attributes, failure) \<Rightarrow>
          (set_attributes sp attributes failure w)
            \<lparr>ow_durations := ow_durations w @ [(elapsed, shared_attributes info @ error_attributes outcome)]\<rparr>)"

definition otel_observer :: "(json \<Rightarrow> string) \<Rightarrow> (otel_world, nat) observer" where
  "otel_observer id_string = \<lparr>ob_start = otel_start id_string, ob_complete = otel_complete\<rparr>"

subsection \<open>What is cut stays text\<close>

lemma floor_char_boundary_le: "n \<le> length s \<Longrightarrow> floor_char_boundary s n \<le> n"
  by (induction n) auto

lemma floor_char_boundary_is: "char_boundary (floor_char_boundary s n) s"
  by (induction n) (auto simp: char_boundary_def)

lemma utf8_step_boundary:
  assumes "utf8_step s = Some (cp, bs)" and "0 < n" and "n < length bs"
  shows "is_cont (byte (s ! n))"
  using assms by (cases rule: utf8_step_cases) (auto simp: less_Suc_eq numeral_eq_Suc)

lemma char_boundary_drop:
  "k \<le> n \<Longrightarrow> k \<le> length s \<Longrightarrow> char_boundary n s \<Longrightarrow> char_boundary (n - k) (drop k s)"
  by (auto simp: char_boundary_def)

lemma utf8_valid_append: "utf8_valid a \<Longrightarrow> utf8_valid b \<Longrightarrow> utf8_valid (a @ b)"
proof (induction a rule: utf8_valid.induct)
  case (2 c cs)
  obtain cp bs where step: "utf8_step (c # cs) = Some (cp, bs)" and rest: "utf8_valid (drop (length bs) (c # cs))"
    using "2.prems"(1) by (auto split: option.splits)
  have bs: "bs = take (length bs) (c # cs)" "length bs \<le> length (c # cs)" "1 \<le> length bs"
    using utf8_step_bytes [OF step] by blast+
  then have "(c # cs) @ b = bs @ drop (length bs) (c # cs) @ b" by (metis append.assoc append_take_drop_id)
  with utf8_step_own_bytes [OF step] have own: "utf8_step ((c # cs) @ b) = Some (cp, bs)" by metis
  have "utf8_valid (drop (length bs) (c # cs) @ b)" using "2.IH" step rest "2.prems"(2) by blast
  moreover have "drop (length bs) ((c # cs) @ b) = drop (length bs) (c # cs) @ b"
    using bs(2) by (simp only: drop_append) simp
  ultimately show ?case using own by simp
qed simp

lemma utf8_valid_take: "utf8_valid s \<Longrightarrow> char_boundary n s \<Longrightarrow> utf8_valid (take n s)"
proof (induction s arbitrary: n rule: utf8_valid.induct)
  case (2 c cs)
  obtain cp bs where step: "utf8_step (c # cs) = Some (cp, bs)" and rest: "utf8_valid (drop (length bs) (c # cs))"
    using "2.prems"(1) by (auto split: option.splits)
  have bs: "bs = take (length bs) (c # cs)" "length bs \<le> length (c # cs)" "1 \<le> length bs"
    using utf8_step_bytes [OF step] by blast+
  show ?case
  proof (cases "n = 0")
    case False
    have "length bs \<le> n"
    proof (rule ccontr)
      assume "\<not> length bs \<le> n"
      with False utf8_step_boundary [OF step, of n] have "is_cont (byte ((c # cs) ! n))" by simp
      with \<open>\<not> length bs \<le> n\<close> False "2.prems"(2) bs(2) show False by (auto simp: char_boundary_def)
    qed
    then have cut: "take n (c # cs) = bs @ take (n - length bs) (drop (length bs) (c # cs))"
      using bs(1) by (metis le_add_diff_inverse take_add)
    have "utf8_valid (take (n - length bs) (drop (length bs) (c # cs)))"
      using "2.IH" step rest char_boundary_drop [OF \<open>length bs \<le> n\<close> bs(2) "2.prems"(2)] by blast
    moreover have "utf8_valid bs"
      using utf8_step_own_bytes [OF step, of "[]"] bs(3) by (cases bs) simp_all
    ultimately show ?thesis unfolding cut by (rule utf8_valid_append [rotated])
  qed simp
qed simp

lemma TRUNCATION_MARKER_valid: "utf8_valid TRUNCATION_MARKER" "length TRUNCATION_MARKER = 14"
  by (code_simp, simp add: TRUNCATION_MARKER_def)

lemma truncate_utf8_cases:
  assumes "truncate_utf8 limit text = CapturedJson t"
  shows "length t \<le> limit \<and> (utf8_valid text \<longrightarrow> utf8_valid t)
    \<and> (t = text \<or> (\<exists>n. n < length text \<and> t = take n text @ TRUNCATION_MARKER))"
proof (cases "length text \<le> limit")
  case False
  let ?n = "floor_char_boundary text (limit - length TRUNCATION_MARKER)"
  have t: "t = take ?n text @ TRUNCATION_MARKER" and fits: "length TRUNCATION_MARKER \<le> limit"
    using assms False by (auto simp: truncate_utf8_def split: if_splits)
  have n: "?n \<le> limit - length TRUNCATION_MARKER"
    using False by (intro floor_char_boundary_le) simp
  have "length t \<le> ?n + length TRUNCATION_MARKER" using t by simp
  with n fits have "length t \<le> limit" by linarith
  moreover have "?n < length text" using n False by (simp add: TRUNCATION_MARKER_valid)
  moreover have "utf8_valid t" if "utf8_valid text"
    unfolding t using that by (intro utf8_valid_append utf8_valid_take floor_char_boundary_is TRUNCATION_MARKER_valid)
  ultimately show ?thesis using t by blast
qed (use assms in \<open>simp add: truncate_utf8_def\<close>)

subsection \<open>Payloads under the policy\<close>

text \<open>What an observer may be handed: a text within the limit, of what the redactor kept.\<close>

definition within_policy ::
  "(json \<Rightarrow> (string, string) result) \<Rightarrow> capture_policy \<Rightarrow> captured_payload \<Rightarrow> bool" where
  "within_policy to_text policy payload \<longleftrightarrow>
     (case payload of
        Omitted _ \<Rightarrow> True
      | CapturedJson t \<Rightarrow>
          length t \<le> pc_max_bytes policy
          \<and> (\<exists>kept full. to_text kept = Inr full \<and> (utf8_valid full \<longrightarrow> utf8_valid t)
               \<and> (t = full \<or> (\<exists>n. n < length full \<and> t = take n full @ TRUNCATION_MARKER))
               \<and> (\<forall>redactor. pc_redactor policy = Some redactor \<longrightarrow> (\<exists>site payload. redactor site payload = Some kept))))"

lemma capture_within: "within_policy to_text policy (capture to_text policy site payload)"
proof (cases "capture to_text policy site payload")
  case (CapturedJson t)
  then obtain kept full where "to_text kept = Inr full" and "truncate_utf8 (pc_max_bytes policy) full = CapturedJson t"
    and "\<forall>redactor. pc_redactor policy = Some redactor \<longrightarrow> redactor site payload = Some kept"
    by (auto simp: capture_def Let_def split: option.splits sum.splits)
  with truncate_utf8_cases [OF this(2)] show ?thesis
    unfolding CapturedJson within_policy_def captured_payload.case
    by (intro conjI exI [of _ kept] exI [of _ full]) blast+
qed (simp add: within_policy_def)

fun call_payload :: "observer_call \<Rightarrow> captured_payload option" where
  "call_payload (OpStarted info) = oi_arguments info"
| "call_payload (OpEnded (Completed payload)) = payload"
| "call_payload (OpEnded (ToolError payload)) = payload"
| "call_payload (OpEnded _) = None"

fun captured_by :: "capture_policy \<Rightarrow> observer_call \<Rightarrow> bool" where
  "captured_by policy (OpStarted _) = pc_request_arguments policy"
| "captured_by policy (OpEnded _) = pc_response_content policy"

definition call_ok :: "(json \<Rightarrow> (string, string) result) \<Rightarrow> capture_policy \<Rightarrow> observer_call \<Rightarrow> bool" where
  "call_ok to_text policy c \<longleftrightarrow>
     (\<forall>payload. call_payload c = Some payload \<longrightarrow> captured_by policy c \<and> within_policy to_text policy payload)"

lemma operation_info_ok: "call_ok to_text policy (OpStarted (operation_info_of to_text policy request))"
  by (auto simp: call_ok_def operation_info_of_def capture_within)

lemma outcome_ok: "call_ok to_text policy (OpEnded (outcome_of to_text policy info response))"
  by (auto simp: call_ok_def outcome_of_def Let_def capture_within split: option.splits)

lemma cancelled_ok: "call_ok to_text policy (OpEnded Cancelled)"
  by (simp add: call_ok_def)

subsection \<open>Every operation ends once\<close>

text \<open>The operations open after a list of calls, when every end closes one that is.\<close>

fun track :: "nat list \<Rightarrow> (nat \<times> observer_call) list \<Rightarrow> nat list option" where
  "track opened [] = Some opened"
| "track opened ((n, OpStarted _) # calls) = (if n \<in> set opened then None else track (opened @ [n]) calls)"
| "track opened ((n, OpEnded _) # calls) = (if n \<in> set opened then track (remove1 n opened) calls else None)"

fun is_start :: "observer_call \<Rightarrow> bool" where
  "is_start (OpStarted _) \<longleftrightarrow> True"
| "is_start (OpEnded _) \<longleftrightarrow> False"

definition started_numbers :: "(nat \<times> observer_call) list \<Rightarrow> nat list" where
  "started_numbers calls = map fst (filter (\<lambda>(_, c). is_start c) calls)"

lemma track_append: "track opened (cs @ ds) = Option.bind (track opened cs) (\<lambda>opened'. track opened' ds)"
  by (induction opened cs rule: track.induct) auto

lemma started_numbers_append [simp]:
  "started_numbers (cs @ ds) = started_numbers cs @ started_numbers ds"
  "started_numbers [(n, OpStarted info)] = [n]" "started_numbers [(n, OpEnded outcome)] = []"
  by (simp_all add: started_numbers_def)

lemma filter_key_remove1:
  assumes "distinct (map fst xs)" and "distinct (map (g \<circ> snd) xs)" and "(s, p) \<in> set xs"
  shows "map (g \<circ> snd) (filter (\<lambda>(s', _). s' \<noteq> s) xs) = remove1 (g p) (map (g \<circ> snd) xs)"
  using assms
proof (induction xs)
  case (Cons x xs)
  show ?case
  proof (cases "fst x = s")
    case True
    with Cons.prems have "x = (s, p)" by (cases x) (force simp: image_iff)
    moreover have "\<forall>y \<in> set xs. fst y \<noteq> s"
      using Cons.prems(1) True by (metis distinct.simps(2) image_eqI list.set_map list.simps(9))
    then have "filter (\<lambda>(s', _). s' \<noteq> s) xs = xs"
      by (auto simp: filter_id_conv)
    ultimately show ?thesis by (simp add: case_prod_unfold)
  next
    case False
    with Cons.prems have "(s, p) \<in> set xs" by auto
    moreover from this Cons.prems(2) have "g p \<noteq> g (snd x)" by (force simp: image_iff)
    ultimately show ?thesis using False Cons by (auto simp: case_prod_unfold)
  qed
qed simp

abbreviation numbers_of :: "(serving \<times> 'span pending_operation) list \<Rightarrow> nat list" where
  "numbers_of xs \<equiv> map (po_number \<circ> snd) xs"

definition observed_inv ::
  "('f, 's, 'a, 'o, 'span) observation \<Rightarrow> ('s, 'a, 'o, 'span) observed \<Rightarrow> bool" where
  "observed_inv on y \<longleftrightarrow>
     system_ok (on_libraries on) (ov_system y)
     \<and> map fst (ov_pending y) = sy_running (ov_system y)
     \<and> track [] (ov_calls y) = Some (numbers_of (ov_pending y))
     \<and> started_numbers (ov_calls y) = [0..<ov_count y]
     \<and> distinct (numbers_of (ov_pending y)) \<and> list_all (\<lambda>n. n < ov_count y) (numbers_of (ov_pending y))
     \<and> list_all (\<lambda>(_, c). call_ok (on_text on) (on_policy on) c) (ov_calls y)
     \<and> (\<forall>(s, p) \<in> set (ov_pending y).
          po_info p = operation_info_of (on_text on) (on_policy on) (sg_request s)
          \<and> (po_number p, OpStarted (po_info p)) \<in> set (ov_calls y))"

lemma system_ok_distinct: "system_ok L y \<Longrightarrow> distinct (sy_running y)"
  by (auto simp: system_ok_def distinct_map)

lemma observe_leave_ok:
  assumes inv: "observed_inv on y" and run: "s \<in> set (sy_running (ov_system y)) \<Longrightarrow>
      sy_running (server_step (on_libraries on) (on_server on) (ov_system y) e)
        = filter (\<lambda>s'. s' \<noteq> s) (sy_running (ov_system y))"
    and ends: "\<And>p. call_ok (on_text on) (on_policy on) (OpEnded (outcome p))"
  shows "observed_inv on (observe_leave on now s e outcome y)"
proof (cases "map_of (ov_pending y) s")
  case (Some p)
  let ?sys = "server_step (on_libraries on) (on_server on) (ov_system y) e"
  have mem: "(s, p) \<in> set (ov_pending y)" using Some by (rule map_of_SomeD)
  have keys: "map fst (ov_pending y) = sy_running (ov_system y)" "distinct (map fst (ov_pending y))"
    using inv system_ok_distinct by (auto simp: observed_inv_def)
  then have here: "s \<in> set (sy_running (ov_system y))" using mem by (metis fst_conv image_eqI list.set_map)
  have left: "map fst (filter (\<lambda>(s', _). s' \<noteq> s) (ov_pending y)) = sy_running ?sys"
    unfolding run [OF here] keys(1) [symmetric] by (simp add: filter_map comp_def case_prod_unfold)
  have nums: "numbers_of (filter (\<lambda>(s', _). s' \<noteq> s) (ov_pending y)) = remove1 (po_number p) (numbers_of (ov_pending y))"
    using keys(2) inv mem by (intro filter_key_remove1) (auto simp: observed_inv_def)
  have "po_number p \<in> set (numbers_of (ov_pending y))" using mem by force
  with inv left nums ends Some show ?thesis
    by (auto simp: observed_inv_def observe_leave_def observe_complete_def track_append server_step_ok list_all_iff
        dest: notin_set_remove1 set_remove1_subset [THEN subsetD])
qed (use inv in \<open>simp add: observe_leave_def\<close>)

lemma arrival_Finished:
  assumes "snd (dispatch_begin L srv clock token request ctx (sy_state y)) = Finished response"
  shows "sy_running (server_step L srv y (Arrives clock token request ctx)) = sy_running y"
  using assms by (auto split: prod.split dispatched.split)

lemma arrival_Serving:
  assumes "snd (dispatch_begin L srv clock token request ctx (sy_state y)) = Serving s"
  shows "sy_running (server_step L srv y (Arrives clock token request ctx))
      = (if token \<in> set (sy_tokens y) then sy_running y else sy_running y @ [s])"
  using assms by (auto split: prod.split dispatched.split)

lemma served_request:
  assumes "snd (dispatch_begin L srv clock token request ctx st) = Serving s"
  shows "sg_request s = request"
  using assms dispatch_begin_Serving [of L srv clock token request ctx st] by (metis prod.collapse)

lemma fresh_number: "list_all (\<lambda>n. n < k) ns \<Longrightarrow> k \<notin> set ns" for k :: nat
  by (auto simp: list_all_iff)

lemma list_all_Suc: "list_all (\<lambda>n. n < k) ns \<Longrightarrow> list_all (\<lambda>n. n < Suc k) ns" for k :: nat
  by (auto simp: list_all_iff)

lemma observed_step_inv: "observed_inv on y \<Longrightarrow> observed_inv on (observed_step on y e)"
proof -
  assume inv: "observed_inv on y"
  obtain now ev where e: "e = (now, ev)" by (cases e)
  let ?step = "server_step (on_libraries on) (on_server on) (ov_system y)"
  have ok: "system_ok (on_libraries on) (?step ev)"
    using inv by (auto simp: observed_inv_def intro: server_step_ok)
  show ?thesis
  proof (cases ev)
    case (Arrives clock token request ctx)
    obtain y1 p where start: "observe_start (on_observer on) (operation_info_of (on_text on) (on_policy on) request) now y = (y1, p)"
      by (meson surj_pair)
    note y1 = start [unfolded observe_start_def, simplified split_beta prod.inject]
    have fresh: "ov_count y \<notin> set (numbers_of (ov_pending y))"
      using inv by (intro fresh_number) (simp add: observed_inv_def)
    then have fresh_pair: "po_number b \<noteq> ov_count y" if "(a, b) \<in> set (ov_pending y)" for a b
      using that by force
    show ?thesis
    proof (cases "snd (dispatch_begin (on_libraries on) (on_server on) clock token request ctx (sy_state (ov_system y)))")
      case (Finished response)
      have "observed_step on y e = observe_complete (on_observer on) now
          (outcome_of (on_text on) (on_policy on) (po_info p) response) p (y1\<lparr>ov_system := ?step ev\<rparr>)"
        unfolding e Arrives observed_step.simps Let_def start Finished by simp
      then show ?thesis
        using inv y1 ok fresh arrival_Finished [OF Finished] Arrives
        by (auto simp: observed_inv_def observe_complete_def track_append remove1_append outcome_ok operation_info_ok
            intro: list_all_Suc dest: fresh_pair
              simp del: server_step.simps)
    next
      case (Serving s)
      have "observed_step on y e = (if token \<in> set (sy_tokens (ov_system y)) then y
          else y1\<lparr>ov_system := ?step ev, ov_pending := ov_pending y1 @ [(s, p)]\<rparr>)"
        unfolding e Arrives observed_step.simps Let_def start Serving by simp
      then show ?thesis
        using inv y1 ok fresh arrival_Serving [OF Serving] served_request [OF Serving] Arrives
        by (auto simp: observed_inv_def track_append operation_info_ok intro: list_all_Suc simp del: server_step.simps)
          (metis fresh_pair)
    qed
  next
    case (Turn clock s)
    then show ?thesis unfolding e
      using observe_leave_ok [OF inv, of s "Turn clock s"] by (simp add: outcome_ok)
  next
    case (Abandoned s)
    then show ?thesis unfolding e
      using observe_leave_ok [OF inv, of s "Abandoned s" "\<lambda>_. Cancelled"] by (simp add: cancelled_ok)
  next
    case (WorldMoves w)
    then show ?thesis unfolding e using inv ok by (simp add: observed_inv_def)
  qed
qed

interpretation observed: machine "observed_step on" "observed_inv on"
  for on :: "('f, 's, 'a, 'o, 'span) observation"
  by unfold_locales (rule observed_step_inv)

lemma observed_start_inv: "observed_inv on (observed_start w o0)"
  by (simp add: observed_inv_def observed_start_def system_start_ok started_numbers_def)
    (simp add: system_start_def)

lemmas observed_reachable = observed.run_inv [OF observed_start_inv]

text \<open>
  C31: Property: over every run, each completion an observer is told of ends an operation it was told
  of and that had not ended; operations are numbered as they start; and what has started and not
  ended is what the server is running, in order. So once nothing runs, every start has its one end.
\<close>

theorem every_operation_ends_once:
  fixes on :: "('f, 's, 'a, 'o, 'span) observation"
  defines "y w o0 es \<equiv> run (observed_step on) (observed_start w o0) es"
  shows "track [] (ov_calls (y w o0 es)) = Some (numbers_of (ov_pending (y w o0 es)))
    \<and> started_numbers (ov_calls (y w o0 es)) = [0..<ov_count (y w o0 es)]
    \<and> map fst (ov_pending (y w o0 es)) = sy_running (ov_system (y w o0 es))"
  using observed_reachable [of on w o0 es] by (simp add: y_def observed_inv_def)

lemma observed_step_passive:
  assumes "observed_inv on y"
  shows "ov_system (observed_step on y e) = server_step (on_libraries on) (on_server on) (ov_system y) (snd e)"
proof -
  obtain now ev where e: "e = (now, ev)" by (cases e)
  have leave: "ov_system (observe_leave on now s ev' outcome y)
      = server_step (on_libraries on) (on_server on) (ov_system y) ev'"
    if "s \<notin> set (sy_running (ov_system y)) \<Longrightarrow>
        server_step (on_libraries on) (on_server on) (ov_system y) ev' = ov_system y" for s ev' outcome
  proof (cases "map_of (ov_pending y) s")
    case None
    then have "s \<notin> set (map fst (ov_pending y))" by (simp add: map_of_eq_None_iff)
    with assms that None show ?thesis by (simp add: observed_inv_def observe_leave_def)
  qed (simp add: observe_leave_def observe_complete_def)
  show ?thesis
  proof (cases ev)
    case (Arrives clock token request ctx)
    then show ?thesis
      unfolding e
      by (auto simp: observe_start_def observe_complete_def Let_def split: dispatched.split prod.split)
  qed (simp_all add: e leave)
qed

lemma observation_changes_nothing_sys:
  "ov_system (run (observed_step on) (observed_start w o0) es)
     = run (server_step (on_libraries on) (on_server on)) (system_start w) (map snd es)"
proof -
  have "ov_system (run (observed_step on) y es)
      = run (server_step (on_libraries on) (on_server on)) (ov_system y) (map snd es)" if "observed_inv on y" for y
    using that by (induction es arbitrary: y) (simp_all add: observed_step_passive observed_step_inv)
  from this [OF observed_start_inv] show ?thesis by (simp add: observed_start_def)
qed

text \<open>
  Property: an observer changes nothing. Whatever the observer does with its own state, and
  whatever the capture policy, the observed server goes through the states of the same server
  without an observer, event by event.
\<close>

theorem observation_changes_nothing:
  "ov_system (run (observed_step on) (observed_start w o0) es)
     = run (server_step (on_libraries on) (on_server on)) (system_start w) (map snd es)"
  by (rule observation_changes_nothing_sys)

text \<open>
  C30: Property: what an observer is handed of arguments and results over a run is what the policy
  takes: arguments only under \<^verbatim>\<open>with_request_arguments\<close>, results only under
  \<^verbatim>\<open>with_response_content\<close>, each text no longer than the limit and, cut or not, well-formed, of a
  value the redactor returned when there is one.
\<close>

theorem observers_see_what_the_policy_takes:
  assumes "(n, c) \<in> set (ov_calls (run (observed_step on) (observed_start w o0) es))"
    and "call_payload c = Some (CapturedJson t)"
    and "\<And>v text. on_text on v = Inr text \<Longrightarrow> utf8_valid text"
  shows "captured_by (on_policy on) c \<and> length t \<le> pc_max_bytes (on_policy on) \<and> utf8_valid t
    \<and> (\<forall>redactor. pc_redactor (on_policy on) = Some redactor \<longrightarrow>
         (\<exists>site payload kept full. redactor site payload = Some kept \<and> on_text on kept = Inr full
            \<and> (t = full \<or> (\<exists>k. k < length full \<and> t = take k full @ TRUNCATION_MARKER))))"
proof -
  have "call_ok (on_text on) (on_policy on) c"
    using observed_reachable [of on w o0 es] assms(1) by (auto simp: observed_inv_def list_all_iff)
  with assms(2,3) show ?thesis
    by (fastforce simp: call_ok_def within_policy_def)
qed

subsection \<open>What completions say\<close>

lemma running_pending:
  assumes "observed_inv on y" and "s \<in> set (sy_running (ov_system y))"
  obtains p where "map_of (ov_pending y) s = Some p" "(po_number p, OpStarted (po_info p)) \<in> set (ov_calls y)"
    "po_info p = operation_info_of (on_text on) (on_policy on) (sg_request s)"
proof -
  have "s \<in> set (map fst (ov_pending y))" using assms by (simp add: observed_inv_def)
  then obtain p where "map_of (ov_pending y) s = Some p" by (metis map_of_eq_None_iff not_Some_eq set_map)
  with assms that map_of_SomeD [OF this] show ?thesis by (auto simp: observed_inv_def)
qed

lemma outcome_of_NotificationAccepted: "outcome_of to_text policy info response = NotificationAccepted \<longleftrightarrow> response = None"
  by (auto simp: outcome_of_def Let_def split: option.splits)

lemma outcome_of_Failed:
  "outcome_of to_text policy info response = Failed code message \<longleftrightarrow>
     (\<exists>r e. response = Some r \<and> rs_error r = Some e \<and> code = e_code e \<and> message = e_message e)"
  by (auto simp: outcome_of_def Let_def split: option.splits)

lemma outcome_of_Cancelled: "outcome_of to_text policy info response \<noteq> Cancelled"
  by (auto simp: outcome_of_def Let_def split: option.splits)

lemma poll_None: "snd (dispatch_poll L srv clock s st) = None \<longleftrightarrow> is_cancelled s st"
  by (simp add: dispatch_poll_def split: prod.split)

text \<open>
  C26: Property: when a running request gets its turn, the observer is told of its end once, under the
  number its start had, with the code and message of the error it was answered with and no failure
  otherwise. A request its client has cancelled ends as an accepted notification, though it has an
  id; as cancelled end only the dispatches that are dropped.
\<close>

theorem completions_tell_the_answer:
  fixes on :: "('f, 's, 'a, 'o, 'span) observation"
  assumes "y = run (observed_step on) (observed_start w o0) es" and "s \<in> set (sy_running (ov_system y))"
  shows "\<exists>n outcome. ov_calls (observed_step on y (now, Turn clock s)) = ov_calls y @ [(n, OpEnded outcome)]
    \<and> (n, OpStarted (operation_info_of (on_text on) (on_policy on) (sg_request s))) \<in> set (ov_calls y)
    \<and> (\<forall>code message. outcome = Failed code message \<longleftrightarrow>
         (\<exists>r e. snd (dispatch_poll (on_libraries on) (on_server on) clock s (sy_state (ov_system y))) = Some r
            \<and> rs_error r = Some e \<and> code = e_code e \<and> message = e_message e))
    \<and> (outcome = NotificationAccepted \<longleftrightarrow> is_cancelled s (sy_state (ov_system y)))
    \<and> outcome \<noteq> Cancelled \<and> rq_id (sg_request s) \<noteq> None"
proof -
  have inv: "observed_inv on y" unfolding assms(1) by (rule observed_reachable)
  obtain p where p: "map_of (ov_pending y) s = Some p" "(po_number p, OpStarted (po_info p)) \<in> set (ov_calls y)"
    "po_info p = operation_info_of (on_text on) (on_policy on) (sg_request s)"
    using running_pending [OF inv assms(2)] by blast
  have "rq_id (sg_request s) \<noteq> None"
    using inv assms(2) by (auto simp: observed_inv_def system_ok_def)
  moreover let ?out = "outcome_of (on_text on) (on_policy on) (po_info p)
      (snd (dispatch_poll (on_libraries on) (on_server on) clock s (sy_state (ov_system y))))"
  have "ov_calls (observed_step on y (now, Turn clock s)) = ov_calls y @ [(po_number p, OpEnded ?out)]"
    by (simp add: observe_leave_def p(1) observe_complete_def)
  ultimately show ?thesis
    using p(2) unfolding p(3)
    by (intro exI [of _ "po_number p"] exI [of _ "?out"] conjI)
      (simp_all only: p(3) outcome_of_Cancelled outcome_of_Failed outcome_of_NotificationAccepted poll_None
        not_False_eq_True simp_thms)
qed

subsection \<open>What the histogram carries\<close>

definition duration_ok :: "(string \<times> string) list \<Rightarrow> bool" where
  "duration_ok attributes \<longleftrightarrow>
     (\<forall>(k, v) \<in> set attributes.
        k \<in> {MCP_METHOD_NAME, JSONRPC_PROTOCOL_VERSION, GEN_AI_TOOL_NAME, GEN_AI_OPERATION_NAME, GEN_AI_PROMPT_NAME,
             MCP_PROTOCOL_VERSION, RPC_RESPONSE_STATUS_CODE, ERROR_TYPE}
        \<and> (k = MCP_PROTOCOL_VERSION \<longrightarrow> is_protocol_version_shaped v))"

lemma version_recorded: "oi_protocol_version (operation_info_of to_text policy request) = Some v \<Longrightarrow> is_protocol_version_shaped v"
  by (simp add: operation_info_of_def split: option.splits if_splits)

lemma duration_recorded:
  assumes "\<And>v. oi_protocol_version info = Some v \<Longrightarrow> is_protocol_version_shaped v"
  shows "duration_ok (shared_attributes info @ error_attributes outcome)"
  using assms
  by (cases outcome) (auto simp: duration_ok_def shared_attributes_def semconv_defs split: option.splits if_splits)

fun ends_of :: "(nat \<times> observer_call) list \<Rightarrow> nat" where
  "ends_of [] = 0"
| "ends_of ((_, OpStarted _) # calls) = ends_of calls"
| "ends_of ((_, OpEnded _) # calls) = Suc (ends_of calls)"

lemma ends_of_append [simp]: "ends_of (cs @ ds) = ends_of cs + ends_of ds"
  by (induction cs rule: ends_of.induct) simp_all

definition otel_ok :: "('s, 'a, otel_world, nat) observed \<Rightarrow> bool" where
  "otel_ok y \<longleftrightarrow>
     list_all (\<lambda>(_, attributes). duration_ok attributes) (ow_durations (ov_observer y))
     \<and> length (ow_durations (ov_observer y)) = ends_of (ov_calls y)"

lemma otel_complete_durations:
  "ow_durations (otel_complete info sp outcome elapsed w)
     = ow_durations w @ [(elapsed, shared_attributes info @ error_attributes outcome)]"
  by (simp add: otel_complete_def split: prod.split)

lemma otel_start_durations: "ow_durations (fst (otel_start id_string info w)) = ow_durations w"
  by (simp add: otel_start_def)

lemma otel_leave_ok:
  assumes "otel_ok y" and "observed_inv on y" and "on_observer on = otel_observer id_string"
  shows "otel_ok (observe_leave on now s e outcome y)"
proof (cases "map_of (ov_pending y) s")
  case (Some p)
  then have "po_info p = operation_info_of (on_text on) (on_policy on) (sg_request s)"
    using assms(2) map_of_SomeD [OF Some] by (auto simp: observed_inv_def)
  then have "duration_ok (shared_attributes (po_info p) @ error_attributes (outcome p))"
    by (intro duration_recorded) (simp add: version_recorded)
  with assms(1,3) Some show ?thesis
    by (simp add: otel_ok_def observe_leave_def observe_complete_def otel_observer_def otel_complete_durations)
qed (use assms in \<open>simp add: observe_leave_def\<close>)

lemma otel_step_ok:
  assumes ok: "otel_ok y" and inv: "observed_inv on y" and obs: "on_observer on = otel_observer id_string"
  shows "otel_ok (observed_step on y e)"
proof -
  obtain now ev where e: "e = (now, ev)" by (cases e)
  have info: "duration_ok (shared_attributes (operation_info_of (on_text on) (on_policy on) request)
      @ error_attributes outcome)" for request outcome
    by (intro duration_recorded) (rule version_recorded)
  show ?thesis
  proof (cases ev)
    case (Arrives clock token request ctx)
    with ok info show ?thesis
      unfolding e
      by (auto simp: otel_ok_def observe_start_def observe_complete_def obs otel_observer_def otel_complete_durations
          Let_def otel_start_def simp del: server_step.simps split: dispatched.split)
  qed (use ok in \<open>simp_all add: e otel_leave_ok [OF ok inv obs]\<close>, simp add: otel_ok_def)
qed

text \<open>
  Property: the OpenTelemetry observer measures each ended operation once, and a measurement names
  only what tells few operations apart: no request id, no session, no argument, no result, and as a
  protocol revision nothing a client made up.
\<close>

theorem measurements_name_no_request:
  assumes "on_observer on = otel_observer id_string" and "ow_durations o0 = []"
  shows "length (ow_durations (ov_observer (run (observed_step on) (observed_start w o0) es)))
      = ends_of (ov_calls (run (observed_step on) (observed_start w o0) es))
    \<and> (\<forall>(elapsed, attributes) \<in> set (ow_durations (ov_observer (run (observed_step on) (observed_start w o0) es))).
         duration_ok attributes)"
proof -
  have "otel_ok (run (observed_step on) y es)" if "otel_ok y" and "observed_inv on y" for y
    using that by (induction es arbitrary: y) (simp_all add: otel_step_ok [OF _ _ assms(1)] observed_step_inv)
  from this [OF _ observed_start_inv, of w o0] assms(2) show ?thesis
    by (simp add: otel_ok_def observed_start_def list_all_iff)
qed

lemma duration_keys:
  "k \<in> {JSONRPC_REQUEST_ID, MCP_SESSION_ID, GEN_AI_TOOL_CALL_ARGUMENTS, GEN_AI_TOOL_CALL_RESULT} \<Longrightarrow>
   duration_ok attributes \<Longrightarrow> (k, v) \<notin> set attributes"
  by (auto simp: duration_ok_def semconv_defs)

subsection \<open>One observed call\<close>

definition counting_observer :: "(nat, nat) observer" where
  "counting_observer = \<lparr>ob_start = (\<lambda>_ n. (Suc n, n)), ob_complete = (\<lambda>_ _ _ _ n. n)\<rparr>"

definition demo_redactor :: "payload_site \<Rightarrow> json \<Rightarrow> json option" where
  "demo_redactor site payload = (if ps_target site = Some ''rows'' then Some JNull else None)"

definition demo_observation ::
  "('o, 'span) observer \<Rightarrow> (nat, memory, nat, 'o, 'span) observation" where
  "demo_observation obs =
     \<lparr>on_libraries = demo_libraries, on_server = demo_server, on_observer = obs,
      on_policy = with_redactor demo_redactor (with_request_arguments True (with_max_bytes 15 capture_disabled)),
      on_text = (\<lambda>_. Inr ''[\"a long argument\"]'')\<rparr>"

lemma demo_observed_call:
  "run (observed_step (demo_observation obs)) (observed_start demo_world o0) (map (Pair 0) demo_events)
     = observed_step (demo_observation obs) (observed_start demo_world o0) (0, hd demo_events)"
  by (simp add: demo_events_def)

lemma demo_dispatch:
  "snd (dispatch_begin demo_libraries demo_server (0, 0, 0) 7 demo_call demo_caller (sy_state (system_start demo_world)))
     = Serving demo_serving"
proof (rule ccontr)
  assume "\<not> ?thesis"
  then show False
    using demo_system(1) unfolding demo_events_def
    by (auto simp: system_start_def split: prod.splits dispatched.splits)
qed

lemma demo_captured:
  "oi_arguments (operation_info_of (on_text (demo_observation obs)) (on_policy (demo_observation obs)) demo_call)
     = Some (CapturedJson (''['' @ TRUNCATION_MARKER))"
proof -
  have cut: "char_boundary (Suc 0) ''[\"a long argument\"]''" by code_simp
  show ?thesis
    by (simp add: operation_info_of_def demo_observation_def demo_call_def request_with_id_def operation_target_def
        with_redactor_def with_request_arguments_def with_max_bytes_def capture_disabled_def capture_def Let_def
        demo_redactor_def truncate_utf8_def TRUNCATION_MARKER_valid cut TOOLS_CALL_def param_def json_get_def as_str_def)
qed

lemma observers_see_what_the_policy_takes_witness:
  "captured_by (on_policy (demo_observation counting_observer))
     (OpStarted (operation_info_of (on_text (demo_observation counting_observer))
       (on_policy (demo_observation counting_observer)) demo_call))
   \<and> utf8_valid (''['' @ TRUNCATION_MARKER)"
proof -
  let ?on = "demo_observation counting_observer"
  let ?c = "OpStarted (operation_info_of (on_text ?on) (on_policy ?on) demo_call)"
  have parts: "on_libraries ?on = demo_libraries" "on_server ?on = demo_server"
    by (simp_all add: demo_observation_def)
  have "(0, ?c) \<in> set (ov_calls (run (observed_step ?on) (observed_start demo_world 0) (map (Pair 0) demo_events)))"
    by (simp add: demo_events_def observed_start_def parts demo_dispatch observe_start_def Let_def
        system_start_def [of demo_world, THEN arg_cong [where f = sy_tokens]] split: prod.split)
  moreover have "utf8_valid full" if "on_text ?on v = Inr full" for v full
  proof -
    have "full = ''[\"a long argument\"]''" using that by (simp add: demo_observation_def)
    show ?thesis unfolding \<open>full = _\<close> by code_simp
  qed
  ultimately show ?thesis
    using observers_see_what_the_policy_takes [of 0 ?c ?on demo_world 0 "map (Pair 0) demo_events" "''['' @ TRUNCATION_MARKER"]
      demo_captured [of counting_observer] by simp
qed

lemma completions_tell_the_answer_witness:
  "\<exists>n outcome. (n, OpStarted (operation_info_of (on_text (demo_observation counting_observer))
       (on_policy (demo_observation counting_observer)) (sg_request demo_serving)))
     \<in> set (ov_calls (run (observed_step (demo_observation counting_observer)) (observed_start demo_world 0)
         (map (Pair 0) demo_events)))
   \<and> outcome \<noteq> Cancelled"
proof -
  let ?on = "demo_observation counting_observer"
  have parts: "on_libraries ?on = demo_libraries" "on_server ?on = demo_server"
    by (simp_all add: demo_observation_def)
  have "demo_serving \<in> set (sy_running (ov_system (run (observed_step ?on) (observed_start demo_world 0)
      (map (Pair 0) demo_events))))"
    unfolding observation_changes_nothing_sys parts using demo_system(1) by (simp add: comp_def)
  from completions_tell_the_answer [OF refl this] show ?thesis by blast
qed

lemma measurements_name_no_request_witness:
  "length (ow_durations (ov_observer (run (observed_step (demo_observation (otel_observer (\<lambda>_. ''1''))))
     (observed_start demo_world \<lparr>ow_spans = [], ow_durations = []\<rparr>) [(0, Arrives (0, 0, 0) 9 demo_note demo_caller)]))) = 1"
proof -
  let ?on = "demo_observation (otel_observer (\<lambda>_. ''1''))" and ?o = "\<lparr>ow_spans = [], ow_durations = []\<rparr>"
  have "on_observer ?on = otel_observer (\<lambda>_. ''1'')" by (simp add: demo_observation_def)
  from measurements_name_no_request [OF this, of ?o demo_world "[(0, Arrives (0, 0, 0) 9 demo_note demo_caller)]"]
  have "length (ow_durations (ov_observer (run (observed_step ?on) (observed_start demo_world ?o)
      [(0, Arrives (0, 0, 0) 9 demo_note demo_caller)])))
    = ends_of (ov_calls (run (observed_step ?on) (observed_start demo_world ?o)
      [(0, Arrives (0, 0, 0) 9 demo_note demo_caller)]))" by simp
  also have "\<dots> = 1"
    by (simp add: dispatch_begin_def demo_note_fields observe_start_def observe_complete_def observed_start_def Let_def
        split: prod.split)
  finally show ?thesis .
qed

end
