(* ===== verification/Computation.thy ===== *)
theory Computation
  imports Tool_Registry
begin

declare map_of_eq_Some_iff [simp del] Some_eq_map_of_iff [simp del]

text \<open>
  Tools that are one operation over their arguments (\<^verbatim>\<open>src/mcp/computation.rs\<close>), with the wrapper of
  a list they return (\<^verbatim>\<open>Listed\<close> in \<^verbatim>\<open>src/mcp/schema.rs\<close>), registered and executed by
  \<open>Tool_Registry\<close>. The types' derived instances (parsing, rendering, schemas) are fields of the record.
\<close>

record ('i, 'o) computation =
  co_name :: string
  co_title :: string
  co_description :: string
  co_input_schema :: json
  co_output_schema :: json
  co_parse :: "json \<Rightarrow> (string, 'i) result"
  co_compute :: "'i \<Rightarrow> (string, 'o) result"
  co_render :: "'o \<Rightarrow> (string, string) result"

definition computation_annotations :: "('i, 'o) computation \<Rightarrow> tool_annotations" where
  "computation_annotations c =
     \<lparr>ta_title = Some (co_title c), ta_read_only_hint = Some True, ta_destructive_hint = Some False,
      ta_idempotent_hint = Some True, ta_open_world_hint = Some False\<rparr>"

definition computation_definition :: "('i, 'o) computation \<Rightarrow> tool" where
  "computation_definition c =
     \<lparr>tl_name = co_name c, tl_description = co_description c, tl_input_schema = co_input_schema c,
      tl_output_schema = Some (co_output_schema c), tl_annotations = Some (computation_annotations c),
      tl_execution = None\<rparr>"

fun structured_error_text :: "structured_error \<Rightarrow> string" where
  "structured_error_text (Render e) = ''could not serialise the result: '' @ e"
| "structured_error_text (NotAnObject kind) =
     ''structured content must be a JSON object, but the result is '' @ kind"

definition run_computation ::
  "(string \<Rightarrow> (string, json) result) \<Rightarrow> ('i, 'o) computation \<Rightarrow> json \<Rightarrow> tool_response" where
  "run_computation read_json c arguments =
     (case co_parse c arguments of
        Inl e \<Rightarrow> response_failed (co_name c @ '': invalid arguments: '' @ e)
      | Inr input \<Rightarrow>
          (case co_compute c input of
             Inl message \<Rightarrow> response_failed (co_name c @ '': '' @ message)
           | Inr out \<Rightarrow>
               (case response_structured read_json (co_render c out) of
                  Inr response \<Rightarrow> response
                | Inl e \<Rightarrow>
                    response_failed (co_name c @ '': could not render the result: '' @ structured_error_text e))))"

text \<open>The blanket \<^verbatim>\<open>McpTool\<close>: neither state nor context is looked at; capabilities and scopes are the
  trait's defaults.\<close>

definition computation_tool ::
  "(string \<Rightarrow> (string, json) result) \<Rightarrow> ('i, 'o) computation \<Rightarrow> 's mcp_tool" where
  "computation_tool read_json c =
     \<lparr>mt_definition = computation_definition c, mt_capabilities = 0, mt_required_scopes = [],
      mt_execute = (\<lambda>_ arguments s. (s, run_computation read_json c arguments))\<rparr>"

text \<open>\<^verbatim>\<open>Listed\<close>: a list as the object a structured result has to be.\<close>

definition listed_json :: "('t \<Rightarrow> json) \<Rightarrow> 't list \<Rightarrow> json" where
  "listed_json item_json items = JObject [(''items'', JArray (map item_json items))]"

subsection \<open>What a computation answers\<close>

lemma run_computation_cases:
  obtains (failed) m where "run_computation read_json c arguments = response_failed (co_name c @ '': '' @ m)"
  | (computed) input out rendered structured where "co_parse c arguments = Inr input" "co_compute c input = Inr out"
      "co_render c out = Inr rendered" "read_json rendered = Inr structured" "is_object structured"
      "run_computation read_json c arguments =
         \<lparr>tp_content = [content_text rendered], tp_is_error = False, tp_structured = Some structured\<rparr>"
proof (cases "co_parse c arguments")
  case (Inl e)
  then show ?thesis by (intro failed [of "''invalid arguments: '' @ e"]) (simp add: run_computation_def)
next
  case input: (Inr input)
  show ?thesis
  proof (cases "co_compute c input")
    case (Inl message)
    with input show ?thesis by (intro failed [of message]) (simp add: run_computation_def)
  next
    case out: (Inr out)
    show ?thesis
    proof (cases "response_structured read_json (co_render c out)")
      case (Inl e)
      with input out show ?thesis
        by (intro failed [of "''could not render the result: '' @ structured_error_text e"])
          (simp add: run_computation_def)
    next
      case (Inr response)
      then obtain rendered structured where "co_render c out = Inr rendered" "read_json rendered = Inr structured"
        "is_object structured"
        "response = \<lparr>tp_content = [content_text rendered], tp_is_error = False, tp_structured = Some structured\<rparr>"
        by (auto simp: response_structured_def split: sum.splits if_splits)
      with input out Inr show ?thesis by (intro computed) (auto simp: run_computation_def)
    qed
  qed
qed

lemma computation_tool_fields [simp]:
  "mt_definition (computation_tool read_json c) = computation_definition c"
  "mt_capabilities (computation_tool read_json c) = 0" "mt_required_scopes (computation_tool read_json c) = []"
  "mt_execute (computation_tool read_json c) ctx arguments s = (s, run_computation read_json c arguments)"
  "tl_name (computation_definition c) = co_name c"
  "tl_output_schema (computation_definition c) = Some (co_output_schema c)"
  by (simp_all add: computation_tool_def computation_definition_def)

lemma computation_unrestricted [simp]: "refusal name 0 [] ctx = None"
  using refusal_None_iff [of name "computation_tool (\<lambda>_. Inl []) undefined :: unit mcp_tool" ctx]
  by (simp add: may_run_def)

text \<open>
  Property: calling a registered computation leaves the state alone and answers either an
  error that starts with the computation's name or the object its result renders to, as structured
  content, with the same text beside it, and one its declared output schema admits.
\<close>

theorem computations_answer_under_their_name:
  assumes "output_schema_defect json_text (co_output_schema c) = None"
  shows "\<exists>response.
    registry_execute validation (registry_register json_text validation (computation_tool read_json c) rg)
        (co_name c) ctx arguments s = (s, Some response)
    \<and> ((\<exists>m. response = response_failed (co_name c @ '': '' @ m))
       \<or> (\<exists>input out rendered structured. co_parse c arguments = Inr input \<and> co_compute c input = Inr out
            \<and> co_render c out = Inr rendered \<and> read_json rendered = Inr structured \<and> is_object structured
            \<and> response = \<lparr>tp_content = [content_text rendered], tp_is_error = False,
                           tp_structured = Some structured\<rparr>
            \<and> (\<forall>compiler out_check. validation = Some compiler \<longrightarrow>
                 compiler (co_output_schema c) = Inr out_check \<longrightarrow> out_check structured = [])))"
proof -
  let ?rg = "registry_register json_text validation (computation_tool read_json c) rg"
  let ?found = "\<lambda>v. registry_execute validation ?rg (co_name c) ctx arguments s =
    run_checked (co_name c) (computation_tool read_json c) v ctx arguments s"
  have tools: "map_of (rg_tools ?rg) (co_name c) = Some (computation_tool read_json c)"
    using assms by (simp add: registry_register_def registry_insert_def Let_def map_of_update)
  show ?thesis
  proof (cases validation)
    case None
    with tools have "?found None" by (simp add: registry_execute_def)
    then show ?thesis
      by (cases rule: run_computation_cases [of read_json c arguments])
        (auto simp: run_checked_def None)
  next
    case (Some compiler)
    let ?v = "validator_compile compiler (computation_definition c)"
    have validators: "map_of (rg_validators ?rg) (co_name c) = Some ?v"
      using assms Some by (simp add: registry_register_def registry_insert_def Let_def map_of_update)
    show ?thesis
    proof (cases ?v)
      case (Inl e)
      then show ?thesis
        using Some tools validators by (auto simp: registry_execute_def)
    next
      case (Inr v)
      have v: "\<And>out_check. compiler (co_output_schema c) = Inr out_check \<Longrightarrow> sv_output v = Some out_check"
        using Inr by (auto simp: validator_compile_def computation_definition_def split: sum.splits)
      show ?thesis
      proof (cases "check_arguments v arguments")
        case (Inl violations)
        with Inr Some tools validators show ?thesis
          by (auto simp: registry_execute_def)
      next
        case (Inr _)
        then have "?found (Some v)"
          using \<open>?v = Inr v\<close> Some tools validators by (simp add: registry_execute_def)
        then show ?thesis
          by (cases rule: run_computation_cases [of read_json c arguments])
            (auto simp: run_checked_def Some check_result_def violations_collect_def Let_def
              dest: v split: sum.splits option.splits if_splits)
      qed
    qed
  qed
qed

text \<open>A bare list is refused, the same list wrapped is answered.\<close>

lemma lists_are_answered_wrapped:
  assumes "co_parse c arguments = Inr input" and "co_compute c input = Inr items"
    and "\<And>v. read_json (json_text v) = Inr v"
  shows "co_render c = (\<lambda>xs. Inr (json_text (JArray (map item xs)))) \<Longrightarrow>
      run_computation read_json c arguments
        = response_failed (co_name c @ '': could not render the result: structured content must be a JSON object, ''
            @ ''but the result is an array'')"
    and "co_render c = (\<lambda>xs. Inr (json_text (listed_json item xs))) \<Longrightarrow>
      tp_structured (run_computation read_json c arguments) = Some (listed_json item items)
      \<and> \<not> tp_is_error (run_computation read_json c arguments)"
  using assms by (simp_all add: run_computation_def response_structured_def is_object_def listed_json_def)

subsection \<open>One computation\<close>

definition demo_text :: "json \<Rightarrow> string" where
  "demo_text v = (case v of JObject [(k, JNumber (PosInt n))] \<Rightarrow> [char_of n] | _ \<Rightarrow> ''?'')"

definition demo_reading :: "string \<Rightarrow> (string, json) result" where
  "demo_reading text =
     (case text of [c] \<Rightarrow> Inr (JObject [(''sum'', JNumber (PosInt (of_char c)))]) | _ \<Rightarrow> Inl ''eof'')"

definition demo_object_schema :: json where
  "demo_object_schema = JObject [(''type'', JString ''object''), (''required'', JArray [JString ''sum''])]"

definition demo_sum :: "(nat list, nat) computation" where
  "demo_sum =
     \<lparr>co_name = ''sum'', co_title = ''Sum'', co_description = ''Sum the numbers'',
      co_input_schema = JObject [(''type'', JString ''object'')], co_output_schema = demo_object_schema,
      co_parse = (\<lambda>v. (case v of
                          JArray [JNumber (PosInt a), JNumber (PosInt b)] \<Rightarrow> Inr [a, b]
                        | _ \<Rightarrow> Inl ''invalid type'')),
      co_compute = (\<lambda>xs. if sum_list xs < 128 then Inr (sum_list xs) else Inl ''too large''),
      co_render = (\<lambda>n. Inr (demo_text (JObject [(''sum'', JNumber (PosInt n))])))\<rparr>"

definition demo_compiler :: schema_compiler where
  "demo_compiler schema = Inr (\<lambda>v. if is_object v \<or> (case v of JArray _ \<Rightarrow> True | _ \<Rightarrow> False) then [] else [([], ''type'')])"

lemma computations_answer_under_their_name_witness:
  "\<exists>response. registry_execute (Some demo_compiler)
      (registry_register demo_text (Some demo_compiler) (computation_tool demo_reading demo_sum) registry_new)
      ''sum'' (tool_context_default 0) (JArray [JNumber (PosInt 30), JNumber (PosInt 35)]) (5 :: nat) = (5, Some response)
    \<and> tp_structured response = Some (JObject [(''sum'', JNumber (PosInt 65))])"
proof -
  let ?rg = "registry_register demo_text (Some demo_compiler) (computation_tool demo_reading demo_sum) registry_new
      :: nat tool_registry"
  have schema: "output_schema_defect demo_text (co_output_schema demo_sum) = None"
    by (simp add: output_schema_defect_None_iff demo_sum_def demo_object_schema_def json_get_def is_string_def)
  have named: "co_name demo_sum = ''sum''" by (simp add: demo_sum_def)
  have "tp_structured (the (snd (registry_execute (Some demo_compiler) ?rg ''sum'' (tool_context_default 0)
      (JArray [JNumber (PosInt 30), JNumber (PosInt 35)]) 5))) = Some (JObject [(''sum'', JNumber (PosInt 65))])"
    by code_simp
  with computations_answer_under_their_name [OF schema, of "Some demo_compiler" demo_reading
      "registry_new :: nat tool_registry" "tool_context_default 0"
      "JArray [JNumber (PosInt 30), JNumber (PosInt 35)]" 5]
  show ?thesis unfolding named by auto
qed

end
