(* ===== verification/Log_Setup.thy ===== *)
theory Log_Setup
  imports Trace_Context Secrets Notifications
begin

declare map_of_eq_Some_iff [simp del] Some_eq_map_of_iff [simp del]

text \<open>
  The set-up of a process's logs (\<^verbatim>\<open>src/server/tracing_init.rs\<close>) and the traces it takes part in: the
  propagator's side of \<^verbatim>\<open>src/server/trace_context.rs\<close> and the layer of outbound requests in
  \<^verbatim>\<open>src/http_client/trace.rs\<close>.

  The process is its environment, the registry of secrets, the subscriber once installed, and what
  each sink has been handed. The directives of \<^verbatim>\<open>RUST_LOG\<close>, the formatting of a line, the exporters and
  the propagator are the libraries'.
\<close>

subsection \<open>Export\<close>

datatype otel_init_error = SpanExporter string | MetricExporter string

fun consequence :: "otel_init_error \<Rightarrow> string" where
  "consequence (SpanExporter _) = ''OTLP export disabled; falling back to logs only''"
| "consequence (MetricExporter _) = ''OTLP metric export disabled; exporting traces only''"

fun otel_init_error_text :: "otel_init_error \<Rightarrow> string" where
  "otel_init_error_text (SpanExporter source) = ''OTLP span exporter init failed: '' @ source"
| "otel_init_error_text (MetricExporter source) = ''OTLP metric exporter init failed: '' @ source"

definition DEFAULT_SERVICE_NAME :: string where "DEFAULT_SERVICE_NAME = ''dravr-service''"

record otel_config =
  oc_endpoint :: string
  oc_service_name :: string

definition otel_config_from_env :: "environment \<Rightarrow> otel_config option" where
  "otel_config_from_env env =
     (case env ''OTEL_EXPORTER_OTLP_ENDPOINT'' of
        None \<Rightarrow> None
      | Some endpoint \<Rightarrow>
          Some \<lparr>oc_endpoint = endpoint,
                oc_service_name = unwrap_or (env ''OTEL_SERVICE_NAME'') DEFAULT_SERVICE_NAME\<rparr>)"

text \<open>The providers: the tracer under its service's name, and whether there is a meter.\<close>

record otel_providers =
  op_tracer :: string
  op_meter :: bool

record otel_pipeline =
  pl_providers :: otel_providers
  pl_metric_failure :: "otel_init_error option"

text \<open>An exporter builder answers the error it failed with, if it did.\<close>

record exporters =
  ex_span :: "string \<Rightarrow> string option"
  ex_metric :: "string \<Rightarrow> string option"

definition pipeline_build :: "exporters \<Rightarrow> otel_config \<Rightarrow> (otel_init_error, otel_pipeline) result" where
  "pipeline_build ex config =
     (case ex_span ex (oc_endpoint config) of
        Some e \<Rightarrow> Inl (SpanExporter e)
      | None \<Rightarrow>
          (case ex_metric ex (oc_endpoint config) of
             None \<Rightarrow> Inr \<lparr>pl_providers = \<lparr>op_tracer = oc_service_name config, op_meter = True\<rparr>,
                         pl_metric_failure = None\<rparr>
           | Some e \<Rightarrow> Inr \<lparr>pl_providers = \<lparr>op_tracer = oc_service_name config, op_meter = False\<rparr>,
                           pl_metric_failure = Some (MetricExporter e)\<rparr>))"

record otel_setup =
  os_providers :: "otel_providers option"
  os_failures :: "otel_init_error list"

text \<open>\<open>exporting\<close> is \<open>None\<close> in a build without the feature.\<close>

definition export_layer :: "exporters option \<Rightarrow> environment \<Rightarrow> bool \<times> otel_setup" where
  "export_layer exporting env =
     (case exporting of
        None \<Rightarrow> (False, \<lparr>os_providers = None, os_failures = []\<rparr>)
      | Some ex \<Rightarrow>
          (case otel_config_from_env env of
             None \<Rightarrow> (False, \<lparr>os_providers = None, os_failures = []\<rparr>)
           | Some config \<Rightarrow>
               (case pipeline_build ex config of
                  Inr pipeline \<Rightarrow>
                    (True, \<lparr>os_providers = Some (pl_providers pipeline),
                            os_failures = (case pl_metric_failure pipeline of None \<Rightarrow> [] | Some f \<Rightarrow> [f])\<rparr>)
                | Inl failure \<Rightarrow> (False, \<lparr>os_providers = None, os_failures = [failure]\<rparr>))))"

subsection \<open>The subscriber\<close>

datatype log_stream = ToStdout | ToStderr

record subscriber =
  sb_filter :: "metadata \<Rightarrow> bool"
  sb_ceilings :: "target_ceiling list"
  sb_stream :: log_stream
  sb_exports :: bool
  sb_notifies :: "(notification_config \<times> slack_client option \<times> email_client option) option"

text \<open>\<open>ll_directives\<close> reads directives strictly, \<open>ll_filter\<close> leniently; \<open>ll_format\<close> is the line of an event
  with its fields.\<close>

record log_libraries =
  ll_directives :: "string \<Rightarrow> (metadata \<Rightarrow> bool) option"
  ll_filter :: "string \<Rightarrow> metadata \<Rightarrow> bool"
  ll_format :: "metadata \<Rightarrow> string \<Rightarrow> (string \<times> string) list \<Rightarrow> string"
  ll_lossy :: "string \<Rightarrow> string"

record process =
  pr_vars :: "(string \<times> string) list"
  pr_secrets :: "string list"
  pr_subscriber :: "subscriber option"
  pr_lines :: "(metadata \<times> log_stream \<times> string) list"
  pr_exported :: "metadata list"
  pr_notified :: "metadata list"

definition process_env :: "process \<Rightarrow> environment" where
  "process_env p = map_of (pr_vars p)"

definition log_stream_of :: "string \<Rightarrow> log_stream" where
  "log_stream_of transport = (if transport = ''stdio'' then ToStderr else ToStdout)"

definition log_filter :: "log_libraries \<Rightarrow> environment \<Rightarrow> metadata \<Rightarrow> bool" where
  "log_filter L env =
     (case Option.bind (env ''RUST_LOG'') (ll_directives L) of
        Some f \<Rightarrow> f
      | None \<Rightarrow> ll_filter L ''info'')"

text \<open>An event: every layer is behind both filters, and the notifier looks at errors only.\<close>

definition emit :: "log_libraries \<Rightarrow> metadata \<Rightarrow> string \<Rightarrow> (string \<times> string) list \<Rightarrow> process \<Rightarrow> process" where
  "emit L m message attrs p =
     (case pr_subscriber p of
        None \<Rightarrow> p
      | Some sb \<Rightarrow>
          if sb_filter sb m \<and> ceilings_admit (sb_ceilings sb) m
          then p\<lparr>pr_lines := pr_lines p @
                   [(m, sb_stream sb, fst (redacting_write (ll_lossy L) (pr_secrets p) (ll_format L m message attrs)))],
                 pr_exported := pr_exported p @ (if sb_exports sb then [m] else []),
                 pr_notified := pr_notified p @
                   (if sb_notifies sb \<noteq> None \<and> md_level m = LevelError then [m] else [])\<rparr>
          else p)"

definition INIT_WARNING :: metadata where
  "INIT_WARNING = \<lparr>md_target = ''dravr_tronc::server::tracing_init'', md_level = LevelWarn\<rparr>"

definition warn_failure :: "log_libraries \<Rightarrow> otel_init_error \<Rightarrow> process \<Rightarrow> process" where
  "warn_failure L failure p = emit L INIT_WARNING (consequence failure) [(''error'', otel_init_error_text failure)] p"

text \<open>The failures are logged once the subscriber is there; the providers go to the guard.\<close>

definition installed :: "log_libraries \<Rightarrow> otel_setup \<Rightarrow> process \<Rightarrow> process \<times> otel_providers option" where
  "installed L export_setup p = (fold (warn_failure L) (os_failures export_setup) p, os_providers export_setup)"

definition error_layer_of :: "environment \<Rightarrow> (notification_config \<times> slack_client option \<times> email_client option) option" where
  "error_layer_of env =
     (let config = notification_config_from_env env;
          slack = map_option slack_client_new (nc_slack config);
          email = Option.bind (nc_email config)
                    (\<lambda>c. (case email_client_new c of Inr client \<Rightarrow> Some client | Inl _ \<Rightarrow> None))
      in if slack \<noteq> None \<or> email \<noteq> None then Some (config, slack, email) else None)"

record log_options =
  lo_transport :: string
  lo_ceilings :: "target_ceiling list"
  lo_notifications :: bool

text \<open>\<^verbatim>\<open>SubscriberInitExt::init\<close> panics when a subscriber is installed already: the guard is then \<open>Inl\<close>.\<close>

definition log_init ::
  "log_libraries \<Rightarrow> exporters option \<Rightarrow> log_options \<Rightarrow> process
     \<Rightarrow> process \<times> (unit, otel_providers option) result" where
  "log_init L exporting options p =
     (let p1 = p\<lparr>pr_secrets := snd (register_env (pr_vars p) (pr_secrets p))\<rparr>;
          env = process_env p;
          (exports, export_setup) = export_layer exporting env in
      if pr_subscriber p \<noteq> None then (p1, Inl ())
      else
        (case installed L export_setup
               (p1\<lparr>pr_subscriber := Some
                    \<lparr>sb_filter = log_filter L env, sb_ceilings = lo_ceilings options,
                     sb_stream = log_stream_of (lo_transport options), sb_exports = exports,
                     sb_notifies = (if lo_notifications options then error_layer_of env else None)\<rparr>\<rparr>) of
           (p2, guard) \<Rightarrow> (p2, Inr guard)))"

text \<open>\<^verbatim>\<open>init\<close>: no ceilings, no notifications.\<close>

definition plain_init ::
  "log_libraries \<Rightarrow> exporters option \<Rightarrow> string \<Rightarrow> process \<Rightarrow> process \<times> (unit, otel_providers option) result" where
  "plain_init L exporting transport =
     log_init L exporting \<lparr>lo_transport = transport, lo_ceilings = [], lo_notifications = False\<rparr>"

subsection \<open>The guard\<close>

datatype provider_call = FlushTracer | ShutTracer | FlushMeter | ShutMeter

fun provider_call_failed :: "provider_call \<Rightarrow> string" where
  "provider_call_failed FlushTracer = ''OTLP span flush failed at shutdown''"
| "provider_call_failed ShutTracer = ''OTLP span provider shutdown failed''"
| "provider_call_failed FlushMeter = ''OTLP metric flush failed at shutdown''"
| "provider_call_failed ShutMeter = ''OTLP meter provider shutdown failed''"

definition provider_calls :: "otel_providers \<Rightarrow> provider_call list" where
  "provider_calls providers = [FlushTracer, ShutTracer] @ (if op_meter providers then [FlushMeter, ShutMeter] else [])"

definition providers_shutdown ::
  "log_libraries \<Rightarrow> (provider_call \<Rightarrow> string option) \<Rightarrow> otel_providers \<Rightarrow> process \<Rightarrow> process \<times> provider_call list" where
  "providers_shutdown L fails providers p =
     (fold (\<lambda>call p. case fails call of
                       None \<Rightarrow> p
                     | Some e \<Rightarrow> emit L INIT_WARNING (provider_call_failed call) [(''error'', e)] p)
        (provider_calls providers) p,
      provider_calls providers)"

definition guard_drop_telemetry ::
  "log_libraries \<Rightarrow> (provider_call \<Rightarrow> string option) \<Rightarrow> otel_providers option \<Rightarrow> process \<Rightarrow> process \<times> provider_call list" where
  "guard_drop_telemetry L fails guard p =
     (case guard of None \<Rightarrow> (p, []) | Some providers \<Rightarrow> providers_shutdown L fails providers p)"

subsection \<open>The process from then on\<close>

datatype process_event =
    Registers string
  | Logs metadata string "(string \<times> string) list"

fun process_step :: "log_libraries \<Rightarrow> process \<Rightarrow> process_event \<Rightarrow> process" where
  "process_step L p (Registers v) = p\<lparr>pr_secrets := register_secret v (pr_secrets p)\<rparr>"
| "process_step L p (Logs m message attrs) = emit L m message attrs p"

subsection \<open>What reaches the sinks\<close>

lemma redact_gone: "plain_secret s \<Longrightarrow> s \<in> set secrets \<Longrightarrow> \<not> contains_text (redact secrets t) s"
  using masked_sublist [OF masked_shapes] mask_known_gone(2) by (metis contains_sublist redact_eq)

lemma register_env_run:
  "snd (register_env vars secrets)
     = run (\<lambda>secrets v. register_secret v secrets) secrets (map snd (filter (\<lambda>(name, _). is_secret_name name) vars))"
proof -
  have "snd (fold (\<lambda>(name, v) (matched, known).
      if is_secret_name name then (matched + 1, register_secret v known) else (matched, known)) vars (n, secrets))
    = run (\<lambda>secrets v. register_secret v secrets) secrets (map snd (filter (\<lambda>(name, _). is_secret_name name) vars))" for n
    by (induction vars arbitrary: n secrets) auto
  then show ?thesis by (simp add: register_env_def)
qed

lemma register_env_in:
  assumes "(name, v) \<in> set vars" and "is_secret_name name" and "8 \<le> length (trim v)"
  shows "trim v \<in> set (snd (register_env vars secrets))"
  unfolding register_env_run using assms by (intro registered_in) force+

definition admitted :: "subscriber \<Rightarrow> metadata \<Rightarrow> bool" where
  "admitted sb m \<longleftrightarrow> sb_filter sb m \<and> ceilings_admit (sb_ceilings sb) m"

definition process_inv :: "subscriber \<Rightarrow> string list \<Rightarrow> process \<Rightarrow> bool" where
  "process_inv sb known p \<longleftrightarrow>
     pr_subscriber p = Some sb \<and> set known \<subseteq> set (pr_secrets p)
     \<and> (\<forall>(m, stream, line) \<in> set (pr_lines p). admitted sb m \<and> stream = sb_stream sb
          \<and> (\<forall>s \<in> set known. plain_secret s \<longrightarrow> \<not> contains_text line s))
     \<and> (\<forall>m \<in> set (pr_exported p). admitted sb m \<and> sb_exports sb)
     \<and> (\<forall>m \<in> set (pr_notified p). admitted sb m \<and> sb_notifies sb \<noteq> None \<and> md_level m = LevelError)"

lemma emit_inv: "process_inv sb known p \<Longrightarrow> process_inv sb known (emit L m message attrs p)"
  by (auto simp: process_inv_def emit_def admitted_def redacting_write_def redact_gone subset_iff split: if_splits)

interpretation logging: machine "process_step L" "process_inv sb known" for L sb known
proof
  fix p e
  assume "process_inv sb known p"
  then show "process_inv sb known (process_step L p e)"
    by (cases e) (simp_all add: emit_inv, auto simp: process_inv_def set_register)
qed

lemma installed_inv: "process_inv sb known p \<Longrightarrow> process_inv sb known (fst (installed L export_setup p))"
proof -
  have "process_inv sb known p \<Longrightarrow> process_inv sb known (fold (warn_failure L) failures p)" for failures
    by (induction failures arbitrary: p) (simp_all add: warn_failure_def emit_inv)
  then show "process_inv sb known p \<Longrightarrow> process_inv sb known (fst (installed L export_setup p))"
    by (simp add: installed_def)
qed

lemma log_init_inv:
  assumes "log_init L exporting options p0 = (p, Inr guard)"
    and "pr_lines p0 = []" and "pr_exported p0 = []" and "pr_notified p0 = []"
  obtains sb where "process_inv sb (snd (register_env (pr_vars p0) (pr_secrets p0))) p"
    "sb_stream sb = log_stream_of (lo_transport options)" "sb_ceilings sb = lo_ceilings options"
    "sb_exports sb \<longrightarrow> exporting \<noteq> None" "sb_notifies sb \<noteq> None \<longrightarrow> lo_notifications options"
proof -
  let ?known = "snd (register_env (pr_vars p0) (pr_secrets p0))"
  obtain exports export_setup where export: "export_layer exporting (process_env p0) = (exports, export_setup)" by (meson surj_pair)
  let ?sb = "\<lparr>sb_filter = log_filter L (process_env p0), sb_ceilings = lo_ceilings options,
    sb_stream = log_stream_of (lo_transport options), sb_exports = exports,
    sb_notifies = (if lo_notifications options then error_layer_of (process_env p0) else None)\<rparr>"
  have "p = fst (installed L export_setup (p0\<lparr>pr_secrets := ?known, pr_subscriber := Some ?sb\<rparr>))"
    using assms(1) export by (auto simp: log_init_def Let_def split: if_splits prod.splits)
  moreover have "process_inv ?sb ?known (p0\<lparr>pr_secrets := ?known, pr_subscriber := Some ?sb\<rparr>)"
    using assms by (simp add: process_inv_def)
  ultimately have "process_inv ?sb ?known p" using installed_inv by simp
  moreover have "exports \<longrightarrow> exporting \<noteq> None" using export by (auto simp: export_layer_def split: option.splits)
  ultimately show ?thesis by (intro that [of ?sb]) auto
qed

text \<open>
  C32: Property: once a process has set up its logs, every line it writes from then on, whatever it logs
  and registers in between, is admitted by every ceiling of its target whatever \<^verbatim>\<open>RUST_LOG\<close> says, goes to
  stderr when stdout carries the protocol, and shows no credential its environment held when the logs
  were set up (unless that is made of the mask's own characters). Export and the error notifier
  are behind the same ceilings, and the notifier sees errors only.
\<close>

theorem log_lines_keep_off_the_protocol:
  assumes "log_init L exporting options p0 = (p, Inr guard)"
    and "pr_lines p0 = []" and "pr_exported p0 = []" and "pr_notified p0 = []"
  shows "(\<forall>(m, stream, line) \<in> set (pr_lines (run (process_step L) p es)).
       ceilings_admit (lo_ceilings options) m \<and> (lo_transport options = ''stdio'' \<longrightarrow> stream = ToStderr)
       \<and> (\<forall>(name, v) \<in> set (pr_vars p0). is_secret_name name \<and> plain_secret (trim v) \<longrightarrow> \<not> contains_text line (trim v)))
    \<and> (\<forall>m \<in> set (pr_exported (run (process_step L) p es)). ceilings_admit (lo_ceilings options) m \<and> exporting \<noteq> None)
    \<and> (\<forall>m \<in> set (pr_notified (run (process_step L) p es)).
         ceilings_admit (lo_ceilings options) m \<and> md_level m = LevelError \<and> lo_notifications options)"
proof -
  obtain sb where inv: "process_inv sb (snd (register_env (pr_vars p0) (pr_secrets p0))) p"
    and sb: "sb_stream sb = log_stream_of (lo_transport options)" "sb_ceilings sb = lo_ceilings options"
      "sb_exports sb \<longrightarrow> exporting \<noteq> None" "sb_notifies sb \<noteq> None \<longrightarrow> lo_notifications options"
    using log_init_inv [OF assms] .
  have "process_inv sb (snd (register_env (pr_vars p0) (pr_secrets p0))) (run (process_step L) p es)"
    using inv by (rule logging.run_inv)
  with sb register_env_in [of _ _ "pr_vars p0" "pr_secrets p0"] show ?thesis
    by (fastforce simp: process_inv_def admitted_def log_stream_of_def plain_secret_def)
qed

lemma emit_admitted:
  "pr_subscriber p = Some sb \<Longrightarrow> admitted sb m \<Longrightarrow> \<exists>line. pr_lines (emit L m message attrs p) = pr_lines p @ [(m, sb_stream sb, line)]"
  by (simp add: emit_def admitted_def)

lemma emit_subscriber [simp]: "pr_subscriber (emit L m message attrs p) = pr_subscriber p"
  by (simp add: emit_def split: option.split)

lemma warned_subscriber [simp]: "pr_subscriber (fold (warn_failure L) failures p) = pr_subscriber p"
  by (induction failures arbitrary: p) (simp_all add: warn_failure_def)

lemma warned_lines:
  assumes "pr_subscriber p = Some sb" and "admitted sb INIT_WARNING"
  shows "\<exists>written. pr_lines (fold (warn_failure L) failures p) = pr_lines p @ written
    \<and> length written = length failures \<and> (\<forall>(m, stream, line) \<in> set written. m = INIT_WARNING)"
  using assms(1)
proof (induction failures arbitrary: p)
  case (Cons f failures)
  obtain line where "pr_lines (warn_failure L f p) = pr_lines p @ [(INIT_WARNING, sb_stream sb, line)]"
    using emit_admitted [OF Cons.prems assms(2), of L "consequence f" "[(''error'', otel_init_error_text f)]"]
    unfolding warn_failure_def by blast
  moreover obtain written where "pr_lines (fold (warn_failure L) failures (warn_failure L f p))
      = pr_lines (warn_failure L f p) @ written" "length written = length failures"
    "\<forall>(m, stream, line) \<in> set written. m = INIT_WARNING"
    using Cons.IH [of "warn_failure L f p"] Cons.prems unfolding warn_failure_def emit_subscriber by blast
  ultimately show ?case
    by (intro exI [of _ "(INIT_WARNING, sb_stream sb, line) # written"]) auto
qed simp

text \<open>
  Property: no exporter stops a process. Its first set-up always installs a subscriber; it exports
  exactly when it has the feature, an endpoint and a span exporter that builds, with a meter unless
  the metric exporter failed; and when warnings of the set-up pass the filters, each exporter that
  failed is on a line of its own.
\<close>

theorem exporters_do_not_stop_the_process:
  assumes "pr_subscriber p0 = None"
  shows "\<exists>p guard sb written. log_init L exporting options p0 = (p, Inr guard) \<and> pr_subscriber p = Some sb
      \<and> (\<forall>providers. guard = Some providers \<longleftrightarrow>
           (\<exists>ex config. exporting = Some ex \<and> otel_config_from_env (process_env p0) = Some config
              \<and> ex_span ex (oc_endpoint config) = None
              \<and> providers = \<lparr>op_tracer = oc_service_name config, op_meter = (ex_metric ex (oc_endpoint config) = None)\<rparr>))
      \<and> sb_exports sb = (guard \<noteq> None)
      \<and> (admitted sb INIT_WARNING \<longrightarrow> pr_lines p = pr_lines p0 @ written
           \<and> length written = length (os_failures (snd (export_layer exporting (process_env p0)))))"
proof -
  note fresh = assms
  let ?known = "snd (register_env (pr_vars p0) (pr_secrets p0))"
  obtain exports export_setup where export: "export_layer exporting (process_env p0) = (exports, export_setup)" by (meson surj_pair)
  let ?sb = "\<lparr>sb_filter = log_filter L (process_env p0), sb_ceilings = lo_ceilings options,
    sb_stream = log_stream_of (lo_transport options), sb_exports = exports,
    sb_notifies = (if lo_notifications options then error_layer_of (process_env p0) else None)\<rparr>"
  let ?p = "p0\<lparr>pr_secrets := ?known, pr_subscriber := Some ?sb\<rparr>"
  have init: "log_init L exporting options p0 = (fold (warn_failure L) (os_failures export_setup) ?p, Inr (os_providers export_setup))"
    using fresh export by (simp add: log_init_def Let_def installed_def)
  have guard: "\<forall>providers. os_providers export_setup = Some providers \<longleftrightarrow>
      (\<exists>ex config. exporting = Some ex \<and> otel_config_from_env (process_env p0) = Some config
         \<and> ex_span ex (oc_endpoint config) = None
         \<and> providers = \<lparr>op_tracer = oc_service_name config, op_meter = (ex_metric ex (oc_endpoint config) = None)\<rparr>)"
    and exports: "exports = (os_providers export_setup \<noteq> None)"
    using export by (auto simp: export_layer_def pipeline_build_def split: option.splits sum.splits)
  have "\<exists>written. admitted ?sb INIT_WARNING \<longrightarrow>
      pr_lines (fold (warn_failure L) (os_failures export_setup) ?p) = pr_lines p0 @ written \<and> length written = length (os_failures export_setup)"
    using warned_lines [of ?p ?sb L "os_failures export_setup"] by auto
  then show ?thesis
    unfolding init export snd_conv
    by (elim exE) (intro exI [of _ "fold (warn_failure L) (os_failures export_setup) ?p"] exI [of _ "os_providers export_setup"]
        exI [of _ ?sb] exI conjI refl guard, simp_all add: exports)
qed

text \<open>A second set-up panics and logs nothing.\<close>

lemma second_set_up_panics:
  assumes "pr_subscriber p0 \<noteq> None"
  shows "snd (log_init L exporting options p0) = Inl () \<and> pr_lines (fst (log_init L exporting options p0)) = pr_lines p0"
  using assms by (simp add: log_init_def Let_def split: prod.split)

subsection \<open>Traces across processes\<close>

text \<open>The global propagator: a context read from a carrier, the entries written for a context, and
  whether a context names a valid span.\<close>

record 'c propagator =
  pg_extract :: "(string \<Rightarrow> string option) \<Rightarrow> string list \<Rightarrow> 'c"
  pg_inject :: "'c \<Rightarrow> (string \<times> string) list"
  pg_valid :: "'c \<Rightarrow> bool"

definition otel_context :: "'c propagator \<Rightarrow> trace_context \<Rightarrow> 'c" where
  "otel_context pg c = pg_extract pg (extract_get c) (extract_keys c)"

text \<open>A span's parent, and whether it was joined; \<open>settable\<close> is what \<^verbatim>\<open>set_parent\<close> answers.\<close>

definition join_trace :: "'c propagator \<Rightarrow> bool \<Rightarrow> trace_context \<Rightarrow> 'c option \<Rightarrow> 'c option \<times> bool" where
  "join_trace pg settable c parent =
     (let ctx = otel_context pg c in
      if \<not> pg_valid pg ctx then (parent, False)
      else if settable then (Some ctx, True)
      else (parent, False))"

record header_types =
  hy_name :: "string \<Rightarrow> string option"
  hy_value :: "string \<Rightarrow> string option"

definition inject_context :: "'c propagator \<Rightarrow> header_types \<Rightarrow> 'c \<Rightarrow> header_map \<Rightarrow> header_map" where
  "inject_context pg hy ctx headers =
     fold (\<lambda>(key, v). inject_set (hy_name hy) (hy_value hy) key v) (pg_inject pg ctx) headers"

definition UNKNOWN_HOST :: string where "UNKNOWN_HOST = ''unknown''"

text \<open>An outbound request; \<open>or_rest\<close> is its path, query and body.\<close>

record 'r outbound =
  or_method :: string
  or_host :: "string option"
  or_headers :: header_map
  or_rest :: 'r

record client_span =
  cs_name :: string
  cs_method :: string
  cs_address :: string
  cs_status :: "int option"
  cs_error :: bool

definition client_span_of :: "'r outbound \<Rightarrow> client_span" where
  "client_span_of r =
     (let host = unwrap_or (or_host r) UNKNOWN_HOST in
      \<lparr>cs_name = or_method r @ '' '' @ host, cs_method = or_method r, cs_address = host, cs_status = None,
       cs_error = False\<rparr>)"

definition record_answer :: "('e, nat \<times> 'b) result \<Rightarrow> client_span \<Rightarrow> client_span" where
  "record_answer answer s =
     (case answer of Inr (status, _) \<Rightarrow> s\<lparr>cs_status := Some (int status)\<rparr> | Inl _ \<Rightarrow> s\<lparr>cs_error := True\<rparr>)"

text \<open>\<open>next_layer\<close> sends the request on; \<open>span_context\<close> is the context of the span opened for it.\<close>

definition propagate ::
  "'c propagator \<Rightarrow> header_types \<Rightarrow> (client_span \<Rightarrow> 'c) \<Rightarrow> ('r outbound \<Rightarrow> ('e, nat \<times> 'b) result) \<Rightarrow> 'r outbound
     \<Rightarrow> 'r outbound \<times> client_span \<times> ('e, nat \<times> 'b) result" where
  "propagate pg hy span_context next_layer r =
     (let s = client_span_of r;
          r' = r\<lparr>or_headers := inject_context pg hy (span_context s) (or_headers r)\<rparr>;
          answer = next_layer r' in
      (r', record_answer answer s, answer))"

lemma inject_context_others:
  assumes "\<forall>(key, v) \<in> set (pg_inject pg ctx). hy_name hy key \<noteq> Some n"
  shows "get_all (inject_context pg hy ctx headers) n = get_all headers n"
proof -
  have "get_all (fold (\<lambda>(key, v). inject_set (hy_name hy) (hy_value hy) key v) entries headers) n = get_all headers n"
    if "\<forall>(key, v) \<in> set entries. hy_name hy key \<noteq> Some n" for entries
    using that by (induction entries arbitrary: headers)
      (auto simp: inject_set_def get_all_insert split: option.splits)
  with assms show ?thesis by (simp add: inject_context_def)
qed

text \<open>
  Property: the layer sends on the request it was given, changed in the headers the propagator
  writes only, answers what came back, and what it records of the request is its method and host:
  two requests that agree on these and get the same status leave the same span, whatever path,
  query, body or headers they have. A context the propagator writes nothing for leaves the request
  as it was.
\<close>

theorem outbound_spans_keep_urls_out:
  assumes "propagate pg hy span_context next_layer r = (r', s, answer)"
    and "propagate pg hy span_context2 next_layer2 r2 = (r2', s2, answer2)"
    and "or_method r = or_method r2" and "or_host r = or_host r2"
    and "map_option fst (case answer of Inl _ \<Rightarrow> None | Inr a \<Rightarrow> Some a) = map_option fst (case answer2 of Inl _ \<Rightarrow> None | Inr a \<Rightarrow> Some a)"
  shows "s = s2 \<and> answer = next_layer r' \<and> r' = r\<lparr>or_headers := or_headers r'\<rparr>
    \<and> (\<forall>n. (\<forall>(key, v) \<in> set (pg_inject pg (span_context (client_span_of r))). hy_name hy key \<noteq> Some n) \<longrightarrow>
         get_all (or_headers r') n = get_all (or_headers r) n)
    \<and> (pg_inject pg (span_context (client_span_of r)) = [] \<longrightarrow> r' = r)"
proof -
  have spans: "client_span_of r = client_span_of r2"
    using assms(3,4) by (simp add: client_span_of_def)
  have r': "r' = r\<lparr>or_headers := inject_context pg hy (span_context (client_span_of r)) (or_headers r)\<rparr>"
    "answer = next_layer r'" "s = record_answer answer (client_span_of r)" "s2 = record_answer answer2 (client_span_of r2)"
    using assms(1,2) by (auto simp: propagate_def Let_def)
  have "s = s2"
    using assms(5) spans r'(3,4) by (auto simp: record_answer_def split: sum.splits prod.splits)
  with r'(1,2) inject_context_others [of pg "span_context (client_span_of r)" hy] show ?thesis
    by (auto simp: inject_context_def)
qed

subsection \<open>One process\<close>

definition demo_process :: process where
  "demo_process =
     \<lparr>pr_vars = [(''API_KEY'', ''sk-live-0123''), (''RUST_LOG'', ''trace''),
                 (''OTEL_EXPORTER_OTLP_ENDPOINT'', ''http://collector'')],
      pr_secrets = [], pr_subscriber = None, pr_lines = [], pr_exported = [], pr_notified = []\<rparr>"

definition demo_log_libraries :: log_libraries where
  "demo_log_libraries =
     \<lparr>ll_directives = (\<lambda>s. if s = ''trace'' then Some (\<lambda>_. True) else None),
      ll_filter = (\<lambda>_ m. verbosity (md_level m) \<le> 3), ll_format = (\<lambda>_ message _. message), ll_lossy = (\<lambda>b. b)\<rparr>"

definition demo_options :: log_options where
  "demo_options =
     \<lparr>lo_transport = ''stdio'', lo_ceilings = [\<lparr>ce_target = ''browser'', ce_max_level = LevelDebug\<rparr>],
      lo_notifications = False\<rparr>"

definition demo_exporters :: exporters where
  "demo_exporters = \<lparr>ex_span = (\<lambda>_. None), ex_metric = (\<lambda>_. Some ''refused'')\<rparr>"

definition demo_started :: process where
  "demo_started = fst (log_init demo_log_libraries (Some demo_exporters) demo_options demo_process)"

lemma demo_init:
  "\<exists>guard. log_init demo_log_libraries (Some demo_exporters) demo_options demo_process = (demo_started, Inr guard)"
proof -
  have "\<exists>guard. snd (log_init demo_log_libraries (Some demo_exporters) demo_options demo_process) = Inr guard"
    by (simp add: log_init_def Let_def demo_process_def split: prod.split)
  then show ?thesis by (metis demo_started_def prod.collapse)
qed

lemma demo_started_admits: "\<exists>sb. pr_subscriber demo_started = Some sb \<and> admitted sb INIT_WARNING"
proof -
  have "log_filter demo_log_libraries (process_env demo_process) = (\<lambda>_. True)"
    by (simp add: log_filter_def process_env_def demo_process_def demo_log_libraries_def)
  moreover have "ceilings_admit (lo_ceilings demo_options) INIT_WARNING"
    by (simp add: demo_options_def ceilings_admit_def ceiling_admits_def ceiling_covers_def strip_prefix_def INIT_WARNING_def)
  ultimately show ?thesis
    by (simp add: demo_started_def log_init_def Let_def installed_def admitted_def split: prod.split)
      (simp add: demo_process_def)
qed

lemma demo_secret: "is_secret_name ''API_KEY''" "trim ''sk-live-0123'' = ''sk-live-0123''"
  by code_simp+

lemma log_lines_keep_off_the_protocol_witness:
  "list_all (\<lambda>(m, stream, line). stream = ToStderr \<and> \<not> contains_text line ''sk-live-0123'')
     (pr_lines (run (process_step demo_log_libraries) demo_started
       [Logs \<lparr>md_target = ''app'', md_level = LevelInfo\<rparr> ''bad key sk-live-0123'' []]))"
proof -
  obtain guard where init: "log_init demo_log_libraries (Some demo_exporters) demo_options demo_process = (demo_started, Inr guard)"
    using demo_init by blast
  have "(''API_KEY'', ''sk-live-0123'') \<in> set (pr_vars demo_process)" by (simp add: demo_process_def)
  moreover have "plain_secret (trim ''sk-live-0123'')" by (simp add: demo_secret plain_secret_def)
  moreover have "lo_transport demo_options = ''stdio''" by (simp add: demo_options_def)
  moreover have "pr_lines demo_process = []" "pr_exported demo_process = []" "pr_notified demo_process = []"
    by (simp_all add: demo_process_def)
  ultimately show ?thesis
    using log_lines_keep_off_the_protocol [OF init, of
      "[Logs \<lparr>md_target = ''app'', md_level = LevelInfo\<rparr> ''bad key sk-live-0123'' []]"] demo_secret
    unfolding list_all_iff by fastforce
qed

lemma exporters_do_not_stop_the_process_witness:
  "\<exists>p guard written. log_init demo_log_libraries (Some demo_exporters) demo_options demo_process = (p, Inr guard)
     \<and> guard = Some \<lparr>op_tracer = DEFAULT_SERVICE_NAME, op_meter = False\<rparr>
     \<and> pr_lines p = written \<and> length written = 1"
proof -
  have "pr_subscriber demo_process = None" by (simp add: demo_process_def)
  from exporters_do_not_stop_the_process [OF this, of demo_log_libraries "Some demo_exporters" demo_options]
  obtain p guard sb written where
    init: "log_init demo_log_libraries (Some demo_exporters) demo_options demo_process = (p, Inr guard)"
    and sb: "pr_subscriber p = Some sb"
    and guard: "\<And>providers. guard = Some providers \<longleftrightarrow>
           (\<exists>ex config. Some demo_exporters = Some ex \<and> otel_config_from_env (process_env demo_process) = Some config
              \<and> ex_span ex (oc_endpoint config) = None
              \<and> providers = \<lparr>op_tracer = oc_service_name config, op_meter = (ex_metric ex (oc_endpoint config) = None)\<rparr>)"
    and lines: "admitted sb INIT_WARNING \<longrightarrow> pr_lines p = pr_lines demo_process @ written
           \<and> length written = length (os_failures (snd (export_layer (Some demo_exporters) (process_env demo_process))))"
    by blast
  have config: "otel_config_from_env (process_env demo_process)
      = Some \<lparr>oc_endpoint = ''http://collector'', oc_service_name = DEFAULT_SERVICE_NAME\<rparr>"
    by (simp add: otel_config_from_env_def process_env_def demo_process_def)
  have "admitted sb INIT_WARNING"
    using demo_started_admits demo_init init sb by (metis option.inject prod.inject)
  with guard lines config init show ?thesis
    by (simp add: demo_exporters_def export_layer_def pipeline_build_def) (simp add: demo_process_def)
qed

definition demo_propagator :: "string propagator" where
  "demo_propagator =
     \<lparr>pg_extract = (\<lambda>get _. unwrap_or (get TRACEPARENT) []), pg_inject = (\<lambda>c. if c = [] then [] else [(TRACEPARENT, c)]),
      pg_valid = (\<lambda>c. c \<noteq> [])\<rparr>"

definition demo_header_types :: header_types where
  "demo_header_types = \<lparr>hy_name = Some, hy_value = Some\<rparr>"

definition demo_outbound :: "string \<Rightarrow> string outbound" where
  "demo_outbound path = \<lparr>or_method = ''GET'', or_host = Some ''api.test'', or_headers = [(''accept'', ''*'')], or_rest = path\<rparr>"

lemma outbound_spans_keep_urls_out_witness:
  "fst (snd (propagate demo_propagator demo_header_types (\<lambda>_. ''00-a'') (\<lambda>_. Inr (200, ()) :: (string, nat \<times> unit) result)
       (demo_outbound ''/a?sig=1'')))
   = fst (snd (propagate demo_propagator demo_header_types (\<lambda>_. ''00-b'') (\<lambda>_. Inr (200, ()) :: (string, nat \<times> unit) result)
       (demo_outbound ''/b'')))"
proof -
  let ?p = "propagate demo_propagator demo_header_types (\<lambda>_. ''00-a'') (\<lambda>_. Inr (200, ()) :: (string, nat \<times> unit) result)
       (demo_outbound ''/a?sig=1'')"
  let ?q = "propagate demo_propagator demo_header_types (\<lambda>_. ''00-b'') (\<lambda>_. Inr (200, ()) :: (string, nat \<times> unit) result)
       (demo_outbound ''/b'')"
  have "?p = (fst ?p, fst (snd ?p), snd (snd ?p))" "?q = (fst ?q, fst (snd ?q), snd (snd ?q))" by simp_all
  from outbound_spans_keep_urls_out [OF this] show ?thesis
    by (simp add: demo_outbound_def) (simp add: propagate_def Let_def)
qed

end
