(* ===== verification/Spec2Isabelle.thy ===== *)
theory Spec2Isabelle
  imports Guarded_Client Session Task_Manager Client_Channel Cancellation Pagination
    Mcp_Schema Modern Tool_Registry Mirror Server_System Server_Auth Http_Serve
    Service_Client Notify_Layer Caller Error_Digest Random_Id Elicitation Stdio
    Observe Computation Log_Setup
begin

text \<open>
  A verification of \<^verbatim>\<open>dravr-tronc\<close>: the trunk that Model Context Protocol servers are built on. The
  library answers JSON-RPC messages over HTTP and stdio, dispatches them to the tools of a host, and
  keeps what that takes: sessions, tasks, requests in flight, requests to the client, callers and
  their tokens. Around it are clients: a guarded fetcher, a client of other services, notifiers.
  Paths below are under the repository's \<^verbatim>\<open>src/src/\<close>.

  How the parts interact. A \<^verbatim>\<open>POST\<close> to \<^verbatim>\<open>/mcp\<close> passes the gates of the transport (\<open>Http_Gates\<close>: origin,
  host, media types, headers), is read (\<open>Json_Rpc\<close>), enters its session (\<open>Session\<close>), is admitted by
  the host's hook (\<open>Server_Auth\<close>, \<open>Iam\<close>, \<open>Caller\<close>) and dispatched (\<open>Dispatch\<close>). The dispatch
  detects the revision the client speaks (\<open>Modern\<close>), registers the request so that it can be
  cancelled (\<open>Cancellation\<close>), checks what a tool requires (\<open>Tool_Registry\<close>, \<open>Mirror\<close>), runs it, and
  frames its answer, which may be a task (\<open>Task_Data\<close>, \<open>Task_Store\<close>, \<open>Task_Manager\<close>). A running
  tool talks back over its \<open>Client_Channel\<close>, and the transport streams what it sent before its
  response (\<open>Call_Stream\<close>, \<open>Http_Transport\<close>, \<open>Http_Serve\<close>). \<open>Request_Guard\<close> stands around all of it.
  Over stdio (\<open>Stdio\<close>) the same dispatch serves one anonymous caller, a task per request, and one writer
  puts responses and the messages of running tools on stdout until the connection is drained.

  Theories, in the order they build on each other, and the code each models:
  \<^item> \<open>Prelude\<close>, \<open>Rust_Str\<close>, \<open>Rust_Num\<close>, \<open>Machine\<close>, \<open>Json\<close>: tables for \<^verbatim>\<open>HashMap\<close>, results for
    \<^verbatim>\<open>Result\<close>, the string and number functions of the standard library the code uses, \<^verbatim>\<open>serde_json\<close>
    values, and the locales of state machines: \<open>machine\<close> (an invariant kept by every step, hence by
    every run) and \<open>settling_machine\<close> (a fact that stays once it holds). Components that keep state
    over any order of events interpret them on their own step functions.
  \<^item> \<open>Ip_Addr\<close>, \<open>Deny_List\<close>, \<open>Fetch_Policy\<close>, \<open>Guarded_Client\<close>: \<^verbatim>\<open>fetch_guard/\<close>, the client that
    reaches only what a policy allows.
  \<^item> \<open>Json_Rpc\<close> (\<^verbatim>\<open>mcp/protocol.rs\<close>), \<open>Mcp_Schema\<close> (\<^verbatim>\<open>mcp/schema.rs\<close>), \<open>Modern\<close> (\<^verbatim>\<open>mcp/modern.rs\<close>),
    \<open>Log_Level\<close> (\<^verbatim>\<open>mcp/logging.rs\<close>), \<open>Pagination\<close> (\<^verbatim>\<open>mcp/pagination.rs\<close>), \<open>Mirror\<close>
    (\<^verbatim>\<open>mcp/transport/mirror.rs\<close>): messages and their parts.
  \<^item> \<open>Caller_Key\<close>, \<open>Client_Channel\<close> (\<^verbatim>\<open>mcp/client_channel.rs\<close>), \<open>Elicitation\<close> (\<^verbatim>\<open>mcp/elicitation.rs\<close>),
    \<open>Session\<close> (\<^verbatim>\<open>mcp/session.rs\<close>), \<open>Cancellation\<close> (\<^verbatim>\<open>mcp/cancellation.rs\<close>), \<open>Random_Id\<close>
    (\<^verbatim>\<open>mcp/random_id.rs\<close>), \<open>Task_Data\<close>, \<open>Task_Store\<close>, \<open>Task_Manager\<close> (\<^verbatim>\<open>mcp/tasks.rs\<close>),
    \<open>Tool_Registry\<close> (\<^verbatim>\<open>mcp/tool.rs\<close>, \<^verbatim>\<open>mcp/validation.rs\<close>): the state a server keeps; \<open>Computation\<close>
    (\<^verbatim>\<open>mcp/computation.rs\<close>): tools made of one function.
  \<^item> \<open>Dispatch\<close> (\<^verbatim>\<open>mcp/server.rs\<close>, \<^verbatim>\<open>mcp/host.rs\<close>), \<open>Dispatch_Correct\<close> and \<open>Server_System\<close>: one message,
    and a server over every interleaving of its messages; \<open>Observe\<close> (\<^verbatim>\<open>mcp/observe/\<close>): what an
    observer is told of that server, and the observer for OpenTelemetry.
  \<^item> \<open>Server_Auth\<close> (\<^verbatim>\<open>server/auth.rs\<close>, \<^verbatim>\<open>mcp/auth.rs\<close>), \<open>Http_Gates\<close>, \<open>Call_Stream\<close>,
    \<open>Http_Transport\<close>, \<open>Http_Serve\<close> (\<^verbatim>\<open>mcp/transport/http.rs\<close>), \<open>Request_Guard\<close>
    (\<^verbatim>\<open>server/request_guard.rs\<close>, \<^verbatim>\<open>server/shed.rs\<close>), \<open>Trace_Context\<close> (\<^verbatim>\<open>server/trace_context.rs\<close>,
    \<^verbatim>\<open>server/log_ceiling.rs\<close>, \<^verbatim>\<open>server/health.rs\<close>): the endpoint and what stands around it; \<open>Stdio\<close>
    (\<^verbatim>\<open>mcp/transport/stdio.rs\<close>): the connection over a pair of pipes, its loop, tasks and writer.
  \<^item> \<open>Iam\<close> (\<^verbatim>\<open>iam/\<close>), \<open>Resource_Metadata\<close> (\<^verbatim>\<open>mcp/resource_metadata/\<close>), \<open>Caller\<close>
    (\<^verbatim>\<open>mcp/caller.rs\<close>): who calls.
  \<^item> \<open>Service_Client\<close> (\<^verbatim>\<open>service_client/\<close>), \<open>Secrets\<close> (\<^verbatim>\<open>secrets.rs\<close>), \<open>Notify_Layer\<close> (\<^verbatim>\<open>notify/\<close>),
    \<open>Notifications\<close> and \<open>Error_Digest\<close> (\<^verbatim>\<open>notifications/\<close>): what the process sends elsewhere; \<open>Log_Setup\<close>
    (\<^verbatim>\<open>server/tracing_init.rs\<close>, \<^verbatim>\<open>http_client/trace.rs\<close>): its log lines, its exports and its traces.

  Conventions. A struct is a record whose field prefix abbreviates its name, an enum a datatype
  with the source's constructors, a \<^verbatim>\<open>Result\<close> a sum with \<open>Inl\<close> for \<^verbatim>\<open>Err\<close>. A \<^verbatim>\<open>HashMap\<close> is a table in
  one of its orders, so that a theorem covers every order. Instants and durations are nanoseconds,
  and the clock is an argument. Integers keep their width where the code relies on it: addresses and
  random bytes are words, parsed numbers are refused beyond their bound. Shared objects (sessions,
  queues, tokens, tables) are numbers into an explicit store. Code that awaits is cut where it
  awaits, and the pieces are the steps of an event machine, so that the theorems quantify over
  every interleaving; a lock held across statements makes them one step.
  Packages the repository only calls (\<^verbatim>\<open>reqwest\<close>, \<^verbatim>\<open>jsonwebtoken\<close>, \<^verbatim>\<open>url\<close>, \<^verbatim>\<open>base64\<close>, \<^verbatim>\<open>jsonschema\<close>, the
  JSON parser, HMAC, the random source, the system resolver) are parameters, records of functions
  where there are several, and what a theorem needs of them is a hypothesis with their documented
  behaviour.

  What the lemmas show. Each theory proves the invariant of its state and that every operation keeps
  it, the result of each operation on each of its branches, and the properties that follow for
  every sequence of events. Across theories: a call over HTTP runs as the caller the hook admitted,
  in that caller's own session, and a client hears everything its call sent it before the response;
  cancelled requests run nothing; tasks settle once and are reached by their owner only; tools for a
  tenant's rows run for verified tenants only; no connection goes to a denied address; secrets
  registered leave in no log line or notification; an observer changes nothing and is told of the end
  of every operation it saw start. Texts written for another party (messages, task
  states, forms, header values, challenges) read back as themselves.

  Bounds and fuel. Nothing here runs on fuel. Loops that retry end by a measure: the posts of
  \<open>send_with_retry\<close> and \<open>posthog_send\<close> by the attempts left of \<open>MAX_RETRIES\<close> and \<open>MAX_ATTEMPTS\<close>,
  redirects by the hops left, \<open>stream_events\<close> by the messages left to send, the shutdown of a stdio
  connection by the messages its writer has left (\<open>writer_left\<close>), decimal and hexadecimal
  texts by the number. The registry's serial numbers wrap at \<open>2 ^ 64\<close>; its theorems say so.

  Not modelled, and why. The command line is two argument records a derive library reads; the test kit
  and the examples are not part of the running program. Of modelled files: the timer loop of the task
  sweeper beyond its period, the exporters behind the spans and the histogram, request builders of the guarded client that only forward to \<^verbatim>\<open>reqwest\<close>, schema
  types with no behaviour here (progress, sampling and completion parameters), \<^verbatim>\<open>Debug\<close> printers.
\<close>

end
